(* ===== verification/Haruki_Prelude.thy ===== *)
theory Haruki_Prelude
  imports Complex_Main "HOL-Library.Word" "HOL-Library.List_Lexorder" "HOL-Library.Char_ord"
    "HOL-Library.AList" "HOL-Library.Product_Lexorder" "HOL-Library.Multiset"
begin

text \<open>
  Shared vocabulary of the development: the result type of fallible Rust code, the parts of
  \<^verbatim>\<open>std\<close> the sources use on strings, integers and ordered maps, and the generic
  lemmas the component theories rely on.

  A Rust \<^verbatim>\<open>String\<close> is a \<^typ>\<open>string\<close> holding its UTF-8 bytes (a \<^typ>\<open>char\<close> is
  one byte), so lengths, byte offsets and the byte-wise order of \<^verbatim>\<open>str::cmp\<close> agree
  with the program. Case conversion is the ASCII one; it is exact on ASCII text, which all the
  literals of the sources are.
\<close>

unbundle bit_operations_syntax

named_theorems codec_simps \<open>byte-level encoders and decoders\<close>
named_theorems str_simps \<open>string operations of the standard library\<close>
named_theorems res_simps \<open>results and their sequencing\<close>

section \<open>Results\<close>

text \<open>\<^verbatim>\<open>Result<T, E>\<close> is \<open>'e + 't\<close>: \<open>Inl\<close> is \<^verbatim>\<open>Err\<close>, \<open>Inr\<close> is \<^verbatim>\<open>Ok\<close>;
  \<open>res_bind\<close> is the question-mark operator.\<close>

definition res_bind :: "'e + 'a \<Rightarrow> ('a \<Rightarrow> 'e + 'b) \<Rightarrow> 'e + 'b" where
  "res_bind r f = (case r of Inl e \<Rightarrow> Inl e | Inr x \<Rightarrow> f x)"

lemma res_bind_Inl [simp, res_simps]: "res_bind (Inl e) f = Inl e"
  by (simp add: res_bind_def)

lemma res_bind_Inr [simp, res_simps]: "res_bind (Inr x) f = f x"
  by (simp add: res_bind_def)

lemma res_bind_eq_Inr [res_simps]:
  "res_bind r f = Inr y \<longleftrightarrow> (\<exists>x. r = Inr x \<and> f x = Inr y)"
  by (cases r) auto

lemma res_bind_eq_Inl [res_simps]:
  "res_bind r f = Inl e \<longleftrightarrow> r = Inl e \<or> (\<exists>x. r = Inr x \<and> f x = Inl e)"
  by (cases r) auto

definition ok_or :: "'e \<Rightarrow> 'a option \<Rightarrow> 'e + 'a" where
  "ok_or e x = (case x of None \<Rightarrow> Inl e | Some v \<Rightarrow> Inr v)"

lemma ok_or_simps [simp, res_simps]: "ok_or e None = Inl e" "ok_or e (Some v) = Inr v"
  by (simp_all add: ok_or_def)

lemma ok_or_eq_Inr [simp]: "ok_or e x = Inr v \<longleftrightarrow> x = Some v"
  by (cases x) auto

definition is_ok :: "'e + 'a \<Rightarrow> bool" where
  "is_ok r = (case r of Inl _ \<Rightarrow> False | Inr _ \<Rightarrow> True)"

lemma is_ok_simps [simp]: "\<not> is_ok (Inl e)" "is_ok (Inr x)"
  by (simp_all add: is_ok_def)

definition unwrap_or :: "'a \<Rightarrow> 'a option \<Rightarrow> 'a" where
  "unwrap_or d x = (case x of None \<Rightarrow> d | Some v \<Rightarrow> v)"

lemma unwrap_or_simps [simp]: "unwrap_or d None = d" "unwrap_or d (Some v) = v"
  by (simp_all add: unwrap_or_def)

definition opt_or :: "'a option \<Rightarrow> 'a option \<Rightarrow> 'a option" where
  "opt_or x y = (case x of None \<Rightarrow> y | Some v \<Rightarrow> Some v)"

lemma opt_or_simps [simp]: "opt_or None y = y" "opt_or (Some v) y = Some v"
  by (simp_all add: opt_or_def)

text \<open>\<^verbatim>\<open>Option::filter\<close>.\<close>

definition opt_filter :: "('a \<Rightarrow> bool) \<Rightarrow> 'a option \<Rightarrow> 'a option" where
  "opt_filter P x = (case x of None \<Rightarrow> None | Some v \<Rightarrow> if P v then Some v else None)"

lemma opt_filter_eq_Some [simp]: "opt_filter P x = Some v \<longleftrightarrow> x = Some v \<and> P v"
  by (auto simp: opt_filter_def split: option.splits)

lemma opt_filter_None [simp]: "opt_filter P None = None"
  by (simp add: opt_filter_def)

text \<open>A loop over a list whose body may fail and stops at the first error.\<close>

fun try_all :: "('a \<Rightarrow> 'e + unit) \<Rightarrow> 'a list \<Rightarrow> 'e + unit" where
  "try_all f [] = Inr ()"
| "try_all f (x # xs) = res_bind (f x) (\<lambda>_. try_all f xs)"

lemma try_all_ok [res_simps]: "try_all f xs = Inr () \<longleftrightarrow> (\<forall>x\<in>set xs. f x = Inr ())"
  by (induction xs) (auto simp: res_bind_eq_Inr)

lemma try_all_Inr [res_simps]: "try_all f xs = Inr u \<longleftrightarrow> (\<forall>x\<in>set xs. f x = Inr ())"
  using try_all_ok [of f xs] by (cases u) simp

lemma try_all_Inl: "try_all f xs = Inl e \<Longrightarrow> \<exists>x\<in>set xs. f x = Inl e"
  by (induction xs) (auto simp: res_bind_eq_Inl)

fun map_res :: "('a \<Rightarrow> 'e + 'b) \<Rightarrow> 'a list \<Rightarrow> 'e + 'b list" where
  "map_res f [] = Inr []"
| "map_res f (x # xs) = res_bind (f x) (\<lambda>y. res_bind (map_res f xs) (\<lambda>ys. Inr (y # ys)))"

lemma map_res_Inr: "map_res f xs = Inr ys \<longleftrightarrow> list_all2 (\<lambda>x y. f x = Inr y) xs ys"
  by (induction xs arbitrary: ys) (auto simp: res_bind_eq_Inr list_all2_Cons1)

section \<open>Machine integers\<close>

type_synonym byte = "8 word"
type_synonym bytes = "byte list"
type_synonym u32 = "32 word"
type_synonym u64 = "64 word"

text \<open>Where the sources only ever saturate or compare, \<^verbatim>\<open>usize\<close> and \<^verbatim>\<open>u64\<close> are \<^typ>\<open>nat\<close>
  with the saturation written out.\<close>

definition u64_max :: nat where "u64_max = 2 ^ 64 - 1"
definition usize_max :: nat where "usize_max = 2 ^ 64 - 1"
definition u32_max :: nat where "u32_max = 2 ^ 32 - 1"

definition sat_mul :: "nat \<Rightarrow> nat \<Rightarrow> nat" where
  "sat_mul a b = min (a * b) usize_max"

lemma sat_mul_le_max [simp]: "sat_mul a b \<le> usize_max"
  by (simp add: sat_mul_def)

lemma sat_mul_ge: "0 < b \<Longrightarrow> a \<le> usize_max \<Longrightarrow> a \<le> sat_mul a b"
  by (cases b) (auto simp: sat_mul_def)

lemma sat_mul_le: "sat_mul a b \<le> a * b"
  by (simp add: sat_mul_def)

definition div_ceil :: "nat \<Rightarrow> nat \<Rightarrow> nat" where
  "div_ceil a b = (if a mod b = 0 then a div b else a div b + 1)"

lemma div_ceil_bounds:
  assumes "0 < b"
  shows "a \<le> div_ceil a b * b" and "div_ceil a b * b < a + b"
proof -
  have split: "a = a div b * b + a mod b" by simp
  show "a \<le> div_ceil a b * b"
  proof (cases "a mod b = 0")
    case True
    then show ?thesis by (auto simp: div_ceil_def)
  next
    case False
    have "a mod b < b" using assms by simp
    then have "a \<le> a div b * b + b" using split by linarith
    with False show ?thesis by (simp add: div_ceil_def)
  qed
  show "div_ceil a b * b < a + b"
  proof (cases "a mod b = 0")
    case True
    then show ?thesis using assms by (auto simp: div_ceil_def)
  next
    case False
    have "div_ceil a b * b = a div b * b + b" using False by (simp add: div_ceil_def)
    also have "\<dots> < a + b" using False split by linarith
    finally show ?thesis .
  qed
qed

text \<open>\<^verbatim>\<open>u32::to_be_bytes\<close> and \<^verbatim>\<open>u32::from_be_bytes\<close>.\<close>

definition to_be_bytes :: "u32 \<Rightarrow> bytes" where
  "to_be_bytes w = [ucast (drop_bit 24 w), ucast (drop_bit 16 w), ucast (drop_bit 8 w), ucast w]"

fun from_be_bytes :: "bytes \<Rightarrow> u32" where
  "from_be_bytes [a, b, c, d] =
     push_bit 24 (ucast a) OR push_bit 16 (ucast b) OR push_bit 8 (ucast c) OR ucast d"
| "from_be_bytes _ = 0"

lemma length_to_be_bytes [simp, codec_simps]: "length (to_be_bytes w) = 4"
  by (simp add: to_be_bytes_def)

lemma from_to_be_bytes [simp, codec_simps]: "from_be_bytes (to_be_bytes w) = w"
  unfolding to_be_bytes_def from_be_bytes.simps
proof (rule bit_word_eqI)
  fix n assume "n < LENGTH(32)"
  then consider "n < 8" | "8 \<le> n \<and> n < 16" | "16 \<le> n \<and> n < 24" | "24 \<le> n \<and> n < 32"
    by fastforce
  then show "bit (push_bit 24 (ucast (ucast (drop_bit 24 w) :: byte) :: u32) OR
      push_bit 16 (ucast (ucast (drop_bit 16 w) :: byte)) OR
      push_bit 8 (ucast (ucast (drop_bit 8 w) :: byte)) OR ucast (ucast w :: byte)) n = bit w n"
    by cases (auto simp: bit_simps)
qed

lemma to_be_bytes_inj: "to_be_bytes v = to_be_bytes w \<longleftrightarrow> v = w"
  by (metis from_to_be_bytes)

section \<open>Decimal text\<close>

fun show_nat :: "nat \<Rightarrow> string" where
  "show_nat n = (if n < 10 then [char_of (48 + n)]
                 else show_nat (n div 10) @ [char_of (48 + n mod 10)])"

declare show_nat.simps [simp del]

definition show_int :: "int \<Rightarrow> string" where
  "show_int i = (if i < 0 then ''-'' @ show_nat (nat (- i)) else show_nat (nat i))"

definition is_digit :: "char \<Rightarrow> bool" where
  "is_digit c \<longleftrightarrow> 48 \<le> (of_char c :: nat) \<and> (of_char c :: nat) \<le> 57"

definition read_digits :: "string \<Rightarrow> nat" where
  "read_digits s = foldl (\<lambda>n c. n * 10 + (of_char c - 48)) 0 s"

lemma of_char_digit [simp]: "n < 10 \<Longrightarrow> of_char (char_of (48 + n) :: char) = (48 + n :: nat)"
  by (simp add: of_char_of)

lemma read_show_nat [simp]: "read_digits (show_nat n) = n"
proof (induction n rule: show_nat.induct)
  case (1 n)
  show ?case
  proof (cases "n < 10")
    case True
    then show ?thesis by (subst show_nat.simps) (simp add: read_digits_def)
  next
    case False
    with "1.IH" have "read_digits (show_nat (n div 10)) = n div 10" by simp
    then have "foldl (\<lambda>n c. n * 10 + (of_char c - 48)) 0 (show_nat (n div 10)) = n div 10"
      by (simp add: read_digits_def)
    with False show ?thesis
      by (subst show_nat.simps) (simp add: read_digits_def)
  qed
qed

lemma show_nat_digits: "list_all is_digit (show_nat n)"
proof (induction n rule: show_nat.induct)
  case (1 n)
  have "is_digit (char_of (48 + k :: nat))" if "k < 10" for k
    using that by (simp add: is_digit_def)
  with "1" show ?case
    by (subst show_nat.simps) simp
qed

lemma show_nat_nonempty [simp]: "show_nat n \<noteq> []"
  by (subst show_nat.simps) simp

lemma show_nat_inj [simp]: "show_nat m = show_nat n \<longleftrightarrow> m = n"
  by (metis read_show_nat)

lemma show_nat_not_minus: "show_nat n \<noteq> CHR ''-'' # s"
  using show_nat_digits [of n] by (auto simp: is_digit_def)

lemma show_int_inj [simp]: "show_int i = show_int j \<longleftrightarrow> i = j"
  using show_nat_not_minus
  by (auto simp: show_int_def not_less nat_eq_iff split: if_splits) (metis show_nat_not_minus)+

text \<open>\<^verbatim>\<open>str::parse::<usize>\<close>: an optional plus sign, at least one digit, no overflow.\<close>

definition parse_usize :: "string \<Rightarrow> nat option" where
  "parse_usize s =
     (let t = (case s of c # cs \<Rightarrow> if c = CHR ''+'' then cs else s | [] \<Rightarrow> s)
      in if t \<noteq> [] \<and> list_all is_digit t \<and> read_digits t \<le> usize_max
         then Some (read_digits t) else None)"

lemma show_nat_not_plus: "show_nat n \<noteq> CHR ''+'' # s"
  using show_nat_digits [of n] by (auto simp: is_digit_def)

lemma parse_usize_show: "n \<le> usize_max \<Longrightarrow> parse_usize (show_nat n) = Some n"
proof -
  assume n: "n \<le> usize_max"
  have "(case show_nat n of c # cs \<Rightarrow> if c = CHR ''+'' then cs else show_nat n | [] \<Rightarrow> show_nat n)
      = show_nat n"
    using show_nat_not_plus [of n] by (cases "show_nat n") auto
  with n show ?thesis
    by (simp only: parse_usize_def Let_def) (simp add: show_nat_digits)
qed

lemma parse_usize_bound: "parse_usize s = Some n \<Longrightarrow> n \<le> usize_max"
  by (auto simp: parse_usize_def Let_def split: if_splits)

section \<open>Strings\<close>

definition starts_with :: "'a list \<Rightarrow> 'a list \<Rightarrow> bool" where
  "starts_with p s \<longleftrightarrow> take (length p) s = p"

definition ends_with :: "'a list \<Rightarrow> 'a list \<Rightarrow> bool" where
  "ends_with p s \<longleftrightarrow> length p \<le> length s \<and> drop (length s - length p) s = p"

lemma starts_with_iff [str_simps]: "starts_with p s \<longleftrightarrow> (\<exists>t. s = p @ t)"
  by (metis append_eq_conv_conj append_take_drop_id starts_with_def)

lemma ends_with_iff [str_simps]: "ends_with p s \<longleftrightarrow> (\<exists>t. s = t @ p)"
  by (auto simp: ends_with_def) (metis append_take_drop_id)

lemma starts_with_append [simp]: "starts_with p (p @ t)"
  by (simp add: starts_with_def)

lemma starts_with_Nil [simp]: "starts_with [] s"
  by (simp add: starts_with_def)

definition strip_prefix :: "'a list \<Rightarrow> 'a list \<Rightarrow> 'a list option" where
  "strip_prefix p s = (if starts_with p s then Some (drop (length p) s) else None)"

definition strip_suffix :: "'a list \<Rightarrow> 'a list \<Rightarrow> 'a list option" where
  "strip_suffix p s = (if ends_with p s then Some (take (length s - length p) s) else None)"

lemma strip_prefix_Some [simp]: "strip_prefix p s = Some t \<longleftrightarrow> s = p @ t"
  by (auto simp: strip_prefix_def starts_with_def) (metis append_take_drop_id)

lemma strip_prefix_None: "strip_prefix p s = None \<longleftrightarrow> (\<forall>t. s \<noteq> p @ t)"
  using strip_prefix_Some by (metis option.exhaust option.distinct(1))

lemma strip_suffix_Some [simp]: "strip_suffix p s = Some t \<longleftrightarrow> s = t @ p"
  by (auto simp: strip_suffix_def ends_with_def) (metis append_take_drop_id)

text \<open>Byte offset of the first occurrence (\<^verbatim>\<open>str::find\<close>), and \<^verbatim>\<open>str::contains\<close>.\<close>

fun find_sub :: "'a list \<Rightarrow> 'a list \<Rightarrow> nat option" where
  "find_sub p s =
     (if starts_with p s then Some 0
      else case s of [] \<Rightarrow> None | _ # cs \<Rightarrow> map_option Suc (find_sub p cs))"

declare find_sub.simps [simp del]

definition contains_sub :: "'a list \<Rightarrow> 'a list \<Rightarrow> bool" where
  "contains_sub p s \<longleftrightarrow> find_sub p s \<noteq> None"

lemma find_sub_Some: "find_sub p s = Some i \<Longrightarrow> i \<le> length s \<and> starts_with p (drop i s)"
proof (induction s arbitrary: i)
  case Nil
  then show ?case by (subst (asm) find_sub.simps) (auto split: if_splits)
next
  case (Cons c s)
  then show ?case by (subst (asm) find_sub.simps) (auto split: if_splits)
qed

lemma find_sub_None: "find_sub p s = None \<Longrightarrow> \<not> starts_with p (drop i s)"
proof (induction s arbitrary: i)
  case Nil
  then show ?case by (subst (asm) find_sub.simps) (auto split: if_splits)
next
  case (Cons c s)
  then show ?case
    by (subst (asm) find_sub.simps) (cases i; auto split: if_splits)
qed

lemma contains_sub_iff: "contains_sub p s \<longleftrightarrow> (\<exists>a b. s = a @ p @ b)"
proof
  assume "contains_sub p s"
  then obtain i where "find_sub p s = Some i" by (auto simp: contains_sub_def)
  then have "starts_with p (drop i s)" by (auto dest: find_sub_Some)
  then obtain b where "drop i s = p @ b" by (auto simp: starts_with_iff)
  then have "s = take i s @ p @ b" by (metis append_take_drop_id)
  then show "\<exists>a b. s = a @ p @ b" by blast
next
  assume "\<exists>a b. s = a @ p @ b"
  then obtain a b where "s = a @ p @ b" by blast
  then have "starts_with p (drop (length a) s)" by simp
  then show "contains_sub p s" using find_sub_None [of p s] by (auto simp: contains_sub_def)
qed

text \<open>\<^verbatim>\<open>str::replace\<close> with a non-empty pattern: leftmost matches, not overlapping, the
  replacement is not scanned again.\<close>

function str_replace :: "'a list \<Rightarrow> 'a list \<Rightarrow> 'a list \<Rightarrow> 'a list" where
  "str_replace p r s =
     (if p = [] then s
      else if starts_with p s \<and> s \<noteq> [] then r @ str_replace p r (drop (length p) s)
      else case s of [] \<Rightarrow> [] | c # cs \<Rightarrow> c # str_replace p r cs)"
  by pat_completeness auto
termination
  by (relation "measure (\<lambda>(p, r, s). length s)") (auto simp: Nil_is_append_conv)

declare str_replace.simps [simp del]

lemma str_replace_no_match: "\<not> contains_sub p s \<Longrightarrow> str_replace p r s = s"
proof (induction p r s rule: str_replace.induct)
  case (1 p r s)
  have nm: "\<not> starts_with p s"
    using "1.prems" by (auto simp: contains_sub_iff starts_with_iff)
  show ?case
  proof (cases s)
    case Nil
    then show ?thesis by (subst str_replace.simps) simp
  next
    case (Cons c cs)
    have "\<not> contains_sub p cs"
      using "1.prems" Cons by (auto simp: contains_sub_iff) (metis append_Cons)
    then show ?thesis
      using "1.IH"(2) [OF _ _ Cons] nm Cons by (subst str_replace.simps) auto
  qed
qed

text \<open>Replacing one byte by one byte (\<^verbatim>\<open>replace('\\', "/")\<close>).\<close>

definition replace_char :: "char \<Rightarrow> char \<Rightarrow> string \<Rightarrow> string" where
  "replace_char a b s = map (\<lambda>c. if c = a then b else c) s"

lemma replace_char_absent [simp]: "a \<noteq> b \<Longrightarrow> a \<notin> set (replace_char a b s)"
  by (auto simp: replace_char_def)

lemma replace_char_length [simp]: "length (replace_char a b s) = length s"
  by (simp add: replace_char_def)

text \<open>\<^verbatim>\<open>str::split(char)\<close>: one more piece than separators.\<close>

fun split_char :: "'a \<Rightarrow> 'a list \<Rightarrow> 'a list list" where
  "split_char d [] = [[]]"
| "split_char d (c # cs) =
     (if c = d then [] # split_char d cs
      else (c # hd (split_char d cs)) # tl (split_char d cs))"

lemma split_char_nonempty [simp]: "split_char d s \<noteq> []"
  by (cases s) auto

fun join_with :: "'a list \<Rightarrow> 'a list list \<Rightarrow> 'a list" where
  "join_with d [] = []"
| "join_with d [x] = x"
| "join_with d (x # y # xs) = x @ d @ join_with d (y # xs)"

lemma join_with_Cons: "xs \<noteq> [] \<Longrightarrow> join_with d (x # xs) = x @ d @ join_with d xs"
  by (cases xs) auto

lemma join_split_char: "join_with [d] (split_char d s) = s"
proof (induction s)
  case Nil
  then show ?case by simp
next
  case (Cons c cs)
  show ?case
  proof (cases "c = d")
    case True
    with Cons show ?thesis by (simp add: join_with_Cons)
  next
    case False
    obtain x xs where sp: "split_char d cs = x # xs" by (cases "split_char d cs") auto
    with Cons False show ?thesis by (cases xs) auto
  qed
qed

lemma split_char_no_sep: "x \<in> set (split_char d s) \<Longrightarrow> d \<notin> set x"
proof (induction s arbitrary: x)
  case Nil
  then show ?case by simp
next
  case (Cons c cs)
  obtain y ys where sp: "split_char d cs = y # ys" by (cases "split_char d cs") auto
  show ?case
  proof (cases "c = d")
    case True
    with Cons show ?thesis by auto
  next
    case False
    with Cons sp show ?thesis by (auto simp: sp)
  qed
qed

lemma split_char_absent: "d \<notin> set s \<Longrightarrow> split_char d s = [s]"
  by (induction s) auto

lemma split_char_append: "d \<notin> set x \<Longrightarrow> split_char d (x @ d # s) = x # split_char d s"
  by (induction x) auto

lemma split_join_char:
  "xs \<noteq> [] \<Longrightarrow> \<forall>x\<in>set xs. d \<notin> set x \<Longrightarrow> split_char d (join_with [d] xs) = xs"
  by (induction "[d]" xs rule: join_with.induct) (auto simp: split_char_absent split_char_append)

text \<open>\<^verbatim>\<open>str::split(str)\<close> with a non-empty separator.\<close>

function split_str :: "'a list \<Rightarrow> 'a list \<Rightarrow> 'a list list" where
  "split_str d s =
     (case find_sub d s of
        None \<Rightarrow> [s]
      | Some i \<Rightarrow> if d = [] then [s] else take i s # split_str d (drop (i + length d) s))"
  by pat_completeness auto
termination
proof (relation "measure (\<lambda>(d, s). length s)")
  fix d s :: "'a list" and i
  assume i: "find_sub d s = Some i" and d: "d \<noteq> []"
  have "length d \<le> length s - i" "i \<le> length s"
    using find_sub_Some [OF i] by (auto simp: starts_with_iff dest: arg_cong [where f = length])
  with d show "((d, drop (i + length d) s), d, s) \<in> measure (\<lambda>(d, s). length s)"
    by (cases d) auto
qed simp

declare split_str.simps [simp del]

lemma split_str_nonempty [simp]: "split_str d s \<noteq> []"
  by (subst split_str.simps) (auto split: option.splits)

text \<open>\<^verbatim>\<open>split_once\<close> at the first and \<^verbatim>\<open>rsplit_once\<close> at the last separator byte.\<close>

fun split_once :: "'a \<Rightarrow> 'a list \<Rightarrow> ('a list \<times> 'a list) option" where
  "split_once d [] = None"
| "split_once d (c # cs) =
     (if c = d then Some ([], cs) else map_option (\<lambda>(a, b). (c # a, b)) (split_once d cs))"

lemma split_once_Some: "split_once d s = Some (a, b) \<longleftrightarrow> s = a @ d # b \<and> d \<notin> set a"
proof (induction s arbitrary: a)
  case Nil
  then show ?case by simp
next
  case (Cons c cs)
  note IH = Cons.IH
  show ?case
  proof (cases a)
    case Nil
    then show ?thesis by auto
  next
    case (Cons x xs)
    then show ?thesis using IH [of xs] by auto
  qed
qed

lemma split_once_None: "split_once d s = None \<longleftrightarrow> d \<notin> set s"
  by (induction s) auto

definition rsplit_once :: "'a \<Rightarrow> 'a list \<Rightarrow> ('a list \<times> 'a list) option" where
  "rsplit_once d s = map_option (\<lambda>(a, b). (rev b, rev a)) (split_once d (rev s))"

lemma rsplit_once_Some: "rsplit_once d s = Some (a, b) \<longleftrightarrow> s = a @ d # b \<and> d \<notin> set b"
proof -
  have "rsplit_once d s = Some (a, b) \<longleftrightarrow> split_once d (rev s) = Some (rev b, rev a)"
    by (auto simp: rsplit_once_def)
  also have "\<dots> \<longleftrightarrow> rev s = rev (a @ d # b) \<and> d \<notin> set b"
    by (simp add: split_once_Some)
  finally show ?thesis by (simp only: rev_is_rev_conv)
qed

lemma rsplit_once_None: "rsplit_once d s = None \<longleftrightarrow> d \<notin> set s"
  by (simp add: rsplit_once_def split_once_None)

definition trim_start_matches :: "'a \<Rightarrow> 'a list \<Rightarrow> 'a list" where
  "trim_start_matches c = dropWhile (\<lambda>x. x = c)"

definition trim_end_matches :: "'a \<Rightarrow> 'a list \<Rightarrow> 'a list" where
  "trim_end_matches c s = rev (dropWhile (\<lambda>x. x = c) (rev s))"

definition trim_matches :: "'a \<Rightarrow> 'a list \<Rightarrow> 'a list" where
  "trim_matches c s = rev (dropWhile (\<lambda>x. x = c) (rev (dropWhile (\<lambda>x. x = c) s)))"

lemma trim_matches_ends:
  "trim_matches c s \<noteq> [] \<Longrightarrow> hd (trim_matches c s) \<noteq> c \<and> last (trim_matches c s) \<noteq> c"
proof -
  let ?t = "dropWhile (\<lambda>x. x = c) s"
  assume ne: "trim_matches c s \<noteq> []"
  then have ne': "dropWhile (\<lambda>x. x = c) (rev ?t) \<noteq> []" by (simp add: trim_matches_def)
  then have "?t \<noteq> []" by (metis dropWhile.simps(1) rev.simps(1))
  then have "hd ?t \<noteq> c" by (metis (mono_tags) hd_dropWhile)
  obtain k where k: "trim_matches c s = take k ?t"
    by (metis dropWhile_eq_drop rev_drop rev_rev_ident trim_matches_def)
  with ne have "hd (trim_matches c s) = hd ?t" by (cases ?t; cases k) auto
  moreover have "last (trim_matches c s) = hd (dropWhile (\<lambda>x. x = c) (rev ?t))"
    by (simp add: trim_matches_def last_rev)
  moreover have "hd (dropWhile (\<lambda>x. x = c) (rev ?t)) \<noteq> c"
    using ne' by (metis (mono_tags) hd_dropWhile)
  ultimately show ?thesis using \<open>hd ?t \<noteq> c\<close> by simp
qed

text \<open>White space in the sense of \<^verbatim>\<open>char::is_whitespace\<close>, recognised on UTF-8 bytes: the number
  of bytes of the white-space character a byte list starts with, 0 when it starts with another.\<close>

fun ws3 :: "nat \<Rightarrow> nat \<Rightarrow> nat \<Rightarrow> bool" where
  "ws3 a b c \<longleftrightarrow> (a = 225 \<and> b = 154 \<and> c = 128)
     \<or> (a = 226 \<and> b = 128 \<and> (128 \<le> c \<and> c \<le> 138 \<or> c = 168 \<or> c = 169 \<or> c = 175))
     \<or> (a = 226 \<and> b = 129 \<and> c = 159)
     \<or> (a = 227 \<and> b = 128 \<and> c = 128)"

definition ws_len :: "nat list \<Rightarrow> nat" where
  "ws_len s = (case s of
     [] \<Rightarrow> 0
   | a # s1 \<Rightarrow> if a = 32 \<or> 9 \<le> a \<and> a \<le> 13 then 1
       else (case s1 of
         [] \<Rightarrow> 0
       | b # s2 \<Rightarrow> if a = 194 \<and> (b = 133 \<or> b = 160) then 2
           else (case s2 of [] \<Rightarrow> 0 | c # _ \<Rightarrow> if ws3 a b c then 3 else 0)))"

definition ws_len_rev :: "nat list \<Rightarrow> nat" where
  "ws_len_rev s = (case s of
     [] \<Rightarrow> 0
   | a # s1 \<Rightarrow> if a = 32 \<or> 9 \<le> a \<and> a \<le> 13 then 1
       else (case s1 of
         [] \<Rightarrow> 0
       | b # s2 \<Rightarrow> if b = 194 \<and> (a = 133 \<or> a = 160) then 2
           else (case s2 of [] \<Rightarrow> 0 | c # _ \<Rightarrow> if ws3 c b a then 3 else 0)))"

function trim_gen :: "(nat list \<Rightarrow> nat) \<Rightarrow> string \<Rightarrow> string" where
  "trim_gen w s =
     (let n = w (map of_char s) in if n = 0 \<or> s = [] then s else trim_gen w (drop n s))"
  by pat_completeness auto
termination
  by (relation "measure (\<lambda>(w, s). length s)") auto

declare trim_gen.simps [simp del]

definition trim :: "string \<Rightarrow> string" where
  "trim s = rev (trim_gen ws_len_rev (rev (trim_gen ws_len s)))"

lemma trim_Nil [simp]: "trim [] = []"
  by (simp add: trim_def trim_gen.simps)

lemma trim_gen_suffix: "\<exists>n. trim_gen w s = drop n s"
proof (induction w s rule: trim_gen.induct)
  case (1 w s)
  show ?case
  proof (cases "w (map of_char s) = 0 \<or> s = []")
    case True
    then show ?thesis by (subst trim_gen.simps) (auto intro: exI [of _ 0])
  next
    case False
    with "1" obtain k where "trim_gen w (drop (w (map of_char s)) s) = drop k (drop (w (map of_char s)) s)"
      by (auto simp: Let_def)
    with False show ?thesis by (subst trim_gen.simps) (auto simp: Let_def)
  qed
qed

lemma trim_gen_stop: "trim_gen w s = [] \<or> w (map of_char (trim_gen w s)) = 0"
proof (induction w s rule: trim_gen.induct)
  case (1 w s)
  then show ?case by (cases "w (map of_char s) = 0 \<or> s = []") (auto simp: Let_def trim_gen.simps [of w s])
qed

lemma set_trim_subset: "set (trim s) \<subseteq> set s"
proof -
  obtain m n where "trim s = rev (drop m (rev (drop n s)))"
    using trim_gen_suffix by (metis trim_def)
  then show ?thesis by (auto dest!: in_set_dropD)
qed

lemma trim_ascii_fixed:
  assumes "s \<noteq> []" "33 \<le> (of_char (hd s) :: nat)" "of_char (hd s) < (128::nat)"
    "33 \<le> (of_char (last s) :: nat)" "of_char (last s) < (128::nat)"
  shows "trim s = s"
proof -
  have "ws_len (map of_char s) = 0"
    using assms(1-3) by (cases s) (auto simp: ws_len_def split: list.splits)
  then have a: "trim_gen ws_len s = s" by (subst trim_gen.simps) simp
  obtain c t where rs: "rev s = c # t" and "c = last s"
    using assms(1) by (metis hd_rev list.collapse rev_is_Nil_conv)
  then have "33 \<le> (of_char c :: nat)" "of_char c < (128::nat)" using assms(4,5) by simp_all
  then have "ws_len_rev (map of_char (rev s)) = 0"
    unfolding rs by (auto simp: ws_len_rev_def split: list.splits)
  then have "trim_gen ws_len_rev (rev s) = rev s" by (subst trim_gen.simps) simp
  with a show ?thesis by (simp add: trim_def)
qed

text \<open>ASCII case folding.\<close>

definition ascii_lower :: "char \<Rightarrow> char" where
  "ascii_lower c = (if 65 \<le> (of_char c :: nat) \<and> (of_char c :: nat) \<le> 90
                    then char_of (of_char c + 32 :: nat) else c)"

definition to_lower :: "string \<Rightarrow> string" where
  "to_lower s = map ascii_lower s"

lemma ascii_lower_idem [simp]: "ascii_lower (ascii_lower c) = ascii_lower c"
  by (auto simp: ascii_lower_def of_char_of)

lemma to_lower_idem [simp]: "to_lower (to_lower s) = to_lower s"
  by (simp add: to_lower_def)

lemma to_lower_Nil [simp]: "to_lower [] = []" "to_lower s = [] \<longleftrightarrow> s = []"
  by (simp_all add: to_lower_def)

lemma to_lower_append: "to_lower (s @ t) = to_lower s @ to_lower t"
  by (simp add: to_lower_def)

definition eq_ignore_ascii_case :: "string \<Rightarrow> string \<Rightarrow> bool" where
  "eq_ignore_ascii_case s t \<longleftrightarrow> to_lower s = to_lower t"

section \<open>Maps\<close>

text \<open>
  A \<^verbatim>\<open>HashMap\<close> is an association list with distinct keys: its order is the iteration
  order, about which nothing is assumed; insertion is \<^const>\<open>AList.update\<close>. A \<^verbatim>\<open>BTreeMap\<close>
  is an association list whose keys are strictly increasing, which is its iteration order.
\<close>

type_synonym ('k, 'v) hmap = "('k \<times> 'v) list"
type_synonym ('k, 'v) btmap = "('k \<times> 'v) list"

definition hmap_wf :: "('k, 'v) hmap \<Rightarrow> bool" where
  "hmap_wf m \<longleftrightarrow> distinct (map fst m)"

abbreviation hmap_keys :: "('k, 'v) hmap \<Rightarrow> 'k set" where
  "hmap_keys m \<equiv> set (map fst m)"

abbreviation hmap_insert :: "'k \<Rightarrow> 'v \<Rightarrow> ('k, 'v) hmap \<Rightarrow> ('k, 'v) hmap" where
  "hmap_insert \<equiv> AList.update"

lemma hmap_insert_get [simp]: "map_of (hmap_insert k v m) = (map_of m)(k \<mapsto> v)"
  by (simp add: update_conv')

lemma hmap_insert_wf [simp]: "hmap_wf m \<Longrightarrow> hmap_wf (hmap_insert k v m)"
  by (simp add: hmap_wf_def distinct_update)

lemma hmap_insert_keys [simp]: "fst ` set (hmap_insert k v m) = insert k (fst ` set m)"
  using dom_update [of k v m] by simp

lemma hmap_get_iff: "hmap_wf m \<Longrightarrow> map_of m k = Some v \<longleftrightarrow> (k, v) \<in> set m"
  by (simp add: hmap_wf_def)

lemma hmap_wf_filter [simp]: "hmap_wf m \<Longrightarrow> hmap_wf (filter P m)"
  by (simp add: hmap_wf_def distinct_map_filter)

lemma map_of_filter_wf:
  "hmap_wf m \<Longrightarrow> map_of (filter (\<lambda>(k, v). P k v) m) k =
     (case map_of m k of None \<Rightarrow> None | Some v \<Rightarrow> if P k v then Some v else None)"
proof (induction m)
  case Nil
  then show ?case by simp
next
  case (Cons kv m)
  obtain k0 v0 where kv: "kv = (k0, v0)" by (cases kv) auto
  have wf: "hmap_wf m" and new: "k0 \<notin> fst ` set m"
    using Cons.prems by (auto simp: hmap_wf_def kv)
  from new have "map_of m k0 = None" by (simp add: map_of_eq_None_iff)
  with Cons.IH [OF wf] show ?case by (auto simp: kv split: option.splits)
qed

text \<open>Inserting the elements of a list one after the other.\<close>

lemma fold_insert_get:
  "map_of (fold (\<lambda>(k, v). hmap_insert k v) kvs m) = map_of m ++ map_of (rev kvs)"
  by (induction kvs arbitrary: m) (auto simp: map_add_upd_left fun_eq_iff map_add_def split: option.splits)

lemma fold_insert_wf:
  "hmap_wf m \<Longrightarrow> hmap_wf (fold (\<lambda>(k, v). hmap_insert k v) kvs m)"
  by (induction kvs arbitrary: m) auto

definition btmap_wf :: "('k::linorder, 'v) btmap \<Rightarrow> bool" where
  "btmap_wf m \<longleftrightarrow> sorted_wrt (<) (map fst m)"

primrec bt_insert :: "'k::linorder \<Rightarrow> 'v \<Rightarrow> ('k, 'v) btmap \<Rightarrow> ('k, 'v) btmap" where
  "bt_insert k v [] = [(k, v)]"
| "bt_insert k v (e # m) =
     (if k < fst e then (k, v) # e # m
      else if k = fst e then (k, v) # m
      else e # bt_insert k v m)"

lemma bt_insert_get [simp]: "map_of (bt_insert k v m) = (map_of m)(k \<mapsto> v)"
  by (induction m) (auto simp: fun_eq_iff)

lemma bt_insert_keys [simp]: "fst ` set (bt_insert k v m) = insert k (fst ` set m)"
  by (induction m) auto

lemma bt_insert_wf [simp]: "btmap_wf m \<Longrightarrow> btmap_wf (bt_insert k v m)"
proof (induction m)
  case Nil
  then show ?case by (simp add: btmap_wf_def)
next
  case (Cons e m)
  have keys: "set (map fst (bt_insert k v m)) = insert k (fst ` set m)" by simp
  from Cons show ?case
    by (auto simp: btmap_wf_def simp del: set_map simp flip: keys) (auto simp: not_less_iff_gr_or_eq)
qed

lemma bt_insert_length:
  "length (bt_insert k v m) = (if k \<in> fst ` set m then length m else Suc (length m))"
  if "btmap_wf m"
  using that by (induction m) (auto simp: btmap_wf_def)

lemma btmap_wf_distinct: "btmap_wf m \<Longrightarrow> distinct (map fst m)"
  by (simp add: btmap_wf_def strict_sorted_iff)

lemma btmap_get_iff: "btmap_wf m \<Longrightarrow> map_of m k = Some v \<longleftrightarrow> (k, v) \<in> set m"
  by (simp add: btmap_wf_distinct)

section \<open>Deduplication and splitting of lists\<close>

text \<open>Keeping the first occurrence of every element, as a loop that pushes what the output does
  not hold yet.\<close>

definition dedupe :: "'a list \<Rightarrow> 'a list" where
  "dedupe xs = foldl (\<lambda>out x. if x \<in> set out then out else out @ [x]) [] xs"

lemma dedupe_aux:
  assumes "distinct out"
  shows "set (foldl (\<lambda>out x. if x \<in> set out then out else out @ [x]) out xs) = set out \<union> set xs"
    and "distinct (foldl (\<lambda>out x. if x \<in> set out then out else out @ [x]) out xs)"
  using assms by (induction xs arbitrary: out) auto

lemma set_dedupe [simp]: "set (dedupe xs) = set xs"
  using dedupe_aux(1) [of "[]" xs] by (simp add: dedupe_def)

lemma distinct_dedupe [simp]: "distinct (dedupe xs)"
  using dedupe_aux(2) [of "[]" xs] by (simp add: dedupe_def)

lemma dedupe_Nil [simp]: "dedupe [] = []"
  by (simp add: dedupe_def)

lemma dedupe_eq_Nil [simp]: "dedupe xs = [] \<longleftrightarrow> xs = []"
  by (metis set_dedupe set_empty)

text \<open>\<^verbatim>\<open>slice::chunks(n)\<close> for a positive \<open>n\<close>.\<close>

function chunks :: "nat \<Rightarrow> 'a list \<Rightarrow> 'a list list" where
  "chunks n xs = (if xs = [] \<or> n = 0 then [] else take n xs # chunks n (drop n xs))"
  by pat_completeness auto
termination
  by (relation "measure (\<lambda>(n, xs). length xs)") auto

declare chunks.simps [simp del]

lemma chunks_Nil [simp]: "chunks n [] = []"
  by (subst chunks.simps) simp

lemma chunks_step: "0 < n \<Longrightarrow> xs \<noteq> [] \<Longrightarrow> chunks n xs = take n xs # chunks n (drop n xs)"
  by (subst chunks.simps) simp

lemma concat_chunks [simp]: "0 < n \<Longrightarrow> concat (chunks n xs) = xs"
proof (induction n xs rule: chunks.induct)
  case (1 n xs)
  then show ?case by (subst chunks.simps) auto
qed

lemma chunks_size: "0 < n \<Longrightarrow> c \<in> set (chunks n xs) \<Longrightarrow> c \<noteq> [] \<and> length c \<le> n"
proof (induction n xs rule: chunks.induct)
  case (1 n xs)
  show ?case
  proof (cases "xs = []")
    case True
    with "1.prems" show ?thesis by simp
  next
    case False
    with "1.prems" have "c = take n xs \<or> c \<in> set (chunks n (drop n xs))"
      by (simp add: chunks_step)
    with "1" False show ?thesis by auto
  qed
qed

end
