(* ===== verification/Config_Types.thy ===== *)
theory Config_Types
  imports Haruki_Prelude
begin

text \<open>
  The configuration data of \<^verbatim>\<open>src/core/config.rs\<close>: one record per configuration struct
  (fields prefixed with the struct, in the order of the source), one datatype per enum, and the
  \<^verbatim>\<open>Default\<close> value of every struct. \<^verbatim>\<open>usize\<close>, \<^verbatim>\<open>u64\<close>, \<^verbatim>\<open>u32\<close> and \<^verbatim>\<open>u8\<close> settings are
  \<^typ>\<open>nat\<close>: the code only compares and saturates them.
\<close>

section \<open>Errors\<close>

text \<open>\<^verbatim>\<open>ConfigError\<close>; the payload of a third-party error is its message.\<close>

datatype config_error =
    ConfigRead string string
  | ConfigParse string string
  | InvalidConfigUri string string
  | InvalidConfigBootstrap string string
  | ConfigStorageProvider string string
  | ConfigStorageRead string string
  | InvalidUtf8 string string
  | UnsupportedVersion nat
  | MissingConfigFile string
  | InvalidRegionName string
  | MissingEnvironmentVariable string string
  | InvalidValue string string string

section \<open>Enumerations\<close>

datatype asset_http_version = HttpAuto | Http1
datatype log_format = LogPretty | LogJson
datatype asset_studio_ffi_mode = FfiDirect | FfiWorkerPool
datatype image_backend = ImageRust
datatype image_png_compression = PngFast | PngDefault | PngBest
datatype image_output_format = FmtPng | FmtJpg | FmtWebp
datatype video_output_format = FmtM2v | FmtMp4
datatype audio_output_format = FmtWav | FmtFlac | FmtMp3
datatype media_backend = MediaAuto | MediaFfi | MediaCli
datatype git_signing_format = SignGpg | SignSsh

text \<open>An \<^verbatim>\<open>f64\<close> value: not a number, an infinity (negative when the flag is set) or a finite
  number.\<close>

datatype f64 = F64NaN | F64Inf bool | F64Fin rat

section \<open>Poller and gateway\<close>

record poller_config =
  pl_enabled :: bool
  pl_interval_seconds :: nat
  pl_watermark_file :: string
  pl_last_info_dir :: string
  pl_max_concurrent_regions :: nat

definition default_poller_config :: poller_config where
  "default_poller_config = \<lparr>
     pl_enabled = True,
     pl_interval_seconds = 60,
     pl_watermark_file = ''./Data/poller/watermarks.json'',
     pl_last_info_dir = ''./Data/poller/last_info'',
     pl_max_concurrent_regions = 5\<rparr>"

record hip_tls_config =
  ht_enabled :: bool
  ht_ca_file :: "string option"

definition default_hip_tls_config :: hip_tls_config where
  "default_hip_tls_config = \<lparr>ht_enabled = False, ht_ca_file = None\<rparr>"

record hip_config =
  hp_enabled :: bool
  hp_endpoint :: string
  hp_bearer_token :: "string option"
  hp_tls :: hip_tls_config
  hp_handshake_timeout_ms :: nat
  hp_request_timeout_ms :: nat
  hp_max_frame_bytes :: nat
  hp_chunk_size_bytes :: nat
  hp_max_in_flight_uploads :: nat
  hp_check_batch_size :: nat
  hp_heartbeat_interval_seconds :: nat
  hp_commit_batch_bundles :: nat
  hp_commit_batch_bytes :: nat

definition default_hip_config :: hip_config where
  "default_hip_config = \<lparr>
     hp_enabled = True,
     hp_endpoint = ''127.0.0.1:7420'',
     hp_bearer_token = None,
     hp_tls = default_hip_tls_config,
     hp_handshake_timeout_ms = 5000,
     hp_request_timeout_ms = 30000,
     hp_max_frame_bytes = 16 * 1024 * 1024,
     hp_chunk_size_bytes = 1024 * 1024,
     hp_max_in_flight_uploads = 8,
     hp_check_batch_size = 512,
     hp_heartbeat_interval_seconds = 30,
     hp_commit_batch_bundles = 500,
     hp_commit_batch_bytes = 512 * 1024 * 1024\<rparr>"

section \<open>Server and logging\<close>

record auth_config =
  au_enabled :: bool
  au_user_agent_prefix :: "string option"
  au_bearer_token :: "string option"

definition default_auth_config :: auth_config where
  "default_auth_config = \<lparr>au_enabled = False, au_user_agent_prefix = None, au_bearer_token = None\<rparr>"

record tls_config =
  tls_enabled :: bool
  tls_cert_file :: "string option"
  tls_key_file :: "string option"

definition default_tls_config :: tls_config where
  "default_tls_config = \<lparr>tls_enabled = False, tls_cert_file = None, tls_key_file = None\<rparr>"

record server_config =
  sv_host :: string
  sv_port :: nat
  sv_proxy :: "string option"
  sv_asset_http_version :: asset_http_version
  sv_auth :: auth_config
  sv_tls :: tls_config

definition default_server_config :: server_config where
  "default_server_config = \<lparr>
     sv_host = ''0.0.0.0'',
     sv_port = 8080,
     sv_proxy = None,
     sv_asset_http_version = HttpAuto,
     sv_auth = default_auth_config,
     sv_tls = default_tls_config\<rparr>"

record access_log_config =
  al_enabled :: bool
  al_format :: string
  al_file :: "string option"

definition default_access_log_config :: access_log_config where
  "default_access_log_config = \<lparr>
     al_enabled = True,
     al_format = ''[${time}] ${status} - ${method} ${path} ${latency}'' @ [CHR 0x0A],
     al_file = None\<rparr>"

record logging_config =
  lg_level :: string
  lg_format :: log_format
  lg_file :: "string option"
  lg_access :: access_log_config

definition default_logging_config :: logging_config where
  "default_logging_config = \<lparr>
     lg_level = ''INFO'',
     lg_format = LogPretty,
     lg_file = None,
     lg_access = default_access_log_config\<rparr>"

section \<open>Execution and back ends\<close>

record retry_config =
  rt_attempts :: nat
  rt_initial_backoff_ms :: nat
  rt_max_backoff_ms :: nat

definition default_retry_config :: retry_config where
  "default_retry_config = \<lparr>
     rt_attempts = 4,
     rt_initial_backoff_ms = 1000,
     rt_max_backoff_ms = 4000\<rparr>"

record execution_config =
  ex_timeout_seconds :: nat
  ex_allow_cancel :: bool
  ex_max_in_flight_bundle_bytes :: nat
  ex_batch_save_size :: nat
  ex_retry :: retry_config

definition default_execution_config :: execution_config where
  "default_execution_config = \<lparr>
     ex_timeout_seconds = 300,
     ex_allow_cancel = True,
     ex_max_in_flight_bundle_bytes = 0,
     ex_batch_save_size = 50,
     ex_retry = default_retry_config\<rparr>"

record asset_studio_backend_config =
  st_library_path :: "string option"
  st_mode :: asset_studio_ffi_mode
  st_worker_path :: "string option"
  st_process_concurrency :: nat
  st_worker_max_calls :: nat
  st_read_batch_size :: nat
  st_image_format :: "string option"
  st_read_kinds :: "(string, string) btmap"
  st_worker_idle_timeout_seconds :: nat
  st_worker_gc_heap_hard_limit_mb :: nat
  st_worker_gc_conserve_memory :: "nat option"
  st_image_flush_bytes :: nat

definition default_asset_studio_backend_config :: asset_studio_backend_config where
  "default_asset_studio_backend_config = \<lparr>
     st_library_path = None,
     st_mode = FfiWorkerPool,
     st_worker_path = None,
     st_process_concurrency = 0,
     st_worker_max_calls = 256,
     st_read_batch_size = 64,
     st_image_format = None,
     st_read_kinds = [],
     st_worker_idle_timeout_seconds = 120,
     st_worker_gc_heap_hard_limit_mb = 0,
     st_worker_gc_conserve_memory = None,
     st_image_flush_bytes = 128 * 1024 * 1024\<rparr>"

record media_backend_config =
  md_backend :: media_backend
  md_ffmpeg_path :: string

definition default_media_backend_config :: media_backend_config where
  "default_media_backend_config = \<lparr>md_backend = MediaFfi, md_ffmpeg_path = ''ffmpeg''\<rparr>"

record image_backend_config =
  im_backend :: image_backend
  im_png_compression :: image_png_compression
  im_webp_lossless :: bool
  im_jpeg_quality :: nat

definition default_image_backend_config :: image_backend_config where
  "default_image_backend_config = \<lparr>
     im_backend = ImageRust,
     im_png_compression = PngFast,
     im_webp_lossless = True,
     im_jpeg_quality = 95\<rparr>"

record backends_config =
  bk_asset_studio :: asset_studio_backend_config
  bk_media :: media_backend_config
  bk_image :: image_backend_config

definition default_backends_config :: backends_config where
  "default_backends_config = \<lparr>
     bk_asset_studio = default_asset_studio_backend_config,
     bk_media = default_media_backend_config,
     bk_image = default_image_backend_config\<rparr>"

section \<open>Concurrency and resources\<close>

record concurrency_config =
  cc_auto_tune :: bool
  cc_download :: nat
  cc_upload :: nat
  cc_post_process :: nat
  cc_acb :: nat
  cc_usm :: nat
  cc_hca :: nat
  cc_media_encode :: nat
  cc_audio_encode :: nat
  cc_video_encode :: nat
  cc_images :: nat

definition default_concurrency_config :: concurrency_config where
  "default_concurrency_config = \<lparr>
     cc_auto_tune = False,
     cc_download = 32,
     cc_upload = 4,
     cc_post_process = 16,
     cc_acb = 12,
     cc_usm = 6,
     cc_hca = 16,
     cc_media_encode = 12,
     cc_audio_encode = 12,
     cc_video_encode = 4,
     cc_images = 12\<rparr>"

record cpu_throttle_config =
  th_enabled :: bool
  th_sample_ms :: nat

definition default_cpu_throttle_config :: cpu_throttle_config where
  "default_cpu_throttle_config = \<lparr>th_enabled = False, th_sample_ms = 250\<rparr>"

record cpu_resource_config =
  cpu_budget_auto :: bool
  cpu_budget_ratio :: f64
  cpu_reserved :: nat
  cpu_throttle :: cpu_throttle_config

definition default_cpu_resource_config :: cpu_resource_config where
  "default_cpu_resource_config = \<lparr>
     cpu_budget_auto = True,
     cpu_budget_ratio = F64Fin 1,
     cpu_reserved = 0,
     cpu_throttle = default_cpu_throttle_config\<rparr>"

record memory_resource_config =
  mem_max_in_flight_bundle_bytes :: nat

definition default_memory_resource_config :: memory_resource_config where
  "default_memory_resource_config = \<lparr>mem_max_in_flight_bundle_bytes = 0\<rparr>"

record resources_config =
  rs_cpu :: cpu_resource_config
  rs_memory :: memory_resource_config

definition default_resources_config :: resources_config where
  "default_resources_config = \<lparr>
     rs_cpu = default_cpu_resource_config,
     rs_memory = default_memory_resource_config\<rparr>"

section \<open>Storage and Git\<close>

record storage_provider_config =
  sp_name :: "string option"
  sp_scheme :: string
  sp_root :: "string option"
  sp_public_base_url :: "string option"
  sp_options :: "(string, string) btmap"
  sp_endpoint :: string
  sp_tls :: bool
  sp_bucket :: string
  sp_prefix :: "string option"
  sp_path_style :: bool
  sp_region :: "string option"
  sp_public_read :: bool
  sp_access_key :: "string option"
  sp_secret_key :: "string option"

definition default_storage_provider_config :: storage_provider_config where
  "default_storage_provider_config = \<lparr>
     sp_name = None,
     sp_scheme = ''s3'',
     sp_root = None,
     sp_public_base_url = None,
     sp_options = [],
     sp_endpoint = [],
     sp_tls = True,
     sp_bucket = [],
     sp_prefix = None,
     sp_path_style = True,
     sp_region = None,
     sp_public_read = False,
     sp_access_key = None,
     sp_secret_key = None\<rparr>"

record storage_config =
  sg_providers :: "storage_provider_config list"

definition default_storage_config :: storage_config where
  "default_storage_config = \<lparr>sg_providers = []\<rparr>"

record chart_hash_config =
  ch_enabled :: bool
  ch_repository_dir :: "string option"
  ch_username :: "string option"
  ch_email :: "string option"
  ch_password :: "string option"
  ch_sign_commits :: bool
  ch_signing_format :: git_signing_format
  ch_signing_key :: "string option"
  ch_signing_program :: "string option"

definition default_chart_hash_config :: chart_hash_config where
  "default_chart_hash_config = \<lparr>
     ch_enabled = False,
     ch_repository_dir = None,
     ch_username = None,
     ch_email = None,
     ch_password = None,
     ch_sign_commits = False,
     ch_signing_format = SignGpg,
     ch_signing_key = None,
     ch_signing_program = None\<rparr>"

record git_sync_config =
  gs_chart_hashes :: chart_hash_config

definition default_git_sync_config :: git_sync_config where
  "default_git_sync_config = \<lparr>gs_chart_hashes = default_chart_hash_config\<rparr>"

section \<open>Regions\<close>

record colorful_palette_config =
  cp_current_version_url :: "string option"
  cp_game_version_url_template :: "string option"
  cp_asset_info_url_template :: string
  cp_asset_bundle_url_template :: string
  cp_profile :: string
  cp_profile_hashes :: "(string, string) btmap"
  cp_required_cookies :: bool
  cp_cookie_bootstrap_url :: "string option"

record nuverse_config =
  nv_current_version_url :: "string option"
  nv_asset_version_url :: string
  nv_app_version :: string
  nv_asset_info_url_template :: string
  nv_asset_bundle_url_template :: string
  nv_required_cookies :: bool
  nv_cookie_bootstrap_url :: "string option"

text \<open>The struct variants of \<^verbatim>\<open>RegionProviderConfig\<close>.\<close>

datatype region_provider_config =
    ColorfulPalette colorful_palette_config
  | Nuverse nuverse_config

definition default_region_provider_config :: region_provider_config where
  "default_region_provider_config = ColorfulPalette \<lparr>
     cp_current_version_url = None,
     cp_game_version_url_template = None,
     cp_asset_info_url_template = [],
     cp_asset_bundle_url_template = [],
     cp_profile = [],
     cp_profile_hashes = [],
     cp_required_cookies = False,
     cp_cookie_bootstrap_url = None\<rparr>"

record crypto_config =
  cr_aes_key_hex :: "string option"
  cr_aes_iv_hex :: "string option"

definition default_crypto_config :: crypto_config where
  "default_crypto_config = \<lparr>cr_aes_key_hex = None, cr_aes_iv_hex = None\<rparr>"

record region_runtime_config =
  rr_unity_version :: string

definition default_region_runtime_config :: region_runtime_config where
  "default_region_runtime_config = \<lparr>rr_unity_version = ''2022.3.21f1''\<rparr>"

record region_paths_config =
  rp_asset_save_dir :: "string option"
  rp_downloaded_asset_record_file :: "string option"

definition default_region_paths_config :: region_paths_config where
  "default_region_paths_config = \<lparr>rp_asset_save_dir = None, rp_downloaded_asset_record_file = None\<rparr>"

record region_filters_config =
  rf_start_app :: "string list"
  rf_on_demand :: "string list"
  rf_skip :: "string list"
  rf_priority :: "string list"

definition default_region_filters_config :: region_filters_config where
  "default_region_filters_config = \<lparr>rf_start_app = [], rf_on_demand = [], rf_skip = [], rf_priority = []\<rparr>"

record raw_bundle_export_config =
  rb_output_dir :: "string option"
  rb_include :: "string list"
  rb_exclude :: "string list"

record mesh_export_config =
  ms_export_obj :: bool
  ms_path_patterns :: "string list"

definition default_mesh_export_config :: mesh_export_config where
  "default_mesh_export_config = \<lparr>ms_export_obj = False, ms_path_patterns = []\<rparr>"

record haruki_3d_export_config =
  h3_enabled :: bool
  h3_exporter_path :: string
  h3_master_dir :: string
  h3_work_dir :: string
  h3_manifest_file :: string
  h3_staging_dir :: string
  h3_output_dir :: string
  h3_process_concurrency :: nat
  h3_role_character3d_ids :: "int list"
  h3_include :: "string list"
  h3_exclude :: "string list"
  h3_cleanup_work_dir_after_success :: bool
  h3_cleanup_work_dir_after_failure :: bool
  h3_cleanup_staging_after_success :: bool
  h3_cleanup_staging_after_failure :: bool

definition default_haruki_3d_export_config :: haruki_3d_export_config where
  "default_haruki_3d_export_config = \<lparr>
     h3_enabled = False,
     h3_exporter_path = [],
     h3_master_dir = [],
     h3_work_dir = [],
     h3_manifest_file = [],
     h3_staging_dir = [],
     h3_output_dir = [],
     h3_process_concurrency = 0,
     h3_role_character3d_ids = [],
     h3_include = [],
     h3_exclude = [],
     h3_cleanup_work_dir_after_success = True,
     h3_cleanup_work_dir_after_failure = True,
     h3_cleanup_staging_after_success = True,
     h3_cleanup_staging_after_failure = False\<rparr>"

record usm_export_config =
  us_export :: bool
  us_decode :: bool

definition default_usm_export_config :: usm_export_config where
  "default_usm_export_config = \<lparr>us_export = True, us_decode = True\<rparr>"

record acb_export_config =
  ac_export :: bool
  ac_decode :: bool

definition default_acb_export_config :: acb_export_config where
  "default_acb_export_config = \<lparr>ac_export = True, ac_decode = True\<rparr>"

record hca_export_config =
  hc_decode :: bool

definition default_hca_export_config :: hca_export_config where
  "default_hca_export_config = \<lparr>hc_decode = True\<rparr>"

record image_export_config =
  ie_formats :: "image_output_format list"

definition default_image_export_config :: image_export_config where
  "default_image_export_config = \<lparr>ie_formats = [FmtPng]\<rparr>"

record video_export_config =
  ve_formats :: "video_output_format list"
  ve_direct_mp4 :: bool

definition default_video_export_config :: video_export_config where
  "default_video_export_config = \<lparr>ve_formats = [FmtMp4], ve_direct_mp4 = True\<rparr>"

record audio_export_config =
  ae_formats :: "audio_output_format list"

definition default_audio_export_config :: audio_export_config where
  "default_audio_export_config = \<lparr>ae_formats = [FmtMp3]\<rparr>"

record region_export_config =
  xp_by_category :: bool
  xp_asset_studio_types :: "string list"
  xp_raw_bundles :: "raw_bundle_export_config option"
  xp_mesh :: mesh_export_config
  xp_haruki_3d :: haruki_3d_export_config
  xp_usm :: usm_export_config
  xp_acb :: acb_export_config
  xp_hca :: hca_export_config
  xp_images :: image_export_config
  xp_video :: video_export_config
  xp_audio :: audio_export_config

definition default_asset_studio_export_types :: "string list" where
  "default_asset_studio_export_types = [''monoBehaviour'', ''textAsset'', ''audio'']"

definition default_region_export_config :: region_export_config where
  "default_region_export_config = \<lparr>
     xp_by_category = False,
     xp_asset_studio_types = default_asset_studio_export_types,
     xp_raw_bundles = None,
     xp_mesh = default_mesh_export_config,
     xp_haruki_3d = default_haruki_3d_export_config,
     xp_usm = default_usm_export_config,
     xp_acb = default_acb_export_config,
     xp_hca = default_hca_export_config,
     xp_images = default_image_export_config,
     xp_video = default_video_export_config,
     xp_audio = default_audio_export_config\<rparr>"

record upload_public_read_config =
  pr_include :: "string list"
  pr_exclude :: "string list"

record region_upload_config =
  up_enabled :: bool
  up_providers :: "string list"
  up_public_read :: upload_public_read_config
  up_remove_local_after_upload :: bool

definition default_region_upload_config :: region_upload_config where
  "default_region_upload_config = \<lparr>
     up_enabled = False,
     up_providers = [],
     up_public_read = \<lparr>pr_include = [], pr_exclude = []\<rparr>,
     up_remove_local_after_upload = False\<rparr>"

record region_config =
  rg_enabled :: bool
  rg_provider :: region_provider_config
  rg_crypto :: crypto_config
  rg_runtime :: region_runtime_config
  rg_paths :: region_paths_config
  rg_filters :: region_filters_config
  rg_export :: region_export_config
  rg_upload :: region_upload_config

definition default_region_config :: region_config where
  "default_region_config = \<lparr>
     rg_enabled = False,
     rg_provider = default_region_provider_config,
     rg_crypto = default_crypto_config,
     rg_runtime = default_region_runtime_config,
     rg_paths = default_region_paths_config,
     rg_filters = default_region_filters_config,
     rg_export = default_region_export_config,
     rg_upload = default_region_upload_config\<rparr>"

section \<open>The application configuration\<close>

definition CURRENT_CONFIG_VERSION :: nat where
  "CURRENT_CONFIG_VERSION = 3"

record app_config =
  ap_config_version :: nat
  ap_server :: server_config
  ap_logging :: logging_config
  ap_execution :: execution_config
  ap_backends :: backends_config
  ap_resources :: resources_config
  ap_concurrency :: concurrency_config
  ap_storage :: storage_config
  ap_git_sync :: git_sync_config
  ap_poller :: poller_config
  ap_hip :: hip_config
  ap_regions :: "(string, region_config) btmap"

definition default_app_config :: app_config where
  "default_app_config = \<lparr>
     ap_config_version = CURRENT_CONFIG_VERSION,
     ap_server = default_server_config,
     ap_logging = default_logging_config,
     ap_execution = default_execution_config,
     ap_backends = default_backends_config,
     ap_resources = default_resources_config,
     ap_concurrency = default_concurrency_config,
     ap_storage = default_storage_config,
     ap_git_sync = default_git_sync_config,
     ap_poller = default_poller_config,
     ap_hip = default_hip_config,
     ap_regions = []\<rparr>"

lemmas default_config_defs =
  default_poller_config_def default_hip_tls_config_def default_hip_config_def
  default_auth_config_def default_tls_config_def default_server_config_def
  default_access_log_config_def default_logging_config_def default_retry_config_def
  default_execution_config_def default_asset_studio_backend_config_def
  default_media_backend_config_def default_image_backend_config_def default_backends_config_def
  default_concurrency_config_def default_cpu_throttle_config_def default_cpu_resource_config_def
  default_memory_resource_config_def default_resources_config_def
  default_storage_provider_config_def default_storage_config_def default_chart_hash_config_def
  default_git_sync_config_def default_region_provider_config_def default_crypto_config_def
  default_region_runtime_config_def default_region_paths_config_def
  default_region_filters_config_def default_mesh_export_config_def
  default_haruki_3d_export_config_def default_usm_export_config_def
  default_acb_export_config_def default_hca_export_config_def default_image_export_config_def
  default_video_export_config_def default_audio_export_config_def
  default_asset_studio_export_types_def default_region_export_config_def
  default_region_upload_config_def default_region_config_def CURRENT_CONFIG_VERSION_def
  default_app_config_def

end
