(* ===== verification/Config.thy ===== *)
theory Config
  imports Config_Types
begin

text \<open>
  The operations of \<^verbatim>\<open>src/core/config.rs\<close> on the parsed configuration: the \<^verbatim>\<open>FromStr\<close>
  implementations, the parsers of single environment values, \<^verbatim>\<open>validate\<close>, the environment
  overrides of \<^verbatim>\<open>resolve_env_overrides\<close>, and the derived concurrency limits. The text form of a
  floating point number, its parser and the rounding of \<^verbatim>\<open>f64\<close> arithmetic are parameters.
\<close>

section \<open>Trimming and case folding\<close>

definition code_lower :: "nat \<Rightarrow> nat" where
  "code_lower n = (if 65 \<le> n \<and> n \<le> 90 then n + 32 else n)"

lemma of_char_to_lower: "map of_char (to_lower s) = map code_lower (map of_char s)"
  by (auto simp: to_lower_def ascii_lower_def code_lower_def of_char_of)

lemma code_lower_eq: "k < 65 \<or> 122 < k \<Longrightarrow> code_lower a = k \<longleftrightarrow> a = k"
  by (auto simp: code_lower_def)

lemma code_lower_range:
  "9 \<le> code_lower a \<and> code_lower a \<le> 13 \<longleftrightarrow> 9 \<le> a \<and> a \<le> 13"
  "128 \<le> code_lower a \<and> code_lower a \<le> 138 \<longleftrightarrow> 128 \<le> a \<and> a \<le> 138"
  by (auto simp: code_lower_def)

lemma ws3_code_lower: "ws3 (code_lower a) (code_lower b) (code_lower c) = ws3 a b c"
  by (simp add: code_lower_eq code_lower_range)

lemma ws_len_code_lower: "ws_len (map code_lower u) = ws_len u"
proof -
  have cases: "u = [] \<or> (\<exists>a. u = [a]) \<or> (\<exists>a b. u = [a, b]) \<or> (\<exists>a b c r. u = a # b # c # r)"
    by (metis neq_Nil_conv)
  then show ?thesis
    by (elim disjE exE) (simp_all add: ws_len_def code_lower_eq code_lower_range ws3_code_lower
        del: ws3.simps)
qed

lemma ws_len_rev_code_lower: "ws_len_rev (map code_lower u) = ws_len_rev u"
proof -
  have cases: "u = [] \<or> (\<exists>a. u = [a]) \<or> (\<exists>a b. u = [a, b]) \<or> (\<exists>a b c r. u = a # b # c # r)"
    by (metis neq_Nil_conv)
  then show ?thesis
    by (elim disjE exE) (auto simp: ws_len_rev_def code_lower_eq code_lower_range ws3_code_lower
        simp del: ws3.simps)
qed

lemma ws_len_lower: "ws_len (map of_char (to_lower s)) = ws_len (map of_char s)"
  by (simp only: of_char_to_lower ws_len_code_lower)

lemma ws_len_rev_lower: "ws_len_rev (map of_char (to_lower s)) = ws_len_rev (map of_char s)"
  by (simp only: of_char_to_lower ws_len_rev_code_lower)

lemma to_lower_drop: "drop n (to_lower s) = to_lower (drop n s)"
  by (simp add: to_lower_def drop_map)

lemma trim_gen_lower:
  assumes "\<And>s. w (map of_char (to_lower s)) = w (map of_char s)"
  shows "trim_gen w (to_lower s) = to_lower (trim_gen w s)"
proof (induction "length s" arbitrary: s rule: less_induct)
  case less
  show ?case
  proof (cases "w (map of_char s) = 0 \<or> s = []")
    case True
    then show ?thesis
      by (auto simp: trim_gen.simps [of w s] trim_gen.simps [of w "to_lower s"] assms Let_def)
  next
    case False
    let ?n = "w (map of_char s)"
    have "trim_gen w (to_lower s) = trim_gen w (to_lower (drop ?n s))"
      using False by (subst trim_gen.simps) (simp add: assms Let_def to_lower_drop)
    also have "\<dots> = to_lower (trim_gen w (drop ?n s))"
      using False by (intro less) simp
    also have "\<dots> = to_lower (trim_gen w s)"
      using False by (simp add: trim_gen.simps [of w s] Let_def)
    finally show ?thesis .
  qed
qed

lemma trim_lower: "trim (to_lower s) = to_lower (trim s)"
proof -
  have rev: "rev (to_lower t) = to_lower (rev t)" for t by (simp add: to_lower_def rev_map)
  show ?thesis
    by (simp add: trim_def rev trim_gen_lower ws_len_lower ws_len_rev_lower)
qed

lemma ws_len_take: "ws_len u = 0 \<Longrightarrow> ws_len (take k u) = 0"
proof -
  assume z: "ws_len u = 0"
  consider "u = []" | a where "u = [a]" | a b where "u = [a, b]"
    | a b c r where "u = a # b # c # r"
    by (metis neq_Nil_conv)
  then show ?thesis
    using z
    by cases (auto simp: ws_len_def take_Cons' simp del: ws3.simps split: if_splits)
qed

lemma trim_gen_fixed: "w (map of_char s) = 0 \<Longrightarrow> trim_gen w s = s"
  by (subst trim_gen.simps) simp

lemma trim_gen_Nil [simp]: "trim_gen w [] = []"
  by (subst trim_gen.simps) simp

lemma trim_idem [simp]: "trim (trim s) = trim s"
proof -
  let ?u = "trim_gen ws_len s"
  let ?t = "trim_gen ws_len_rev (rev ?u)"
  obtain n where n: "?t = drop n (rev ?u)" using trim_gen_suffix by blast
  have "ws_len (map of_char (rev ?t)) = 0"
  proof -
    have "ws_len (map of_char ?u) = 0"
      using trim_gen_stop [of ws_len s] by (auto simp: ws_len_def)
    then have "ws_len (take (length ?u - n) (map of_char ?u)) = 0" by (rule ws_len_take)
    moreover have "rev ?t = take (length ?u - n) ?u" by (simp add: n rev_drop)
    ultimately show ?thesis by (simp add: take_map)
  qed
  moreover have "trim_gen ws_len_rev ?t = ?t"
    using trim_gen_stop [of ws_len_rev "rev ?u"] trim_gen_fixed [of ws_len_rev ?t]
    by (cases "?t = []") auto
  ultimately show ?thesis
    by (simp add: trim_def trim_gen_fixed)
qed

section \<open>Enumerations and their spellings\<close>

text \<open>The shared shape of the \<^verbatim>\<open>FromStr\<close> implementations: the value is trimmed and lower-cased,
  then matched against the accepted spellings.\<close>

definition parse_enum :: "string \<Rightarrow> string \<Rightarrow> (string \<times> 'a) list \<Rightarrow> string \<Rightarrow> config_error + 'a" where
  "parse_enum field expected spellings value =
     (let other = to_lower (trim value)
      in case map_of spellings other of
           Some x \<Rightarrow> Inr x
         | None \<Rightarrow> Inl (InvalidValue field other expected))"

definition parse_asset_http_version :: "string \<Rightarrow> config_error + asset_http_version" where
  "parse_asset_http_version = parse_enum ''server.asset_http_version'' ''auto or http1''
     [(''auto'', HttpAuto), (''http1'', Http1), (''http1_only'', Http1), (''http/1'', Http1),
      (''http/1.1'', Http1)]"

definition parse_asset_studio_ffi_mode :: "string \<Rightarrow> config_error + asset_studio_ffi_mode" where
  "parse_asset_studio_ffi_mode = parse_enum ''backends.asset_studio.mode'' ''direct or worker_pool''
     [(''direct'', FfiDirect), (''worker_pool'', FfiWorkerPool), (''worker-pool'', FfiWorkerPool),
      (''worker'', FfiWorkerPool), (''pool'', FfiWorkerPool)]"

definition parse_image_backend :: "string \<Rightarrow> config_error + image_backend" where
  "parse_image_backend = parse_enum ''backends.image.backend'' ''rust'' [(''rust'', ImageRust)]"

definition parse_image_png_compression :: "string \<Rightarrow> config_error + image_png_compression" where
  "parse_image_png_compression =
     parse_enum ''backends.image.png_compression'' ''fast, default, or best''
       [(''fast'', PngFast), (''default'', PngDefault), (''best'', PngBest)]"

definition parse_image_output_format :: "string \<Rightarrow> config_error + image_output_format" where
  "parse_image_output_format = parse_enum ''export.images.formats'' ''png, jpg, or webp''
     [(''png'', FmtPng), (''jpg'', FmtJpg), (''jpeg'', FmtJpg), (''webp'', FmtWebp)]"

definition parse_video_output_format :: "string \<Rightarrow> config_error + video_output_format" where
  "parse_video_output_format = parse_enum ''export.video.formats'' ''m2v or mp4''
     [(''m2v'', FmtM2v), (''mp4'', FmtMp4)]"

definition parse_audio_output_format :: "string \<Rightarrow> config_error + audio_output_format" where
  "parse_audio_output_format = parse_enum ''export.audio.formats'' ''wav, flac, or mp3''
     [(''wav'', FmtWav), (''flac'', FmtFlac), (''mp3'', FmtMp3)]"

definition parse_media_backend :: "string \<Rightarrow> config_error + media_backend" where
  "parse_media_backend = parse_enum ''backends.media.backend'' ''auto, ffi, or cli''
     [(''auto'', MediaAuto), (''ffi'', MediaFfi), (''cli'', MediaCli)]"

lemmas parse_enum_defs =
  parse_asset_http_version_def parse_asset_studio_ffi_mode_def parse_image_backend_def
  parse_image_png_compression_def parse_image_output_format_def parse_video_output_format_def
  parse_audio_output_format_def parse_media_backend_def

text \<open>The spelling the configuration file uses for every variant: the derived serde names
  (\<^verbatim>\<open>rename_all\<close>).\<close>

fun asset_http_version_name :: "asset_http_version \<Rightarrow> string" where
  "asset_http_version_name HttpAuto = ''auto''"
| "asset_http_version_name Http1 = ''http1''"

fun asset_studio_ffi_mode_name :: "asset_studio_ffi_mode \<Rightarrow> string" where
  "asset_studio_ffi_mode_name FfiDirect = ''direct''"
| "asset_studio_ffi_mode_name FfiWorkerPool = ''worker_pool''"

fun image_backend_name :: "image_backend \<Rightarrow> string" where
  "image_backend_name ImageRust = ''rust''"

fun image_png_compression_name :: "image_png_compression \<Rightarrow> string" where
  "image_png_compression_name PngFast = ''fast''"
| "image_png_compression_name PngDefault = ''default''"
| "image_png_compression_name PngBest = ''best''"

fun image_output_format_name :: "image_output_format \<Rightarrow> string" where
  "image_output_format_name FmtPng = ''png''"
| "image_output_format_name FmtJpg = ''jpg''"
| "image_output_format_name FmtWebp = ''webp''"

fun video_output_format_name :: "video_output_format \<Rightarrow> string" where
  "video_output_format_name FmtM2v = ''m2v''"
| "video_output_format_name FmtMp4 = ''mp4''"

fun audio_output_format_name :: "audio_output_format \<Rightarrow> string" where
  "audio_output_format_name FmtWav = ''wav''"
| "audio_output_format_name FmtFlac = ''flac''"
| "audio_output_format_name FmtMp3 = ''mp3''"

fun media_backend_name :: "media_backend \<Rightarrow> string" where
  "media_backend_name MediaAuto = ''auto''"
| "media_backend_name MediaFfi = ''ffi''"
| "media_backend_name MediaCli = ''cli''"

lemma parse_enum_canon: "parse_enum f e sp (to_lower (trim s)) = parse_enum f e sp s"
  by (simp add: parse_enum_def trim_lower)

lemma parse_enum_rejects:
  "parse_enum f e sp s = Inl err \<Longrightarrow>
     err = InvalidValue f (to_lower (trim s)) e \<and> to_lower (trim s) \<notin> fst ` set sp"
  by (auto simp: parse_enum_def Let_def map_of_eq_None_iff split: option.splits)

text \<open>The contract the eight parsers share: the configuration spelling of a variant is read as
  that variant, and only the trimmed, lower-cased text counts.\<close>

locale spelled_enum =
  fixes parse :: "string \<Rightarrow> config_error + 'a"
    and name :: "'a \<Rightarrow> string"
  assumes parse_name: "parse (name x) = Inr x"
    and parse_canon: "parse (to_lower (trim s)) = parse s"
begin

lemma name_inj: "name x = name y \<longleftrightarrow> x = y"
  by (metis parse_name sum.inject(2))

lemma parse_spelling: "to_lower (trim s) = name x \<Longrightarrow> parse s = Inr x"
  by (metis parse_name parse_canon)

lemma parse_upper_padded: "to_lower (trim s) = to_lower (trim t) \<Longrightarrow> parse s = parse t"
  by (metis parse_canon)

lemma reparse: "parse s = Inr x \<Longrightarrow> parse (name x) = parse s"
  by (simp add: parse_name)

end

lemma trim_gen_word: "trim_gen ws_len (c # s) = c # s"
  if "33 \<le> (of_char c :: nat)" "of_char c < (128::nat)"
  using that by (intro trim_gen_fixed) (auto simp: ws_len_def split: list.splits)

interpretation http_version_text: spelled_enum parse_asset_http_version asset_http_version_name
proof unfold_locales
  show "parse_asset_http_version (asset_http_version_name x) = Inr x" for x
    by (cases x) (simp_all add: parse_enum_def parse_enum_defs trim_ascii_fixed to_lower_def ascii_lower_def)
qed (simp add: parse_enum_canon parse_enum_defs)

interpretation ffi_mode_text: spelled_enum parse_asset_studio_ffi_mode asset_studio_ffi_mode_name
proof unfold_locales
  show "parse_asset_studio_ffi_mode (asset_studio_ffi_mode_name x) = Inr x" for x
    by (cases x) (simp_all add: parse_enum_def parse_enum_defs trim_ascii_fixed to_lower_def ascii_lower_def)
qed (simp add: parse_enum_canon parse_enum_defs)

interpretation image_backend_text: spelled_enum parse_image_backend image_backend_name
proof unfold_locales
  show "parse_image_backend (image_backend_name x) = Inr x" for x
    by (cases x) (simp_all add: parse_enum_def parse_enum_defs trim_ascii_fixed to_lower_def ascii_lower_def)
qed (simp add: parse_enum_canon parse_enum_defs)

interpretation png_text: spelled_enum parse_image_png_compression image_png_compression_name
proof unfold_locales
  show "parse_image_png_compression (image_png_compression_name x) = Inr x" for x
    by (cases x) (simp_all add: parse_enum_def parse_enum_defs trim_ascii_fixed to_lower_def ascii_lower_def)
qed (simp add: parse_enum_canon parse_enum_defs)

interpretation image_format_text: spelled_enum parse_image_output_format image_output_format_name
proof unfold_locales
  show "parse_image_output_format (image_output_format_name x) = Inr x" for x
    by (cases x) (simp_all add: parse_enum_def parse_enum_defs trim_ascii_fixed to_lower_def ascii_lower_def)
qed (simp add: parse_enum_canon parse_enum_defs)

interpretation video_format_text: spelled_enum parse_video_output_format video_output_format_name
proof unfold_locales
  show "parse_video_output_format (video_output_format_name x) = Inr x" for x
    by (cases x) (simp_all add: parse_enum_def parse_enum_defs trim_ascii_fixed to_lower_def ascii_lower_def)
qed (simp add: parse_enum_canon parse_enum_defs)

interpretation audio_format_text: spelled_enum parse_audio_output_format audio_output_format_name
proof unfold_locales
  show "parse_audio_output_format (audio_output_format_name x) = Inr x" for x
    by (cases x) (simp_all add: parse_enum_def parse_enum_defs trim_ascii_fixed to_lower_def ascii_lower_def)
qed (simp add: parse_enum_canon parse_enum_defs)

interpretation media_backend_text: spelled_enum parse_media_backend media_backend_name
proof unfold_locales
  show "parse_media_backend (media_backend_name x) = Inr x" for x
    by (cases x) (simp_all add: parse_enum_def parse_enum_defs trim_ascii_fixed to_lower_def ascii_lower_def)
qed (simp add: parse_enum_canon parse_enum_defs)

section \<open>Single values from the environment\<close>

definition non_empty_option :: "string \<Rightarrow> string option" where
  "non_empty_option value = (if trim value = [] then None else Some value)"

definition parse_positive_usize :: "string \<Rightarrow> string \<Rightarrow> config_error + nat" where
  "parse_positive_usize field value =
     (let trimmed = trim value
      in case parse_usize trimmed of
           None \<Rightarrow> Inl (InvalidValue field trimmed ''a positive integer'')
         | Some parsed \<Rightarrow>
             if parsed = 0 then Inl (InvalidValue field trimmed ''a positive integer'')
             else Inr parsed)"

definition parse_usize_env :: "string \<Rightarrow> string \<Rightarrow> config_error + nat" where
  "parse_usize_env field value =
     (let trimmed = trim value
      in case parse_usize trimmed of
           None \<Rightarrow> Inl (InvalidValue field trimmed ''a non-negative integer'')
         | Some parsed \<Rightarrow> Inr parsed)"

text \<open>\<open>parse_f64\<close> stands for \<^verbatim>\<open>str::parse::<f64>\<close>.\<close>

definition parse_cpu_ratio_env ::
    "(string \<Rightarrow> f64 option) \<Rightarrow> string \<Rightarrow> string \<Rightarrow> config_error + f64" where
  "parse_cpu_ratio_env parse_f64 field value =
     (let trimmed = trim value
      in ok_or (InvalidValue field trimmed ''a number greater than 0 and less than or equal to 1'')
           (parse_f64 trimmed))"

definition parse_bool_env :: "string \<Rightarrow> string \<Rightarrow> config_error + bool" where
  "parse_bool_env field value =
     (let trimmed = trim value; lowered = to_lower trimmed
      in if lowered \<in> set [''1'', ''true'', ''yes'', ''on''] then Inr True
         else if lowered \<in> set [''0'', ''false'', ''no'', ''off''] then Inr False
         else Inl (InvalidValue field trimmed ''true or false''))"

definition validate_asset_studio_ffi_image_format :: "string \<Rightarrow> config_error + unit" where
  "validate_asset_studio_ffi_image_format value =
     (let other = to_lower (trim value)
      in if other = ''raw_rgba'' then Inr ()
         else Inl (InvalidValue ''backends.asset_studio.image_format'' other ''raw_rgba''))"

definition normalize_asset_studio_ffi_image_format :: "string \<Rightarrow> config_error + string" where
  "normalize_asset_studio_ffi_image_format value =
     (let normalized = to_lower (trim value)
      in res_bind (validate_asset_studio_ffi_image_format normalized) (\<lambda>_. Inr normalized))"

section \<open>Validation\<close>

definition image_output_formats :: "image_export_config \<Rightarrow> image_output_format list" where
  "image_output_formats c = dedupe (ie_formats c)"

definition video_output_formats :: "video_export_config \<Rightarrow> video_output_format list" where
  "video_output_formats c = dedupe (ve_formats c)"

definition audio_output_formats :: "audio_export_config \<Rightarrow> audio_output_format list" where
  "audio_output_formats c = dedupe (ae_formats c)"

definition writes_m2v :: "video_export_config \<Rightarrow> bool" where
  "writes_m2v c \<longleftrightarrow> FmtM2v \<in> set (video_output_formats c)"

definition writes_mp4 :: "video_export_config \<Rightarrow> bool" where
  "writes_mp4 c \<longleftrightarrow> FmtMp4 \<in> set (video_output_formats c)"

definition validate_image_backend :: "image_backend_config \<Rightarrow> config_error + unit" where
  "validate_image_backend img =
     (if \<not> (1 \<le> im_jpeg_quality img \<and> im_jpeg_quality img \<le> 100)
      then Inl (InvalidValue ''backends.image.jpeg_quality'' (show_nat (im_jpeg_quality img))
                  ''an integer from 1 to 100'')
      else Inr ())"

definition validate_image_export_config :: "string \<Rightarrow> image_export_config \<Rightarrow> config_error + unit" where
  "validate_image_export_config region_name images =
     (if image_output_formats images = []
      then Inl (InvalidValue (''regions.'' @ region_name @ ''.export.images.formats'') ''[]''
                  ''at least one of png, jpg, or webp'')
      else Inr ())"

definition validate_video_export_config :: "string \<Rightarrow> video_export_config \<Rightarrow> config_error + unit" where
  "validate_video_export_config region_name video =
     (if video_output_formats video = []
      then Inl (InvalidValue (''regions.'' @ region_name @ ''.export.video.formats'') ''[]''
                  ''at least one of m2v or mp4'')
      else Inr ())"

definition validate_audio_export_config :: "string \<Rightarrow> audio_export_config \<Rightarrow> config_error + unit" where
  "validate_audio_export_config region_name audio =
     (if audio_output_formats audio = []
      then Inl (InvalidValue (''regions.'' @ region_name @ ''.export.audio.formats'') ''[]''
                  ''at least one of wav, flac, or mp3'')
      else Inr ())"

definition validate_haruki_3d_export_config ::
    "string \<Rightarrow> haruki_3d_export_config \<Rightarrow> config_error + unit" where
  "validate_haruki_3d_export_config region_name h =
     (let prefix = ''regions.'' @ region_name @ ''.export.haruki_3d.'' in
      if \<not> h3_enabled h then Inr () else
      res_bind
        (try_all (\<lambda>(field, value).
             if trim value = [] then Inl (InvalidValue (prefix @ field) value ''a non-empty path'')
             else Inr ())
           [(''exporter_path'', h3_exporter_path h), (''master_dir'', h3_master_dir h),
            (''output_dir'', h3_output_dir h), (''manifest_file'', h3_manifest_file h)])
        (\<lambda>_.
           if trim (h3_work_dir h) = [] \<and> trim (h3_staging_dir h) = []
           then Inl (InvalidValue (prefix @ ''work_dir'') (h3_work_dir h) ''a non-empty path'')
           else if h3_include h = []
           then Inl (InvalidValue (prefix @ ''include'') ''[]'' ''at least one include pattern'')
           else case find (\<lambda>v. v \<le> 0) (h3_role_character3d_ids h) of
                  Some v \<Rightarrow> Inl (InvalidValue (prefix @ ''role_character3d_ids'') (show_int v)
                                 ''positive character3d ids'')
                | None \<Rightarrow> Inr ()))"

definition read_kinds :: "string list" where
  "read_kinds = [''auto'', ''raw'', ''typetree_json'', ''image'', ''image_archive'', ''audio'',
     ''video'', ''font'', ''shader'', ''text'', ''text_bytes'', ''mesh'', ''obj'', ''animator'',
     ''fbx'', ''pjsk_model_package'', ''pjsk_animation_clip_decoded'']"

definition validate_asset_studio_ffi_read_kind :: "string \<Rightarrow> string \<Rightarrow> config_error + unit" where
  "validate_asset_studio_ffi_read_kind field value =
     (let other = to_lower (trim value)
      in if other \<in> set read_kinds then Inr ()
         else Inl (InvalidValue field other
           ''auto, raw, typetree_json, image, image_archive, audio, video, font, shader, text, text_bytes, mesh, obj, animator, fbx, pjsk_model_package, or pjsk_animation_clip_decoded''))"

definition validate_asset_studio_ffi_read_kinds ::
    "(string, string) btmap \<Rightarrow> config_error + unit" where
  "validate_asset_studio_ffi_read_kinds kinds =
     try_all (\<lambda>(asset_type, kind).
       if trim asset_type = []
       then Inl (InvalidValue ''backends.asset_studio.read_kinds'' asset_type
                   ''non-empty AssetStudio type selector'')
       else validate_asset_studio_ffi_read_kind
              (''backends.asset_studio.read_kinds.'' @ asset_type) kind) kinds"

text \<open>\<^verbatim>\<open>(0.0..=1.0).contains(&r)\<close>, and \<^verbatim>\<open>r == 0.0\<close>.\<close>

fun f64_in_unit :: "f64 \<Rightarrow> bool" where
  "f64_in_unit (F64Fin r) \<longleftrightarrow> 0 \<le> r \<and> r \<le> 1"
| "f64_in_unit _ \<longleftrightarrow> False"

definition f64_is_zero :: "f64 \<Rightarrow> bool" where
  "f64_is_zero r \<longleftrightarrow> r = F64Fin 0"

text \<open>\<open>show_f64\<close> stands for the \<^verbatim>\<open>Display\<close> form of a number; it only reaches an error message.\<close>

definition validate :: "(f64 \<Rightarrow> string) \<Rightarrow> app_config \<Rightarrow> config_error + unit" where
  "validate show_f64 c =
    (if ap_config_version c \<noteq> CURRENT_CONFIG_VERSION
     then Inl (UnsupportedVersion (ap_config_version c)) else
     res_bind (try_all (\<lambda>(region_name, _).
         if to_lower region_name \<noteq> region_name then Inl (InvalidRegionName region_name) else Inr ())
       (ap_regions c)) (\<lambda>_.
     let ratio = cpu_budget_ratio (rs_cpu (ap_resources c));
         studio = bk_asset_studio (ap_backends c);
         zero = (\<lambda>field. Inl (InvalidValue field ''0'' ''a positive integer'')) in
     if \<not> f64_in_unit ratio \<or> f64_is_zero ratio
     then Inl (InvalidValue ''resources.cpu.budget_ratio'' (show_f64 ratio)
                 ''a number greater than 0 and less than or equal to 1'')
     else if st_read_batch_size studio = 0 then zero ''backends.asset_studio.read_batch_size''
     else if cc_media_encode (ap_concurrency c) = 0 then zero ''concurrency.media_encode''
     else if cc_audio_encode (ap_concurrency c) = 0 then zero ''concurrency.audio_encode''
     else if cc_video_encode (ap_concurrency c) = 0 then zero ''concurrency.video_encode''
     else
     res_bind (case st_image_format studio of
         Some image_format \<Rightarrow> validate_asset_studio_ffi_image_format image_format
       | None \<Rightarrow> Inr ()) (\<lambda>_.
     res_bind (case st_worker_gc_conserve_memory studio of
         Some conserve \<Rightarrow> if conserve > 9
           then Inl (InvalidValue ''backends.asset_studio.worker_gc_conserve_memory''
                       (show_nat conserve) ''an integer from 0 to 9'')
           else Inr ()
       | None \<Rightarrow> Inr ()) (\<lambda>_.
     res_bind (validate_image_backend (bk_image (ap_backends c))) (\<lambda>_.
     res_bind (try_all (\<lambda>(region_name, region).
         res_bind (validate_image_export_config region_name (xp_images (rg_export region))) (\<lambda>_.
         res_bind (validate_video_export_config region_name (xp_video (rg_export region))) (\<lambda>_.
         res_bind (validate_audio_export_config region_name (xp_audio (rg_export region))) (\<lambda>_.
         validate_haruki_3d_export_config region_name (xp_haruki_3d (rg_export region))))))
       (ap_regions c)) (\<lambda>_.
     validate_asset_studio_ffi_read_kinds (st_read_kinds studio)))))))"

definition enabled_regions :: "app_config \<Rightarrow> string list" where
  "enabled_regions c = map fst (filter (\<lambda>(name, region). rg_enabled region) (ap_regions c))"

section \<open>Derived limits\<close>

text \<open>\<open>rnd\<close> is the rounding of \<^verbatim>\<open>f64\<close> arithmetic; a finite product is rounded, the result of
  \<^verbatim>\<open>as usize\<close> saturates, and a NaN becomes 0.\<close>

fun scale_cpus :: "(rat \<Rightarrow> rat) \<Rightarrow> nat \<Rightarrow> f64 \<Rightarrow> nat" where
  "scale_cpus rnd cpus (F64Fin r) = min (nat \<lfloor>rnd (rnd (of_nat cpus) * r)\<rfloor>) usize_max"
| "scale_cpus rnd cpus (F64Inf neg) = (if neg then 0 else usize_max)"
| "scale_cpus rnd cpus F64NaN = 0"

definition effective_budget_for_cpus :: "(rat \<Rightarrow> rat) \<Rightarrow> cpu_resource_config \<Rightarrow> nat \<Rightarrow> nat" where
  "effective_budget_for_cpus rnd c cpus0 =
     (let cpus = max cpus0 1
      in if \<not> cpu_budget_auto c then cpus
         else max (scale_cpus rnd cpus (cpu_budget_ratio c) - cpu_reserved c) 1)"

definition effective_for_cpus_with_budget ::
    "concurrency_config \<Rightarrow> nat \<Rightarrow> nat \<Rightarrow> concurrency_config" where
  "effective_for_cpus_with_budget c cpus0 cpu_budget0 =
    (if \<not> cc_auto_tune c then c else
     let cpus = max cpus0 1;
         cpu_budget = max cpu_budget0 1;
         cpu_oversubscribe = max (sat_mul cpu_budget 2) cpu_budget
     in \<lparr>cc_auto_tune = True,
         cc_download = max (min (cc_download c) (max (sat_mul cpus 4) 4)) 1,
         cc_upload = max (min (cc_upload c) (max cpus 2)) 1,
         cc_post_process = (if cc_post_process c = 0 then 0
            else max (min (cc_post_process c) (max (sat_mul cpus 2) 2)) 1),
         cc_acb = max (min (cc_acb c) cpu_oversubscribe) 1,
         cc_usm = max (min (cc_usm c) (max cpus 2)) 1,
         cc_hca = max (min (min (cc_hca c) (max (sat_mul cpus 2) 2)) cpu_oversubscribe) 1,
         cc_media_encode = max (min (cc_media_encode c) cpu_oversubscribe) 1,
         cc_audio_encode = max (min (cc_audio_encode c) cpu_oversubscribe) 1,
         cc_video_encode = max (min (cc_video_encode c) (max (div_ceil cpus 4) 1)) 1,
         cc_images = max (min (cc_images c) cpu_oversubscribe) 1\<rparr>)"

definition effective_concurrency_for_cpus ::
    "(rat \<Rightarrow> rat) \<Rightarrow> app_config \<Rightarrow> nat \<Rightarrow> concurrency_config" where
  "effective_concurrency_for_cpus rnd c cpus =
     effective_for_cpus_with_budget (ap_concurrency c) cpus
       (effective_budget_for_cpus rnd (rs_cpu (ap_resources c)) cpus)"

definition effective_asset_studio_ffi_process_concurrency_for_cpus ::
    "(rat \<Rightarrow> rat) \<Rightarrow> app_config \<Rightarrow> nat \<Rightarrow> nat" where
  "effective_asset_studio_ffi_process_concurrency_for_cpus rnd c cpus0 =
    (let configured = st_process_concurrency (bk_asset_studio (ap_backends c)) in
     if configured > 0 then configured else
     let cpus = max cpus0 1;
         cpu_budget = effective_budget_for_cpus rnd (rs_cpu (ap_resources c)) cpus in
     if th_enabled (cpu_throttle (rs_cpu (ap_resources c)))
     then max (min cpus (max (sat_mul cpu_budget 2) cpu_budget)) 1
     else cpu_budget)"

text \<open>\<^verbatim>\<open>available_parallelism\<close> with its fallback.\<close>

definition available_cpu_count :: "nat option \<Rightarrow> nat" where
  "available_cpu_count parallelism = max (unwrap_or 4 parallelism) 1"

section \<open>What the operations guarantee\<close>

text \<open>A valid configuration, stated without the order of the checks.\<close>

definition valid_haruki_3d :: "haruki_3d_export_config \<Rightarrow> bool" where
  "valid_haruki_3d h \<longleftrightarrow> (h3_enabled h \<longrightarrow>
     trim (h3_exporter_path h) \<noteq> [] \<and> trim (h3_master_dir h) \<noteq> [] \<and> trim (h3_output_dir h) \<noteq> [] \<and>
     trim (h3_manifest_file h) \<noteq> [] \<and>
     (trim (h3_work_dir h) \<noteq> [] \<or> trim (h3_staging_dir h) \<noteq> []) \<and>
     h3_include h \<noteq> [] \<and> (\<forall>v\<in>set (h3_role_character3d_ids h). 0 < v))"

definition valid_region :: "region_config \<Rightarrow> bool" where
  "valid_region r \<longleftrightarrow> ie_formats (xp_images (rg_export r)) \<noteq> [] \<and>
     ve_formats (xp_video (rg_export r)) \<noteq> [] \<and> ae_formats (xp_audio (rg_export r)) \<noteq> [] \<and>
     valid_haruki_3d (xp_haruki_3d (rg_export r))"

definition valid_studio :: "asset_studio_backend_config \<Rightarrow> bool" where
  "valid_studio st \<longleftrightarrow> 0 < st_read_batch_size st \<and>
     (\<forall>f. st_image_format st = Some f \<longrightarrow> to_lower (trim f) = ''raw_rgba'') \<and>
     (\<forall>n. st_worker_gc_conserve_memory st = Some n \<longrightarrow> n \<le> 9) \<and>
     (\<forall>(t, k)\<in>set (st_read_kinds st). trim t \<noteq> [] \<and> to_lower (trim k) \<in> set read_kinds)"

definition valid_config :: "app_config \<Rightarrow> bool" where
  "valid_config c \<longleftrightarrow> ap_config_version c = 3 \<and>
     (\<forall>(n, r)\<in>set (ap_regions c). to_lower n = n \<and> valid_region r) \<and>
     (\<exists>q. cpu_budget_ratio (rs_cpu (ap_resources c)) = F64Fin q \<and> 0 < q \<and> q \<le> 1) \<and>
     valid_studio (bk_asset_studio (ap_backends c)) \<and>
     0 < cc_media_encode (ap_concurrency c) \<and> 0 < cc_audio_encode (ap_concurrency c) \<and>
     0 < cc_video_encode (ap_concurrency c) \<and>
     1 \<le> im_jpeg_quality (bk_image (ap_backends c)) \<and> im_jpeg_quality (bk_image (ap_backends c)) \<le> 100"

lemma validate_haruki_3d_ok:
  "validate_haruki_3d_export_config n h = Inr () \<longleftrightarrow> valid_haruki_3d h"
proof (cases "h3_enabled h")
  case False
  then show ?thesis by (simp add: validate_haruki_3d_export_config_def valid_haruki_3d_def)
next
  case True
  have find: "find (\<lambda>v. v \<le> 0) vs = None \<longleftrightarrow> (\<forall>v\<in>set vs. (0::int) < v)" for vs
    by (auto simp: find_None_iff not_le)
  from True show ?thesis
    unfolding validate_haruki_3d_export_config_def valid_haruki_3d_def Let_def
    by (auto simp: res_bind_eq_Inr simp flip: find split: if_splits option.splits)
qed

lemma validate_region_ok:
  "res_bind (validate_image_export_config n (xp_images (rg_export r))) (\<lambda>_.
   res_bind (validate_video_export_config n (xp_video (rg_export r))) (\<lambda>_.
   res_bind (validate_audio_export_config n (xp_audio (rg_export r))) (\<lambda>_.
     validate_haruki_3d_export_config n (xp_haruki_3d (rg_export r))))) = Inr ()
   \<longleftrightarrow> valid_region r"
  by (auto simp: res_bind_eq_Inr validate_image_export_config_def validate_video_export_config_def
      validate_audio_export_config_def validate_haruki_3d_ok valid_region_def image_output_formats_def
      video_output_formats_def audio_output_formats_def)

lemma validate_read_kinds_ok:
  "validate_asset_studio_ffi_read_kinds ks = Inr () \<longleftrightarrow>
     (\<forall>(t, k)\<in>set ks. trim t \<noteq> [] \<and> to_lower (trim k) \<in> set read_kinds)"
  by (auto simp: validate_asset_studio_ffi_read_kinds_def try_all_ok Let_def
      validate_asset_studio_ffi_read_kind_def split: if_splits)

lemma ratio_ok:
  "f64_in_unit r \<and> \<not> f64_is_zero r \<longleftrightarrow> (\<exists>q. r = F64Fin q \<and> 0 < q \<and> q \<le> 1)"
  by (cases r) (auto simp: f64_is_zero_def)

lemma validate_iff_valid: "validate show_f64 c = Inr () \<longleftrightarrow> valid_config c"
proof -
  let ?ratio = "cpu_budget_ratio (rs_cpu (ap_resources c))"
  have img: "validate_asset_studio_ffi_image_format f = Inr () \<longleftrightarrow> to_lower (trim f) = ''raw_rgba''" for f
    by (simp add: validate_asset_studio_ffi_image_format_def Let_def)
  have jpg: "validate_image_backend i = Inr () \<longleftrightarrow> 1 \<le> im_jpeg_quality i \<and> im_jpeg_quality i \<le> 100" for i
    by (simp add: validate_image_backend_def)
  have names: "try_all (\<lambda>(n, _). if to_lower n \<noteq> n then Inl (InvalidRegionName n) else Inr ()) (ap_regions c)
      = Inr () \<longleftrightarrow> (\<forall>(n, r)\<in>set (ap_regions c). to_lower n = n)"
    by (auto simp: try_all_ok split: if_splits)
  have regions: "try_all (\<lambda>(n, r).
         res_bind (validate_image_export_config n (xp_images (rg_export r))) (\<lambda>_.
         res_bind (validate_video_export_config n (xp_video (rg_export r))) (\<lambda>_.
         res_bind (validate_audio_export_config n (xp_audio (rg_export r))) (\<lambda>_.
         validate_haruki_3d_export_config n (xp_haruki_3d (rg_export r)))))) (ap_regions c) = Inr ()
      \<longleftrightarrow> (\<forall>(n, r)\<in>set (ap_regions c). valid_region r)"
    by (simp add: try_all_ok case_prod_beta validate_region_ok)
  have ok: "res_bind r f = Inr () \<longleftrightarrow> r = Inr () \<and> f () = Inr ()"
    for r :: "config_error + unit" and f
    by (cases r) auto
  have split_all: "(\<forall>(n, r)\<in>S. P n r \<and> Q n r) \<longleftrightarrow> (\<forall>(n, r)\<in>S. P n r) \<and> (\<forall>(n, r)\<in>S. Q n r)"
    for S :: "(string \<times> region_config) set" and P Q by auto
  show ?thesis
    unfolding validate_def valid_config_def valid_studio_def Let_def ok split_all
    using ratio_ok [of ?ratio]
    by (auto simp: ok names regions img jpg validate_read_kinds_ok CURRENT_CONFIG_VERSION_def
        split: if_splits option.splits)
qed

text \<open>Auto-tuning only lowers a configured limit, keeps every limit positive, and keeps the
  value 0 of \<^verbatim>\<open>post_process\<close>, which the executor reads as "use the encode limit".\<close>

definition tuned_ok :: "nat \<Rightarrow> nat \<Rightarrow> bool" where
  "tuned_ok configured effective \<longleftrightarrow> 1 \<le> effective \<and> effective \<le> max configured 1"

lemma max_min_one_tuned [simp]: "tuned_ok a (max (min a b) 1)"
  by (auto simp: tuned_ok_def)

lemma max_min_min_one_tuned [simp]: "tuned_ok a (max (min (min a b) c) 1)"
  by (auto simp: tuned_ok_def)

lemma effective_tuned:
  assumes "cc_auto_tune c" and e_def: "e = effective_for_cpus_with_budget c cpus budget"
  shows "tuned_ok (cc_download c) (cc_download e)" "tuned_ok (cc_upload c) (cc_upload e)"
    "tuned_ok (cc_acb c) (cc_acb e)" "tuned_ok (cc_usm c) (cc_usm e)" "tuned_ok (cc_hca c) (cc_hca e)"
    "tuned_ok (cc_media_encode c) (cc_media_encode e)" "tuned_ok (cc_audio_encode c) (cc_audio_encode e)"
    "tuned_ok (cc_video_encode c) (cc_video_encode e)" "tuned_ok (cc_images c) (cc_images e)"
    "cc_post_process e = 0 \<longleftrightarrow> cc_post_process c = 0"
    "cc_post_process e \<le> cc_post_process c"
  using assms(1) by (simp_all add: e_def effective_for_cpus_with_budget_def Let_def less_max_iff_disj
      del: One_nat_def)

text \<open>What \<^verbatim>\<open>f64\<close> rounding is relied on for: it is monotone and exact on the integers up to
  \<open>2 ^ 53\<close>.\<close>

definition ieee_rounding :: "(rat \<Rightarrow> rat) \<Rightarrow> bool" where
  "ieee_rounding rnd \<longleftrightarrow> (\<forall>x y. x \<le> y \<longrightarrow> rnd x \<le> rnd y) \<and>
     (\<forall>n \<le> (2::nat) ^ 53. rnd (of_nat n) = of_nat n)"

lemma scale_cpus_bound:
  assumes "ieee_rounding rnd" "cpus \<le> 2 ^ 53" "0 < q" "q \<le> 1"
  shows "scale_cpus rnd cpus (F64Fin q) \<le> cpus"
proof -
  have exact: "rnd (of_nat cpus) = of_nat cpus" using assms(1,2) by (simp add: ieee_rounding_def)
  have "of_nat cpus * q \<le> of_nat cpus" using assms(3,4) by (simp add: mult_left_le)
  then have "rnd (of_nat cpus * q) \<le> rnd (of_nat cpus)"
    using assms(1) by (simp add: ieee_rounding_def)
  then have "\<lfloor>rnd (rnd (of_nat cpus) * q)\<rfloor> \<le> int cpus"
    by (simp add: exact floor_le_iff)
  then show ?thesis by simp
qed

lemma effective_budget_bounds:
  assumes "ieee_rounding rnd" "max cpus 1 \<le> 2 ^ 53"
    and "cpu_budget_ratio c = F64Fin q" "0 < q" "q \<le> 1"
  shows "1 \<le> effective_budget_for_cpus rnd c cpus" "effective_budget_for_cpus rnd c cpus \<le> max cpus 1"
  using scale_cpus_bound [OF assms(1,2,4,5)]
  by (auto simp: effective_budget_for_cpus_def Let_def assms(3) simp del: scale_cpus.simps)

section \<open>Properties\<close>

text \<open>Every enumeration reads back its own configuration-file spelling, in any letter case and
  with any surrounding white space.\<close>

theorem enum_spellings_round_trip:
  "(to_lower (trim s) = asset_http_version_name hv \<longrightarrow> parse_asset_http_version s = Inr hv) \<and>
    (to_lower (trim s) = asset_studio_ffi_mode_name fm \<longrightarrow> parse_asset_studio_ffi_mode s = Inr fm) \<and>
    (to_lower (trim s) = image_backend_name ib \<longrightarrow> parse_image_backend s = Inr ib) \<and>
    (to_lower (trim s) = image_png_compression_name pc \<longrightarrow> parse_image_png_compression s = Inr pc) \<and>
    (to_lower (trim s) = image_output_format_name fi \<longrightarrow> parse_image_output_format s = Inr fi) \<and>
    (to_lower (trim s) = video_output_format_name fv \<longrightarrow> parse_video_output_format s = Inr fv) \<and>
    (to_lower (trim s) = audio_output_format_name fa \<longrightarrow> parse_audio_output_format s = Inr fa) \<and>
    (to_lower (trim s) = media_backend_name mb \<longrightarrow> parse_media_backend s = Inr mb)"
  using http_version_text.parse_spelling ffi_mode_text.parse_spelling
    image_backend_text.parse_spelling png_text.parse_spelling image_format_text.parse_spelling
    video_format_text.parse_spelling audio_format_text.parse_spelling
    media_backend_text.parse_spelling
  by blast

theorem enum_spellings_round_trip_witness:
  "parse_asset_http_version ''  HTTP1 '' = Inr Http1 \<and>
   parse_asset_studio_ffi_mode ''Worker_Pool'' = Inr FfiWorkerPool \<and>
   parse_image_backend ''RUST'' = Inr ImageRust \<and> parse_image_png_compression ''best'' = Inr PngBest \<and>
   parse_image_output_format ''Webp'' = Inr FmtWebp \<and> parse_video_output_format ''MP4'' = Inr FmtMp4 \<and>
   parse_audio_output_format ''flac'' = Inr FmtFlac \<and> parse_media_backend ''CLI'' = Inr MediaCli"
proof -
  note txt_defs = trim_def trim_gen.simps ws_len_def ws_len_rev_def to_lower_def ascii_lower_def
    char_of_def bit_Suc_0_iff
  have "to_lower (trim ''  HTTP1 '') = asset_http_version_name Http1"
    "to_lower (trim ''Worker_Pool'') = asset_studio_ffi_mode_name FfiWorkerPool"
    "to_lower (trim ''RUST'') = image_backend_name ImageRust"
    "to_lower (trim ''best'') = image_png_compression_name PngBest"
    "to_lower (trim ''Webp'') = image_output_format_name FmtWebp"
    "to_lower (trim ''MP4'') = video_output_format_name FmtMp4"
    "to_lower (trim ''flac'') = audio_output_format_name FmtFlac"
    "to_lower (trim ''CLI'') = media_backend_name MediaCli"
    by (simp_all add: txt_defs)
  then show ?thesis using enum_spellings_round_trip by blast
qed

text \<open>\<^verbatim>\<open>validate\<close> accepts exactly the valid configurations: version 3, lower-case region
  names, a budget ratio in the half-open unit interval, positive batch and encode limits, known
  read kinds and image formats, a JPEG quality from 1 to 100, and in every region at least one
  output format of each kind and a complete 3D export section when that is enabled.\<close>

theorem validate_accepts_exactly_valid: "is_ok (validate show_f64 c) \<longleftrightarrow> valid_config c"
proof -
  have "is_ok r \<longleftrightarrow> r = Inr ()" for r :: "config_error + unit" by (cases r) auto
  then show ?thesis using validate_iff_valid by metis
qed

text \<open>Auto-tuning: every limit of the effective concurrency is at least one and at most the
  configured one (or one, when zero was configured); \<^verbatim>\<open>post_process\<close> keeps its special value 0;
  without auto-tuning the configuration is taken as it is.\<close>

theorem effective_concurrency_bounds:
  fixes c :: app_config
  defines "k \<equiv> ap_concurrency c"
  assumes "e = effective_concurrency_for_cpus rnd c cpus"
  shows "if cc_auto_tune k
    then tuned_ok (cc_download k) (cc_download e) \<and> tuned_ok (cc_upload k) (cc_upload e) \<and>
      tuned_ok (cc_acb k) (cc_acb e) \<and> tuned_ok (cc_usm k) (cc_usm e) \<and> tuned_ok (cc_hca k) (cc_hca e) \<and>
      tuned_ok (cc_media_encode k) (cc_media_encode e) \<and> tuned_ok (cc_audio_encode k) (cc_audio_encode e) \<and>
      tuned_ok (cc_video_encode k) (cc_video_encode e) \<and> tuned_ok (cc_images k) (cc_images e) \<and>
      (cc_post_process e = 0 \<longleftrightarrow> cc_post_process k = 0) \<and> cc_post_process e \<le> cc_post_process k
    else e = k"
proof (cases "cc_auto_tune k")
  case True
  have e: "e = effective_for_cpus_with_budget k cpus
      (effective_budget_for_cpus rnd (rs_cpu (ap_resources c)) cpus)"
    by (simp add: assms(2) k_def effective_concurrency_for_cpus_def)
  show ?thesis using True effective_tuned [OF True e] by simp
next
  case False
  then show ?thesis
    by (simp add: assms(2) k_def effective_concurrency_for_cpus_def effective_for_cpus_with_budget_def)
qed

theorem effective_concurrency_bounds_witness:
  "tuned_ok 32 (cc_download (effective_concurrency_for_cpus (\<lambda>x. x)
      (default_app_config\<lparr>ap_concurrency := default_concurrency_config\<lparr>cc_auto_tune := True\<rparr>\<rparr>) 2))"
proof -
  let ?c = "default_app_config\<lparr>ap_concurrency := default_concurrency_config\<lparr>cc_auto_tune := True\<rparr>\<rparr>"
  show ?thesis
    using effective_concurrency_bounds [OF refl, where rnd = "\<lambda>x. x" and c = ?c and cpus = 2]
    by (simp add: default_concurrency_config_def)
qed

text \<open>The number of AssetStudio worker processes chosen automatically stays between one and
  the number of CPUs, for every accepted budget ratio.\<close>

theorem ffi_process_concurrency_within_cpus:
  assumes "ieee_rounding rnd" and "valid_config c" and "max cpus 1 \<le> 2 ^ 53"
    and "st_process_concurrency (bk_asset_studio (ap_backends c)) = 0"
  shows "1 \<le> effective_asset_studio_ffi_process_concurrency_for_cpus rnd c cpus \<and>
    effective_asset_studio_ffi_process_concurrency_for_cpus rnd c cpus \<le> max cpus 1"
proof
  obtain q where q: "cpu_budget_ratio (rs_cpu (ap_resources c)) = F64Fin q" "0 < q" "q \<le> 1"
    using assms(2) by (auto simp: valid_config_def)
  have m: "max (max cpus 1) 1 \<le> 2 ^ 53" using assms(3) by simp
  note b = effective_budget_bounds [OF assms(1) m q]
  show "1 \<le> effective_asset_studio_ffi_process_concurrency_for_cpus rnd c cpus"
    using b by (auto simp: effective_asset_studio_ffi_process_concurrency_for_cpus_def Let_def assms(4))
  show "effective_asset_studio_ffi_process_concurrency_for_cpus rnd c cpus \<le> max cpus 1"
    using b by (auto simp: effective_asset_studio_ffi_process_concurrency_for_cpus_def Let_def assms(4))
qed

theorem ffi_process_concurrency_within_cpus_witness:
  "ieee_rounding (\<lambda>x. x) \<and> valid_config default_app_config \<and>
   1 \<le> effective_asset_studio_ffi_process_concurrency_for_cpus (\<lambda>x. x) default_app_config 8 \<and>
   effective_asset_studio_ffi_process_concurrency_for_cpus (\<lambda>x. x) default_app_config 8 \<le> max 8 1"
proof -
  have r: "ieee_rounding (\<lambda>x. x)" by (simp add: ieee_rounding_def)
  have v: "valid_config default_app_config"
    by (simp add: valid_config_def valid_studio_def default_config_defs)
  have z: "st_process_concurrency (bk_asset_studio (ap_backends default_app_config)) = 0"
    by (simp add: default_config_defs)
  show ?thesis
    using r v ffi_process_concurrency_within_cpus [OF r v _ z, of 8] by simp
qed

end
