(* ===== verification/Config_Env.thy ===== *)
theory Config_Env
  imports Config
begin

text \<open>
  How the environment reaches the configuration (\<^verbatim>\<open>src/core/config.rs\<close>): references
  \<^verbatim>\<open>${env:NAME}\<close> inside the YAML document, the generic \<^verbatim>\<open>HARUKI__A__B\<close> overrides applied to the
  document tree, the named overrides of \<^verbatim>\<open>resolve_env_overrides\<close>, secrets, and the bootstrap
  URI. The process environment is a map from names to values; the YAML parser and the typed
  decoder are parameters.
\<close>

type_synonym env = "string \<Rightarrow> string option"

section \<open>References inside strings\<close>

definition env_open :: string where "env_open = ''${env:''"

function expand_rest :: "env \<Rightarrow> string \<Rightarrow> config_error + string" where
  "expand_rest env rest =
     (case find_sub env_open rest of
        None \<Rightarrow> Inr rest
      | Some start \<Rightarrow>
          let after = drop (start + length env_open) rest in
          (case find_sub ''}'' after of
             None \<Rightarrow> Inr rest
           | Some relative_end \<Rightarrow>
               let name = trim (take relative_end after) in
               (case env name of
                  None \<Rightarrow> Inl (MissingEnvironmentVariable ''config file'' name)
                | Some value \<Rightarrow>
                    res_bind (expand_rest env (drop (relative_end + 1) after))
                      (\<lambda>tail. Inr (take start rest @ value @ tail)))))"
  by pat_completeness auto
termination
proof (relation "measure (\<lambda>(env, rest). length rest)")
  fix env :: env and rest after :: string and start e :: nat
  assume "find_sub env_open rest = Some start" and "after = drop (start + length env_open) rest"
  then have "start \<le> length rest" "starts_with env_open (drop start rest)"
    by (auto dest: find_sub_Some)
  then obtain t where "drop start rest = env_open @ t" by (auto simp: starts_with_iff)
  then have "0 < length rest" by (cases rest) (auto simp: env_open_def)
  then show "((env, drop (e + 1) after), env, rest) \<in> measure (\<lambda>(env, rest). length rest)"
    using \<open>after = _\<close> by (auto simp: env_open_def)
qed simp

declare expand_rest.simps [simp del]

definition expand_env_references_in_string :: "env \<Rightarrow> string \<Rightarrow> config_error + string option" where
  "expand_env_references_in_string env raw =
     (if find_sub env_open raw = None then Inr None
      else res_bind (expand_rest env raw) (\<lambda>expanded. Inr (Some expanded)))"

section \<open>The document tree\<close>

datatype yaml =
    YNull
  | YBool bool
  | YNumber string
  | YString string
  | YSequence "yaml list"
  | YMapping "(yaml \<times> yaml) list"
  | YTagged string yaml

fun expand_env_references :: "env \<Rightarrow> yaml \<Rightarrow> config_error + yaml"
  and expand_env_items :: "env \<Rightarrow> yaml list \<Rightarrow> config_error + yaml list"
  and expand_env_entries :: "env \<Rightarrow> (yaml \<times> yaml) list \<Rightarrow> config_error + (yaml \<times> yaml) list" where
  "expand_env_references env (YString raw) =
     res_bind (expand_env_references_in_string env raw)
       (\<lambda>expanded. Inr (YString (unwrap_or raw expanded)))"
| "expand_env_references env (YSequence items) =
     res_bind (expand_env_items env items) (\<lambda>items'. Inr (YSequence items'))"
| "expand_env_references env (YMapping m) =
     res_bind (expand_env_entries env m) (\<lambda>m'. Inr (YMapping m'))"
| "expand_env_references env (YTagged tag value) =
     res_bind (expand_env_references env value) (\<lambda>v. Inr (YTagged tag v))"
| "expand_env_references env YNull = Inr YNull"
| "expand_env_references env (YBool b) = Inr (YBool b)"
| "expand_env_references env (YNumber n) = Inr (YNumber n)"
| "expand_env_items env [] = Inr []"
| "expand_env_items env (x # xs) =
     res_bind (expand_env_references env x) (\<lambda>y.
     res_bind (expand_env_items env xs) (\<lambda>ys. Inr (y # ys)))"
| "expand_env_entries env [] = Inr []"
| "expand_env_entries env ((k, x) # m) =
     res_bind (expand_env_references env x) (\<lambda>y.
     res_bind (expand_env_entries env m) (\<lambda>m'. Inr ((k, y) # m')))"

section \<open>Generic overrides\<close>

definition override_prefix :: string where "override_prefix = ''HARUKI__''"

definition parse_env_override_path :: "string \<Rightarrow> config_error + string list" where
  "parse_env_override_path name =
     (case strip_prefix override_prefix name of
        None \<Rightarrow> Inl (InvalidConfigBootstrap name ''override names must start with HARUKI__'')
      | Some raw_path \<Rightarrow>
          if raw_path = [] then Inl (InvalidConfigBootstrap name ''override path is empty'')
          else map_res (\<lambda>segment.
                 if segment = []
                 then Inl (InvalidConfigBootstrap name ''override path contains an empty segment'')
                 else Inr (to_lower segment)) (split_str ''__'' raw_path))"

text \<open>\<open>yaml_parse\<close> stands for \<^verbatim>\<open>yaml_serde::from_str\<close>.\<close>

definition parse_env_override_value :: "(string \<Rightarrow> string + yaml) \<Rightarrow> string \<Rightarrow> yaml" where
  "parse_env_override_value yaml_parse raw =
     (if raw = [] then YString []
      else case yaml_parse raw of Inr value \<Rightarrow> value | Inl _ \<Rightarrow> YString raw)"

definition pad_to :: "nat \<Rightarrow> yaml list \<Rightarrow> yaml list" where
  "pad_to index items =
     (if length items \<le> index then items @ replicate (index + 1 - length items) YNull else items)"

fun mapping_of :: "yaml \<Rightarrow> (yaml \<times> yaml) list" where
  "mapping_of (YMapping m) = m"
| "mapping_of _ = []"

definition set_env_override_leaf :: "yaml \<Rightarrow> string \<Rightarrow> yaml \<Rightarrow> yaml" where
  "set_env_override_leaf current segment value =
     (let as_mapping = YMapping (AList.update (YString segment) value (mapping_of current))
      in case parse_usize segment of
           Some index \<Rightarrow>
             (case current of
                YSequence items \<Rightarrow> YSequence ((pad_to index items)[index := value])
              | YNull \<Rightarrow> YSequence ((pad_to index [])[index := value])
              | _ \<Rightarrow> as_mapping)
         | None \<Rightarrow> as_mapping)"

definition default_child :: "string option \<Rightarrow> yaml" where
  "default_child next_segment =
     (case Option.bind next_segment parse_usize of
        Some _ \<Rightarrow> YSequence []
      | None \<Rightarrow> YMapping [])"

text \<open>The mutable borrow the code returns is modelled by the child and the function that writes a
  new child back into its parent.\<close>

definition descend_env_override_path ::
    "yaml \<Rightarrow> string \<Rightarrow> string option \<Rightarrow> yaml \<times> (yaml \<Rightarrow> yaml)" where
  "descend_env_override_path current segment next_segment =
     (let m = mapping_of current;
          key = YString segment;
          in_mapping =
            (unwrap_or (default_child next_segment) (map_of m key),
             \<lambda>child. YMapping (AList.update key child m));
          in_sequence = (\<lambda>items index.
            let padded = pad_to index items;
                child = (if padded ! index = YNull then default_child next_segment else padded ! index)
            in (child, \<lambda>child. YSequence (padded[index := child])))
      in case parse_usize segment of
           Some index \<Rightarrow>
             (case current of
                YSequence items \<Rightarrow> in_sequence items index
              | YNull \<Rightarrow> in_sequence [] index
              | _ \<Rightarrow> in_mapping)
         | None \<Rightarrow> in_mapping)"

fun override_at :: "yaml \<Rightarrow> string list \<Rightarrow> yaml \<Rightarrow> yaml" where
  "override_at current [] value = current"
| "override_at current [segment] value = set_env_override_leaf current segment value"
| "override_at current (segment # next # path) value =
     (case descend_env_override_path current segment (Some next) of
        (child, put_back) \<Rightarrow> put_back (override_at child (next # path) value))"

definition apply_env_override :: "yaml \<Rightarrow> string \<Rightarrow> string list \<Rightarrow> yaml \<Rightarrow> config_error + yaml" where
  "apply_env_override doc name path value =
     (if path = [] then Inl (InvalidConfigBootstrap name ''override path is empty'')
      else Inr (override_at doc path value))"

text \<open>\<open>vars\<close> lists the variables of the process in the key order of the
  \<^verbatim>\<open>BTreeMap\<close> the code collects them into.\<close>

definition apply_env_overrides ::
    "(string \<Rightarrow> string + yaml) \<Rightarrow> (string, string) btmap \<Rightarrow> yaml \<Rightarrow> config_error + yaml" where
  "apply_env_overrides yaml_parse vars doc0 =
     foldl (\<lambda>acc (name, raw_value). res_bind acc (\<lambda>doc.
         res_bind (parse_env_override_path name) (\<lambda>path.
           apply_env_override doc name path (parse_env_override_value yaml_parse raw_value))))
       (Inr doc0) (filter (\<lambda>(name, _). starts_with override_prefix name) vars)"

section \<open>Named overrides and secrets\<close>

type_synonym env_step = "string \<times> (string \<Rightarrow> app_config \<Rightarrow> config_error + app_config)"

definition set_parsed ::
    "(string \<Rightarrow> config_error + 'a) \<Rightarrow> ('a \<Rightarrow> app_config \<Rightarrow> app_config) \<Rightarrow>
     string \<Rightarrow> app_config \<Rightarrow> config_error + app_config" where
  "set_parsed parse setter value c = res_bind (parse value) (\<lambda>x. Inr (setter x c))"

abbreviation upd_studio ::
    "(asset_studio_backend_config \<Rightarrow> asset_studio_backend_config) \<Rightarrow> app_config \<Rightarrow> app_config" where
  "upd_studio f \<equiv> ap_backends_update (bk_asset_studio_update f)"

abbreviation upd_cpu ::
    "(cpu_resource_config \<Rightarrow> cpu_resource_config) \<Rightarrow> app_config \<Rightarrow> app_config" where
  "upd_cpu f \<equiv> ap_resources_update (rs_cpu_update f)"

definition gc_conserve_step :: "string \<Rightarrow> app_config \<Rightarrow> config_error + app_config" where
  "gc_conserve_step value c =
     res_bind (parse_usize_env ''backends.asset_studio.worker_gc_conserve_memory'' value) (\<lambda>parsed.
       if parsed > 9
       then Inl (InvalidValue ''backends.asset_studio.worker_gc_conserve_memory'' value
                   ''an integer from 0 to 9'')
       else Inr (upd_studio (st_worker_gc_conserve_memory_update (\<lambda>_. Some parsed)) c))"

definition studio_env_steps :: "env_step list" where
  "studio_env_steps =
    [(''HARUKI_MEDIA_BACKEND'', set_parsed parse_media_backend
        (\<lambda>x. ap_backends_update (bk_media_update (md_backend_update (\<lambda>_. x))))),
     (''HARUKI_ASSET_STUDIO_FFI_LIBRARY_PATH'', \<lambda>value c.
        Inr (upd_studio (st_library_path_update (\<lambda>_. non_empty_option value)) c)),
     (''HARUKI_ASSET_STUDIO_FFI_MODE'', set_parsed parse_asset_studio_ffi_mode
        (\<lambda>x. upd_studio (st_mode_update (\<lambda>_. x)))),
     (''HARUKI_ASSET_STUDIO_FFI_WORKER_PATH'', \<lambda>value c.
        Inr (upd_studio (st_worker_path_update (\<lambda>_. non_empty_option value)) c)),
     (''HARUKI_ASSET_STUDIO_FFI_PROCESS_CONCURRENCY'',
        set_parsed (parse_usize_env ''backends.asset_studio.process_concurrency'')
          (\<lambda>x. upd_studio (st_process_concurrency_update (\<lambda>_. x)))),
     (''HARUKI_ASSET_STUDIO_FFI_WORKER_MAX_CALLS'',
        set_parsed (parse_usize_env ''backends.asset_studio.worker_max_calls'')
          (\<lambda>x. upd_studio (st_worker_max_calls_update (\<lambda>_. x)))),
     (''HARUKI_ASSET_STUDIO_FFI_READ_BATCH_SIZE'',
        set_parsed (parse_positive_usize ''backends.asset_studio.read_batch_size'')
          (\<lambda>x. upd_studio (st_read_batch_size_update (\<lambda>_. x)))),
     (''HARUKI_ASSET_STUDIO_FFI_WORKER_IDLE_TIMEOUT_SECONDS'',
        set_parsed (parse_usize_env ''backends.asset_studio.worker_idle_timeout_seconds'')
          (\<lambda>x. upd_studio (st_worker_idle_timeout_seconds_update (\<lambda>_. x)))),
     (''HARUKI_ASSET_STUDIO_FFI_WORKER_GC_HEAP_HARD_LIMIT_MB'',
        set_parsed (parse_usize_env ''backends.asset_studio.worker_gc_heap_hard_limit_mb'')
          (\<lambda>x. upd_studio (st_worker_gc_heap_hard_limit_mb_update (\<lambda>_. x)))),
     (''HARUKI_ASSET_STUDIO_FFI_WORKER_GC_CONSERVE_MEMORY'', gc_conserve_step),
     (''HARUKI_ASSET_STUDIO_FFI_IMAGE_FLUSH_BYTES'',
        set_parsed (parse_usize_env ''backends.asset_studio.image_flush_bytes'')
          (\<lambda>x. upd_studio (st_image_flush_bytes_update (\<lambda>_. x)))),
     (''HARUKI_ASSET_STUDIO_FFI_IMAGE_FORMAT'',
        set_parsed normalize_asset_studio_ffi_image_format
          (\<lambda>x. upd_studio (st_image_format_update (\<lambda>_. non_empty_option x)))),
     (''HARUKI_ASSET_HTTP_VERSION'',
        set_parsed parse_asset_http_version
          (\<lambda>x. ap_server_update (sv_asset_http_version_update (\<lambda>_. x))))]"

definition encode_env_steps :: "env_step list" where
  "encode_env_steps =
    [(''HARUKI_MEDIA_ENCODE_CONCURRENCY'',
        set_parsed (parse_positive_usize ''concurrency.media_encode'')
          (\<lambda>x. ap_concurrency_update (\<lambda>k.
             k\<lparr>cc_media_encode := x, cc_audio_encode := x, cc_video_encode := x\<rparr>))),
     (''HARUKI_AUDIO_ENCODE_CONCURRENCY'',
        set_parsed (parse_positive_usize ''concurrency.audio_encode'')
          (\<lambda>x. ap_concurrency_update (cc_audio_encode_update (\<lambda>_. x)))),
     (''HARUKI_VIDEO_ENCODE_CONCURRENCY'',
        set_parsed (parse_positive_usize ''concurrency.video_encode'')
          (\<lambda>x. ap_concurrency_update (cc_video_encode_update (\<lambda>_. x))))]"

definition resource_env_steps :: "(string \<Rightarrow> f64 option) \<Rightarrow> env_step list" where
  "resource_env_steps parse_f64 =
    [(''HARUKI_DOWNLOAD_CONCURRENCY'',
        set_parsed (parse_positive_usize ''concurrency.download'')
          (\<lambda>x. ap_concurrency_update (cc_download_update (\<lambda>_. x)))),
     (''HARUKI_POST_PROCESS_CONCURRENCY'',
        set_parsed (parse_positive_usize ''concurrency.post_process'')
          (\<lambda>x. ap_concurrency_update (cc_post_process_update (\<lambda>_. x)))),
     (''HARUKI_CONCURRENCY_AUTO_TUNE'',
        set_parsed (parse_bool_env ''concurrency.auto_tune'')
          (\<lambda>x. ap_concurrency_update (cc_auto_tune_update (\<lambda>_. x)))),
     (''HARUKI_CPU_BUDGET_AUTO'',
        set_parsed (parse_bool_env ''resources.cpu.budget_auto'')
          (\<lambda>x. upd_cpu (cpu_budget_auto_update (\<lambda>_. x)))),
     (''HARUKI_CPU_BUDGET_RATIO'',
        set_parsed (parse_cpu_ratio_env parse_f64 ''resources.cpu.budget_ratio'')
          (\<lambda>x. upd_cpu (cpu_budget_ratio_update (\<lambda>_. x)))),
     (''HARUKI_CPU_RESERVED'',
        set_parsed (parse_usize_env ''resources.cpu.reserved'')
          (\<lambda>x. upd_cpu (cpu_reserved_update (\<lambda>_. x)))),
     (''HARUKI_CPU_THROTTLE_ENABLED'',
        set_parsed (parse_bool_env ''resources.cpu.throttle.enabled'')
          (\<lambda>x. upd_cpu (cpu_throttle_update (th_enabled_update (\<lambda>_. x))))),
     (''HARUKI_CPU_THROTTLE_SAMPLE_MS'',
        set_parsed (parse_positive_usize ''resources.cpu.throttle.sample_ms'')
          (\<lambda>x. upd_cpu (cpu_throttle_update (th_sample_ms_update (\<lambda>_. x))))),
     (''HARUKI_MAX_IN_FLIGHT_BUNDLE_BYTES'',
        set_parsed (parse_usize_env ''resources.memory.max_in_flight_bundle_bytes'')
          (\<lambda>x. ap_resources_update (rs_memory_update (mem_max_in_flight_bundle_bytes_update (\<lambda>_. x)))))]"

primrec run_env_steps :: "env \<Rightarrow> env_step list \<Rightarrow> app_config \<Rightarrow> config_error + app_config" where
  "run_env_steps env [] c = Inr c"
| "run_env_steps env (st # sts) c =
     res_bind (case env (fst st) of None \<Rightarrow> Inr c | Some value \<Rightarrow> snd st value c)
       (run_env_steps env sts)"

definition resolve_secret_env ::
    "env \<Rightarrow> string \<Rightarrow> string option \<Rightarrow> config_error + string option" where
  "resolve_secret_env env field value =
     (case value of
        None \<Rightarrow> Inr None
      | Some v \<Rightarrow>
          (case Option.bind (strip_prefix env_open (trim v)) (strip_suffix ''}'') of
             None \<Rightarrow> Inr value
           | Some name0 \<Rightarrow>
               let name = trim name0 in
               (case env name of
                  None \<Rightarrow> Inl (MissingEnvironmentVariable field name)
                | Some resolved \<Rightarrow> Inr (Some resolved))))"

definition resolve_provider_secrets ::
    "env \<Rightarrow> nat \<Rightarrow> storage_provider_config \<Rightarrow> config_error + storage_provider_config" where
  "resolve_provider_secrets env idx provider =
     (let field = (\<lambda>k. ''storage.providers['' @ show_nat idx @ '']'' @ k) in
      res_bind (resolve_secret_env env (field ''.access_key'') (sp_access_key provider)) (\<lambda>access.
      res_bind (resolve_secret_env env (field ''.secret_key'') (sp_secret_key provider)) (\<lambda>secret.
        Inr (provider\<lparr>sp_access_key := access, sp_secret_key := secret\<rparr>))))"

definition resolve_region_secrets ::
    "env \<Rightarrow> string \<Rightarrow> region_config \<Rightarrow> config_error + region_config" where
  "resolve_region_secrets env region_name region =
     (let field = (\<lambda>k. ''regions.'' @ region_name @ k) in
      res_bind (resolve_secret_env env (field ''.crypto.aes_key_hex'')
                  (cr_aes_key_hex (rg_crypto region))) (\<lambda>key.
      res_bind (resolve_secret_env env (field ''.crypto.aes_iv_hex'')
                  (cr_aes_iv_hex (rg_crypto region))) (\<lambda>iv.
        Inr (region\<lparr>rg_crypto := \<lparr>cr_aes_key_hex = key, cr_aes_iv_hex = iv\<rparr>\<rparr>))))"

definition resolve_env_overrides ::
    "(string \<Rightarrow> f64 option) \<Rightarrow> env \<Rightarrow> app_config \<Rightarrow> config_error + app_config" where
  "resolve_env_overrides parse_f64 env c0 =
     res_bind (run_env_steps env (studio_env_steps @ encode_env_steps @ resource_env_steps parse_f64) c0)
     (\<lambda>c.
     res_bind (resolve_secret_env env ''git_sync.chart_hashes.password''
                 (ch_password (gs_chart_hashes (ap_git_sync c)))) (\<lambda>password.
     res_bind (map_res (\<lambda>(idx, provider). resolve_provider_secrets env idx provider)
                 (enumerate 0 (sg_providers (ap_storage c)))) (\<lambda>providers.
     res_bind (map_res (\<lambda>(name, region).
                 res_bind (resolve_region_secrets env name region) (\<lambda>r. Inr (name, r)))
                 (ap_regions c)) (\<lambda>regions.
     Inr (c\<lparr>ap_git_sync := gs_chart_hashes_update (ch_password_update (\<lambda>_. password)) (ap_git_sync c),
            ap_storage := \<lparr>sg_providers = providers\<rparr>,
            ap_regions := regions\<rparr>)))))"

text \<open>\<open>yaml_parse\<close> and \<open>yaml_decode\<close> stand for the YAML reader and the derived decoder.\<close>

definition load_from_str ::
    "(f64 \<Rightarrow> string) \<Rightarrow> (string \<Rightarrow> f64 option) \<Rightarrow> (string \<Rightarrow> string + yaml) \<Rightarrow>
     (yaml \<Rightarrow> string + app_config) \<Rightarrow> env \<Rightarrow> (string, string) btmap \<Rightarrow>
     string \<Rightarrow> string \<Rightarrow> config_error + app_config" where
  "load_from_str show_f64 parse_f64 yaml_parse yaml_decode env vars path raw =
     (case yaml_parse raw of
        Inl msg \<Rightarrow> Inl (ConfigParse path msg)
      | Inr value \<Rightarrow>
          res_bind (expand_env_references env value) (\<lambda>value.
          res_bind (apply_env_overrides yaml_parse vars value) (\<lambda>value.
          (case yaml_decode value of
             Inl msg \<Rightarrow> Inl (ConfigParse path msg)
           | Inr config0 \<Rightarrow>
               res_bind (resolve_env_overrides parse_f64 env config0) (\<lambda>config.
               res_bind (validate show_f64 config) (\<lambda>_. Inr config))))))"

section \<open>Bootstrap\<close>

record config_storage_uri =
  csu_provider :: string
  csu_path :: string

definition CONFIG_OPENDAL_URI_PREFIX :: string where
  "CONFIG_OPENDAL_URI_PREFIX = ''opendal://''"

definition parse_config_storage_uri :: "string \<Rightarrow> config_error + config_storage_uri" where
  "parse_config_storage_uri uri =
     (case strip_prefix CONFIG_OPENDAL_URI_PREFIX uri of
        None \<Rightarrow> Inl (InvalidConfigUri uri
          ''only opendal:// config URIs are supported; use HARUKI_CONFIG_PATH for local files'')
      | Some raw0 \<Rightarrow>
          (case split_once (CHR ''/'') (trim_start_matches (CHR ''/'') raw0) of
             None \<Rightarrow> Inl (InvalidConfigUri uri ''expected opendal://<provider>/<path>'')
           | Some (provider0, path0) \<Rightarrow>
               let provider = trim provider0;
                   path = replace_char (CHR 0x5C) (CHR ''/'') (trim_matches (CHR ''/'') (trim path0))
               in if provider = [] then Inl (InvalidConfigUri uri ''provider is empty'')
                  else if path = [] then Inl (InvalidConfigUri uri ''path is empty'')
                  else Inr \<lparr>csu_provider = provider, csu_path = path\<rparr>))"

definition option_prefix :: string where
  "option_prefix = ''HARUKI_CONFIG_OPENDAL_OPTION_''"

definition config_storage_provider_options ::
    "env \<Rightarrow> (string \<times> string) list \<Rightarrow> config_error + string \<times> (string, string) btmap" where
  "config_storage_provider_options env vars =
     res_bind (ok_or (MissingEnvironmentVariable ''HARUKI_CONFIG_URI'' ''HARUKI_CONFIG_OPENDAL_SCHEME'')
        (opt_filter (\<lambda>scheme. scheme \<noteq> [])
          (map_option (\<lambda>s. to_lower (trim s)) (env ''HARUKI_CONFIG_OPENDAL_SCHEME'')))) (\<lambda>scheme.
     let options0 = (case opt_filter (\<lambda>r. r \<noteq> []) (map_option trim (env ''HARUKI_CONFIG_OPENDAL_ROOT'')) of
                       None \<Rightarrow> [] | Some r \<Rightarrow> [(''root'', r)]) in
     Inr (scheme,
       foldl (\<lambda>options (name, value). bt_insert (to_lower (drop (length option_prefix) name)) value options)
         options0
         (filter (\<lambda>(name, value). starts_with option_prefix name \<and>
              length name > length option_prefix \<and> trim value \<noteq> []) vars)))"

definition candidate_paths :: "env \<Rightarrow> string list" where
  "candidate_paths env =
     (case env ''HARUKI_CONFIG_PATH'' of None \<Rightarrow> [] | Some path \<Rightarrow> [path]) @
     [''haruki-asset-configs.yaml'', ''../haruki-asset-configs.yaml'',
      ''../../haruki-asset-configs.yaml'']"

text \<open>\<open>exists\<close> asks the file system, \<open>from_path\<close> and \<open>from_uri\<close> are the two loaders.\<close>

definition load_default ::
    "env \<Rightarrow> (string \<Rightarrow> bool) \<Rightarrow> (string \<Rightarrow> config_error + app_config) \<Rightarrow>
     (string \<Rightarrow> config_error + app_config) \<Rightarrow> config_error + app_config" where
  "load_default env exists from_path from_uri =
     (case opt_filter (\<lambda>uri. uri \<noteq> []) (map_option trim (env ''HARUKI_CONFIG_URI'')) of
        Some uri \<Rightarrow> from_uri uri
      | None \<Rightarrow>
          (case find exists (candidate_paths env) of
             Some candidate \<Rightarrow> from_path candidate
           | None \<Rightarrow> Inl (MissingConfigFile (join_with '', '' (candidate_paths env)))))"

section \<open>What an override does to the document\<close>

fun yaml_child :: "yaml \<Rightarrow> string \<Rightarrow> yaml option" where
  "yaml_child (YSequence items) segment =
     (case parse_usize segment of
        Some i \<Rightarrow> if i < length items then Some (items ! i) else None
      | None \<Rightarrow> None)"
| "yaml_child (YMapping m) segment = map_of m (YString segment)"
| "yaml_child _ segment = None"

fun yaml_get :: "yaml \<Rightarrow> string list \<Rightarrow> yaml option" where
  "yaml_get doc [] = Some doc"
| "yaml_get doc (segment # path) = Option.bind (yaml_child doc segment) (\<lambda>child. yaml_get child path)"

lemma pad_to_length: "index < length (pad_to index items)"
  by (simp add: pad_to_def)

lemma pad_to_nth: "i < length items \<Longrightarrow> pad_to index items ! i = items ! i"
  by (simp add: pad_to_def nth_append)

lemma leaf_child: "yaml_child (set_env_override_leaf current segment value) segment = Some value"
  by (cases current; cases "parse_usize segment")
    (simp_all add: set_env_override_leaf_def Let_def pad_to_length)

lemma descend_child:
  "descend_env_override_path current segment nxt = (child, put_back) \<Longrightarrow>
     yaml_child (put_back c) segment = Some c"
  by (cases current; cases "parse_usize segment")
    (auto simp: descend_env_override_path_def Let_def pad_to_length)

lemma override_get: "path \<noteq> [] \<Longrightarrow> yaml_get (override_at doc path v) path = Some v"
proof (induction doc path v rule: override_at.induct)
  case (3 current segment nxt path v)
  obtain child put_back where d: "descend_env_override_path current segment (Some nxt) = (child, put_back)"
    by fastforce
  have "yaml_get (override_at child (nxt # path) v) (nxt # path) = Some v"
    using "3.IH" [OF d [symmetric]] by simp
  then show ?case by (simp add: d descend_child [OF d])
qed (simp_all add: leaf_child)

lemma override_child_mapping:
  "seg \<noteq> other \<Longrightarrow>
   yaml_child (override_at (YMapping m) (seg # path) value) other = map_of m (YString other)"
proof (cases path)
  case Nil
  assume "seg \<noteq> other"
  then show ?thesis
    by (cases "parse_usize seg") (simp_all add: Nil set_env_override_leaf_def Let_def)
next
  case (Cons nxt rest)
  assume "seg \<noteq> other"
  then show ?thesis
    by (cases "parse_usize seg") (simp_all add: Cons descend_env_override_path_def Let_def)
qed

section \<open>What expansion does to a string\<close>

datatype segment = Lit string | Ref string

fun segment_text :: "segment \<Rightarrow> string" where
  "segment_text (Lit s) = s"
| "segment_text (Ref n) = env_open @ n @ ''}''"

fun segment_wf :: "segment \<Rightarrow> bool" where
  "segment_wf (Lit s) \<longleftrightarrow> CHR ''$'' \<notin> set s"
| "segment_wf (Ref n) \<longleftrightarrow> CHR ''}'' \<notin> set n"

fun segment_value :: "env \<Rightarrow> segment \<Rightarrow> config_error + string" where
  "segment_value env (Lit s) = Inr s"
| "segment_value env (Ref n) =
     ok_or (MissingEnvironmentVariable ''config file'' (trim n)) (env (trim n))"

fun segments_value :: "env \<Rightarrow> segment list \<Rightarrow> config_error + string" where
  "segments_value env [] = Inr []"
| "segments_value env (x # xs) =
     res_bind (segment_value env x) (\<lambda>v. res_bind (segments_value env xs) (\<lambda>t. Inr (v @ t)))"

lemma find_sub_skip:
  "p \<noteq> [] \<Longrightarrow> hd p \<notin> set s \<Longrightarrow>
     find_sub p (s @ t) = map_option (\<lambda>i. length s + i) (find_sub p t)"
proof (induction s)
  case Nil
  then show ?case by (simp add: option.map_ident)
next
  case (Cons c s)
  then have "\<not> starts_with p (c # s @ t)"
    by (cases p) (auto simp: starts_with_def)
  with Cons show ?case
    by (subst find_sub.simps) (cases "find_sub p t"; simp)
qed

lemma expand_rest_lit:
  assumes "CHR ''$'' \<notin> set s"
  shows "expand_rest env (s @ t) = res_bind (expand_rest env t) (\<lambda>u. Inr (s @ u))"
proof -
  have f: "find_sub env_open (s @ t) = map_option (\<lambda>i. length s + i) (find_sub env_open t)"
    using assms by (intro find_sub_skip) (simp_all add: env_open_def)
  show ?thesis
    by (subst (1 2) expand_rest.simps)
      (auto simp: f Let_def res_bind_def add.assoc split: option.splits sum.splits)
qed

lemma expand_rest_ref:
  assumes "CHR ''}'' \<notin> set n"
  shows "expand_rest env (env_open @ n @ ''}'' @ t) =
    res_bind (ok_or (MissingEnvironmentVariable ''config file'' (trim n)) (env (trim n)))
      (\<lambda>v. res_bind (expand_rest env t) (\<lambda>u. Inr (v @ u)))"
proof -
  have a: "find_sub env_open (env_open @ n @ ''}'' @ t) = Some 0"
    by (subst find_sub.simps) simp
  have z: "find_sub ''}'' (''}'' @ t) = Some 0"
    by (subst find_sub.simps) (simp add: starts_with_def)
  then have b: "find_sub ''}'' (n @ ''}'' @ t) = Some (length n)"
    using assms by (subst find_sub_skip) simp_all
  show ?thesis
    by (subst expand_rest.simps)
      (simp only: a, simp add: b [simplified] Let_def split: option.splits)
qed

lemma expand_segments:
  "list_all segment_wf xs \<Longrightarrow>
     expand_rest env (concat (map segment_text xs)) = segments_value env xs"
proof (induction xs)
  case Nil
  have "find_sub env_open [] = None" by (subst find_sub.simps) (simp add: env_open_def starts_with_def)
  then show ?case by (subst expand_rest.simps) simp
next
  case (Cons x xs)
  then show ?case
    by (cases x) (simp_all add: expand_rest_lit expand_rest_ref [simplified])
qed

section \<open>What the named overrides do\<close>

lemma run_env_steps_append:
  "run_env_steps env (xs @ ys) c = res_bind (run_env_steps env xs c) (run_env_steps env ys)"
  by (induction xs arbitrary: c) (auto simp: res_bind_def split: sum.splits option.splits)

lemma run_env_steps_frame:
  assumes "\<And>n f v c c'. (n, f) \<in> set sts \<Longrightarrow> f v c = Inr c' \<Longrightarrow> P c' = P c"
    and "run_env_steps env sts c = Inr c'"
  shows "P c' = P c"
  using assms
proof (induction sts arbitrary: c)
  case Nil
  then show ?case by simp
next
  case (Cons st sts)
  from Cons.prems(2) obtain d where
    d: "(case env (fst st) of None \<Rightarrow> Inr c | Some v \<Rightarrow> snd st v c) = Inr d"
    and rest: "run_env_steps env sts d = Inr c'"
    by (auto simp: res_bind_eq_Inr)
  have "P d = P c"
    using d Cons.prems(1) [of "fst st" "snd st" _ c d] by (auto split: option.splits)
  moreover have "P c' = P d"
    using rest by (intro Cons.IH) (auto intro: Cons.prems(1))
  ultimately show ?case by simp
qed

lemma set_parsed_Inr: "set_parsed p f v c = Inr c' \<longleftrightarrow> (\<exists>x. p v = Inr x \<and> c' = f x c)"
  by (auto simp: set_parsed_def res_bind_eq_Inr)

definition encode_limits :: "app_config \<Rightarrow> nat \<times> nat \<times> nat" where
  "encode_limits c = (cc_media_encode (ap_concurrency c), cc_audio_encode (ap_concurrency c),
     cc_video_encode (ap_concurrency c))"

definition env_limit :: "env \<Rightarrow> string \<Rightarrow> nat \<Rightarrow> nat" where
  "env_limit env name d = (case env name of None \<Rightarrow> d
     | Some v \<Rightarrow> unwrap_or d (parse_usize (trim v)))"

lemma parse_positive_usize_Inr:
  "parse_positive_usize f v = Inr n \<longleftrightarrow> parse_usize (trim v) = Some n \<and> 0 < n"
  by (auto simp: parse_positive_usize_def Let_def split: option.splits if_splits)

lemma studio_steps_frame:
  "(n, f) \<in> set studio_env_steps \<Longrightarrow> f v c = Inr c' \<Longrightarrow> encode_limits c' = encode_limits c"
  by (auto simp: studio_env_steps_def set_parsed_Inr gc_conserve_step_def encode_limits_def
      res_bind_eq_Inr split: if_splits)

lemma resource_steps_frame:
  "(n, f) \<in> set (resource_env_steps pf) \<Longrightarrow> f v c = Inr c' \<Longrightarrow> encode_limits c' = encode_limits c"
  by (auto simp: resource_env_steps_def set_parsed_Inr encode_limits_def)

lemma encode_steps_limits:
  assumes "run_env_steps env encode_env_steps c = Inr c'"
  shows "encode_limits c' =
    (let m = ''HARUKI_MEDIA_ENCODE_CONCURRENCY'' in
     (env_limit env m (cc_media_encode (ap_concurrency c)),
      env_limit env ''HARUKI_AUDIO_ENCODE_CONCURRENCY''
        (env_limit env m (cc_audio_encode (ap_concurrency c))),
      env_limit env ''HARUKI_VIDEO_ENCODE_CONCURRENCY''
        (env_limit env m (cc_video_encode (ap_concurrency c)))))"
  using assms
  by (cases "env ''HARUKI_MEDIA_ENCODE_CONCURRENCY''"; cases "env ''HARUKI_AUDIO_ENCODE_CONCURRENCY''";
      cases "env ''HARUKI_VIDEO_ENCODE_CONCURRENCY''")
    (auto simp: encode_env_steps_def encode_limits_def env_limit_def res_bind_eq_Inr set_parsed_Inr
      parse_positive_usize_Inr Let_def)

section \<open>Properties\<close>

text \<open>A successful \<^verbatim>\<open>apply_env_override\<close> writes exactly the addressed place: reading the
  document back along the path of the variable gives the value, and, when the document is a
  mapping, every other top-level section is what it was.\<close>

theorem env_override_sets_path:
  assumes "apply_env_override doc name path v = Inr doc'"
  shows "yaml_get doc' path = Some v \<and>
    (\<forall>m other. doc = YMapping m \<and> other \<noteq> hd path \<longrightarrow>
       yaml_child doc' other = yaml_child doc other)"
proof (intro conjI allI impI)
  from assms have ne: "path \<noteq> []" and doc': "doc' = override_at doc path v"
    by (auto simp: apply_env_override_def split: if_splits)
  from ne show "yaml_get doc' path = Some v" by (simp add: doc' override_get)
  fix m other
  assume "doc = YMapping m \<and> other \<noteq> hd path"
  with ne show "yaml_child doc' other = yaml_child doc other"
    by (cases path) (auto simp: doc' override_child_mapping)
qed

theorem env_override_sets_path_witness:
  "yaml_get (override_at (YMapping [(YString ''hip'', YNull)]) [''poller'', ''0''] (YBool True))
     [''poller'', ''0''] = Some (YBool True) \<and>
   yaml_child (override_at (YMapping [(YString ''hip'', YNull)]) [''poller'', ''0''] (YBool True)) ''hip''
     = Some YNull"
proof -
  have h: "apply_env_override (YMapping [(YString ''hip'', YNull)]) ''HARUKI__POLLER__0''
      [''poller'', ''0''] (YBool True) =
      Inr (override_at (YMapping [(YString ''hip'', YNull)]) [''poller'', ''0''] (YBool True))"
    by (simp add: apply_env_override_def)
  show ?thesis
    using env_override_sets_path [OF h] by simp
qed

text \<open>Expansion of references: a text made of literals (without a dollar sign) and of
  \<^verbatim>\<open>${env:NAME}\<close> references becomes the literals and the values, each name trimmed; the first
  name that is not set is the error reported, and an inserted value is not expanded again.\<close>

theorem expand_env_text:
  assumes "list_all segment_wf xs" and "Ref n \<in> set xs"
  shows "expand_env_references_in_string env (concat (map segment_text xs)) =
    res_bind (segments_value env xs) (\<lambda>v. Inr (Some v))"
proof -
  have "contains_sub env_open (segment_text (Ref n))"
    by (auto simp: contains_sub_iff intro: exI [of _ "[]"])
  moreover have "contains_sub p (concat (map segment_text ys))"
    if "contains_sub p (segment_text y)" "y \<in> set ys" for p y ys
    using that by (auto simp: contains_sub_iff in_set_conv_decomp) (metis append.assoc)
  ultimately have "contains_sub env_open (concat (map segment_text xs))" using assms(2) by blast
  then have "find_sub env_open (concat (map segment_text xs)) \<noteq> None"
    by (simp add: contains_sub_def)
  then show ?thesis
    by (simp only: expand_env_references_in_string_def if_False expand_segments [OF assms(1)])
qed

theorem expand_env_text_witness:
  "expand_env_references_in_string (\<lambda>k. if k = ''KEY'' then Some ''${env:X}'' else None)
     (concat (map segment_text [Lit ''a='', Ref ''KEY'', Lit '';'']))
   = Inr (Some ''a=${env:X};'')"
proof -
  have t: "trim ''KEY'' = ''KEY''" by (rule trim_ascii_fixed) simp_all
  show ?thesis
    using expand_env_text [of "[Lit ''a='', Ref ''KEY'', Lit '';'']" "''KEY''"
        "\<lambda>k. if k = ''KEY'' then Some ''${env:X}'' else None"]
    by (simp add: t)
qed

text \<open>Precedence of the encode limits: after \<^verbatim>\<open>resolve_env_overrides\<close> the audio and video
  limits come from their own variable if it is set, else from
  \<^verbatim>\<open>HARUKI_MEDIA_ENCODE_CONCURRENCY\<close>, else from the file, and no other variable changes them.\<close>

theorem encode_limit_precedence:
  assumes "resolve_env_overrides parse_f64 env c = Inr c'"
  shows "encode_limits c' =
    (let m = ''HARUKI_MEDIA_ENCODE_CONCURRENCY'' in
     (env_limit env m (cc_media_encode (ap_concurrency c)),
      env_limit env ''HARUKI_AUDIO_ENCODE_CONCURRENCY''
        (env_limit env m (cc_audio_encode (ap_concurrency c))),
      env_limit env ''HARUKI_VIDEO_ENCODE_CONCURRENCY''
        (env_limit env m (cc_video_encode (ap_concurrency c)))))"
proof -
  from assms obtain c1 c2 c3 where
    s1: "run_env_steps env studio_env_steps c = Inr c1" and
    s2: "run_env_steps env encode_env_steps c1 = Inr c2" and
    s3: "run_env_steps env (resource_env_steps parse_f64) c2 = Inr c3" and
    last: "encode_limits c' = encode_limits c3"
    by (auto simp: resolve_env_overrides_def res_bind_eq_Inr run_env_steps_append encode_limits_def)
  have "encode_limits c1 = encode_limits c"
    using run_env_steps_frame [OF _ s1, of encode_limits] studio_steps_frame by blast
  then have "cc_media_encode (ap_concurrency c1) = cc_media_encode (ap_concurrency c)"
    "cc_audio_encode (ap_concurrency c1) = cc_audio_encode (ap_concurrency c)"
    "cc_video_encode (ap_concurrency c1) = cc_video_encode (ap_concurrency c)"
    by (simp_all add: encode_limits_def)
  moreover have "encode_limits c3 = encode_limits c2"
    using run_env_steps_frame [OF _ s3, of encode_limits] resource_steps_frame by blast
  ultimately show ?thesis
    using encode_steps_limits [OF s2] by (simp add: last)
qed

theorem encode_limit_precedence_witness:
  "\<exists>c'. resolve_env_overrides (\<lambda>_. None)
        (\<lambda>k. if k = ''HARUKI_MEDIA_ENCODE_CONCURRENCY'' then Some ''7'' else None) default_app_config
      = Inr c' \<and> encode_limits c' = (7, 7, 7)"
proof -
  let ?env = "\<lambda>k. if k = ''HARUKI_MEDIA_ENCODE_CONCURRENCY'' then Some ''7'' else None"
  have t: "trim ''7'' = ''7''" by (rule trim_ascii_fixed) simp_all
  have p: "parse_usize ''7'' = Some 7"
    by (simp add: parse_usize_def Let_def is_digit_def read_digits_def usize_max_def)
  obtain c' where c': "resolve_env_overrides (\<lambda>_. None) ?env default_app_config = Inr c'"
    by (simp add: resolve_env_overrides_def run_env_steps_append studio_env_steps_def
        encode_env_steps_def resource_env_steps_def set_parsed_def parse_positive_usize_def t p
        resolve_secret_env_def default_config_defs)
  with encode_limit_precedence [OF c'] show ?thesis
    by (simp add: env_limit_def t p)
qed

text \<open>A configuration that \<^verbatim>\<open>load_from_str\<close> returns is a valid one: no path through the
  environment overrides escapes validation.\<close>

theorem loaded_config_valid:
  assumes "load_from_str show_f64 parse_f64 yaml_parse yaml_decode env vars path raw = Inr c"
  shows "valid_config c"
proof -
  from assms have "validate show_f64 c = Inr ()"
    by (auto simp: load_from_str_def res_bind_eq_Inr split: sum.split_asm) (metis sum.exhaust)
  then show ?thesis by (simp add: validate_iff_valid)
qed

theorem loaded_config_valid_witness:
  "load_from_str (\<lambda>_. []) (\<lambda>_. None) (\<lambda>_. Inr YNull) (\<lambda>_. Inr default_app_config) (\<lambda>_. None) []
     ''config.yaml'' [] = Inr default_app_config \<and> valid_config default_app_config"
proof -
  have h: "load_from_str (\<lambda>_. []) (\<lambda>_. None) (\<lambda>_. Inr YNull) (\<lambda>_. Inr default_app_config) (\<lambda>_. None) []
     ''config.yaml'' [] = Inr default_app_config"
    by (simp add: load_from_str_def apply_env_overrides_def resolve_env_overrides_def
        run_env_steps_append studio_env_steps_def encode_env_steps_def resource_env_steps_def
        resolve_secret_env_def validate_def f64_is_zero_def validate_image_backend_def
        validate_asset_studio_ffi_read_kinds_def default_config_defs)
  with loaded_config_valid [OF h] show ?thesis by simp
qed

end
