(* ===== verification/File_System.thy ===== *)
theory File_System
  imports Haruki_Prelude
begin

text \<open>
  The file system the sources act on through \<^verbatim>\<open>std::fs\<close> and \<^verbatim>\<open>tokio::fs\<close>: contents of the
  regular files by path, and a schedule of faults. Every operation consumes one tick of the clock,
  and the schedule decides, from the tick and the operation, whether it fails; a failing write may
  leave a prefix of the new contents behind. Nothing is assumed about the schedule, so a theorem
  about these operations covers every combination of failures.
\<close>

section \<open>Sequencing\<close>

text \<open>The question-mark operator and \<^verbatim>\<open>map_err\<close> on operations that also change a state.\<close>

definition st_bind :: "('e + 'a) \<times> 's \<Rightarrow> ('a \<Rightarrow> 's \<Rightarrow> ('e + 'b) \<times> 's) \<Rightarrow> ('e + 'b) \<times> 's" where
  "st_bind r f = (case r of (Inl e, s) \<Rightarrow> (Inl e, s) | (Inr x, s) \<Rightarrow> f x s)"

definition st_map_err :: "('d \<Rightarrow> 'e) \<Rightarrow> ('d + 'a) \<times> 's \<Rightarrow> ('e + 'a) \<times> 's" where
  "st_map_err g r = (case r of (Inl d, s) \<Rightarrow> (Inl (g d), s) | (Inr x, s) \<Rightarrow> (Inr x, s))"

lemma st_bind_simps [simp]:
  "st_bind (Inl e, s) f = (Inl e, s)" "st_bind (Inr x, s) f = f x s"
  by (simp_all add: st_bind_def)

lemma st_map_err_simps [simp]:
  "st_map_err g (Inl d, s) = (Inl (g d), s)" "st_map_err g (Inr x, s) = (Inr x, s)"
  by (simp_all add: st_map_err_def)

lemma st_bind_Inr [res_simps]:
  "st_bind r f = (Inr y, s') \<longleftrightarrow> (\<exists>x s. r = (Inr x, s) \<and> f x s = (Inr y, s'))"
  by (auto simp: st_bind_def split: prod.splits sum.splits)

lemma st_bind_Inl [res_simps]:
  "st_bind r f = (Inl e, s') \<longleftrightarrow> r = (Inl e, s') \<or> (\<exists>x s. r = (Inr x, s) \<and> f x s = (Inl e, s'))"
  by (auto simp: st_bind_def split: prod.splits sum.splits)

lemma st_map_err_Inr [res_simps]: "st_map_err g r = (Inr x, s) \<longleftrightarrow> r = (Inr x, s)"
  by (auto simp: st_map_err_def split: prod.splits sum.splits)

lemma st_map_err_Inl [res_simps]: "st_map_err g r = (Inl e, s) \<longleftrightarrow> (\<exists>d. r = (Inl d, s) \<and> e = g d)"
  by (auto simp: st_map_err_def split: prod.splits sum.splits)

lemma snd_st_map_err [simp]: "snd (st_map_err g r) = snd r"
  by (simp add: st_map_err_def split: prod.splits sum.splits)

section \<open>Operations\<close>

datatype io_kind =
  NotFound | PermissionDenied | Interrupted | WouldBlock | DirectoryNotEmpty | UnexpectedEof | OtherIo

datatype fs_op =
    OpRead string
  | OpWrite string
  | OpRename string string
  | OpRemove string
  | OpCreateDirs string

text \<open>A fault: the error kind, and for a write how many bytes reached the file; \<open>None\<close> when the
  file could not even be opened.\<close>

type_synonym fault = "io_kind \<times> nat option"

record fs =
  fs_files :: "string \<Rightarrow> bytes option"
  fs_clock :: nat
  fs_fault :: "nat \<Rightarrow> fs_op \<Rightarrow> fault option"

definition fs_tick :: "fs \<Rightarrow> fs" where
  "fs_tick s = s\<lparr>fs_clock := Suc (fs_clock s)\<rparr>"

definition fs_fails :: "fs_op \<Rightarrow> fs \<Rightarrow> fault option" where
  "fs_fails p s = fs_fault s (fs_clock s) p"

definition fs_read :: "string \<Rightarrow> fs \<Rightarrow> (io_kind + bytes) \<times> fs" where
  "fs_read path s =
     (case fs_fails (OpRead path) s of
        Some (kind, _) \<Rightarrow> (Inl kind, fs_tick s)
      | None \<Rightarrow> (ok_or NotFound (fs_files s path), fs_tick s))"

definition fs_write :: "string \<Rightarrow> bytes \<Rightarrow> fs \<Rightarrow> (io_kind + unit) \<times> fs" where
  "fs_write path contents s =
     (case fs_fails (OpWrite path) s of
        Some (kind, None) \<Rightarrow> (Inl kind, fs_tick s)
      | Some (kind, Some n) \<Rightarrow>
          (Inl kind, (fs_tick s)\<lparr>fs_files := (fs_files s)(path \<mapsto> take n contents)\<rparr>)
      | None \<Rightarrow> (Inr (), (fs_tick s)\<lparr>fs_files := (fs_files s)(path \<mapsto> contents)\<rparr>))"

definition fs_rename :: "string \<Rightarrow> string \<Rightarrow> fs \<Rightarrow> (io_kind + unit) \<times> fs" where
  "fs_rename source target s =
     (case fs_fails (OpRename source target) s of
        Some (kind, _) \<Rightarrow> (Inl kind, fs_tick s)
      | None \<Rightarrow>
          (case fs_files s source of
             None \<Rightarrow> (Inl NotFound, fs_tick s)
           | Some contents \<Rightarrow>
               (Inr (), (fs_tick s)\<lparr>fs_files := (fs_files s)(source := None, target \<mapsto> contents)\<rparr>)))"

definition fs_remove_file :: "string \<Rightarrow> fs \<Rightarrow> (io_kind + unit) \<times> fs" where
  "fs_remove_file path s =
     (case fs_fails (OpRemove path) s of
        Some (kind, _) \<Rightarrow> (Inl kind, fs_tick s)
      | None \<Rightarrow>
          (case fs_files s path of
             None \<Rightarrow> (Inl NotFound, fs_tick s)
           | Some _ \<Rightarrow> (Inr (), (fs_tick s)\<lparr>fs_files := (fs_files s)(path := None)\<rparr>)))"

text \<open>Directories are not tracked; creating them can only fail.\<close>

definition fs_create_dir_all :: "string \<Rightarrow> fs \<Rightarrow> (io_kind + unit) \<times> fs" where
  "fs_create_dir_all path s =
     (case fs_fails (OpCreateDirs path) s of
        Some (kind, _) \<Rightarrow> (Inl kind, fs_tick s)
      | None \<Rightarrow> (Inr (), fs_tick s))"

definition no_faults :: "nat \<Rightarrow> fs_op \<Rightarrow> fault option" where
  "no_faults = (\<lambda>_ _. None)"

lemma fs_tick_simps [simp]:
  "fs_files (fs_tick s) = fs_files s" "fs_fault (fs_tick s) = fs_fault s"
  "fs_clock (fs_tick s) = Suc (fs_clock s)"
  by (simp_all add: fs_tick_def)

lemma fs_fails_no_faults [simp]: "fs_fault s = no_faults \<Longrightarrow> fs_fails p s = None"
  by (simp add: fs_fails_def no_faults_def)

lemma fs_read_state [simp]: "fs_files (snd (fs_read p s)) = fs_files s"
  by (simp add: fs_read_def split: option.splits)

lemma fs_read_eq:
  "fs_read p s = (Inr b, s') \<Longrightarrow> fs_files s p = Some b \<and> fs_files s' = fs_files s"
  by (auto simp: fs_read_def split: option.splits)

lemma fs_create_dir_all_state [simp]: "fs_files (snd (fs_create_dir_all p s)) = fs_files s"
  by (simp add: fs_create_dir_all_def split: option.splits)

lemma fs_write_ok: "fs_write p b s = (Inr u, s') \<Longrightarrow> fs_files s' = (fs_files s)(p \<mapsto> b)"
  by (auto simp: fs_write_def split: option.splits)

lemma fs_write_frame: "q \<noteq> p \<Longrightarrow> fs_files (snd (fs_write p b s)) q = fs_files s q"
  by (simp add: fs_write_def split: option.splits)

lemma fs_rename_ok:
  "fs_rename p q s = (Inr u, s') \<Longrightarrow>
     \<exists>b. fs_files s p = Some b \<and> fs_files s' = (fs_files s)(p := None, q \<mapsto> b)"
  by (auto simp: fs_rename_def split: option.splits)

lemma fs_rename_err: "fs_rename p q s = (Inl e, s') \<Longrightarrow> fs_files s' = fs_files s"
  by (auto simp: fs_rename_def split: option.splits)

lemma fs_remove_frame: "q \<noteq> p \<Longrightarrow> fs_files (snd (fs_remove_file p s)) q = fs_files s q"
  by (simp add: fs_remove_file_def split: option.splits)

lemma fs_remove_err: "fs_remove_file p s = (Inl e, s') \<Longrightarrow> fs_files s' = fs_files s"
  by (auto simp: fs_remove_file_def split: option.splits)

lemma fs_remove_ok: "fs_remove_file p s = (Inr u, s') \<Longrightarrow> fs_files s' = (fs_files s)(p := None)"
  by (auto simp: fs_remove_file_def split: option.splits)

lemma fs_remove_NotFound_cases:
  "fs_remove_file p s = (Inl NotFound, s') \<Longrightarrow>
     fs_files s p = None \<or> (\<exists>n. fs_fails (OpRemove p) s = Some (NotFound, n))"
  by (auto simp: fs_remove_file_def split: option.splits)

lemmas fs_frame = fs_write_frame fs_remove_frame

section \<open>Replacing a file atomically\<close>

text \<open>
  The contract of a store that replaces one file as a whole: a successful save leaves the new
  contents under the path, a failed one leaves the path as it was, and no other file but the
  store's own temporary one is touched. The temporary file must not be the path itself.
\<close>

locale atomic_store =
  fixes save :: "string \<Rightarrow> 'v \<Rightarrow> fs \<Rightarrow> ('e + unit) \<times> fs"
    and enc :: "'v \<Rightarrow> bytes option"
    and tmp :: "string \<Rightarrow> string"
  assumes saved: "tmp path \<noteq> path \<Longrightarrow> save path v s = (Inr u, s') \<Longrightarrow> enc v = Some b \<Longrightarrow>
      fs_files s' path = Some b"
    and saved_enc: "save path v s = (Inr u, s') \<Longrightarrow> enc v \<noteq> None"
    and failed: "tmp path \<noteq> path \<Longrightarrow> save path v s = (Inl e, s') \<Longrightarrow>
      fs_files s' path = fs_files s path"
    and frame: "q \<noteq> path \<Longrightarrow> q \<noteq> tmp path \<Longrightarrow> fs_files (snd (save path v s)) q = fs_files s q"
begin

text \<open>Whatever goes wrong, the path holds the old contents or the complete new ones.\<close>

lemma old_or_new:
  assumes tmp: "tmp path \<noteq> path"
  shows "fs_files (snd (save path v s)) path = fs_files s path \<or>
   (\<exists>b. enc v = Some b \<and> fs_files (snd (save path v s)) path = Some b)"
proof (cases "save path v s")
  case (Pair r s')
  show ?thesis
  proof (cases r)
    case (Inl e)
    with Pair failed [OF tmp] show ?thesis by simp
  next
    case (Inr u)
    with Pair saved [OF tmp] saved_enc show ?thesis by fastforce
  qed
qed

text \<open>A sequence of saves to one path leaves the path with the contents of the last one that
  succeeded, or the initial contents.\<close>

fun save_all :: "string \<Rightarrow> 'v list \<Rightarrow> fs \<Rightarrow> fs" where
  "save_all path [] s = s"
| "save_all path (v # vs) s = save_all path vs (snd (save path v s))"

lemma save_all_old_or_new:
  assumes tmp: "tmp path \<noteq> path"
  shows "fs_files (save_all path vs s) path = fs_files s path \<or>
   (\<exists>v\<in>set vs. fs_files (save_all path vs s) path = enc v \<and> enc v \<noteq> None)"
proof (induction vs arbitrary: s)
  case Nil
  then show ?case by simp
next
  case (Cons v vs)
  let ?s = "snd (save path v s)"
  consider "\<exists>w\<in>set vs. fs_files (save_all path vs ?s) path = enc w \<and> enc w \<noteq> None"
    | "fs_files (save_all path vs ?s) path = fs_files ?s path"
    using Cons.IH by blast
  then show ?case
  proof cases
    case 1
    then show ?thesis by auto
  next
    case 2
    with old_or_new [OF tmp, of v s] show ?thesis by auto
  qed
qed

lemma save_all_frame:
  "q \<noteq> path \<Longrightarrow> q \<noteq> tmp path \<Longrightarrow> fs_files (save_all path vs s) q = fs_files s q"
  by (induction vs arbitrary: s) (auto simp: frame)

end

end
