(* ===== verification/Hip_Frame.thy ===== *)
theory Hip_Frame
  imports File_System
begin

text \<open>
  \<^verbatim>\<open>src/core/hip/errors.rs\<close> and \<^verbatim>\<open>src/core/hip/frame.rs\<close>: the frame layer of the HIP/1
  protocol. A reader is the list of the bytes the peer has still to deliver before it closes the
  connection; a writer is the list of bytes sent so far, with a function that says whether a write
  fails.
\<close>

section \<open>Errors\<close>

datatype hip_error =
    HipIo io_kind
  | FrameTooLarge nat nat
  | HipProtocol string
  | HipEncode string
  | HipDecode string
  | HipHandshake string
  | HipServer string string bool
  | HipSessionClosed string
  | HipTimeout nat
  | Sha256Mismatch string
  | HipTls string
  | HipConfig string

section \<open>Frames\<close>

datatype frame_type =
  FHello | FHelloAck | FCheckBatch | FCheckAck | FUploadBegin | FUploadChunk | FUploadEnd |
  FUploadAck | FCommit | FCommitAck | FBye | FWindow | FPing | FPong | FError

fun frame_type_u8 :: "frame_type \<Rightarrow> byte" where
  "frame_type_u8 FHello = 0x01"
| "frame_type_u8 FHelloAck = 0x02"
| "frame_type_u8 FCheckBatch = 0x03"
| "frame_type_u8 FCheckAck = 0x04"
| "frame_type_u8 FUploadBegin = 0x05"
| "frame_type_u8 FUploadChunk = 0x06"
| "frame_type_u8 FUploadEnd = 0x07"
| "frame_type_u8 FUploadAck = 0x08"
| "frame_type_u8 FCommit = 0x09"
| "frame_type_u8 FCommitAck = 0x0A"
| "frame_type_u8 FBye = 0x0B"
| "frame_type_u8 FWindow = 0x0C"
| "frame_type_u8 FPing = 0x0E"
| "frame_type_u8 FPong = 0x0F"
| "frame_type_u8 FError = 0x1F"

definition hex_digit :: "nat \<Rightarrow> char" where
  "hex_digit n = (if n < 10 then char_of (48 + n) else char_of (55 + n))"

definition show_hex :: "byte \<Rightarrow> string" where
  "show_hex b = ''0x'' @ [hex_digit (unat b div 16), hex_digit (unat b mod 16)]"

definition from_u8 :: "byte \<Rightarrow> hip_error + frame_type" where
  "from_u8 b =
     (if b = 0x01 then Inr FHello
      else if b = 0x02 then Inr FHelloAck
      else if b = 0x03 then Inr FCheckBatch
      else if b = 0x04 then Inr FCheckAck
      else if b = 0x05 then Inr FUploadBegin
      else if b = 0x06 then Inr FUploadChunk
      else if b = 0x07 then Inr FUploadEnd
      else if b = 0x08 then Inr FUploadAck
      else if b = 0x09 then Inr FCommit
      else if b = 0x0A then Inr FCommitAck
      else if b = 0x0B then Inr FBye
      else if b = 0x0C then Inr FWindow
      else if b = 0x0E then Inr FPing
      else if b = 0x0F then Inr FPong
      else if b = 0x1F then Inr FError
      else Inl (HipProtocol (''unknown frame type byte '' @ show_hex b)))"

record frame =
  frame_type :: frame_type
  payload :: bytes

definition MAX_DEFAULT_FRAME_BYTES :: nat where
  "MAX_DEFAULT_FRAME_BYTES = 16 * 1024 * 1024"

definition encode :: "frame \<Rightarrow> nat \<Rightarrow> hip_error + bytes" where
  "encode f max_frame_bytes =
     (let total_len = length (payload f) + 1 in
      if total_len > max_frame_bytes then Inl (FrameTooLarge total_len max_frame_bytes)
      else Inr (to_be_bytes (of_nat total_len) @ [frame_type_u8 (frame_type f)] @ payload f))"

text \<open>\<^verbatim>\<open>read_exact\<close>: all the bytes asked for, or end of file, in which case what was there is gone.\<close>

definition read_exact :: "nat \<Rightarrow> bytes \<Rightarrow> (hip_error + bytes) \<times> bytes" where
  "read_exact n input =
     (if n \<le> length input then (Inr (take n input), drop n input)
      else (Inl (HipIo UnexpectedEof), []))"

definition read_frame :: "bytes \<Rightarrow> nat \<Rightarrow> (hip_error + frame) \<times> bytes" where
  "read_frame input max_frame_bytes =
     (case read_exact 4 input of
        (Inl e, rest) \<Rightarrow> (Inl e, rest)
      | (Inr len_buf, rest) \<Rightarrow>
          let declared = unat (from_be_bytes len_buf) in
          if declared = 0 then (Inl (HipProtocol ''frame length is zero''), rest)
          else if declared > max_frame_bytes then (Inl (FrameTooLarge declared max_frame_bytes), rest)
          else
            (case read_exact 1 rest of
               (Inl e, rest') \<Rightarrow> (Inl e, rest')
             | (Inr type_buf, rest') \<Rightarrow>
                 (case from_u8 (type_buf ! 0) of
                    Inl e \<Rightarrow> (Inl e, rest')
                  | Inr ft \<Rightarrow>
                      let payload_len = declared - 1 in
                      if payload_len > 0 then
                        (case read_exact payload_len rest' of
                           (Inl e, rest'') \<Rightarrow> (Inl e, rest'')
                         | (Inr p, rest'') \<Rightarrow> (Inr \<lparr>frame_type = ft, payload = p\<rparr>, rest''))
                      else (Inr \<lparr>frame_type = ft, payload = []\<rparr>, rest'))))"

definition write_frame ::
    "(bytes \<Rightarrow> io_kind option) \<Rightarrow> bytes \<Rightarrow> frame \<Rightarrow> nat \<Rightarrow> (hip_error + unit) \<times> bytes" where
  "write_frame fault sent f max_frame_bytes =
     (case encode f max_frame_bytes of
        Inl e \<Rightarrow> (Inl e, sent)
      | Inr encoded \<Rightarrow>
          (case fault encoded of
             Some kind \<Rightarrow> (Inl (HipIo kind), sent)
           | None \<Rightarrow> (Inr (), sent @ encoded)))"

section \<open>Lemmas\<close>

lemma from_u8_to_u8 [simp, codec_simps]: "from_u8 (frame_type_u8 t) = Inr t"
  by (cases t) (simp_all add: from_u8_def)

lemma from_u8_Inr: "from_u8 b = Inr t \<longleftrightarrow> b = frame_type_u8 t"
proof
  show "from_u8 b = Inr t \<Longrightarrow> b = frame_type_u8 t"
    unfolding from_u8_def by (auto split: if_split_asm)
qed simp

lemma read_exact_append [simp, codec_simps]:
  "length a = n \<Longrightarrow> read_exact n (a @ b) = (Inr a, b)"
  by (simp add: read_exact_def)

lemma read_exact_Inr: "read_exact n input = (Inr a, b) \<longleftrightarrow> input = a @ b \<and> length a = n"
  by (auto simp: read_exact_def)

lemma to_from_be_bytes: "length b = 4 \<Longrightarrow> to_be_bytes (from_be_bytes b) = b"
proof -
  assume "length b = 4"
  then obtain w x y z where b: "b = [w, x, y, z]"
    by (auto simp: length_Suc_conv numeral_eq_Suc)
  have beyond: "\<not> bit v (8 + n)" "\<not> bit v (16 + n)" "\<not> bit v (24 + n)" for v :: byte and n
    using bit_imp_le_length [of v] by fastforce+
  show ?thesis
    unfolding b from_be_bytes.simps to_be_bytes_def
    by (auto intro!: bit_word_eqI simp: bit_simps beyond)
qed

text \<open>Reading succeeds exactly on an encoding of the frame whose length fits the prefix and the
  limit, followed by the bytes left.\<close>

lemma read_frame_Inr:
  "read_frame input limit = (Inr f, rest) \<longleftrightarrow>
     length (payload f) + 1 \<le> limit \<and> length (payload f) + 1 < 2 ^ 32 \<and>
     input = to_be_bytes (of_nat (length (payload f) + 1)) @ [frame_type_u8 (frame_type f)] @
       payload f @ rest" (is "?lhs \<longleftrightarrow> ?rhs")
proof
  assume ?lhs
  then obtain len_buf r1 where r1: "read_exact 4 input = (Inr len_buf, r1)"
    by (auto simp: read_frame_def split: prod.splits sum.splits)
  define declared where "declared = unat (from_be_bytes len_buf)"
  have small: "declared < 2 ^ 32"
    unfolding declared_def using unsigned_less [of "from_be_bytes len_buf"] by simp
  from \<open>?lhs\<close> r1 have d: "declared \<noteq> 0" "declared \<le> limit"
    by (auto simp: read_frame_def declared_def Let_def split: if_splits)
  from \<open>?lhs\<close> r1 d obtain type_buf r2 where r2: "read_exact 1 r1 = (Inr type_buf, r2)"
    by (auto simp: read_frame_def declared_def [symmetric] Let_def split: prod.splits sum.splits)
  from \<open>?lhs\<close> r1 d r2 obtain ft where ft: "from_u8 (type_buf ! 0) = Inr ft"
    by (auto simp: read_frame_def declared_def [symmetric] Let_def split: sum.splits)
  have body: "frame_type f = ft \<and> r2 = payload f @ rest \<and> length (payload f) = declared - 1"
    using \<open>?lhs\<close> r1 d r2 ft
    by (auto simp: read_frame_def declared_def [symmetric] Let_def read_exact_Inr
        split: prod.splits sum.splits if_splits)
  have len: "input = len_buf @ r1" "length len_buf = 4" and ty: "r1 = type_buf @ r2" "length type_buf = 1"
    using r1 r2 by (simp_all add: read_exact_Inr)
  have "type_buf = [frame_type_u8 ft]"
    using ft ty(2) by (cases type_buf) (auto simp: from_u8_Inr)
  moreover have dl: "length (payload f) + 1 = declared" using body d(1) by simp
  moreover have "len_buf = to_be_bytes (of_nat declared)"
    unfolding declared_def by (simp add: to_from_be_bytes len(2))
  ultimately show ?rhs using len ty body d(2) small by simp
next
  assume r: ?rhs
  define n where "n = length (payload f) + 1"
  have n: "unat (of_nat n :: u32) = n"
    using r unfolding n_def [symmetric] by (simp add: unat_of_nat)
  have "input = to_be_bytes (of_nat n) @ ([frame_type_u8 (frame_type f)] @ (payload f @ rest))"
    using r by (simp add: n_def)
  then show ?lhs
    using r n unfolding n_def [symmetric]
    by (cases "payload f = []")
      (auto simp: read_frame_def Let_def n_def read_exact_append [of "[x]" 1 for x, simplified])
qed

lemma encode_Inr:
  "encode f limit = Inr b \<longleftrightarrow> length (payload f) + 1 \<le> limit \<and>
     b = to_be_bytes (of_nat (length (payload f) + 1)) @ [frame_type_u8 (frame_type f)] @ payload f"
  by (auto simp: encode_def Let_def)

section \<open>A stream of frames\<close>

text \<open>What a peer sees of a connection: frames until the input ends or a frame is refused.\<close>

function read_frames :: "nat \<Rightarrow> bytes \<Rightarrow> frame list \<times> hip_error option" where
  "read_frames limit input =
     (if input = [] then ([], None)
      else case read_frame input limit of
             (Inl e, _) \<Rightarrow> ([], Some e)
           | (Inr f, rest) \<Rightarrow> (let (fs, e) = read_frames limit rest in (f # fs, e)))"
  by pat_completeness auto
termination
proof (relation "measure (\<lambda>(_, input). length input)")
  fix limit input r f rest
  assume "input \<noteq> []" and "(r, rest) = read_frame input limit" and "r = Inr f"
  then show "((limit, rest), limit, input) \<in> measure (\<lambda>(_, input). length input)"
    using read_frame_Inr [of input limit f rest] by auto
qed simp

declare read_frames.simps [simp del]

definition write_frames :: "nat \<Rightarrow> frame list \<Rightarrow> hip_error + bytes" where
  "write_frames limit fs = res_bind (map_res (\<lambda>f. encode f limit) fs) (\<lambda>bs. Inr (concat bs))"

lemma read_frames_encoded:
  assumes "list_all2 (\<lambda>f b. encode f limit = Inr b) fs bs"
    and "limit \<le> limit'" and "limit < 2 ^ 32"
  shows "read_frames limit' (concat bs) = (fs, None)"
  using assms(1)
proof (induction rule: list_all2_induct)
  case Nil
  then show ?case by (simp add: read_frames.simps)
next
  case (Cons f fs b bs)
  have "read_frame (b @ concat bs) limit' = (Inr f, concat bs)"
    using Cons(1) assms(2,3) by (auto simp: read_frame_Inr encode_Inr)
  moreover have "b @ concat bs \<noteq> []" using Cons(1) by (auto simp: encode_Inr)
  ultimately show ?case
    using Cons.IH by (subst read_frames.simps) simp
qed

section \<open>Properties\<close>

text \<open>\<open>read_frame\<close> inverts \<open>encode\<close>, and nothing else: it returns a frame and the bytes left
  exactly when the input is that frame's encoding (under the reader's limit) followed by those
  bytes, and the frame is shorter than the 4-byte prefix can say. In particular a frame is never
  recognised in two ways and no byte of the next frame is consumed.\<close>

theorem read_frame_inverts_encode:
  "read_frame input limit = (Inr f, rest) \<longleftrightarrow>
     (\<exists>b. encode f limit = Inr b \<and> length b < 2 ^ 32 + 4 \<and> input = b @ rest)"
  unfolding read_frame_Inr by (auto simp: encode_Inr)

text \<open>C12: a session of frames written under one limit and concatenated on the wire is read back
  frame by frame, whatever the frames are, by a reader with at least that limit, provided the limit
  is below 4 GiB.\<close>

theorem frame_stream_round_trip:
  assumes "write_frames limit fs = Inr wire" and "limit \<le> limit'" and "limit < 2 ^ 32"
  shows "read_frames limit' wire = (fs, None)"
proof -
  from assms(1) obtain bs where "map_res (\<lambda>f. encode f limit) fs = Inr bs" and "wire = concat bs"
    by (auto simp: write_frames_def res_bind_eq_Inr)
  then show ?thesis using read_frames_encoded assms(2,3) by (simp add: map_res_Inr)
qed

theorem frame_stream_round_trip_witness:
  "\<exists>wire. write_frames 16 [\<lparr>frame_type = FPing, payload = []\<rparr>, \<lparr>frame_type = FBye, payload = [7]\<rparr>]
      = Inr wire \<and>
     read_frames MAX_DEFAULT_FRAME_BYTES wire =
       ([\<lparr>frame_type = FPing, payload = []\<rparr>, \<lparr>frame_type = FBye, payload = [7]\<rparr>], None)"
proof -
  let ?fs = "[\<lparr>frame_type = FPing, payload = []\<rparr>, \<lparr>frame_type = FBye, payload = [7]\<rparr>]"
  obtain wire where w: "write_frames 16 ?fs = Inr wire"
    by (simp add: write_frames_def encode_def Let_def)
  have "read_frames MAX_DEFAULT_FRAME_BYTES wire = (?fs, None)"
    by (rule frame_stream_round_trip [OF w]) (simp_all add: MAX_DEFAULT_FRAME_BYTES_def)
  with w show ?thesis by blast
qed

text \<open>refusals of the reader. A declared length of zero and one above the limit are errors
  found from the prefix alone, before any of the body is read (so the buffer the reader allocates is
  never larger than the limit), an unknown type byte is a protocol error, and a stream that ends
  inside a frame is an end-of-file error.\<close>

theorem read_frame_refusals:
  assumes "length prefix = 4" and "n = unat (from_be_bytes prefix)"
  shows "read_frame (prefix @ body) limit =
    (if n = 0 then (Inl (HipProtocol ''frame length is zero''), body)
     else if n > limit then (Inl (FrameTooLarge n limit), body)
     else case body of
       [] \<Rightarrow> (Inl (HipIo UnexpectedEof), [])
     | t # rest \<Rightarrow>
         (case from_u8 t of
            Inl e \<Rightarrow> (Inl e, rest)
          | Inr ft \<Rightarrow>
              if length rest < n - 1 then (Inl (HipIo UnexpectedEof), [])
              else (Inr \<lparr>frame_type = ft, payload = take (n - 1) rest\<rparr>, drop (n - 1) rest)))"
  using assms
  by (auto simp: read_frame_def Let_def read_exact_def split: list.splits sum.splits prod.splits)

theorem read_frame_refusals_witness:
  "read_frame [0, 0, 0, 0, 9] 64 = (Inl (HipProtocol ''frame length is zero''), [9])"
  using read_frame_refusals [OF _ refl, of "[0, 0, 0, 0]" "[9]" 64] by simp

text \<open>the length prefix is the frame length cut to 32 bits. With a limit above 4 GiB a
  payload of \<open>2 ^ 32 - 1\<close> bytes is accepted by \<open>encode\<close>, but its prefix is zero and every reader
  refuses it: the limit check does not protect the prefix.\<close>

theorem encode_prefix_wraps:
  assumes "length (payload f) = 2 ^ 32 - 1" and "2 ^ 32 \<le> limit"
  shows "\<exists>b. encode f limit = Inr b \<and>
    fst (read_frame b limit') = Inl (HipProtocol ''frame length is zero'')"
proof -
  have len: "length (payload f) + 1 = 2 ^ 32" using assms(1) by simp
  have z: "(of_nat (2 ^ 32) :: u32) = 0"
    by (simp only: word_of_nat_eq_0_iff) simp
  let ?b = "to_be_bytes 0 @ frame_type_u8 (frame_type f) # payload f"
  have "encode f limit = Inr ?b"
    unfolding encode_def Let_def len z using assms(2) by simp
  moreover have "fst (read_frame ?b limit') = Inl (HipProtocol ''frame length is zero'')"
    by (simp add: read_frame_def Let_def)
  ultimately show ?thesis by blast
qed

theorem encode_prefix_wraps_witness:
  "\<exists>b. encode \<lparr>frame_type = FUploadChunk, payload = replicate (2 ^ 32 - 1) 0\<rparr> (2 ^ 33) = Inr b \<and>
    fst (read_frame b (2 ^ 33)) = Inl (HipProtocol ''frame length is zero'')"
  by (rule encode_prefix_wraps) simp_all

end
