(* ===== verification/Hip_Messages.thy ===== *)
theory Hip_Messages
  imports Hip_Frame
begin

text \<open>
  The messages of \<^verbatim>\<open>src/core/hip/codec.rs\<close> and the client's configuration and greeting parameters
  (\<^verbatim>\<open>src/core/hip/client.rs\<close>). MessagePack is the parameter \<open>codec\<close>: an encoder and a decoder per
  message.
\<close>

record hello =
  he_proto :: string
  he_version :: nat
  he_bearer_token :: string
  he_region :: string
  he_app_version :: string
  he_asset_version :: string
  he_asset_hash :: string
  he_run_id :: string
  he_unpacker_version :: string
  he_expected_max_frame :: nat

record hello_ack =
  ha_session_id :: string
  ha_server_version :: string
  ha_max_frame :: nat
  ha_max_in_flight_uploads :: nat
  ha_sha256_required :: bool
  ha_known_version :: bool

record check_batch_item =
  ci_path :: string
  ci_fingerprint :: string
  ci_size :: nat
  ci_provider :: string

record check_batch =
  ck_batch_id :: u64
  ck_items :: "check_batch_item list"

datatype check_action = Skip | Upload

datatype placement = Shared | Override

record check_ack_item =
  ca_path :: string
  ca_action :: check_action
  ca_placement :: "placement option"

record check_result =
  cx_batch_id :: u64
  cx_results :: "check_ack_item list"

record upload_begin =
  ub_stream_id :: u32
  ub_bundle_path :: string
  ub_path :: string
  ub_fingerprint :: string
  ub_size :: nat
  ub_content_type :: "string option"

record upload_end =
  ue_stream_id :: u32
  ue_total_bytes :: nat
  ue_sha256 :: string

record upload_ack =
  ua_stream_id :: u32
  ua_status :: string
  ua_placement :: "placement option"
  ua_server_sha256 :: "string option"
  ua_storage_key :: "string option"
  ua_message :: "string option"

record commit_stats =
  ct_skipped_by_layer1 :: nat
  ct_skipped_by_check :: nat
  ct_uploaded_shared :: nat
  ct_uploaded_override :: nat

definition default_commit_stats :: commit_stats where
  "default_commit_stats = \<lparr>ct_skipped_by_layer1 = 0, ct_skipped_by_check = 0, ct_uploaded_shared = 0,
     ct_uploaded_override = 0\<rparr>"

record commit_bundle_completion =
  bc_path :: string
  bc_fingerprint :: string
  bc_source :: string

record commit =
  co_bundle_count :: nat
  co_stats :: commit_stats
  co_completed_bundles :: "commit_bundle_completion list"

record commit_ack =
  cm_version_id :: nat
  cm_override_index_rebuilt :: bool

record hip_error_payload =
  ep_code :: string
  ep_message :: string
  ep_fatal :: bool

record window_update =
  wu_max_in_flight_uploads :: nat

record message_codec =
  mc_hello :: "hello \<Rightarrow> string + bytes"
  mc_check_batch :: "check_batch \<Rightarrow> string + bytes"
  mc_upload_begin :: "upload_begin \<Rightarrow> string + bytes"
  mc_upload_end :: "upload_end \<Rightarrow> string + bytes"
  mc_commit :: "commit \<Rightarrow> string + bytes"
  md_hello_ack :: "bytes \<Rightarrow> string + hello_ack"
  md_check_result :: "bytes \<Rightarrow> string + check_result"
  md_upload_ack :: "bytes \<Rightarrow> string + upload_ack"
  md_commit_ack :: "bytes \<Rightarrow> string + commit_ack"
  md_error :: "bytes \<Rightarrow> string + hip_error_payload"
  md_window :: "bytes \<Rightarrow> string + window_update"

text \<open>\<^verbatim>\<open>codec::encode\<close> and \<^verbatim>\<open>codec::decode\<close>: the library's errors become the protocol's.\<close>

definition codec_encode :: "('m \<Rightarrow> string + bytes) \<Rightarrow> 'm \<Rightarrow> hip_error + bytes" where
  "codec_encode enc m = (case enc m of Inl e \<Rightarrow> Inl (HipEncode e) | Inr b \<Rightarrow> Inr b)"

definition codec_decode :: "(bytes \<Rightarrow> string + 'm) \<Rightarrow> bytes \<Rightarrow> hip_error + 'm" where
  "codec_decode dec b = (case dec b of Inl e \<Rightarrow> Inl (HipDecode e) | Inr m \<Rightarrow> Inr m)"

section \<open>Client parameters\<close>

text \<open>Durations are milliseconds.\<close>

record hip_client_config =
  hk_endpoint :: string
  hk_bearer_token :: string
  hk_tls_enabled :: bool
  hk_tls_ca_file :: "string option"
  hk_handshake_timeout :: nat
  hk_request_timeout :: nat
  hk_max_frame_bytes :: nat
  hk_chunk_size_bytes :: nat
  hk_heartbeat_interval :: nat
  hk_unpacker_version :: string

definition default_hip_client_config :: "string \<Rightarrow> hip_client_config" where
  "default_hip_client_config pkg_version =
     \<lparr>hk_endpoint = ''127.0.0.1:7420'', hk_bearer_token = [], hk_tls_enabled = False,
      hk_tls_ca_file = None, hk_handshake_timeout = 5000, hk_request_timeout = 30000,
      hk_max_frame_bytes = MAX_DEFAULT_FRAME_BYTES, hk_chunk_size_bytes = 1024 * 1024,
      hk_heartbeat_interval = 30000, hk_unpacker_version = pkg_version\<rparr>"

record hello_params =
  hl_region :: string
  hl_app_version :: string
  hl_asset_version :: string
  hl_asset_hash :: string
  hl_run_id :: string

end
