(* ===== verification/Hip_Client.thy ===== *)
theory Hip_Client
  imports Hip_Messages "HOL-Library.Sublist"
begin

text \<open>
  \<^verbatim>\<open>src/core/hip/client.rs\<close>: the session of the HIP/1 client. The tasks of a session (reader, writer,
  requests) interleave at their \<^verbatim>\<open>await\<close> points; every definition below is one stretch between such
  points, and a request takes what the other tasks do in between as an argument. MessagePack, SHA-256,
  the sockets and TLS are parameters.
\<close>

section \<open>Waiting requests\<close>

text \<open>A \<^verbatim>\<open>oneshot\<close> channel as its receiver sees it.\<close>

datatype 'v reply = Pending | Delivered 'v | Dropped

text \<open>A map from request ids to senders. The channels are numbered in the order they were made;
  beside its state each carries the id it was made for.\<close>

record ('k, 'v) waiters =
  wt_map :: "('k, nat) hmap"
  wt_chans :: "('k \<times> 'v reply) list"

definition no_waiters :: "('k, 'v) waiters" where
  "no_waiters = \<lparr>wt_map = [], wt_chans = []\<rparr>"

definition set_chan :: "nat \<Rightarrow> 'v reply \<Rightarrow> ('k \<times> 'v reply) list \<Rightarrow> ('k \<times> 'v reply) list" where
  "set_chan i r chans = chans[i := (fst (chans ! i), r)]"

definition wt_status :: "nat \<Rightarrow> ('k, 'v) waiters \<Rightarrow> 'v reply" where
  "wt_status i t = snd (wt_chans t ! i)"

text \<open>\<^verbatim>\<open>insert\<close>: a sender already there under the id is dropped.\<close>

definition wt_register :: "'k \<Rightarrow> ('k, 'v) waiters \<Rightarrow> nat \<times> ('k, 'v) waiters" where
  "wt_register k t =
     (let i = length (wt_chans t);
          chans = (case map_of (wt_map t) k of None \<Rightarrow> wt_chans t | Some j \<Rightarrow> set_chan j Dropped (wt_chans t))
      in (i, \<lparr>wt_map = hmap_insert k i (wt_map t), wt_chans = chans @ [(k, Pending)]\<rparr>))"

text \<open>\<^verbatim>\<open>remove\<close> and \<^verbatim>\<open>send\<close>; a reply nobody waits for is logged and forgotten.\<close>

definition wt_resolve :: "'k \<Rightarrow> 'v \<Rightarrow> ('k, 'v) waiters \<Rightarrow> ('k, 'v) waiters" where
  "wt_resolve k v t =
     (case map_of (wt_map t) k of
        None \<Rightarrow> t
      | Some i \<Rightarrow> \<lparr>wt_map = filter (\<lambda>e. fst e \<noteq> k) (wt_map t), wt_chans = set_chan i (Delivered v) (wt_chans t)\<rparr>)"

text \<open>\<^verbatim>\<open>drain\<close>.\<close>

definition wt_drop_all :: "('k, 'v) waiters \<Rightarrow> ('k, 'v) waiters" where
  "wt_drop_all t = \<lparr>wt_map = [], wt_chans = fold (\<lambda>(k, i). set_chan i Dropped) (wt_map t) (wt_chans t)\<rparr>"

definition await :: "nat \<Rightarrow> string \<Rightarrow> 'v reply \<Rightarrow> hip_error + 'v" where
  "await timeout_ms dropped r =
     (case r of
        Pending \<Rightarrow> Inl (HipTimeout timeout_ms)
      | Delivered v \<Rightarrow> Inr v
      | Dropped \<Rightarrow> Inl (HipSessionClosed dropped))"

section \<open>The session\<close>

text \<open>\<open>hs_log\<close> holds every frame ever handed to the writer task, \<open>hs_written\<close> how many of them it
  has taken: its queue is the rest. \<open>hs_received\<close> is a ghost: the frames dispatched so far.\<close>

record session =
  hs_hello_ack :: hello_ack
  hs_config :: hip_client_config
  hs_writer_tx :: bool
  hs_writer_alive :: bool
  hs_reader_alive :: bool
  hs_log :: "frame list"
  hs_written :: nat
  hs_received :: "frame list"
  hs_batch_id :: u64
  hs_stream_id :: u32
  hs_permits :: nat
  hs_check :: "(u64, check_result) waiters"
  hs_upload :: "(u32, upload_ack) waiters"
  hs_commit :: "(unit, commit_ack) waiters"

definition new_session :: "hip_client_config \<Rightarrow> hello_ack \<Rightarrow> session" where
  "new_session config ack =
     \<lparr>hs_hello_ack = ack,
      hs_config = config\<lparr>hk_max_frame_bytes := min (ha_max_frame ack) (hk_max_frame_bytes config)\<rparr>,
      hs_writer_tx = True, hs_writer_alive = True, hs_reader_alive = True, hs_log = [], hs_written = 0, hs_received = [],
      hs_batch_id = 1, hs_stream_id = 1, hs_permits = max (ha_max_in_flight_uploads ack) 1,
      hs_check = no_waiters, hs_upload = no_waiters, hs_commit = no_waiters\<rparr>"

definition send_frame :: "frame_type \<Rightarrow> bytes \<Rightarrow> session \<Rightarrow> (hip_error + unit) \<times> session" where
  "send_frame ft p s =
     (if \<not> hs_writer_tx s then (Inl (HipSessionClosed ''session closed''), s)
      else if \<not> hs_writer_alive s then (Inl (HipSessionClosed ''writer task terminated''), s)
      else (Inr (), s\<lparr>hs_log := hs_log s @ [\<lparr>frame_type = ft, payload = p\<rparr>]\<rparr>))"

text \<open>Encode a message and hand it over.\<close>

definition send_message ::
    "('m \<Rightarrow> string + bytes) \<Rightarrow> frame_type \<Rightarrow> 'm \<Rightarrow> session \<Rightarrow> (hip_error + unit) \<times> session" where
  "send_message enc ft m s =
     (case codec_encode enc m of Inl e \<Rightarrow> (Inl e, s) | Inr p \<Rightarrow> send_frame ft p s)"

subsection \<open>CHECK\<close>

definition check_send ::
    "message_codec \<Rightarrow> check_batch_item list \<Rightarrow> session \<Rightarrow> (hip_error + nat) \<times> session" where
  "check_send mc items s =
     (let (i, t) = wt_register (hs_batch_id s) (hs_check s)
      in st_bind (send_message (mc_check_batch mc) FCheckBatch
                    \<lparr>ck_batch_id = hs_batch_id s, ck_items = items\<rparr>
                    (s\<lparr>hs_batch_id := hs_batch_id s + 1, hs_check := t\<rparr>)) (\<lambda>_ s'. (Inr i, s')))"

definition check_batch_request ::
    "message_codec \<Rightarrow> (session \<Rightarrow> session) \<Rightarrow> check_batch_item list \<Rightarrow> session \<Rightarrow>
     (hip_error + check_ack_item list) \<times> session" where
  "check_batch_request mc others items s =
     (if items = [] then (Inr [], s)
      else st_bind (check_send mc items s) (\<lambda>i s1.
        let s2 = others s1 in
        (case await (hk_request_timeout (hs_config s2)) ''check_batch reply dropped'' (wt_status i (hs_check s2)) of
           Inl e \<Rightarrow> Inl e
         | Inr ack \<Rightarrow> Inr (cx_results ack), s2)))"

subsection \<open>UPLOAD\<close>

definition validate_upload_ack :: "upload_ack \<Rightarrow> hip_error + upload_ack" where
  "validate_upload_ack ack =
     (if ua_status ack = ''OK'' then Inr ack
      else
        (let message = unwrap_or [] (ua_message ack)
         in if to_lower (ua_status ack) = to_lower ''REJECTED'' \<and>
               contains_sub ''already present'' (to_lower message)
            then Inr ack
            else Inl (HipServer (ua_status ack) message False)))"

text \<open>The loop over what \<^verbatim>\<open>read\<close> returns; \<open>sent\<close> is what has been hashed and counted so far, \<open>others n\<close>
  what happens while the \<open>n\<close>-th chunk is sent.\<close>

fun send_chunks ::
    "(nat \<Rightarrow> session \<Rightarrow> session) \<Rightarrow> u32 \<Rightarrow> nat \<Rightarrow> (io_kind + bytes) list \<Rightarrow> bytes \<Rightarrow> session \<Rightarrow>
     (hip_error + bytes) \<times> session" where
  "send_chunks others sid n [] sent s = (Inr sent, s)"
| "send_chunks others sid n (Inl k # reads) sent s = (Inl (HipIo k), s)"
| "send_chunks others sid n (Inr b # reads) sent s =
     (if b = [] then (Inr sent, s)
      else st_bind (send_frame FUploadChunk (to_be_bytes sid @ b) s) (\<lambda>_ s'.
        send_chunks others sid (n + 1) reads (sent @ b) (others n s')))"

definition upload_open :: "session \<Rightarrow> nat \<times> session" where
  "upload_open s =
     (let (i, t) = wt_register (hs_stream_id s) (hs_upload s)
      in (i, s\<lparr>hs_stream_id := hs_stream_id s + 1, hs_upload := t, hs_permits := hs_permits s - 1\<rparr>))"

definition size_mismatch :: "nat \<Rightarrow> nat \<Rightarrow> hip_error" where
  "size_mismatch sz tot =
     HipProtocol (''upload size mismatch: declared '' @ show_nat sz @ '' but sent '' @ show_nat tot @ '' bytes'')"

text \<open>From UPLOAD_BEGIN to the verdict, for a request whose channel is \<open>i\<close>.\<close>

definition upload_body ::
    "message_codec \<Rightarrow> (bytes \<Rightarrow> string) \<Rightarrow> (nat \<Rightarrow> session \<Rightarrow> session) \<Rightarrow> upload_begin \<Rightarrow>
     (io_kind + bytes) list \<Rightarrow> nat \<Rightarrow> session \<Rightarrow> (hip_error + upload_ack) \<times> session" where
  "upload_body mc sha256_hex others opening reads i s1 =
     st_bind (send_message (mc_upload_begin mc) FUploadBegin opening s1) (\<lambda>_ s2.
     let s3 = others 0 s2; sid = ub_stream_id opening in
     case wt_status i (hs_upload s3) of
       Delivered ack \<Rightarrow> (validate_upload_ack ack, s3)
     | Dropped \<Rightarrow> (Inl (HipSessionClosed ''upload reply dropped''), s3)
     | Pending \<Rightarrow>
         st_bind (send_chunks others sid 1 reads [] s3) (\<lambda>sent s4.
         if length sent \<noteq> ub_size opening then (Inl (size_mismatch (ub_size opening) (length sent)), s4)
         else
           st_bind (send_message (mc_upload_end mc) FUploadEnd
                      \<lparr>ue_stream_id = sid, ue_total_bytes = length sent, ue_sha256 = sha256_hex sent\<rparr> s4)
             (\<lambda>_ s5.
              let s6 = others (length reads + 1) s5 in
              (case await (hk_request_timeout (hs_config s6)) ''upload reply dropped''
                      (wt_status i (hs_upload s6)) of
                 Inl e \<Rightarrow> Inl e
               | Inr ack \<Rightarrow> validate_upload_ack ack, s6))))"

text \<open>\<open>upload_stream\<close> starts with the permit available; it is given back on every path.\<close>

definition opening_for :: "session \<Rightarrow> string \<Rightarrow> string \<Rightarrow> string \<Rightarrow> nat \<Rightarrow> upload_begin" where
  "opening_for s bundle_path asset_path fingerprint sz =
     \<lparr>ub_stream_id = hs_stream_id s, ub_bundle_path = bundle_path, ub_path = asset_path,
      ub_fingerprint = fingerprint, ub_size = sz, ub_content_type = Some ''application/octet-stream''\<rparr>"

definition upload_stream ::
    "message_codec \<Rightarrow> (bytes \<Rightarrow> string) \<Rightarrow> (nat \<Rightarrow> session \<Rightarrow> session) \<Rightarrow> string \<Rightarrow> string \<Rightarrow> string \<Rightarrow> nat \<Rightarrow>
     (io_kind + bytes) list \<Rightarrow> session \<Rightarrow> (hip_error + upload_ack) \<times> session" where
  "upload_stream mc sha256_hex others bundle_path asset_path fingerprint sz reads s =
     (let (i, s1) = upload_open s;
          (r, s') = upload_body mc sha256_hex others (opening_for s bundle_path asset_path fingerprint sz) reads i s1
      in (r, s'\<lparr>hs_permits := hs_permits s' + 1\<rparr>))"

text \<open>\<open>open_file\<close> gives the length the metadata declares and what the reads will return.\<close>

definition upload_file ::
    "message_codec \<Rightarrow> (bytes \<Rightarrow> string) \<Rightarrow> (nat \<Rightarrow> session \<Rightarrow> session) \<Rightarrow>
     (string \<Rightarrow> io_kind + nat \<times> (io_kind + bytes) list) \<Rightarrow> string \<Rightarrow> string \<Rightarrow> string \<Rightarrow> string \<Rightarrow> session \<Rightarrow>
     (hip_error + upload_ack) \<times> session" where
  "upload_file mc sha256_hex others open_file bundle_path asset_path fingerprint file_path s =
     (case open_file file_path of
        Inl k \<Rightarrow> (Inl (HipIo k), s)
      | Inr (len, reads) \<Rightarrow> upload_stream mc sha256_hex others bundle_path asset_path fingerprint len reads s)"

subsection \<open>COMMIT and BYE\<close>

definition commit_send :: "message_codec \<Rightarrow> commit \<Rightarrow> session \<Rightarrow> (hip_error + nat) \<times> session" where
  "commit_send mc c s =
     (if map_of (wt_map (hs_commit s)) () \<noteq> None then (Inl (HipProtocol ''commit already in flight''), s)
      else
        (let (i, t) = wt_register () (hs_commit s)
         in st_bind (send_message (mc_commit mc) FCommit c (s\<lparr>hs_commit := t\<rparr>)) (\<lambda>_ s'. (Inr i, s'))))"

definition commit_request ::
    "message_codec \<Rightarrow> (session \<Rightarrow> session) \<Rightarrow> commit \<Rightarrow> session \<Rightarrow> (hip_error + commit_ack) \<times> session" where
  "commit_request mc others c s =
     st_bind (commit_send mc c s) (\<lambda>i s1.
       let s2 = others s1 in
       (await (hk_request_timeout (hs_config s2)) ''commit reply dropped'' (wt_status i (hs_commit s2)), s2))"

definition close_session :: "session \<Rightarrow> session" where
  "close_session s = (snd (send_frame FBye [] s))\<lparr>hs_writer_tx := False, hs_reader_alive := False\<rparr>"

section \<open>The reader\<close>

definition fail_all_waiters :: "session \<Rightarrow> session" where
  "fail_all_waiters s =
     s\<lparr>hs_check := wt_drop_all (hs_check s), hs_upload := wt_drop_all (hs_upload s),
       hs_commit := wt_drop_all (hs_commit s)\<rparr>"

fun show_frame_type :: "frame_type \<Rightarrow> string" where
  "show_frame_type FHello = ''Hello''"
| "show_frame_type FHelloAck = ''HelloAck''"
| "show_frame_type FCheckBatch = ''CheckBatch''"
| "show_frame_type FCheckAck = ''CheckAck''"
| "show_frame_type FUploadBegin = ''UploadBegin''"
| "show_frame_type FUploadChunk = ''UploadChunk''"
| "show_frame_type FUploadEnd = ''UploadEnd''"
| "show_frame_type FUploadAck = ''UploadAck''"
| "show_frame_type FCommit = ''Commit''"
| "show_frame_type FCommitAck = ''CommitAck''"
| "show_frame_type FBye = ''Bye''"
| "show_frame_type FWindow = ''Window''"
| "show_frame_type FPing = ''Ping''"
| "show_frame_type FPong = ''Pong''"
| "show_frame_type FError = ''Error''"

definition dispatch_frame :: "message_codec \<Rightarrow> frame \<Rightarrow> session \<Rightarrow> (hip_error + unit) \<times> session" where
  "dispatch_frame mc f s0 =
     (let s = s0\<lparr>hs_received := hs_received s0 @ [f]\<rparr> in
      case frame_type f of
        FCheckAck \<Rightarrow>
          (case codec_decode (md_check_result mc) (payload f) of
             Inl e \<Rightarrow> (Inl e, s)
           | Inr ack \<Rightarrow> (Inr (), s\<lparr>hs_check := wt_resolve (cx_batch_id ack) ack (hs_check s)\<rparr>))
      | FUploadAck \<Rightarrow>
          (case codec_decode (md_upload_ack mc) (payload f) of
             Inl e \<Rightarrow> (Inl e, s)
           | Inr ack \<Rightarrow> (Inr (), s\<lparr>hs_upload := wt_resolve (ua_stream_id ack) ack (hs_upload s)\<rparr>))
      | FCommitAck \<Rightarrow>
          (case codec_decode (md_commit_ack mc) (payload f) of
             Inl e \<Rightarrow> (Inl e, s)
           | Inr ack \<Rightarrow> (Inr (), s\<lparr>hs_commit := wt_resolve () ack (hs_commit s)\<rparr>))
      | FWindow \<Rightarrow>
          (case codec_decode (md_window mc) (payload f) of Inl e \<Rightarrow> (Inl e, s) | Inr _ \<Rightarrow> (Inr (), s))
      | FPing \<Rightarrow> send_frame FPong [] s
      | FPong \<Rightarrow> (Inr (), s)
      | FError \<Rightarrow>
          (case codec_decode (md_error mc) (payload f) of
             Inl e \<Rightarrow> (Inl e, s)
           | Inr p \<Rightarrow>
               (let s' = fail_all_waiters s
                in if ep_fatal p then (Inl (HipServer (ep_code p) (ep_message p) (ep_fatal p)), s')
                   else (Inr (), s')))
      | other \<Rightarrow> (Inl (HipProtocol (''unexpected server frame '' @ show_frame_type other)), s))"

lemma read_frame_shorter:
  "read_frame input m = (Inr f, rest) \<Longrightarrow> length rest < length input"
  by (auto simp: read_frame_def read_exact_def Let_def split: if_splits sum.splits prod.splits)

text \<open>The reader task on the bytes the server will send before it closes the connection.\<close>

function reader_loop :: "message_codec \<Rightarrow> bytes \<Rightarrow> session \<Rightarrow> session" where
  "reader_loop mc input s =
     (case read_frame input (hk_max_frame_bytes (hs_config s)) of
        (Inl e, _) \<Rightarrow> (fail_all_waiters s)\<lparr>hs_reader_alive := False\<rparr>
      | (Inr f, rest) \<Rightarrow>
          (case dispatch_frame mc f s of
             (Inl e, s') \<Rightarrow> (fail_all_waiters s')\<lparr>hs_reader_alive := False\<rparr>
           | (Inr _, s') \<Rightarrow> reader_loop mc rest s'))"
  by pat_completeness auto
termination
  by (relation "measure (\<lambda>(mc, input, s). length input)") (auto dest: read_frame_shorter [OF sym])

declare reader_loop.simps [simp del]

section \<open>The writer\<close>

text \<open>One turn of the writer's \<^verbatim>\<open>select!\<close>: the next frame of the queue (or the end of it, when the
  sender is gone), or a heartbeat. \<open>fault\<close> says which writes or flushes fail.\<close>

datatype writer_event = WriterFrame | WriterTick

definition writer_put ::
    "(bytes \<Rightarrow> io_kind option) \<Rightarrow> frame \<Rightarrow> session \<times> bytes \<Rightarrow> session \<times> bytes" where
  "writer_put fault f sw =
     (case write_frame fault (snd sw) f (hk_max_frame_bytes (hs_config (fst sw))) of
        (Inl e, out) \<Rightarrow> ((fst sw)\<lparr>hs_writer_alive := False\<rparr>, out)
      | (Inr _, out) \<Rightarrow> (fst sw, out))"

fun writer_turn ::
    "(bytes \<Rightarrow> io_kind option) \<Rightarrow> writer_event \<Rightarrow> session \<times> bytes \<Rightarrow> session \<times> bytes" where
  "writer_turn fault WriterFrame (s, out) =
     (if \<not> hs_writer_alive s then (s, out)
      else if hs_written s < length (hs_log s)
      then writer_put fault (hs_log s ! hs_written s) (s\<lparr>hs_written := hs_written s + 1\<rparr>, out)
      else if \<not> hs_writer_tx s then (s\<lparr>hs_writer_alive := False\<rparr>, out) else (s, out))"
| "writer_turn fault WriterTick (s, out) =
     (if \<not> hs_writer_alive s then (s, out)
      else writer_put fault \<lparr>frame_type = FPing, payload = []\<rparr> (s, out))"

section \<open>Connecting\<close>

definition hello_for :: "hip_client_config \<Rightarrow> hello_params \<Rightarrow> hello" where
  "hello_for config params =
     \<lparr>he_proto = ''hip'', he_version = 1, he_bearer_token = hk_bearer_token config,
      he_region = hl_region params, he_app_version = hl_app_version params,
      he_asset_version = hl_asset_version params, he_asset_hash = hl_asset_hash params,
      he_run_id = hl_run_id params, he_unpacker_version = hk_unpacker_version config,
      he_expected_max_frame = hk_max_frame_bytes config\<rparr>"

text \<open>\<open>late\<close>: the answer does not come within the handshake timeout. The result is the session and
  what the server sent after its answer, with the bytes written.\<close>

definition start_session ::
    "message_codec \<Rightarrow> hip_client_config \<Rightarrow> hello_params \<Rightarrow> (bytes \<Rightarrow> io_kind option) \<Rightarrow> bool \<Rightarrow> bytes \<Rightarrow>
     (hip_error + session \<times> bytes) \<times> bytes" where
  "start_session mc config params fault late input =
     (case codec_encode (mc_hello mc) (hello_for config params) of
        Inl e \<Rightarrow> (Inl e, [])
      | Inr p \<Rightarrow>
          (case write_frame fault [] \<lparr>frame_type = FHello, payload = p\<rparr> (hk_max_frame_bytes config) of
             (Inl e, sent) \<Rightarrow> (Inl e, sent)
           | (Inr _, sent) \<Rightarrow>
               if late then (Inl (HipTimeout (hk_handshake_timeout config)), sent)
               else
                 (case read_frame input (hk_max_frame_bytes config) of
                    (Inl e, _) \<Rightarrow> (Inl e, sent)
                  | (Inr f, rest) \<Rightarrow>
                      (case frame_type f of
                         FHelloAck \<Rightarrow>
                           (case codec_decode (md_hello_ack mc) (payload f) of
                              Inl e \<Rightarrow> (Inl e, sent)
                            | Inr ack \<Rightarrow> (Inr (new_session config ack, rest), sent))
                       | FError \<Rightarrow>
                           (case codec_decode (md_error mc) (payload f) of
                              Inl e \<Rightarrow> (Inl e, sent)
                            | Inr ep \<Rightarrow>
                                (Inl (HipHandshake (''server rejected HELLO: '' @ ep_message ep @ '' ('' @ ep_code ep @ '')'')),
                                 sent))
                       | other \<Rightarrow>
                           (Inl (HipHandshake (''unexpected frame type '' @ show_frame_type other @ '' during handshake'')),
                            sent)))))"

definition rsplit_once :: "char \<Rightarrow> string \<Rightarrow> (string \<times> string) option" where
  "rsplit_once c s =
     (if c \<in> set s
      then Some (rev (tl (dropWhile (\<lambda>x. x \<noteq> c) (rev s))), rev (takeWhile (\<lambda>x. x \<noteq> c) (rev s)))
      else None)"

definition split_host_port :: "string \<Rightarrow> hip_error + string \<times> string" where
  "split_host_port endpoint =
     (case rsplit_once (CHR '':'') endpoint of
        None \<Rightarrow> Inl (HipConfig (''hip endpoint `'' @ endpoint @ ''` missing :port''))
      | Some hp \<Rightarrow> Inr hp)"

fun add_certs ::
    "('c \<Rightarrow> string + unit) \<Rightarrow> string \<Rightarrow> (string + 'c) list \<Rightarrow> 'c list \<Rightarrow> hip_error + 'c list" where
  "add_certs add ca [] roots = Inr roots"
| "add_certs add ca (Inl e # certs) roots = Inl (HipTls (''read ca_file '' @ ca @ '': '' @ e))"
| "add_certs add ca (Inr c # certs) roots =
     (case add c of
        Inl e \<Rightarrow> Inl (HipTls (''add ca cert: '' @ e))
      | Inr _ \<Rightarrow> add_certs add ca certs (roots @ [c]))"

text \<open>The root certificates of the TLS configuration: of the file when one is given, of the system
  otherwise.\<close>

definition build_client_tls_config ::
    "(string \<Rightarrow> string + (string + 'c) list) \<Rightarrow> 'c list \<Rightarrow> ('c \<Rightarrow> string + unit) \<Rightarrow> string option \<Rightarrow>
     hip_error + 'c list" where
  "build_client_tls_config open_ca native add ca_file =
     (case opt_filter (\<lambda>v. trim v \<noteq> []) ca_file of
        Some ca \<Rightarrow>
          (case open_ca ca of
             Inl e \<Rightarrow> Inl (HipTls (''open ca_file '' @ ca @ '': '' @ e))
           | Inr certs \<Rightarrow> add_certs add ca certs [])
      | None \<Rightarrow> Inr (filter (\<lambda>c. case add c of Inl _ \<Rightarrow> False | Inr _ \<Rightarrow> True) native))"

record 'c net_ops =
  nt_tcp :: "string \<Rightarrow> io_kind + unit"
  nt_nodelay :: "io_kind + unit"
  nt_server_name :: "string \<Rightarrow> string + unit"
  nt_open_ca :: "string \<Rightarrow> string + (string + 'c) list"
  nt_native_certs :: "'c list"
  nt_add_root :: "'c \<Rightarrow> string + unit"
  nt_tls :: "'c list \<Rightarrow> string \<Rightarrow> string + unit"

definition prepare_stream :: "'c net_ops \<Rightarrow> hip_client_config \<Rightarrow> hip_error + unit" where
  "prepare_stream net config =
     (case nt_tcp net (hk_endpoint config) of
        Inl k \<Rightarrow> Inl (HipIo k)
      | Inr _ \<Rightarrow>
          (case nt_nodelay net of
             Inl k \<Rightarrow> Inl (HipIo k)
           | Inr _ \<Rightarrow>
               if \<not> hk_tls_enabled config then Inr ()
               else
                 (case split_host_port (hk_endpoint config) of
                    Inl e \<Rightarrow> Inl e
                  | Inr (host, _) \<Rightarrow>
                      (case nt_server_name net host of
                         Inl e \<Rightarrow> Inl (HipTls (''invalid dns name `'' @ host @ ''`: '' @ e))
                       | Inr _ \<Rightarrow>
                           (case build_client_tls_config (nt_open_ca net) (nt_native_certs net) (nt_add_root net)
                                   (hk_tls_ca_file config) of
                              Inl e \<Rightarrow> Inl e
                            | Inr roots \<Rightarrow>
                                (case nt_tls net roots host of
                                   Inl e \<Rightarrow> Inl (HipTls e)
                                 | Inr _ \<Rightarrow> Inr ()))))))"

definition hip_connect ::
    "'c net_ops \<Rightarrow> message_codec \<Rightarrow> hip_client_config \<Rightarrow> hello_params \<Rightarrow> (bytes \<Rightarrow> io_kind option) \<Rightarrow> bool \<Rightarrow>
     bytes \<Rightarrow> (hip_error + session \<times> bytes) \<times> bytes" where
  "hip_connect net mc config params fault late input =
     (case prepare_stream net config of
        Inl e \<Rightarrow> (Inl e, [])
      | Inr _ \<Rightarrow> start_session mc config params fault late input)"

section \<open>Lemmas: waiting requests\<close>

text \<open>Exactly the channels without a reply have a sender in the map. A sender in the map belongs to a channel made for its id that has no reply yet; every delivered
  reply is one that \<open>ok\<close> allows for the id of its channel.\<close>

definition wt_inv :: "('k \<Rightarrow> 'v \<Rightarrow> bool) \<Rightarrow> ('k, 'v) waiters \<Rightarrow> bool" where
  "wt_inv ok t \<longleftrightarrow>
     distinct (map fst (wt_map t)) \<and>
     (\<forall>(k, i)\<in>set (wt_map t). i < length (wt_chans t) \<and> wt_chans t ! i = (k, Pending)) \<and>
     (\<forall>(k, r)\<in>set (wt_chans t). \<forall>v. r = Delivered v \<longrightarrow> ok k v) \<and>
     (\<forall>i<length (wt_chans t). wt_status i t = Pending \<longrightarrow> map_of (wt_map t) (fst (wt_chans t ! i)) = Some i)"

text \<open>Channels stay, with their ids; a reply once there stays.\<close>

definition wt_le :: "('k, 'v) waiters \<Rightarrow> ('k, 'v) waiters \<Rightarrow> bool" where
  "wt_le t t' \<longleftrightarrow> length (wt_chans t) \<le> length (wt_chans t') \<and>
     (\<forall>i<length (wt_chans t). fst (wt_chans t' ! i) = fst (wt_chans t ! i) \<and>
        (snd (wt_chans t ! i) \<noteq> Pending \<longrightarrow> wt_chans t' ! i = wt_chans t ! i))"

lemma wt_le_refl [simp]: "wt_le t t"
  by (simp add: wt_le_def)

lemma wt_le_trans [trans]: "wt_le t t' \<Longrightarrow> wt_le t' t'' \<Longrightarrow> wt_le t t''"
  unfolding wt_le_def by (smt (verit) order.strict_trans2 order.trans)

lemma length_set_chan [simp]: "length (set_chan i r chans) = length chans"
  by (simp add: set_chan_def)

lemma nth_set_chan:
  "j < length chans \<Longrightarrow> set_chan i r chans ! j = (if i = j then (fst (chans ! j), r) else chans ! j)"
  by (simp add: set_chan_def nth_list_update)

lemma set_set_chan: "x \<in> set (set_chan i r chans) \<Longrightarrow> i < length chans \<Longrightarrow> x \<in> set chans \<or> x = (fst (chans ! i), r)"
  by (auto simp: set_chan_def dest: set_update_subset_insert [THEN subsetD])

lemma wt_inv_lookup:
  assumes "wt_inv ok t" and "map_of (wt_map t) k = Some i"
  shows "i < length (wt_chans t)" and "wt_chans t ! i = (k, Pending)"
  using assms by (auto simp: wt_inv_def dest!: map_of_SomeD)

lemma wt_inv_keys:
  assumes "wt_inv ok t" and "(k, i) \<in> set (wt_map t)" and "(k', i) \<in> set (wt_map t)"
  shows "k = k'"
proof -
  have "wt_chans t ! i = (k, Pending)" and "wt_chans t ! i = (k', Pending)"
    using assms unfolding wt_inv_def by fast+
  then show ?thesis by simp
qed

lemma wt_inv_mono: "wt_inv ok t \<Longrightarrow> (\<And>k v. ok k v \<Longrightarrow> ok' k v) \<Longrightarrow> wt_inv ok' t"
  unfolding wt_inv_def by fast

lemma no_waiters_inv [simp]: "wt_inv ok no_waiters"
  by (simp add: wt_inv_def no_waiters_def)

lemma wt_register_inv:
  assumes inv: "wt_inv ok t" and r: "wt_register k t = (i, t')"
  shows "wt_inv ok t' \<and> wt_le t t' \<and> i < length (wt_chans t') \<and> wt_chans t' ! i = (k, Pending)"
proof -
  define chans where "chans = (case map_of (wt_map t) k of None \<Rightarrow> wt_chans t | Some j \<Rightarrow> set_chan j Dropped (wt_chans t))"
  have t': "i = length (wt_chans t)" "t' = \<lparr>wt_map = hmap_insert k i (wt_map t), wt_chans = chans @ [(k, Pending)]\<rparr>"
    using r by (auto simp: wt_register_def chans_def Let_def)
  have len: "length chans = length (wt_chans t)" by (simp add: chans_def split: option.splits)
  have other: "chans ! j = wt_chans t ! j"
    if "j < length (wt_chans t)" "map_of (wt_map t) k \<noteq> Some j" for j
    using that by (auto simp: chans_def nth_set_chan split: option.splits)
  have fsts: "fst (chans ! j) = fst (wt_chans t ! j)" if "j < length (wt_chans t)" for j
    using that by (auto simp: chans_def nth_set_chan split: option.splits)
  have "chans ! j = wt_chans t ! j" if "j < length (wt_chans t)" "snd (wt_chans t ! j) \<noteq> Pending" for j
    using that other wt_inv_lookup(2) [OF inv] by (metis snd_conv)
  then have le: "wt_le t t'" using fsts by (auto simp: wt_le_def t' len nth_append)
  have entries: "j < length chans \<and> chans ! j = (k', Pending)" if "(k', j) \<in> set (wt_map t)" "k' \<noteq> k" for k' j
  proof -
    have j: "j < length (wt_chans t)" "wt_chans t ! j = (k', Pending)"
      using inv that(1) by (auto simp: wt_inv_def)
    moreover have "map_of (wt_map t) k \<noteq> Some j"
      using that wt_inv_keys [OF inv that(1)] by (metis map_of_SomeD)
    ultimately show ?thesis using other len by simp
  qed
  have vals: "ok k' v" if "(k', Delivered v) \<in> set chans" for k' v
    using that inv wt_inv_lookup(1) [OF inv]
    by (fastforce simp: chans_def wt_inv_def split: option.splits dest: set_set_chan)
  have wf: "hmap_wf (wt_map t)" using inv by (simp add: wt_inv_def hmap_wf_def)
  from hmap_insert_wf [OF this] have "distinct (map fst (hmap_insert k i (wt_map t)))"
    by (simp only: hmap_wf_def)
  moreover from this have "(k', j) = (k, i) \<or> (k', j) \<in> set (wt_map t) \<and> k' \<noteq> k"
    if "(k', j) \<in> set (hmap_insert k i (wt_map t))" for k' j
    using map_of_is_SomeI [OF _ that] by (auto split: if_splits dest: map_of_SomeD)
  then have "j < length (wt_chans t') \<and> wt_chans t' ! j = (k', Pending)"
    if "(k', j) \<in> set (hmap_insert k i (wt_map t))" for k' j
    using that entries by (fastforce simp: t' len nth_append)
  moreover have "map_of (wt_map t') (fst (wt_chans t' ! j)) = Some j"
    if "j < length (wt_chans t')" "wt_status j t' = Pending" for j
  proof (cases "j < length (wt_chans t)")
    case True
    have "map_of (wt_map t) k \<noteq> Some j"
      using that True by (auto simp: t' wt_status_def nth_append len chans_def nth_set_chan)
    then show ?thesis
      using True that other [OF True] inv by (auto simp: t' wt_status_def nth_append len wt_inv_def)
  next
    case False
    then show ?thesis using that by (auto simp: t' nth_append len)
  qed
  ultimately have "wt_inv ok t'" using vals by (auto simp: wt_inv_def t')
  then show ?thesis using le by (simp add: t' len nth_append)
qed

lemma map_of_filter_key: "map_of (filter (\<lambda>e. fst e \<noteq> k) m) = (map_of m)(k := None)"
  by (induction m) (auto simp: fun_eq_iff)

lemma wt_resolve_inv:
  assumes inv: "wt_inv ok t" and v: "ok k v"
  shows "wt_inv ok (wt_resolve k v t) \<and> wt_le t (wt_resolve k v t)"
proof (cases "map_of (wt_map t) k")
  case None
  then show ?thesis using inv by (simp add: wt_resolve_def)
next
  case (Some i)
  note at = wt_inv_lookup [OF inv Some]
  let ?t = "wt_resolve k v t"
  have t: "?t = \<lparr>wt_map = filter (\<lambda>e. fst e \<noteq> k) (wt_map t), wt_chans = set_chan i (Delivered v) (wt_chans t)\<rparr>"
    by (simp add: wt_resolve_def Some)
  have "wt_le t ?t" using at by (auto simp: wt_le_def t nth_set_chan)
  moreover have "j < length (wt_chans ?t) \<and> wt_chans ?t ! j = (k', Pending)" if "(k', j) \<in> set (wt_map ?t)" for k' j
  proof -
    have kj: "(k', j) \<in> set (wt_map t)" "k' \<noteq> k" using that by (auto simp: t)
    then have "j \<noteq> i" using wt_inv_keys [OF inv kj(1)] Some by (metis map_of_SomeD)
    then show ?thesis using inv kj(1) by (auto simp: t nth_set_chan wt_inv_def)
  qed
  moreover have "ok k' v'" if "(k', Delivered v') \<in> set (wt_chans ?t)" for k' v'
    using set_set_chan [OF that [unfolded t, simplified] at(1)] at(2) inv v by (fastforce simp: wt_inv_def)
  moreover have "distinct (map fst (wt_map ?t))"
    using inv by (simp add: t wt_inv_def distinct_map_filter)
  moreover have "map_of (wt_map ?t) (fst (wt_chans ?t ! j)) = Some j"
    if "j < length (wt_chans ?t)" "wt_status j ?t = Pending" for j
  proof -
    have j: "j \<noteq> i" "j < length (wt_chans t)" "wt_status j t = Pending"
      using that by (auto simp: t wt_status_def nth_set_chan split: if_splits)
    then have "map_of (wt_map t) (fst (wt_chans t ! j)) = Some j" using inv by (simp add: wt_inv_def)
    then show ?thesis using j Some by (auto simp: t nth_set_chan map_of_filter_key)
  qed
  ultimately show ?thesis by (auto simp: wt_inv_def)
qed

lemma fold_drop_nth:
  "j < length chans \<Longrightarrow>
     fold (\<lambda>(k, i). set_chan i Dropped) es chans ! j =
       (if \<exists>k. (k, j) \<in> set es then (fst (chans ! j), Dropped) else chans ! j)"
  by (induction es arbitrary: chans) (auto simp: nth_set_chan)

lemma fold_drop_length [simp]: "length (fold (\<lambda>(k, i). set_chan i Dropped) es chans) = length chans"
  by (induction es arbitrary: chans) auto

lemma wt_drop_all_settled:
  assumes "wt_inv ok t" and "i < length (wt_chans t)"
  shows "wt_status i (wt_drop_all t) \<noteq> Pending"
proof
  assume "wt_status i (wt_drop_all t) = Pending"
  then have "wt_status i t = Pending" "\<nexists>k. (k, i) \<in> set (wt_map t)"
    using assms(2) by (auto simp: wt_status_def wt_drop_all_def fold_drop_nth split: if_splits)
  then show False using assms by (auto simp: wt_inv_def dest: map_of_SomeD)
qed

lemma wt_drop_all_inv:
  assumes inv: "wt_inv ok t"
  shows "wt_inv ok (wt_drop_all t) \<and> wt_le t (wt_drop_all t)"
proof -
  have "ok k v" if v: "(k, Delivered v) \<in> set (wt_chans (wt_drop_all t))" for k v
  proof -
    obtain j where "j < length (wt_chans t)" "wt_chans (wt_drop_all t) ! j = (k, Delivered v)"
      using v by (auto simp: in_set_conv_nth wt_drop_all_def)
    then have "(k, Delivered v) \<in> set (wt_chans t)"
      by (auto simp: wt_drop_all_def fold_drop_nth in_set_conv_nth split: if_splits)
    then show ?thesis using inv by (auto simp: wt_inv_def)
  qed
  moreover have "wt_le t (wt_drop_all t)"
  proof -
    have "(k, j) \<notin> set (wt_map t)" if "snd (wt_chans t ! j) \<noteq> Pending" for k j
      using that inv by (fastforce simp: wt_inv_def)
    then show ?thesis by (auto simp: wt_le_def wt_drop_all_def fold_drop_nth)
  qed
  ultimately show ?thesis
    using wt_drop_all_settled [OF inv] by (auto simp: wt_inv_def) (simp_all add: wt_drop_all_def)
qed

lemma wt_drop_all_status:
  "wt_inv ok t \<Longrightarrow> map_of (wt_map t) k = Some i \<Longrightarrow> wt_status i (wt_drop_all t) = Dropped"
  using wt_inv_lookup(1) by (force simp: wt_status_def wt_drop_all_def fold_drop_nth dest: map_of_SomeD)

section \<open>What the tasks of a session can do\<close>

inductive session_step :: "message_codec \<Rightarrow> session \<Rightarrow> session \<Rightarrow> bool" for mc where
  step_send: "session_step mc s (snd (send_frame ft p s))"
| step_check: "session_step mc s (snd (check_send mc items s))"
| step_upload: "0 < hs_permits s \<Longrightarrow> session_step mc s (snd (upload_open s))"
| step_release: "session_step mc s (s\<lparr>hs_permits := hs_permits s + 1\<rparr>)"
| step_commit: "session_step mc s (snd (commit_send mc c s))"
| step_receive: "session_step mc s (snd (dispatch_frame mc f s))"
| step_reader_exit: "session_step mc s ((fail_all_waiters s)\<lparr>hs_reader_alive := False\<rparr>)"
| step_write: "session_step mc s (fst (writer_turn fault ev (s, out)))"
| step_close: "session_step mc s (close_session s)"

lemma snd_st_bind_pure [simp]: "snd (st_bind r (\<lambda>_ s'. (Inr i, s'))) = snd r"
  by (cases r; cases "fst r") auto

text \<open>Sending touches neither the tables nor the ids.\<close>

lemma send_frame_frame:
  "\<exists>l. snd (send_frame ft p s) = s\<lparr>hs_log := l\<rparr>"
  by (auto simp: send_frame_def intro: exI [of _ "hs_log s"])

lemma send_message_frame:
  "\<exists>l. snd (send_message enc ft m s) = s\<lparr>hs_log := l\<rparr>"
  using send_frame_frame by (auto simp: send_message_def intro: exI [of _ "hs_log s"] split: sum.splits)

lemma send_tables [simp]:
  "hs_check (snd (send_frame ft p s)) = hs_check s" "hs_upload (snd (send_frame ft p s)) = hs_upload s"
  "hs_commit (snd (send_frame ft p s)) = hs_commit s"
  "hs_check (snd (send_message enc ft m s)) = hs_check s" "hs_upload (snd (send_message enc ft m s)) = hs_upload s"
  "hs_commit (snd (send_message enc ft m s)) = hs_commit s"
  using send_frame_frame [of ft p s] send_message_frame [of enc ft m s] by auto

lemma writer_put_tables [simp]:
  "hs_check (fst (writer_put fault f sw)) = hs_check (fst sw)"
  "hs_upload (fst (writer_put fault f sw)) = hs_upload (fst sw)"
  "hs_commit (fst (writer_put fault f sw)) = hs_commit (fst sw)"
  "hs_log (fst (writer_put fault f sw)) = hs_log (fst sw)"
  by (simp_all add: writer_put_def split: prod.splits sum.splits)

lemma writer_turn_tables [simp]:
  "hs_check (fst (writer_turn fault ev (s, out))) = hs_check s"
  "hs_upload (fst (writer_turn fault ev (s, out))) = hs_upload s"
  "hs_commit (fst (writer_turn fault ev (s, out))) = hs_commit s"
  "hs_log (fst (writer_turn fault ev (s, out))) = hs_log s"
  by (cases ev; simp)+

text \<open>What each kind of request relies on: no task ever breaks its table, takes back a reply, or
  delivers one that is not the decoded answer to the id it was registered for. \<open>dec f v\<close> says that
  frame \<open>f\<close> holds the answer \<open>v\<close>.\<close>

definition answered :: "(frame \<Rightarrow> 'v \<Rightarrow> bool) \<Rightarrow> ('v \<Rightarrow> 'k) \<Rightarrow> session \<Rightarrow> 'k \<Rightarrow> 'v \<Rightarrow> bool" where
  "answered dec key s k v \<longleftrightarrow> key v = k \<and> (\<exists>f\<in>set (hs_received s). dec f v)"

locale reply_channel =
  fixes mc :: message_codec
    and tbl :: "session \<Rightarrow> ('k, 'v) waiters"
    and key :: "'v \<Rightarrow> 'k"
    and dec :: "frame \<Rightarrow> 'v \<Rightarrow> bool"
  assumes fresh: "wt_inv (answered dec key (new_session config ack)) (tbl (new_session config ack))"
    and step: "session_step mc s s' \<Longrightarrow> wt_inv (answered dec key s) (tbl s) \<Longrightarrow>
      wt_inv (answered dec key s') (tbl s') \<and> wt_le (tbl s) (tbl s')"
begin

lemma steps:
  assumes "(session_step mc)\<^sup>*\<^sup>* s s'" and "wt_inv (answered dec key s) (tbl s)"
  shows "wt_inv (answered dec key s') (tbl s') \<and> wt_le (tbl s) (tbl s')"
  using assms by (induction rule: rtranclp_induct) (auto dest: step intro: wt_le_trans)

lemma reachable: "(session_step mc)\<^sup>*\<^sup>* (new_session config ack) s \<Longrightarrow> wt_inv (answered dec key s) (tbl s)"
  using steps fresh by blast

lemma reply_matches:
  assumes inv: "wt_inv (answered dec key s) (tbl s)" and reg: "wt_register k (tbl s) = (i, tbl s1)"
    and same: "hs_received s1 = hs_received s"
    and run: "(session_step mc)\<^sup>*\<^sup>* s1 s2" and got: "wt_status i (tbl s2) = Delivered v"
  shows "key v = k \<and> (\<exists>f\<in>set (hs_received s2). dec f v)"
proof -
  have "answered dec key s = answered dec key s1" by (simp add: answered_def same fun_eq_iff)
  with wt_register_inv [OF inv reg] have r: "wt_inv (answered dec key s1) (tbl s1)"
    "i < length (wt_chans (tbl s1))" "wt_chans (tbl s1) ! i = (k, Pending)"
    by auto
  from steps [OF run r(1)] have s2: "wt_inv (answered dec key s2) (tbl s2)" "i < length (wt_chans (tbl s2))"
    "fst (wt_chans (tbl s2) ! i) = k"
    using r(2,3) by (auto simp: wt_le_def)
  then have "(k, Delivered v) \<in> set (wt_chans (tbl s2))"
    using got by (metis nth_mem prod.collapse wt_status_def)
  then show ?thesis using s2(1) by (auto simp: wt_inv_def answered_def)
qed

end

definition is_check_ack :: "message_codec \<Rightarrow> frame \<Rightarrow> check_result \<Rightarrow> bool" where
  "is_check_ack mc f v \<longleftrightarrow> frame_type f = FCheckAck \<and> codec_decode (md_check_result mc) (payload f) = Inr v"

definition is_upload_ack :: "message_codec \<Rightarrow> frame \<Rightarrow> upload_ack \<Rightarrow> bool" where
  "is_upload_ack mc f v \<longleftrightarrow> frame_type f = FUploadAck \<and> codec_decode (md_upload_ack mc) (payload f) = Inr v"

definition is_commit_ack :: "message_codec \<Rightarrow> frame \<Rightarrow> commit_ack \<Rightarrow> bool" where
  "is_commit_ack mc f v \<longleftrightarrow> frame_type f = FCommitAck \<and> codec_decode (md_commit_ack mc) (payload f) = Inr v"

lemmas dispatch_simps = dispatch_frame_def fail_all_waiters_def Let_def is_check_ack_def is_upload_ack_def
  is_commit_ack_def

lemma dispatch_received [simp]: "hs_received (snd (dispatch_frame mc f s)) = hs_received s @ [f]"
  using send_frame_frame [of FPong "[]" "s\<lparr>hs_received := hs_received s @ [f]\<rparr>"]
  by (cases "frame_type f") (auto simp: dispatch_simps split: sum.splits)

lemma dispatch_check:
  "hs_check (snd (dispatch_frame mc f s)) \<in>
     {hs_check s, wt_drop_all (hs_check s)} \<union> {wt_resolve (cx_batch_id ack) ack (hs_check s) | ack. is_check_ack mc f ack}"
  by (cases "frame_type f") (auto simp: dispatch_simps split: sum.splits)

lemma dispatch_upload:
  "hs_upload (snd (dispatch_frame mc f s)) \<in>
     {hs_upload s, wt_drop_all (hs_upload s)} \<union> {wt_resolve (ua_stream_id ack) ack (hs_upload s) | ack. is_upload_ack mc f ack}"
  by (cases "frame_type f") (auto simp: dispatch_simps split: sum.splits)

lemma dispatch_commit:
  "hs_commit (snd (dispatch_frame mc f s)) \<in>
     {hs_commit s, wt_drop_all (hs_commit s)} \<union> {wt_resolve () ack (hs_commit s) | ack. is_commit_ack mc f ack}"
  by (cases "frame_type f") (auto simp: dispatch_simps split: sum.splits)

text \<open>A table that was resolved, dropped or left alone by a received frame stays correct.\<close>

lemma received_inv:
  assumes inv: "wt_inv (answered dec key s) t"
    and t': "t' \<in> {t, wt_drop_all t} \<union> {wt_resolve (key ack) ack t | ack. dec f ack}"
    and recv: "hs_received s' = hs_received s @ [f]"
  shows "wt_inv (answered dec key s') t' \<and> wt_le t t'"
proof -
  have inv': "wt_inv (answered dec key s') t" using inv recv by (auto simp: answered_def elim: wt_inv_mono)
  have "answered dec key s' (key ack) ack" if "dec f ack" for ack using that recv by (simp add: answered_def)
  then show ?thesis using t' inv' wt_drop_all_inv [OF inv'] wt_resolve_inv [OF inv'] by auto
qed

lemma received_unchanged [simp]:
  "hs_received (snd (send_frame ft p s)) = hs_received s"
  "hs_received (snd (send_message enc ft m s)) = hs_received s"
  "hs_received (fst (writer_put fault f sw)) = hs_received (fst sw)"
  "hs_received (fst (writer_turn fault ev (s, out))) = hs_received s"
  using send_frame_frame [of ft p s] send_message_frame [of enc ft m s]
  by (auto simp: writer_put_def split: prod.splits sum.splits) (cases ev; simp add: writer_put_def split: prod.splits sum.splits)

lemmas table_simps = check_send_def upload_open_def commit_send_def close_session_def fail_all_waiters_def Let_def

lemma answered_cong: "hs_received s' = hs_received s \<Longrightarrow> answered dec key s' = answered dec key s"
  by (simp add: answered_def fun_eq_iff)

lemma step_received:
  "session_step mc s s' \<Longrightarrow> hs_received s' = hs_received s \<or> (\<exists>f. s' = snd (dispatch_frame mc f s))"
  by (auto elim!: session_step.cases simp: table_simps split: prod.splits)

definition table_kept :: "('k, 'v) waiters \<Rightarrow> ('k, 'v) waiters \<Rightarrow> bool" where
  "table_kept t t' \<longleftrightarrow> t' \<in> {t, wt_drop_all t} \<union> range (\<lambda>k. snd (wt_register k t))"

lemma table_kept_intros [simp, intro]:
  "table_kept t t" "table_kept t (wt_drop_all t)" "table_kept t (snd (wt_register k t))"
  by (auto simp: table_kept_def)

text \<open>A table that is registered in, dropped or left alone by any other step stays correct.\<close>

lemma unreceived_inv:
  assumes inv: "wt_inv (answered dec key s) t" and "table_kept t t'"
    and recv: "hs_received s' = hs_received s"
  shows "wt_inv (answered dec key s') t' \<and> wt_le t t'"
  using assms(2) inv wt_drop_all_inv [OF inv] wt_register_inv [OF inv] answered_cong [OF recv, of dec key]
  by (auto simp: table_kept_def prod_eq_iff)

lemma step_tables:
  assumes "session_step mc s s'" and "\<nexists>f. s' = snd (dispatch_frame mc f s)"
  shows "table_kept (hs_check s) (hs_check s') \<and> table_kept (hs_upload s) (hs_upload s') \<and>
    table_kept (hs_commit s) (hs_commit s')"
  using assms(1)
proof cases
  case (step_receive f)
  then show ?thesis using assms(2) by blast
qed (auto simp: table_simps case_prod_beta)

interpretation check_channel: reply_channel mc hs_check cx_batch_id "is_check_ack mc" for mc
proof unfold_locales
  fix s s' assume st: "session_step mc s s'" and inv: "wt_inv (answered (is_check_ack mc) cx_batch_id s) (hs_check s)"
  show "wt_inv (answered (is_check_ack mc) cx_batch_id s') (hs_check s') \<and> wt_le (hs_check s) (hs_check s')"
  proof (cases "\<exists>f. s' = snd (dispatch_frame mc f s)")
    case True
    then show ?thesis using received_inv [OF inv dispatch_check dispatch_received] by auto
  next
    case False
    then show ?thesis using step_tables [OF st] unreceived_inv [OF inv] step_received [OF st] by metis
  qed
qed (simp add: new_session_def)

interpretation upload_channel: reply_channel mc hs_upload ua_stream_id "is_upload_ack mc" for mc
proof unfold_locales
  fix s s' assume st: "session_step mc s s'" and inv: "wt_inv (answered (is_upload_ack mc) ua_stream_id s) (hs_upload s)"
  show "wt_inv (answered (is_upload_ack mc) ua_stream_id s') (hs_upload s') \<and> wt_le (hs_upload s) (hs_upload s')"
  proof (cases "\<exists>f. s' = snd (dispatch_frame mc f s)")
    case True
    then show ?thesis using received_inv [OF inv dispatch_upload dispatch_received] by auto
  next
    case False
    then show ?thesis using step_tables [OF st] unreceived_inv [OF inv] step_received [OF st] by metis
  qed
qed (simp add: new_session_def)

interpretation commit_channel: reply_channel mc hs_commit "\<lambda>_. ()" "is_commit_ack mc" for mc
proof unfold_locales
  fix s s' assume st: "session_step mc s s'" and inv: "wt_inv (answered (is_commit_ack mc) (\<lambda>_. ()) s) (hs_commit s)"
  show "wt_inv (answered (is_commit_ack mc) (\<lambda>_. ()) s') (hs_commit s') \<and> wt_le (hs_commit s) (hs_commit s')"
  proof (cases "\<exists>f. s' = snd (dispatch_frame mc f s)")
    case True
    then show ?thesis using received_inv [OF inv dispatch_commit dispatch_received] by auto
  next
    case False
    then show ?thesis using step_tables [OF st] unreceived_inv [OF inv] step_received [OF st] by metis
  qed
qed (simp add: new_session_def)

section \<open>Lemmas: what is sent\<close>

lemma send_frame_Inr:
  "send_frame ft p s = (Inr u, s') \<longleftrightarrow>
     hs_writer_tx s \<and> hs_writer_alive s \<and> s' = s\<lparr>hs_log := hs_log s @ [\<lparr>frame_type = ft, payload = p\<rparr>]\<rparr>"
  by (auto simp: send_frame_def)

lemma send_frame_grows: "prefix (hs_log s) (hs_log (snd (send_frame ft p s)))"
  by (simp add: send_frame_def)

lemma send_message_grows: "l = hs_log s \<Longrightarrow> prefix l (hs_log (snd (send_message enc ft m s)))"
  using send_frame_grows by (auto simp: send_message_def split: sum.splits)

lemma step_log: "session_step mc s s' \<Longrightarrow> prefix (hs_log s) (hs_log s')"
proof (induction rule: session_step.induct)
  case (step_receive s f)
  show ?case
    using send_frame_grows [of "s\<lparr>hs_received := hs_received s @ [f]\<rparr>" FPong "[]"]
    by (cases "frame_type f") (auto simp: dispatch_simps split: sum.splits)
next
  case (step_check s items)
  show ?case by (auto simp: table_simps case_prod_beta intro!: send_message_grows)
next
  case (step_commit s c)
  show ?case by (auto simp: table_simps case_prod_beta intro!: send_message_grows)
qed (auto simp: table_simps send_frame_grows split: prod.splits)

lemma steps_log: "(session_step mc)\<^sup>*\<^sup>* s s' \<Longrightarrow> prefix (hs_log s) (hs_log s')"
  by (induction rule: rtranclp_induct) (auto dest: step_log intro: prefix_order.trans)

definition chunk_frame :: "u32 \<Rightarrow> bytes \<Rightarrow> frame" where
  "chunk_frame sid b = \<lparr>frame_type = FUploadChunk, payload = to_be_bytes sid @ b\<rparr>"

text \<open>A loop that ends without an error has sent every read as one chunk.\<close>

lemma send_chunks_log:
  assumes "send_chunks others sid n reads sent s = (Inr sent', s')"
    and "\<forall>n s. prefix (hs_log s) (hs_log (others n s))"
  shows "\<exists>bs l. sent' = sent @ concat bs \<and> prefix (map Inr bs) reads \<and> hs_log s' = hs_log s @ l \<and>
    subseq (map (chunk_frame sid) bs) l"
  using assms
proof (induction others sid n reads sent s rule: send_chunks.induct)
  case (1 others sid n sent s)
  then show ?case by (intro exI [of _ "[]"]) auto
next
  case (3 others sid n b reads sent s)
  show ?case
  proof (cases "b = []")
    case True
    then show ?thesis using "3.prems" by (intro exI [of _ "[]"]) auto
  next
    case False
    then obtain s1 where s1: "send_frame FUploadChunk (to_be_bytes sid @ b) s = (Inr (), s1)"
      "send_chunks others sid (n + 1) reads (sent @ b) (others n s1) = (Inr sent', s')"
      using "3.prems" by (auto simp: st_bind_Inr)
    obtain l0 where l0: "hs_log (others n s1) = hs_log s @ [chunk_frame sid b] @ l0"
    proof -
      obtain zs where "hs_log (others n s1) = hs_log s1 @ zs"
        using "3.prems"(2) by (auto simp: prefix_def)
      moreover have "hs_log s1 = hs_log s @ [chunk_frame sid b]"
        using s1(1) by (simp add: send_frame_Inr chunk_frame_def)
      ultimately show thesis using that by simp
    qed
    obtain bs l where IH: "sent' = (sent @ b) @ concat bs" "prefix (map Inr bs) reads"
      "hs_log s' = hs_log (others n s1) @ l" "subseq (map (chunk_frame sid) bs) l"
      using "3.IH" [OF False s1(2)] "3.prems"(2) by blast
    show ?thesis
    proof (intro exI conjI)
      show "sent' = sent @ concat (b # bs)" "prefix (map Inr (b # bs)) (Inr b # reads)" using IH by simp_all
      show "hs_log s' = hs_log s @ (chunk_frame sid b # l0 @ l)" using IH(3) l0 by simp
      show "subseq (map (chunk_frame sid) (b # bs)) (chunk_frame sid b # l0 @ l)"
        using IH(4) by (simp add: list_emb_append2)
    qed
  qed
qed simp

lemma codec_decode_Inr [simp]: "codec_decode dec b = Inr v \<longleftrightarrow> dec b = Inr v"
  by (auto simp: codec_decode_def split: sum.splits)

lemma await_Inr [simp]: "await t d r = Inr v \<longleftrightarrow> r = Delivered v"
  by (auto simp: await_def split: reply.splits)

lemma send_message_Inr:
  "send_message enc ft m s = (Inr u, s') \<longleftrightarrow>
     (\<exists>p. enc m = Inr p \<and> hs_writer_tx s \<and> hs_writer_alive s \<and>
       s' = s\<lparr>hs_log := hs_log s @ [\<lparr>frame_type = ft, payload = p\<rparr>]\<rparr>)"
  by (auto simp: send_message_def codec_encode_def send_frame_Inr split: sum.splits)

lemma check_send_Inr:
  assumes "check_send mc items s = (Inr i, s1)"
  shows "wt_register (hs_batch_id s) (hs_check s) = (i, hs_check s1)" and "hs_received s1 = hs_received s"
  using assms by (auto simp: check_send_def st_bind_Inr send_message_Inr split: prod.splits)

lemma validate_upload_ack_Inr: "validate_upload_ack ack = Inr ack' \<Longrightarrow> ack' = ack"
  by (auto simp: validate_upload_ack_def Let_def split: if_splits)

lemma send_chunks_steps:
  assumes "send_chunks others sid n reads sent s = (r, s')" and "\<forall>n s. (session_step mc)\<^sup>*\<^sup>* s (others n s)"
  shows "(session_step mc)\<^sup>*\<^sup>* s s'"
  using assms
proof (induction others sid n reads sent s rule: send_chunks.induct)
  case (3 others sid n b reads sent s)
  have send: "session_step mc s (snd (send_frame FUploadChunk (to_be_bytes sid @ b) s))" by (rule step_send)
  show ?case
  proof (cases "send_frame FUploadChunk (to_be_bytes sid @ b) s")
    case (Pair rs s1)
    show ?thesis
    proof (cases "b = [] \<or> (\<exists>e. rs = Inl e)")
      case True
      then have "s' = s \<or> s' = s1" using "3.prems"(1) Pair by (auto split: if_splits)
      then show ?thesis using send Pair by auto
    next
      case False
      then have "send_chunks others sid (n + 1) reads (sent @ b) (others n s1) = (r, s')"
        using "3.prems"(1) Pair by (cases rs) auto
      then have "(session_step mc)\<^sup>*\<^sup>* (others n s1) s'" using "3.IH" False "3.prems"(2) by blast
      moreover have "(session_step mc)\<^sup>*\<^sup>* s1 (others n s1)" using "3.prems"(2) by blast
      ultimately show ?thesis using send Pair by (auto intro: converse_rtranclp_into_rtranclp rtranclp_trans)
    qed
  qed
qed auto

text \<open>The two ways an upload succeeds.\<close>

lemma upload_body_Inr:
  assumes "upload_body mc sha others opening reads i s1 = (Inr ack, s')"
  obtains p s2 where "mc_upload_begin mc opening = Inr p"
    "send_message (mc_upload_begin mc) FUploadBegin opening s1 = (Inr (), s2)"
    "wt_status i (hs_upload (others 0 s2)) = Delivered ack" "s' = others 0 s2"
  | p s2 sent s4 q s5 where "mc_upload_begin mc opening = Inr p"
    "send_message (mc_upload_begin mc) FUploadBegin opening s1 = (Inr (), s2)"
    "send_chunks others (ub_stream_id opening) 1 reads [] (others 0 s2) = (Inr sent, s4)"
    "length sent = ub_size opening"
    "mc_upload_end mc \<lparr>ue_stream_id = ub_stream_id opening, ue_total_bytes = length sent, ue_sha256 = sha sent\<rparr> = Inr q"
    "send_message (mc_upload_end mc) FUploadEnd
       \<lparr>ue_stream_id = ub_stream_id opening, ue_total_bytes = length sent, ue_sha256 = sha sent\<rparr> s4 = (Inr (), s5)"
    "s' = others (length reads + 1) s5" "wt_status i (hs_upload s') = Delivered ack"
proof -
  obtain s2 where s2: "send_message (mc_upload_begin mc) FUploadBegin opening s1 = (Inr (), s2)"
    using assms by (auto simp: upload_body_def st_bind_Inr)
  then obtain p where p: "mc_upload_begin mc opening = Inr p" by (auto simp: send_message_Inr)
  show thesis
  proof (cases "wt_status i (hs_upload (others 0 s2))")
    case (Delivered ack')
    then have "validate_upload_ack ack' = Inr ack" "s' = others 0 s2"
      using assms s2 by (simp_all add: upload_body_def Let_def)
    then show thesis using that(1) [OF p s2] Delivered validate_upload_ack_Inr by metis
  next
    case Pending
    let ?e = "\<lambda>sent. \<lparr>ue_stream_id = ub_stream_id opening, ue_total_bytes = length sent, ue_sha256 = sha sent\<rparr>"
    obtain sent s4 s5 where c: "send_chunks others (ub_stream_id opening) 1 reads [] (others 0 s2) = (Inr sent, s4)"
      "length sent = ub_size opening" "send_message (mc_upload_end mc) FUploadEnd (?e sent) s4 = (Inr (), s5)"
      "s' = others (length reads + 1) s5"
      "(case await (hk_request_timeout (hs_config s')) ''upload reply dropped'' (wt_status i (hs_upload s')) of
          Inl e \<Rightarrow> Inl e | Inr ack \<Rightarrow> validate_upload_ack ack) = Inr ack"
      using assms s2 Pending by (auto simp: upload_body_def Let_def st_bind_Inr split: if_splits)
    have "wt_status i (hs_upload s') = Delivered ack"
      using c(5) by (cases "wt_status i (hs_upload s')") (auto simp: await_def dest: validate_upload_ack_Inr)
    moreover obtain q where "mc_upload_end mc (?e sent) = Inr q"
      using c(3) by (auto simp: send_message_Inr)
    ultimately show thesis using that(2) [OF p s2 c(1,2) _ c(3,4)] by blast
  qed (use assms s2 in \<open>simp add: upload_body_def Let_def\<close>)
qed

lemma send_message_steps: "send_message enc ft m s = (Inr u, s') \<Longrightarrow> session_step mc s s'"
  using step_send [of mc s ft] by (auto simp: send_message_Inr send_frame_def)

lemma upload_body_run:
  assumes body: "upload_body mc sha others opening reads i s1 = (Inr ack, s')"
    and others: "\<forall>n s. (session_step mc)\<^sup>*\<^sup>* s (others n s)"
  shows "(session_step mc)\<^sup>*\<^sup>* s1 s' \<and> wt_status i (hs_upload s') = Delivered ack"
  using body
proof (cases rule: upload_body_Inr)
  case (1 p s2)
  then show ?thesis
    using others send_message_steps by (metis converse_rtranclp_into_rtranclp)
next
  case (2 p s2 sent s4 q s5)
  have "session_step mc s1 s2" by (rule send_message_steps [OF 2(2)])
  moreover have "(session_step mc)\<^sup>*\<^sup>* s2 (others 0 s2)" using others by blast
  moreover have "(session_step mc)\<^sup>*\<^sup>* (others 0 s2) s4" by (rule send_chunks_steps [OF 2(3) others])
  moreover have "(session_step mc)\<^sup>*\<^sup>* s4 s5" using send_message_steps [OF 2(6)] by blast
  moreover have "(session_step mc)\<^sup>*\<^sup>* s5 s'" using others 2(7) by blast
  ultimately show ?thesis using 2(8) by (meson converse_rtranclp_into_rtranclp rtranclp_trans)
qed

lemma upload_body_sent:
  assumes body: "upload_body mc sha others opening reads i s1 = (Inr ack, s')"
    and others: "\<forall>n s. (session_step mc)\<^sup>*\<^sup>* s (others n s)"
  shows "wt_status i (hs_upload (others 0 (snd (send_message (mc_upload_begin mc) FUploadBegin opening s1)))) = Delivered ack \<or>
    (\<exists>p q bs l. mc_upload_begin mc opening = Inr p \<and> prefix (map Inr bs) reads \<and>
       length (concat bs) = ub_size opening \<and>
       mc_upload_end mc \<lparr>ue_stream_id = ub_stream_id opening, ue_total_bytes = ub_size opening,
         ue_sha256 = sha (concat bs)\<rparr> = Inr q \<and>
       hs_log s' = hs_log s1 @ l \<and>
       subseq (\<lparr>frame_type = FUploadBegin, payload = p\<rparr> # map (chunk_frame (ub_stream_id opening)) bs @
               [\<lparr>frame_type = FUploadEnd, payload = q\<rparr>]) l)"
  using body
proof (cases rule: upload_body_Inr)
  case (1 p s2)
  then show ?thesis by simp
next
  case (2 p s2 sent s4 q s5)
  have grow: "\<forall>n s. prefix (hs_log s) (hs_log (others n s))" using others steps_log by blast
  obtain l1 where l1: "hs_log (others 0 s2) = hs_log s1 @ [\<lparr>frame_type = FUploadBegin, payload = p\<rparr>] @ l1"
    using grow [rule_format, of s2 0] 2(1,2) by (auto simp: send_message_Inr prefix_def)
  obtain bs l2 where l2: "sent = concat bs" "prefix (map Inr bs) reads" "hs_log s4 = hs_log (others 0 s2) @ l2"
    "subseq (map (chunk_frame (ub_stream_id opening)) bs) l2"
    using send_chunks_log [OF 2(3) grow] by auto
  obtain l3 where l3: "hs_log s' = hs_log s4 @ [\<lparr>frame_type = FUploadEnd, payload = q\<rparr>] @ l3"
    using grow [rule_format, of s5 "length reads + 1"] 2(5,6,7) by (auto simp: send_message_Inr prefix_def)
  let ?cs = "map (chunk_frame (ub_stream_id opening)) bs" and ?fin = "\<lparr>frame_type = FUploadEnd, payload = q\<rparr>"
  have "subseq (?cs @ [?fin]) (l2 @ ?fin # l3)" using l2(4) by (intro list_emb_append_mono) auto
  then have sub: "subseq (?cs @ [?fin]) (l1 @ l2 @ ?fin # l3)" by (rule list_emb_append2)
  show ?thesis
  proof (intro disjI2 exI conjI)
    show "hs_log s' = hs_log s1 @ (\<lparr>frame_type = FUploadBegin, payload = p\<rparr> # l1 @ l2 @
        \<lparr>frame_type = FUploadEnd, payload = q\<rparr> # l3)"
      using l1 l2(3) l3 by simp
    show "subseq (\<lparr>frame_type = FUploadBegin, payload = p\<rparr> # ?cs @ [?fin])
        (\<lparr>frame_type = FUploadBegin, payload = p\<rparr> # l1 @ l2 @ ?fin # l3)"
      using sub by simp
  qed (use 2 l2 in simp_all)
qed

section \<open>Properties\<close>

text \<open>The answer a CHECK request returns is one the server sent for exactly this request: it was
  received in a frame of the right type whose batch id is the request's, however many requests are in
  flight and whatever the other tasks do meanwhile.\<close>

theorem check_answer_is_own:
  assumes reach: "(session_step mc)\<^sup>*\<^sup>* (new_session config ack0) s"
    and others: "\<forall>s. (session_step mc)\<^sup>*\<^sup>* s (others s)"
    and "items \<noteq> []" and ok: "check_batch_request mc others items s = (Inr results, s')"
  shows "\<exists>f\<in>set (hs_received s'). \<exists>ack. frame_type f = FCheckAck \<and> md_check_result mc (payload f) = Inr ack \<and>
    cx_batch_id ack = hs_batch_id s \<and> results = cx_results ack"
proof -
  obtain i s1 where s1: "check_send mc items s = (Inr i, s1)" "s' = others s1"
    and got: "(case await (hk_request_timeout (hs_config s')) ''check_batch reply dropped''
        (wt_status i (hs_check s')) of Inl e \<Rightarrow> Inl e | Inr ack \<Rightarrow> Inr (cx_results ack)) = (Inr results :: hip_error + _)"
    using ok \<open>items \<noteq> []\<close> by (auto simp: check_batch_request_def st_bind_Inr Let_def)
  obtain ack where ack: "wt_status i (hs_check s') = Delivered ack" "results = cx_results ack"
    using got by (cases "wt_status i (hs_check s')") (simp_all add: await_def)
  have run: "(session_step mc)\<^sup>*\<^sup>* s1 s'" using others s1(2) by simp
  from check_channel.reply_matches [OF check_channel.reachable [OF reach] check_send_Inr [OF s1(1)] run ack(1)] ack(2)
  show ?thesis by (auto simp: is_check_ack_def)
qed

definition demo_check_ack :: check_result where
  "demo_check_ack = \<lparr>cx_batch_id = 1, cx_results = [\<lparr>ca_path = ''a'', ca_action = Skip, ca_placement = None\<rparr>]\<rparr>"

definition demo_mc :: message_codec where
  "demo_mc = \<lparr>mc_hello = (\<lambda>_. Inr [1]), mc_check_batch = (\<lambda>_. Inr [2]), mc_upload_begin = (\<lambda>_. Inr [3]),
     mc_upload_end = (\<lambda>_. Inr [4]), mc_commit = (\<lambda>_. Inr [5]),
     md_hello_ack = (\<lambda>_. Inr \<lparr>ha_session_id = [], ha_server_version = [], ha_max_frame = 100,
       ha_max_in_flight_uploads = 0, ha_sha256_required = False, ha_known_version = False\<rparr>),
     md_check_result = (\<lambda>_. Inr demo_check_ack),
     md_upload_ack = (\<lambda>_. Inr \<lparr>ua_stream_id = 1, ua_status = ''OK'', ua_placement = None, ua_server_sha256 = None,
       ua_storage_key = None, ua_message = None\<rparr>),
     md_commit_ack = (\<lambda>_. Inr \<lparr>cm_version_id = 1, cm_override_index_rebuilt = False\<rparr>),
     md_error = (\<lambda>_. Inr \<lparr>ep_code = ''E'', ep_message = ''m'', ep_fatal = False\<rparr>),
     md_window = (\<lambda>_. Inr \<lparr>wu_max_in_flight_uploads = 1\<rparr>)\<rparr>"

definition demo_hello_ack :: hello_ack where
  "demo_hello_ack = \<lparr>ha_session_id = [], ha_server_version = [], ha_max_frame = 100,
     ha_max_in_flight_uploads = 0, ha_sha256_required = False, ha_known_version = False\<rparr>"

abbreviation demo_hip_session :: session where
  "demo_hip_session \<equiv> new_session (default_hip_client_config ''0'') demo_hello_ack"

definition demo_receive :: "frame_type \<Rightarrow> session \<Rightarrow> session" where
  "demo_receive ft s = snd (dispatch_frame demo_mc \<lparr>frame_type = ft, payload = []\<rparr> s)"

lemma demo_receive_steps: "(session_step demo_mc)\<^sup>*\<^sup>* s (demo_receive ft s)"
  unfolding demo_receive_def by (intro r_into_rtranclp step_receive)

theorem check_answer_is_own_witness:
  "\<exists>s'. check_batch_request demo_mc (demo_receive FCheckAck)
      [\<lparr>ci_path = ''a'', ci_fingerprint = ''1'', ci_size = 1, ci_provider = ''jp''\<rparr>] demo_hip_session =
      (Inr (cx_results demo_check_ack), s') \<and> (\<exists>f\<in>set (hs_received s'). frame_type f = FCheckAck)"
proof -
  let ?items = "[\<lparr>ci_path = ''a'', ci_fingerprint = ''1'', ci_size = 1, ci_provider = ''jp''\<rparr>]"
  obtain s' where r: "check_batch_request demo_mc (demo_receive FCheckAck) ?items demo_hip_session =
      (Inr (cx_results demo_check_ack), s')"
    by (simp add: check_batch_request_def check_send_def send_message_def send_frame_def codec_encode_def
        wt_register_def new_session_def no_waiters_def demo_receive_def dispatch_frame_def codec_decode_def
        wt_resolve_def set_chan_def wt_status_def demo_mc_def demo_check_ack_def await_def Let_def)
  from check_answer_is_own [OF rtranclp.rtrancl_refl _ _ r] demo_receive_steps r show ?thesis by blast
qed

text \<open>An upload that succeeds was acknowledged by the server for its own stream. Unless that
  acknowledgement came before the first chunk, the frames handed to the writer contain, in this order,
  the UPLOAD_BEGIN with the declared size, the chunks with the stream id, whose contents together are
  exactly as long as declared, and the UPLOAD_END with that length and the digest of these contents.\<close>

theorem upload_sends_declared_contents:
  assumes reach: "(session_step mc)\<^sup>*\<^sup>* (new_session config ack0) s" and "0 < hs_permits s"
    and others: "\<forall>n s. (session_step mc)\<^sup>*\<^sup>* s (others n s)"
    and ok: "upload_stream mc sha others bundle_path asset_path fingerprint sz reads s = (Inr ack, s')"
    and op: "opening = opening_for s bundle_path asset_path fingerprint sz"
  shows "\<exists>f\<in>set (hs_received s'). frame_type f = FUploadAck \<and> md_upload_ack mc (payload f) = Inr ack \<and>
    ua_stream_id ack = hs_stream_id s \<and>
    (wt_status (fst (upload_open s)) (hs_upload (others 0
       (snd (send_message (mc_upload_begin mc) FUploadBegin opening (snd (upload_open s)))))) = Delivered ack \<or>
     (\<exists>p q bs l. mc_upload_begin mc opening = Inr p \<and> prefix (map Inr bs) reads \<and> length (concat bs) = sz \<and>
        mc_upload_end mc \<lparr>ue_stream_id = hs_stream_id s, ue_total_bytes = sz, ue_sha256 = sha (concat bs)\<rparr> = Inr q \<and>
        hs_log s' = hs_log s @ l \<and>
        subseq (\<lparr>frame_type = FUploadBegin, payload = p\<rparr> # map (chunk_frame (hs_stream_id s)) bs @
                [\<lparr>frame_type = FUploadEnd, payload = q\<rparr>]) l))"
proof -
  obtain i s1 where open_s: "upload_open s = (i, s1)" by fastforce
  then have reg: "wt_register (hs_stream_id s) (hs_upload s) = (i, hs_upload s1)"
    and s1: "hs_received s1 = hs_received s" "hs_log s1 = hs_log s"
    by (auto simp: upload_open_def split: prod.splits)
  obtain s0 where body: "upload_body mc sha others opening reads i s1 = (Inr ack, s0)"
    and s': "s' = s0\<lparr>hs_permits := hs_permits s0 + 1\<rparr>"
    using ok by (auto simp: upload_stream_def open_s op Let_def split: prod.splits)
  have sid: "ub_stream_id opening = hs_stream_id s" "ub_size opening = sz" by (simp_all add: op opening_for_def)
  have run: "(session_step mc)\<^sup>*\<^sup>* s1 s0" "wt_status i (hs_upload s0) = Delivered ack"
    using upload_body_run [OF body others] by auto
  from upload_channel.reply_matches [OF upload_channel.reachable [OF reach] reg s1(1) run]
  have "ua_stream_id ack = hs_stream_id s \<and> (\<exists>f\<in>set (hs_received s'). is_upload_ack mc f ack)" by (simp add: s')
  then show ?thesis
    using upload_body_sent [OF body others] unfolding sid by (auto simp: is_upload_ack_def open_s s' s1(2))
qed

lemma demo_upload_run:
  "\<exists>s' ack. upload_stream demo_mc (\<lambda>_. ''d'') (\<lambda>n. if n = 2 then demo_receive FUploadAck else (\<lambda>s. s)) ''b'' ''a'' ''f'' 2
     [Inr [7, 8]] demo_hip_session = (Inr ack, s') \<and> length (hs_log s') = 3"
  by (simp add: upload_stream_def upload_open_def upload_body_def opening_for_def send_message_def send_frame_def
      codec_encode_def wt_register_def new_session_def no_waiters_def demo_receive_def dispatch_frame_def
      codec_decode_def wt_resolve_def set_chan_def wt_status_def demo_mc_def await_def validate_upload_ack_def Let_def)

theorem upload_sends_declared_contents_witness:
  "\<exists>s' ack f. upload_stream demo_mc (\<lambda>_. ''d'') (\<lambda>n. if n = 2 then demo_receive FUploadAck else (\<lambda>s. s)) ''b'' ''a'' ''f'' 2
     [Inr [7, 8]] demo_hip_session = (Inr ack, s') \<and> f \<in> set (hs_received s') \<and> frame_type f = FUploadAck \<and>
     ua_stream_id ack = 1"
proof -
  let ?others = "\<lambda>n. if n = (2::nat) then demo_receive FUploadAck else (\<lambda>s. s)"
  obtain s' ack where r: "upload_stream demo_mc (\<lambda>_. ''d'') ?others ''b'' ''a'' ''f'' 2 [Inr [7, 8]] demo_hip_session =
      (Inr ack, s')"
    using demo_upload_run by blast
  have p: "0 < hs_permits demo_hip_session" and sid: "hs_stream_id demo_hip_session = 1" by (simp_all add: new_session_def)
  have o: "\<forall>n s. (session_step demo_mc)\<^sup>*\<^sup>* s (?others n s)" using demo_receive_steps by simp
  from upload_sends_declared_contents [OF rtranclp.rtrancl_refl p o r refl] r sid show ?thesis by metis
qed

lemma reader_loop_steps:
  "\<exists>s1. (session_step mc)\<^sup>*\<^sup>* s s1 \<and> reader_loop mc input s = (fail_all_waiters s1)\<lparr>hs_reader_alive := False\<rparr>"
proof (induction mc input s rule: reader_loop.induct)
  case (1 mc input s)
  obtain rf rest where rf: "read_frame input (hk_max_frame_bytes (hs_config s)) = (rf, rest)" by fastforce
  show ?case
  proof (cases rf)
    case (Inl e)
    then show ?thesis by (subst reader_loop.simps) (auto simp: rf)
  next
    case (Inr f)
    obtain rd s' where rd: "dispatch_frame mc f s = (rd, s')" by fastforce
    have st: "session_step mc s s'" using step_receive [of mc s f] by (simp add: rd)
    show ?thesis
    proof (cases rd)
      case (Inl e)
      then show ?thesis using st Inr by (subst reader_loop.simps) (auto simp: rf rd)
    next
      case (Inr u)
      then have "\<exists>s1. (session_step mc)\<^sup>*\<^sup>* s' s1 \<and>
          reader_loop mc rest s' = (fail_all_waiters s1)\<lparr>hs_reader_alive := False\<rparr>"
        using "1.IH" rf rd \<open>rf = Inr f\<close> by simp
      moreover have "reader_loop mc input s = reader_loop mc rest s'"
        using Inr \<open>rf = Inr f\<close> by (subst reader_loop.simps) (simp add: rf rd)
      ultimately show ?thesis using st by (metis converse_rtranclp_into_rtranclp)
    qed
  qed
qed

lemma drop_all_length [simp]: "length (wt_chans (wt_drop_all t)) = length (wt_chans t)"
  by (simp add: wt_drop_all_def)

text \<open>When the reader task ends, because the connection closed, a frame could not be read, or the
  server sent a fatal error, no request is left waiting: each has its answer or learns that the session
  is over.\<close>

theorem reader_exit_releases_everyone:
  assumes "(session_step mc)\<^sup>*\<^sup>* (new_session config ack) s" and "s' = reader_loop mc input s"
  shows "\<not> hs_reader_alive s' \<and>
    (\<forall>i<length (wt_chans (hs_check s')). wt_status i (hs_check s') \<noteq> Pending) \<and>
    (\<forall>i<length (wt_chans (hs_upload s')). wt_status i (hs_upload s') \<noteq> Pending) \<and>
    (\<forall>i<length (wt_chans (hs_commit s')). wt_status i (hs_commit s') \<noteq> Pending)"
proof -
  obtain s1 where s1: "(session_step mc)\<^sup>*\<^sup>* s s1" "s' = (fail_all_waiters s1)\<lparr>hs_reader_alive := False\<rparr>"
    using reader_loop_steps assms(2) by metis
  have reach: "(session_step mc)\<^sup>*\<^sup>* (new_session config ack) s1" using assms(1) s1(1) by (rule rtranclp_trans)
  show ?thesis
    using wt_drop_all_settled [OF check_channel.reachable [OF reach]]
      wt_drop_all_settled [OF upload_channel.reachable [OF reach]]
      wt_drop_all_settled [OF commit_channel.reachable [OF reach]]
    by (simp add: s1(2) fail_all_waiters_def)
qed

theorem reader_exit_releases_everyone_witness:
  "\<not> hs_reader_alive (reader_loop demo_mc [] (snd (commit_send demo_mc
       \<lparr>co_bundle_count = 0, co_stats = default_commit_stats, co_completed_bundles = []\<rparr> demo_hip_session))) \<and>
   wt_status 0 (hs_commit (reader_loop demo_mc [] (snd (commit_send demo_mc
       \<lparr>co_bundle_count = 0, co_stats = default_commit_stats, co_completed_bundles = []\<rparr> demo_hip_session)))) \<noteq> Pending"
proof -
  let ?s = "snd (commit_send demo_mc \<lparr>co_bundle_count = 0, co_stats = default_commit_stats,
      co_completed_bundles = []\<rparr> demo_hip_session)"
  have reach: "(session_step demo_mc)\<^sup>*\<^sup>* demo_hip_session ?s" by (intro r_into_rtranclp step_commit)
  have "length (wt_chans (hs_commit (reader_loop demo_mc [] ?s))) = 1"
    by (subst reader_loop.simps) (simp add: read_frame_def read_exact_def commit_send_def wt_register_def
        send_message_def send_frame_def codec_encode_def demo_mc_def new_session_def no_waiters_def
        fail_all_waiters_def Let_def)
  with reader_exit_releases_everyone [OF reach refl, of "[]"] show ?thesis by simp
qed

text \<open>A handshake that succeeds has sent exactly one HELLO within the configured limit, and the
  session it yields never exceeds the frame size of either side and has room for at least one
  upload.\<close>

theorem handshake_negotiates_limits:
  assumes "start_session mc config params fault late input = (Inr (s, rest), sent)"
  shows "hk_max_frame_bytes (hs_config s) = min (ha_max_frame (hs_hello_ack s)) (hk_max_frame_bytes config) \<and>
    1 \<le> hs_permits s \<and> hs_permits s = max (ha_max_in_flight_uploads (hs_hello_ack s)) 1 \<and>
    (\<exists>p. mc_hello mc (hello_for config params) = Inr p \<and>
       encode \<lparr>frame_type = FHello, payload = p\<rparr> (hk_max_frame_bytes config) = Inr sent) \<and>
    (\<exists>f. read_frame input (hk_max_frame_bytes config) = (Inr f, rest) \<and> frame_type f = FHelloAck \<and>
       md_hello_ack mc (payload f) = Inr (hs_hello_ack s))"
proof -
  obtain p f ack where r: "mc_hello mc (hello_for config params) = Inr p"
    "write_frame fault [] \<lparr>frame_type = FHello, payload = p\<rparr> (hk_max_frame_bytes config) = (Inr (), sent)"
    "read_frame input (hk_max_frame_bytes config) = (Inr f, rest)" "frame_type f = FHelloAck"
    "md_hello_ack mc (payload f) = Inr ack" "s = new_session config ack"
    using assms
    by (auto simp: start_session_def codec_encode_def codec_decode_def
        split: sum.splits prod.splits if_splits frame_type.splits)
  then show ?thesis by (auto simp: new_session_def write_frame_def split: sum.splits option.splits)
qed

theorem handshake_negotiates_limits_witness:
  "\<exists>s sent. start_session demo_mc (default_hip_client_config ''0'')
      \<lparr>hl_region = [], hl_app_version = [], hl_asset_version = [], hl_asset_hash = [], hl_run_id = []\<rparr>
      (\<lambda>_. None) False [0, 0, 0, 1, 2, 9] = (Inr (s, [9]), sent) \<and> hk_max_frame_bytes (hs_config s) \<le> 100 \<and> 1 \<le> hs_permits s"
proof -
  let ?p = "\<lparr>hl_region = [], hl_app_version = [], hl_asset_version = [], hl_asset_hash = [], hl_run_id = []\<rparr>"
  obtain s sent where r: "start_session demo_mc (default_hip_client_config ''0'') ?p (\<lambda>_. None) False [0, 0, 0, 1, 2, 9] =
      (Inr (s, [9]), sent)" "hs_hello_ack s = demo_hello_ack"
    by (simp add: start_session_def codec_encode_def codec_decode_def demo_mc_def write_frame_def encode_def
        read_frame_def read_exact_def from_be_bytes.simps from_u8_def default_hip_client_config_def
        MAX_DEFAULT_FRAME_BYTES_def new_session_def demo_hello_ack_def Let_def)
  from handshake_negotiates_limits [OF r(1)] r show ?thesis by (simp add: demo_hello_ack_def)
qed

text \<open>The chunk size is not adapted to the negotiated limit: a chunk that does not fit ends the
  writer task without a byte written, and every later frame of the session is refused.\<close>

theorem oversized_chunk_ends_writer:
  assumes "hs_writer_alive s" and "hs_written s < length (hs_log s)"
    and "hs_log s ! hs_written s = chunk_frame sid b" and "hk_max_frame_bytes (hs_config s) < length b + 5"
  shows "\<exists>s'. writer_turn fault WriterFrame (s, out) = (s', out) \<and> \<not> hs_writer_alive s' \<and>
    (\<forall>ev fault'. writer_turn fault' ev (s', out) = (s', out)) \<and>
    (\<forall>ft p. \<exists>why. send_frame ft p s' = (Inl (HipSessionClosed why), s'))"
proof -
  have "encode (chunk_frame sid b) (hk_max_frame_bytes (hs_config s)) =
      Inl (FrameTooLarge (length b + 5) (hk_max_frame_bytes (hs_config s)))"
    using assms(4) by (simp add: encode_def chunk_frame_def Let_def)
  then have turn: "writer_turn fault WriterFrame (s, out) =
      (s\<lparr>hs_written := hs_written s + 1, hs_writer_alive := False\<rparr>, out)"
    using assms(1-3) by (simp add: writer_put_def write_frame_def)
  have dead: "\<not> hs_writer_alive s' \<Longrightarrow> writer_turn fault' ev (s', out) = (s', out)" for s' fault' ev
    by (cases ev) simp_all
  show ?thesis unfolding turn by (intro exI conjI) (auto simp: dead send_frame_def)
qed

theorem oversized_chunk_ends_writer_witness:
  "\<exists>s'. writer_turn (\<lambda>_. None) WriterFrame
      (demo_hip_session\<lparr>hs_log := [chunk_frame 1 (replicate 100 0)]\<rparr>, []) = (s', []) \<and> \<not> hs_writer_alive s'"
proof -
  let ?s = "demo_hip_session\<lparr>hs_log := [chunk_frame 1 (replicate 100 0)]\<rparr>"
  have "hs_writer_alive ?s" "hs_written ?s < length (hs_log ?s)"
    "hs_log ?s ! hs_written ?s = chunk_frame 1 (replicate 100 0)"
    "hk_max_frame_bytes (hs_config ?s) < length (replicate 100 (0 :: byte)) + 5"
    by (simp_all add: new_session_def demo_hello_ack_def default_hip_client_config_def MAX_DEFAULT_FRAME_BYTES_def)
  from oversized_chunk_ends_writer [OF this, of "\<lambda>_. None" "[]"] show ?thesis by blast
qed

text \<open>An ERROR frame fails every request in flight, also when it is not fatal; only the session goes
  on.\<close>

theorem error_frame_fails_every_request:
  assumes "(session_step mc)\<^sup>*\<^sup>* (new_session config ack) s" and "frame_type f = FError"
    and "md_error mc (payload f) = Inr ep"
  shows "\<exists>s'. dispatch_frame mc f s =
      (if ep_fatal ep then Inl (HipServer (ep_code ep) (ep_message ep) True) else Inr (), s') \<and>
    (\<forall>k i. map_of (wt_map (hs_check s)) k = Some i \<longrightarrow> wt_status i (hs_check s') = Dropped) \<and>
    (\<forall>k i. map_of (wt_map (hs_upload s)) k = Some i \<longrightarrow> wt_status i (hs_upload s') = Dropped) \<and>
    (\<forall>k i. map_of (wt_map (hs_commit s)) k = Some i \<longrightarrow> wt_status i (hs_commit s') = Dropped) \<and>
    hs_writer_tx s' = hs_writer_tx s \<and> hs_reader_alive s' = hs_reader_alive s"
proof -
  let ?s' = "fail_all_waiters (s\<lparr>hs_received := hs_received s @ [f]\<rparr>)"
  have "dispatch_frame mc f s =
      (if ep_fatal ep then Inl (HipServer (ep_code ep) (ep_message ep) True) else Inr (), ?s')"
    using assms(2,3) by (simp add: dispatch_frame_def codec_decode_def Let_def)
  then show ?thesis
    using wt_drop_all_status [OF check_channel.reachable [OF assms(1)]]
      wt_drop_all_status [OF upload_channel.reachable [OF assms(1)]]
      wt_drop_all_status [OF commit_channel.reachable [OF assms(1)]]
    by (intro exI [of _ ?s']) (simp add: fail_all_waiters_def)
qed

theorem error_frame_fails_every_request_witness:
  "\<exists>s'. dispatch_frame demo_mc \<lparr>frame_type = FError, payload = []\<rparr>
      (snd (upload_open demo_hip_session)) = (Inr (), s') \<and> wt_status 0 (hs_upload s') = Dropped"
proof -
  let ?s = "snd (upload_open demo_hip_session)"
  have p: "0 < hs_permits demo_hip_session" by (simp add: new_session_def)
  have reach: "(session_step demo_mc)\<^sup>*\<^sup>* demo_hip_session ?s" by (intro r_into_rtranclp step_upload p)
  have slot: "map_of (wt_map (hs_upload ?s)) 1 = Some 0"
    by (simp add: upload_open_def wt_register_def new_session_def no_waiters_def)
  have "md_error demo_mc (payload \<lparr>frame_type = FError, payload = []\<rparr>) =
      Inr \<lparr>ep_code = ''E'', ep_message = ''m'', ep_fatal = False\<rparr>"
    by (simp add: demo_mc_def)
  from error_frame_fails_every_request [OF reach _ this] slot show ?thesis by auto
qed

end
