(* ===== verification/Asset_Types.thy ===== *)
theory Asset_Types
  imports Config_Types File_System "HOL-Library.Sublist"
begin

text \<open>
  The data the asset pipeline passes around: the error enums of \<^verbatim>\<open>src/core/errors.rs\<close> that the
  pipeline returns, the request and summary of \<^verbatim>\<open>src/core/models.rs\<close>, and the types at the head of
  \<^verbatim>\<open>src/core/asset_execution.rs\<close>. An error of a foreign library is represented by its text; where
  the sources build a message with \<^verbatim>\<open>format!\<close> around such an error, the model keeps the literal
  part of the message.
\<close>

section \<open>Errors\<close>

datatype region_error = RegionNotFound string | RegionDisabled string

datatype download_record_error =
    RecordRead string io_kind
  | RecordParse string string
  | RecordCreateParent string io_kind
  | RecordWrite string io_kind
  | RecordSerialize string string
  | RecordStorageRead string string string
  | RecordStorageWrite string string string

datatype asset_execution_error =
    RegionErr region_error
  | DownloadRecordErr download_record_error
  | ExportPipelineErr string
  | GitSyncErr string
  | Http string
  | HttpClient string
  | BlockingTask string
  | HttpStatus string nat
  | MissingAssetSaveDir string
  | MissingAssetVersionOrHash string
  | MissingProfileHash string string
  | MissingCryptoConfig string
  | InvalidAesKeyHex string
  | InvalidAesIvHex string
  | InvalidAesIvLength nat
  | EmptyEncryptedContent
  | InvalidEncryptedBlockSize
  | AssetInfoDecode string
  | CreateTempDir string io_kind
  | WriteTempFile string io_kind
  | InvalidRawBundlePath string string
  | CreateRawBundleDir string io_kind
  | WriteRawBundle string io_kind
  | CreateHaruki3dStagingDir string io_kind
  | WriteHaruki3dStagingBundle string io_kind
  | RemoveHaruki3dStagingDir string io_kind
  | Haruki3dExporterSpawn string io_kind
  | Haruki3dExporterFailed string string string
  | ReadTempFile string io_kind
  | Cancelled

section \<open>Requests, phases and summaries\<close>

datatype asset_update_mode = Update | PrefetchRawBundles

record asset_update_request =
  rq_region :: string
  rq_asset_version :: "string option"
  rq_asset_hash :: "string option"
  rq_dry_run :: bool
  rq_mode :: asset_update_mode

datatype job_phase =
  PhAccepted | PhPlanning | PhFetchingAssetInfo | PhPlanningDownloads | PhDownloadingBundles |
  PhPersistingState | PhSyncingChartHashes | PhCancelled | PhCompleted | PhFailed

record execution_summary =
  es_discovered_bundles :: nat
  es_queued_downloads :: nat
  es_completed_downloads :: nat
  es_failed_downloads :: nat
  es_updated_record_entries :: nat
  es_chart_hash_sync_performed :: bool

record url_preview =
  uv_provider_kind :: string
  uv_asset_info_url :: "string option"
  uv_asset_version_lookup_url :: "string option"
  uv_asset_bundle_url_template :: string
  uv_notes :: "string list"

section \<open>Bundle lists\<close>

datatype asset_category = StartApp | OnDemand | Other string

text \<open>The derived deserialiser: \<open>None\<close> is a null value.\<close>

definition decode_category :: "string option \<Rightarrow> asset_category" where
  "decode_category v =
     (let raw = unwrap_or [] v in
      if raw = ''StartApp'' \<or> raw = ''startApp'' then StartApp
      else if raw = ''OnDemand'' \<or> raw = ''onDemand'' then OnDemand
      else Other raw)"

text \<open>\<^verbatim>\<open>de_null_as_empty_string\<close>.\<close>

definition de_null_as_empty_string :: "string option \<Rightarrow> string" where
  "de_null_as_empty_string v = unwrap_or [] v"

record asset_bundle_detail =
  bd_bundle_name :: string
  bd_cache_file_name :: string
  bd_cache_directory_name :: string
  bd_hash :: string
  bd_category :: asset_category
  bd_crc :: int
  bd_file_size :: int
  bd_dependencies :: "string list"
  bd_paths :: "string list"
  bd_is_builtin :: bool
  bd_is_relocate :: "bool option"
  bd_md5_hash :: "string option"
  bd_download_path :: "string option"

record asset_bundle_info =
  bi_version :: "string option"
  bi_os :: "string option"
  bi_bundles :: "(string, asset_bundle_detail) hmap"

text \<open>A \<^verbatim>\<open>HashMap\<close> has no duplicate key; the order of the list is the iteration order, about which
  nothing is known.\<close>

definition info_wf :: "asset_bundle_info \<Rightarrow> bool" where
  "info_wf info = hmap_wf (bi_bundles info)"

definition info_get :: "asset_bundle_info \<Rightarrow> string \<Rightarrow> asset_bundle_detail option" where
  "info_get info = map_of (bi_bundles info)"

record current_version_info =
  cv_app_version :: "string option"
  cv_app_hash :: "string option"
  cv_asset_version :: "string option"
  cv_asset_hash :: "string option"

definition app_version_or_default :: "current_version_info \<Rightarrow> string" where
  "app_version_or_default v = unwrap_or [] (cv_app_version v)"

definition app_hash_or_default :: "current_version_info \<Rightarrow> string" where
  "app_hash_or_default v = unwrap_or [] (cv_app_hash v)"

definition asset_version_or_default :: "current_version_info \<Rightarrow> string" where
  "asset_version_or_default v = unwrap_or [] (cv_asset_version v)"

definition asset_hash_or_default :: "current_version_info \<Rightarrow> string" where
  "asset_hash_or_default v = unwrap_or [] (cv_asset_hash v)"

record game_version_info =
  gv_profile :: "string option"
  gv_assetbundle_host_hash :: "string option"
  gv_domain :: "string option"

record download_task =
  dt_download_path :: string
  dt_bundle_path :: string
  dt_bundle_hash :: string
  dt_category :: asset_category
  dt_file_size :: int
  dt_priority :: nat

type_synonym download_record = "(string, string) btmap"

section \<open>Filters between planning and downloading\<close>

text \<open>\<^verbatim>\<open>PreDownloadTaskFilter\<close>: an operation on the task list that may fail and may act on a state
  of its own. The contract of every implementation: what it keeps is a sublist, in the order
  planned.\<close>

type_synonym 's task_filter_op =
  "download_task list \<Rightarrow> 's \<Rightarrow> (asset_execution_error + download_task list) \<times> 's"

definition noop_filter :: "'s task_filter_op" where
  "noop_filter tasks s = (Inr tasks, s)"

locale task_filter =
  fixes flt :: "'s task_filter_op"
  assumes kept: "flt tasks s = (Inr out, s') \<Longrightarrow> subseq out tasks"
begin

lemma out_nths: "flt tasks s = (Inr out, s') \<Longrightarrow> \<exists>N. out = nths tasks N"
  using kept subseq_conv_nths by blast

lemma out_subset: "flt tasks s = (Inr out, s') \<Longrightarrow> set out \<subseteq> set tasks"
  by (metis out_nths set_nths_subset)

lemma out_length: "flt tasks s = (Inr out, s') \<Longrightarrow> length out \<le> length tasks"
  by (metis kept list_emb_length)

lemma out_distinct:
  "flt tasks s = (Inr out, s') \<Longrightarrow> distinct (map f tasks) \<Longrightarrow> distinct (map f out)"
  by (metis distinct_nthsI nths_map out_nths)

lemma out_sorted:
  "flt tasks s = (Inr out, s') \<Longrightarrow> sorted (map k tasks) \<Longrightarrow> sorted (map (k :: _ \<Rightarrow> 'k::linorder) out)"
  by (metis nths_map out_nths sorted_nths)

end

interpretation noop: task_filter noop_filter
  by unfold_locales (simp add: noop_filter_def)

end
