(* ===== verification/Unix_Path.thy ===== *)
theory Unix_Path
  imports Haruki_Prelude
begin

text \<open>
  The part of \<^verbatim>\<open>std::path\<close> (Unix rules) the sources use. A path is a byte string; its meaning is
  its list of components: empty pieces and inner dots are skipped, a leading dot is kept.
\<close>

section \<open>Components\<close>

datatype component = RootDir | CurDir | ParentDir | Normal string

definition skipped :: "string \<Rightarrow> bool" where
  "skipped s \<longleftrightarrow> s = '''' \<or> s = ''.''"

definition piece :: "string \<Rightarrow> component" where
  "piece s = (if s = ''..'' then ParentDir else Normal s)"

definition inner_components :: "string list \<Rightarrow> component list" where
  "inner_components ps = map piece (filter (\<lambda>s. \<not> skipped s) ps)"

definition first_components :: "string \<Rightarrow> component list" where
  "first_components s =
     (if s = '''' then [RootDir] else if s = ''.'' then [CurDir] else [piece s])"

definition components :: "string \<Rightarrow> component list" where
  "components p =
     (if p = '''' then []
      else let ps = split_char CHR ''/'' p in first_components (hd ps) @ inner_components (tl ps))"

definition is_absolute :: "string \<Rightarrow> bool" where
  "is_absolute p = starts_with ''/'' p"

section \<open>Operations\<close>

definition path_push :: "string \<Rightarrow> string \<Rightarrow> string" where
  "path_push p q =
     (if is_absolute q then q
      else if p = '''' \<or> last p = CHR ''/'' then p @ q
      else p @ ''/'' @ q)"

abbreviation path_join :: "string \<Rightarrow> string \<Rightarrow> string" where
  "path_join \<equiv> path_push"

definition trim_pieces :: "string list \<Rightarrow> string list" where
  "trim_pieces ps = rev (dropWhile skipped (rev ps))"

text \<open>\<^verbatim>\<open>Path::parent\<close>: the prefix of the path in front of its last component, \<open>None\<close> for the root
  and the empty path.\<close>

definition parent :: "string \<Rightarrow> string option" where
  "parent p =
     (let ps = split_char CHR ''/'' p; rest = trim_pieces (tl ps) in
      if p = '''' then None
      else if rest = [] then (if hd ps = '''' then None else Some '''')
      else let up = trim_pieces (butlast rest) in
           Some (if hd ps = '''' \<and> up = [] then ''/'' else join_with ''/'' (hd ps # up)))"

definition file_name :: "string \<Rightarrow> string option" where
  "file_name p =
     (if components p = [] then None
      else case last (components p) of Normal s \<Rightarrow> Some s | _ \<Rightarrow> None)"

text \<open>Stem and extension of a file name: the last dot separates them unless it is the first
  character.\<close>

definition split_at_dot :: "string \<Rightarrow> string \<times> string option" where
  "split_at_dot f =
     (case rsplit_once CHR ''.'' f of
        None \<Rightarrow> (f, None)
      | Some (before, after) \<Rightarrow> if before = '''' then (f, None) else (before, Some after))"

definition extension :: "string \<Rightarrow> string option" where
  "extension p = (case file_name p of None \<Rightarrow> None | Some f \<Rightarrow> snd (split_at_dot f))"

definition trimmed :: "string \<Rightarrow> string" where
  "trimmed p = (let ps = split_char CHR ''/'' p in join_with ''/'' (hd ps # trim_pieces (tl ps)))"

definition set_extension :: "string \<Rightarrow> string \<Rightarrow> string" where
  "set_extension p ext =
     (case file_name p of
        None \<Rightarrow> p
      | Some f \<Rightarrow>
          take (length (trimmed p) - length f) (trimmed p) @ fst (split_at_dot f) @
          (if ext = '''' then '''' else ''.'' @ ext))"

abbreviation with_extension :: "string \<Rightarrow> string \<Rightarrow> string" where
  "with_extension \<equiv> set_extension"

text \<open>\<^verbatim>\<open>Path::starts_with\<close> and \<^verbatim>\<open>Path::strip_prefix\<close> compare whole components.\<close>

definition path_starts_with :: "string \<Rightarrow> string \<Rightarrow> bool" where
  "path_starts_with p base = starts_with (components base) (components p)"

definition path_strip_prefix :: "string \<Rightarrow> string \<Rightarrow> component list option" where
  "path_strip_prefix p base = strip_prefix (components base) (components p)"

fun drop_components :: "nat \<Rightarrow> string list \<Rightarrow> string list" where
  "drop_components 0 ps = ps"
| "drop_components (Suc n) [] = []"
| "drop_components (Suc n) (p # ps) =
     (if skipped p then drop_components (Suc n) ps else drop_components n ps)"

text \<open>\<^verbatim>\<open>Path::strip_prefix\<close> as text: what follows the prefix, without leading and trailing empty
  and dot pieces.\<close>

definition path_strip_prefix_text :: "string \<Rightarrow> string \<Rightarrow> string option" where
  "path_strip_prefix_text p base =
     (if \<not> path_starts_with p base then None
      else case length (components base) of
             0 \<Rightarrow> Some (trimmed p)
           | Suc n \<Rightarrow>
               Some (join_with ''/'' (dropWhile skipped (trim_pieces
                 (drop_components n (tl (split_char CHR ''/'' p)))))))"

section \<open>Lemmas\<close>

lemma join_with_snoc: "xs \<noteq> [] \<Longrightarrow> join_with d (xs @ [x]) = join_with d xs @ d @ x"
proof (induction xs)
  case (Cons y ys)
  then show ?case by (cases ys) auto
qed simp

lemma split_char_app: "split_char d (a @ d # b) = split_char d a @ split_char d b"
proof (induction a)
  case Nil
  then show ?case by simp
next
  case (Cons c a)
  then show ?case by (cases "split_char d a") auto
qed

lemma split_char_hd_Nil: "hd (split_char d p) = [] \<longleftrightarrow> p = [] \<or> hd p = d"
  by (cases p) auto

lemma inner_append [simp]: "inner_components (a @ b) = inner_components a @ inner_components b"
  by (simp add: inner_components_def)

lemma inner_skipped [simp]: "skipped s \<Longrightarrow> inner_components (s # ps) = inner_components ps"
  by (simp add: inner_components_def)

lemma inner_Nil [simp]: "inner_components [] = []"
  by (simp add: inner_components_def)

lemma filter_dropWhile_not: "filter (\<lambda>x. \<not> P x) (dropWhile P xs) = filter (\<lambda>x. \<not> P x) xs"
  by (induction xs) auto

lemma inner_trim [simp]: "inner_components (trim_pieces ps) = inner_components ps"
proof -
  have "filter (\<lambda>s. \<not> skipped s) (rev (dropWhile skipped (rev ps))) =
      rev (filter (\<lambda>s. \<not> skipped s) (rev ps))"
    by (simp only: rev_filter [symmetric] filter_dropWhile_not)
  also have "\<dots> = filter (\<lambda>s. \<not> skipped s) ps" by (simp only: rev_filter rev_rev_ident)
  finally show ?thesis by (simp add: inner_components_def trim_pieces_def)
qed

lemma trim_pieces_last: "trim_pieces ps \<noteq> [] \<Longrightarrow> \<not> skipped (last (trim_pieces ps))"
  using hd_dropWhile [of skipped "rev ps"]
  by (auto simp: trim_pieces_def last_rev dropWhile_eq_Nil_conv)

lemma set_trim_pieces: "set (trim_pieces ps) \<subseteq> set ps"
  by (auto simp: trim_pieces_def dest: set_dropWhileD)

text \<open>A file or directory name: one piece that is neither empty nor a dot or two.\<close>

definition plain_name :: "string \<Rightarrow> bool" where
  "plain_name s \<longleftrightarrow> s \<noteq> '''' \<and> s \<noteq> ''.'' \<and> s \<noteq> ''..'' \<and> CHR ''/'' \<notin> set s"

lemma plain_name_inner [simp]: "plain_name s \<Longrightarrow> inner_components [s] = [Normal s]"
  by (simp add: plain_name_def inner_components_def skipped_def piece_def)

lemma plain_name_relative [simp]: "plain_name s \<Longrightarrow> \<not> is_absolute s"
  by (cases s) (auto simp: plain_name_def is_absolute_def starts_with_def)

lemma components_plain [simp]: "plain_name s \<Longrightarrow> components s = [Normal s]"
  by (simp add: components_def plain_name_def split_char_absent first_components_def piece_def)

lemma components_sep:
  "p \<noteq> '''' \<Longrightarrow> components (p @ ''/'' @ q) = components p @ inner_components (split_char CHR ''/'' q)"
  by (simp add: components_def split_char_app Let_def hd_append)

lemma components_root: "components (''/'' @ q) = RootDir # inner_components (split_char CHR ''/'' q)"
  by (simp add: components_def first_components_def)

lemma components_push [simp]:
  assumes "plain_name s"
  shows "components (path_push p s) = components p @ [Normal s]"
proof -
  have sp: "split_char CHR ''/'' s = [s]" using assms by (simp add: plain_name_def split_char_absent)
  consider "p = ''''" | "p \<noteq> ''''" "last p = CHR ''/''" | "p \<noteq> ''''" "last p \<noteq> CHR ''/''" by blast
  then show ?thesis
  proof cases
    case 1
    then show ?thesis using assms by (simp add: path_push_def) (simp add: components_def)
  next
    case 2
    then obtain p' where p': "p = p' @ ''/''" by (metis append_butlast_last_id)
    show ?thesis
    proof (cases "p' = ''''")
      case True
      then show ?thesis
        using assms sp components_root [of s] components_root [of "''''"]
        by (simp add: path_push_def p' skipped_def)
    next
      case False
      then show ?thesis
        using assms sp components_sep [of p' s] components_sep [of p' "''''"]
        by (simp add: path_push_def p' skipped_def)
    qed
  next
    case 3
    then show ?thesis using assms sp components_sep [of p s] by (simp add: path_push_def)
  qed
qed

lemma file_name_push [simp]: "plain_name s \<Longrightarrow> file_name (path_push p s) = Some s"
  by (simp add: file_name_def)

lemma foldl_push_components:
  "list_all plain_name xs \<Longrightarrow> components (foldl path_push p xs) = components p @ map Normal xs"
  by (induction xs arbitrary: p) simp_all

lemma components_trim:
  "p \<noteq> '''' \<Longrightarrow> components p = first_components (hd (split_char CHR ''/'' p)) @
     inner_components (trim_pieces (tl (split_char CHR ''/'' p)))"
  by (simp add: components_def Let_def)

lemma components_join:
  assumes "\<forall>x\<in>set (h # r). CHR ''/'' \<notin> set x" and "h \<noteq> '''' \<or> r \<noteq> []"
  shows "components (join_with ''/'' (h # r)) = first_components h @ inner_components r"
proof -
  have "split_char CHR ''/'' (join_with ''/'' (h # r)) = h # r"
    using assms(1) by (intro split_join_char) auto
  moreover have "join_with ''/'' (h # r) \<noteq> ''''" using assms(2) by (cases r) auto
  ultimately show ?thesis by (simp add: components_def)
qed

lemma components_dir_part:
  assumes "\<forall>x\<in>set (h # r). CHR ''/'' \<notin> set x" and g: "plain_name g"
  shows "components (join_with ''/'' (h # r) @ ''/'' @ g) =
    (first_components h @ inner_components r) @ [Normal g]"
proof -
  have sg: "split_char CHR ''/'' g = [g]" using g by (simp add: plain_name_def split_char_absent)
  show ?thesis
  proof (cases "h = '''' \<and> r = []")
    case True
    then show ?thesis using components_root [of g] g sg by (simp add: first_components_def)
  next
    case False
    have c: "components (join_with ''/'' (h # r)) = first_components h @ inner_components r"
      using assms(1) False by (intro components_join) auto
    have "join_with ''/'' (h # r) \<noteq> ''''" using False by (cases r) auto
    then show ?thesis using components_sep [of "join_with ''/'' (h # r)" g] g sg c by simp
  qed
qed

text \<open>A path with a file name is a directory part, possibly empty or the root, and the name.\<close>

lemma file_name_shape:
  assumes "file_name p = Some f"
  shows "\<exists>pre. trimmed p = pre @ f \<and> f \<noteq> '''' \<and> f \<noteq> ''.'' \<and> f \<noteq> ''..'' \<and> CHR ''/'' \<notin> set f \<and>
    (\<forall>g. plain_name g \<longrightarrow> components (pre @ g) = butlast (components p) @ [Normal g])"
proof -
  define ps where "ps = split_char CHR ''/'' p"
  define h where "h = hd ps"
  define rest where "rest = trim_pieces (tl ps)"
  have p: "p \<noteq> ''''" using assms by (auto simp: file_name_def components_def)
  have comps: "components p = first_components h @ inner_components rest"
    using components_trim [OF p] by (simp add: h_def rest_def ps_def)
  have tr: "trimmed p = join_with ''/'' (h # rest)"
    by (simp only: trimmed_def Let_def h_def rest_def ps_def)
  have ne: "ps \<noteq> []" by (simp add: ps_def)
  have "CHR ''/'' \<notin> set x" if "x \<in> set ps" for x
    using that unfolding ps_def by (rule split_char_no_sep)
  moreover have "set (h # rest) \<subseteq> set ps"
    using ne set_trim_pieces [of "tl ps"] by (auto simp: h_def rest_def dest: list.set_sel)
  ultimately have nosep: "\<forall>x\<in>set (h # rest). CHR ''/'' \<notin> set x" by blast
  show ?thesis
  proof (cases "rest = []")
    case True
    then have "h = f" and "f \<noteq> ''..''" and "h \<noteq> ''''" and "h \<noteq> ''.''"
      using assms
      by (auto simp: file_name_def comps first_components_def piece_def split: if_splits)
    then show ?thesis
      using True nosep by (intro exI [of _ "''''"]) (simp add: tr comps first_components_def)
  next
    case False
    then obtain r x where rx: "rest = r @ [x]" by (metis append_butlast_last_id)
    have sk: "\<not> skipped x" using trim_pieces_last [of "tl ps"] False by (simp add: rest_def [symmetric] rx)
    have x: "x = f" "f \<noteq> ''..''"
      using assms sk
      by (auto simp: file_name_def comps rx inner_components_def piece_def split: if_splits)
    have join: "join_with ''/'' (h # rest) = join_with ''/'' (h # r) @ ''/'' @ x"
      using join_with_snoc [of "h # r" "''/''" x] by (simp add: rx)
    have bl: "butlast (components p) = first_components h @ inner_components r"
      using sk by (simp add: comps rx inner_components_def butlast_append)
    have "components (join_with ''/'' (h # r) @ ''/'' @ g) = butlast (components p) @ [Normal g]"
      if g: "plain_name g" for g
      unfolding bl by (rule components_dir_part [OF _ g]) (use nosep rx in auto)
    then show ?thesis
      using x sk nosep rx join
      by (intro exI [of _ "join_with ''/'' (h # r) @ ''/''"]) (auto simp: tr skipped_def)
  qed
qed

lemma split_at_dot_stem:
  "f \<noteq> '''' \<Longrightarrow> fst (split_at_dot f) \<noteq> '''' \<and> set (fst (split_at_dot f)) \<subseteq> set f"
  by (auto simp: split_at_dot_def rsplit_once_Some split: option.splits)

lemma set_extension_components:
  assumes "file_name p = Some f" and "ext \<noteq> ''''" and "CHR ''/'' \<notin> set ext"
  shows "components (set_extension p ext) =
    butlast (components p) @ [Normal (fst (split_at_dot f) @ ''.'' @ ext)]"
proof -
  obtain pre where pre: "trimmed p = pre @ f" "f \<noteq> ''''" "CHR ''/'' \<notin> set f"
    and comps: "\<And>g. plain_name g \<Longrightarrow> components (pre @ g) = butlast (components p) @ [Normal g]"
    using file_name_shape [OF assms(1)] by blast
  let ?g = "fst (split_at_dot f) @ ''.'' @ ext"
  have stem: "fst (split_at_dot f) \<noteq> ''''" "set (fst (split_at_dot f)) \<subseteq> set f"
    using split_at_dot_stem [OF pre(2)] by auto
  have "length ?g \<ge> 3" using stem(1) assms(2) by (cases "fst (split_at_dot f)"; cases ext) auto
  then have "?g \<noteq> ''''" "?g \<noteq> ''.''" "?g \<noteq> ''..''" by (force dest: arg_cong [of _ _ length])+
  then have "plain_name ?g" using stem pre(3) assms(3) by (auto simp: plain_name_def)
  moreover have "set_extension p ext = pre @ ?g"
    using assms(1,2) pre(1) by (simp add: set_extension_def)
  ultimately show ?thesis using comps by metis
qed

text \<open>Replacing the extension by one with a dot in it changes every path that has a file name.\<close>

lemma set_extension_dotted:
  assumes "file_name p = Some f" and "CHR ''.'' \<in> set ext" and "CHR ''/'' \<notin> set ext"
  shows "components (set_extension p ext) \<noteq> components p"
proof
  assume eq: "components (set_extension p ext) = components p"
  have "ext \<noteq> ''''" using assms(2) by auto
  from set_extension_components [OF assms(1) this assms(3)] eq
  have "last (components p) = Normal (fst (split_at_dot f) @ ''.'' @ ext)" by (metis last_snoc)
  then have f: "f = fst (split_at_dot f) @ ''.'' @ ext"
    using assms(1) by (simp add: file_name_def split: if_splits)
  then have "CHR ''.'' \<in> set f" by (metis append_Cons in_set_conv_decomp)
  then obtain a b where ab: "rsplit_once CHR ''.'' f = Some (a, b)"
    using rsplit_once_None [of "CHR ''.''" f] by fastforce
  then have fb: "f = a @ CHR ''.'' # b" "CHR ''.'' \<notin> set b" by (simp_all add: rsplit_once_Some)
  show False
  proof (cases "a = ''''")
    case True
    then have "fst (split_at_dot f) = f" by (simp add: split_at_dot_def ab)
    then show False using f by simp
  next
    case False
    then have "fst (split_at_dot f) = a" by (simp add: split_at_dot_def ab)
    then have "b = ext" using f fb(1) by simp
    then show False using fb(2) assms(2) by simp
  qed
qed

lemma parent_components:
  assumes "parent p = Some up"
  shows "components p \<noteq> []" and "components up = butlast (components p)"
proof -
  define ps where "ps = split_char CHR ''/'' p"
  define h where "h = hd ps"
  define rest where "rest = trim_pieces (tl ps)"
  have p: "p \<noteq> ''''" using assms by (auto simp: parent_def)
  have comps: "components p = first_components h @ inner_components rest"
    using components_trim [OF p] by (simp add: h_def rest_def ps_def)
  have first: "length (first_components s) = 1" for s by (simp add: first_components_def)
  then show "components p \<noteq> []" using comps by (metis append_is_Nil_conv list.size(3) zero_neq_one)
  have def: "parent p = (if rest = [] then (if h = '''' then None else Some '''')
      else let up = trim_pieces (butlast rest) in
           Some (if h = '''' \<and> up = [] then ''/'' else join_with ''/'' (h # up)))"
    using p by (simp add: parent_def Let_def h_def rest_def ps_def)
  show "components up = butlast (components p)"
  proof (cases "rest = []")
    case True
    then have "up = ''''" using assms def by (auto split: if_splits)
    moreover have "butlast (components p) = []"
      using comps True first [of h] by (cases "first_components h") auto
    ultimately show ?thesis by (simp add: components_def)
  next
    case False
    then obtain r x where rx: "rest = r @ [x]" by (metis append_butlast_last_id)
    have sk: "\<not> skipped x" using trim_pieces_last [of "tl ps"] False by (simp add: rest_def [symmetric] rx)
    have bl: "butlast (components p) = first_components h @ inner_components (trim_pieces r)"
      using sk by (simp add: comps rx inner_components_def [of "[x]"] butlast_append)
    have up: "up = (if h = '''' \<and> trim_pieces r = [] then ''/'' else join_with ''/'' (h # trim_pieces r))"
      using assms def False by (simp add: rx Let_def)
    have "CHR ''/'' \<notin> set y" if "y \<in> set ps" for y
      using that unfolding ps_def by (rule split_char_no_sep)
    moreover have "set (h # trim_pieces r) \<subseteq> set ps"
    proof -
      have "set (trim_pieces r) \<subseteq> set rest" using set_trim_pieces [of r] rx by auto
      also have "\<dots> \<subseteq> set (tl ps)" unfolding rest_def by (rule set_trim_pieces)
      finally show ?thesis by (cases ps) (auto simp: h_def ps_def)
    qed
    ultimately have nosep: "\<forall>y\<in>set (h # trim_pieces r). CHR ''/'' \<notin> set y" by blast
    show ?thesis
    proof (cases "h = '''' \<and> trim_pieces r = []")
      case True
      then show ?thesis using up bl components_root [of "''''"] by (simp add: first_components_def skipped_def)
    next
      case False
      then show ?thesis using up bl components_join [OF nosep] by auto
    qed
  qed
qed

end
