(* ===== verification/Bundle_Diff.thy ===== *)
theory Bundle_Diff
  imports Asset_Types Unix_Path
begin

text \<open>
  \<^verbatim>\<open>src/core/bundle_diff.rs\<close>: the comparison of a fresh bundle list with the last committed
  snapshot, and the snapshot file. MessagePack and zstd are the parameter \<open>codec\<close>.
\<close>

section \<open>Comparison\<close>

record changed_bundle =
  cb_bundle_name :: string
  cb_fingerprint :: string
  cb_size :: nat

record diff_stats =
  ds_added :: nat
  ds_changed :: nat
  ds_unchanged :: nat
  ds_removed :: nat

record bundle_diff =
  df_changed :: "changed_bundle list"
  df_stats :: diff_stats

definition fingerprint_for :: "asset_bundle_detail \<Rightarrow> string \<times> nat" where
  "fingerprint_for detail = (show_int (bd_crc detail), nat (max (bd_file_size detail) 0))"

definition old_fingerprints :: "asset_bundle_info option \<Rightarrow> (string, string) hmap" where
  "old_fingerprints old =
     (case old of
        None \<Rightarrow> []
      | Some info \<Rightarrow> fold (\<lambda>(name, fp). hmap_insert name fp)
          (map (\<lambda>(name, detail). (name, fst (fingerprint_for detail))) (bi_bundles info)) [])"

definition diff_step ::
    "(string, string) hmap \<Rightarrow> string \<times> asset_bundle_detail \<Rightarrow> bundle_diff \<Rightarrow> bundle_diff" where
  "diff_step old_fp entry d =
     (let name = fst entry; (fp, size) = fingerprint_for (snd entry);
          pushed = df_changed d @ [\<lparr>cb_bundle_name = name, cb_fingerprint = fp, cb_size = size\<rparr>]
      in case map_of old_fp name of
           Some prev \<Rightarrow>
             if prev = fp then d\<lparr>df_stats := (df_stats d)\<lparr>ds_unchanged := ds_unchanged (df_stats d) + 1\<rparr>\<rparr>
             else \<lparr>df_changed = pushed, df_stats = (df_stats d)\<lparr>ds_changed := ds_changed (df_stats d) + 1\<rparr>\<rparr>
         | None \<Rightarrow>
             \<lparr>df_changed = pushed, df_stats = (df_stats d)\<lparr>ds_added := ds_added (df_stats d) + 1\<rparr>\<rparr>)"

definition count_removed :: "asset_bundle_info option \<Rightarrow> asset_bundle_info \<Rightarrow> nat" where
  "count_removed old new =
     (case old of
        None \<Rightarrow> 0
      | Some info \<Rightarrow> length (filter (\<lambda>name. map_of (bi_bundles new) name = None) (map fst (bi_bundles info))))"

definition diff :: "asset_bundle_info option \<Rightarrow> asset_bundle_info \<Rightarrow> bundle_diff" where
  "diff old new =
     (let empty_stats = \<lparr>ds_added = 0, ds_changed = 0, ds_unchanged = 0, ds_removed = 0\<rparr>;
          d = fold (diff_step (old_fingerprints old)) (bi_bundles new)
                \<lparr>df_changed = [], df_stats = empty_stats\<rparr>
      in d\<lparr>df_stats := (df_stats d)\<lparr>ds_removed := count_removed old new\<rparr>\<rparr>)"

section \<open>Snapshot files\<close>

record snapshot_codec =
  sc_pack :: "asset_bundle_info \<Rightarrow> string + bytes"
  sc_unpack :: "bytes \<Rightarrow> string + asset_bundle_info"
  sc_compress :: "bytes \<Rightarrow> string + bytes"
  sc_decompress :: "bytes \<Rightarrow> string + bytes"

definition create_parent :: "string \<Rightarrow> fs \<Rightarrow> (io_kind + unit) \<times> fs" where
  "create_parent path s =
     (case parent path of None \<Rightarrow> (Inr (), s) | Some dir \<Rightarrow> fs_create_dir_all dir s)"

definition snapshot_tmp :: "string \<Rightarrow> string" where
  "snapshot_tmp path = path @ ''.tmp''"

definition save_snapshot ::
    "snapshot_codec \<Rightarrow> string \<Rightarrow> asset_bundle_info \<Rightarrow> fs \<Rightarrow> (asset_execution_error + unit) \<times> fs" where
  "save_snapshot codec path info s0 =
     st_bind (st_map_err (\<lambda>_. BlockingTask ''create last_info parent'') (create_parent path s0)) (\<lambda>_ s1.
     case sc_pack codec info of
       Inl e \<Rightarrow> (Inl (AssetInfoDecode e), s1)
     | Inr packed \<Rightarrow>
         (case sc_compress codec packed of
            Inl _ \<Rightarrow> (Inl (BlockingTask ''zstd encode''), s1)
          | Inr compressed \<Rightarrow>
              st_bind (st_map_err (\<lambda>_. BlockingTask ''write last_info tmp'')
                         (fs_write (snapshot_tmp path) compressed s1)) (\<lambda>_ s2.
              case fs_rename (snapshot_tmp path) path s2 of
                (Inr _, s3) \<Rightarrow> (Inr (), s3)
              | (Inl _, s3) \<Rightarrow>
                  (Inl (BlockingTask ''rename last_info tmp''),
                   snd (fs_remove_file (snapshot_tmp path) s3)))))"

definition load_snapshot ::
    "snapshot_codec \<Rightarrow> string \<Rightarrow> fs \<Rightarrow> (asset_execution_error + asset_bundle_info option) \<times> fs" where
  "load_snapshot codec path s0 =
     (case fs_read path s0 of
        (Inl NotFound, s) \<Rightarrow> (Inr None, s)
      | (Inl _, s) \<Rightarrow> (Inl (BlockingTask ''read last_info''), s)
      | (Inr content, s) \<Rightarrow>
          (case sc_decompress codec content of
             Inl _ \<Rightarrow> (Inl (BlockingTask ''zstd decode''), s)
           | Inr decoded \<Rightarrow>
               (case sc_unpack codec decoded of
                  Inl e \<Rightarrow> (Inl (AssetInfoDecode e), s)
                | Inr info \<Rightarrow> (Inr (Some info), s))))"

definition merge_base ::
    "string option \<Rightarrow> string option \<Rightarrow> asset_bundle_info option \<Rightarrow> asset_bundle_info" where
  "merge_base new_version new_os existing =
     (case existing of
        Some prev \<Rightarrow>
          if bi_version prev = new_version \<and> bi_os prev = new_os then prev
          else \<lparr>bi_version = new_version, bi_os = new_os, bi_bundles = []\<rparr>
      | None \<Rightarrow> \<lparr>bi_version = new_version, bi_os = new_os, bi_bundles = []\<rparr>)"

definition merge_entries ::
    "asset_bundle_info \<Rightarrow> (string \<times> asset_bundle_detail) list \<Rightarrow> asset_bundle_info" where
  "merge_entries info entries =
     info\<lparr>bi_bundles := fold (\<lambda>(name, detail). hmap_insert name detail) entries (bi_bundles info)\<rparr>"

definition merge_snapshot ::
    "snapshot_codec \<Rightarrow> string \<Rightarrow> string option \<Rightarrow> string option \<Rightarrow>
     (string \<times> asset_bundle_detail) list \<Rightarrow> fs \<Rightarrow> (asset_execution_error + unit) \<times> fs" where
  "merge_snapshot codec path new_version new_os entries s0 =
     st_bind (load_snapshot codec path s0) (\<lambda>existing s1.
       save_snapshot codec path (merge_entries (merge_base new_version new_os existing) entries) s1)"

definition snapshot_path :: "string \<Rightarrow> string \<Rightarrow> string" where
  "snapshot_path dir region = path_join dir (region @ ''.msgpack.zst'')"

section \<open>Lemmas: comparison\<close>

definition old_crc :: "asset_bundle_info option \<Rightarrow> string \<Rightarrow> int option" where
  "old_crc old name = (case old of None \<Rightarrow> None | Some info \<Rightarrow> map_option bd_crc (info_get info name))"

definition option_wf :: "asset_bundle_info option \<Rightarrow> bool" where
  "option_wf old = (case old of None \<Rightarrow> True | Some info \<Rightarrow> info_wf info)"

lemma old_fingerprints_get:
  "option_wf old \<Longrightarrow> map_of (old_fingerprints old) name = map_option show_int (old_crc old name)"
proof (cases old)
  case (Some info)
  let ?kvs = "map (\<lambda>(name, detail). (name, fst (fingerprint_for detail))) (bi_bundles info)"
  assume "option_wf old"
  then have d: "distinct (map fst ?kvs)"
    by (simp add: Some option_wf_def info_wf_def hmap_wf_def comp_def case_prod_beta)
  have "map_of (old_fingerprints old) = map_of (rev ?kvs)"
    by (simp add: old_fingerprints_def Some fold_insert_get)
  also have "\<dots> = map_of ?kvs"
    using d by (subst map_of_inject_set) (simp_all only: rev_map [symmetric] distinct_rev set_rev)
  finally show ?thesis
    by (simp add: map_of_map Some old_crc_def info_get_def fingerprint_for_def option.map_comp comp_def)
qed (simp add: old_fingerprints_def old_crc_def)

definition is_changed :: "asset_bundle_info option \<Rightarrow> string \<times> asset_bundle_detail \<Rightarrow> bool" where
  "is_changed old e \<longleftrightarrow> old_crc old (fst e) \<noteq> Some (bd_crc (snd e))"

definition changed_entry :: "string \<times> asset_bundle_detail \<Rightarrow> changed_bundle" where
  "changed_entry e = \<lparr>cb_bundle_name = fst e, cb_fingerprint = show_int (bd_crc (snd e)),
     cb_size = nat (bd_file_size (snd e))\<rparr>"

lemma diff_step_cases:
  assumes "option_wf old"
  shows "diff_step (old_fingerprints old) e d =
    (if is_changed old e
     then \<lparr>df_changed = df_changed d @ [changed_entry e],
           df_stats = (if old_crc old (fst e) = None
             then (df_stats d)\<lparr>ds_added := ds_added (df_stats d) + 1\<rparr>
             else (df_stats d)\<lparr>ds_changed := ds_changed (df_stats d) + 1\<rparr>)\<rparr>
     else d\<lparr>df_stats := (df_stats d)\<lparr>ds_unchanged := ds_unchanged (df_stats d) + 1\<rparr>\<rparr>)"
proof -
  have size: "nat (max x 0) = nat x" for x :: int by (simp add: max_def)
  show ?thesis
    by (cases "old_crc old (fst e)")
      (auto simp: diff_step_def Let_def fingerprint_for_def old_fingerprints_get [OF assms]
        is_changed_def changed_entry_def size)
qed

lemma diff_fold:
  assumes "option_wf old"
  shows "fold (diff_step (old_fingerprints old)) es d =
    \<lparr>df_changed = df_changed d @ map changed_entry (filter (is_changed old) es),
     df_stats = \<lparr>ds_added = ds_added (df_stats d) + length (filter (\<lambda>e. old_crc old (fst e) = None) es),
       ds_changed = ds_changed (df_stats d) +
         length (filter (\<lambda>e. is_changed old e \<and> old_crc old (fst e) \<noteq> None) es),
       ds_unchanged = ds_unchanged (df_stats d) + length (filter (\<lambda>e. \<not> is_changed old e) es),
       ds_removed = ds_removed (df_stats d)\<rparr>\<rparr>"
proof (induction es arbitrary: d)
  case (Cons e es)
  show ?case
    using Cons.IH by (simp add: diff_step_cases [OF assms]) (auto simp: is_changed_def)
qed simp

lemma diff_changed:
  "option_wf old \<Longrightarrow> df_changed (diff old new) = map changed_entry (filter (is_changed old) (bi_bundles new))"
  by (simp add: diff_def diff_fold)

section \<open>Lemmas: files\<close>

lemma snapshot_tmp_differs [simp]: "snapshot_tmp path \<noteq> path" "path \<noteq> snapshot_tmp path"
  by (simp_all add: snapshot_tmp_def)

lemma create_parent_files [simp]: "fs_files (snd (create_parent path s)) = fs_files s"
  by (simp add: create_parent_def split: option.splits)

lemma create_parent_eq: "create_parent path s = (r, s') \<Longrightarrow> fs_files s' = fs_files s"
  using create_parent_files by (metis snd_conv)

definition snapshot_bytes :: "snapshot_codec \<Rightarrow> asset_bundle_info \<Rightarrow> bytes option" where
  "snapshot_bytes codec info =
     (case sc_pack codec info of
        Inl _ \<Rightarrow> None
      | Inr packed \<Rightarrow> (case sc_compress codec packed of Inl _ \<Rightarrow> None | Inr z \<Rightarrow> Some z))"

text \<open>One run of \<open>save_snapshot\<close>, step by step.\<close>

lemma save_snapshot_run:
  obtains
    (early) e s1 where "save_snapshot codec path info s = (Inl e, s1)" "fs_files s1 = fs_files s"
  | (written) z s1 s2 w where "snapshot_bytes codec info = Some z" "fs_files s1 = fs_files s"
      "fs_write (snapshot_tmp path) z s1 = (w, s2)"
      "save_snapshot codec path info s =
         (case w of
            Inl _ \<Rightarrow> (Inl (BlockingTask ''write last_info tmp''), s2)
          | Inr _ \<Rightarrow>
              (case fs_rename (snapshot_tmp path) path s2 of
                 (Inr _, s3) \<Rightarrow> (Inr (), s3)
               | (Inl _, s3) \<Rightarrow> (Inl (BlockingTask ''rename last_info tmp''),
                    snd (fs_remove_file (snapshot_tmp path) s3))))"
proof -
  obtain rp s1 where cp: "create_parent path s = (rp, s1)" by fastforce
  then have f: "fs_files s1 = fs_files s" by (rule create_parent_eq)
  show thesis
  proof (cases "snapshot_bytes codec info")
    case None
    then have "\<exists>e. save_snapshot codec path info s = (Inl e, s1)"
      using cp
      by (cases rp) (auto simp: save_snapshot_def snapshot_bytes_def split: sum.splits)
    then show thesis using f early by blast
  next
    case (Some z)
    obtain w s2 where w: "fs_write (snapshot_tmp path) z s1 = (w, s2)" by fastforce
    show thesis
    proof (cases rp)
      case (Inl e)
      then show thesis using cp f by (intro early [of _ s1]) (simp_all add: save_snapshot_def)
    next
      case (Inr u)
      show thesis
        using Some f w cp Inr
        by (intro written [of z s1 w s2])
          (cases w; auto simp: save_snapshot_def snapshot_bytes_def split: sum.split_asm)+
    qed
  qed
qed

lemma save_snapshot_ok:
  assumes "save_snapshot codec path info s = (Inr u, s')"
  shows "\<exists>z. snapshot_bytes codec info = Some z \<and>
    fs_files s' = (fs_files s)(snapshot_tmp path := None, path \<mapsto> z)"
proof (cases rule: save_snapshot_run [of codec path info s])
  case (early e s1)
  then show ?thesis using assms by simp
next
  case (written z s1 s2 w)
  then obtain u' where w: "w = Inr u'" using assms by (cases w) auto
  have f2: "fs_files s2 = (fs_files s1)(snapshot_tmp path \<mapsto> z)"
    using written(3) w by (auto dest: fs_write_ok)
  have "fs_rename (snapshot_tmp path) path s2 = (Inr (), s')"
    using written(4) w assms by (auto split: prod.split_asm sum.split_asm)
  then show ?thesis using written(1,2) f2 by (auto dest!: fs_rename_ok)
qed

lemma save_snapshot_err:
  assumes "save_snapshot codec path info s = (Inl e, s')" and q: "q \<noteq> snapshot_tmp path"
  shows "fs_files s' q = fs_files s q"
proof (cases rule: save_snapshot_run [of codec path info s])
  case (early e s1)
  then show ?thesis using assms by simp
next
  case (written z s1 s2 w)
  have f2: "fs_files s2 q = fs_files s q"
    using fs_write_frame [OF q, of z s1] written(2,3) by simp
  show ?thesis
  proof (cases w)
    case (Inl k)
    then show ?thesis using assms(1) written(4) f2 by simp
  next
    case (Inr u)
    obtain r s3 where r: "fs_rename (snapshot_tmp path) path s2 = (r, s3)" by fastforce
    with Inr written(4) assms(1) obtain k where k: "r = Inl k" "s' = snd (fs_remove_file (snapshot_tmp path) s3)"
      by (cases r) auto
    then have "fs_files s3 = fs_files s2" using r by (auto dest: fs_rename_err)
    then show ?thesis using k(2) f2 fs_remove_frame [OF q] by simp
  qed
qed

interpretation snapshot_store: atomic_store "save_snapshot codec" "snapshot_bytes codec" snapshot_tmp
  for codec
proof unfold_locales
  fix path v s u s' b
  assume "save_snapshot codec path v s = (Inr u, s')" and "snapshot_bytes codec v = Some b"
  then show "fs_files s' path = Some b" by (auto dest: save_snapshot_ok)
next
  fix path v s u s'
  assume "save_snapshot codec path v s = (Inr u, s')"
  then show "snapshot_bytes codec v \<noteq> None" by (auto dest: save_snapshot_ok)
next
  fix path v s e s'
  assume "snapshot_tmp path \<noteq> path" and "save_snapshot codec path v s = (Inl e, s')"
  then show "fs_files s' path = fs_files s path" 
    using save_snapshot_err [of codec path v s e s' path] by auto
next
  fix q path v s
  assume q: "q \<noteq> path" "q \<noteq> snapshot_tmp path"
  obtain r s' where r: "save_snapshot codec path v s = (r, s')" by fastforce
  then show "fs_files (snd (save_snapshot codec path v s)) q = fs_files s q"
    using q by (cases r) (auto dest: save_snapshot_ok save_snapshot_err)
qed

text \<open>Without faults a list the codec accepts is saved.\<close>

lemma save_snapshot_no_faults:
  assumes "fs_fault s = no_faults" and "snapshot_bytes codec info = Some z"
  shows "\<exists>s'. save_snapshot codec path info s = (Inr (), s') \<and> fs_fault s' = no_faults"
proof -
  obtain s1 where s1: "create_parent path s = (Inr (), s1)" "fs_fault s1 = no_faults"
    using assms(1) by (cases "parent path") (simp_all add: create_parent_def fs_create_dir_all_def)
  obtain packed where p: "sc_pack codec info = Inr packed" "sc_compress codec packed = Inr z"
    using assms(2) by (auto simp: snapshot_bytes_def split: sum.splits)
  show ?thesis
    using s1 by (simp add: save_snapshot_def p fs_write_def fs_rename_def)
qed

section \<open>What the codec is relied on for\<close>

text \<open>A decoded map need not iterate in the order of the encoded one.\<close>

definition info_equiv :: "asset_bundle_info \<Rightarrow> asset_bundle_info \<Rightarrow> bool" where
  "info_equiv a b \<longleftrightarrow> bi_version a = bi_version b \<and> bi_os a = bi_os b \<and> info_wf a \<and> info_get a = info_get b"

text \<open>A category \<open>Other\<close> is written as a map and read as a string, so a list holding one does not
  survive; the planner never downloads such a bundle, so no snapshot holds one.\<close>

definition storable :: "asset_bundle_info \<Rightarrow> bool" where
  "storable info \<longleftrightarrow> info_wf info \<and> (\<forall>e\<in>set (bi_bundles info). bd_category (snd e) \<in> {StartApp, OnDemand})"

text \<open>MessagePack and zstd give back what was put in.\<close>

definition codec_faithful :: "snapshot_codec \<Rightarrow> bool" where
  "codec_faithful codec \<longleftrightarrow>
     (\<forall>info packed. storable info \<and> sc_pack codec info = Inr packed \<longrightarrow>
        (\<exists>info'. sc_unpack codec packed = Inr info' \<and> info_equiv info' info)) \<and>
     (\<forall>packed z. sc_compress codec packed = Inr z \<longrightarrow> sc_decompress codec z = Inr packed)"

lemma decode_snapshot_bytes:
  assumes "codec_faithful codec" "storable info" "snapshot_bytes codec info = Some z"
    and "fs_files s path = Some z" and "fs_fails (OpRead path) s = None"
  shows "\<exists>info'. load_snapshot codec path s = (Inr (Some info'), fs_tick s) \<and> info_equiv info' info"
proof -
  from assms(3) obtain packed where p: "sc_pack codec info = Inr packed" "sc_compress codec packed = Inr z"
    by (auto simp: snapshot_bytes_def split: sum.splits)
  from p assms(1) have d: "sc_decompress codec z = Inr packed" by (simp add: codec_faithful_def)
  from p assms(1,2) obtain info' where "sc_unpack codec packed = Inr info'" "info_equiv info' info"
    unfolding codec_faithful_def by blast
  with d show ?thesis using assms(4,5) by (simp add: load_snapshot_def fs_read_def)
qed

lemma merge_entries_get: "info_get (merge_entries info entries) = info_get info ++ map_of (rev entries)"
  by (simp add: info_get_def merge_entries_def fold_insert_get)

lemma merge_entries_wf: "info_wf info \<Longrightarrow> info_wf (merge_entries info entries)"
  by (simp add: info_wf_def merge_entries_def fold_insert_wf)

lemma storable_get:
  "info_wf info \<Longrightarrow> storable info \<longleftrightarrow> (\<forall>name d. info_get info name = Some d \<longrightarrow> bd_category d \<in> {StartApp, OnDemand})"
  by (auto simp: storable_def info_wf_def info_get_def hmap_get_iff) force

lemma storable_merge:
  assumes "storable info" and "\<forall>e\<in>set entries. bd_category (snd e) \<in> {StartApp, OnDemand}"
  shows "storable (merge_entries info entries)"
proof -
  have wf: "info_wf info" using assms(1) by (simp add: storable_def)
  show ?thesis
    using assms wf storable_get [OF wf]
    by (auto simp: storable_get [OF merge_entries_wf [OF wf]] merge_entries_get map_add_Some_iff
        dest!: map_of_SomeD) force+
qed

lemma empty_info_storable: "storable \<lparr>bi_version = v, bi_os = os, bi_bundles = []\<rparr>"
  by (simp add: storable_def info_wf_def hmap_wf_def)

lemma snapshot_round_trip_core:
  assumes "codec_faithful codec" and "storable info"
    and "save_snapshot codec path info s = (Inr (), s')" and "fs_fails (OpRead path) s' = None"
  shows "\<exists>info'. load_snapshot codec path s' = (Inr (Some info'), fs_tick s') \<and> info_equiv info' info"
proof -
  from save_snapshot_ok [OF assms(3)] obtain z where
    z: "snapshot_bytes codec info = Some z" "fs_files s' path = Some z" by auto
  then show ?thesis using decode_snapshot_bytes [OF assms(1,2) z assms(4)] by blast
qed

section \<open>Properties\<close>

text \<open>C22: the comparison is exact. A bundle of the fresh list is reported, once, with its checksum
  as fingerprint, exactly when the snapshot does not hold it with the same checksum; the four
  counters partition the two lists. In particular nothing that changed is missed and nothing
  unchanged is processed again.\<close>

theorem diff_exact:
  assumes "info_wf new" and "option_wf old" and "d = diff old new"
  shows "set (df_changed d) = {changed_entry (name, detail) | name detail.
       info_get new name = Some detail \<and> old_crc old name \<noteq> Some (bd_crc detail)} \<and>
    distinct (map cb_bundle_name (df_changed d)) \<and>
    length (df_changed d) = ds_added (df_stats d) + ds_changed (df_stats d) \<and>
    ds_added (df_stats d) + ds_changed (df_stats d) + ds_unchanged (df_stats d) = length (bi_bundles new) \<and>
    ds_added (df_stats d) = card {name. info_get new name \<noteq> None \<and> old_crc old name = None} \<and>
    ds_removed (df_stats d) = card {name. old_crc old name \<noteq> None \<and> info_get new name = None}"
proof (intro conjI)
  let ?es = "bi_bundles new"
  have dist: "distinct (map fst ?es)" using assms(1) by (simp add: info_wf_def hmap_wf_def)
  have getn: "info_get new name = Some detail \<longleftrightarrow> (name, detail) \<in> set ?es" for name detail
    using assms(1) by (simp add: info_get_def info_wf_def hmap_get_iff)
  have changed: "df_changed d = map changed_entry (filter (is_changed old) ?es)"
    by (simp add: assms(3) diff_changed [OF assms(2)])
  have stats: "df_stats d = \<lparr>ds_added = length (filter (\<lambda>e. old_crc old (fst e) = None) ?es),
      ds_changed = length (filter (\<lambda>e. is_changed old e \<and> old_crc old (fst e) \<noteq> None) ?es),
      ds_unchanged = length (filter (\<lambda>e. \<not> is_changed old e) ?es), ds_removed = count_removed old new\<rparr>"
    by (simp add: assms(3) diff_def diff_fold [OF assms(2)])
  show "set (df_changed d) = {changed_entry (name, detail) | name detail.
       info_get new name = Some detail \<and> old_crc old name \<noteq> Some (bd_crc detail)}"
    unfolding changed by (auto simp: getn is_changed_def) blast
  have names: "map cb_bundle_name (df_changed d) = map fst (filter (is_changed old) ?es)"
    by (simp add: changed changed_entry_def)
  show "distinct (map cb_bundle_name (df_changed d))"
    unfolding names using dist by (rule distinct_map_filter)
  have none: "old_crc old (fst e) = None \<Longrightarrow> is_changed old e" for e by (simp add: is_changed_def)
  have "length (filter (is_changed old) es) = length (filter (\<lambda>e. old_crc old (fst e) = None) es) +
      length (filter (\<lambda>e. is_changed old e \<and> old_crc old (fst e) \<noteq> None) es)" for es
    using none by (induction es) auto
  then show split: "length (df_changed d) = ds_added (df_stats d) + ds_changed (df_stats d)"
    by (simp add: changed stats)
  have "length (filter (is_changed old) ?es) + length (filter (\<lambda>e. \<not> is_changed old e) ?es) = length ?es"
    by (rule sum_length_filter_compl)
  then show "ds_added (df_stats d) + ds_changed (df_stats d) + ds_unchanged (df_stats d) = length ?es"
    using split by (simp add: changed stats)
  have len: "length (filter P xs) = card {x \<in> set xs. P x}" if "distinct xs" for P and xs :: "string list"
    using that by (metis distinct_card distinct_filter set_filter)
  have "length (filter (\<lambda>e. old_crc old (fst e) = None) ?es) =
      length (filter (\<lambda>n. old_crc old n = None) (map fst ?es))"
    by (simp add: filter_map comp_def)
  moreover have "{n \<in> set (map fst ?es). old_crc old n = None} =
      {name. info_get new name \<noteq> None \<and> old_crc old name = None}"
    by (auto simp: info_get_def map_of_eq_None_iff)
  ultimately show "ds_added (df_stats d) = card {name. info_get new name \<noteq> None \<and> old_crc old name = None}"
    using len [OF dist] by (simp add: stats)
  show "ds_removed (df_stats d) = card {name. old_crc old name \<noteq> None \<and> info_get new name = None}"
  proof (cases old)
    case (Some info)
    have "distinct (map fst (bi_bundles info))"
      using assms(2) by (simp add: Some option_wf_def info_wf_def hmap_wf_def)
    from len [OF this] show ?thesis
      by (auto simp: stats count_removed_def Some old_crc_def info_get_def map_of_eq_None_iff
          intro!: arg_cong [of _ _ card])
  qed (simp add: stats count_removed_def old_crc_def)
qed

theorem diff_exact_witness:
  "let detail = \<lparr>bd_bundle_name = [], bd_cache_file_name = [], bd_cache_directory_name = [], bd_hash = [],
        bd_category = StartApp, bd_crc = -5, bd_file_size = -1, bd_dependencies = [], bd_paths = [],
        bd_is_builtin = False, bd_is_relocate = None, bd_md5_hash = None, bd_download_path = None\<rparr>;
       new = \<lparr>bi_version = None, bi_os = None, bi_bundles = [(''a'', detail)]\<rparr>
   in info_wf new \<and> length (df_changed (diff None new)) = 1 \<and>
      length (df_changed (diff None new)) = ds_added (df_stats (diff None new)) + ds_changed (df_stats (diff None new))"
proof -
  define detail where "detail = \<lparr>bd_bundle_name = [], bd_cache_file_name = [], bd_cache_directory_name = [],
        bd_hash = [], bd_category = StartApp, bd_crc = -5, bd_file_size = -1, bd_dependencies = [], bd_paths = [],
        bd_is_builtin = False, bd_is_relocate = None, bd_md5_hash = None, bd_download_path = None\<rparr>"
  define new where "new = \<lparr>bi_version = None, bi_os = None, bi_bundles = [(''a'', detail)]\<rparr>"
  have wf: "info_wf new" by (simp add: new_def info_wf_def hmap_wf_def)
  have o: "option_wf None" by (simp add: option_wf_def)
  have "length (df_changed (diff None new)) = 1"
    by (simp add: new_def diff_changed [OF o] is_changed_def old_crc_def)
  moreover have "length (df_changed (diff None new)) =
      ds_added (df_stats (diff None new)) + ds_changed (df_stats (diff None new))"
    using diff_exact [OF wf o refl] by blast
  ultimately show ?thesis
    unfolding Let_def detail_def [symmetric] new_def [symmetric] using wf by blast
qed

text \<open>C35: a saved snapshot is read back: after a successful save and with a readable file, the load
  returns the bundle list that was saved, up to iteration order, and a comparison of that list with
  itself reports nothing to do.\<close>

theorem snapshot_round_trip:
  assumes "codec_faithful codec" and "storable info"
    and "save_snapshot codec path info s = (Inr (), s')" and "fs_fails (OpRead path) s' = None"
  shows "\<exists>info'. load_snapshot codec path s' = (Inr (Some info'), fs_tick s') \<and> info_equiv info' info \<and>
    df_changed (diff (Some info') info) = []"
proof -
  obtain info' where i: "load_snapshot codec path s' = (Inr (Some info'), fs_tick s')" "info_equiv info' info"
    using snapshot_round_trip_core [OF assms] by blast
  have wf: "option_wf (Some info')" using i(2) by (simp add: option_wf_def info_equiv_def)
  have "info_wf info" using assms(2) by (simp add: storable_def)
  then have "\<not> is_changed (Some info') e" if "e \<in> set (bi_bundles info)" for e
    using that i(2)
    by (cases e) (auto simp: is_changed_def old_crc_def info_equiv_def info_get_def info_wf_def hmap_get_iff)
  then have "df_changed (diff (Some info') info) = []" by (simp add: diff_changed [OF wf] filter_empty_conv)
  with i show ?thesis by blast
qed

definition demo_codec :: snapshot_codec where
  "demo_codec = \<lparr>sc_pack = (\<lambda>info. if bi_bundles info = [] \<and> bi_version info = None \<and> bi_os info = None
       then Inr [1] else Inl ''unsupported''),
     sc_unpack = (\<lambda>b. Inr \<lparr>bi_version = None, bi_os = None, bi_bundles = []\<rparr>),
     sc_compress = (\<lambda>b. Inr b), sc_decompress = (\<lambda>b. Inr b)\<rparr>"

lemma demo_codec_faithful: "codec_faithful demo_codec"
  by (auto simp: codec_faithful_def demo_codec_def info_equiv_def info_wf_def hmap_wf_def info_get_def
      split: if_splits)

theorem snapshot_round_trip_witness:
  "let s = \<lparr>fs_files = Map.empty, fs_clock = 0, fs_fault = no_faults\<rparr>;
       info = \<lparr>bi_version = None, bi_os = None, bi_bundles = []\<rparr> in
   \<exists>s' info'. save_snapshot demo_codec ''d/jp.msgpack.zst'' info s = (Inr (), s') \<and>
     load_snapshot demo_codec ''d/jp.msgpack.zst'' s' = (Inr (Some info'), fs_tick s')"
proof -
  let ?s = "\<lparr>fs_files = Map.empty, fs_clock = 0, fs_fault = no_faults\<rparr>"
  let ?info = "\<lparr>bi_version = None, bi_os = None, bi_bundles = []\<rparr>"
  have st: "storable ?info" by (rule empty_info_storable)
  obtain s' where s': "save_snapshot demo_codec ''d/jp.msgpack.zst'' ?info ?s = (Inr (), s')"
    "fs_fault s' = no_faults"
    using save_snapshot_no_faults [of ?s demo_codec ?info "[1]"]
    by (auto simp: snapshot_bytes_def demo_codec_def)
  have "fs_fails (OpRead ''d/jp.msgpack.zst'') s' = None" using s'(2) by simp
  from snapshot_round_trip [OF demo_codec_faithful st s'(1) this] s'(1) show ?thesis
    by (simp only: Let_def) blast
qed





end
