(* ===== verification/Watermark.thy ===== *)
theory Watermark
  imports Bundle_Diff
begin

text \<open>
  \<^verbatim>\<open>src/service/watermark.rs\<close>: the per-region record of the last committed version, kept in
  memory and in one JSON file. The JSON library is the parameter \<open>json\<close>; the mutex around the map
  makes every operation a single step on the pair of store and file system.
\<close>

section \<open>Operations\<close>

record region_watermark =
  wm_asset_version :: string
  wm_asset_hash :: string
  wm_app_version :: string
  wm_bundle_count :: nat
  wm_committed_at :: nat

type_synonym watermark_file = "(string, region_watermark) btmap"

record watermark_store =
  ws_path :: string
  ws_regions :: watermark_file

record watermark_json =
  wj_print :: "watermark_file \<Rightarrow> string + bytes"
  wj_parse :: "bytes \<Rightarrow> string + watermark_file"

definition watermark_open ::
    "watermark_json \<Rightarrow> string \<Rightarrow> fs \<Rightarrow> (asset_execution_error + watermark_store) \<times> fs" where
  "watermark_open json path s0 =
     st_bind (st_map_err (\<lambda>_. BlockingTask ''create watermark parent dir'') (create_parent path s0)) (\<lambda>_ s1.
     case fs_read path s1 of
       (Inr content, s2) \<Rightarrow>
         if content \<noteq> [] then
           (case wj_parse json content of
              Inl e \<Rightarrow> (Inl (AssetInfoDecode e), s2)
            | Inr file \<Rightarrow> (Inr \<lparr>ws_path = path, ws_regions = file\<rparr>, s2))
         else (Inr \<lparr>ws_path = path, ws_regions = []\<rparr>, s2)
     | (Inl NotFound, s2) \<Rightarrow> (Inr \<lparr>ws_path = path, ws_regions = []\<rparr>, s2)
     | (Inl _, s2) \<Rightarrow> (Inl (BlockingTask ''read watermark file''), s2))"

definition watermark_get :: "watermark_store \<Rightarrow> string \<Rightarrow> region_watermark option" where
  "watermark_get store region = map_of (ws_regions store) region"

definition watermark_tmp :: "string \<Rightarrow> string" where
  "watermark_tmp path = with_extension path ''json.tmp''"

definition write_atomic ::
    "watermark_json \<Rightarrow> string \<Rightarrow> watermark_file \<Rightarrow> fs \<Rightarrow> (asset_execution_error + unit) \<times> fs" where
  "write_atomic json path file s0 =
     (case wj_print json file of
        Inl e \<Rightarrow> (Inl (AssetInfoDecode e), s0)
      | Inr text \<Rightarrow>
          st_bind (st_map_err (\<lambda>_. BlockingTask ''write watermark tmp'')
                     (fs_write (watermark_tmp path) text s0)) (\<lambda>_ s1.
          st_map_err (\<lambda>_. BlockingTask ''rename watermark'')
            (fs_rename (watermark_tmp path) path s1)))"

definition watermark_set ::
    "watermark_json \<Rightarrow> watermark_store \<Rightarrow> string \<Rightarrow> region_watermark \<Rightarrow> fs \<Rightarrow>
     (asset_execution_error + unit) \<times> watermark_store \<times> fs" where
  "watermark_set json store region watermark s0 =
     (let store' = store\<lparr>ws_regions := bt_insert region watermark (ws_regions store)\<rparr>;
          (r, s1) = write_atomic json (ws_path store) (ws_regions store') s0
      in (r, store', s1))"

definition watermark_snapshot :: "watermark_store \<Rightarrow> watermark_file" where
  "watermark_snapshot store = ws_regions store"

section \<open>Lemmas\<close>

definition watermark_bytes :: "watermark_json \<Rightarrow> watermark_file \<Rightarrow> bytes option" where
  "watermark_bytes json file = (case wj_print json file of Inl _ \<Rightarrow> None | Inr b \<Rightarrow> Some b)"

lemma watermark_tmp_differs: "file_name path = Some f \<Longrightarrow> watermark_tmp path \<noteq> path"
  using set_extension_dotted [of path f "''json.tmp''"] by (auto simp: watermark_tmp_def)

lemma write_atomic_ok:
  assumes "write_atomic json path file s = (Inr u, s')"
  shows "\<exists>b. watermark_bytes json file = Some b \<and>
    fs_files s' = (fs_files s)(watermark_tmp path := None, path \<mapsto> b)"
  using assms
  by (auto simp: write_atomic_def watermark_bytes_def res_simps split: sum.splits
      dest!: fs_write_ok fs_rename_ok)

lemma write_atomic_err:
  assumes "write_atomic json path file s = (Inl e, s')" and "q \<noteq> watermark_tmp path"
  shows "fs_files s' q = fs_files s q"
proof -
  have w: "fs_files s2 q = fs_files s q" if "fs_write (watermark_tmp path) b s = (r, s2)" for b r s2
    using that fs_write_frame [OF assms(2)] by (metis snd_conv)
  show ?thesis
    using assms by (auto simp: write_atomic_def res_simps split: sum.splits dest!: fs_rename_err dest: w)
qed

interpretation watermark_store: atomic_store "write_atomic json" "watermark_bytes json" watermark_tmp
  for json
proof unfold_locales
  fix path v s u s' b
  assume "write_atomic json path v s = (Inr u, s')" and "watermark_bytes json v = Some b"
  then show "fs_files s' path = Some b" by (auto dest: write_atomic_ok)
next
  fix path v s u s'
  assume "write_atomic json path v s = (Inr u, s')"
  then show "watermark_bytes json v \<noteq> None" by (auto dest: write_atomic_ok)
next
  fix path v s e s'
  assume "watermark_tmp path \<noteq> path" and "write_atomic json path v s = (Inl e, s')"
  then show "fs_files s' path = fs_files s path" by (metis write_atomic_err)
next
  fix q path v s
  assume q: "q \<noteq> path" "q \<noteq> watermark_tmp path"
  obtain r s' where r: "write_atomic json path v s = (r, s')" by fastforce
  then show "fs_files (snd (write_atomic json path v s)) q = fs_files s q"
    using q by (cases r) (auto dest: write_atomic_ok write_atomic_err)
qed

text \<open>The JSON library reads back what it printed, and never prints an empty document.\<close>

definition json_faithful :: "watermark_json \<Rightarrow> bool" where
  "json_faithful json \<longleftrightarrow>
     (\<forall>file b. wj_print json file = Inr b \<longrightarrow> b \<noteq> [] \<and> wj_parse json b = Inr file)"

lemma open_reads:
  assumes "json_faithful json" "watermark_bytes json file = Some b" "fs_files s path = Some b"
    and "fs_fault s = no_faults"
  shows "\<exists>s'. watermark_open json path s = (Inr \<lparr>ws_path = path, ws_regions = file\<rparr>, s') \<and>
    fs_files s' = fs_files s"
proof -
  obtain s1 where s1: "create_parent path s = (Inr (), s1)" "fs_fault s1 = no_faults" "fs_files s1 = fs_files s"
    using assms(4) by (cases "parent path") (simp_all add: create_parent_def fs_create_dir_all_def)
  have "b \<noteq> []" "wj_parse json b = Inr file"
    using assms(1,2) by (auto simp: json_faithful_def watermark_bytes_def split: sum.splits)
  then show ?thesis
    using s1 assms(3) by (simp add: watermark_open_def fs_read_def)
qed

section \<open>Properties\<close>

text \<open>a watermark that was set survives a restart: after a successful \<open>set\<close>, opening the store
  again from the file gives the new watermark for the region and the store's own for every other
  region.\<close>

theorem watermark_survives_restart:
  assumes "json_faithful json" and "file_name (ws_path store) \<noteq> None"
    and "watermark_set json store region wm s = (Inr (), store', s')" and "fs_fault s' = no_faults"
  shows "\<exists>store'' s''. watermark_open json (ws_path store) s' = (Inr store'', s'') \<and>
    watermark_get store'' region = Some wm \<and>
    (\<forall>other. other \<noteq> region \<longrightarrow> watermark_get store'' other = watermark_get store other)"
proof -
  let ?file = "bt_insert region wm (ws_regions store)"
  have w: "write_atomic json (ws_path store) ?file s = (Inr (), s')"
    using assms(3) by (simp add: watermark_set_def split: prod.splits)
  obtain f where f: "file_name (ws_path store) = Some f" using assms(2) by blast
  obtain b where b: "watermark_bytes json ?file = Some b"
    using watermark_store.saved_enc [OF w] by blast
  have "fs_files s' (ws_path store) = Some b"
    by (rule watermark_store.saved [OF watermark_tmp_differs [OF f] w b])
  from open_reads [OF assms(1) b this assms(4)] show ?thesis
    by (auto simp: watermark_get_def)
qed

definition demo_json :: watermark_json where
  "demo_json = \<lparr>wj_print = (\<lambda>f. if map fst f = [''jp''] \<and> snd (hd f) =
       \<lparr>wm_asset_version = ''1'', wm_asset_hash = ''h'', wm_app_version = ''2'', wm_bundle_count = 3,
        wm_committed_at = 4\<rparr> then Inr [1] else Inl ''unsupported''),
     wj_parse = (\<lambda>b. Inr [(''jp'', \<lparr>wm_asset_version = ''1'', wm_asset_hash = ''h'',
        wm_app_version = ''2'', wm_bundle_count = 3, wm_committed_at = 4\<rparr>)])\<rparr>"

lemma demo_json_faithful: "json_faithful demo_json"
  by (auto simp: json_faithful_def demo_json_def split: if_splits)

theorem watermark_survives_restart_witness:
  "let s = \<lparr>fs_files = Map.empty, fs_clock = 0, fs_fault = no_faults\<rparr>;
       wm = \<lparr>wm_asset_version = ''1'', wm_asset_hash = ''h'', wm_app_version = ''2'', wm_bundle_count = 3,
             wm_committed_at = 4\<rparr>
   in \<exists>s' store''. watermark_set demo_json \<lparr>ws_path = ''w.json'', ws_regions = []\<rparr> ''jp'' wm s =
        (Inr (), \<lparr>ws_path = ''w.json'', ws_regions = [(''jp'', wm)]\<rparr>, s') \<and>
      fst (watermark_open demo_json ''w.json'' s') = Inr store'' \<and> watermark_get store'' ''jp'' = Some wm"
proof -
  let ?s = "\<lparr>fs_files = Map.empty, fs_clock = 0, fs_fault = no_faults\<rparr>"
  let ?wm = "\<lparr>wm_asset_version = ''1'', wm_asset_hash = ''h'', wm_app_version = ''2'', wm_bundle_count = 3,
             wm_committed_at = 4\<rparr>"
  let ?store = "\<lparr>ws_path = ''w.json'', ws_regions = []\<rparr>"
  have plain: "file_name (ws_path ?store) \<noteq> None"
    by (simp add: file_name_def plain_name_def)
  obtain s' where s': "watermark_set demo_json ?store ''jp'' ?wm ?s =
      (Inr (), \<lparr>ws_path = ''w.json'', ws_regions = [(''jp'', ?wm)]\<rparr>, s')" "fs_fault s' = no_faults"
    by (simp add: watermark_set_def write_atomic_def demo_json_def fs_write_def fs_rename_def)
  from watermark_survives_restart [OF demo_json_faithful plain s'] s'(1) show ?thesis
    by (auto simp: Let_def)
qed

text \<open>a watermark that could not be written is still believed. When \<open>set\<close> fails, the file keeps
  its contents, but the store in memory already answers with the new watermark.\<close>

theorem failed_set_stays_in_memory:
  assumes "file_name (ws_path store) \<noteq> None"
    and "watermark_set json store region wm s = (Inl e, store', s')"
  shows "fs_files s' (ws_path store) = fs_files s (ws_path store) \<and>
    watermark_get store' region = Some wm"
proof -
  have w: "write_atomic json (ws_path store) (bt_insert region wm (ws_regions store)) s = (Inl e, s')"
    and st: "store' = store\<lparr>ws_regions := bt_insert region wm (ws_regions store)\<rparr>"
    using assms(2) by (auto simp: watermark_set_def split: prod.splits)
  obtain f where "file_name (ws_path store) = Some f" using assms(1) by blast
  then show ?thesis
    using watermark_store.failed [OF watermark_tmp_differs w] by (simp add: st watermark_get_def)
qed

theorem failed_set_stays_in_memory_witness:
  "let s = \<lparr>fs_files = Map.empty, fs_clock = 0, fs_fault = no_faults\<rparr>;
       wm = \<lparr>wm_asset_version = [], wm_asset_hash = [], wm_app_version = [], wm_bundle_count = 0,
             wm_committed_at = 0\<rparr>;
       r = watermark_set demo_json \<lparr>ws_path = ''w.json'', ws_regions = []\<rparr> ''jp'' wm s
   in fst r = Inl (AssetInfoDecode ''unsupported'') \<and> watermark_get (fst (snd r)) ''jp'' = Some wm"
proof -
  let ?s = "\<lparr>fs_files = Map.empty, fs_clock = 0, fs_fault = no_faults\<rparr>"
  let ?wm = "\<lparr>wm_asset_version = [], wm_asset_hash = [], wm_app_version = [], wm_bundle_count = 0,
             wm_committed_at = 0\<rparr>"
  let ?store = "\<lparr>ws_path = ''w.json'', ws_regions = []\<rparr>"
  have plain: "file_name (ws_path ?store) \<noteq> None"
    by (simp add: file_name_def plain_name_def)
  have r: "watermark_set demo_json ?store ''jp'' ?wm ?s =
      (Inl (AssetInfoDecode ''unsupported''), ?store\<lparr>ws_regions := [(''jp'', ?wm)]\<rparr>, ?s)"
    by (simp add: watermark_set_def write_atomic_def demo_json_def)
  from failed_set_stays_in_memory [OF plain r] show ?thesis by (simp add: r Let_def)
qed

end
