(* ===== verification/Uploader.thy ===== *)
theory Uploader
  imports Watermark Hip_Messages
begin

text \<open>
  The streaming uploader of \<^verbatim>\<open>src/service/poller.rs\<close>: batches of exported bundles are uploaded over
  a gateway session, committed, merged into the snapshot and removed from disk. The gateway session
  and the directory operations of the host are the parameter \<open>ops\<close>, functions on a state of type
  \<open>'g\<close>; the order in which concurrent uploads finish is a schedule. The commits the gateway accepted
  are recorded in a ghost field.
\<close>

section \<open>Interfaces\<close>

datatype poll_error = PollConfig string | PollExecution string | PollHip string

record session_handle =
  sh_id :: nat
  sh_ack :: hello_ack

definition max_in_flight_uploads :: "session_handle \<Rightarrow> nat" where
  "max_in_flight_uploads session = max (ha_max_in_flight_uploads (sh_ack session)) 1"

record 'g gateway_ops =
  go_connect :: "hip_client_config \<Rightarrow> hello_params \<Rightarrow> 'g \<Rightarrow> (hip_error + session_handle) \<times> 'g"
  go_check :: "session_handle \<Rightarrow> check_batch_item list \<Rightarrow> 'g \<Rightarrow> (hip_error + check_ack_item list) \<times> 'g"
  go_upload :: "session_handle \<Rightarrow> string \<Rightarrow> string \<Rightarrow> string \<Rightarrow> string \<Rightarrow> fs \<Rightarrow> 'g \<Rightarrow>
     (hip_error + upload_ack) \<times> 'g"
  go_commit :: "session_handle \<Rightarrow> commit \<Rightarrow> 'g \<Rightarrow> (hip_error + commit_ack) \<times> 'g"
  go_close :: "session_handle \<Rightarrow> 'g \<Rightarrow> 'g"
  go_canonicalize :: "string \<Rightarrow> 'g \<Rightarrow> io_kind + string"
  go_remove_dir :: "string \<Rightarrow> 'g \<Rightarrow> (io_kind + unit) \<times> 'g"
  go_show_error :: "hip_error \<Rightarrow> string"

definition hip_client_config_for :: "string \<Rightarrow> hip_config \<Rightarrow> hip_client_config" where
  "hip_client_config_for pkg_version hip =
     \<lparr>hk_endpoint = hp_endpoint hip,
      hk_bearer_token = unwrap_or [] (hp_bearer_token hip),
      hk_tls_enabled = ht_enabled (hp_tls hip),
      hk_tls_ca_file = ht_ca_file (hp_tls hip),
      hk_handshake_timeout = hp_handshake_timeout_ms hip,
      hk_request_timeout = hp_request_timeout_ms hip,
      hk_max_frame_bytes = hp_max_frame_bytes hip,
      hk_chunk_size_bytes = max (hp_chunk_size_bytes hip) (64 * 1024),
      hk_heartbeat_interval = 1000 * max (hp_heartbeat_interval_seconds hip) 1,
      hk_unpacker_version = pkg_version\<rparr>"

definition hello_params_for :: "string \<Rightarrow> current_version_info \<Rightarrow> string \<Rightarrow> hello_params" where
  "hello_params_for region_name current run_id =
     \<lparr>hl_region = region_name,
      hl_app_version = app_version_or_default current,
      hl_asset_version = asset_version_or_default current,
      hl_asset_hash = asset_hash_or_default current,
      hl_run_id = run_id\<rparr>"

definition connect_hip_with ::
    "'g gateway_ops \<Rightarrow> string \<Rightarrow> app_config \<Rightarrow> string \<Rightarrow> current_version_info \<Rightarrow> string \<Rightarrow> 'g \<Rightarrow>
     (poll_error + session_handle) \<times> 'g" where
  "connect_hip_with ops pkg_version config region_name current run_id g =
     st_map_err (\<lambda>e. PollHip (go_show_error ops e))
       (go_connect ops (hip_client_config_for pkg_version (ap_hip config))
          (hello_params_for region_name current run_id) g)"

section \<open>Uploading the files of a batch\<close>

record bundle_artefacts =
  ba_bundle_path :: string
  ba_bundle_hash :: string
  ba_export_root :: string
  ba_files :: "string list"

record hip_upload_file_job =
  uj_bundle_path :: string
  uj_bundle_hash :: string
  uj_export_root :: string
  uj_file :: string

definition hip_asset_path_for_file :: "string \<Rightarrow> string \<Rightarrow> string \<Rightarrow> string" where
  "hip_asset_path_for_file file export_root bundle_path0 =
     (let relative0 = replace_char (CHR 0x5C) (CHR ''/'')
            (unwrap_or file (path_strip_prefix_text file export_root));
          relative = trim_start_matches (CHR ''/'') relative0;
          bundle_path = trim_matches (CHR ''/'') (replace_char (CHR 0x5C) (CHR ''/'') bundle_path0)
      in if bundle_path = [] then relative
         else unwrap_or relative
                (case strip_prefix bundle_path relative of
                   None \<Rightarrow> None
                 | Some v \<Rightarrow> strip_prefix ''/'' v))"

definition run_upload_job ::
    "'g gateway_ops \<Rightarrow> session_handle \<Rightarrow> fs \<Rightarrow> hip_upload_file_job \<Rightarrow> 'g \<Rightarrow>
     (poll_error + placement option) \<times> 'g" where
  "run_upload_job ops session s job g =
     (case go_upload ops session (uj_bundle_path job)
             (hip_asset_path_for_file (uj_file job) (uj_export_root job) (uj_bundle_path job))
             (uj_bundle_hash job) (uj_file job) s g of
        (Inl e, g') \<Rightarrow> (Inl (PollHip (go_show_error ops e)), g')
      | (Inr ack, g') \<Rightarrow> (Inr (ua_placement ack), g'))"

text \<open>The loop over the join set: the schedule says which of the running uploads finishes next;
  then one more is started. The results carry their job as a ghost.\<close>

function upload_loop ::
    "'g gateway_ops \<Rightarrow> session_handle \<Rightarrow> fs \<Rightarrow> nat list \<Rightarrow> hip_upload_file_job list \<Rightarrow>
     hip_upload_file_job list \<Rightarrow> (hip_upload_file_job \<times> placement option) list \<Rightarrow> 'g \<Rightarrow>
     (poll_error + (hip_upload_file_job \<times> placement option) list) \<times> 'g" where
  "upload_loop ops session s sched pending running results g =
     (if running = [] then (Inr results, g)
      else
        (let k = (case sched of [] \<Rightarrow> 0 | x # _ \<Rightarrow> x mod length running);
             job = running ! k;
             others = take k running @ drop (Suc k) running
         in case run_upload_job ops session s job g of
              (Inl e, g') \<Rightarrow> (Inl e, g')
            | (Inr r, g') \<Rightarrow>
                upload_loop ops session s (tl sched) (tl pending) (others @ take 1 pending)
                  (results @ [(job, r)]) g'))"
  by pat_completeness auto
termination
proof (relation "measure (\<lambda>(ops, session, s, sched, pending, running, results, g).
        length pending + length running)")
  fix ops :: "'g gateway_ops" and session s and sched :: "nat list"
    and pending running :: "hip_upload_file_job list" and results g k job others
    and x :: "(poll_error + placement option) \<times> 'g" and r g' y
  assume "running \<noteq> []" and k: "k = (case sched of [] \<Rightarrow> 0 | x # _ \<Rightarrow> x mod length running)"
    and o: "others = take k running @ drop (Suc k) running"
  then have "k < length running" by (simp split: list.split)
  then have "length others + 1 = length running" by (simp add: o)
  then show "((ops, session, s, tl sched, tl pending, others @ take 1 pending, results @ [(job, y)], g'),
      ops, session, s, sched, pending, running, results, g) \<in>
      measure (\<lambda>(ops, session, s, sched, pending, running, results, g). length pending + length running)"
    by (cases pending) auto
qed simp

declare upload_loop.simps [simp del]

definition upload_hip_files_concurrently ::
    "'g gateway_ops \<Rightarrow> session_handle \<Rightarrow> fs \<Rightarrow> nat list \<Rightarrow> hip_upload_file_job list \<Rightarrow> nat \<Rightarrow> 'g \<Rightarrow>
     (poll_error + (hip_upload_file_job \<times> placement option) list) \<times> 'g" where
  "upload_hip_files_concurrently ops session s sched jobs max_concurrency g =
     (if jobs = [] then (Inr [], g)
      else (let concurrency = min (max max_concurrency 1) (length jobs)
            in upload_loop ops session s sched (drop concurrency jobs) (take concurrency jobs) [] g))"

definition bundle_jobs :: "fs \<Rightarrow> bundle_artefacts \<Rightarrow> hip_upload_file_job list" where
  "bundle_jobs s bundle =
     map (\<lambda>file. \<lparr>uj_bundle_path = ba_bundle_path bundle, uj_bundle_hash = ba_bundle_hash bundle,
                  uj_export_root = ba_export_root bundle, uj_file = file\<rparr>)
       (filter (\<lambda>file. fs_files s file \<noteq> None) (ba_files bundle))"

definition count_placement :: "placement option \<Rightarrow> commit_stats \<Rightarrow> commit_stats" where
  "count_placement p stats =
     (case p of
        Some Override \<Rightarrow> stats\<lparr>ct_uploaded_override := ct_uploaded_override stats + 1\<rparr>
      | _ \<Rightarrow> stats\<lparr>ct_uploaded_shared := ct_uploaded_shared stats + 1\<rparr>)"

record upload_outcome =
  uo_stats :: commit_stats
  uo_succeeded_bundles :: "string list"
  uo_completed_bundles :: "commit_bundle_completion list"

text \<open>The completion loop consumes the fingerprint table: a second bundle of the same path falls back
  to its own hash.\<close>

fun bundle_completions ::
    "(string, nat) hmap \<Rightarrow> (string, string) hmap \<Rightarrow> bundle_artefacts list \<Rightarrow> commit_bundle_completion list" where
  "bundle_completions counts fps [] = []"
| "bundle_completions counts fps (b # bs) =
     \<lparr>bc_path = ba_bundle_path b,
      bc_fingerprint = unwrap_or (ba_bundle_hash b) (map_of fps (ba_bundle_path b)),
      bc_source = (if unwrap_or 0 (map_of counts (ba_bundle_path b)) = 0
                   then ''zero_file'' else ''uploaded'')\<rparr> #
     bundle_completions counts (AList.delete (ba_bundle_path b) fps) bs"

definition upload_bundle_artefacts ::
    "'g gateway_ops \<Rightarrow> session_handle \<Rightarrow> fs \<Rightarrow> nat list \<Rightarrow> bundle_artefacts list \<Rightarrow> 'g \<Rightarrow>
     (poll_error + upload_outcome) \<times> 'g" where
  "upload_bundle_artefacts ops session s sched bundles g =
     (let fps = fold (\<lambda>b. hmap_insert (ba_bundle_path b) (ba_bundle_hash b)) bundles [];
          counts = fold (\<lambda>b. hmap_insert (ba_bundle_path b) (length (bundle_jobs s b))) bundles [];
          jobs = concat (map (bundle_jobs s) bundles)
      in st_bind (upload_hip_files_concurrently ops session s sched jobs (max_in_flight_uploads session) g)
           (\<lambda>results g'.
              (Inr \<lparr>uo_stats = fold (\<lambda>(job, p). count_placement p) results default_commit_stats,
                    uo_succeeded_bundles = dedupe (map ba_bundle_path bundles),
                    uo_completed_bundles = bundle_completions counts fps bundles\<rparr>, g')))"

section \<open>Removing local files after a commit\<close>

record cleanup_summary =
  cs_removed_files :: nat
  cs_removed_dirs :: nat
  cs_failed_files :: nat
  cs_failed_dirs :: nat

definition has_failures :: "cleanup_summary \<Rightarrow> bool" where
  "has_failures c \<longleftrightarrow> cs_failed_files c > 0 \<or> cs_failed_dirs c > 0"

text \<open>The directories removed are returned in place of their number. \<open>None\<close> when the fuel is used
  up.\<close>

fun prune_loop ::
    "nat \<Rightarrow> 'g gateway_ops \<Rightarrow> string \<Rightarrow> string \<Rightarrow> string list \<Rightarrow> 'g \<Rightarrow> ((io_kind + string list) \<times> 'g) option" where
  "prune_loop 0 ops stop_root current removed g = None"
| "prune_loop (Suc fuel) ops stop_root current removed g =
     (case go_canonicalize ops current g of
        Inl NotFound \<Rightarrow> Some (Inr removed, g)
      | Inl e \<Rightarrow> Some (Inl e, g)
      | Inr canon \<Rightarrow>
          if components canon = components stop_root \<or> \<not> path_starts_with canon stop_root
          then Some (Inr removed, g)
          else
            (case go_remove_dir ops canon g of
               (Inl DirectoryNotEmpty, g') \<Rightarrow> Some (Inr removed, g')
             | (Inl NotFound, g') \<Rightarrow>
                 (case parent canon of
                    None \<Rightarrow> Some (Inr removed, g')
                  | Some up \<Rightarrow> prune_loop fuel ops stop_root up removed g')
             | (Inl e, g') \<Rightarrow> Some (Inl e, g')
             | (Inr _, g') \<Rightarrow>
                 (case parent canon of
                    None \<Rightarrow> Some (Inr (removed @ [canon]), g')
                  | Some up \<Rightarrow> prune_loop fuel ops stop_root up (removed @ [canon]) g')))"

definition prune_fuel :: "'g gateway_ops \<Rightarrow> string \<Rightarrow> 'g \<Rightarrow> nat" where
  "prune_fuel ops current g =
     (case go_canonicalize ops current g of
        Inl _ \<Rightarrow> 1
      | Inr canon \<Rightarrow> Suc (length (components canon)))"

definition prune_empty_parent_dirs ::
    "'g gateway_ops \<Rightarrow> string \<Rightarrow> string \<Rightarrow> 'g \<Rightarrow> ((io_kind + string list) \<times> 'g) option" where
  "prune_empty_parent_dirs ops path stop_root0 g =
     (case go_canonicalize ops stop_root0 g of
        Inl NotFound \<Rightarrow> Some (Inr [], g)
      | Inl e \<Rightarrow> Some (Inl e, g)
      | Inr stop_root \<Rightarrow>
          (case parent path of
             None \<Rightarrow> Some (Inr [], g)
           | Some current \<Rightarrow> prune_loop (prune_fuel ops current g) ops stop_root current [] g))"

definition remove_artefact_file ::
    "'g gateway_ops \<Rightarrow> string \<Rightarrow> string \<Rightarrow> cleanup_summary \<times> fs \<times> 'g \<Rightarrow> cleanup_summary \<times> fs \<times> 'g" where
  "remove_artefact_file ops export_root file st =
     (case st of (summary, s, g) \<Rightarrow>
        (case fs_remove_file file s of
           (Inr _, s') \<Rightarrow>
             (let summary' = summary\<lparr>cs_removed_files := cs_removed_files summary + 1\<rparr> in
              case prune_empty_parent_dirs ops file export_root g of
                Some (Inr removed, g') \<Rightarrow>
                  (summary'\<lparr>cs_removed_dirs := cs_removed_dirs summary' + length removed\<rparr>, s', g')
              | Some (Inl _, g') \<Rightarrow>
                  (summary'\<lparr>cs_failed_dirs := cs_failed_dirs summary' + 1\<rparr>, s', g')
              | None \<Rightarrow> (summary', s', g))
         | (Inl NotFound, s') \<Rightarrow> (summary, s', g)
         | (Inl _, s') \<Rightarrow> (summary\<lparr>cs_failed_files := cs_failed_files summary + 1\<rparr>, s', g)))"

definition remove_committed_bundle_artefacts ::
    "'g gateway_ops \<Rightarrow> bundle_artefacts list \<Rightarrow> string list \<Rightarrow> fs \<Rightarrow> 'g \<Rightarrow> cleanup_summary \<times> fs \<times> 'g" where
  "remove_committed_bundle_artefacts ops batch succeeded s g =
     fold (\<lambda>bundle. fold (remove_artefact_file ops (ba_export_root bundle)) (ba_files bundle))
       (filter (\<lambda>bundle. ba_bundle_path bundle \<in> set succeeded) batch)
       (\<lparr>cs_removed_files = 0, cs_removed_dirs = 0, cs_failed_files = 0, cs_failed_dirs = 0\<rparr>, s, g)"

section \<open>The uploader task\<close>

text \<open>The arguments of the task that do not change: the extras are the counters and the bundles
  the check skipped, as they are when the first commit reads them.\<close>

record 'g uploader_env =
  en_ops :: "'g gateway_ops"
  en_codec :: snapshot_codec
  en_pkg_version :: string
  en_config :: app_config
  en_region_name :: string
  en_current :: current_version_info
  en_run_id :: string
  en_snapshot_path :: string
  en_new_info :: asset_bundle_info
  en_layer1_skipped :: nat
  en_check_skipped :: nat
  en_check_skipped_bundles :: "(string, string) hmap"
  en_sched :: "nat \<Rightarrow> nat list"

record 'g uploader =
  ul_session :: "session_handle option"
  ul_batch :: "bundle_artefacts list"
  ul_batch_bytes :: nat
  ul_processed_all :: "string list"
  ul_batch_index :: nat
  ul_first_commit_pending :: bool
  ul_fs :: fs
  ul_gate :: 'g
  ul_commits :: "commit list"

definition uploader_init :: "fs \<Rightarrow> 'g \<Rightarrow> 'g uploader" where
  "uploader_init s g =
     \<lparr>ul_session = None, ul_batch = [], ul_batch_bytes = 0, ul_processed_all = [], ul_batch_index = 0,
      ul_first_commit_pending = True, ul_fs = s, ul_gate = g, ul_commits = []\<rparr>"

definition take_first_commit_extras ::
    "'g uploader_env \<Rightarrow> bool \<Rightarrow> nat \<times> nat \<times> commit_bundle_completion list" where
  "take_first_commit_extras env first_commit_pending =
     (if \<not> first_commit_pending then (0, 0, [])
      else (en_layer1_skipped env, en_check_skipped env,
            sort_key bc_path
              (map (\<lambda>(path, fingerprint).
                 \<lparr>bc_path = path, bc_fingerprint = fingerprint, bc_source = ''check_skip''\<rparr>)
                 (en_check_skipped_bundles env))))"

definition ensure_session ::
    "'g uploader_env \<Rightarrow> 'g uploader \<Rightarrow> (poll_error + session_handle) \<times> 'g uploader" where
  "ensure_session env st =
     (case ul_session st of
        Some session \<Rightarrow> (Inr session, st)
      | None \<Rightarrow>
          (case connect_hip_with (en_ops env) (en_pkg_version env) (en_config env) (en_region_name env)
                  (en_current env) (en_run_id env) (ul_gate st) of
             (Inl e, g) \<Rightarrow> (Inl e, st\<lparr>ul_gate := g\<rparr>)
           | (Inr session, g) \<Rightarrow> (Inr session, st\<lparr>ul_gate := g, ul_session := Some session\<rparr>)))"

text \<open>\<^verbatim>\<open>commit\<close> and, when it was accepted, \<^verbatim>\<open>close\<close>; the session slot is emptied before the commit.\<close>

definition commit_and_close ::
    "'g uploader_env \<Rightarrow> session_handle \<Rightarrow> commit \<Rightarrow> 'g uploader \<Rightarrow> (poll_error + unit) \<times> 'g uploader" where
  "commit_and_close env session c st =
     (case go_commit (en_ops env) session c (ul_gate st) of
        (Inl e, g) \<Rightarrow> (Inl (PollHip (go_show_error (en_ops env) e)), st\<lparr>ul_session := None, ul_gate := g\<rparr>)
      | (Inr _, g) \<Rightarrow>
          (Inr (), st\<lparr>ul_session := None, ul_gate := go_close (en_ops env) session g,
                     ul_commits := ul_commits st @ [c]\<rparr>))"

definition removes_local :: "'g uploader_env \<Rightarrow> bool" where
  "removes_local env =
     (case map_of (ap_regions (en_config env)) (en_region_name env) of
        None \<Rightarrow> False
      | Some region \<Rightarrow> up_remove_local_after_upload (rg_upload region))"

definition merge_committed :: "'g uploader_env \<Rightarrow> string list \<Rightarrow> fs \<Rightarrow> fs" where
  "merge_committed env succeeded s =
     (let details = List.map_filter (\<lambda>name. map_option (Pair name) (info_get (en_new_info env) name)) succeeded
      in if details = [] then s
         else snd (merge_snapshot (en_codec env) (en_snapshot_path env) (bi_version (en_new_info env))
                     (bi_os (en_new_info env)) details s))"

definition flush_batch :: "'g uploader_env \<Rightarrow> 'g uploader \<Rightarrow> (poll_error + unit) \<times> 'g uploader" where
  "flush_batch env st0 =
     (if ul_batch st0 = [] then (Inr (), st0)
      else st_bind (ensure_session env st0) (\<lambda>session st1.
        case upload_bundle_artefacts (en_ops env) session (ul_fs st1) (en_sched env (ul_batch_index st1))
               (ul_batch st1) (ul_gate st1) of
          (Inl e, g) \<Rightarrow> (Inl e, st1\<lparr>ul_gate := g\<rparr>)
        | (Inr outcome, g) \<Rightarrow>
            (let (skipped_by_layer1, skipped_by_check, extras) =
                   take_first_commit_extras env (ul_first_commit_pending st1);
                 c = \<lparr>co_bundle_count = length (uo_succeeded_bundles outcome),
                      co_stats = \<lparr>ct_skipped_by_layer1 = skipped_by_layer1,
                                  ct_skipped_by_check = skipped_by_check,
                                  ct_uploaded_shared = ct_uploaded_shared (uo_stats outcome),
                                  ct_uploaded_override = ct_uploaded_override (uo_stats outcome)\<rparr>,
                      co_completed_bundles = extras @ uo_completed_bundles outcome\<rparr>
             in st_bind (commit_and_close env session c
                           (st1\<lparr>ul_gate := g, ul_first_commit_pending := False\<rparr>)) (\<lambda>_ st2.
                let st3 = st2\<lparr>ul_fs := merge_committed env (uo_succeeded_bundles outcome) (ul_fs st2)\<rparr>;
                    done = (\<lambda>st. (Inr (), st\<lparr>ul_processed_all := ul_processed_all st @ uo_succeeded_bundles outcome,
                                            ul_batch := [], ul_batch_bytes := 0\<rparr>))
                in if removes_local env then
                     (case remove_committed_bundle_artefacts (en_ops env) (ul_batch st3)
                             (uo_succeeded_bundles outcome) (ul_fs st3) (ul_gate st3) of
                        (cleanup, s, g') \<Rightarrow>
                          (let st4 = st3\<lparr>ul_fs := s, ul_gate := g'\<rparr> in
                           if has_failures cleanup
                           then (Inl (PollExecution ''failed to remove local artefacts after HIP commit''), st4)
                           else done st4))
                   else done st3))))"

definition flush_metadata_only_commit ::
    "'g uploader_env \<Rightarrow> 'g uploader \<Rightarrow> (poll_error + unit) \<times> 'g uploader" where
  "flush_metadata_only_commit env st0 =
     (let (skipped_by_layer1, skipped_by_check, completed) =
            take_first_commit_extras env (ul_first_commit_pending st0);
          st1 = st0\<lparr>ul_first_commit_pending := False\<rparr>
      in if completed = [] then
           (case ul_session st1 of
              None \<Rightarrow> (Inr (), st1)
            | Some session \<Rightarrow>
                (Inr (), st1\<lparr>ul_session := None, ul_gate := go_close (en_ops env) session (ul_gate st1)\<rparr>))
         else st_bind (ensure_session env st1) (\<lambda>session st2.
           commit_and_close env session
             \<lparr>co_bundle_count = 0,
              co_stats = \<lparr>ct_skipped_by_layer1 = skipped_by_layer1, ct_skipped_by_check = skipped_by_check,
                          ct_uploaded_shared = 0, ct_uploaded_override = 0\<rparr>,
              co_completed_bundles = completed\<rparr> st2))"

definition artefact_bytes :: "fs \<Rightarrow> bundle_artefacts \<Rightarrow> nat" where
  "artefact_bytes s art =
     sum_list (List.map_filter (\<lambda>p. map_option length (fs_files s p)) (ba_files art))"

definition should_flush :: "hip_config \<Rightarrow> 'g uploader \<Rightarrow> bool" where
  "should_flush hip st \<longleftrightarrow>
     (hp_commit_batch_bundles hip > 0 \<and> length (ul_batch st) \<ge> hp_commit_batch_bundles hip) \<or>
     (hp_commit_batch_bytes hip > 0 \<and> ul_batch_bytes st \<ge> hp_commit_batch_bytes hip)"

definition receive_artefact ::
    "'g uploader_env \<Rightarrow> bundle_artefacts \<Rightarrow> 'g uploader \<Rightarrow> (poll_error + unit) \<times> 'g uploader" where
  "receive_artefact env art st =
     (let st1 = st\<lparr>ul_batch_bytes := ul_batch_bytes st + artefact_bytes (ul_fs st) art,
                   ul_batch := ul_batch st @ [art]\<rparr>
      in if should_flush (ap_hip (en_config env)) st1
         then flush_batch env (st1\<lparr>ul_batch_index := ul_batch_index st1 + 1\<rparr>)
         else (Inr (), st1))"

fun receive_all ::
    "'g uploader_env \<Rightarrow> bundle_artefacts list \<Rightarrow> 'g uploader \<Rightarrow> (poll_error + unit) \<times> 'g uploader" where
  "receive_all env [] st = (Inr (), st)"
| "receive_all env (art # arts) st = st_bind (receive_artefact env art st) (\<lambda>_. receive_all env arts)"

definition finish_uploader :: "'g uploader_env \<Rightarrow> 'g uploader \<Rightarrow> (poll_error + unit) \<times> 'g uploader" where
  "finish_uploader env st =
     (if ul_batch st \<noteq> [] then flush_batch env (st\<lparr>ul_batch_index := ul_batch_index st + 1\<rparr>)
      else if ul_first_commit_pending st then flush_metadata_only_commit env st
      else case ul_session st of
             None \<Rightarrow> (Inr (), st)
           | Some session \<Rightarrow>
               (Inr (), st\<lparr>ul_session := None, ul_gate := go_close (en_ops env) session (ul_gate st)\<rparr>))"

text \<open>\<open>arts\<close> are the artefacts received before the channel closed or the cancellation was seen; both
  leave the loop the same way.\<close>

definition run_uploader ::
    "'g uploader_env \<Rightarrow> bundle_artefacts list \<Rightarrow> fs \<Rightarrow> 'g \<Rightarrow> (poll_error + string list) \<times> 'g uploader" where
  "run_uploader env arts s g =
     st_bind (st_bind (receive_all env arts (uploader_init s g)) (\<lambda>_. finish_uploader env))
       (\<lambda>_ st. (Inr (ul_processed_all st), st))"

section \<open>Lemmas: uploads\<close>

lemma mset_pick:
  assumes "k < length xs"
  shows "mset (take k xs @ drop (Suc k) xs) + {#xs ! k#} = mset xs"
proof -
  have "mset xs = mset (take k xs @ xs ! k # drop (Suc k) xs)"
    using id_take_nth_drop [OF assms] by simp
  then show ?thesis by simp
qed

lemma upload_loop_jobs:
  assumes "upload_loop ops session s sched pending running results g = (Inr out, g')"
    and "running = [] \<longrightarrow> pending = []"
  shows "mset (map fst out) = mset (map fst results) + mset pending + mset running"
  using assms
proof (induction ops session s sched pending running results g rule: upload_loop.induct)
  case (1 ops session s sched pending running results g)
  show ?case
  proof (cases "running = []")
    case True
    then show ?thesis using "1.prems" by (simp add: upload_loop.simps)
  next
    case False
    define k where "k = (case sched of [] \<Rightarrow> 0 | x # _ \<Rightarrow> x mod length running)"
    define others where "others = take k running @ drop (Suc k) running"
    obtain r g1 where r: "run_upload_job ops session s (running ! k) g = (Inr r, g1)"
      and rec: "upload_loop ops session s (tl sched) (tl pending) (others @ take 1 pending)
        (results @ [(running ! k, r)]) g1 = (Inr out, g')"
      using "1.prems"(1) False
      by (subst (asm) upload_loop.simps)
        (auto simp: Let_def k_def [symmetric] others_def split: prod.split_asm sum.split_asm)
    have k: "k < length running" using False by (simp add: k_def split: list.split)
    have "others @ take 1 pending = [] \<longrightarrow> tl pending = []" by (cases pending) auto
    then have IH: "mset (map fst out) = mset (map fst (results @ [(running ! k, r)])) + mset (tl pending) +
        mset (others @ take 1 pending)"
      using "1.IH" [OF False k_def refl others_def r [symmetric] refl rec] by simp
    have "mset others + {#running ! k#} = mset running"
      unfolding others_def by (rule mset_pick [OF k])
    moreover have "mset (tl pending) + mset (take 1 pending) = mset pending" by (cases pending) auto
    ultimately show ?thesis using IH by (simp add: ac_simps)
  qed
qed

lemma upload_files_jobs:
  assumes "upload_hip_files_concurrently ops session s sched jobs n g = (Inr out, g')"
  shows "mset (map fst out) = mset jobs"
proof (cases "jobs = []")
  case False
  let ?c = "min (max n 1) (length jobs)"
  have "upload_loop ops session s sched (drop ?c jobs) (take ?c jobs) [] g = (Inr out, g')"
    using assms False by (simp add: upload_hip_files_concurrently_def Let_def)
  moreover have "take ?c jobs = [] \<longrightarrow> drop ?c jobs = []" using False by (auto simp: min_def max_def)
  ultimately have "mset (map fst out) = mset (drop ?c jobs) + mset (take ?c jobs)"
    using upload_loop_jobs by fastforce
  also have "\<dots> = mset jobs" by (metis append_take_drop_id mset_append union_commute)
  finally show ?thesis .
qed (use assms in \<open>simp add: upload_hip_files_concurrently_def\<close>)

lemma count_placement_total:
  "ct_uploaded_shared (fold (\<lambda>(job, p). count_placement p) rs st) +
   ct_uploaded_override (fold (\<lambda>(job, p). count_placement p) rs st) =
   ct_uploaded_shared st + ct_uploaded_override st + length rs"
  by (induction rs arbitrary: st)
    (auto simp: count_placement_def split: option.splits placement.splits)

lemma completions_paths [simp]: "map bc_path (bundle_completions counts fps bs) = map ba_bundle_path bs"
  by (induction counts fps bs rule: bundle_completions.induct) (auto split: if_splits)

lemma completions_own: "c \<in> set (bundle_completions counts fps bs) \<Longrightarrow> bc_source c \<noteq> ''check_skip''"
  by (induction counts fps bs rule: bundle_completions.induct) (auto split: if_splits)

lemma upload_outcome_Inr:
  assumes "upload_bundle_artefacts ops session s sched bundles g = (Inr outcome, g')"
  shows "map bc_path (uo_completed_bundles outcome) = map ba_bundle_path bundles"
    and "\<forall>c\<in>set (uo_completed_bundles outcome). bc_source c \<noteq> ''check_skip''"
    and "uo_succeeded_bundles outcome = dedupe (map ba_bundle_path bundles)"
    and "ct_uploaded_shared (uo_stats outcome) + ct_uploaded_override (uo_stats outcome) =
      length (concat (map (bundle_jobs s) bundles))"
proof -
  let ?jobs = "concat (map (bundle_jobs s) bundles)"
  obtain results g1 where r: "upload_hip_files_concurrently ops session s sched ?jobs
      (max_in_flight_uploads session) g = (Inr results, g1)"
    using assms by (auto simp: upload_bundle_artefacts_def Let_def st_bind_Inr)
  have "length results = length ?jobs"
    using upload_files_jobs [OF r] by (metis length_map mset_eq_length)
  with assms r show "ct_uploaded_shared (uo_stats outcome) + ct_uploaded_override (uo_stats outcome) = length ?jobs"
    by (auto simp: upload_bundle_artefacts_def Let_def count_placement_total default_commit_stats_def)
  show "map bc_path (uo_completed_bundles outcome) = map ba_bundle_path bundles"
    "\<forall>c\<in>set (uo_completed_bundles outcome). bc_source c \<noteq> ''check_skip''"
    "uo_succeeded_bundles outcome = dedupe (map ba_bundle_path bundles)"
    using assms r completions_own by (auto simp: upload_bundle_artefacts_def Let_def)
qed

section \<open>Lemmas: batches\<close>

definition own_completions :: "commit \<Rightarrow> commit_bundle_completion list" where
  "own_completions c = filter (\<lambda>x. bc_source x \<noteq> ''check_skip'') (co_completed_bundles c)"

definition own_paths :: "commit list \<Rightarrow> string list" where
  "own_paths cs = concat (map (\<lambda>c. map bc_path (own_completions c)) cs)"

definition no_extras :: "commit \<Rightarrow> bool" where
  "no_extras c \<longleftrightarrow> ct_skipped_by_layer1 (co_stats c) = 0 \<and> ct_skipped_by_check (co_stats c) = 0 \<and>
     (\<forall>x\<in>set (co_completed_bundles c). bc_source x \<noteq> ''check_skip'')"

definition with_extras :: "'g uploader_env \<Rightarrow> commit \<Rightarrow> bool" where
  "with_extras env c \<longleftrightarrow> ct_skipped_by_layer1 (co_stats c) = en_layer1_skipped env \<and>
     ct_skipped_by_check (co_stats c) = en_check_skipped env \<and>
     {(bc_path x, bc_fingerprint x) | x. x \<in> set (co_completed_bundles c) \<and> bc_source x = ''check_skip''} =
       set (en_check_skipped_bundles env)"

lemma own_paths_snoc [simp]: "own_paths (cs @ [c]) = own_paths cs @ map bc_path (own_completions c)"
  by (simp add: own_paths_def)

lemma own_paths_Nil [simp]: "own_paths [] = []"
  by (simp add: own_paths_def)

lemma extras_sources: "x \<in> set (snd (snd (take_first_commit_extras env p))) \<Longrightarrow> bc_source x = ''check_skip''"
  by (auto simp: take_first_commit_extras_def split: if_splits)

lemma extras_set:
  "{(bc_path x, bc_fingerprint x) | x. x \<in> set (snd (snd (take_first_commit_extras env True)))} =
   set (en_check_skipped_bundles env)"
proof -
  let ?f = "\<lambda>(path, fingerprint). \<lparr>bc_path = path, bc_fingerprint = fingerprint, bc_source = ''check_skip''\<rparr>"
  have "{(bc_path x, bc_fingerprint x) | x. x \<in> ?f ` S} = S" for S :: "(string \<times> string) set"
    by (auto simp: image_iff) force
  then show ?thesis by (simp add: take_first_commit_extras_def)
qed

lemma ensure_session_frame:
  assumes "ensure_session env st = (r, st')"
  shows "ul_batch st' = ul_batch st" "ul_commits st' = ul_commits st" "ul_fs st' = ul_fs st"
    "ul_processed_all st' = ul_processed_all st" "ul_first_commit_pending st' = ul_first_commit_pending st"
  using assms by (auto simp: ensure_session_def split: option.splits prod.splits sum.splits)

lemma commit_and_close_cases:
  assumes "commit_and_close env session c st = (r, st')"
  shows "ul_batch st' = ul_batch st" "ul_processed_all st' = ul_processed_all st" "ul_fs st' = ul_fs st"
    "ul_first_commit_pending st' = ul_first_commit_pending st"
    "ul_commits st' = (if is_ok r then ul_commits st @ [c] else ul_commits st)"
  using assms by (auto simp: commit_and_close_def split: prod.splits sum.splits)

text \<open>A flush commits the batch, with the extras if and only if none was committed before, or
  commits nothing; it reports success only when it committed, and then the batch is empty.\<close>

lemma flush_batch_result:
  assumes "flush_batch env st = (r, st')" and "ul_batch st \<noteq> []"
  shows "(\<exists>c. ul_commits st' = ul_commits st @ [c] \<and>
        map bc_path (own_completions c) = map ba_bundle_path (ul_batch st) \<and>
        (if ul_first_commit_pending st then with_extras env c else no_extras c) \<and>
        (is_ok r \<longrightarrow> ul_batch st' = [] \<and> \<not> ul_first_commit_pending st' \<and>
           ul_processed_all st' = ul_processed_all st @ dedupe (map ba_bundle_path (ul_batch st)))) \<or>
      (ul_commits st' = ul_commits st \<and> \<not> is_ok r)"
proof -
  obtain r1 st1 where e: "ensure_session env st = (r1, st1)" by fastforce
  note f1 = ensure_session_frame [OF e]
  show ?thesis
  proof (cases r1)
    case (Inl err)
    then show ?thesis using assms e f1 by (auto simp: flush_batch_def)
  next
    case (Inr session)
    obtain r2 g where u: "upload_bundle_artefacts (en_ops env) session (ul_fs st1)
        (en_sched env (ul_batch_index st1)) (ul_batch st1) (ul_gate st1) = (r2, g)" by fastforce
    show ?thesis
    proof (cases r2)
      case (Inl err)
      then show ?thesis using assms e f1 u Inr by (auto simp: flush_batch_def)
    next
      case outcome: (Inr outcome)
      obtain l1 l2 ex where x: "take_first_commit_extras env (ul_first_commit_pending st1) = (l1, l2, ex)"
        by (metis prod_cases3)
      define c where "c = \<lparr>co_bundle_count = length (uo_succeeded_bundles outcome),
          co_stats = \<lparr>ct_skipped_by_layer1 = l1, ct_skipped_by_check = l2,
            ct_uploaded_shared = ct_uploaded_shared (uo_stats outcome),
            ct_uploaded_override = ct_uploaded_override (uo_stats outcome)\<rparr>,
          co_completed_bundles = ex @ uo_completed_bundles outcome\<rparr>"
      obtain r3 st2 where cc: "commit_and_close env session c
          (st1\<lparr>ul_gate := g, ul_first_commit_pending := False\<rparr>) = (r3, st2)" by fastforce
      note f2 = commit_and_close_cases [OF cc]
      note up = upload_outcome_Inr [OF u [unfolded outcome]]
      have ex: "\<forall>y\<in>set ex. bc_source y = ''check_skip''" using extras_sources x by (metis snd_conv)
      have own: "own_completions c = uo_completed_bundles outcome"
        using ex up(2) by (auto simp: own_completions_def c_def filter_empty_conv filter_id_conv)
      have extras: "if ul_first_commit_pending st then with_extras env c else no_extras c"
      proof (cases "ul_first_commit_pending st")
        case True
        then have xt: "take_first_commit_extras env True = (l1, l2, ex)" using x f1 by simp
        have "{(bc_path y, bc_fingerprint y) | y. y \<in> set (co_completed_bundles c) \<and> bc_source y = ''check_skip''} =
            {(bc_path y, bc_fingerprint y) | y. y \<in> set ex}"
          using ex up(2) by (auto simp: c_def)
        also have "\<dots> = set (en_check_skipped_bundles env)" using extras_set [of env] xt by simp
        finally show ?thesis using True xt by (simp add: with_extras_def c_def take_first_commit_extras_def)
      next
        case False
        then have "l1 = 0 \<and> l2 = 0 \<and> ex = []" using x f1 by (simp add: take_first_commit_extras_def)
        then show ?thesis using False up(2) by (simp add: no_extras_def c_def)
      qed
      have step: "flush_batch env st = st_bind (commit_and_close env session c
            (st1\<lparr>ul_gate := g, ul_first_commit_pending := False\<rparr>)) (\<lambda>_ st2.
          let st3 = st2\<lparr>ul_fs := merge_committed env (uo_succeeded_bundles outcome) (ul_fs st2)\<rparr>;
              done = (\<lambda>st. (Inr (), st\<lparr>ul_processed_all := ul_processed_all st @ uo_succeeded_bundles outcome,
                                      ul_batch := [], ul_batch_bytes := 0\<rparr>))
          in if removes_local env then
               (case remove_committed_bundle_artefacts (en_ops env) (ul_batch st3)
                       (uo_succeeded_bundles outcome) (ul_fs st3) (ul_gate st3) of
                  (cleanup, s, g') \<Rightarrow>
                    (let st4 = st3\<lparr>ul_fs := s, ul_gate := g'\<rparr> in
                     if has_failures cleanup
                     then (Inl (PollExecution ''failed to remove local artefacts after HIP commit''), st4)
                     else done st4))
             else done st3)"
        using assms(2) e Inr u outcome x by (simp add: flush_batch_def c_def Let_def)
      show ?thesis
      proof (cases r3)
        case (Inl err)
        then show ?thesis using assms(1) step cc f1 f2 by auto
      next
        case ok: (Inr unit)
        have "ul_commits st' = ul_commits st @ [c] \<and>
            (is_ok r \<longrightarrow> ul_batch st' = [] \<and> \<not> ul_first_commit_pending st' \<and>
               ul_processed_all st' = ul_processed_all st @ dedupe (map ba_bundle_path (ul_batch st)))"
          using assms(1) ok f1 f2 up(3) unfolding step cc
          by (auto simp: Let_def split: prod.split_asm if_splits)
        moreover have "map bc_path (own_completions c) = map ba_bundle_path (ul_batch st)"
          using own up(1) f1 by simp
        ultimately show ?thesis using extras by blast
      qed
    qed
  qed
qed

section \<open>Lemmas: the whole run\<close>

definition bundle_limit :: "'g uploader_env \<Rightarrow> nat" where
  "bundle_limit env = hp_commit_batch_bundles (ap_hip (en_config env))"

definition commits_ok :: "'g uploader_env \<Rightarrow> 'g uploader \<Rightarrow> bool" where
  "commits_ok env st \<longleftrightarrow>
     (\<forall>c\<in>set (tl (ul_commits st)). no_extras c) \<and>
     (ul_commits st \<noteq> [] \<longrightarrow> with_extras env (hd (ul_commits st))) \<and>
     (0 < bundle_limit env \<longrightarrow> (\<forall>c\<in>set (ul_commits st). length (own_completions c) \<le> bundle_limit env))"

definition uploader_inv :: "'g uploader_env \<Rightarrow> bundle_artefacts list \<Rightarrow> 'g uploader \<Rightarrow> bool" where
  "uploader_inv env arts st \<longleftrightarrow>
     commits_ok env st \<and>
     own_paths (ul_commits st) @ map ba_bundle_path (ul_batch st) = map ba_bundle_path arts \<and>
     set (ul_processed_all st) = set (own_paths (ul_commits st)) \<and>
     (ul_first_commit_pending st \<longleftrightarrow> ul_commits st = []) \<and>
     (0 < bundle_limit env \<longrightarrow> length (ul_batch st) < bundle_limit env)"

lemma flush_step:
  assumes "flush_batch env st = (r, st')" and "ul_batch st \<noteq> []" and "commits_ok env st"
    and "ul_first_commit_pending st \<longleftrightarrow> ul_commits st = []"
    and "0 < bundle_limit env \<longrightarrow> length (ul_batch st) \<le> bundle_limit env"
  shows "commits_ok env st' \<and>
    own_paths (ul_commits st') \<in> {own_paths (ul_commits st),
      own_paths (ul_commits st) @ map ba_bundle_path (ul_batch st)} \<and>
    (is_ok r \<longrightarrow> own_paths (ul_commits st') = own_paths (ul_commits st) @ map ba_bundle_path (ul_batch st) \<and>
       ul_batch st' = [] \<and> \<not> ul_first_commit_pending st' \<and> ul_commits st' \<noteq> [] \<and>
       set (ul_processed_all st') = set (ul_processed_all st) \<union> ba_bundle_path ` set (ul_batch st))"
proof (cases "ul_commits st' = ul_commits st \<and> \<not> is_ok r")
  case True
  then show ?thesis using assms(3) by (simp add: commits_ok_def)
next
  case False
  with flush_batch_result [OF assms(1,2)] obtain c where
    c: "ul_commits st' = ul_commits st @ [c]" "map bc_path (own_completions c) = map ba_bundle_path (ul_batch st)"
      "if ul_first_commit_pending st then with_extras env c else no_extras c"
      "is_ok r \<longrightarrow> ul_batch st' = [] \<and> \<not> ul_first_commit_pending st' \<and>
         ul_processed_all st' = ul_processed_all st @ dedupe (map ba_bundle_path (ul_batch st))"
    by blast
  have "length (own_completions c) = length (ul_batch st)" using c(2) by (metis length_map)
  then have "commits_ok env st'"
    using assms(3,4,5) c(1,3) by (cases "ul_commits st") (auto simp: commits_ok_def)
  then show ?thesis using c by auto
qed

lemma receive_step:
  assumes "receive_artefact env art st = (r, st')" and inv: "uploader_inv env arts st"
  shows "commits_ok env st' \<and>
    (\<exists>n. own_paths (ul_commits st') = map ba_bundle_path (take n (arts @ [art]))) \<and>
    (is_ok r \<longrightarrow> uploader_inv env (arts @ [art]) st')"
proof -
  define st1 where "st1 = st\<lparr>ul_batch_bytes := ul_batch_bytes st + artefact_bytes (ul_fs st) art,
      ul_batch := ul_batch st @ [art]\<rparr>"
  let ?st2 = "st1\<lparr>ul_batch_index := ul_batch_index st1 + 1\<rparr>"
  have all: "own_paths (ul_commits st) @ map ba_bundle_path (ul_batch st1) = map ba_bundle_path (arts @ [art])"
    using inv by (simp add: uploader_inv_def st1_def)
  have pre: "own_paths (ul_commits st) = map ba_bundle_path (take (length (own_paths (ul_commits st))) (arts @ [art]))"
    using all by (metis append_eq_conv_conj take_map)
  show ?thesis
  proof (cases "should_flush (ap_hip (en_config env)) st1")
    case True
    then have f: "flush_batch env ?st2 = (r, st')"
      using assms(1) by (simp add: receive_artefact_def Let_def st1_def)
    have "commits_ok env ?st2" "ul_batch ?st2 \<noteq> []"
      "ul_first_commit_pending ?st2 \<longleftrightarrow> ul_commits ?st2 = []"
      "0 < bundle_limit env \<longrightarrow> length (ul_batch ?st2) \<le> bundle_limit env"
      using inv by (auto simp: uploader_inv_def st1_def commits_ok_def)
    note fl = flush_step [OF f this(2,1,3,4)]
    have all2: "own_paths (ul_commits ?st2) @ map ba_bundle_path (ul_batch ?st2) = map ba_bundle_path (arts @ [art])"
      using all by (simp add: st1_def)
    have st2: "ul_commits ?st2 = ul_commits st" "ul_processed_all ?st2 = ul_processed_all st"
      by (simp_all add: st1_def)
    have "own_paths (ul_commits st') \<in> {own_paths (ul_commits st), map ba_bundle_path (arts @ [art])}"
      using fl all2 st2(1) by simp
    moreover have "map ba_bundle_path (arts @ [art]) = map ba_bundle_path (take (length arts + 1) (arts @ [art]))"
      by simp
    ultimately have prefix: "\<exists>n. own_paths (ul_commits st') = map ba_bundle_path (take n (arts @ [art]))"
      using pre by (metis insertE singletonD)
    have "uploader_inv env (arts @ [art]) st'" if ok: "is_ok r"
    proof -
      have eq: "own_paths (ul_commits st') = map ba_bundle_path (arts @ [art])" using fl ok all2 by metis
      have "set (ul_processed_all st') = set (own_paths (ul_commits ?st2) @ map ba_bundle_path (ul_batch ?st2))"
        using fl ok inv st2 by (simp add: uploader_inv_def)
      then have "set (ul_processed_all st') = set (own_paths (ul_commits st'))"
        unfolding all2 eq [symmetric] .
      moreover have "commits_ok env st'" "ul_batch st' = []" "\<not> ul_first_commit_pending st'" "ul_commits st' \<noteq> []"
        using fl ok by blast+
      ultimately show ?thesis unfolding uploader_inv_def using eq by (simp del: map_append)
    qed
    then show ?thesis using fl prefix by blast
  next
    case False
    then have r: "r = Inr ()" "st' = st1"
      using assms(1) by (auto simp: receive_artefact_def Let_def st1_def)
    have "0 < bundle_limit env \<longrightarrow> length (ul_batch st1) < bundle_limit env"
      using False by (auto simp: should_flush_def bundle_limit_def)
    then have "uploader_inv env (arts @ [art]) st1"
      using inv by (auto simp: uploader_inv_def st1_def commits_ok_def)
    then show ?thesis using r pre by (auto simp: uploader_inv_def st1_def)
  qed
qed

lemma receive_all_inv:
  assumes "receive_all env arts st = (r, st')" and "uploader_inv env before st"
  shows "commits_ok env st' \<and>
    (\<exists>n. own_paths (ul_commits st') = map ba_bundle_path (take n (before @ arts))) \<and>
    (is_ok r \<longrightarrow> uploader_inv env (before @ arts) st')"
  using assms
proof (induction arts arbitrary: st before)
  case Nil
  have "own_paths (ul_commits st) = take (length (own_paths (ul_commits st))) (map ba_bundle_path before)"
    using Nil.prems(2) by (metis append_eq_conv_conj uploader_inv_def)
  then show ?case using Nil.prems by (auto simp: uploader_inv_def take_map)
next
  case (Cons art arts)
  obtain r1 st1 where r1: "receive_artefact env art st = (r1, st1)" by fastforce
  note s1 = receive_step [OF r1 Cons.prems(2)]
  show ?case
  proof (cases r1)
    case (Inl e)
    then have eq: "r = Inl e" "st' = st1" using Cons.prems(1) r1 by auto
    obtain n where n: "own_paths (ul_commits st1) = map ba_bundle_path (take n (before @ [art]))"
      using s1 by blast
    have "take n (before @ [art]) = take (min n (length before + 1)) (before @ art # arts)"
      by (auto simp: min_def take_Cons')
    then show ?thesis using s1 eq n by auto
  next
    case (Inr u)
    then have "receive_all env arts st1 = (r, st')" "uploader_inv env (before @ [art]) st1"
      using Cons.prems(1) r1 s1 by auto
    from Cons.IH [OF this] show ?thesis by simp
  qed
qed

lemma uploader_init_inv: "uploader_inv env [] (uploader_init s g)"
  by (simp add: uploader_inv_def uploader_init_def commits_ok_def)

lemma metadata_commit_result:
  assumes "flush_metadata_only_commit env st = (r, st')" and "ul_commits st = []" and "ul_first_commit_pending st"
    and "ul_batch st = []"
  shows "commits_ok env st' \<and> own_paths (ul_commits st') = [] \<and> ul_processed_all st' = ul_processed_all st \<and>
    ul_batch st' = [] \<and>
    (is_ok r \<and> en_check_skipped_bundles env \<noteq> [] \<longrightarrow> ul_commits st' \<noteq> [])"
proof -
  obtain l1 l2 ex where x: "take_first_commit_extras env True = (l1, l2, ex)" by (metis prod_cases3)
  have ex: "\<forall>y\<in>set ex. bc_source y = ''check_skip''" using extras_sources x by (metis snd_conv)
  define c where "c = \<lparr>co_bundle_count = 0, co_stats = \<lparr>ct_skipped_by_layer1 = l1, ct_skipped_by_check = l2,
      ct_uploaded_shared = 0, ct_uploaded_override = 0\<rparr>, co_completed_bundles = ex\<rparr>"
  have own: "own_completions c = []" using ex by (simp add: own_completions_def c_def filter_empty_conv)
  have we: "with_extras env c"
  proof -
    have "{(bc_path y, bc_fingerprint y) | y. y \<in> set (co_completed_bundles c) \<and> bc_source y = ''check_skip''} =
        {(bc_path y, bc_fingerprint y) | y. y \<in> set ex}"
      using ex by (auto simp: c_def)
    also have "\<dots> = set (en_check_skipped_bundles env)" using extras_set [of env] x by simp
    finally show ?thesis using x by (simp add: with_extras_def c_def take_first_commit_extras_def)
  qed
  let ?st1 = "st\<lparr>ul_first_commit_pending := False\<rparr>"
  have exn: "ex = [] \<longleftrightarrow> en_check_skipped_bundles env = []"
  proof -
    have "length ex = length (en_check_skipped_bundles env)"
      using x by (auto simp: take_first_commit_extras_def)
    then show ?thesis by (metis length_0_conv)
  qed
  show ?thesis
  proof (cases "ex = []")
    case True
    then show ?thesis
      using assms x exn
      by (auto simp: flush_metadata_only_commit_def Let_def commits_ok_def split: option.splits)
  next
    case False
    obtain r1 st1 where e: "ensure_session env ?st1 = (r1, st1)" by fastforce
    note f1 = ensure_session_frame [OF e]
    show ?thesis
    proof (cases r1)
      case (Inl err)
      then show ?thesis
        using assms x False e f1 by (auto simp: flush_metadata_only_commit_def Let_def commits_ok_def)
    next
      case (Inr session)
      then have cc: "commit_and_close env session c st1 = (r, st')"
        using assms(1,3) x False e by (simp add: flush_metadata_only_commit_def Let_def c_def)
      show ?thesis
        using commit_and_close_cases [OF cc] f1 assms own we by (auto simp: commits_ok_def own_paths_def)
    qed
  qed
qed

lemma finish_step:
  assumes "finish_uploader env st = (r, st')" and inv: "uploader_inv env arts st"
  shows "commits_ok env st' \<and>
    (\<exists>n. own_paths (ul_commits st') = map ba_bundle_path (take n arts)) \<and>
    (is_ok r \<longrightarrow> own_paths (ul_commits st') = map ba_bundle_path arts \<and>
       set (ul_processed_all st') = ba_bundle_path ` set arts \<and> ul_batch st' = [] \<and>
       (arts \<noteq> [] \<or> en_check_skipped_bundles env \<noteq> [] \<longrightarrow> ul_commits st' \<noteq> []))"
proof -
  have all: "own_paths (ul_commits st) @ map ba_bundle_path (ul_batch st) = map ba_bundle_path arts"
    using inv by (simp add: uploader_inv_def)
  have pre: "own_paths (ul_commits st) = map ba_bundle_path (take (length (own_paths (ul_commits st))) arts)"
    using all by (metis append_eq_conv_conj take_map)
  have whole: "map ba_bundle_path arts = map ba_bundle_path (take (length arts) arts)" by simp
  consider (batch) "ul_batch st \<noteq> []" | (meta) "ul_batch st = []" "ul_first_commit_pending st"
    | (bye) "ul_batch st = []" "\<not> ul_first_commit_pending st" by blast
  then show ?thesis
  proof cases
    case batch
    let ?st2 = "st\<lparr>ul_batch_index := ul_batch_index st + 1\<rparr>"
    have f: "flush_batch env ?st2 = (r, st')" using assms(1) batch by (simp add: finish_uploader_def)
    have "commits_ok env ?st2" "ul_batch ?st2 \<noteq> []" "ul_first_commit_pending ?st2 \<longleftrightarrow> ul_commits ?st2 = []"
      "0 < bundle_limit env \<longrightarrow> length (ul_batch ?st2) \<le> bundle_limit env"
      using inv batch by (auto simp: uploader_inv_def commits_ok_def)
    note fs = flush_step [OF f this(2,1,3,4)]
    have "set (map ba_bundle_path arts) = set (ul_processed_all st) \<union> ba_bundle_path ` set (ul_batch st)"
      using inv unfolding uploader_inv_def all [symmetric] by simp
    then have ok: "is_ok r \<longrightarrow> set (ul_processed_all st') = ba_bundle_path ` set arts"
      using fs by simp
    have all': "is_ok r \<longrightarrow> own_paths (ul_commits st') = map ba_bundle_path arts"
      using fs all by simp
    have "own_paths (ul_commits st') \<in> {own_paths (ul_commits st), map ba_bundle_path arts}"
      using fs all by simp
    then have "\<exists>n. own_paths (ul_commits st') = map ba_bundle_path (take n arts)"
      using pre whole by (metis insertE singletonD)
    with fs ok all' show ?thesis by blast
  next
    case meta
    then have f: "flush_metadata_only_commit env st = (r, st')" using assms(1) by (simp add: finish_uploader_def)
    have none: "ul_commits st = []" "arts = []" "ul_processed_all st = []"
      using inv meta all by (auto simp: uploader_inv_def)
    from metadata_commit_result [OF f none(1) meta(2,1)] none show ?thesis by auto
  next
    case bye
    then have "ul_commits st' = ul_commits st \<and> ul_processed_all st' = ul_processed_all st \<and> ul_batch st' = [] \<and>
        ul_commits st \<noteq> []"
      using assms(1) inv by (auto simp: finish_uploader_def uploader_inv_def split: option.splits)
    moreover have eq: "own_paths (ul_commits st) = map ba_bundle_path arts" using all bye by simp
    moreover have "set (ul_processed_all st) = ba_bundle_path ` set arts"
      using inv eq by (simp add: uploader_inv_def)
    moreover have "commits_ok env st'" using inv calculation(1) by (simp add: uploader_inv_def commits_ok_def)
    ultimately show ?thesis using whole by metis
  qed
qed

section \<open>Lemmas: pruning\<close>

text \<open>The parent of a canonical path is canonical.\<close>

definition canonical_parents :: "'g gateway_ops \<Rightarrow> bool" where
  "canonical_parents ops \<longleftrightarrow>
     (\<forall>p g canon up g' canon'. go_canonicalize ops p g = Inr canon \<and> parent canon = Some up \<and>
        go_canonicalize ops up g' = Inr canon' \<longrightarrow> components canon' = components up)"

lemma prune_loop_inside:
  assumes "prune_loop fuel ops stop current removed g = Some (Inr out, g')"
    and "\<forall>d\<in>set removed. path_starts_with d stop \<and> components d \<noteq> components stop"
  shows "\<forall>d\<in>set out. path_starts_with d stop \<and> components d \<noteq> components stop"
  using assms
proof (induction fuel arbitrary: current removed g)
  case (Suc fuel)
  show ?case
  proof (cases "go_canonicalize ops current g")
    case (Inl e)
    then show ?thesis using Suc.prems by (cases e) auto
  next
    case (Inr canon)
    show ?thesis
    proof (cases "components canon = components stop \<or> \<not> path_starts_with canon stop")
      case True
      then show ?thesis using Suc.prems Inr by simp
    next
      case False
      obtain r g1 where r: "go_remove_dir ops canon g = (r, g1)" by fastforce
      have more: "\<forall>d\<in>set (removed @ [canon]). path_starts_with d stop \<and> components d \<noteq> components stop"
        using Suc.prems(2) False by auto
      show ?thesis
      proof (cases r)
        case (Inl e)
        then show ?thesis
          using Suc.prems Suc.IH [of _ removed g1] Inr False r
          by (cases e; cases "parent canon") auto
      next
        case ok: (Inr u)
        show ?thesis
        proof (cases "parent canon")
          case None
          then show ?thesis using Suc.prems(1) more Inr False r ok by auto
        next
          case (Some up)
          then have "prune_loop fuel ops stop up (removed @ [canon]) g1 = Some (Inr out, g')"
            using Suc.prems(1) Inr False r ok by simp
          from Suc.IH [OF this more] show ?thesis .
        qed
      qed
    qed
  qed
qed simp

lemma prune_loop_total:
  assumes "canonical_parents ops"
    and "\<And>g canon. go_canonicalize ops current g = Inr canon \<Longrightarrow> length (components canon) < fuel"
    and "0 < fuel"
  shows "prune_loop fuel ops stop current removed g \<noteq> None"
  using assms
proof (induction fuel arbitrary: current removed g)
  case (Suc fuel)
  have deeper: "prune_loop fuel ops stop up removed' g1 \<noteq> None"
    if c: "go_canonicalize ops current g = Inr canon" and up: "parent canon = Some up" for canon up removed' g1
  proof (rule Suc.IH [OF Suc.prems(1)])
    have len: "length (components canon) < Suc fuel" by (rule Suc.prems(2) [OF c])
    have pos: "components canon \<noteq> []" "components up = butlast (components canon)"
      using parent_components [OF up] by simp_all
    then show "0 < fuel" using len by (cases "components canon") auto
    fix g2 canon'
    assume "go_canonicalize ops up g2 = Inr canon'"
    then have "components canon' = components up"
      using Suc.prems(1) c up unfolding canonical_parents_def by blast
    then show "length (components canon') < fuel" using pos len by (cases "components canon") auto
  qed
  show ?case
    using deeper
    by (auto split: sum.splits io_kind.splits prod.splits option.splits)
qed simp

section \<open>Properties\<close>

text \<open>C2: the uploader loses nothing. When the task ends without an error, whatever the batch
  thresholds and the order in which concurrent uploads finish, the gateway has accepted commits
  that together complete every received bundle exactly once and in order; the set it reports as
  processed is the set of these bundles; and the bundles the check skipped are committed with the
  region-wide counters in the first commit and in no other.\<close>

theorem uploader_commits_every_bundle_once:
  assumes "run_uploader env arts s g = (Inr processed, st)"
  shows "own_paths (ul_commits st) = map ba_bundle_path arts \<and>
    set processed = ba_bundle_path ` set arts \<and>
    (\<forall>c\<in>set (tl (ul_commits st)). no_extras c) \<and>
    (arts \<noteq> [] \<or> en_check_skipped_bundles env \<noteq> [] \<longrightarrow>
       ul_commits st \<noteq> [] \<and> with_extras env (hd (ul_commits st)))"
proof -
  obtain st1 where r: "receive_all env arts (uploader_init s g) = (Inr (), st1)"
    and f: "finish_uploader env st1 = (Inr (), st)" and p: "processed = ul_processed_all st"
    using assms by (auto simp: run_uploader_def st_bind_Inr)
  have "uploader_inv env arts st1" using receive_all_inv [OF r uploader_init_inv] by simp
  from finish_step [OF f this] show ?thesis by (auto simp: p commits_ok_def)
qed

definition demo_ack :: upload_ack where
  "demo_ack = \<lparr>ua_stream_id = 1, ua_status = ''OK'', ua_placement = Some Shared, ua_server_sha256 = None,
     ua_storage_key = None, ua_message = None\<rparr>"

definition demo_ops :: "nat gateway_ops" where
  "demo_ops = \<lparr>
     go_connect = (\<lambda>cfg hello g. (Inr \<lparr>sh_id = g, sh_ack = \<lparr>ha_session_id = [], ha_server_version = [],
        ha_max_frame = 1000, ha_max_in_flight_uploads = 2, ha_sha256_required = True,
        ha_known_version = False\<rparr>\<rparr>, g + 1)),
     go_check = (\<lambda>session items g.
        (Inr (map (\<lambda>i. \<lparr>ca_path = ci_path i, ca_action = Skip, ca_placement = None\<rparr>) items), g)),
     go_upload = (\<lambda>session bundle path fp file s g. (Inr demo_ack, g)),
     go_commit = (\<lambda>session c g. (Inr \<lparr>cm_version_id = g, cm_override_index_rebuilt = False\<rparr>, g)),
     go_close = (\<lambda>session g. g),
     go_canonicalize = (\<lambda>p g. Inr p),
     go_remove_dir = (\<lambda>p g. (Inl DirectoryNotEmpty, g)),
     go_show_error = (\<lambda>e. ''error'')\<rparr>"

definition demo_env :: "nat uploader_env" where
  "demo_env = \<lparr>en_ops = demo_ops, en_codec = demo_codec, en_pkg_version = ''0'',
     en_config = default_app_config, en_region_name = ''jp'',
     en_current = \<lparr>cv_app_version = None, cv_app_hash = None, cv_asset_version = None, cv_asset_hash = None\<rparr>,
     en_run_id = ''r'', en_snapshot_path = ''snap'',
     en_new_info = \<lparr>bi_version = None, bi_os = None, bi_bundles = []\<rparr>,
     en_layer1_skipped = 0, en_check_skipped = 1, en_check_skipped_bundles = [(''z'', ''9'')],
     en_sched = (\<lambda>_. [])\<rparr>"

definition demo_art :: bundle_artefacts where
  "demo_art = \<lparr>ba_bundle_path = ''a'', ba_bundle_hash = ''1'', ba_export_root = ''out'', ba_files = []\<rparr>"

lemma demo_uploader_run:
  "\<exists>st. run_uploader demo_env [demo_art] \<lparr>fs_files = Map.empty, fs_clock = 0, fs_fault = no_faults\<rparr> 0
     = (Inr [''a''], st)"
  by (simp add: run_uploader_def receive_artefact_def uploader_init_def should_flush_def Let_def
      finish_uploader_def flush_batch_def ensure_session_def connect_hip_with_def demo_env_def demo_ops_def
      demo_art_def upload_bundle_artefacts_def upload_hip_files_concurrently_def bundle_jobs_def
      take_first_commit_extras_def commit_and_close_def merge_committed_def removes_local_def info_get_def
      dedupe_def artefact_bytes_def List.map_filter_simps default_config_defs)

theorem uploader_commits_every_bundle_once_witness:
  "\<exists>st. run_uploader demo_env [demo_art] \<lparr>fs_files = Map.empty, fs_clock = 0, fs_fault = no_faults\<rparr> 0
     = (Inr [''a''], st) \<and> own_paths (ul_commits st) = [''a''] \<and> with_extras demo_env (hd (ul_commits st))"
proof -
  obtain st where r: "run_uploader demo_env [demo_art]
      \<lparr>fs_files = Map.empty, fs_clock = 0, fs_fault = no_faults\<rparr> 0 = (Inr [''a''], st)"
    using demo_uploader_run by blast
  from uploader_commits_every_bundle_once [OF r] r show ?thesis by (simp add: demo_art_def)
qed

text \<open>an uploader that fails commits nothing twice. Whatever error ends it, the accepted
  commits complete a prefix of the received bundles, each once, no commit is larger than the
  configured batch, and the extras are in the first commit only.\<close>

theorem uploader_failure_commits_prefix:
  assumes "run_uploader env arts s g = (Inl e, st)"
  shows "(\<exists>n. own_paths (ul_commits st) = map ba_bundle_path (take n arts)) \<and>
    (\<forall>c\<in>set (tl (ul_commits st)). no_extras c) \<and>
    (0 < hp_commit_batch_bundles (ap_hip (en_config env)) \<longrightarrow>
       (\<forall>c\<in>set (ul_commits st). length (own_completions c) \<le> hp_commit_batch_bundles (ap_hip (en_config env))))"
proof -
  obtain r1 st1 where r: "receive_all env arts (uploader_init s g) = (r1, st1)" by fastforce
  note inv = receive_all_inv [OF r uploader_init_inv]
  show ?thesis
  proof (cases r1)
    case (Inl e1)
    then have "st = st1" using assms r by (simp add: run_uploader_def)
    then show ?thesis using inv by (auto simp: commits_ok_def bundle_limit_def)
  next
    case (Inr u)
    then obtain r2 where f: "finish_uploader env st1 = (r2, st)"
      using assms r by (auto simp: run_uploader_def st_bind_Inl)
    have "uploader_inv env arts st1" using inv Inr by simp
    from finish_step [OF f this] show ?thesis by (auto simp: commits_ok_def bundle_limit_def)
  qed
qed

theorem uploader_failure_commits_prefix_witness:
  "\<exists>st. run_uploader (demo_env\<lparr>en_ops := demo_ops\<lparr>go_commit := (\<lambda>session c g. (Inl (HipTimeout 1), g))\<rparr>\<rparr>) [demo_art]
      \<lparr>fs_files = Map.empty, fs_clock = 0, fs_fault = no_faults\<rparr> 0 = (Inl (PollHip ''error''), st) \<and>
     (\<exists>n. own_paths (ul_commits st) = map ba_bundle_path (take n [demo_art]))"
proof -
  let ?env = "demo_env\<lparr>en_ops := demo_ops\<lparr>go_commit := (\<lambda>session c g. (Inl (HipTimeout 1), g))\<rparr>\<rparr>"
  obtain st where r: "run_uploader ?env [demo_art]
      \<lparr>fs_files = Map.empty, fs_clock = 0, fs_fault = no_faults\<rparr> 0 = (Inl (PollHip ''error''), st)"
    by (simp add: run_uploader_def receive_artefact_def uploader_init_def should_flush_def Let_def
      finish_uploader_def flush_batch_def ensure_session_def connect_hip_with_def demo_env_def demo_ops_def
      demo_art_def upload_bundle_artefacts_def upload_hip_files_concurrently_def bundle_jobs_def
      take_first_commit_extras_def commit_and_close_def dedupe_def artefact_bytes_def
      List.map_filter_simps default_config_defs)
  from uploader_failure_commits_prefix [OF r] r show ?thesis by blast
qed

text \<open>in a batch that uploads without error every existing file of every bundle is sent exactly
  once, for every order in which the concurrent uploads finish, and the two placement counters of the
  commit add up to the number of these files.\<close>

theorem batch_files_uploaded_once:
  assumes "upload_bundle_artefacts ops session s sched bundles g = (Inr outcome, g')"
  shows "(\<exists>results g1. upload_hip_files_concurrently ops session s sched (concat (map (bundle_jobs s) bundles))
        (max_in_flight_uploads session) g = (Inr results, g1) \<and>
      mset (map fst results) = mset (concat (map (bundle_jobs s) bundles))) \<and>
    ct_uploaded_shared (uo_stats outcome) + ct_uploaded_override (uo_stats outcome) =
      length (concat (map (bundle_jobs s) bundles))"
proof -
  obtain results g1 where r: "upload_hip_files_concurrently ops session s sched
      (concat (map (bundle_jobs s) bundles)) (max_in_flight_uploads session) g = (Inr results, g1)"
    using assms by (auto simp: upload_bundle_artefacts_def Let_def st_bind_Inr)
  with upload_files_jobs [OF r] upload_outcome_Inr(4) [OF assms] show ?thesis by blast
qed

theorem batch_files_uploaded_once_witness:
  "\<exists>outcome g'. upload_bundle_artefacts demo_ops
       \<lparr>sh_id = 0, sh_ack = \<lparr>ha_session_id = [], ha_server_version = [], ha_max_frame = 0,
          ha_max_in_flight_uploads = 2, ha_sha256_required = False, ha_known_version = False\<rparr>\<rparr>
       \<lparr>fs_files = [''out/a.png'' \<mapsto> [1], ''out/b.png'' \<mapsto> [2]], fs_clock = 0, fs_fault = no_faults\<rparr> [1]
       [demo_art\<lparr>ba_files := [''out/a.png'', ''out/gone'', ''out/b.png'']\<rparr>] 0 = (Inr outcome, g') \<and>
     ct_uploaded_shared (uo_stats outcome) + ct_uploaded_override (uo_stats outcome) = 2"
proof -
  let ?session = "\<lparr>sh_id = 0, sh_ack = \<lparr>ha_session_id = [], ha_server_version = [], ha_max_frame = 0,
          ha_max_in_flight_uploads = 2, ha_sha256_required = False, ha_known_version = False\<rparr>\<rparr>"
  let ?s = "\<lparr>fs_files = [''out/a.png'' \<mapsto> [1], ''out/b.png'' \<mapsto> [2]], fs_clock = 0, fs_fault = no_faults\<rparr>"
  let ?b = "[demo_art\<lparr>ba_files := [''out/a.png'', ''out/gone'', ''out/b.png'']\<rparr>]"
  obtain outcome g' where r: "upload_bundle_artefacts demo_ops ?session ?s [1] ?b 0 = (Inr outcome, g')"
    by (simp add: upload_bundle_artefacts_def upload_hip_files_concurrently_def bundle_jobs_def Let_def
        max_in_flight_uploads_def upload_loop.simps run_upload_job_def demo_ops_def demo_art_def)
  have "length (concat (map (bundle_jobs ?s) ?b)) = 2" by (simp add: bundle_jobs_def demo_art_def)
  with batch_files_uploaded_once [OF r] r show ?thesis by metis
qed

text \<open>pruning after a commit stays strictly inside the export root: every directory it removes
  is a proper descendant of the canonical root, and, since the parent of a canonical path is
  canonical, the loop ends (the fuel, one more than the depth of the first directory, is never used
  up).\<close>

theorem prune_stays_inside_root:
  assumes "canonical_parents ops" and "\<And>p g g'. go_canonicalize ops p g = go_canonicalize ops p g'"
  shows "prune_empty_parent_dirs ops path root_dir g \<noteq> None \<and>
    (\<forall>out g' stop. prune_empty_parent_dirs ops path root_dir g = Some (Inr out, g') \<and>
       go_canonicalize ops root_dir g = Inr stop \<longrightarrow>
       (\<forall>d\<in>set out. path_starts_with d stop \<and> components d \<noteq> components stop))"
proof (intro conjI allI impI)
  have "prune_loop (prune_fuel ops current g) ops stop current [] g \<noteq> None" for current stop
  proof (rule prune_loop_total [OF assms(1)])
    fix g1 canon
    assume "go_canonicalize ops current g1 = Inr canon"
    then have "go_canonicalize ops current g = Inr canon" using assms(2) by metis
    then show "length (components canon) < prune_fuel ops current g" by (simp add: prune_fuel_def)
  qed (simp add: prune_fuel_def split: sum.split)
  then show "prune_empty_parent_dirs ops path root_dir g \<noteq> None"
    by (auto simp: prune_empty_parent_dirs_def split: sum.splits io_kind.splits option.splits)
next
  fix out g' stop
  assume "prune_empty_parent_dirs ops path root_dir g = Some (Inr out, g') \<and>
       go_canonicalize ops root_dir g = Inr stop"
  then show "\<forall>d\<in>set out. path_starts_with d stop \<and> components d \<noteq> components stop"
    using prune_loop_inside [of _ ops stop _ "[]" g out g']
    by (auto simp: prune_empty_parent_dirs_def split: option.splits)
qed

theorem prune_stays_inside_root_witness:
  "prune_empty_parent_dirs (demo_ops\<lparr>go_remove_dir := (\<lambda>p g. (Inr (), g))\<rparr>) ''/r/a/f'' ''/r'' 0 \<noteq> None"
proof -
  let ?ops = "demo_ops\<lparr>go_remove_dir := (\<lambda>p g. (Inr (), g))\<rparr>"
  have c: "canonical_parents ?ops" by (auto simp: canonical_parents_def demo_ops_def)
  have "go_canonicalize ?ops p g = go_canonicalize ?ops p g'" for p g g' by (simp add: demo_ops_def)
  from prune_stays_inside_root [OF c this, of "''/r/a/f''" "''/r''" 0] show ?thesis by blast
qed

end
