(* ===== verification/Retry.thy ===== *)
theory Retry
  imports Config_Types File_System
begin

text \<open>
  \<^verbatim>\<open>src/core/retry.rs\<close> and \<^verbatim>\<open>src/core/cleanup.rs\<close>. An operation that may be tried again is a
  function from the attempt number and the state of the world to a result and a new state. The
  loops return, next to the result, the list of the results of all attempts and the delays slept;
  both are ghost outputs.
\<close>

section \<open>Backoff\<close>

definition checked_shl_1 :: "nat \<Rightarrow> nat option" where
  "checked_shl_1 sh = (if sh < 64 then Some (2 ^ sh) else None)"

definition backoff_delay :: "retry_config \<Rightarrow> nat \<Rightarrow> nat" where
  "backoff_delay config attempt =
     (let base = max (rt_initial_backoff_ms config) 1;
          limit = max (rt_max_backoff_ms config) base;
          multiplier = unwrap_or u64_max (checked_shl_1 ((attempt - 1) mod 2 ^ 32))
      in min (min (base * multiplier) u64_max) limit)"

section \<open>The attempt loop\<close>

type_synonym ('s, 'e, 'a) attempt_op = "nat \<Rightarrow> 's \<Rightarrow> ('e + 'a) \<times> 's"

record ('e, 'a, 's) attempt_run =
  run_result :: "'e + 'a"
  run_trace :: "('e + 'a) list"
  run_delays :: "nat list"
  run_state :: 's

function retry_from ::
    "(nat \<Rightarrow> nat) \<Rightarrow> ('s, 'e, 'a) attempt_op \<Rightarrow> ('e \<Rightarrow> bool) \<Rightarrow> nat \<Rightarrow> nat \<Rightarrow> 's \<Rightarrow>
     ('e, 'a, 's) attempt_run" where
  "retry_from delay op should_retry attempts attempt s =
     (case op attempt s of
        (Inr v, s') \<Rightarrow> \<lparr>run_result = Inr v, run_trace = [Inr v], run_delays = [], run_state = s'\<rparr>
      | (Inl e, s') \<Rightarrow>
          if attempt < attempts \<and> should_retry e
          then (let r = retry_from delay op should_retry attempts (attempt + 1) s'
                in r\<lparr>run_trace := Inl e # run_trace r, run_delays := delay attempt # run_delays r\<rparr>)
          else \<lparr>run_result = Inl e, run_trace = [Inl e], run_delays = [], run_state = s'\<rparr>)"
  by pat_completeness auto
termination
  by (relation "measure (\<lambda>(d, op, sr, n, a, s). n - a)") auto

declare retry_from.simps [simp del]

definition retry_sync ::
    "retry_config \<Rightarrow> ('s, 'e, 'a) attempt_op \<Rightarrow> ('e \<Rightarrow> bool) \<Rightarrow> 's \<Rightarrow> ('e, 'a, 's) attempt_run" where
  "retry_sync config op should_retry s =
     retry_from (backoff_delay config) op should_retry (max (rt_attempts config) 1) 1 s"

definition retry_async ::
    "retry_config \<Rightarrow> ('s, 'e, 'a) attempt_op \<Rightarrow> ('e \<Rightarrow> bool) \<Rightarrow> 's \<Rightarrow> ('e, 'a, 's) attempt_run" where
  "retry_async config op should_retry s =
     retry_from (backoff_delay config) op should_retry (max (rt_attempts config) 1) 1 s"

section \<open>Removing a file\<close>

definition REMOVE_FILE_ATTEMPTS :: nat where "REMOVE_FILE_ATTEMPTS = 8"

fun is_retryable_remove_error :: "io_kind \<Rightarrow> bool" where
  "is_retryable_remove_error PermissionDenied = True"
| "is_retryable_remove_error Interrupted = True"
| "is_retryable_remove_error WouldBlock = True"
| "is_retryable_remove_error OtherIo = True"
| "is_retryable_remove_error _ = False"

definition remove_attempt :: "string \<Rightarrow> (fs, io_kind, unit) attempt_op" where
  "remove_attempt path n s =
     (case fs_remove_file path s of
        (Inl NotFound, s') \<Rightarrow> (Inr (), s')
      | r \<Rightarrow> r)"

text \<open>The loop counts from 0; the attempt that is followed by another is one with
  \<open>attempt + 1 < REMOVE_FILE_ATTEMPTS\<close>, so counting from 1 it is one below the limit.\<close>

definition remove_file_with_retries :: "string \<Rightarrow> fs \<Rightarrow> (io_kind, unit, fs) attempt_run" where
  "remove_file_with_retries path s =
     retry_from (\<lambda>_. 25) (remove_attempt path) is_retryable_remove_error REMOVE_FILE_ATTEMPTS 1 s"

definition remove_file_if_exists :: "string \<Rightarrow> fs \<Rightarrow> (io_kind + unit) \<times> fs" where
  "remove_file_if_exists path s =
     (let r = remove_file_with_retries path s
      in case run_result r of
           Inl NotFound \<Rightarrow> (Inr (), run_state r)
         | res \<Rightarrow> (res, run_state r))"

section \<open>The contract of a bounded loop\<close>

text \<open>At least one attempt and at most \<open>limit\<close>; every attempt but the last failed with a
  retryable error; the result is the last attempt's; a retryable error is only returned when the
  attempts are used up.\<close>

locale bounded_attempts =
  fixes run :: "'s \<Rightarrow> ('e, 'a, 's) attempt_run"
    and limit :: nat
    and retryable :: "'e \<Rightarrow> bool"
  assumes made: "run_trace (run s) \<noteq> []"
    and bounded: "length (run_trace (run s)) \<le> limit"
    and result_last: "run_result (run s) = last (run_trace (run s))"
    and earlier: "r \<in> set (butlast (run_trace (run s))) \<Longrightarrow> \<exists>e. r = Inl e \<and> retryable e"
    and exhausted: "run_result (run s) = Inl e \<Longrightarrow> retryable e \<Longrightarrow> length (run_trace (run s)) = limit"
begin

lemma limit_pos: "0 < limit"
  using made bounded by (metis length_greater_0_conv order_less_le_trans)

lemma fatal_stops: "run_result (run s) = Inl e \<Longrightarrow> \<not> retryable e \<Longrightarrow>
    \<forall>r\<in>set (butlast (run_trace (run s))). \<exists>e'. r = Inl e' \<and> e' \<noteq> e"
  using earlier by blast

lemma ok_once: "run_result (run s) = Inr v \<Longrightarrow> Inr v' \<notin> set (butlast (run_trace (run s)))"
  using earlier by blast

lemma single_attempt:
  "\<forall>e. \<not> retryable e \<Longrightarrow> length (run_trace (run s)) = 1"
proof -
  assume "\<forall>e. \<not> retryable e"
  then have "butlast (run_trace (run s)) = []"
    using earlier by (metis all_not_in_conv set_empty)
  then have "length (run_trace (run s)) - 1 = 0" by (metis length_butlast list.size(3))
  with made [of s] show ?thesis by (cases "run_trace (run s)") auto
qed

end

lemma retry_from_contract:
  assumes "attempt \<le> attempts" and r: "r = retry_from d op sr attempts attempt s"
  shows "run_trace r \<noteq> [] \<and> length (run_trace r) \<le> attempts - attempt + 1 \<and>
    run_result r = last (run_trace r) \<and>
    (\<forall>x\<in>set (butlast (run_trace r)). \<exists>e. x = Inl e \<and> sr e) \<and>
    (\<forall>e. run_result r = Inl e \<longrightarrow> sr e \<longrightarrow> length (run_trace r) = attempts - attempt + 1)"
  using assms(1) unfolding r
proof (induction d op sr attempts attempt s rule: retry_from.induct)
  case (1 d op sr attempts attempt s)
  obtain res s' where op: "op attempt s = (res, s')" by fastforce
  show ?case
  proof (cases "\<exists>e. res = Inl e \<and> attempt < attempts \<and> sr e")
    case True
    then obtain e where e: "res = Inl e" "attempt < attempts" "sr e" by blast
    have IH: "run_trace r \<noteq> [] \<and> length (run_trace r) \<le> attempts - (attempt + 1) + 1 \<and>
        run_result r = last (run_trace r) \<and>
        (\<forall>x\<in>set (butlast (run_trace r)). \<exists>e. x = Inl e \<and> sr e) \<and>
        (\<forall>e. run_result r = Inl e \<longrightarrow> sr e \<longrightarrow> length (run_trace r) = attempts - (attempt + 1) + 1)"
      if "r = retry_from d op sr attempts (attempt + 1) s'" for r
      unfolding that using "1.IH" [OF op [symmetric] e(1)] e by simp
    show ?thesis
      using IH [OF refl] e by (subst (1 2 3 4 5 6 7) retry_from.simps) (auto simp: op Let_def)
  next
    case False
    then show ?thesis
      using "1.prems" by (subst (1 2 3 4 5 6 7) retry_from.simps) (cases res; auto simp: op)
  qed
qed

lemma retry_from_ok:
  "run_result (retry_from d op sr n i s) = Inr v \<Longrightarrow> \<exists>k s1 s2. op k s1 = (Inr v, s2)"
proof (induction d op sr n i s rule: retry_from.induct)
  case (1 d op sr n i s)
  obtain r s' where op: "op i s = (r, s')" by fastforce
  show ?case
  proof (cases "\<exists>e. r = Inl e \<and> i < n \<and> sr e")
    case True
    then show ?thesis using "1.prems" "1.IH" [OF op [symmetric]] by (subst (asm) retry_from.simps) (auto simp: op Let_def)
  next
    case False
    then show ?thesis using "1.prems" op by (subst (asm) retry_from.simps) (auto split: sum.splits)
  qed
qed

lemma retry_from_keeps:
  "(\<And>k s. P s \<Longrightarrow> P (snd (op k s))) \<Longrightarrow> P s \<Longrightarrow> P (run_state (retry_from d op sr n i s))"
proof (induction d op sr n i s rule: retry_from.induct)
  case (1 d op sr n i s)
  obtain r s' where op: "op i s = (r, s')" by fastforce
  then have "P s'" using "1.prems"(1) [OF "1.prems"(2), of i] by simp
  then show ?case
    using "1.IH" [OF op [symmetric]] "1.prems"(1) by (subst retry_from.simps) (auto simp: op Let_def split: sum.split)
qed

interpretation sync_attempts: bounded_attempts "retry_sync config op sr" "max (rt_attempts config) 1" sr
  for config op sr
  using retry_from_contract [OF _ refl, of 1 "max (rt_attempts config) 1" "backoff_delay config" op sr]
  by unfold_locales (simp_all add: retry_sync_def)

interpretation async_attempts: bounded_attempts "retry_async config op sr" "max (rt_attempts config) 1" sr
  for config op sr
  using retry_from_contract [OF _ refl, of 1 "max (rt_attempts config) 1" "backoff_delay config" op sr]
  by unfold_locales (simp_all add: retry_async_def)

interpretation remove_attempts: bounded_attempts "remove_file_with_retries path" REMOVE_FILE_ATTEMPTS
  is_retryable_remove_error for path
  using retry_from_contract [OF _ refl, of 1 REMOVE_FILE_ATTEMPTS "\<lambda>_. 25" "remove_attempt path"
      is_retryable_remove_error]
  by unfold_locales (simp_all add: remove_file_with_retries_def REMOVE_FILE_ATTEMPTS_def)

section \<open>Properties\<close>

text \<open>the delay before attempt \<open>n + 1\<close> is the initial backoff doubled \<open>n - 1\<close> times and cut at
  the maximum; neither the shift nor the multiplication overflows into a smaller value for any
  attempt number below \<open>2 ^ 32\<close>.\<close>

theorem backoff_delay_doubles_up_to_max:
  assumes "1 \<le> n" and "n \<le> 2 ^ 32"
    and "rt_initial_backoff_ms config \<le> u64_max" and "rt_max_backoff_ms config \<le> u64_max"
  shows "backoff_delay config n =
    min (max (rt_initial_backoff_ms config) 1 * 2 ^ (n - 1))
        (max (rt_max_backoff_ms config) (max (rt_initial_backoff_ms config) 1))"
proof -
  define base where "base = max (rt_initial_backoff_ms config) 1"
  define limit where "limit = max (rt_max_backoff_ms config) base"
  have base: "1 \<le> base" by (simp add: base_def)
  have limit: "limit \<le> u64_max" using assms(3,4) by (auto simp: limit_def base_def u64_max_def)
  have md: "(n - 1) mod 2 ^ 32 = n - 1" using assms(1,2) by simp
  have unfold: "backoff_delay config n =
      min (min (base * unwrap_or u64_max (checked_shl_1 (n - 1))) u64_max) limit"
    by (simp only: backoff_delay_def Let_def md base_def [symmetric] limit_def [symmetric])
  have "\<dots> = min (base * 2 ^ (n - 1)) limit"
  proof (cases "n - 1 < 64")
    case True
    then show ?thesis using limit by (simp add: checked_shl_1_def min_def)
  next
    case False
    have big: "u64_max \<le> (2::nat) ^ (n - 1)"
    proof -
      have "(2::nat) ^ 64 \<le> 2 ^ (n - 1)" using False by (intro power_increasing) auto
      then show ?thesis by (simp add: u64_max_def)
    qed
    have grow: "m \<le> base * m" for m :: nat
    proof -
      have "1 * m \<le> base * m" using base by (intro mult_right_mono) auto
      then show ?thesis by simp
    qed
    have "limit \<le> base * 2 ^ (n - 1)" and "limit \<le> base * u64_max"
      using limit big grow [of "2 ^ (n - 1)"] grow [of u64_max] by linarith+
    then show ?thesis using False limit by (simp add: checked_shl_1_def min_def)
  qed
  with unfold show ?thesis by (simp only: limit_def base_def)
qed

theorem backoff_delay_doubles_up_to_max_witness:
  "backoff_delay \<lparr>rt_attempts = 4, rt_initial_backoff_ms = 1000, rt_max_backoff_ms = 4000\<rparr> 2 = 2000"
  using backoff_delay_doubles_up_to_max
    [of 2 "\<lparr>rt_attempts = 4, rt_initial_backoff_ms = 1000, rt_max_backoff_ms = 4000\<rparr>"]
  by (simp add: u64_max_def)

text \<open>both retry loops return: after at least one and at most \<open>max attempts 1\<close> attempts, with
  the result of the last one. Every earlier attempt failed with an error the predicate allows to be
  retried, so an operation that succeeded is never run again, and a retryable error is returned
  only when all the attempts were used.\<close>

theorem retry_loops_bounded:
  assumes "r = retry_async config op should_retry s \<or> r = retry_sync config op should_retry s"
  shows "1 \<le> length (run_trace r) \<and> length (run_trace r) \<le> max (rt_attempts config) 1 \<and>
    run_result r = last (run_trace r) \<and>
    (\<forall>x\<in>set (butlast (run_trace r)). \<exists>e. x = Inl e \<and> should_retry e) \<and>
    (\<forall>e. run_result r = Inl e \<and> should_retry e \<longrightarrow> length (run_trace r) = max (rt_attempts config) 1)"
  using assms async_attempts.made async_attempts.bounded async_attempts.result_last
    async_attempts.earlier async_attempts.exhausted
    sync_attempts.made sync_attempts.bounded sync_attempts.result_last
    sync_attempts.earlier sync_attempts.exhausted
  by (metis One_nat_def Suc_leI length_greater_0_conv)

definition flaky :: "nat \<Rightarrow> nat \<Rightarrow> (string + nat) \<times> nat" where
  "flaky n s = (if n < 3 then Inl ''busy'' else Inr (s + n), s + 1)"

theorem retry_loops_bounded_witness:
  "length (run_trace (retry_sync default_retry_config flaky (\<lambda>_. True) 0)) \<le> 4 \<and>
   run_result (retry_sync default_retry_config flaky (\<lambda>_. True) 0) = Inr 5"
  using retry_loops_bounded [of "retry_sync default_retry_config flaky (\<lambda>_. True) 0"
      default_retry_config flaky "\<lambda>_. True" 0]
  by (simp add: retry_sync_def retry_from.simps flaky_def default_retry_config_def Let_def)

lemma remove_attempt_result:
  assumes "remove_attempt path n s = (r, s')" and honest: "\<And>t k. fs_fault s t (OpRemove path) \<noteq> Some (NotFound, k)"
  shows "fs_fault s' = fs_fault s \<and>
    (r = Inr () \<and> fs_files s' = (fs_files s)(path := None) \<or>
     (\<exists>e. r = Inl e \<and> fs_files s' = fs_files s))"
  using assms
  by (auto simp: remove_attempt_def fs_remove_file_def fs_fails_def fun_upd_idem
      split: option.splits sum.splits io_kind.splits if_splits prod.splits)

lemma retry_remove_result:
  assumes "attempt \<le> attempts" and "\<And>t k. fs_fault s t (OpRemove path) \<noteq> Some (NotFound, k)"
    and "r = retry_from d (remove_attempt path) sr attempts attempt s"
  shows "run_result r = Inr () \<and> fs_files (run_state r) = (fs_files s)(path := None) \<or>
     (\<exists>e. run_result r = Inl e \<and> fs_files (run_state r) = fs_files s)"
  using assms
proof (induction d "remove_attempt path" sr attempts attempt s arbitrary: r rule: retry_from.induct)
  case (1 d sr attempts attempt s)
  obtain res s' where op: "remove_attempt path attempt s = (res, s')" by fastforce
  note st = remove_attempt_result [OF op "1.prems"(2)]
  show ?case
  proof (cases "\<exists>e. res = Inl e \<and> attempt < attempts \<and> sr e")
    case True
    then obtain e where e: "res = Inl e" "attempt < attempts" "sr e" by blast
    let ?r = "retry_from d (remove_attempt path) sr attempts (attempt + 1) s'"
    have "run_result ?r = Inr () \<and> fs_files (run_state ?r) = (fs_files s')(path := None) \<or>
       (\<exists>e. run_result ?r = Inl e \<and> fs_files (run_state ?r) = fs_files s')"
      using "1.hyps" [OF op [symmetric] e(1)] e st "1.prems"(2) by auto
    moreover have "fs_files s' = fs_files s" using st e by auto
    moreover have "run_result r = run_result ?r \<and> run_state r = run_state ?r"
      using e by (simp add: "1.prems"(3) retry_from.simps [of d _ sr attempts attempt] op Let_def)
    ultimately show ?thesis by simp
  next
    case False
    then show ?thesis using st
      by (cases res) (auto simp: "1.prems"(3) retry_from.simps [of d _ sr attempts attempt] op)
  qed
qed

lemma retry_result_is_attempt:
  assumes "attempt \<le> attempts" and "r = retry_from d op sr attempts attempt s"
  shows "\<exists>n s0. fst (op n s0) = run_result r"
  using assms
proof (induction d op sr attempts attempt s arbitrary: r rule: retry_from.induct)
  case (1 d op sr attempts attempt s)
  obtain res s' where op: "op attempt s = (res, s')" by fastforce
  show ?case
  proof (cases "\<exists>e. res = Inl e \<and> attempt < attempts \<and> sr e")
    case True
    then obtain e where e: "res = Inl e" "attempt < attempts" "sr e" by blast
    have "run_result r = run_result (retry_from d op sr attempts (attempt + 1) s')"
      using e by (simp add: "1.prems"(2) retry_from.simps [of d op sr attempts attempt] op Let_def)
    with "1.IH" [OF op [symmetric] e(1)] e show ?thesis by auto
  next
    case False
    then have "run_result r = res"
      by (cases res) (auto simp: "1.prems"(2) retry_from.simps [of d op sr attempts attempt] op)
    with op show ?thesis by (metis fst_conv)
  qed
qed

lemma remove_never_NotFound: "run_result (remove_file_with_retries path s) \<noteq> Inl NotFound"
proof -
  obtain n s0 where
    "fst (remove_attempt path n s0) = run_result (remove_file_with_retries path s)"
    using retry_result_is_attempt [OF _ remove_file_with_retries_def [of path s]]
    by (auto simp: REMOVE_FILE_ATTEMPTS_def)
  moreover have "fst (remove_attempt path n s0) \<noteq> Inl NotFound"
    by (auto simp: remove_attempt_def split: prod.splits sum.splits io_kind.splits)
  ultimately show ?thesis by simp
qed

text \<open>\<open>remove_file_if_exists\<close> is all or nothing. If it answers \<^verbatim>\<open>Ok\<close> the file is gone and no
  other file changed; if it answers an error, nothing changed. The hypothesis says that the
  operating system does not report a missing file for one that is there.\<close>

theorem remove_file_if_exists_outcome:
  assumes "\<And>t k. fs_fault s t (OpRemove path) \<noteq> Some (NotFound, k)"
    and "remove_file_if_exists path s = (r, s')"
  shows "(r = Inr () \<and> fs_files s' = (fs_files s)(path := None)) \<or>
         (\<exists>e. r = Inl e \<and> e \<noteq> NotFound \<and> fs_files s' = fs_files s)"
proof -
  let ?r = "remove_file_with_retries path s"
  have eq: "?r = retry_from (\<lambda>_. 25) (remove_attempt path) is_retryable_remove_error
      REMOVE_FILE_ATTEMPTS 1 s" by (simp add: remove_file_with_retries_def)
  have nf: "run_result ?r \<noteq> Inl NotFound" 
    by (rule remove_never_NotFound)
  then have "remove_file_if_exists path s = (run_result ?r, run_state ?r)"
    by (simp add: remove_file_if_exists_def Let_def split: sum.splits io_kind.splits)
  with retry_remove_result [OF _ assms(1) eq] assms(2) nf show ?thesis
    by (auto simp: REMOVE_FILE_ATTEMPTS_def)
qed

theorem remove_file_if_exists_outcome_witness:
  "fst (remove_file_if_exists ''a.usm''
     \<lparr>fs_files = [''a.usm'' \<mapsto> [1]], fs_clock = 0,
      fs_fault = (\<lambda>t p. if t < 2 then Some (PermissionDenied, None) else None)\<rparr>) = Inr ()"
proof -
  let ?s = "\<lparr>fs_files = [''a.usm'' \<mapsto> [1]], fs_clock = 0,
      fs_fault = (\<lambda>t p. if t < 2 then Some (PermissionDenied, None) else None)\<rparr> :: fs"
  let ?o = "remove_file_if_exists ''a.usm'' ?s"
  have "(fst ?o = Inr () \<and> fs_files (snd ?o) = (fs_files ?s)(''a.usm'' := None)) \<or>
         (\<exists>e. fst ?o = Inl e \<and> e \<noteq> NotFound \<and> fs_files (snd ?o) = fs_files ?s)"
    by (rule remove_file_if_exists_outcome) auto
  then show ?thesis
    by (simp add: remove_file_if_exists_def remove_file_with_retries_def retry_from.simps
        remove_attempt_def fs_remove_file_def fs_fails_def REMOVE_FILE_ATTEMPTS_def fs_tick_def Let_def)
qed

end
