(* ===== verification/Regions.thy ===== *)
theory Regions
  imports Asset_Types
begin

text \<open>
  \<^verbatim>\<open>src/core/regions.rs\<close>: choosing a region, previewing its URLs and the bundle filters. The
  regular-expression library is the parameter \<open>regex\<close>, which compiles a pattern to its matcher or
  refuses it.
\<close>

type_synonym regex = "string \<Rightarrow> (string \<Rightarrow> bool) option"

definition select_region :: "app_config \<Rightarrow> string \<Rightarrow> region_error + region_config" where
  "select_region config name =
     (case map_of (ap_regions config) name of
        None \<Rightarrow> Inl (RegionNotFound name)
      | Some region \<Rightarrow> if \<not> rg_enabled region then Inl (RegionDisabled name) else Inr region)"

definition replace_all :: "(string \<times> string) list \<Rightarrow> string \<Rightarrow> string" where
  "replace_all subst template = foldl (\<lambda>t (k, v). str_replace k v t) template subst"

definition cookie_note :: "bool \<Rightarrow> string list" where
  "cookie_note required =
     (if required then [''region requires runtime cookies before downloads can start''] else [])"

fun build_url_preview :: "region_provider_config \<Rightarrow> asset_update_request \<Rightarrow> url_preview" where
  "build_url_preview (ColorfulPalette c) request =
     (let profile_hash = map_of (cp_profile_hashes c) (cp_profile c);
          notes = cookie_note (cp_required_cookies c) @
            (if profile_hash = None
             then [''profile hash for `'' @ cp_profile c @ ''` is missing''] else []);
          info = (case (rq_asset_version request, rq_asset_hash request, profile_hash) of
              (Some version, Some hash, Some ph) \<Rightarrow>
                Some (replace_all [(''{env}'', cp_profile c), (''{hash}'', ph),
                        (''{asset_version}'', version), (''{asset_hash}'', hash)]
                        (cp_asset_info_url_template c))
            | _ \<Rightarrow> None)
      in \<lparr>uv_provider_kind = ''colorful_palette'',
          uv_asset_info_url = info,
          uv_asset_version_lookup_url = None,
          uv_asset_bundle_url_template =
            replace_all [(''{env}'', cp_profile c), (''{hash}'', unwrap_or ''<profile-hash>'' profile_hash),
              (''{asset_version}'', unwrap_or ''<asset-version>'' (rq_asset_version request)),
              (''{asset_hash}'', unwrap_or ''<asset-hash>'' (rq_asset_hash request))]
              (cp_asset_bundle_url_template c),
          uv_notes = notes @ (if info = None
            then [''asset info URL preview is incomplete until asset_version, asset_hash, and profile hash are known'']
            else [])\<rparr>)"
| "build_url_preview (Nuverse n) request =
     \<lparr>uv_provider_kind = ''nuverse'',
      uv_asset_info_url = Some (replace_all [(''{app_version}'', nv_app_version n),
         (''{asset_version}'', ''<resolved-at-runtime>'')] (nv_asset_info_url_template n)),
      uv_asset_version_lookup_url =
         Some (replace_all [(''{app_version}'', nv_app_version n)] (nv_asset_version_url n)),
      uv_asset_bundle_url_template = replace_all [(''{app_version}'', nv_app_version n),
         (''{asset_version}'', ''<resolved-at-runtime>'')] (nv_asset_bundle_url_template n),
      uv_notes = cookie_note (nv_required_cookies n) @
         [''asset_version is always resolved at runtime from the provider lookup URL'']\<rparr>"

definition compile_patterns :: "regex \<Rightarrow> string list \<Rightarrow> (string \<Rightarrow> bool) list" where
  "compile_patterns regex patterns = List.map_filter regex patterns"

definition matches_any :: "(string \<Rightarrow> bool) list \<Rightarrow> string \<Rightarrow> bool" where
  "matches_any patterns bundle_name = list_ex (\<lambda>r. r bundle_name) patterns"

fun first_match_index :: "(string \<Rightarrow> bool) list \<Rightarrow> string \<Rightarrow> nat option" where
  "first_match_index [] bundle_name = None"
| "first_match_index (r # rs) bundle_name =
     (if r bundle_name then Some 0 else map_option Suc (first_match_index rs bundle_name))"

definition should_skip_bundle :: "regex \<Rightarrow> region_filters_config \<Rightarrow> string \<Rightarrow> bool" where
  "should_skip_bundle regex filters bundle_name =
     matches_any (compile_patterns regex (rf_skip filters)) bundle_name"

definition download_priority :: "regex \<Rightarrow> region_filters_config \<Rightarrow> string \<Rightarrow> nat option" where
  "download_priority regex filters bundle_name =
     first_match_index (compile_patterns regex (rf_priority filters)) bundle_name"

section \<open>Lemmas\<close>

lemma matches_any_iff:
  "matches_any (compile_patterns regex ps) b \<longleftrightarrow> (\<exists>p\<in>set ps. \<exists>r. regex p = Some r \<and> r b)"
  by (induction ps) (auto simp: matches_any_def compile_patterns_def List.map_filter_simps split: option.splits)

lemma first_match_index_Some:
  "first_match_index rs b = Some i \<longleftrightarrow> i < length rs \<and> (rs ! i) b \<and> (\<forall>j<i. \<not> (rs ! j) b)"
proof (induction rs arbitrary: i)
  case (Cons r rs)
  show ?case
    by (cases i) (auto simp: Cons.IH less_Suc_eq_0_disj)
qed simp

lemma first_match_index_None:
  "first_match_index rs b = None \<longleftrightarrow> \<not> matches_any rs b"
  by (induction rs) (auto simp: matches_any_def)

lemma no_patterns_no_match: "rs = [] \<Longrightarrow> \<not> matches_any rs b"
  by (simp add: matches_any_def)

lemma select_region_Inr:
  "select_region config name = Inr region \<longleftrightarrow>
     map_of (ap_regions config) name = Some region \<and> rg_enabled region"
  by (auto simp: select_region_def split: option.splits if_splits)

end
