(* ===== verification/Asset_Plan.thy ===== *)
theory Asset_Plan
  imports Regions Unix_Path
begin

text \<open>
  The pure part of \<^verbatim>\<open>src/core/asset_execution.rs\<close>: which bundles are downloaded and in which
  order, where raw bundles are written, how a bundle is deobfuscated, and the units the memory
  limiter hands out.
\<close>

section \<open>Selecting bundles\<close>

fun provider_bundle_hash :: "region_provider_config \<Rightarrow> asset_bundle_detail \<Rightarrow> string" where
  "provider_bundle_hash (Nuverse _) detail = show_int (bd_crc detail)"
| "provider_bundle_hash (ColorfulPalette _) detail = bd_hash detail"

fun download_path_for_region ::
    "region_provider_config \<Rightarrow> string \<Rightarrow> asset_bundle_detail \<Rightarrow> string" where
  "download_path_for_region (ColorfulPalette _) bundle_name detail = bundle_name"
| "download_path_for_region (Nuverse _) bundle_name detail =
     (case bd_download_path detail of
        Some pre \<Rightarrow> pre @ ''/'' @ bundle_name
      | None \<Rightarrow> bundle_name)"

definition should_download_bundle ::
    "regex \<Rightarrow> region_config \<Rightarrow> string \<Rightarrow> asset_category \<Rightarrow> bool" where
  "should_download_bundle regex region bundle_name category =
     (case category of
        Other _ \<Rightarrow> False
      | StartApp \<Rightarrow>
          (let compiled = compile_patterns regex (rf_start_app (rg_filters region))
           in compiled \<noteq> [] \<and> matches_any compiled bundle_name)
      | OnDemand \<Rightarrow>
          (let compiled = compile_patterns regex (rf_on_demand (rg_filters region))
           in compiled \<noteq> [] \<and> matches_any compiled bundle_name))"

text \<open>The body of the loop of \<^verbatim>\<open>build_download_tasks\<close>: \<open>None\<close> is \<^verbatim>\<open>continue\<close>.\<close>

definition download_task_for ::
    "regex \<Rightarrow> region_config \<Rightarrow> download_record \<Rightarrow> string \<times> asset_bundle_detail \<Rightarrow> download_task option" where
  "download_task_for regex region downloaded entry =
     (let bundle_name = fst entry; detail = snd entry;
          filters = rg_filters region;
          skip_patterns = compile_patterns regex (rf_skip filters);
          priority_patterns = compile_patterns regex (rf_priority filters)
      in if matches_any skip_patterns bundle_name then None
         else
           (case (case bd_category detail of
                    StartApp \<Rightarrow> Some (compile_patterns regex (rf_start_app filters))
                  | OnDemand \<Rightarrow> Some (compile_patterns regex (rf_on_demand filters))
                  | Other _ \<Rightarrow> None) of
              None \<Rightarrow> None
            | Some category_patterns \<Rightarrow>
                if category_patterns = [] \<or> \<not> matches_any category_patterns bundle_name then None
                else
                  (let bundle_hash = provider_bundle_hash (rg_provider region) detail
                   in if map_of downloaded bundle_name = Some bundle_hash then None
                      else Some \<lparr>dt_download_path =
                                   download_path_for_region (rg_provider region) bundle_name detail,
                                 dt_bundle_path = bundle_name,
                                 dt_bundle_hash = bundle_hash,
                                 dt_category = bd_category detail,
                                 dt_file_size = bd_file_size detail,
                                 dt_priority =
                                   unwrap_or usize_max (first_match_index priority_patterns bundle_name)\<rparr>)))"

definition task_key :: "download_task \<Rightarrow> nat \<times> string" where
  "task_key t = (dt_priority t, dt_bundle_path t)"

definition build_download_tasks ::
    "regex \<Rightarrow> region_config \<Rightarrow> asset_bundle_info \<Rightarrow> download_record \<Rightarrow> download_task list" where
  "build_download_tasks regex region info downloaded =
     sort_key task_key (List.map_filter (download_task_for regex region downloaded) (bi_bundles info))"

definition matches_raw_bundle_filters :: "regex \<Rightarrow> region_config \<Rightarrow> string \<Rightarrow> bool" where
  "matches_raw_bundle_filters regex region bundle_path =
     (case xp_raw_bundles (rg_export region) of
        None \<Rightarrow> False
      | Some raw \<Rightarrow>
          (let include_patterns = compile_patterns regex (rb_include raw);
               exclude_patterns = compile_patterns regex (rb_exclude raw)
           in (include_patterns = [] \<or> matches_any include_patterns bundle_path) \<and>
              \<not> matches_any exclude_patterns bundle_path))"

definition filter_raw_bundle_tasks :: "regex \<Rightarrow> region_config \<Rightarrow> download_task list \<Rightarrow> download_task list" where
  "filter_raw_bundle_tasks regex region tasks =
     filter (\<lambda>t. matches_raw_bundle_filters regex region (dt_bundle_path t)) tasks"

definition matches_haruki_3d_filters :: "regex \<Rightarrow> region_config \<Rightarrow> string \<Rightarrow> bool" where
  "matches_haruki_3d_filters regex region bundle_path =
     (let h = xp_haruki_3d (rg_export region) in
      if \<not> h3_enabled h \<or> h3_include h = [] then False
      else matches_any (compile_patterns regex (h3_include h)) bundle_path \<and>
           \<not> matches_any (compile_patterns regex (h3_exclude h)) bundle_path)"

definition haruki_3d_task_for ::
    "regex \<Rightarrow> region_config \<Rightarrow> download_record \<Rightarrow> string \<times> asset_bundle_detail \<Rightarrow> download_task option" where
  "haruki_3d_task_for regex region downloaded entry =
     (let bundle_name = fst entry; detail = snd entry in
      if \<not> matches_haruki_3d_filters regex region bundle_name then None
      else
        (let bundle_hash = provider_bundle_hash (rg_provider region) detail in
         if map_of downloaded bundle_name \<noteq> Some bundle_hash then None
         else Some \<lparr>dt_download_path =
                      download_path_for_region (rg_provider region) bundle_name detail,
                    dt_bundle_path = bundle_name,
                    dt_bundle_hash = bundle_hash,
                    dt_category = bd_category detail,
                    dt_file_size = bd_file_size detail,
                    dt_priority = usize_max\<rparr>))"

definition build_haruki_3d_tasks ::
    "regex \<Rightarrow> region_config \<Rightarrow> asset_bundle_info \<Rightarrow> download_record \<Rightarrow> download_task list" where
  "build_haruki_3d_tasks regex region info downloaded =
     sort_key dt_bundle_path
       (List.map_filter (haruki_3d_task_for regex region downloaded) (bi_bundles info))"

section \<open>Where files go\<close>

definition raw_bundle_output_path :: "string \<Rightarrow> string \<Rightarrow> asset_execution_error + string" where
  "raw_bundle_output_path base bundle_path =
     (if bundle_path = [] then Inl (InvalidRawBundlePath bundle_path ''path is empty'')
      else if list_ex (\<lambda>c. c = [] \<or> c = ''.'' \<or> c = ''..'') (split_char CHR ''/'' bundle_path)
      then Inl (InvalidRawBundlePath bundle_path
             ''empty, current-directory, or parent-directory components are not allowed'')
      else if is_absolute bundle_path
      then Inl (InvalidRawBundlePath bundle_path ''absolute paths are not allowed'')
      else
        res_bind
          (foldl (\<lambda>acc c. res_bind acc (\<lambda>path.
              case c of
                Normal v \<Rightarrow> Inr (path_push path v)
              | CurDir \<Rightarrow> Inl (InvalidRawBundlePath bundle_path
                  ''current-directory components are not allowed'')
              | ParentDir \<Rightarrow> Inl (InvalidRawBundlePath bundle_path
                  ''parent-directory components are not allowed'')
              | RootDir \<Rightarrow> Inl (InvalidRawBundlePath bundle_path
                  ''root or prefix components are not allowed'')))
            (Inr base) (components bundle_path))
          (\<lambda>path. Inr (if extension path \<noteq> Some ''bundle'' then set_extension path ''bundle'' else path)))"

definition region_raw_bundle_output_path ::
    "region_config \<Rightarrow> string \<Rightarrow> string \<Rightarrow> asset_execution_error + string" where
  "region_raw_bundle_output_path region asset_save_dir bundle_path =
     raw_bundle_output_path
       (unwrap_or (path_join asset_save_dir ''AssetBundles'')
          (case xp_raw_bundles (rg_export region) of None \<Rightarrow> None | Some raw \<Rightarrow> rb_output_dir raw))
       bundle_path"

definition haruki_3d_work_dir :: "haruki_3d_export_config \<Rightarrow> string" where
  "haruki_3d_work_dir h = (if trim (h3_work_dir h) \<noteq> [] then h3_work_dir h else h3_staging_dir h)"

definition sanitize_run_id :: "string \<Rightarrow> string" where
  "sanitize_run_id s =
     map (\<lambda>c. if c = CHR ''/'' \<or> c = CHR 0x5C \<or> c = CHR '':'' then CHR ''_'' else c) s"

definition haruki_3d_work_asset_root :: "region_config \<Rightarrow> string \<Rightarrow> string option \<Rightarrow> string option" where
  "haruki_3d_work_asset_root region region_name resolved_asset_version =
     (let h = xp_haruki_3d (rg_export region) in
      if \<not> h3_enabled h then None
      else
        (let run_id = sanitize_run_id
               (unwrap_or ''current'' (opt_filter (\<lambda>v. trim v \<noteq> []) resolved_asset_version))
         in Some (path_join (path_join (path_join (haruki_3d_work_dir h) region_name) run_id)
                    ''AssetBundles'')))"

text \<open>The file a bundle is written to for the native exporter.\<close>

definition bundle_temp_file :: "string \<Rightarrow> string \<Rightarrow> download_task \<Rightarrow> string" where
  "bundle_temp_file temp_dir region_name task =
     path_join (path_join temp_dir region_name) (dt_bundle_path task)"

definition build_haruki_3d_exporter_commands ::
    "haruki_3d_export_config \<Rightarrow> string \<Rightarrow> string list list" where
  "build_haruki_3d_exporter_commands h asset_root =
     [[''--emit-costume-registries'', ''--master'', h3_master_dir h, ''--asset-root'', asset_root,
       ''--out'', h3_output_dir h],
      [''--emit-part-packages'', ''--master'', h3_master_dir h, ''--asset-root'', asset_root,
       ''--out'', h3_output_dir h, ''--manifest'', h3_manifest_file h,
       ''--part-package-process-concurrency'', show_nat (h3_process_concurrency h)]] @
     (if h3_role_character3d_ids h \<noteq> []
      then [[''--emit-role-runtimes'', ''--master'', h3_master_dir h, ''--asset-root'', asset_root,
             ''--out'', h3_output_dir h] @
            concat (map (\<lambda>i. [''--role-character3d-id'', show_int i]) (h3_role_character3d_ids h))]
      else [])"

section \<open>Contents\<close>

definition SIMPLE :: bytes where "SIMPLE = [0x20, 0, 0, 0]"
definition XOR_HEADER :: bytes where "XOR_HEADER = [0x10, 0, 0, 0]"
definition xor_pattern :: bytes where "xor_pattern = [0xff, 0xff, 0xff, 0xff, 0xff, 0, 0, 0]"

definition xor_block :: "bytes \<Rightarrow> bytes" where
  "xor_block d =
     map (\<lambda>i. if i < 128 then (d ! i) XOR (xor_pattern ! (i mod length xor_pattern)) else d ! i)
       [0..<length d]"

definition deobfuscate :: "bytes \<Rightarrow> bytes" where
  "deobfuscate data =
     (if starts_with SIMPLE data then drop 4 data
      else if starts_with XOR_HEADER data then
        (if length data < 132 then drop 4 data else xor_block (drop 4 data))
      else data)"

fun is_retryable_http_error :: "asset_execution_error \<Rightarrow> bool" where
  "is_retryable_http_error (Http _) = True"
| "is_retryable_http_error (HttpStatus _ status) = (500 \<le> status)"
| "is_retryable_http_error _ = False"

section \<open>Memory limiter\<close>

definition UNIT_BYTES :: nat where "UNIT_BYTES = 1024 * 1024"

definition bytes_to_units :: "nat \<Rightarrow> nat" where
  "bytes_to_units b = max (div_ceil b UNIT_BYTES) 1"

record bundle_memory_limiter =
  ml_permits :: "nat option"
  ml_limit_bytes :: nat
  ml_limit_units :: nat

definition limiter_from_config :: "app_config \<Rightarrow> bundle_memory_limiter" where
  "limiter_from_config app_config =
     (let limit_bytes = mem_max_in_flight_bundle_bytes (rs_memory (ap_resources app_config)) in
      if limit_bytes = 0
      then \<lparr>ml_permits = None, ml_limit_bytes = limit_bytes, ml_limit_units = 0\<rparr>
      else (let limit_units = max (min (bytes_to_units limit_bytes) u32_max) 1 in
            \<lparr>ml_permits = Some limit_units, ml_limit_bytes = limit_bytes, ml_limit_units = limit_units\<rparr>))"

definition limiter_units :: "bundle_memory_limiter \<Rightarrow> nat \<Rightarrow> nat" where
  "limiter_units l estimated_bytes = max (min (bytes_to_units estimated_bytes) (ml_limit_units l)) 1"

text \<open>\<^verbatim>\<open>acquire\<close> when enough permits are free (otherwise the caller waits), and the release of the
  permits it got; without a semaphore no permit is taken.\<close>

definition limiter_acquire :: "bundle_memory_limiter \<Rightarrow> nat \<Rightarrow> (nat option \<times> bundle_memory_limiter) option" where
  "limiter_acquire l estimated_bytes =
     (case ml_permits l of
        None \<Rightarrow> Some (None, l)
      | Some free \<Rightarrow>
          (let units = limiter_units l estimated_bytes in
           if units \<le> free then Some (Some units, l\<lparr>ml_permits := Some (free - units)\<rparr>) else None))"

definition limiter_release :: "bundle_memory_limiter \<Rightarrow> nat option \<Rightarrow> bundle_memory_limiter" where
  "limiter_release l permit =
     (case permit of None \<Rightarrow> l | Some units \<Rightarrow> ml_permits_update (map_option (\<lambda>f. f + units)) l)"

definition post_process_backlog_capacity :: "nat \<Rightarrow> nat \<Rightarrow> nat" where
  "post_process_backlog_capacity download_concurrency post_process_concurrency =
     max post_process_concurrency 1"

section \<open>Selection lemmas\<close>

text \<open>The declarative reading of the filters: not skipped, in a category whose patterns match, and
  not already recorded with the hash it has now.\<close>

definition wanted ::
    "regex \<Rightarrow> region_config \<Rightarrow> download_record \<Rightarrow> string \<Rightarrow> asset_bundle_detail \<Rightarrow> bool" where
  "wanted regex region downloaded name detail \<longleftrightarrow>
     \<not> should_skip_bundle regex (rg_filters region) name \<and>
     should_download_bundle regex region name (bd_category detail) \<and>
     map_of downloaded name \<noteq> Some (provider_bundle_hash (rg_provider region) detail)"

lemma download_task_for_Some:
  "download_task_for regex region downloaded (name, detail) \<noteq> None \<longleftrightarrow>
     wanted regex region downloaded name detail"
  by (cases "bd_category detail")
    (simp_all add: download_task_for_def wanted_def should_skip_bundle_def should_download_bundle_def Let_def)

lemma download_task_for_fields:
  assumes "download_task_for regex region downloaded (name, detail) = Some t"
  shows "dt_bundle_path t = name" and "dt_bundle_hash t = provider_bundle_hash (rg_provider region) detail"
    and "dt_download_path t = download_path_for_region (rg_provider region) name detail"
    and "dt_priority t = unwrap_or usize_max (download_priority regex (rg_filters region) name)"
    and "dt_category t = bd_category detail" and "dt_file_size t = bd_file_size detail"
  using assms
  by (auto simp: download_task_for_def download_priority_def Let_def
      split: if_splits asset_category.splits option.splits)

lemma haruki_3d_task_for_fields:
  assumes "haruki_3d_task_for regex region downloaded (name, detail) = Some t"
  shows "dt_bundle_path t = name" and "dt_bundle_hash t = provider_bundle_hash (rg_provider region) detail"
    and "map_of downloaded name = Some (dt_bundle_hash t)"
    and "matches_haruki_3d_filters regex region name"
  using assms by (auto simp: haruki_3d_task_for_def Let_def split: if_splits)

lemma set_map_filter: "y \<in> set (List.map_filter f xs) \<longleftrightarrow> (\<exists>x\<in>set xs. f x = Some y)"
  by (induction xs) (auto simp: List.map_filter_simps split: option.splits)

lemma map_filter_path_distinct:
  assumes "\<And>name d t. f (name, d) = Some t \<Longrightarrow> dt_bundle_path t = name" and "hmap_wf m"
  shows "distinct (map dt_bundle_path (List.map_filter f m))"
  using assms(2)
proof (induction m)
  case (Cons e m)
  obtain name d where e: "e = (name, d)" by fastforce
  have "distinct (map dt_bundle_path (List.map_filter f m))"
    using Cons by (auto simp: hmap_wf_def)
  moreover have "name \<notin> dt_bundle_path ` set (List.map_filter f m)"
  proof
    assume "name \<in> dt_bundle_path ` set (List.map_filter f m)"
    then obtain name' d' t where "(name', d') \<in> set m" "f (name', d') = Some t" "dt_bundle_path t = name"
      by (auto simp: set_map_filter)
    with assms(1) have "(name, d') \<in> set m" by blast
    then show False using Cons.prems by (auto simp: hmap_wf_def e image_iff)
  qed
  ultimately show ?case
    using assms(1) by (auto simp: e List.map_filter_simps split: option.splits)
qed (simp add: List.map_filter_simps)

lemma distinct_sort_key: "distinct (map f (sort_key k xs)) \<longleftrightarrow> distinct (map f xs)"
  by (metis distinct_map mset_eq_imp_distinct_iff mset_sort set_sort)

lemma in_download_tasks:
  "t \<in> set (build_download_tasks regex region info downloaded) \<longleftrightarrow>
     (\<exists>e\<in>set (bi_bundles info). download_task_for regex region downloaded e = Some t)"
  by (simp add: build_download_tasks_def set_map_filter)

lemma in_haruki_3d_tasks:
  "t \<in> set (build_haruki_3d_tasks regex region info downloaded) \<longleftrightarrow>
     (\<exists>e\<in>set (bi_bundles info). haruki_3d_task_for regex region downloaded e = Some t)"
  by (simp add: build_haruki_3d_tasks_def set_map_filter)

lemma download_tasks_distinct:
  "info_wf info \<Longrightarrow> distinct (map dt_bundle_path (build_download_tasks regex region info downloaded))"
  unfolding build_download_tasks_def distinct_sort_key
  by (rule map_filter_path_distinct) (auto simp: info_wf_def dest: download_task_for_fields(1))

section \<open>Path lemmas\<close>

definition bundle_pieces_ok :: "string \<Rightarrow> bool" where
  "bundle_pieces_ok b \<longleftrightarrow> b \<noteq> [] \<and> list_all plain_name (split_char CHR ''/'' b)"

lemma split_pieces_plain:
  "list_ex (\<lambda>c. c = [] \<or> c = ''.'' \<or> c = ''..'') (split_char CHR ''/'' b) \<longleftrightarrow>
   \<not> list_all plain_name (split_char CHR ''/'' b)"
  using split_char_no_sep [of _ "CHR ''/''" b]
  by (auto simp: list_ex_iff list_all_iff plain_name_def)

lemma components_pieces:
  assumes "bundle_pieces_ok b"
  shows "components b = map Normal (split_char CHR ''/'' b)" and "\<not> is_absolute b"
proof -
  obtain h r where hr: "split_char CHR ''/'' b = h # r"
    by (cases "split_char CHR ''/'' b") auto
  have plain: "list_all plain_name (h # r)" using assms by (simp add: bundle_pieces_ok_def hr)
  then have "inner_components r = map Normal r"
    by (induction r) (auto simp: inner_components_def plain_name_def skipped_def piece_def)
  with plain assms show "components b = map Normal (split_char CHR ''/'' b)"
    by (simp add: components_def bundle_pieces_ok_def hr first_components_def plain_name_def piece_def)
  show "\<not> is_absolute b"
    using plain hr by (cases b) (auto simp: is_absolute_def starts_with_def plain_name_def split: if_splits)
qed

lemma fold_push_ok:
  "foldl (\<lambda>acc c. res_bind acc (\<lambda>path.
      case c of Normal v \<Rightarrow> Inr (path_push path v) | CurDir \<Rightarrow> Inl a | ParentDir \<Rightarrow> Inl b | RootDir \<Rightarrow> Inl c'))
     (Inr base) (map Normal xs) = Inr (foldl path_push base xs)"
  by (induction xs arbitrary: base) simp_all

lemma raw_path_ok:
  assumes "bundle_pieces_ok b"
  shows "raw_bundle_output_path base b =
    Inr (let path = foldl path_push base (split_char CHR ''/'' b)
         in if extension path \<noteq> Some ''bundle'' then set_extension path ''bundle'' else path)"
  using assms components_pieces [OF assms] split_pieces_plain [of b]
  by (simp add: raw_bundle_output_path_def bundle_pieces_ok_def fold_push_ok Let_def)

lemma raw_path_err:
  "\<not> bundle_pieces_ok b \<Longrightarrow> \<exists>reason. raw_bundle_output_path base b = Inl (InvalidRawBundlePath b reason)"
  using split_pieces_plain [of b] by (auto simp: raw_bundle_output_path_def bundle_pieces_ok_def)

definition bundle_file_name :: "string \<Rightarrow> string" where
  "bundle_file_name f =
     (if snd (split_at_dot f) = Some ''bundle'' then f else fst (split_at_dot f) @ ''.bundle'')"

lemma raw_path_components:
  assumes "bundle_pieces_ok b" and "raw_bundle_output_path base b = Inr path"
  shows "components path = components base @
    map Normal (butlast (split_char CHR ''/'' b)) @
    [Normal (bundle_file_name (last (split_char CHR ''/'' b)))]"
proof -
  let ?ps = "split_char CHR ''/'' b"
  let ?p = "foldl path_push base ?ps"
  have plain: "list_all plain_name ?ps" using assms(1) by (simp add: bundle_pieces_ok_def)
  have comps: "components ?p = components base @ map Normal ?ps"
    by (rule foldl_push_components [OF plain])
  obtain xs x where xs: "?ps = xs @ [x]" by (metis append_butlast_last_id split_char_nonempty)
  have fn: "file_name ?p = Some (last ?ps)"
    by (simp add: file_name_def comps last_map)
  have path: "path = (if extension ?p \<noteq> Some ''bundle'' then set_extension ?p ''bundle'' else ?p)"
    using assms(2) by (simp add: raw_path_ok [OF assms(1)] Let_def)
  have ext: "extension ?p = snd (split_at_dot (last ?ps))" by (simp add: extension_def fn)
  show ?thesis
  proof (cases "extension ?p = Some ''bundle''")
    case True
    then have "path = ?p" by (simp add: path)
    then show ?thesis
      using True ext comps xs by (simp add: bundle_file_name_def)
  next
    case False
    then have "components path = butlast (components ?p) @ [Normal (fst (split_at_dot (last ?ps)) @ ''.bundle'')]"
      using set_extension_components [OF fn, of "''bundle''"] by (simp add: path)
    then show ?thesis
      unfolding comps using False ext xs by (simp add: butlast_append bundle_file_name_def)
  qed
qed

section \<open>Content lemmas\<close>

lemma length_xor_block [simp]: "length (xor_block d) = length d"
  by (simp add: xor_block_def)

lemma nth_xor_block:
  "i < length d \<Longrightarrow> xor_block d ! i =
     (if i < 128 then (d ! i) XOR (xor_pattern ! (i mod length xor_pattern)) else d ! i)"
  by (simp add: xor_block_def)

lemma xor_block_twice [simp]: "xor_block (xor_block d) = d"
  by (rule nth_equalityI) (simp_all add: nth_xor_block xor.assoc)

lemma headers_differ: "\<not> starts_with SIMPLE (XOR_HEADER @ d)"
  by (simp add: starts_with_def SIMPLE_def XOR_HEADER_def)

section \<open>Limiter lemmas\<close>

text \<open>The limiter at work: bundles (by estimated size) holding permits.\<close>

inductive limiter_run :: "app_config \<Rightarrow> bundle_memory_limiter \<Rightarrow> (nat \<times> nat option) list \<Rightarrow> bool"
  for cfg where
  start: "limiter_run cfg (limiter_from_config cfg) []"
| acquire: "limiter_run cfg l held \<Longrightarrow> limiter_acquire l b = Some (permit, l') \<Longrightarrow>
    limiter_run cfg l' ((b, permit) # held)"
| release: "limiter_run cfg l (xs @ (b, permit) # ys) \<Longrightarrow>
    limiter_run cfg (limiter_release l permit) (xs @ ys)"

definition held_units :: "(nat \<times> nat option) list \<Rightarrow> nat" where
  "held_units held = sum_list (map (\<lambda>(b, p). unwrap_or 0 p) held)"

lemma limiter_units_bounds:
  "1 \<le> ml_limit_units l \<Longrightarrow> 1 \<le> limiter_units l b \<and> limiter_units l b \<le> ml_limit_units l"
  by (auto simp: limiter_units_def)

lemma bytes_to_units_cover: "b \<le> bytes_to_units b * UNIT_BYTES"
  using div_ceil_bounds(1) [of UNIT_BYTES b]
  by (auto simp: bytes_to_units_def UNIT_BYTES_def max_def not_le
      intro: order_trans)

lemma bytes_to_units_tight: "0 < b \<Longrightarrow> bytes_to_units b * UNIT_BYTES < b + UNIT_BYTES"
  using div_ceil_bounds(2) [of UNIT_BYTES b]
  by (auto simp: bytes_to_units_def UNIT_BYTES_def max_def)

lemma limiter_invariant:
  assumes "limiter_run cfg l held"
    and "0 < mem_max_in_flight_bundle_bytes (rs_memory (ap_resources cfg))"
  shows "ml_limit_units l = ml_limit_units (limiter_from_config cfg) \<and> 1 \<le> ml_limit_units l \<and>
    (\<exists>free. ml_permits l = Some free \<and> free + held_units held = ml_limit_units l) \<and>
    (\<forall>(b, p)\<in>set held. p = Some (limiter_units (limiter_from_config cfg) b))"
  using assms
proof (induction rule: limiter_run.induct)
  case start
  then show ?case by (simp add: limiter_from_config_def Let_def held_units_def)
next
  case (acquire l held b permit l')
  then show ?case
    by (auto simp: limiter_acquire_def limiter_units_def held_units_def Let_def split: if_splits)
next
  case (release l xs b permit ys)
  then show ?case
    by (auto simp: limiter_release_def held_units_def split: option.splits)
qed

section \<open>Properties\<close>

text \<open>C21: the download plan is exact. For a bundle list without duplicate names, every wanted
  bundle (not skipped, its category's patterns match it, and the record does not already hold its
  present hash) gets exactly one task, with the provider's hash, and nothing else gets one; the plan is
  sorted by the first matching priority pattern and then by name, so its order does not depend on
  the iteration order of the hash map.\<close>

theorem download_tasks_exact:
  assumes "info_wf info" and "tasks = build_download_tasks regex region info downloaded"
  shows "(\<forall>name hash. (\<exists>t\<in>set tasks. dt_bundle_path t = name \<and> dt_bundle_hash t = hash) \<longleftrightarrow>
        (\<exists>detail. info_get info name = Some detail \<and> wanted regex region downloaded name detail \<and>
           hash = provider_bundle_hash (rg_provider region) detail)) \<and>
    distinct (map dt_bundle_path tasks) \<and>
    sorted (map (\<lambda>t. (unwrap_or usize_max (download_priority regex (rg_filters region) (dt_bundle_path t)),
                      dt_bundle_path t)) tasks)"
proof (intro conjI allI)
  show "distinct (map dt_bundle_path tasks)"
    using download_tasks_distinct assms by simp
next
  have "task_key t = (unwrap_or usize_max (download_priority regex (rg_filters region) (dt_bundle_path t)),
      dt_bundle_path t)" if "t \<in> set tasks" for t
    using that download_task_for_fields by (auto simp: assms(2) in_download_tasks task_key_def)
  moreover have "sorted (map task_key tasks)" by (simp add: assms(2) build_download_tasks_def)
  ultimately show "sorted (map (\<lambda>t. (unwrap_or usize_max (download_priority regex (rg_filters region)
      (dt_bundle_path t)), dt_bundle_path t)) tasks)"
    by (metis (no_types, lifting) map_eq_conv)
next
  fix name hash
  show "(\<exists>t\<in>set tasks. dt_bundle_path t = name \<and> dt_bundle_hash t = hash) \<longleftrightarrow>
      (\<exists>detail. info_get info name = Some detail \<and> wanted regex region downloaded name detail \<and>
         hash = provider_bundle_hash (rg_provider region) detail)" (is "?l \<longleftrightarrow> ?r")
  proof
    assume ?l
    then obtain t e where e: "e \<in> set (bi_bundles info)"
      "download_task_for regex region downloaded e = Some t" "dt_bundle_path t = name" "dt_bundle_hash t = hash"
      by (auto simp: assms(2) in_download_tasks)
    obtain n d where nd: "e = (n, d)" by fastforce
    have "n = name" "hash = provider_bundle_hash (rg_provider region) d"
      using e download_task_for_fields(1,2) nd by metis+
    with e nd show ?r
      using download_task_for_Some [of regex region downloaded n d] assms(1)
      by (auto simp: info_get_def info_wf_def hmap_get_iff)
  next
    assume ?r
    then obtain d where d: "(name, d) \<in> set (bi_bundles info)" "wanted regex region downloaded name d"
      "hash = provider_bundle_hash (rg_provider region) d"
      using assms(1) by (auto simp: info_get_def info_wf_def hmap_get_iff)
    then obtain t where t: "download_task_for regex region downloaded (name, d) = Some t"
      using download_task_for_Some by blast
    then have "t \<in> set tasks" using d(1) unfolding assms(2) in_download_tasks by blast
    with d(3) download_task_for_fields(1,2) [OF t] show ?l by blast
  qed
qed

definition demo_detail :: asset_bundle_detail where
  "demo_detail = \<lparr>bd_bundle_name = ''a'', bd_cache_file_name = [], bd_cache_directory_name = [],
     bd_hash = ''h1'', bd_category = StartApp, bd_crc = 7, bd_file_size = 10, bd_dependencies = [],
     bd_paths = [], bd_is_builtin = False, bd_is_relocate = None, bd_md5_hash = None,
     bd_download_path = None\<rparr>"

definition demo_region :: region_config where
  "demo_region = default_region_config\<lparr>rg_filters :=
     \<lparr>rf_start_app = [''.''], rf_on_demand = [], rf_skip = [], rf_priority = []\<rparr>\<rparr>"

theorem download_tasks_exact_witness:
  "let info = \<lparr>bi_version = None, bi_os = None, bi_bundles = [(''a'', demo_detail)]\<rparr> in
   info_wf info \<and>
   (\<exists>t\<in>set (build_download_tasks (\<lambda>_. Some (\<lambda>_. True)) demo_region info []).
      dt_bundle_path t = ''a'' \<and> dt_bundle_hash t = ''h1'')"
proof -
  let ?info = "\<lparr>bi_version = None, bi_os = None, bi_bundles = [(''a'', demo_detail)]\<rparr>"
  have wf: "info_wf ?info" by (simp add: info_wf_def hmap_wf_def)
  have "\<exists>detail. info_get ?info ''a'' = Some detail \<and>
      wanted (\<lambda>_. Some (\<lambda>_. True)) demo_region [] ''a'' detail \<and>
      ''h1'' = provider_bundle_hash (rg_provider demo_region) detail"
    by (simp add: info_get_def wanted_def should_skip_bundle_def should_download_bundle_def
        compile_patterns_def matches_any_def List.map_filter_simps demo_detail_def demo_region_def
        default_region_config_def default_region_provider_config_def Let_def)
  with wf download_tasks_exact [OF wf refl, of "\<lambda>_. Some (\<lambda>_. True)" demo_region "[]"]
  show ?thesis by (simp only: Let_def)
qed

text \<open>a bundle is never both downloaded by the main pass and staged again for the 3D export
  from the same record: the 3D pass takes only bundles the record holds with their present hash,
  the main pass only the others.\<close>

theorem haruki_3d_tasks_already_downloaded:
  assumes "info_wf info"
    and "t \<in> set (build_download_tasks regex region info downloaded)"
    and "u \<in> set (build_haruki_3d_tasks regex region info downloaded)"
  shows "dt_bundle_path t \<noteq> dt_bundle_path u \<and> map_of downloaded (dt_bundle_path u) = Some (dt_bundle_hash u)"
proof -
  obtain n d where n: "(n, d) \<in> set (bi_bundles info)" "download_task_for regex region downloaded (n, d) = Some t"
    using assms(2) by (auto simp: in_download_tasks)
  obtain m d' where m: "(m, d') \<in> set (bi_bundles info)"
    "haruki_3d_task_for regex region downloaded (m, d') = Some u"
    using assms(3) by (auto simp: in_haruki_3d_tasks)
  have "wanted regex region downloaded n d" using n(2) download_task_for_Some by (metis option.distinct(1))
  moreover have "d' = d" if "n = m"
    using that n(1) m(1) assms(1) by (metis hmap_get_iff info_wf_def option.inject)
  ultimately show ?thesis
    using download_task_for_fields(1) [OF n(2)] haruki_3d_task_for_fields [OF m(2)]
    by (auto simp: wanted_def)
qed

definition demo_3d_region :: region_config where
  "demo_3d_region = demo_region\<lparr>rg_export := xp_haruki_3d_update
     (\<lambda>h. h\<lparr>h3_enabled := True, h3_include := [''.'']\<rparr>) (rg_export demo_region)\<rparr>"

theorem haruki_3d_tasks_already_downloaded_witness:
  "let info = \<lparr>bi_version = None, bi_os = None,
        bi_bundles = [(''a'', demo_detail), (''b'', demo_detail)]\<rparr>;
       rx = (\<lambda>_. Some (\<lambda>_. True)); rec = [(''b'', ''h1'')]
   in \<exists>t\<in>set (build_download_tasks rx demo_3d_region info rec).
      \<exists>u\<in>set (build_haruki_3d_tasks rx demo_3d_region info rec). dt_bundle_path t \<noteq> dt_bundle_path u"
proof -
  let ?info = "\<lparr>bi_version = None, bi_os = None,
      bi_bundles = [(''a'', demo_detail), (''b'', demo_detail)]\<rparr>"
  let ?rx = "\<lambda>_. Some (\<lambda>_. True)"
  let ?rec = "[(''b'', ''h1'')]"
  note defs = compile_patterns_def matches_any_def List.map_filter_simps demo_detail_def
    demo_3d_region_def demo_region_def default_region_config_def default_region_provider_config_def Let_def
  have wf: "info_wf ?info" by (simp add: info_wf_def hmap_wf_def)
  obtain t where t: "t \<in> set (build_download_tasks ?rx demo_3d_region ?info ?rec)"
    by (simp add: build_download_tasks_def download_task_for_def defs)
  obtain u where u: "u \<in> set (build_haruki_3d_tasks ?rx demo_3d_region ?info ?rec)"
    by (simp add: build_haruki_3d_tasks_def haruki_3d_task_for_def matches_haruki_3d_filters_def defs
        default_region_export_config_def default_haruki_3d_export_config_def)
  from haruki_3d_tasks_already_downloaded [OF wf t u] t u show ?thesis
    by (simp only: Let_def) blast
qed

text \<open>raw bundles stay inside their directory. \<open>raw_bundle_output_path\<close> succeeds exactly on
  names made of proper pieces, and the path it returns has the components of the base directory,
  then the directories of the bundle name, then one file name that ends in \<^verbatim>\<open>.bundle\<close>: no server
  supplied name leads outside the base.\<close>

theorem raw_bundle_path_contained:
  "(case raw_bundle_output_path base b of
      Inr path \<Rightarrow>
        bundle_pieces_ok b \<and>
        (\<exists>stem. components path = components base @
           map Normal (butlast (split_char CHR ''/'' b)) @ [Normal (stem @ ''.bundle'')])
    | Inl e \<Rightarrow> \<not> bundle_pieces_ok b \<and> (\<exists>reason. e = InvalidRawBundlePath b reason))"
proof (cases "bundle_pieces_ok b")
  case True
  then obtain path where p: "raw_bundle_output_path base b = Inr path" using raw_path_ok by blast
  have "\<exists>stem. bundle_file_name f = stem @ ''.bundle''" for f
    by (auto simp: bundle_file_name_def split_at_dot_def rsplit_once_Some split: option.splits if_splits)
  with raw_path_components [OF True p] True p show ?thesis by auto
next
  case False
  with raw_path_err [of b base] show ?thesis by auto
qed

text \<open>the extension is replaced, not added: two bundles of one directory whose names differ
  only after the last dot are written to one file.\<close>

theorem raw_bundle_paths_collide:
  assumes "plain_name (stem @ ''.'' @ e1)" and "plain_name (stem @ ''.'' @ e2)" and "stem \<noteq> []"
    and "e1 \<noteq> ''bundle''" "e2 \<noteq> ''bundle''" and "CHR ''.'' \<notin> set e1" "CHR ''.'' \<notin> set e2"
    and "raw_bundle_output_path base (stem @ ''.'' @ e1) = Inr p1"
    and "raw_bundle_output_path base (stem @ ''.'' @ e2) = Inr p2"
  shows "components p1 = components p2"
proof -
  have fn: "bundle_file_name (stem @ ''.'' @ e) = stem @ ''.bundle''"
    if "CHR ''.'' \<notin> set e" "e \<noteq> ''bundle''" for e
  proof -
    have "rsplit_once CHR ''.'' (stem @ ''.'' @ e) = Some (stem, e)"
      using that(1) by (simp add: rsplit_once_Some)
    then show ?thesis using that(2) assms(3) by (simp add: bundle_file_name_def split_at_dot_def)
  qed
  have "components p = components base @ [Normal (stem @ ''.bundle'')]"
    if "plain_name (stem @ ''.'' @ e)" "CHR ''.'' \<notin> set e" "e \<noteq> ''bundle''"
      "raw_bundle_output_path base (stem @ ''.'' @ e) = Inr p" for e p
  proof -
    have sp: "split_char CHR ''/'' (stem @ ''.'' @ e) = [stem @ ''.'' @ e]"
      using that(1) by (intro split_char_absent) (simp add: plain_name_def)
    then have "bundle_pieces_ok (stem @ ''.'' @ e)" using that(1) by (simp add: bundle_pieces_ok_def)
    from raw_path_components [OF this that(4)] fn [OF that(2,3)] sp show ?thesis by simp
  qed
  with assms show ?thesis by metis
qed

theorem raw_bundle_paths_collide_witness:
  "\<exists>p1 p2. raw_bundle_output_path ''out'' ''live.v1'' = Inr p1 \<and>
     raw_bundle_output_path ''out'' ''live.v2'' = Inr p2 \<and> components p1 = components p2"
proof -
  have ok: "bundle_pieces_ok ''live.v1''" "bundle_pieces_ok ''live.v2''"
    by (simp_all add: bundle_pieces_ok_def plain_name_def)
  obtain p1 p2 where p: "raw_bundle_output_path ''out'' ''live.v1'' = Inr p1"
    "raw_bundle_output_path ''out'' ''live.v2'' = Inr p2"
    using raw_path_ok [OF ok(1)] raw_path_ok [OF ok(2)] by blast
  have "components p1 = components p2"
    by (rule raw_bundle_paths_collide [of "''live''" "''v1''" "''v2''" "''out''"])
      (use p in \<open>simp_all add: plain_name_def\<close>)
  with p show ?thesis by blast
qed

text \<open>the temporary file of a bundle is not confined. Unlike the raw bundle path, the path the
  bundle is written to for the exporter is joined without a check, so an absolute bundle name is
  used as it is, whatever the temporary directory.\<close>

theorem bundle_temp_file_not_confined:
  "is_absolute (dt_bundle_path task) \<Longrightarrow>
     bundle_temp_file temp_dir region_name task = dt_bundle_path task"
  by (simp add: bundle_temp_file_def path_push_def)

theorem bundle_temp_file_not_confined_witness:
  "bundle_temp_file ''/tmp'' ''jp'' \<lparr>dt_download_path = [], dt_bundle_path = ''/etc/x'',
     dt_bundle_hash = [], dt_category = StartApp, dt_file_size = 0, dt_priority = 0\<rparr> = ''/etc/x''"
  using bundle_temp_file_not_confined [of "\<lparr>dt_download_path = [], dt_bundle_path = ''/etc/x'',
     dt_bundle_hash = [], dt_category = StartApp, dt_file_size = 0, dt_priority = 0\<rparr>" "''/tmp''" "''jp''"]
  by (simp add: is_absolute_def starts_with_def)

text \<open>\<open>deobfuscate\<close> undoes both obfuscations: it removes the simple header, it removes the XOR
  header and unmasks the first 128 bytes of a body that has them, and it leaves data with neither
  header alone.\<close>

theorem deobfuscate_inverts:
  "deobfuscate (SIMPLE @ d) = d \<and>
   deobfuscate (XOR_HEADER @ (if 128 \<le> length d then xor_block d else d)) = d \<and>
   (\<not> starts_with SIMPLE d \<and> \<not> starts_with XOR_HEADER d \<longrightarrow> deobfuscate d = d)"
proof (intro conjI impI)
  show "deobfuscate (SIMPLE @ d) = d"
    by (simp add: deobfuscate_def) (simp add: SIMPLE_def)
  have "drop 4 (XOR_HEADER @ e) = e" "length (XOR_HEADER @ e) = length e + 4" for e
    by (simp_all add: XOR_HEADER_def)
  then show "deobfuscate (XOR_HEADER @ (if 128 \<le> length d then xor_block d else d)) = d"
    using headers_differ by (auto simp: deobfuscate_def)
qed (simp add: deobfuscate_def)

theorem deobfuscate_inverts_witness: "deobfuscate [1, 2, 3] = [1, 2, 3]"
  using deobfuscate_inverts [of "[1, 2, 3]"] by (simp add: starts_with_def SIMPLE_def XOR_HEADER_def)

text \<open>the memory limit. In every run of the limiter the permits are conserved, so the bundles
  in flight, each counted with at most the whole limit, together take at most the limit rounded up
  to the next unit; and a bundle of any size is admitted when nothing is in flight, so an oversized
  one never waits forever.\<close>

theorem memory_limiter_bounds:
  assumes "limiter_run cfg l held" and "cap = mem_max_in_flight_bundle_bytes (rs_memory (ap_resources cfg))"
    and "0 < cap"
  shows "(\<Sum>(b, p)\<leftarrow>held. min b (ml_limit_units l * UNIT_BYTES)) \<le> ml_limit_units l * UNIT_BYTES \<and>
    ml_limit_units l * UNIT_BYTES < cap + UNIT_BYTES \<and>
    (held = [] \<longrightarrow> (\<exists>permit l'. limiter_acquire l b = Some (permit, l')))"
proof -
  let ?u = "ml_limit_units l"
  note inv = limiter_invariant [OF assms(1), folded assms(2), OF assms(3)]
  have each: "min b (?u * UNIT_BYTES) \<le> unwrap_or 0 p * UNIT_BYTES" if "(b, p) \<in> set held" for b p
  proof -
    have "p = Some (limiter_units (limiter_from_config cfg) b)" using inv that by auto
    moreover have "min b (?u * UNIT_BYTES) \<le> limiter_units (limiter_from_config cfg) b * UNIT_BYTES"
    proof (cases "bytes_to_units b \<le> ?u")
      case True
      then have "bytes_to_units b \<le> limiter_units (limiter_from_config cfg) b"
        using inv by (simp add: limiter_units_def)
      then show ?thesis using bytes_to_units_cover [of b] by (meson min.coboundedI1 mult_le_mono1 order_trans)
    next
      case False
      then have "?u \<le> limiter_units (limiter_from_config cfg) b"
        using inv by (simp add: limiter_units_def)
      then show ?thesis by (meson min.coboundedI2 mult_le_mono1)
    qed
    ultimately show ?thesis by simp
  qed
  have "(\<Sum>(b, p)\<leftarrow>held. min b (?u * UNIT_BYTES)) \<le> (\<Sum>(b, p)\<leftarrow>held. unwrap_or 0 p * UNIT_BYTES)"
    using each by (intro sum_list_mono) auto
  also have "\<dots> = held_units held * UNIT_BYTES"
    unfolding held_units_def by (induction held) (auto simp: add_mult_distrib)
  also have "\<dots> \<le> ?u * UNIT_BYTES" using inv by (intro mult_le_mono1) auto
  finally have a: "(\<Sum>(b, p)\<leftarrow>held. min b (?u * UNIT_BYTES)) \<le> ?u * UNIT_BYTES" .
  have "?u \<le> bytes_to_units cap"
    using inv assms(2,3) by (auto simp: limiter_from_config_def Let_def bytes_to_units_def)
  then have b: "?u * UNIT_BYTES < cap + UNIT_BYTES"
    using bytes_to_units_tight [OF assms(3)] by (meson mult_le_mono1 order_le_less_trans)
  have c: "\<exists>permit l'. limiter_acquire l b = Some (permit, l')" if "held = []"
    using inv that limiter_units_bounds [of l b]
    by (auto simp: limiter_acquire_def Let_def held_units_def)
  from a b c show ?thesis by blast
qed

theorem memory_limiter_bounds_witness:
  "limiter_run (default_app_config\<lparr>ap_resources := \<lparr>rs_cpu = default_cpu_resource_config,
      rs_memory = \<lparr>mem_max_in_flight_bundle_bytes = 5000000\<rparr>\<rparr>\<rparr>)
     \<lparr>ml_permits = Some 5, ml_limit_bytes = 5000000, ml_limit_units = 5\<rparr> [] \<and>
   (\<exists>permit l'. limiter_acquire \<lparr>ml_permits = Some 5, ml_limit_bytes = 5000000, ml_limit_units = 5\<rparr> 80000000
      = Some (permit, l'))"
proof -
  let ?c = "default_app_config\<lparr>ap_resources := \<lparr>rs_cpu = default_cpu_resource_config,
      rs_memory = \<lparr>mem_max_in_flight_bundle_bytes = 5000000\<rparr>\<rparr>\<rparr>"
  let ?l = "\<lparr>ml_permits = Some 5, ml_limit_bytes = 5000000, ml_limit_units = 5\<rparr>"
  have "limiter_from_config ?c = ?l"
    by (simp add: limiter_from_config_def bytes_to_units_def UNIT_BYTES_def div_ceil_def u32_max_def)
  then have r: "limiter_run ?c ?l []" using limiter_run.start [of ?c] by simp
  show ?thesis using r memory_limiter_bounds [OF r refl, of 80000000] by simp
qed

end
