(* ===== verification/Poller.thy ===== *)
theory Poller
  imports Uploader Retry Asset_Plan Config
begin

text \<open>
  \<^verbatim>\<open>src/service/poller.rs\<close>: one tick of a region (layer 0 against the watermark, layer 1 against the
  snapshot, layer 2 against the gateway), the retries of a failed tick, and what is persisted at its
  end. The executor that downloads and exports the bundles is an argument, so the theorems hold for
  every behaviour it can show; so are the HTTP fetches and the operations on directories.
\<close>

section \<open>Region state\<close>

record region_runtime_state =
  rs_last_tick_at :: "nat option"
  rs_last_success_at :: "nat option"
  rs_last_error :: "string option"
  rs_in_flight :: bool

definition default_region_runtime_state :: region_runtime_state where
  "default_region_runtime_state =
     \<lparr>rs_last_tick_at = None, rs_last_success_at = None, rs_last_error = None, rs_in_flight = False\<rparr>"

type_synonym poller_state = "(string, region_runtime_state) hmap"

definition mark_state ::
    "string \<Rightarrow> (region_runtime_state \<Rightarrow> region_runtime_state) \<Rightarrow> poller_state \<Rightarrow> poller_state" where
  "mark_state region_name f state =
     hmap_insert region_name
       (f (unwrap_or default_region_runtime_state (map_of state region_name))) state"

definition seed_state :: "string list \<Rightarrow> poller_state \<Rightarrow> poller_state" where
  "seed_state regions state = fold (\<lambda>region. mark_state region (\<lambda>r. r)) regions state"

record region_snapshot =
  rn_region :: string
  rn_last_tick_at :: "nat option"
  rn_last_success_at :: "nat option"
  rn_last_error :: "string option"
  rn_in_flight :: bool
  rn_watermark :: "region_watermark option"

definition region_snapshots :: "poller_state \<Rightarrow> watermark_store \<Rightarrow> region_snapshot list" where
  "region_snapshots state store =
     sort_key rn_region (map (\<lambda>(region, runtime).
       \<lparr>rn_region = region, rn_last_tick_at = rs_last_tick_at runtime,
        rn_last_success_at = rs_last_success_at runtime, rn_last_error = rs_last_error runtime,
        rn_in_flight = rs_in_flight runtime, rn_watermark = watermark_get store region\<rparr>) state)"

section \<open>Filters\<close>

record 'g filter_state =
  fl_gate :: 'g
  fl_layer1_skipped :: nat
  fl_skipped_counter :: nat
  fl_skipped_bundles :: "(string, string) hmap"

definition check_item :: "string \<Rightarrow> download_task \<Rightarrow> check_batch_item" where
  "check_item region_name task =
     \<lparr>ci_path = dt_bundle_path task, ci_fingerprint = dt_bundle_hash task,
      ci_size = nat (max (dt_file_size task) 0), ci_provider = region_name\<rparr>"

definition decisions :: "check_ack_item list \<Rightarrow> (string, check_action) hmap" where
  "decisions results = fold (\<lambda>item. hmap_insert (ca_path item) (ca_action item)) results []"

definition apply_decision ::
    "(string, check_action) hmap \<Rightarrow> download_task \<Rightarrow> download_task list \<times> 'g filter_state \<Rightarrow>
     download_task list \<times> 'g filter_state" where
  "apply_decision ds task kst =
     (case map_of ds (dt_bundle_path task) of
        Some Skip \<Rightarrow>
          (fst kst, (snd kst)\<lparr>fl_skipped_counter := fl_skipped_counter (snd kst) + 1,
             fl_skipped_bundles := hmap_insert (dt_bundle_path task) (dt_bundle_hash task)
               (fl_skipped_bundles (snd kst))\<rparr>)
      | _ \<Rightarrow> (fst kst @ [task], snd kst))"

fun check_chunks ::
    "'g gateway_ops \<Rightarrow> session_handle \<Rightarrow> string \<Rightarrow> download_task list list \<Rightarrow> download_task list \<Rightarrow>
     'g filter_state \<Rightarrow> (asset_execution_error + download_task list) \<times> 'g filter_state" where
  "check_chunks ops session region_name [] keep st = (Inr keep, st)"
| "check_chunks ops session region_name (chunk # rest) keep st =
     (case go_check ops session (map (check_item region_name) chunk) (fl_gate st) of
        (Inl e, g) \<Rightarrow> (Inl (BlockingTask ''hip check_batch failed''), st\<lparr>fl_gate := g\<rparr>)
      | (Inr results, g) \<Rightarrow>
          (case fold (apply_decision (decisions results)) chunk (keep, st\<lparr>fl_gate := g\<rparr>) of
             (keep', st') \<Rightarrow> check_chunks ops session region_name rest keep' st'))"

definition hip_check_filter ::
    "'g gateway_ops \<Rightarrow> session_handle \<Rightarrow> string \<Rightarrow> nat \<Rightarrow> 'g filter_state task_filter_op" where
  "hip_check_filter ops session region_name check_batch_size tasks st =
     (if tasks = [] then (Inr tasks, st)
      else check_chunks ops session region_name (chunks check_batch_size tasks) [] st)"

definition combined_filter ::
    "'g gateway_ops \<Rightarrow> session_handle option \<Rightarrow> string \<Rightarrow> nat \<Rightarrow> string list \<Rightarrow> 'g filter_state task_filter_op" where
  "combined_filter ops hip region_name check_batch_size layer1_allow tasks st =
     (case hip of
        Some session \<Rightarrow>
          hip_check_filter ops session region_name check_batch_size tasks (st\<lparr>fl_layer1_skipped := 0\<rparr>)
      | None \<Rightarrow>
          (let kept = filter (\<lambda>t. dt_bundle_path t \<in> set layer1_allow) tasks
           in (Inr kept, st\<lparr>fl_layer1_skipped := length tasks - length kept\<rparr>)))"

section \<open>The next snapshot\<close>

definition carries ::
    "asset_bundle_info option \<Rightarrow> string list \<Rightarrow> string \<times> asset_bundle_detail \<Rightarrow> bool" where
  "carries old_info processed entry \<longleftrightarrow>
     (if fst entry \<in> set processed then True
      else case old_info of
             None \<Rightarrow> False
           | Some old \<Rightarrow>
               (case info_get old (fst entry) of
                  None \<Rightarrow> False
                | Some prev \<Rightarrow> bd_crc prev = bd_crc (snd entry)))"

definition build_next_snapshot ::
    "asset_bundle_info \<Rightarrow> asset_bundle_info option \<Rightarrow> string list \<Rightarrow> asset_bundle_info" where
  "build_next_snapshot new_info old_info processed =
     \<lparr>bi_version = bi_version new_info, bi_os = bi_os new_info,
      bi_bundles = fold (\<lambda>(name, detail) m.
          if carries old_info processed (name, detail) then hmap_insert name detail m else m)
        (bi_bundles new_info) []\<rparr>"

definition persist_processed_snapshot ::
    "snapshot_codec \<Rightarrow> string \<Rightarrow> asset_bundle_info \<Rightarrow> asset_bundle_info option \<Rightarrow> string list \<Rightarrow> fs \<Rightarrow> fs" where
  "persist_processed_snapshot codec path new_info old_info processed s =
     snd (save_snapshot codec path (build_next_snapshot new_info old_info processed) s)"

section \<open>Removing the work directory\<close>

record 'g host_ops =
  ho_is_dir :: "string \<Rightarrow> 'g \<Rightarrow> io_kind + bool"
  ho_cwd :: "'g \<Rightarrow> io_kind + string"
  ho_remove_dir_all :: "string \<Rightarrow> 'g \<Rightarrow> (io_kind + unit) \<times> 'g"

definition refuse :: "string \<Rightarrow> string \<Rightarrow> poll_error" where
  "refuse region_name why =
     PollConfig (''region `'' @ region_name @ ''` asset_save_dir '' @ why @ ''; refusing cleanup'')"

definition resolve_region_cleanup_dir ::
    "'g gateway_ops \<Rightarrow> 'g host_ops \<Rightarrow> string \<Rightarrow> string \<Rightarrow> 'g \<Rightarrow> poll_error + string option" where
  "resolve_region_cleanup_dir ops host region_name configured_path g =
     (if configured_path = [] then Inl (refuse region_name ''is empty'')
      else case go_canonicalize ops configured_path g of
        Inl NotFound \<Rightarrow> Inr None
      | Inl _ \<Rightarrow> Inl (PollExecution ''resolve region local work dir'')
      | Inr cleanup_dir \<Rightarrow>
          (case ho_is_dir host cleanup_dir g of
             Inl _ \<Rightarrow> Inl (PollExecution ''inspect region local work dir'')
           | Inr is_dir \<Rightarrow>
               if \<not> is_dir then Inl (refuse region_name ''is not a directory'')
               else if parent cleanup_dir = None then Inl (refuse region_name ''resolves to a filesystem root'')
               else
                 (case ho_cwd host g of
                    Inl _ \<Rightarrow> Inl (PollExecution ''resolve current directory'')
                  | Inr cwd \<Rightarrow>
                      if components cleanup_dir = components cwd \<or> path_starts_with cwd cleanup_dir
                      then Inl (refuse region_name ''contains the process cwd'')
                      else
                        (case file_name cleanup_dir of
                           None \<Rightarrow> Inl (refuse region_name ''has no final directory name'')
                         | Some dir_name \<Rightarrow>
                             if \<not> contains_sub (to_lower region_name) (to_lower dir_name)
                             then Inl (refuse region_name ''does not look region-scoped'')
                             else Inr (Some cleanup_dir)))))"

text \<open>The directory removed, if any, is the ghost result.\<close>

definition remove_region_work_dir_after_success ::
    "'g gateway_ops \<Rightarrow> 'g host_ops \<Rightarrow> app_config \<Rightarrow> string \<Rightarrow> 'g \<Rightarrow> (poll_error + string option) \<times> 'g" where
  "remove_region_work_dir_after_success ops host config region_name g =
     (if \<not> hp_enabled (ap_hip config) then (Inr None, g)
      else case map_of (ap_regions config) region_name of
        None \<Rightarrow> (Inr None, g)
      | Some region \<Rightarrow>
          if \<not> up_remove_local_after_upload (rg_upload region) then (Inr None, g)
          else
            (case opt_filter (\<lambda>v. v \<noteq> []) (map_option trim (rp_asset_save_dir (rg_paths region))) of
               None \<Rightarrow> (Inr None, g)
             | Some asset_save_dir \<Rightarrow>
                 (case resolve_region_cleanup_dir ops host region_name asset_save_dir g of
                    Inl e \<Rightarrow> (Inl e, g)
                  | Inr None \<Rightarrow> (Inr None, g)
                  | Inr (Some cleanup_dir) \<Rightarrow>
                      (case ho_remove_dir_all host cleanup_dir g of
                         (Inl _, g') \<Rightarrow> (Inl (PollExecution ''remove region local work dir after HIP success''), g')
                       | (Inr _, g') \<Rightarrow> (Inr (Some cleanup_dir), g')))))"

section \<open>One attempt\<close>

datatype run_outcome = SkippedByWatermark | Completed

text \<open>What surrounds the poller: the fetches (as functions that also change the outside state),
  the display of errors, the clock, and the executor, which runs the filter it is given, and returns
  its summary or error and the artefacts it announced. \<open>pe_received\<close> is the number of artefacts that
  reached the uploader before its channel closed or it was cancelled, \<open>pe_uploader_panic\<close> whether its
  task ended by a panic. Executor and uploader run concurrently; they share the files the executor
  has finished writing and the skip counters, which are final before the first artefact exists, so
  the model runs the uploader on the artefacts received after the executor's effects.\<close>

record 'g poller_env =
  pe_config :: app_config
  pe_region_name :: string
  pe_ops :: "'g gateway_ops"
  pe_host :: "'g host_ops"
  pe_codec :: snapshot_codec
  pe_json :: watermark_json
  pe_pkg_version :: string
  pe_run_id :: string
  pe_now :: nat
  pe_show_error :: "asset_execution_error \<Rightarrow> string"
  pe_client :: "poll_error + unit"
  pe_fetch_current :: "region_config \<Rightarrow> 'g \<Rightarrow> (asset_execution_error + current_version_info) \<times> 'g"
  pe_fetch_info :: "region_config \<Rightarrow> asset_update_request \<Rightarrow> 'g \<Rightarrow>
     (asset_execution_error + asset_bundle_info) \<times> 'g"
  pe_new_executor :: "region_config \<Rightarrow> asset_update_request \<Rightarrow> asset_execution_error + unit"
  pe_executor :: "asset_update_request \<Rightarrow> 'g filter_state task_filter_op \<Rightarrow> fs \<Rightarrow> 'g filter_state \<Rightarrow>
     (asset_execution_error + execution_summary) \<times> bundle_artefacts list \<times> fs \<times> 'g filter_state"
  pe_received :: nat
  pe_uploader_panic :: "string option"
  pe_sched :: "nat \<Rightarrow> nat list"

record 'g poll_world =
  pw_fs :: fs
  pw_gate :: 'g
  pw_watermarks :: watermark_store

definition handle_uploader_result ::
    "string + (poll_error + string list) \<Rightarrow> string list \<Rightarrow> (poll_error + unit) \<times> string list" where
  "handle_uploader_result result processed =
     (case result of
        Inr (Inr uploaded) \<Rightarrow> (Inr (), processed @ uploaded)
      | Inr (Inl e) \<Rightarrow> (Inl e, processed)
      | Inl join_err \<Rightarrow> (Inl (PollExecution (''uploader task panicked: '' @ join_err)), processed))"

definition watermark_for :: "nat \<Rightarrow> current_version_info \<Rightarrow> execution_summary \<Rightarrow> region_watermark" where
  "watermark_for now current summary =
     \<lparr>wm_asset_version = asset_version_or_default current,
      wm_asset_hash = asset_hash_or_default current,
      wm_app_version = app_version_or_default current,
      wm_bundle_count = es_discovered_bundles summary,
      wm_committed_at = now\<rparr>"

text \<open>What happens once executor and uploader are done: the snapshot is persisted on every path,
  the work directory and the watermark only when both succeeded.\<close>

definition conclude_attempt ::
    "'g poller_env \<Rightarrow> current_version_info \<Rightarrow> asset_bundle_info \<Rightarrow> asset_bundle_info option \<Rightarrow>
     poll_error + execution_summary \<Rightarrow> poll_error + unit \<Rightarrow> string list \<Rightarrow> 'g poll_world \<Rightarrow>
     (poll_error + run_outcome) \<times> 'g poll_world" where
  "conclude_attempt env current new_info old_info execution_result uploader_result processed w =
     (let snapshot_path = snapshot_path (pl_last_info_dir (ap_poller (pe_config env))) (pe_region_name env);
          w1 = w\<lparr>pw_fs := persist_processed_snapshot (pe_codec env) snapshot_path new_info old_info processed (pw_fs w)\<rparr>
      in case execution_result of
           Inl e \<Rightarrow> (Inl e, w1)
         | Inr summary \<Rightarrow>
             (case uploader_result of
                Inl e \<Rightarrow> (Inl e, w1)
              | Inr _ \<Rightarrow>
                  (case remove_region_work_dir_after_success (pe_ops env) (pe_host env) (pe_config env)
                          (pe_region_name env) (pw_gate w1) of
                     (Inl e, g) \<Rightarrow> (Inl e, w1\<lparr>pw_gate := g\<rparr>)
                   | (Inr _, g) \<Rightarrow>
                       (case watermark_set (pe_json env) (pw_watermarks w1) (pe_region_name env)
                               (watermark_for (pe_now env) current summary) (pw_fs w1) of
                          (Inl e, store, s) \<Rightarrow>
                            (Inl (PollExecution (pe_show_error env e)),
                             w1\<lparr>pw_gate := g, pw_watermarks := store, pw_fs := s\<rparr>)
                        | (Inr _, store, s) \<Rightarrow>
                            (Inr Completed, w1\<lparr>pw_gate := g, pw_watermarks := store, pw_fs := s\<rparr>)))))"

definition uploader_env_for ::
    "'g poller_env \<Rightarrow> current_version_info \<Rightarrow> asset_bundle_info \<Rightarrow> 'g filter_state \<Rightarrow> 'g uploader_env" where
  "uploader_env_for env current new_info flt =
     \<lparr>en_ops = pe_ops env, en_codec = pe_codec env, en_pkg_version = pe_pkg_version env,
      en_config = pe_config env, en_region_name = pe_region_name env, en_current = current,
      en_run_id = pe_run_id env,
      en_snapshot_path = snapshot_path (pl_last_info_dir (ap_poller (pe_config env))) (pe_region_name env),
      en_new_info = new_info,
      en_layer1_skipped = fl_layer1_skipped flt, en_check_skipped = fl_skipped_counter flt,
      en_check_skipped_bundles = fl_skipped_bundles flt, en_sched = pe_sched env\<rparr>"

definition open_check_session ::
    "'g poller_env \<Rightarrow> current_version_info \<Rightarrow> 'g \<Rightarrow> (poll_error + session_handle option) \<times> 'g" where
  "open_check_session env current g =
     (if hp_enabled (ap_hip (pe_config env))
      then st_bind (connect_hip_with (pe_ops env) (pe_pkg_version env) (pe_config env) (pe_region_name env)
                      current (pe_run_id env) g) (\<lambda>session g'. (Inr (Some session), g'))
      else (Inr None, g))"

text \<open>The concurrent part: executor and uploader. The skip set is read after the filter ran.\<close>

definition execute_and_upload ::
    "'g poller_env \<Rightarrow> current_version_info \<Rightarrow> asset_update_request \<Rightarrow> asset_bundle_info \<Rightarrow>
     session_handle option \<Rightarrow> string list \<Rightarrow> 'g poll_world \<Rightarrow>
     (poll_error + execution_summary) \<times> (poll_error + unit) \<times> string list \<times> 'g poll_world" where
  "execute_and_upload env current request new_info check_session changed_names w =
     (let hip = ap_hip (pe_config env);
          flt = combined_filter (pe_ops env) check_session (pe_region_name env) (max (hp_check_batch_size hip) 1)
                  changed_names;
          st0 = \<lparr>fl_gate = pw_gate w, fl_layer1_skipped = 0, fl_skipped_counter = 0, fl_skipped_bundles = []\<rparr>;
          (result, arts, s1, st1) = pe_executor env request flt (pw_fs w) st0;
          execution_result = (case result of Inl e \<Rightarrow> Inl (PollExecution (pe_show_error env e)) | Inr x \<Rightarrow> Inr x);
          skipped = map fst (fl_skipped_bundles st1)
      in if hp_enabled hip then
           (let (up, ust) = run_uploader (uploader_env_for env current new_info st1)
                              (take (pe_received env) arts) s1 (fl_gate st1);
                joined = (case pe_uploader_panic env of Some msg \<Rightarrow> Inl msg | None \<Rightarrow> Inr up);
                (uploader_result, processed) = handle_uploader_result joined [];
                g = (case check_session of None \<Rightarrow> ul_gate ust | Some session \<Rightarrow> go_close (pe_ops env) session (ul_gate ust))
            in (execution_result, uploader_result,
                (case uploader_result of Inr _ \<Rightarrow> processed @ skipped | Inl _ \<Rightarrow> processed),
                w\<lparr>pw_fs := ul_fs ust, pw_gate := g\<rparr>))
         else (execution_result, Inr (), skipped, w\<lparr>pw_fs := s1, pw_gate := fl_gate st1\<rparr>))"

definition execute_once_attempt ::
    "'g poller_env \<Rightarrow> region_config \<Rightarrow> current_version_info \<Rightarrow> asset_update_request \<Rightarrow> 'g poll_world \<Rightarrow>
     (poll_error + run_outcome) \<times> 'g poll_world" where
  "execute_once_attempt env region current request w0 =
     (case pe_fetch_info env region request (pw_gate w0) of
        (Inl e, g) \<Rightarrow> (Inl (PollExecution (pe_show_error env e)), w0\<lparr>pw_gate := g\<rparr>)
      | (Inr new_info, g) \<Rightarrow>
          (let path = snapshot_path (pl_last_info_dir (ap_poller (pe_config env))) (pe_region_name env);
               w1 = w0\<lparr>pw_gate := g\<rparr>
           in case load_snapshot (pe_codec env) path (pw_fs w1) of
                (Inl e, s) \<Rightarrow> (Inl (PollExecution (pe_show_error env e)), w1\<lparr>pw_fs := s\<rparr>)
              | (Inr old_info, s) \<Rightarrow>
                  (case open_check_session env current (pw_gate w1) of
                     (Inl e, g') \<Rightarrow> (Inl e, w1\<lparr>pw_fs := s, pw_gate := g'\<rparr>)
                   | (Inr check_session, g') \<Rightarrow>
                       case pe_new_executor env region request of
                         Inl e \<Rightarrow>
                           (Inl (PollExecution (pe_show_error env e)), w1\<lparr>pw_fs := s, pw_gate := g'\<rparr>)
                       | Inr _ \<Rightarrow>
                       (case execute_and_upload env current request new_info check_session
                               (map cb_bundle_name (df_changed (diff old_info new_info)))
                               (w1\<lparr>pw_fs := s, pw_gate := g'\<rparr>) of
                          (execution_result, uploader_result, processed, w2) \<Rightarrow>
                            conclude_attempt env current new_info old_info execution_result uploader_result
                              processed w2))))"

section \<open>Retries and ticks\<close>

definition FAILED_REGION_RETRY_ATTEMPTS :: nat where "FAILED_REGION_RETRY_ATTEMPTS = 10"
definition FAILED_REGION_RETRY_BACKOFF_SECONDS :: nat where "FAILED_REGION_RETRY_BACKOFF_SECONDS = 5"

fun is_config_error :: "poll_error \<Rightarrow> bool" where
  "is_config_error (PollConfig _) = True"
| "is_config_error _ = False"

text \<open>\<open>cancelled n\<close>: the cancellation is seen after attempt \<open>n\<close> failed, before or during the pause;
  either way the error is returned. The errors of the loop carry that flag.\<close>

definition retryable_poll_error :: "poll_error \<times> bool \<Rightarrow> bool" where
  "retryable_poll_error ec \<longleftrightarrow> \<not> is_config_error (fst ec) \<and> \<not> snd ec"

definition region_backoff :: "nat \<Rightarrow> nat" where
  "region_backoff attempt = 1000 * min (FAILED_REGION_RETRY_BACKOFF_SECONDS * attempt) u64_max"

definition region_attempt ::
    "(nat \<Rightarrow> bool) \<Rightarrow> (nat \<Rightarrow> 'g poller_env) \<Rightarrow> region_config \<Rightarrow> current_version_info \<Rightarrow> asset_update_request \<Rightarrow>
     ('g poll_world, poll_error \<times> bool, run_outcome) attempt_op" where
  "region_attempt cancelled env region current request n w =
     st_map_err (\<lambda>e. (e, cancelled n)) (execute_once_attempt (env n) region current request w)"

definition retry_region_in_place ::
    "(nat \<Rightarrow> bool) \<Rightarrow> (nat \<Rightarrow> 'g poller_env) \<Rightarrow> region_config \<Rightarrow> current_version_info \<Rightarrow> asset_update_request \<Rightarrow>
     'g poll_world \<Rightarrow> (poll_error \<times> bool, run_outcome, 'g poll_world) attempt_run" where
  "retry_region_in_place cancelled env region current request w =
     retry_from region_backoff (region_attempt cancelled env region current request) retryable_poll_error
       FAILED_REGION_RETRY_ATTEMPTS 1 w"

definition request_for :: "string \<Rightarrow> current_version_info \<Rightarrow> asset_update_request" where
  "request_for region_name current =
     \<lparr>rq_region = region_name, rq_asset_version = cv_asset_version current,
      rq_asset_hash = cv_asset_hash current, rq_dry_run = False, rq_mode = Update\<rparr>"

definition watermark_matches :: "region_watermark \<Rightarrow> current_version_info \<Rightarrow> bool" where
  "watermark_matches wm current \<longleftrightarrow>
     wm_asset_version wm \<noteq> [] \<and> wm_asset_version wm = asset_version_or_default current \<and>
     wm_asset_hash wm = asset_hash_or_default current"

text \<open>\<open>permit\<close>: the region got its execution permit; otherwise the wait ended by cancellation. The
  environment of attempt \<open>n\<close> is \<open>env n\<close>; the part of the tick before the attempts uses \<open>env 0\<close>.\<close>

definition execute_once ::
    "bool \<Rightarrow> (nat \<Rightarrow> bool) \<Rightarrow> (nat \<Rightarrow> 'g poller_env) \<Rightarrow> (region_error \<Rightarrow> string) \<Rightarrow> 'g poll_world \<Rightarrow>
     (poll_error + run_outcome) \<times> 'g poll_world" where
  "execute_once permit cancelled env show_region w0 =
     (let e0 = env 0 in
      case select_region (pe_config e0) (pe_region_name e0) of
        Inl e \<Rightarrow> (Inl (PollConfig (show_region e)), w0)
      | Inr region \<Rightarrow>
          (case pe_client e0 of
             Inl e \<Rightarrow> (Inl e, w0)
           | Inr _ \<Rightarrow>
               (case pe_fetch_current e0 region (pw_gate w0) of
                  (Inl e, g) \<Rightarrow> (Inl (PollExecution (pe_show_error e0 e)), w0\<lparr>pw_gate := g\<rparr>)
                | (Inr current, g) \<Rightarrow>
                    (let w1 = w0\<lparr>pw_gate := g\<rparr>;
                         skip = (case watermark_get (pw_watermarks w1) (pe_region_name e0) of
                                   Some wm \<Rightarrow> watermark_matches wm current | None \<Rightarrow> False)
                     in if skip then
                          (case remove_region_work_dir_after_success (pe_ops e0) (pe_host e0) (pe_config e0)
                                  (pe_region_name e0) (pw_gate w1) of
                             (Inl e, g') \<Rightarrow> (Inl e, w1\<lparr>pw_gate := g'\<rparr>)
                           | (Inr _, g') \<Rightarrow> (Inr SkippedByWatermark, w1\<lparr>pw_gate := g'\<rparr>))
                        else if \<not> permit then (Inr SkippedByWatermark, w1)
                        else
                          (let run = retry_region_in_place cancelled env region current
                                       (request_for (pe_region_name e0) current) w1
                           in (case run_result run of Inl (e, _) \<Rightarrow> Inl e | Inr out \<Rightarrow> Inr out,
                               run_state run))))))"

definition run_region_once ::
    "bool \<Rightarrow> (nat \<Rightarrow> bool) \<Rightarrow> (nat \<Rightarrow> 'g poller_env) \<Rightarrow> (region_error \<Rightarrow> string) \<Rightarrow> (poll_error \<Rightarrow> string) \<Rightarrow>
     nat \<Rightarrow> nat \<Rightarrow> poller_state \<Rightarrow> 'g poll_world \<Rightarrow> poller_state \<times> 'g poll_world" where
  "run_region_once permit cancelled env show_region show_poll start now state w =
     (let name = pe_region_name (env 0);
          state1 = mark_state name (\<lambda>r. r\<lparr>rs_last_tick_at := Some start, rs_in_flight := True,
                                         rs_last_error := None\<rparr>) state
      in case execute_once permit cancelled env show_region w of
           (Inr _, w') \<Rightarrow>
             (mark_state name (\<lambda>r. r\<lparr>rs_in_flight := False, rs_last_success_at := Some now\<rparr>) state1, w')
         | (Inl e, w') \<Rightarrow>
             (mark_state name (\<lambda>r. r\<lparr>rs_in_flight := False, rs_last_error := Some (show_poll e)\<rparr>) state1, w'))"

section \<open>The loops\<close>

text \<open>\<^verbatim>\<open>run_region_loop\<close> on the sequence of events its \<^verbatim>\<open>select!\<close> delivers, the swallowed first tick of
  the interval left out. \<open>tick n\<close> is one run of the region, the \<open>n\<close>-th of this loop.\<close>

datatype region_event = LoopCancelled | Tick | Triggered string | TriggerLagged nat | TriggerClosed

fun run_region_loop ::
    "string \<Rightarrow> (nat \<Rightarrow> poller_state \<times> 'w \<Rightarrow> poller_state \<times> 'w) \<Rightarrow> nat \<Rightarrow> region_event list \<Rightarrow>
     poller_state \<times> 'w \<Rightarrow> nat \<times> poller_state \<times> 'w" where
  "run_region_loop name tick n [] sw = (n, sw)"
| "run_region_loop name tick n (LoopCancelled # _) sw = (n, sw)"
| "run_region_loop name tick n (Tick # rest) sw = run_region_loop name tick (n + 1) rest (tick n sw)"
| "run_region_loop name tick n (Triggered region # rest) sw =
     (if region = name then run_region_loop name tick (n + 1) rest (tick n sw)
      else run_region_loop name tick n rest sw)"
| "run_region_loop name tick n (TriggerLagged _ # rest) sw = run_region_loop name tick n rest sw"
| "run_region_loop name tick n (TriggerClosed # _) sw = (n, sw)"

definition poll_interval :: "app_config \<Rightarrow> nat" where
  "poll_interval config = max (pl_interval_seconds (ap_poller config)) 5"

definition max_concurrent_regions :: "app_config \<Rightarrow> nat" where
  "max_concurrent_regions config = max (pl_max_concurrent_regions (ap_poller config)) 1"

text \<open>\<^verbatim>\<open>Poller::run\<close>: one loop per enabled region, all sharing the permits. \<open>Fetching\<close> is a tick before
  the permit, \<open>Waiting\<close> the wait for it, \<open>Executing\<close> the part that holds it.\<close>

datatype region_phase = Idle | Fetching | Waiting | Executing

record poller_system =
  ps_permits :: nat
  ps_phase :: "string \<Rightarrow> region_phase"
  ps_cancelled :: bool

definition poller_start :: "app_config \<Rightarrow> poller_system" where
  "poller_start config = \<lparr>ps_permits = max_concurrent_regions config, ps_phase = (\<lambda>_. Idle), ps_cancelled = False\<rparr>"

definition set_phase :: "string \<Rightarrow> region_phase \<Rightarrow> poller_system \<Rightarrow> poller_system" where
  "set_phase region ph s = s\<lparr>ps_phase := (ps_phase s)(region := ph)\<rparr>"

inductive poller_step :: "app_config \<Rightarrow> poller_system \<Rightarrow> poller_system \<Rightarrow> bool" for config where
  begin_tick: "region \<in> set (enabled_regions config) \<Longrightarrow> ps_phase s region = Idle \<Longrightarrow> \<not> ps_cancelled s \<Longrightarrow>
    poller_step config s (set_phase region Fetching s)"
| end_without_permit: "ps_phase s region = Fetching \<Longrightarrow> poller_step config s (set_phase region Idle s)"
| request_permit: "ps_phase s region = Fetching \<Longrightarrow> poller_step config s (set_phase region Waiting s)"
| acquire_permit: "ps_phase s region = Waiting \<Longrightarrow> 0 < ps_permits s \<Longrightarrow>
    poller_step config s (set_phase region Executing (s\<lparr>ps_permits := ps_permits s - 1\<rparr>))"
| abort_wait: "ps_phase s region = Waiting \<Longrightarrow> ps_cancelled s \<Longrightarrow> poller_step config s (set_phase region Idle s)"
| end_execution: "ps_phase s region = Executing \<Longrightarrow>
    poller_step config s (set_phase region Idle (s\<lparr>ps_permits := ps_permits s + 1\<rparr>))"
| cancel: "poller_step config s (s\<lparr>ps_cancelled := True\<rparr>)"

section \<open>Lemmas: the next snapshot\<close>

lemma carries_iff: "carries old processed e \<longleftrightarrow> fst e \<in> set processed \<or> \<not> is_changed old e"
  by (auto simp: carries_def is_changed_def old_crc_def split: option.splits)

lemma next_snapshot_bundles:
  "bi_bundles (build_next_snapshot new old processed) =
     fold (\<lambda>(k, v). hmap_insert k v) (filter (carries old processed) (bi_bundles new)) []"
proof -
  have "fold (\<lambda>(name, detail) m. if carries old processed (name, detail) then hmap_insert name detail m else m) es m =
      fold (\<lambda>(k, v). hmap_insert k v) (filter (carries old processed) es) m" for es m
    by (induction es arbitrary: m) auto
  then show ?thesis by (simp add: build_next_snapshot_def)
qed

lemma next_snapshot_get:
  assumes "info_wf new"
  shows "info_get (build_next_snapshot new old processed) =
    map_of (filter (carries old processed) (bi_bundles new))"
proof -
  let ?kvs = "filter (carries old processed) (bi_bundles new)"
  have d: "distinct (map fst ?kvs)"
    using assms by (simp add: info_wf_def hmap_wf_def distinct_map_filter)
  have "info_get (build_next_snapshot new old processed) = map_of (rev ?kvs)"
    by (simp add: info_get_def next_snapshot_bundles fold_insert_get)
  also have "\<dots> = map_of ?kvs"
    using d by (subst map_of_inject_set) (simp_all only: rev_map [symmetric] distinct_rev set_rev)
  finally show ?thesis .
qed

lemma next_snapshot_wf: "info_wf (build_next_snapshot new old processed)"
  using fold_insert_wf [of "[]"] by (simp add: info_wf_def next_snapshot_bundles hmap_wf_def)

lemma next_snapshot_old_crc:
  assumes "info_wf new" and "e \<in> set (bi_bundles new)"
  shows "is_changed (Some (build_next_snapshot new old processed)) e \<longleftrightarrow>
    is_changed old e \<and> fst e \<notin> set processed"
proof (cases "carries old processed e")
  case True
  have "map_of (filter (carries old processed) (bi_bundles new)) (fst e) = Some (snd e)"
    using assms True by (intro map_of_is_SomeI) (auto simp: info_wf_def hmap_wf_def distinct_map_filter)
  then show ?thesis
    using True carries_iff [of old processed e]
    by (auto simp: is_changed_def old_crc_def next_snapshot_get [OF assms(1)])
next
  case False
  have "map_of (filter (carries old processed) (bi_bundles new)) (fst e) = None"
  proof (rule ccontr)
    assume "map_of (filter (carries old processed) (bi_bundles new)) (fst e) \<noteq> None"
    then obtain d where d: "(fst e, d) \<in> set (filter (carries old processed) (bi_bundles new))"
      by (auto dest: map_of_SomeD)
    then have "(fst e, d) = e"
      using assms by (cases e) (auto simp: info_wf_def hmap_wf_def dest: eq_key_imp_eq_value)
    then show False using d False by simp
  qed
  then show ?thesis
    using False carries_iff [of old processed e]
    by (auto simp: is_changed_def old_crc_def next_snapshot_get [OF assms(1)])
qed

section \<open>Lemmas: the filters\<close>

text \<open>What one chunk contributes: the tasks its decisions do not skip stay, the others are recorded.\<close>

definition skips :: "(string, check_action) hmap \<Rightarrow> download_task \<Rightarrow> bool" where
  "skips ds task \<longleftrightarrow> map_of ds (dt_bundle_path task) = Some Skip"

lemma apply_decision_cases:
  "apply_decision ds task (keep, st) =
     (if skips ds task
      then (keep, st\<lparr>fl_skipped_counter := fl_skipped_counter st + 1,
              fl_skipped_bundles := hmap_insert (dt_bundle_path task) (dt_bundle_hash task) (fl_skipped_bundles st)\<rparr>)
      else (keep @ [task], st))"
  by (auto simp: apply_decision_def skips_def split: option.splits check_action.splits)

definition recorded :: "download_task list \<Rightarrow> 'g filter_state \<Rightarrow> 'g filter_state" where
  "recorded ts st = st\<lparr>fl_skipped_counter := fl_skipped_counter st + length ts,
     fl_skipped_bundles := fold (\<lambda>t. hmap_insert (dt_bundle_path t) (dt_bundle_hash t)) ts (fl_skipped_bundles st)\<rparr>"

lemma recorded_simps [simp]:
  "recorded [] st = st"
  "recorded ts' (recorded ts st) = recorded (ts @ ts') st"
  by (simp_all add: recorded_def)

lemma apply_decisions:
  "fold (apply_decision ds) ts (keep, st) =
     (keep @ filter (\<lambda>t. \<not> skips ds t) ts, recorded (filter (skips ds) ts) st)"
proof (induction ts arbitrary: keep st)
  case (Cons t ts)
  then show ?case by (simp add: apply_decision_cases recorded_def)
qed simp

text \<open>The filter as a whole: the tasks split into those kept and those recorded, in order.\<close>

lemma check_chunks_split:
  assumes "check_chunks ops session region cs keep st = (Inr out, st')"
  shows "\<exists>kept skipped. out = keep @ kept \<and> subseq kept (concat cs) \<and> subseq skipped (concat cs) \<and>
    mset (concat cs) = mset kept + mset skipped \<and> st' = (recorded skipped st)\<lparr>fl_gate := fl_gate st'\<rparr>"
  using assms
proof (induction cs arbitrary: keep st)
  case Nil
  then show ?case by auto
next
  case (Cons c cs)
  obtain results g where g: "go_check ops session (map (check_item region) c) (fl_gate st) = (Inr results, g)"
    using Cons.prems by (auto split: prod.splits sum.splits)
  let ?ds = "decisions results"
  have "check_chunks ops session region cs (keep @ filter (\<lambda>t. \<not> skips ?ds t) c)
      (recorded (filter (skips ?ds) c) (st\<lparr>fl_gate := g\<rparr>)) = (Inr out, st')"
    using Cons.prems by (simp add: g apply_decisions)
  then obtain kept skipped where IH: "out = (keep @ filter (\<lambda>t. \<not> skips ?ds t) c) @ kept"
    "subseq kept (concat cs)" "subseq skipped (concat cs)" "mset (concat cs) = mset kept + mset skipped"
    "st' = (recorded skipped (recorded (filter (skips ?ds) c) (st\<lparr>fl_gate := g\<rparr>)))\<lparr>fl_gate := fl_gate st'\<rparr>"
    using Cons.IH by metis
  show ?case
  proof (intro exI conjI)
    show "out = keep @ (filter (\<lambda>t. \<not> skips ?ds t) c @ kept)" using IH(1) by simp
    show "subseq (filter (\<lambda>t. \<not> skips ?ds t) c @ kept) (concat (c # cs))"
      using IH(2) by (auto intro: list_emb_append_mono)
    show "subseq (filter (skips ?ds) c @ skipped) (concat (c # cs))"
      using IH(3) by (auto intro: list_emb_append_mono)
    show "mset (concat (c # cs)) =
        mset (filter (\<lambda>t. \<not> skips ?ds t) c @ kept) + mset (filter (skips ?ds) c @ skipped)"
      using IH(4) multiset_partition [of "mset c" "skips ?ds"] by (simp add: ac_simps)
    show "st' = (recorded (filter (skips ?ds) c @ skipped) st)\<lparr>fl_gate := fl_gate st'\<rparr>"
      using IH(5) by (simp add: recorded_def add.assoc)
  qed
qed

lemma hip_check_filter_split:
  assumes "0 < n" and "hip_check_filter ops session region n tasks st = (Inr out, st')"
  shows "\<exists>skipped. subseq out tasks \<and> subseq skipped tasks \<and> mset tasks = mset out + mset skipped \<and>
    st' = (recorded skipped st)\<lparr>fl_gate := fl_gate st'\<rparr>"
proof (cases "tasks = []")
  case False
  then have "check_chunks ops session region (chunks n tasks) [] st = (Inr out, st')"
    using assms by (simp add: hip_check_filter_def)
  from check_chunks_split [OF this] show ?thesis using assms(1) by auto
qed (use assms in \<open>auto simp: hip_check_filter_def\<close>)

interpretation hip_check: task_filter "hip_check_filter ops session region (max n 1)" for ops session region n
proof unfold_locales
  fix tasks out and s s' :: "'a filter_state"
  assume "hip_check_filter ops session region (max n 1) tasks s = (Inr out, s')"
  then show "subseq out tasks" using hip_check_filter_split [of "max n 1"] by fastforce
qed

interpretation combined: task_filter "combined_filter ops hip region (max n 1) allow" for ops hip region n allow
proof unfold_locales
  fix tasks out and s s' :: "'a filter_state"
  assume "combined_filter ops hip region (max n 1) allow tasks s = (Inr out, s')"
  then show "subseq out tasks"
    using hip_check.kept by (auto simp: combined_filter_def Let_def split: option.splits)
qed

section \<open>Lemmas: files\<close>

lemma fs_ops_fault [simp]:
  "fs_fault (snd (fs_write p b s)) = fs_fault s"
  "fs_fault (snd (fs_rename p q s)) = fs_fault s"
  "fs_fault (snd (fs_remove_file p s)) = fs_fault s"
  "fs_fault (snd (create_parent p s)) = fs_fault s"
  by (auto simp: fs_write_def fs_rename_def fs_remove_file_def create_parent_def fs_create_dir_all_def
      split: option.splits prod.splits)

lemma save_snapshot_fault [simp]: "fs_fault (snd (save_snapshot codec path info s)) = fs_fault s"
proof -
  have w: "fs_fault s' = fs_fault s0" if "fs_write p b s0 = (r, s')" for p b s0 r s'
    using that fs_ops_fault(1) by (metis snd_conv)
  have m: "fs_fault s' = fs_fault s0" if "fs_rename p q s0 = (r, s')" for p q s0 r s'
    using that fs_ops_fault(2) by (metis snd_conv)
  have c: "fs_fault s' = fs_fault s0" if "create_parent p s0 = (r, s')" for p s0 r s'
    using that fs_ops_fault(4) by (metis snd_conv)
  show ?thesis
    by (auto simp: save_snapshot_def st_bind_def st_map_err_def split: prod.splits sum.splits dest!: w m c)
qed

lemma write_atomic_no_faults:
  "fs_fault s = no_faults \<Longrightarrow> wj_print json file = Inr b \<Longrightarrow>
     \<exists>s'. write_atomic json path file s = (Inr (), s') \<and> fs_fault s' = no_faults"
  by (simp add: write_atomic_def fs_write_def fs_rename_def)

section \<open>Lemmas: attempts and ticks\<close>

interpretation region_attempts: bounded_attempts
  "retry_region_in_place cancelled env region current request" FAILED_REGION_RETRY_ATTEMPTS
  retryable_poll_error for cancelled env region current request
  using retry_from_contract [OF _ refl, of 1 FAILED_REGION_RETRY_ATTEMPTS region_backoff
      "region_attempt cancelled env region current request" retryable_poll_error]
  by unfold_locales
    (simp_all add: retry_region_in_place_def FAILED_REGION_RETRY_ATTEMPTS_def del: split_paired_All split_paired_Ex)

lemma mark_state_get:
  "map_of (mark_state name f state) region =
     (if region = name then Some (f (unwrap_or default_region_runtime_state (map_of state name)))
      else map_of state region)"
  by (simp add: mark_state_def)

lemma watermark_set_get:
  assumes "watermark_set json store region wm s = (r, store', s')"
  shows "watermark_get store' = (watermark_get store)(region \<mapsto> wm)"
  using assms by (auto simp: watermark_set_def watermark_get_def Let_def fun_eq_iff split: prod.splits)

lemma conclude_attempt_watermarks:
  assumes "conclude_attempt env current new_info old_info er ur processed w = (r, w')"
  shows "(pw_watermarks w' = pw_watermarks w \<and> r \<noteq> Inr Completed) \<or>
    (\<exists>summary. er = Inr summary \<and> ur = Inr () \<and> watermark_get (pw_watermarks w') =
      (watermark_get (pw_watermarks w))(pe_region_name env \<mapsto> watermark_for (pe_now env) current summary))"
  using assms
  by (auto simp: conclude_attempt_def Let_def split: sum.splits prod.splits dest!: watermark_set_get)

lemma execute_and_upload_watermarks:
  "execute_and_upload env current request new_info cs names w = (er, ur, processed, w') \<Longrightarrow>
     pw_watermarks w' = pw_watermarks w"
  by (auto simp: execute_and_upload_def Let_def split: if_splits prod.splits)

lemma execute_and_upload_failed:
  "execute_and_upload env current request new_info cs names w = (er, Inl e, processed, w') \<Longrightarrow> processed = []"
  by (auto simp: execute_and_upload_def handle_uploader_result_def Let_def
      split: if_splits prod.splits sum.splits option.splits)

lemma attempt_cases:
  assumes "execute_once_attempt env region current request w = (r, w')"
  shows "(pw_watermarks w' = pw_watermarks w \<and> r \<noteq> Inr Completed) \<or>
    (\<exists>new_info old_info cs names w1 er ur processed w2.
       pw_watermarks w1 = pw_watermarks w \<and>
       execute_and_upload env current request new_info cs names w1 = (er, ur, processed, w2) \<and>
       conclude_attempt env current new_info old_info er ur processed w2 = (r, w'))"
proof (cases "pe_fetch_info env region request (pw_gate w)")
  case (Pair fi g)
  show ?thesis
  proof (cases fi)
    case (Inr new_info)
    obtain ld s where ld: "load_snapshot (pe_codec env)
        (snapshot_path (pl_last_info_dir (ap_poller (pe_config env))) (pe_region_name env)) (pw_fs w) = (ld, s)"
      by fastforce
    obtain cs g' where cs: "open_check_session env current g = (cs, g')" by fastforce
    show ?thesis
    proof (cases "(\<exists>e. ld = Inl e) \<or> (\<exists>e. cs = Inl e) \<or> (\<exists>e. pe_new_executor env region request = Inl e)")
      case True
      then show ?thesis
        using assms Pair Inr ld cs
        by (auto simp: execute_once_attempt_def Let_def split: sum.splits)
    next
      case False
      then obtain old_info session where ok: "ld = Inr old_info" "cs = Inr session"
        "pe_new_executor env region request = Inr ()"
        by (metis (full_types) old.unit.exhaust sum.exhaust)
      let ?w1 = "w\<lparr>pw_fs := s, pw_gate := g'\<rparr>"
      let ?names = "map cb_bundle_name (df_changed (diff old_info new_info))"
      obtain er ur processed w2 where
        run: "execute_and_upload env current request new_info session ?names ?w1 = (er, ur, processed, w2)"
        by (metis prod_cases4)
      have "conclude_attempt env current new_info old_info er ur processed w2 = (r, w')"
        using assms by (simp add: execute_once_attempt_def Pair Inr ld cs ok run Let_def)
      moreover have "pw_watermarks ?w1 = pw_watermarks w" by simp
      ultimately show ?thesis using run by blast
    qed
  qed (use assms Pair in \<open>auto simp: execute_once_attempt_def\<close>)
qed

lemma cleanup_dir_checked:
  assumes "resolve_region_cleanup_dir ops host region_name path g = Inr (Some dir)"
  shows "go_canonicalize ops path g = Inr dir \<and> ho_is_dir host dir g = Inr True \<and> parent dir \<noteq> None \<and>
    (\<exists>cwd. ho_cwd host g = Inr cwd \<and> \<not> path_starts_with cwd dir) \<and>
    (\<exists>name. file_name dir = Some name \<and> contains_sub (to_lower region_name) (to_lower name))"
  using assms
  by (auto simp: resolve_region_cleanup_dir_def split: if_splits sum.splits option.splits io_kind.splits)

section \<open>Lemmas: the shared permits\<close>

inductive_simps poller_step_iff: "poller_step config s s'"

lemma set_phase_simps [simp]:
  "ps_permits (set_phase region ph s) = ps_permits s"
  "ps_phase (set_phase region ph s) = (ps_phase s)(region := ph)"
  "ps_cancelled (set_phase region ph s) = ps_cancelled s"
  by (simp_all add: set_phase_def)

definition executing :: "poller_system \<Rightarrow> string set" where
  "executing s = {region. ps_phase s region = Executing}"

definition permits_inv :: "app_config \<Rightarrow> poller_system \<Rightarrow> bool" where
  "permits_inv config s \<longleftrightarrow>
     (\<forall>region. ps_phase s region \<noteq> Idle \<longrightarrow> region \<in> set (enabled_regions config)) \<and>
     ps_permits s + card (executing s) = max_concurrent_regions config"

lemma executing_set_phase:
  "executing (set_phase region ph s) =
     (if ph = Executing then insert region (executing s) else executing s - {region})"
  by (auto simp: executing_def)

lemma executing_update [simp]:
  "executing (s\<lparr>ps_permits := n\<rparr>) = executing s" "executing (s\<lparr>ps_cancelled := b\<rparr>) = executing s"
  by (simp_all add: executing_def)

lemma executing_finite: "permits_inv config s \<Longrightarrow> finite (executing s)"
  by (rule finite_subset [of _ "set (enabled_regions config)"]) (auto simp: permits_inv_def executing_def)

lemma permits_inv_set_phase:
  assumes "permits_inv config s" and "ps_phase s region \<noteq> Executing" and "ph \<noteq> Executing"
    and "ph = Idle \<or> region \<in> set (enabled_regions config)"
  shows "permits_inv config (set_phase region ph s)"
proof -
  have "executing s - {region} = executing s" using assms(2) by (auto simp: executing_def)
  then show ?thesis using assms by (auto simp: permits_inv_def executing_set_phase)
qed

lemma permits_inv_step:
  assumes "poller_step config s s'" and inv: "permits_inv config s"
  shows "permits_inv config s'"
  using assms(1)
proof cases
  case (acquire_permit region)
  then have "region \<notin> executing s" by (simp add: executing_def)
  then show ?thesis
    using acquire_permit inv executing_finite [OF inv]
    by (auto simp: permits_inv_def executing_set_phase)
next
  case (end_execution region)
  then have "region \<in> executing s" by (simp add: executing_def)
  then have "0 < card (executing s)" using executing_finite [OF inv] by (auto simp: card_gt_0_iff)
  then show ?thesis
    using end_execution inv \<open>region \<in> executing s\<close> executing_finite [OF inv]
    by (auto simp: permits_inv_def executing_set_phase card_Diff_singleton)
next
  case (request_permit region)
  moreover have "region \<in> set (enabled_regions config)"
    using inv request_permit by (simp add: permits_inv_def)
  ultimately show ?thesis using inv by (simp add: permits_inv_set_phase)
next
  case cancel
  then show ?thesis using inv by (simp add: permits_inv_def)
qed (use inv in \<open>simp_all add: permits_inv_set_phase\<close>)

lemma permits_inv_reachable:
  "(poller_step config)\<^sup>*\<^sup>* (poller_start config) s \<Longrightarrow> permits_inv config s"
proof (induction rule: rtranclp_induct)
  case base
  show ?case by (simp add: permits_inv_def poller_start_def executing_def)
qed (rule permits_inv_step)

section \<open>Properties\<close>

text \<open>C1: the snapshot a tick leaves behind makes the next comparison report exactly the changed
  bundles the tick did not process: nothing that failed is lost, nothing that was processed is
  reported again.\<close>

theorem next_diff_reports_unprocessed:
  assumes "option_wf old" and "info_wf new"
  shows "map cb_bundle_name (df_changed (diff (Some (build_next_snapshot new old processed)) new)) =
    filter (\<lambda>name. name \<notin> set processed) (map cb_bundle_name (df_changed (diff old new)))"
proof -
  have wf: "option_wf (Some (build_next_snapshot new old processed))"
    by (simp add: option_wf_def next_snapshot_wf)
  have "filter (is_changed (Some (build_next_snapshot new old processed))) (bi_bundles new) =
      filter (\<lambda>e. is_changed old e \<and> fst e \<notin> set processed) (bi_bundles new)"
    using next_snapshot_old_crc [OF assms(2)] by (intro filter_cong) auto
  then show ?thesis
    by (simp add: diff_changed [OF wf] diff_changed [OF assms(1)] filter_map comp_def changed_entry_def)
qed

definition demo_crc_detail :: "string \<Rightarrow> int \<Rightarrow> asset_bundle_detail" where
  "demo_crc_detail name crc = \<lparr>bd_bundle_name = name, bd_cache_file_name = [], bd_cache_directory_name = [],
     bd_hash = [], bd_category = OnDemand, bd_crc = crc, bd_file_size = 1, bd_dependencies = [],
     bd_paths = [], bd_is_builtin = False, bd_is_relocate = None, bd_md5_hash = None, bd_download_path = None\<rparr>"

definition demo_infos :: "asset_bundle_info \<times> asset_bundle_info" where
  "demo_infos =
     (\<lparr>bi_version = None, bi_os = None, bi_bundles = [(''a'', demo_crc_detail ''a'' 1), (''b'', demo_crc_detail ''b'' 2)]\<rparr>,
      \<lparr>bi_version = None, bi_os = None, bi_bundles =
         [(''a'', demo_crc_detail ''a'' 1), (''b'', demo_crc_detail ''b'' 7), (''c'', demo_crc_detail ''c'' 3)]\<rparr>)"

theorem next_diff_reports_unprocessed_witness:
  "map cb_bundle_name (df_changed (diff (Some (build_next_snapshot (snd demo_infos)
     (Some (fst demo_infos)) [''b''])) (snd demo_infos))) = [''c'']"
proof -
  have wf: "option_wf (Some (fst demo_infos))" "info_wf (snd demo_infos)"
    by (simp_all add: option_wf_def info_wf_def hmap_wf_def demo_infos_def)
  show ?thesis
    unfolding next_diff_reports_unprocessed [OF wf] diff_changed [OF wf(1)]
    by (simp add: demo_infos_def is_changed_def old_crc_def info_get_def demo_crc_detail_def changed_entry_def)
qed

lemma recorded_get:
  assumes "distinct (map dt_bundle_path ts)" and "fl_skipped_bundles st = []"
  shows "map_of (fl_skipped_bundles (recorded ts st)) =
    map_of (map (\<lambda>t. (dt_bundle_path t, dt_bundle_hash t)) ts)"
proof -
  let ?kvs = "map (\<lambda>t. (dt_bundle_path t, dt_bundle_hash t)) ts"
  have "fl_skipped_bundles (recorded ts st) = fold (\<lambda>(k, v). hmap_insert k v) ?kvs []"
    by (simp add: recorded_def assms(2) fold_map comp_def)
  then have "map_of (fl_skipped_bundles (recorded ts st)) = map_of (rev ?kvs)"
    by (simp add: fold_insert_get)
  also have "\<dots> = map_of ?kvs"
    using assms(1)
    by (subst map_of_inject_set) (simp_all only: rev_map [symmetric] distinct_rev set_rev map_map comp_def fst_conv)
  finally show ?thesis .
qed

text \<open>C31: the gateway check divides the planned tasks: what it keeps is a sublist in planned order,
  every other task is counted once and recorded with its hash, and no task is lost or duplicated.\<close>

theorem check_filter_partitions:
  assumes "hip_check_filter ops session region (max n 1) tasks st = (Inr out, st')"
    and "distinct (map dt_bundle_path tasks)" and "fl_skipped_bundles st = []"
  shows "subseq out tasks \<and>
    fl_skipped_counter st' = fl_skipped_counter st + (length tasks - length out) \<and>
    (\<forall>t\<in>set tasks. t \<notin> set out \<longleftrightarrow> map_of (fl_skipped_bundles st') (dt_bundle_path t) = Some (dt_bundle_hash t))"
proof -
  obtain skipped where sk: "subseq out tasks" "subseq skipped tasks" "mset tasks = mset out + mset skipped"
    "st' = (recorded skipped st)\<lparr>fl_gate := fl_gate st'\<rparr>"
    using hip_check_filter_split [OF _ assms(1)] by (auto simp: less_max_iff_disj)
  have "fl_skipped_counter st' = fl_skipped_counter st + length skipped"
    by (subst sk(4)) (simp add: recorded_def)
  moreover have "length tasks = length out + length skipped"
    using arg_cong [OF sk(3), of size] by simp
  moreover have ds: "distinct (map dt_bundle_path skipped)"
    using assms(2) sk(2) by (metis distinct_nthsI nths_map subseq_conv_nths)
  moreover have get: "map_of (fl_skipped_bundles st') =
      map_of (map (\<lambda>t. (dt_bundle_path t, dt_bundle_hash t)) skipped)"
    by (subst sk(4)) (simp add: recorded_get [OF ds assms(3)])
  have "distinct (out @ skipped)"
    using assms(2) sk(3) by (metis distinct_map mset_append mset_eq_imp_distinct_iff)
  then have split: "t \<notin> set out \<longleftrightarrow> t \<in> set skipped" if "t \<in> set tasks" for t
    using that mset_eq_setD [of tasks "out @ skipped"] sk(3) by auto
  have key: "map_of (fl_skipped_bundles st') (dt_bundle_path t) = Some (dt_bundle_hash t) \<longleftrightarrow> t \<in> set skipped"
    if t: "t \<in> set tasks" for t
  proof
    assume "map_of (fl_skipped_bundles st') (dt_bundle_path t) = Some (dt_bundle_hash t)"
    then obtain t' where t': "t' \<in> set skipped" "dt_bundle_path t' = dt_bundle_path t"
      unfolding get by (auto dest!: map_of_SomeD)
    then have "t' = t"
      using t assms(2) sk(2) by (metis distinct_map inj_onD notin_set_nthsI subseq_conv_nths)
    then show "t \<in> set skipped" using t' by simp
  next
    assume "t \<in> set skipped"
    then show "map_of (fl_skipped_bundles st') (dt_bundle_path t) = Some (dt_bundle_hash t)"
      unfolding get using ds by (intro map_of_is_SomeI) (auto simp: comp_def)
  qed
  ultimately show ?thesis using sk(1) split key by auto
qed

definition demo_task :: "string \<Rightarrow> download_task" where
  "demo_task path = \<lparr>dt_download_path = path, dt_bundle_path = path, dt_bundle_hash = ''1'',
     dt_category = OnDemand, dt_file_size = 1, dt_priority = 0\<rparr>"

text \<open>A gateway that has bundle \<open>a\<close> only.\<close>

definition demo_gateway :: "nat gateway_ops" where
  "demo_gateway = demo_ops\<lparr>go_check := (\<lambda>session items g.
     (Inr (map (\<lambda>i. \<lparr>ca_path = ci_path i, ca_action = (if ci_path i = ''a'' then Skip else Upload),
        ca_placement = None\<rparr>) items), g + 1))\<rparr>"

definition demo_filter_state :: "nat filter_state" where
  "demo_filter_state = \<lparr>fl_gate = 0, fl_layer1_skipped = 0, fl_skipped_counter = 0, fl_skipped_bundles = []\<rparr>"

definition demo_session :: session_handle where
  "demo_session = \<lparr>sh_id = 0, sh_ack = \<lparr>ha_session_id = [], ha_server_version = [], ha_max_frame = 1000,
     ha_max_in_flight_uploads = 2, ha_sha256_required = True, ha_known_version = False\<rparr>\<rparr>"

theorem check_filter_partitions_witness:
  "\<exists>st'. hip_check_filter demo_gateway demo_session ''jp'' (max 1 1) [demo_task ''a'', demo_task ''b'']
       demo_filter_state = (Inr [demo_task ''b''], st') \<and> fl_skipped_counter st' = 1 \<and> fl_gate st' = 2"
proof -
  obtain st' where r: "hip_check_filter demo_gateway demo_session ''jp'' (max 1 1)
      [demo_task ''a'', demo_task ''b''] demo_filter_state = (Inr [demo_task ''b''], st')" and g: "fl_gate st' = 2"
    by (simp add: hip_check_filter_def chunks_step apply_decision_def decisions_def demo_gateway_def
        demo_filter_state_def demo_task_def check_item_def)
  show ?thesis
    using check_filter_partitions [OF r] r g by (simp add: demo_filter_state_def demo_task_def)
qed


definition demo_config :: app_config where
  "demo_config = default_app_config\<lparr>ap_hip := default_hip_config\<lparr>hp_enabled := False\<rparr>,
     ap_regions := [(''jp'', default_region_config\<lparr>rg_enabled := True\<rparr>)]\<rparr>"

definition demo_current :: current_version_info where
  "demo_current = \<lparr>cv_app_version = None, cv_app_hash = None, cv_asset_version = Some ''7'', cv_asset_hash = Some ''h''\<rparr>"

definition demo_summary :: execution_summary where
  "demo_summary = \<lparr>es_discovered_bundles = 3, es_queued_downloads = 2, es_completed_downloads = 1,
     es_failed_downloads = 1, es_updated_record_entries = 1, es_chart_hash_sync_performed = False\<rparr>"

definition demo_host :: "nat host_ops" where
  "demo_host = \<lparr>ho_is_dir = (\<lambda>p g. Inr True), ho_cwd = (\<lambda>g. Inr ''/app''), ho_remove_dir_all = (\<lambda>p g. (Inr (), g + 1))\<rparr>"

definition demo_poller_env :: "app_config \<Rightarrow> nat poller_env" where
  "demo_poller_env config = \<lparr>pe_config = config, pe_region_name = ''jp'', pe_ops = demo_gateway, pe_host = demo_host,
     pe_codec = demo_codec, pe_json = \<lparr>wj_print = (\<lambda>_. Inr [1]), wj_parse = (\<lambda>_. Inl ''unused'')\<rparr>, pe_pkg_version = ''0'', pe_run_id = ''r'', pe_now = 5,
     pe_show_error = (\<lambda>e. ''failed''), pe_client = Inr (),
     pe_fetch_current = (\<lambda>region g. (Inr demo_current, g)),
     pe_fetch_info = (\<lambda>region request g. (Inr (snd demo_infos), g)),
     pe_new_executor = (\<lambda>region request. Inr ()),
     pe_executor = (\<lambda>request flt s st. (Inr demo_summary, [], s, st)),
     pe_received = 0, pe_uploader_panic = None, pe_sched = (\<lambda>_. [])\<rparr>"

definition demo_world :: "nat poll_world" where
  "demo_world = \<lparr>pw_fs = \<lparr>fs_files = Map.empty, fs_clock = 0, fs_fault = no_faults\<rparr>, pw_gate = 0,
     pw_watermarks = \<lparr>ws_path = ''wm.json'', ws_regions = []\<rparr>\<rparr>"

lemma demo_poller_env_simps [simp]:
  "pe_config (demo_poller_env config) = config" "pe_region_name (demo_poller_env config) = ''jp''"
  "pe_ops (demo_poller_env config) = demo_gateway" "pe_host (demo_poller_env config) = demo_host"
  "pe_codec (demo_poller_env config) = demo_codec" "wj_print (pe_json (demo_poller_env config)) file = Inr [1]"
  "pe_now (demo_poller_env config) = 5" "pe_client (demo_poller_env config) = Inr ()"
  "pe_fetch_current (demo_poller_env config) region g = (Inr demo_current, g)"
  "pe_fetch_info (demo_poller_env config) region request g = (Inr (snd demo_infos), g)"
  "pe_new_executor (demo_poller_env config) region request = Inr ()"
  "pe_executor (demo_poller_env config) request flt s st = (Inr demo_summary, [], s, st)"
  by (simp_all add: demo_poller_env_def)

lemma demo_attempt_completes:
  "\<exists>w'. execute_once_attempt (demo_poller_env demo_config) region demo_current request demo_world = (Inr Completed, w') \<and>
     watermark_get (pw_watermarks w') ''jp'' = Some (watermark_for 5 demo_current demo_summary)"
proof -
  let ?env = "demo_poller_env demo_config"
  let ?s = "fs_tick (pw_fs demo_world)"
  have off: "hp_enabled (ap_hip demo_config) = False" by (simp add: demo_config_def)
  have load: "load_snapshot demo_codec p (pw_fs demo_world) = (Inr None, ?s)" for p
    by (simp add: load_snapshot_def fs_read_def demo_world_def)
  have run: "execute_and_upload ?env demo_current request info cs names w = (Inr demo_summary, Inr (), [], w)"
    for info cs names w
    by (simp add: execute_and_upload_def off Let_def)
  have attempt: "execute_once_attempt ?env region demo_current request demo_world =
      conclude_attempt ?env demo_current (snd demo_infos) None (Inr demo_summary) (Inr ()) []
        (demo_world\<lparr>pw_fs := ?s\<rparr>)"
    by (simp add: execute_once_attempt_def run Let_def load open_check_session_def off)
  have "fs_fault (persist_processed_snapshot codec p new old pr ?s) = no_faults" for codec p new old pr
    by (simp add: persist_processed_snapshot_def demo_world_def)
  then have "\<exists>s'. write_atomic (pe_json ?env) q f (persist_processed_snapshot codec p new old pr ?s) = (Inr (), s')"
    for codec p new old pr f q
    using write_atomic_no_faults [OF _ demo_poller_env_simps(6)] by blast
  then obtain s' where w: "write_atomic (pe_json ?env) (ws_path (pw_watermarks demo_world))
      (bt_insert ''jp'' (watermark_for 5 demo_current demo_summary) (ws_regions (pw_watermarks demo_world)))
      (persist_processed_snapshot demo_codec (snapshot_path (pl_last_info_dir (ap_poller demo_config)) ''jp'')
        (snd demo_infos) None [] ?s) = (Inr (), s')"
    by blast
  show ?thesis
    by (simp add: attempt conclude_attempt_def remove_region_work_dir_after_success_def off watermark_set_def w
        watermark_get_def Let_def)
qed




text \<open>when the uploader fails, the snapshot it had been extending batch by batch is replaced by one
  that forgets this attempt altogether: the next comparison reports every bundle the attempt started
  from, those of the committed batches included.\<close>

theorem failed_upload_forgets_batches:
  assumes "execute_and_upload env current request new_info cs names w = (er, Inl e, processed, w')"
    and "option_wf old" and "info_wf new_info"
  shows "map cb_bundle_name (df_changed (diff (Some (build_next_snapshot new_info old processed)) new_info)) =
    map cb_bundle_name (df_changed (diff old new_info)) \<and>
    pw_fs (snd (conclude_attempt env current new_info old er (Inl e) processed w')) =
      snd (save_snapshot (pe_codec env)
        (snapshot_path (pl_last_info_dir (ap_poller (pe_config env))) (pe_region_name env))
        (build_next_snapshot new_info old []) (pw_fs w'))"
proof -
  have p: "processed = []" by (rule execute_and_upload_failed [OF assms(1)])
  have wf: "option_wf (Some (build_next_snapshot new_info old []))"
    by (simp add: option_wf_def next_snapshot_wf)
  have "filter (is_changed (Some (build_next_snapshot new_info old []))) (bi_bundles new_info) =
      filter (is_changed old) (bi_bundles new_info)"
    using next_snapshot_old_crc [OF assms(3), where processed = "[]"] by (intro filter_cong) auto
  then show ?thesis
    by (simp add: p diff_changed [OF wf] diff_changed [OF assms(2)] conclude_attempt_def Let_def
        persist_processed_snapshot_def split: sum.splits)
qed

definition demo_offline :: "nat poller_env" where
  "demo_offline = (demo_poller_env default_app_config)\<lparr>pe_ops := demo_gateway\<lparr>go_connect :=
     (\<lambda>cfg hello g. (Inl (HipIo OtherIo), g))\<rparr>,
     pe_executor := (\<lambda>request flt s st. (Inr demo_summary, [demo_art], s, st)), pe_received := 1\<rparr>"

theorem failed_upload_forgets_batches_witness:
  "\<exists>processed w'. execute_and_upload demo_offline demo_current (request_for ''jp'' demo_current) (snd demo_infos) None []
      demo_world = (Inr demo_summary, Inl (PollHip ''error''), processed, w') \<and>
    map cb_bundle_name (df_changed (diff (Some (build_next_snapshot (snd demo_infos) None processed)) (snd demo_infos))) =
      [''a'', ''b'', ''c'']"
proof -
  have up: "fst (run_uploader (uploader_env_for demo_offline demo_current (snd demo_infos) st) [demo_art] s g) =
      Inl (PollHip ''error'')" for st s g
    by (simp add: run_uploader_def receive_artefact_def should_flush_def finish_uploader_def uploader_init_def
        flush_batch_def ensure_session_def connect_hip_with_def uploader_env_for_def demo_offline_def
        demo_gateway_def demo_ops_def demo_poller_env_def default_config_defs demo_art_def artefact_bytes_def
        List.map_filter_simps Let_def)
  have env: "pe_uploader_panic demo_offline = None" "hp_enabled (ap_hip (pe_config demo_offline))"
    "pe_executor demo_offline request flt s st = (Inr demo_summary, [demo_art], s, st)"
    "pe_received demo_offline = 1" for request flt s st
    by (simp_all add: demo_offline_def demo_poller_env_def default_config_defs)
  have "\<exists>processed w'. execute_and_upload demo_offline demo_current (request_for ''jp'' demo_current)
      (snd demo_infos) None [] demo_world = (Inr demo_summary, Inl (PollHip ''error''), processed, w')"
  proof -
    obtain ust where "run_uploader (uploader_env_for demo_offline demo_current (snd demo_infos)
        \<lparr>fl_gate = pw_gate demo_world, fl_layer1_skipped = 0, fl_skipped_counter = 0, fl_skipped_bundles = []\<rparr>)
        [demo_art] (pw_fs demo_world) (pw_gate demo_world) = (Inl (PollHip ''error''), ust)"
      using up by (metis eq_fst_iff)
    then show ?thesis by (simp add: execute_and_upload_def handle_uploader_result_def env Let_def)
  qed
  then obtain processed w' where r: "execute_and_upload demo_offline demo_current (request_for ''jp'' demo_current)
      (snd demo_infos) None [] demo_world = (Inr demo_summary, Inl (PollHip ''error''), processed, w')"
    by blast
  have wf: "option_wf None" "info_wf (snd demo_infos)"
    by (simp_all add: option_wf_def info_wf_def hmap_wf_def demo_infos_def)
  show ?thesis
    using failed_upload_forgets_batches [OF r wf] r
    by (simp add: diff_changed [OF wf(1)])
      (simp add: demo_infos_def is_changed_def old_crc_def changed_entry_def)
qed

text \<open>C32: a region is tried at least once and at most ten times per tick. An invalid configuration or
  a cancellation ends the tries at once; any other error is returned only after the tenth.\<close>

theorem region_retries_bounded:
  assumes "r = retry_region_in_place cancelled env region current request w"
  shows "1 \<le> length (run_trace r) \<and> length (run_trace r) \<le> 10 \<and> run_result r = last (run_trace r) \<and>
    (\<forall>x\<in>set (butlast (run_trace r)). \<exists>e. x = Inl (e, False) \<and> \<not> is_config_error e) \<and>
    (\<forall>e c. run_result r = Inl (e, c) \<and> length (run_trace r) < 10 \<longrightarrow> is_config_error e \<or> c)"
proof -
  let ?run = "retry_region_in_place cancelled env region current request w"
  have made: "1 \<le> length (run_trace ?run)"
    using region_attempts.made by (metis One_nat_def Suc_leI length_greater_0_conv)
  have ends: "is_config_error e \<or> c" if "run_result ?run = Inl (e, c)" "length (run_trace ?run) < 10" for e c
    using region_attempts.exhausted [OF that(1)] that(2)
    by (auto simp: retryable_poll_error_def FAILED_REGION_RETRY_ATTEMPTS_def)
  have earlier: "\<exists>e. x = Inl (e, False) \<and> \<not> is_config_error e" if "x \<in> set (butlast (run_trace ?run))" for x
    using region_attempts.earlier [OF that] by (auto simp: retryable_poll_error_def)
  show ?thesis
    unfolding assms
    using made ends earlier region_attempts.result_last
      region_attempts.bounded [unfolded FAILED_REGION_RETRY_ATTEMPTS_def] by blast
qed

theorem region_retries_bounded_witness:
  "length (run_trace (retry_region_in_place (\<lambda>_. False) (\<lambda>_. demo_poller_env demo_config) default_region_config
     demo_current (request_for ''jp'' demo_current) demo_world)) \<le> 10"
  using region_retries_bounded [OF refl] by blast


definition demo_cleanup_config :: app_config where
  "demo_cleanup_config = default_app_config\<lparr>ap_regions := [(''jp'', default_region_config\<lparr>
     rg_paths := (rg_paths default_region_config)\<lparr>rp_asset_save_dir := Some ''/data/JP-work''\<rparr>,
     rg_upload := (rg_upload default_region_config)\<lparr>up_remove_local_after_upload := True\<rparr>\<rparr>)]\<rparr>"

lemma demo_paths:
  "trim ''/data/JP-work'' = ''/data/JP-work''" "parent ''/data/JP-work'' = Some ''/data''"
  "path_starts_with ''/app'' ''/data/JP-work'' = False" "components ''/data/JP-work'' \<noteq> components ''/app''"
  "file_name ''/data/JP-work'' = Some ''JP-work''" "contains_sub (to_lower ''jp'') (to_lower ''JP-work'')"
  by code_simp+


text \<open>a tick always ends with its region out of flight, whatever happened in it: the start is
  recorded, an error is shown exactly when the tick failed, a success time is set exactly when it did
  not, and no other region's state is touched.\<close>

theorem tick_leaves_region_idle:
  "\<exists>old rt. map_of (fst (run_region_once permit cancelled env show_region show_poll start now state w)) =
      (map_of state)(pe_region_name (env 0) \<mapsto> rt) \<and>
    old = unwrap_or default_region_runtime_state (map_of state (pe_region_name (env 0))) \<and>
    \<not> rs_in_flight rt \<and> rs_last_tick_at rt = Some start \<and>
    (case fst (execute_once permit cancelled env show_region w) of
       Inr _ \<Rightarrow> rs_last_error rt = None \<and> rs_last_success_at rt = Some now
     | Inl e \<Rightarrow> rs_last_error rt = Some (show_poll e) \<and> rs_last_success_at rt = rs_last_success_at old)"
  by (auto simp: run_region_once_def Let_def mark_state_def fun_eq_iff split: prod.splits sum.splits)

text \<open>the regions that hold an execution permit never exceed \<open>max_concurrent_regions\<close>, whatever
  order the loops run in, and no permit is ever lost: a region waits only while that many execute.\<close>

theorem region_permits_bounded:
  assumes "(poller_step config)\<^sup>*\<^sup>* (poller_start config) s"
  shows "card {region. ps_phase s region = Executing} \<le> max_concurrent_regions config \<and>
    (ps_permits s = 0 \<longleftrightarrow> card {region. ps_phase s region = Executing} = max_concurrent_regions config)"
  using permits_inv_reachable [OF assms] by (auto simp: permits_inv_def executing_def)

theorem region_permits_bounded_witness:
  "\<exists>s. (poller_step demo_config)\<^sup>*\<^sup>* (poller_start demo_config) s \<and> ps_phase s ''jp'' = Executing \<and>
     card {region. ps_phase s region = Executing} \<le> max_concurrent_regions demo_config"
proof -
  let ?s0 = "poller_start demo_config"
  let ?s3 = "set_phase ''jp'' Executing
      ((set_phase ''jp'' Waiting (set_phase ''jp'' Fetching ?s0))\<lparr>ps_permits := ps_permits ?s0 - 1\<rparr>)"
  have on: "''jp'' \<in> set (enabled_regions demo_config)"
    by (simp add: enabled_regions_def demo_config_def)
  have "poller_step demo_config ?s0 (set_phase ''jp'' Fetching ?s0)"
    using on by (intro poller_step.begin_tick) (simp_all add: poller_start_def)
  moreover have "poller_step demo_config (set_phase ''jp'' Fetching ?s0)
      (set_phase ''jp'' Waiting (set_phase ''jp'' Fetching ?s0))"
    by (intro poller_step.request_permit) simp
  moreover have "poller_step demo_config (set_phase ''jp'' Waiting (set_phase ''jp'' Fetching ?s0)) ?s3"
    using poller_step.acquire_permit [of "set_phase ''jp'' Waiting (set_phase ''jp'' Fetching ?s0)" "''jp''"]
    by (simp add: poller_start_def max_concurrent_regions_def)
  ultimately have reach: "(poller_step demo_config)\<^sup>*\<^sup>* ?s0 ?s3"
    by (meson rtranclp.rtrancl_into_rtrancl rtranclp.rtrancl_refl)
  moreover have "ps_phase ?s3 ''jp'' = Executing" by simp
  ultimately show ?thesis using region_permits_bounded [OF reach] by blast
qed

end
