(* ===== verification/Task_Pool.thy ===== *)
theory Task_Pool
  imports Haruki_Prelude "HOL-Library.Multiset"
begin

text \<open>
  Runs of a system that takes one scheduled action at a time, and the contract of a pool of tasks: every
  action makes the pool smaller, and something can be done as long as it is not over.
\<close>

section \<open>Taking one task out\<close>

definition remove_nth :: "nat \<Rightarrow> 'a list \<Rightarrow> 'a list" where
  "remove_nth i xs = take i xs @ drop (Suc i) xs"

lemma sum_list_remove_nth:
  "i < length xs \<Longrightarrow> sum_list (map f (remove_nth i xs)) + f (xs ! i) = (sum_list (map f xs) :: nat)"
  by (subst (3) id_take_nth_drop [of i xs]) (auto simp: remove_nth_def)

lemma mset_remove_nth: "i < length xs \<Longrightarrow> mset xs = add_mset (xs ! i) (mset (remove_nth i xs))"
  by (metis Cons_nth_drop_Suc append_take_drop_id mset.simps(2) mset_append remove_nth_def union_mset_add_mset_right)

lemma length_remove_nth: "i < length xs \<Longrightarrow> length (remove_nth i xs) = length xs - 1"
  by (simp add: remove_nth_def)

lemma set_remove_nth: "set (remove_nth i xs) \<subseteq> set xs"
  by (auto simp: remove_nth_def dest: in_set_takeD in_set_dropD)

lemma map_remove_nth: "map f (remove_nth i xs) = remove_nth i (map f xs)"
  by (simp add: remove_nth_def take_map drop_map)

section \<open>Runs\<close>

fun run_steps :: "('a \<Rightarrow> 's \<Rightarrow> 's option) \<Rightarrow> 'a list \<Rightarrow> 's \<Rightarrow> 's option" where
  "run_steps step [] s = Some s"
| "run_steps step (a # as) s = (case step a s of None \<Rightarrow> None | Some s' \<Rightarrow> run_steps step as s')"

lemma run_steps_append:
  "run_steps step (as @ bs) s = (case run_steps step as s of None \<Rightarrow> None | Some s' \<Rightarrow> run_steps step bs s')"
  by (induction as arbitrary: s) (auto split: option.split)

lemma run_steps_inv:
  assumes "\<And>a s s'. I s \<Longrightarrow> step a s = Some s' \<Longrightarrow> I s'" and "I s" and "run_steps step as s = Some s'"
  shows "I s'"
  using assms(2,3) by (induction as arbitrary: s) (auto split: option.splits dest: assms(1))

section \<open>Pools that finish\<close>

locale task_pool =
  fixes step :: "'a \<Rightarrow> 's \<Rightarrow> 's option"
    and over :: "'s \<Rightarrow> bool"
    and inv :: "'s \<Rightarrow> bool"
    and work :: "'s \<Rightarrow> nat"
  assumes keeps: "inv s \<Longrightarrow> step a s = Some s' \<Longrightarrow> inv s'"
    and shrinks: "inv s \<Longrightarrow> step a s = Some s' \<Longrightarrow> work s' < work s"
    and enabled: "inv s \<Longrightarrow> \<not> over s \<Longrightarrow> \<exists>a. step a s \<noteq> None"
begin

lemma run_keeps: "inv s \<Longrightarrow> run_steps step as s = Some s' \<Longrightarrow> inv s'"
  by (rule run_steps_inv [of inv]) (auto dest: keeps)

lemma run_bounded: "inv s \<Longrightarrow> run_steps step as s = Some s' \<Longrightarrow> length as + work s' \<le> work s"
proof (induction as arbitrary: s)
  case (Cons a as)
  then obtain t where "step a s = Some t" "run_steps step as t = Some s'" by (auto split: option.splits)
  with Cons.IH [of t] Cons.prems(1) show ?case using keeps [of s a t] shrinks [of s a t] by simp
qed simp

lemma finishes: "inv s \<Longrightarrow> \<exists>as s'. run_steps step as s = Some s' \<and> over s'"
proof (induction "work s" arbitrary: s rule: less_induct)
  case less
  show ?case
  proof (cases "over s")
    case True
    then show ?thesis by (intro exI [of _ "[]"]) simp
  next
    case False
    then obtain a t where t: "step a s = Some t" using enabled less.prems by blast
    with less keeps [of s a t] shrinks [of s a t] obtain as s' where "run_steps step as t = Some s'" "over s'" by blast
    with t show ?thesis by (intro exI [of _ "a # as"]) simp
  qed
qed

end

end
