(* ===== verification/Asset_Info.thy ===== *)
theory Asset_Info
  imports Asset_Plan Retry
begin

text \<open>
  The parts of \<^verbatim>\<open>src/core/asset_execution.rs\<close> that find out what there is to download: the execution
  context, cookies, versions, URLs, the decryption of the bundle list; and the download record of
  \<^verbatim>\<open>src/core/download_records.rs\<close>. The HTTP client (with the servers and the clock behind it), AES, hex
  and the serialisers are parameters.
\<close>

section \<open>HTTP\<close>

text \<open>A response: its status, its \<^verbatim>\<open>set-cookie\<close> header, and its body or the error of reading it.\<close>

datatype http_reply = HttpFailed string | HttpReply nat "string option" "string + bytes"

record 'h http_ops =
  ht_send :: "string \<Rightarrow> string \<Rightarrow> (string \<times> string) list \<Rightarrow> 'h \<Rightarrow> http_reply \<times> 'h"
  ht_time_arg :: "'h \<Rightarrow> string"
  ht_text_lossy :: "bytes \<Rightarrow> string"
  ht_parse_current :: "bytes \<Rightarrow> string + current_version_info"

definition is_success :: "nat \<Rightarrow> bool" where
  "is_success status \<longleftrightarrow> 200 \<le> status \<and> status < 300"

text \<open>What the closures given to \<^verbatim>\<open>retry_async\<close> make of a reply to a GET.\<close>

definition get_outcome :: "string \<Rightarrow> http_reply \<Rightarrow> asset_execution_error + bytes" where
  "get_outcome url reply =
     (case reply of
        HttpFailed e \<Rightarrow> Inl (Http e)
      | HttpReply status _ body \<Rightarrow>
          if is_success status then (case body of Inl e \<Rightarrow> Inl (Http e) | Inr b \<Rightarrow> Inr b)
          else Inl (HttpStatus url status))"

section \<open>The execution context\<close>

record exec_context =
  ec_region_name :: string
  ec_region :: region_config
  ec_retry :: retry_config
  ec_runtime_cookie :: "string option"
  ec_resolved_app_version :: "string option"
  ec_resolved_app_hash :: "string option"
  ec_resolved_asset_version :: "string option"
  ec_resolved_asset_hash :: "string option"
  ec_resolved_profile :: "string option"
  ec_resolved_assetbundle_host_hash :: "string option"

text \<open>\<open>check_header\<close>, \<open>check_proxy\<close> and \<open>build\<close>: whether the HTTP library takes the header value, the
  proxy and the finished configuration.\<close>

definition new_context ::
    "(string \<Rightarrow> string + unit) \<Rightarrow> (string \<Rightarrow> string + unit) \<Rightarrow> string + unit \<Rightarrow> app_config \<Rightarrow> string \<Rightarrow>
     region_config \<Rightarrow> asset_update_request \<Rightarrow> asset_execution_error + exec_context" where
  "new_context check_header check_proxy build config region_name region request =
     (case check_header (rr_unity_version (rg_runtime region)) of
        Inl e \<Rightarrow> Inl (HttpClient e)
      | Inr _ \<Rightarrow>
          (case (case opt_filter (\<lambda>p. p \<noteq> []) (sv_proxy (ap_server config)) of
                   None \<Rightarrow> Inr () | Some proxy \<Rightarrow> check_proxy proxy) of
             Inl e \<Rightarrow> Inl (HttpClient e)
           | Inr _ \<Rightarrow>
               (case build of
                  Inl e \<Rightarrow> Inl (HttpClient e)
                | Inr _ \<Rightarrow>
                    Inr \<lparr>ec_region_name = region_name, ec_region = region,
                         ec_retry = ex_retry (ap_execution config), ec_runtime_cookie = None,
                         ec_resolved_app_version = None, ec_resolved_app_hash = None,
                         ec_resolved_asset_version = rq_asset_version request,
                         ec_resolved_asset_hash = rq_asset_hash request, ec_resolved_profile = None,
                         ec_resolved_assetbundle_host_hash = None\<rparr>)))"

definition cookie_header :: "exec_context \<Rightarrow> (string \<times> string) list" where
  "cookie_header ctx = (case ec_runtime_cookie ctx of None \<Rightarrow> [] | Some cookie \<Rightarrow> [(''cookie'', cookie)])"

definition get_with_retry ::
    "'h http_ops \<Rightarrow> exec_context \<Rightarrow> string \<Rightarrow> 'h \<Rightarrow> (asset_execution_error + bytes) \<times> 'h" where
  "get_with_retry http ctx url h =
     (let r = retry_async (ec_retry ctx)
                (\<lambda>n h. case ht_send http ''GET'' url (cookie_header ctx) h of (reply, h') \<Rightarrow> (get_outcome url reply, h'))
                is_retryable_http_error h
      in (run_result r, run_state r))"

subsection \<open>Cookies\<close>

fun requires_cookies :: "region_provider_config \<Rightarrow> bool" where
  "requires_cookies (ColorfulPalette c) = cp_required_cookies c"
| "requires_cookies (Nuverse n) = nv_required_cookies n"

fun cookie_bootstrap_url :: "region_provider_config \<Rightarrow> string" where
  "cookie_bootstrap_url (ColorfulPalette c) =
     unwrap_or ''https://issue.sekai.colorfulpalette.org/api/signature'' (cp_cookie_bootstrap_url c)"
| "cookie_bootstrap_url (Nuverse n) =
     unwrap_or ''https://issue.sekai.colorfulpalette.org/api/signature'' (nv_cookie_bootstrap_url n)"

definition cookie_outcome :: "string \<Rightarrow> http_reply \<Rightarrow> asset_execution_error + string option" where
  "cookie_outcome url reply =
     (case reply of
        HttpFailed e \<Rightarrow> Inl (Http e)
      | HttpReply status cookie _ \<Rightarrow> if is_success status then Inr cookie else Inl (HttpStatus url status))"

definition fetch_runtime_cookies ::
    "'h http_ops \<Rightarrow> exec_context \<Rightarrow> 'h \<Rightarrow> (asset_execution_error + exec_context) \<times> 'h" where
  "fetch_runtime_cookies http ctx h =
     (let url = cookie_bootstrap_url (rg_provider (ec_region ctx));
          r = retry_async (ec_retry ctx)
                (\<lambda>n h. case ht_send http ''POST'' url [] h of (reply, h') \<Rightarrow> (cookie_outcome url reply, h'))
                is_retryable_http_error h
      in (case run_result r of
            Inl e \<Rightarrow> Inl e
          | Inr cookie \<Rightarrow> Inr (ctx\<lparr>ec_runtime_cookie := cookie\<rparr>), run_state r))"

subsection \<open>Decryption\<close>

record crypto_ops =
  co_hex :: "string \<Rightarrow> string + bytes"
  co_aes_cbc :: "bytes \<Rightarrow> bytes \<Rightarrow> bytes \<Rightarrow> string + bytes"

definition decrypt_region_msgpack ::
    "crypto_ops \<Rightarrow> (bytes \<Rightarrow> string + 'a) \<Rightarrow> string \<Rightarrow> string \<Rightarrow> bytes \<Rightarrow> asset_execution_error + 'a" where
  "decrypt_region_msgpack crypto unpack aes_key_hex aes_iv_hex content =
     (if content = [] then Inl EmptyEncryptedContent
      else if length content mod 16 \<noteq> 0 then Inl InvalidEncryptedBlockSize
      else
        case co_hex crypto aes_key_hex of
          Inl e \<Rightarrow> Inl (InvalidAesKeyHex e)
        | Inr key \<Rightarrow>
            (case co_hex crypto aes_iv_hex of
               Inl e \<Rightarrow> Inl (InvalidAesIvHex e)
             | Inr iv \<Rightarrow>
                 if length iv \<noteq> 16 then Inl (InvalidAesIvLength (length iv))
                 else if length key \<notin> {16, 24, 32}
                 then Inl (AssetInfoDecode (''unsupported AES key length '' @ show_nat (length key)))
                 else
                   (case co_aes_cbc crypto key iv content of
                      Inl e \<Rightarrow> Inl (AssetInfoDecode e)
                    | Inr decrypted \<Rightarrow>
                        (case unpack decrypted of Inl e \<Rightarrow> Inl (AssetInfoDecode e) | Inr v \<Rightarrow> Inr v))))"

definition context_decrypt ::
    "crypto_ops \<Rightarrow> (bytes \<Rightarrow> string + 'a) \<Rightarrow> exec_context \<Rightarrow> bytes \<Rightarrow> asset_execution_error + 'a" where
  "context_decrypt crypto unpack ctx body =
     (let c = rg_crypto (ec_region ctx) in
      case (cr_aes_key_hex c, cr_aes_iv_hex c) of
        (Some key, Some iv) \<Rightarrow> decrypt_region_msgpack crypto unpack key iv body
      | _ \<Rightarrow> Inl (MissingCryptoConfig (ec_region_name ctx)))"

subsection \<open>Versions\<close>

definition url_given :: "string option \<Rightarrow> string option" where
  "url_given url = opt_filter (\<lambda>v. v \<noteq> []) (map_option trim url)"

fun provider_current_version_url :: "region_provider_config \<Rightarrow> string option" where
  "provider_current_version_url (ColorfulPalette c) = url_given (cp_current_version_url c)"
| "provider_current_version_url (Nuverse n) = url_given (nv_current_version_url n)"

text \<open>The poller's fetch: one request, no retries.\<close>

definition fetch_current_version_info ::
    "'h http_ops \<Rightarrow> region_config \<Rightarrow> string \<Rightarrow> 'h \<Rightarrow> (asset_execution_error + current_version_info) \<times> 'h" where
  "fetch_current_version_info http region region_name h =
     (case provider_current_version_url (rg_provider region) of
        None \<Rightarrow> (Inl (MissingAssetVersionOrHash region_name), h)
      | Some url \<Rightarrow>
          (case ht_send http ''GET'' url [] h of
             (reply, h') \<Rightarrow>
               (case get_outcome url reply of
                  Inl e \<Rightarrow> Inl e
                | Inr b \<Rightarrow> (case ht_parse_current http b of Inl e \<Rightarrow> Inl (AssetInfoDecode e) | Inr v \<Rightarrow> Inr v), h')))"

definition fetch_current ::
    "'h http_ops \<Rightarrow> exec_context \<Rightarrow> string \<Rightarrow> 'h \<Rightarrow> (asset_execution_error + current_version_info) \<times> 'h" where
  "fetch_current http ctx url h =
     (case get_with_retry http ctx url h of
        (Inl e, h') \<Rightarrow> (Inl e, h')
      | (Inr b, h') \<Rightarrow> (case ht_parse_current http b of Inl e \<Rightarrow> Inl (AssetInfoDecode e) | Inr v \<Rightarrow> Inr v, h'))"

definition game_version_headers :: "exec_context \<Rightarrow> string \<Rightarrow> string \<Rightarrow> (string \<times> string) list" where
  "game_version_headers ctx app_version app_hash =
     [(''accept'', ''application/octet-stream''), (''content-type'', ''application/octet-stream''),
      (''accept-encoding'', ''identity''),
      (''user-agent'', ''UnityPlayer/'' @ rr_unity_version (rg_runtime (ec_region ctx))),
      (''X-Platform'', ''iOS''), (''X-DeviceModel'', ''HarukiAssetUpdater/1.0''), (''X-OperatingSystem'', ''iOS''),
      (''X-Unity-Version'', rr_unity_version (rg_runtime (ec_region ctx))),
      (''X-App-Version'', app_version), (''X-App-Hash'', app_hash)] @ cookie_header ctx"

definition fetch_game_version ::
    "'h http_ops \<Rightarrow> crypto_ops \<Rightarrow> (bytes \<Rightarrow> string + game_version_info) \<Rightarrow> exec_context \<Rightarrow> string \<Rightarrow> string \<Rightarrow> string \<Rightarrow>
     'h \<Rightarrow> (asset_execution_error + game_version_info) \<times> 'h" where
  "fetch_game_version http crypto unpack ctx url app_version app_hash h =
     (let r = retry_async (ec_retry ctx)
                (\<lambda>n h. case ht_send http ''GET'' url (game_version_headers ctx app_version app_hash) h of
                         (reply, h') \<Rightarrow> (get_outcome url reply, h'))
                is_retryable_http_error h
      in (case run_result r of Inl e \<Rightarrow> Inl e | Inr body \<Rightarrow> context_decrypt crypto unpack ctx body, run_state r))"

definition resolve_profile ::
    "'h http_ops \<Rightarrow> crypto_ops \<Rightarrow> (bytes \<Rightarrow> string + game_version_info) \<Rightarrow> colorful_palette_config \<Rightarrow> exec_context \<Rightarrow>
     'h \<Rightarrow> (asset_execution_error + exec_context) \<times> 'h" where
  "resolve_profile http crypto unpack c ctx h =
     (case (url_given (cp_game_version_url_template c), ec_resolved_app_version ctx, ec_resolved_app_hash ctx) of
        (Some template, Some app_version, Some app_hash) \<Rightarrow>
          (case fetch_game_version http crypto unpack ctx
                  (replace_all [(''{app_version}'', app_version), (''{app_hash}'', app_hash)] template)
                  app_version app_hash h of
             (Inl e, h') \<Rightarrow> (Inl e, h')
           | (Inr gv, h') \<Rightarrow>
               (Inr (ctx\<lparr>ec_resolved_profile := (case gv_profile gv of Some p \<Rightarrow> Some p | None \<Rightarrow> Some (cp_profile c)),
                         ec_resolved_assetbundle_host_hash := gv_assetbundle_host_hash gv\<rparr>), h'))
      | _ \<Rightarrow>
          (Inr (let ctx1 = ctx\<lparr>ec_resolved_profile := Some (cp_profile c)\<rparr> in
                case map_of (cp_profile_hashes c) (cp_profile c) of
                  None \<Rightarrow> ctx1
                | Some ph \<Rightarrow> ctx1\<lparr>ec_resolved_assetbundle_host_hash := Some ph\<rparr>), h))"

text \<open>After a fetch the resolved application version and hash are those of the answer, so the
  fallback to \<open>current\<close> in the source adds nothing.\<close>

definition resolve_provider_versions ::
    "'h http_ops \<Rightarrow> crypto_ops \<Rightarrow> (bytes \<Rightarrow> string + game_version_info) \<Rightarrow> exec_context \<Rightarrow> 'h \<Rightarrow>
     (asset_execution_error + exec_context) \<times> 'h" where
  "resolve_provider_versions http crypto unpack ctx h =
     (case rg_provider (ec_region ctx) of
        ColorfulPalette c \<Rightarrow>
          st_bind (case url_given (cp_current_version_url c) of
                     None \<Rightarrow> (Inr ctx, h)
                   | Some url \<Rightarrow>
                       st_bind (fetch_current http ctx url h) (\<lambda>current h'.
                         (Inr (ctx\<lparr>ec_resolved_app_version := cv_app_version current,
                                   ec_resolved_app_hash := cv_app_hash current,
                                   ec_resolved_asset_version := cv_asset_version current,
                                   ec_resolved_asset_hash := cv_asset_hash current\<rparr>), h')))
            (\<lambda>ctx1 h1. resolve_profile http crypto unpack c ctx1 h1)
      | Nuverse n \<Rightarrow>
          (let ctx1 = ctx\<lparr>ec_resolved_app_version := Some (nv_app_version n)\<rparr> in
           case url_given (nv_current_version_url n) of
             None \<Rightarrow> (Inr ctx1, h)
           | Some url \<Rightarrow>
               st_bind (fetch_current http ctx1 url h) (\<lambda>current h'.
                 (Inr (ctx1\<lparr>ec_resolved_app_version :=
                              (case cv_app_version current of Some v \<Rightarrow> Some v | None \<Rightarrow> ec_resolved_app_version ctx1),
                            ec_resolved_app_hash := cv_app_hash current,
                            ec_resolved_asset_hash := cv_asset_hash current\<rparr>), h'))))"

subsection \<open>URLs\<close>

text \<open>Version, hash, profile and profile hash of a ColorfulPalette region.\<close>

definition palette_values ::
    "exec_context \<Rightarrow> colorful_palette_config \<Rightarrow> asset_execution_error + string \<times> string \<times> string \<times> string" where
  "palette_values ctx c =
     (case (ec_resolved_asset_version ctx, ec_resolved_asset_hash ctx) of
        (Some version, Some hash) \<Rightarrow>
          (let profile = unwrap_or (cp_profile c) (ec_resolved_profile ctx) in
           case (case ec_resolved_assetbundle_host_hash ctx of
                   Some ph \<Rightarrow> Some ph | None \<Rightarrow> map_of (cp_profile_hashes c) profile) of
             None \<Rightarrow> Inl (MissingProfileHash (ec_region_name ctx) profile)
           | Some ph \<Rightarrow> Inr (version, hash, profile, ph))
      | _ \<Rightarrow> Inl (MissingAssetVersionOrHash (ec_region_name ctx)))"

definition render_asset_info_url ::
    "'h http_ops \<Rightarrow> exec_context \<Rightarrow> 'h \<Rightarrow> (asset_execution_error + string \<times> exec_context) \<times> 'h" where
  "render_asset_info_url http ctx h =
     (case rg_provider (ec_region ctx) of
        ColorfulPalette c \<Rightarrow>
          (case palette_values ctx c of
             Inl e \<Rightarrow> (Inl e, h)
           | Inr (version, hash, profile, ph) \<Rightarrow>
               (Inr (replace_all [(''{env}'', profile), (''{hash}'', ph), (''{asset_version}'', version),
                       (''{asset_hash}'', hash)] (cp_asset_info_url_template c) @ ht_time_arg http h, ctx), h))
      | Nuverse n \<Rightarrow>
          (let app_version = unwrap_or (nv_app_version n) (ec_resolved_app_version ctx) in
           case get_with_retry http ctx (replace_all [(''{app_version}'', app_version)] (nv_asset_version_url n)) h of
             (Inl e, h') \<Rightarrow> (Inl e, h')
           | (Inr body, h') \<Rightarrow>
               (let version = trim (ht_text_lossy http body)
                in (Inr (replace_all [(''{app_version}'', app_version), (''{asset_version}'', version)]
                           (nv_asset_info_url_template n) @ ht_time_arg http h',
                         ctx\<lparr>ec_resolved_asset_version := Some version\<rparr>), h'))))"

definition render_bundle_url :: "string \<Rightarrow> exec_context \<Rightarrow> download_task \<Rightarrow> asset_execution_error + string" where
  "render_bundle_url time_arg ctx task =
     (case rg_provider (ec_region ctx) of
        ColorfulPalette c \<Rightarrow>
          (case palette_values ctx c of
             Inl e \<Rightarrow> Inl e
           | Inr (version, hash, profile, ph) \<Rightarrow>
               Inr (replace_all [(''{bundle_path}'', dt_download_path task), (''{asset_version}'', version),
                      (''{asset_hash}'', hash), (''{env}'', profile), (''{hash}'', ph)]
                      (cp_asset_bundle_url_template c) @ time_arg))
      | Nuverse n \<Rightarrow>
          Inr (replace_all [(''{bundle_path}'', dt_download_path task),
                 (''{app_version}'', unwrap_or (nv_app_version n) (ec_resolved_app_version ctx)),
                 (''{asset_version}'', unwrap_or ''<resolved-asset-version>'' (ec_resolved_asset_version ctx))]
                 (nv_asset_bundle_url_template n) @ time_arg))"

subsection \<open>The bundle list\<close>

definition fetch_asset_bundle_info ::
    "'h http_ops \<Rightarrow> crypto_ops \<Rightarrow> (bytes \<Rightarrow> string + asset_bundle_info) \<Rightarrow> exec_context \<Rightarrow> 'h \<Rightarrow>
     (asset_execution_error + asset_bundle_info \<times> exec_context) \<times> 'h" where
  "fetch_asset_bundle_info http crypto unpack ctx h =
     st_bind (render_asset_info_url http ctx h) (\<lambda>(url, ctx1) h1.
     st_bind (get_with_retry http ctx1 url h1) (\<lambda>body h2.
       (case context_decrypt crypto unpack ctx1 body of Inl e \<Rightarrow> Inl e | Inr info \<Rightarrow> Inr (info, ctx1), h2)))"

definition fetch_live_asset_bundle_info ::
    "'h http_ops \<Rightarrow> crypto_ops \<Rightarrow> (bytes \<Rightarrow> string + game_version_info) \<Rightarrow> (bytes \<Rightarrow> string + asset_bundle_info) \<Rightarrow>
     asset_execution_error + exec_context \<Rightarrow> 'h \<Rightarrow> (asset_execution_error + asset_bundle_info) \<times> 'h" where
  "fetch_live_asset_bundle_info http crypto unpack_game unpack_info context h =
     (case context of
        Inl e \<Rightarrow> (Inl e, h)
      | Inr ctx \<Rightarrow>
          st_bind (if requires_cookies (rg_provider (ec_region ctx)) then fetch_runtime_cookies http ctx h
                   else (Inr ctx, h)) (\<lambda>ctx1 h1.
          st_bind (resolve_provider_versions http crypto unpack_game ctx1 h1) (\<lambda>ctx2 h2.
          st_bind (fetch_asset_bundle_info http crypto unpack_info ctx2 h2) (\<lambda>(info, _) h3. (Inr info, h3)))))"

section \<open>The download record\<close>

record record_json =
  rj_print :: "download_record \<Rightarrow> string + bytes"
  rj_parse :: "bytes \<Rightarrow> string + download_record"

definition parse_download_record :: "record_json \<Rightarrow> string \<Rightarrow> bytes \<Rightarrow> download_record_error + download_record" where
  "parse_download_record json path content =
     (case rj_parse json content of Inl e \<Rightarrow> Inl (RecordParse path e) | Inr r \<Rightarrow> Inr r)"

definition serialize_download_record :: "record_json \<Rightarrow> string \<Rightarrow> download_record \<Rightarrow> download_record_error + bytes" where
  "serialize_download_record json path record =
     (case rj_print json record of Inl e \<Rightarrow> Inl (RecordSerialize path e) | Inr b \<Rightarrow> Inr b)"

definition load_download_record ::
    "record_json \<Rightarrow> string \<Rightarrow> fs \<Rightarrow> (download_record_error + download_record) \<times> fs" where
  "load_download_record json path s =
     (case fs_read path s of
        (Inr content, s') \<Rightarrow> (parse_download_record json path content, s')
      | (Inl NotFound, s') \<Rightarrow> (Inr [], s')
      | (Inl k, s') \<Rightarrow> (Inl (RecordRead path k), s'))"

definition save_download_record ::
    "record_json \<Rightarrow> string \<Rightarrow> download_record \<Rightarrow> fs \<Rightarrow> (download_record_error + unit) \<times> fs" where
  "save_download_record json path record s0 =
     st_bind (st_map_err (RecordCreateParent path)
                (case parent path of None \<Rightarrow> (Inr (), s0) | Some dir \<Rightarrow> fs_create_dir_all dir s0)) (\<lambda>_ s1.
     case serialize_download_record json path record of
       Inl e \<Rightarrow> (Inl e, s1)
     | Inr data \<Rightarrow> st_map_err (RecordWrite path) (fs_write path data s1))"

text \<open>The same in an object store: its operator is a parameter.\<close>

datatype storage_failure = StorageNotFound | StorageFailed string

record 'o storage_operator =
  so_read :: "string \<Rightarrow> 'o \<Rightarrow> (storage_failure + bytes) \<times> 'o"
  so_write :: "string \<Rightarrow> bytes \<Rightarrow> string \<Rightarrow> 'o \<Rightarrow> (string + unit) \<times> 'o"

definition load_download_record_from_storage ::
    "record_json \<Rightarrow> string \<Rightarrow> 'o storage_operator \<Rightarrow> string \<Rightarrow> 'o \<Rightarrow> (download_record_error + download_record) \<times> 'o" where
  "load_download_record_from_storage json provider operator path s =
     (case so_read operator path s of
        (Inr content, s') \<Rightarrow> (parse_download_record json path content, s')
      | (Inl StorageNotFound, s') \<Rightarrow> (Inr [], s')
      | (Inl (StorageFailed e), s') \<Rightarrow> (Inl (RecordStorageRead provider path e), s'))"

definition save_download_record_to_storage ::
    "record_json \<Rightarrow> string \<Rightarrow> 'o storage_operator \<Rightarrow> string \<Rightarrow> download_record \<Rightarrow> 'o \<Rightarrow>
     (download_record_error + unit) \<times> 'o" where
  "save_download_record_to_storage json provider operator path record s =
     (case serialize_download_record json path record of
        Inl e \<Rightarrow> (Inl e, s)
      | Inr data \<Rightarrow> st_map_err (RecordStorageWrite provider path) (so_write operator path data ''application/json'' s))"

section \<open>Lemmas\<close>

subsection \<open>Requests\<close>

definition http_get_run ::
    "'h http_ops \<Rightarrow> exec_context \<Rightarrow> string \<Rightarrow> 'h \<Rightarrow> (asset_execution_error, bytes, 'h) attempt_run" where
  "http_get_run http ctx url =
     retry_async (ec_retry ctx)
       (\<lambda>n h. case ht_send http ''GET'' url (cookie_header ctx) h of (reply, h') \<Rightarrow> (get_outcome url reply, h'))
       is_retryable_http_error"

interpretation http_attempts: bounded_attempts "http_get_run http ctx url" "max (rt_attempts (ec_retry ctx)) 1"
  is_retryable_http_error for http ctx url
  unfolding http_get_run_def by unfold_locales
    (rule async_attempts.made async_attempts.bounded async_attempts.result_last async_attempts.earlier
       async_attempts.exhausted; assumption?)+

lemma get_with_retry_run:
  "get_with_retry http ctx url h = (run_result (http_get_run http ctx url h), run_state (http_get_run http ctx url h))"
  by (simp add: get_with_retry_def http_get_run_def Let_def)

lemma get_with_retry_cong:
  "ec_retry c = ec_retry c' \<Longrightarrow> ec_runtime_cookie c = ec_runtime_cookie c' \<Longrightarrow>
     get_with_retry http c url h = get_with_retry http c' url h"
  by (simp add: get_with_retry_def cookie_header_def)

text \<open>Two contexts that differ at most in the asset version and hash they start from.\<close>

definition same_region :: "exec_context \<Rightarrow> exec_context \<Rightarrow> bool" where
  "same_region c c' \<longleftrightarrow>
     ec_region c = ec_region c' \<and> ec_region_name c = ec_region_name c' \<and> ec_retry c = ec_retry c' \<and>
     ec_runtime_cookie c = ec_runtime_cookie c' \<and> ec_resolved_app_version c = ec_resolved_app_version c' \<and>
     ec_resolved_app_hash c = ec_resolved_app_hash c' \<and> ec_resolved_profile c = ec_resolved_profile c' \<and>
     ec_resolved_assetbundle_host_hash c = ec_resolved_assetbundle_host_hash c'"

lemma same_regionD:
  assumes "same_region c c'"
  shows "ec_region c = ec_region c'" "ec_region_name c = ec_region_name c'" "ec_retry c = ec_retry c'"
    "ec_runtime_cookie c = ec_runtime_cookie c'" "ec_resolved_app_version c = ec_resolved_app_version c'"
    "ec_resolved_app_hash c = ec_resolved_app_hash c'" "ec_resolved_profile c = ec_resolved_profile c'"
    "ec_resolved_assetbundle_host_hash c = ec_resolved_assetbundle_host_hash c'"
  using assms unfolding same_region_def by simp_all

lemma same_region_overwrite:
  "same_region c c' \<Longrightarrow>
     c\<lparr>ec_resolved_app_version := a, ec_resolved_app_hash := b, ec_resolved_asset_version := v, ec_resolved_asset_hash := w\<rparr> =
     c'\<lparr>ec_resolved_app_version := a, ec_resolved_app_hash := b, ec_resolved_asset_version := v, ec_resolved_asset_hash := w\<rparr>"
  by (cases c; cases c'; simp add: same_region_def)

lemma context_decrypt_cong:
  "ec_region c = ec_region c' \<Longrightarrow> ec_region_name c = ec_region_name c' \<Longrightarrow>
     context_decrypt crypto unpack c = context_decrypt crypto unpack c'"
  by (rule ext) (simp add: context_decrypt_def Let_def split: option.splits)

lemma fetch_current_cong: "same_region c c' \<Longrightarrow> fetch_current http c url h = fetch_current http c' url h"
  by (simp add: fetch_current_def get_with_retry_cong [of c c'] same_regionD)

lemma st_bind_assoc: "st_bind (st_bind r f) g = st_bind r (\<lambda>x s. st_bind (f x s) g)"
  by (simp add: st_bind_def split: prod.splits sum.splits)

text \<open>The two stages of \<open>fetch_live_asset_bundle_info\<close> after the context is there.\<close>

definition live_info ::
    "'h http_ops \<Rightarrow> crypto_ops \<Rightarrow> (bytes \<Rightarrow> string + game_version_info) \<Rightarrow> (bytes \<Rightarrow> string + asset_bundle_info) \<Rightarrow>
     exec_context \<Rightarrow> 'h \<Rightarrow> (asset_execution_error + asset_bundle_info) \<times> 'h" where
  "live_info http crypto unpack_game unpack_info ctx h =
     st_bind (resolve_provider_versions http crypto unpack_game ctx h) (\<lambda>ctx2 h2.
     st_bind (fetch_asset_bundle_info http crypto unpack_info ctx2 h2) (\<lambda>(info, _) h3. (Inr info, h3)))"

lemma fetch_live_eq:
  "fetch_live_asset_bundle_info http crypto ug ui (Inr ctx) h =
     st_bind (if requires_cookies (rg_provider (ec_region ctx)) then fetch_runtime_cookies http ctx h else (Inr ctx, h))
       (live_info http crypto ug ui)"
  by (simp add: fetch_live_asset_bundle_info_def live_info_def [abs_def])

definition fetches_version :: "region_provider_config \<Rightarrow> bool" where
  "fetches_version provider \<longleftrightarrow>
     (case provider of ColorfulPalette c \<Rightarrow> url_given (cp_current_version_url c) \<noteq> None | Nuverse _ \<Rightarrow> True)"

lemma live_info_palette:
  assumes "same_region c c'" and "rg_provider (ec_region c) = ColorfulPalette p"
    and "url_given (cp_current_version_url p) = Some url"
  shows "live_info http crypto ug ui c h = live_info http crypto ug ui c' h"
proof -
  have "resolve_provider_versions http crypto ug c h = resolve_provider_versions http crypto ug c' h"
    using assms same_regionD(1) [OF assms(1)]
    by (simp add: resolve_provider_versions_def fetch_current_cong [OF assms(1)] same_region_overwrite [OF assms(1)])
  then show ?thesis by (simp add: live_info_def)
qed

text \<open>A Nuverse region takes the asset version from its own address, and no address carries the asset
  hash.\<close>

lemma fetch_info_nuverse_cong:
  assumes "same_region c c'" and "rg_provider (ec_region c) = Nuverse n"
  shows "st_bind (fetch_asset_bundle_info http crypto ui c h) (\<lambda>(info, _) h3. (Inr info, h3)) =
         st_bind (fetch_asset_bundle_info http crypto ui c' h) (\<lambda>(info, _) h3. (Inr info, h3))"
proof -
  note eqs = same_regionD [OF assms(1)]
  have g: "get_with_retry http c u h = get_with_retry http c' u h"
      "get_with_retry http (c\<lparr>ec_resolved_asset_version := v\<rparr>) u h = get_with_retry http (c'\<lparr>ec_resolved_asset_version := v\<rparr>) u h"
    for u v h by (simp_all add: get_with_retry_cong [of c c'] get_with_retry_cong [of "c\<lparr>ec_resolved_asset_version := v\<rparr>"
          "c'\<lparr>ec_resolved_asset_version := v\<rparr>"] eqs)
  have d: "context_decrypt crypto ui (c\<lparr>ec_resolved_asset_version := v\<rparr>) =
      context_decrypt crypto ui (c'\<lparr>ec_resolved_asset_version := v\<rparr>)" for v
    by (rule context_decrypt_cong) (simp_all add: eqs)
  show ?thesis
    using assms(2) by (simp add: fetch_asset_bundle_info_def render_asset_info_url_def g d eqs Let_def
        st_bind_def split: prod.splits sum.splits)
qed

lemma live_info_nuverse:
  assumes "same_region c c'" and "rg_provider (ec_region c) = Nuverse n"
  shows "live_info http crypto ug ui c h = live_info http crypto ug ui c' h"
proof -
  note eqs = same_regionD [OF assms(1)]
  define f where "f = (\<lambda>c::exec_context. c\<lparr>ec_resolved_app_version := Some (nv_app_version n)\<rparr>)"
  have f: "same_region (f c) (f c')" "rg_provider (ec_region (f c)) = Nuverse n"
    using assms by (simp_all add: f_def same_region_def)
  show ?thesis
  proof (cases "url_given (nv_current_version_url n)")
    case None
    then show ?thesis
      using fetch_info_nuverse_cong [OF f] assms(2) eqs(1)
      by (simp add: live_info_def resolve_provider_versions_def f_def)
  next
    case (Some url)
    define g where "g = (\<lambda>(cur::current_version_info) (c::exec_context). c\<lparr>ec_resolved_app_version :=
        (case cv_app_version cur of Some v \<Rightarrow> Some v | None \<Rightarrow> ec_resolved_app_version c),
        ec_resolved_app_hash := cv_app_hash cur, ec_resolved_asset_hash := cv_asset_hash cur\<rparr>)"
    have g: "same_region (g cur (f c)) (g cur (f c'))" "rg_provider (ec_region (g cur (f c))) = Nuverse n" for cur
      using f eqs by (simp_all add: g_def f_def same_region_def split: option.split)
    have "live_info http crypto ug ui d h = st_bind (fetch_current http (f d) url h) (\<lambda>cur h'.
        st_bind (fetch_asset_bundle_info http crypto ui (g cur (f d)) h') (\<lambda>(info, _) h3. (Inr info, h3)))"
      if "rg_provider (ec_region d) = Nuverse n" for d
      using that Some by (simp add: live_info_def resolve_provider_versions_def f_def g_def st_bind_assoc Let_def)
    then show ?thesis
      using assms(2) eqs(1) by (simp add: fetch_current_cong [OF f(1)] fetch_info_nuverse_cong [OF g])
  qed
qed

lemma live_info_cong:
  assumes "same_region c c'" and "fetches_version (rg_provider (ec_region c))"
  shows "live_info http crypto ug ui c h = live_info http crypto ug ui c' h"
  using assms live_info_palette [OF assms(1), of _ _ http crypto ug ui h] live_info_nuverse [OF assms(1), of _ http crypto ug ui h]
  by (cases "rg_provider (ec_region c)") (auto simp: fetches_version_def)

lemma cookies_same_region:
  assumes "same_region c c'"
  shows "fetch_runtime_cookies http c h =
     (case fetch_runtime_cookies http c' h of
        (Inl e, h') \<Rightarrow> (Inl e, h')
      | (Inr c1, h') \<Rightarrow> (Inr (c\<lparr>ec_runtime_cookie := ec_runtime_cookie c1\<rparr>), h'))"
  using same_regionD [OF assms] by (simp add: fetch_runtime_cookies_def Let_def split: sum.splits)

lemma cookies_context:
  "fetch_runtime_cookies http c h = (Inr c1, h') \<Longrightarrow> \<exists>k. c1 = c\<lparr>ec_runtime_cookie := k\<rparr>"
  by (auto simp: fetch_runtime_cookies_def Let_def split: sum.splits)

lemma fetch_live_cong:
  assumes "same_region c c'" and "fetches_version (rg_provider (ec_region c))"
  shows "fetch_live_asset_bundle_info http crypto ug ui (Inr c) h =
         fetch_live_asset_bundle_info http crypto ug ui (Inr c') h"
proof (cases "requires_cookies (rg_provider (ec_region c))")
  case False
  then show ?thesis
    using live_info_cong [OF assms] same_regionD [OF assms(1)] by (simp add: fetch_live_eq)
next
  case True
  obtain r h' where r: "fetch_runtime_cookies http c' h = (r, h')" by fastforce
  have "live_info http crypto ug ui (c\<lparr>ec_runtime_cookie := k\<rparr>) h' = live_info http crypto ug ui (c'\<lparr>ec_runtime_cookie := k\<rparr>) h'" for k
    using assms by (intro live_info_cong) (simp_all add: same_region_def)
  then show ?thesis
    using True r cookies_same_region [OF assms(1), of http h] same_regionD [OF assms(1)]
      cookies_context [of http c' h]
    by (cases r) (force simp: fetch_live_eq)+
qed

lemma new_context_same_region:
  "(\<exists>e. new_context ch cp b config name region rq = Inl e \<and> new_context ch cp b config name region rq' = Inl e) \<or>
   (\<exists>c c'. new_context ch cp b config name region rq = Inr c \<and> new_context ch cp b config name region rq' = Inr c' \<and>
      same_region c c' \<and> ec_region c = region)"
  by (auto simp: new_context_def same_region_def split: sum.splits)

subsection \<open>Records\<close>

definition record_json_faithful :: "record_json \<Rightarrow> bool" where
  "record_json_faithful json \<longleftrightarrow> (\<forall>r b. btmap_wf r \<longrightarrow> rj_print json r = Inr b \<longrightarrow> rj_parse json b = Inr r)"

lemma save_download_record_run:
  obtains
    (early) e s1 where "save_download_record json path record s = (Inl e, s1)" "fs_files s1 = fs_files s"
  | (written) data s1 where "rj_print json record = Inr data" "fs_files s1 = fs_files s"
      "save_download_record json path record s = st_map_err (RecordWrite path) (fs_write path data s1)"
proof -
  obtain r s1 where r: "(case parent path of None \<Rightarrow> (Inr (), s) | Some dir \<Rightarrow> fs_create_dir_all dir s) = (r, s1)"
    by fastforce
  have f: "fs_files s1 = fs_files s"
    using r by (auto split: option.splits simp: fs_create_dir_all_def)
  show thesis
  proof (cases r)
    case (Inl k)
    then show thesis using r f by (intro early [of _ s1]) (simp_all add: save_download_record_def)
  next
    case (Inr u)
    show thesis
    proof (cases "rj_print json record")
      case (Inl e)
      then show thesis using r f Inr
        by (intro early [of _ s1]) (simp_all add: save_download_record_def serialize_download_record_def)
    next
      case (Inr data)
      then show thesis using r f \<open>r = Inr u\<close>
        by (intro written [of data s1]) (simp_all add: save_download_record_def serialize_download_record_def)
    qed
  qed
qed

lemma saved_record_loads:
  assumes "record_json_faithful json" and "save_download_record json path record s = (Inr u, s')" and "btmap_wf record"
    and "fs_fails (OpRead path) s' = None"
  shows "fst (load_download_record json path s') = Inr record"
proof (cases rule: save_download_record_run [of json path "record" s])
  case (early e s1)
  then show ?thesis using assms(2) by simp
next
  case (written data s1)
  then have "fs_write path data s1 = (Inr u, s')" using assms(2) by (metis st_map_err_Inr)
  then have "fs_files s' path = Some data" by (auto dest: fs_write_ok)
  then show ?thesis
    using written(1) assms(1,3,4)
    by (simp add: load_download_record_def fs_read_def ok_or_def parse_download_record_def record_json_faithful_def)
qed

section \<open>Properties\<close>

text \<open>which version is compared. The fetch of the bundle list for the comparison resolves the version
  again: in a region that names an address for the current version, and in every Nuverse region, the
  list does not depend on the asset version and hash the request carries. The request carries the
  version that was compared with the watermark; a version published between the two fetches gives a
  list of another version.\<close>

theorem request_version_is_ignored:
  assumes "fetches_version (rg_provider region)"
  shows "fetch_live_asset_bundle_info http crypto unpack_game unpack_info
           (new_context check_header check_proxy build config name region request) h =
         fetch_live_asset_bundle_info http crypto unpack_game unpack_info
           (new_context check_header check_proxy build config name region
              (request\<lparr>rq_asset_version := v, rq_asset_hash := w\<rparr>)) h"
  using new_context_same_region [of check_header check_proxy build config name region request
      "request\<lparr>rq_asset_version := v, rq_asset_hash := w\<rparr>"]
    fetch_live_cong [of _ _ http crypto unpack_game unpack_info h] assms
  by (auto simp: fetch_live_asset_bundle_info_def)

text \<open>a GET. At most \<^verbatim>\<open>execution.retry.attempts\<close> requests are sent and at least one; every one but
  the last failed in transport or with a server error; an answer below 500 that is no success is
  returned after one request, and a retryable error only when the attempts are used up.\<close>

theorem http_get_retries_bounded:
  "get_with_retry http ctx url h = (last (run_trace (http_get_run http ctx url h)), run_state (http_get_run http ctx url h)) \<and>
    1 \<le> length (run_trace (http_get_run http ctx url h)) \<and>
    length (run_trace (http_get_run http ctx url h)) \<le> max (rt_attempts (ec_retry ctx)) 1 \<and>
    (ht_send http ''GET'' url (cookie_header ctx) h = (HttpReply status cookie body, h') \<and>
       \<not> is_success status \<and> status < 500 \<longrightarrow>
     get_with_retry http ctx url h = (Inl (HttpStatus url status), h') \<and> length (run_trace (http_get_run http ctx url h)) = 1)"
proof -
  have "1 \<le> length (run_trace (http_get_run http ctx url h))"
    using http_attempts.made [of http ctx url h] by (cases "run_trace (http_get_run http ctx url h)") auto
  moreover have "get_with_retry http ctx url h = (Inl (HttpStatus url status), h') \<and>
      length (run_trace (http_get_run http ctx url h)) = 1"
    if "ht_send http ''GET'' url (cookie_header ctx) h = (HttpReply status cookie body, h')"
      "\<not> is_success status" "status < 500"
    unfolding get_with_retry_run http_get_run_def retry_async_def using that
    by (subst (1 2 3) retry_from.simps) (simp add: get_outcome_def)
  ultimately show ?thesis
    using http_attempts.result_last [of http ctx url h] http_attempts.bounded [of http ctx url h]
    by (auto simp: get_with_retry_run)
qed

text \<open>decryption. A body decrypts to what was packed and encrypted with the configured key and IV;
  and nothing is returned for an empty body, a body that is no sequence of 16-byte blocks, an IV
  that has not 16 bytes or a key of a length AES has not.\<close>

theorem decrypt_round_trip:
  assumes "co_hex crypto key_hex = Inr key" and "co_hex crypto iv_hex = Inr iv"
    and aes: "\<And>p. length (encrypt key iv p) = 16 * (length p div 16 + 1) \<and>
      co_aes_cbc crypto key iv (encrypt key iv p) = Inr p"
    and pack: "unpack (pack v) = Inr v"
  shows "decrypt_region_msgpack crypto unpack key_hex iv_hex (encrypt key iv (pack v)) =
    (if length iv \<noteq> 16 then Inl (InvalidAesIvLength (length iv))
     else if length key \<in> {16, 24, 32} then Inr v
     else Inl (AssetInfoDecode (''unsupported AES key length '' @ show_nat (length key)))) \<and>
    decrypt_region_msgpack crypto unpack key_hex iv_hex [] = Inl EmptyEncryptedContent \<and>
    (length body mod 16 \<noteq> 0 \<longrightarrow>
       decrypt_region_msgpack crypto unpack key_hex iv_hex body = Inl InvalidEncryptedBlockSize)"
proof -
  have "encrypt key iv (pack v) \<noteq> []" using aes [of "pack v"] by (metis One_nat_def add_is_0 list.size(3) mult_is_0 one_neq_zero zero_neq_numeral)
  moreover have "length (encrypt key iv (pack v)) mod 16 = 0" using aes [of "pack v"] by simp
  ultimately show ?thesis
    using assms(1,2) aes [of "pack v"] pack by (auto simp: decrypt_region_msgpack_def)
qed

text \<open>the download record. A record saved is the record loaded next; a file that is missing is
  an empty record; and saving is not atomic: after a failure the file holds what it held before or a
  prefix of the new record. No other file changes.\<close>

theorem download_record_round_trip:
  assumes "record_json_faithful json" and "btmap_wf record"
    and saved: "save_download_record json path record s = (res, s')"
  shows "(case res of
      Inr _ \<Rightarrow> fs_fails (OpRead path) s' = None \<longrightarrow> fst (load_download_record json path s') = Inr record
    | Inl _ \<Rightarrow> fs_files s' path = fs_files s path \<or>
        (\<exists>data n. rj_print json record = Inr data \<and> fs_files s' path = Some (take n data))) \<and>
    (\<forall>q. q \<noteq> path \<longrightarrow> fs_files s' q = fs_files s q) \<and>
    (fs_files s path = None \<and> fs_fails (OpRead path) s = None \<longrightarrow> fst (load_download_record json path s) = Inr [])"
proof -
  have missing: "fst (load_download_record json path s) = Inr []"
    if "fs_files s path = None" "fs_fails (OpRead path) s = None"
    using that by (simp add: load_download_record_def fs_read_def ok_or_def)
  show ?thesis
  proof (cases rule: save_download_record_run [of json path "record" s])
    case (early e s1)
    then show ?thesis using saved missing by auto
  next
    case (written data s1)
    show ?thesis
    proof (cases res)
      case (Inl e)
      then show ?thesis using written saved missing by (auto simp: fs_write_def split: option.splits)
    next
      case (Inr u)
      then show ?thesis
        using written saved missing saved_record_loads [OF assms(1) _ assms(2), of path s u s']
        by (auto simp: fs_write_def split: option.splits)
    qed
  qed
qed

section \<open>Witnesses\<close>

text \<open>A server that always answers with one reply.\<close>

definition demo_http :: "http_reply \<Rightarrow> nat http_ops" where
  "demo_http reply = \<lparr>ht_send = (\<lambda>_ _ _ n. (reply, Suc n)), ht_time_arg = (\<lambda>_. []), ht_text_lossy = (\<lambda>_. []),
     ht_parse_current = (\<lambda>_. Inr \<lparr>cv_app_version = None, cv_app_hash = None, cv_asset_version = None, cv_asset_hash = None\<rparr>)\<rparr>"

definition demo_nuverse :: nuverse_config where
  "demo_nuverse = \<lparr>nv_current_version_url = None, nv_asset_version_url = ''u'', nv_app_version = ''1'',
     nv_asset_info_url_template = [], nv_asset_bundle_url_template = [], nv_required_cookies = False,
     nv_cookie_bootstrap_url = None\<rparr>"

definition demo_request :: asset_update_request where
  "demo_request = \<lparr>rq_region = ''tw'', rq_asset_version = Some ''1'', rq_asset_hash = Some ''h'', rq_dry_run = False,
     rq_mode = Update\<rparr>"

definition demo_crypto :: crypto_ops where
  "demo_crypto = \<lparr>co_hex = (\<lambda>_. Inr (replicate 16 0)),
     co_aes_cbc = (\<lambda>_ _ c. Inr (take (length c - unat (last c)) c))\<rparr>"

text \<open>The padding of CBC mode, without the cipher.\<close>

definition demo_encrypt :: "bytes \<Rightarrow> bytes \<Rightarrow> bytes \<Rightarrow> bytes" where
  "demo_encrypt key iv p =
     (let n = 16 - length p mod 16 in p @ replicate n (of_nat n))"

lemma demo_encrypt_aes:
  "length (demo_encrypt key iv p) = 16 * (length p div 16 + 1) \<and>
   co_aes_cbc demo_crypto key iv (demo_encrypt key iv p) = Inr p"
proof -
  define n where "n = 16 - length p mod 16"
  have n: "0 < n" "n \<le> 16" using mod_less_divisor [of 16 "length p"] by (simp_all add: n_def)
  have "length p + n = 16 * (length p div 16 + 1)"
    unfolding n_def by presburger
  moreover have "unat (of_nat n :: 8 word) = n" using n by (simp add: unat_of_nat)
  ultimately show ?thesis
    using n by (simp add: demo_encrypt_def demo_crypto_def Let_def flip: n_def)
qed

theorem request_version_is_ignored_witness:
  "let region = default_region_config\<lparr>rg_provider := Nuverse demo_nuverse\<rparr>;
       ctx = new_context (\<lambda>_. Inr ()) (\<lambda>_. Inr ()) (Inr ()) default_app_config ''tw'' region;
       fetch = fetch_live_asset_bundle_info (demo_http (HttpReply 200 None (Inr []))) demo_crypto (\<lambda>_. Inl []) (\<lambda>_. Inl [])
   in fetch (ctx demo_request) 0 = fetch (ctx (demo_request\<lparr>rq_asset_version := Some ''9'', rq_asset_hash := None\<rparr>)) 0"
proof -
  have "fetches_version (rg_provider (default_region_config\<lparr>rg_provider := Nuverse demo_nuverse\<rparr>))"
    by (simp add: fetches_version_def)
  from request_version_is_ignored [OF this] show ?thesis by (simp only: Let_def)
qed

theorem http_get_retries_bounded_witness:
  "let http = demo_http (HttpReply 404 None (Inr []));
       ctx = \<lparr>ec_region_name = ''tw'', ec_region = default_region_config, ec_retry = ex_retry (ap_execution default_app_config),
         ec_runtime_cookie = None, ec_resolved_app_version = None, ec_resolved_app_hash = None,
         ec_resolved_asset_version = None, ec_resolved_asset_hash = None, ec_resolved_profile = None,
         ec_resolved_assetbundle_host_hash = None\<rparr>
   in get_with_retry http ctx ''u'' 0 = (Inl (HttpStatus ''u'' 404), 1)"
proof -
  let ?http = "demo_http (HttpReply 404 None (Inr []))"
  have "ht_send ?http ''GET'' ''u'' (cookie_header ctx) 0 = (HttpReply 404 None (Inr []), 1) \<and> \<not> is_success 404 \<and> (404::nat) < 500"
    for ctx by (simp add: demo_http_def is_success_def)
  then have "get_with_retry ?http ctx ''u'' 0 = (Inl (HttpStatus ''u'' 404), 1)" for ctx
    using http_get_retries_bounded [of ?http ctx "''u''" 0 404 None "Inr []" 1] by blast
  then show ?thesis by (simp only: Let_def)
qed

theorem decrypt_round_trip_witness:
  "decrypt_region_msgpack demo_crypto Inr ''k'' ''i'' (demo_encrypt (replicate 16 0) (replicate 16 0) [1, 2, 3]) = Inr [1, 2, 3]"
proof -
  have "co_hex demo_crypto x = Inr (replicate 16 0)" for x by (simp add: demo_crypto_def)
  from decrypt_round_trip [of demo_crypto "''k''" _ "''i''" _ demo_encrypt Inr id, OF this this demo_encrypt_aes]
  show ?thesis by simp
qed

definition demo_record_json :: record_json where
  "demo_record_json = \<lparr>rj_print = (\<lambda>r. if r = [] then Inr [] else Inl ''demo''), rj_parse = (\<lambda>_. Inr [])\<rparr>"

theorem download_record_round_trip_witness:
  "let s = \<lparr>fs_files = \<lambda>_. None, fs_clock = 0, fs_fault = no_faults\<rparr>;
       r = save_download_record demo_record_json ''d/r.json'' [] s
   in fst r = Inr () \<and> fst (load_download_record demo_record_json ''d/r.json'' (snd r)) = Inr []"
proof -
  let ?s = "\<lparr>fs_files = \<lambda>_. None, fs_clock = 0, fs_fault = no_faults\<rparr>"
  obtain res s' where r: "save_download_record demo_record_json ''d/r.json'' [] ?s = (res, s')" by fastforce
  have ok: "res = Inr ()" "fs_fault s' = no_faults"
    using r by (auto simp: save_download_record_def serialize_download_record_def demo_record_json_def
        fs_write_def fs_create_dir_all_def split: option.splits)
  have "record_json_faithful demo_record_json" "btmap_wf ([] :: download_record)"
    by (auto simp: record_json_faithful_def demo_record_json_def btmap_wf_def)
  from download_record_round_trip [OF this r] ok r show ?thesis by (simp add: Let_def)
qed

end
