(* ===== verification/Export_Types.thy ===== *)
theory Export_Types
  imports Asset_Types
begin

text \<open>
  The data of \<^verbatim>\<open>src/core/export_pipeline/implementation/types.rs\<close> that the executor and the stages of
  the export hand to each other. Durations are not modelled, so the maps of phase times are left
  out.
\<close>

record skipped_object_read =
  sr_path_id :: int
  sr_asset_type :: "string option"
  sr_name :: "string option"
  sr_container :: "string option"
  sr_error :: string

record object_read_plan_stats =
  rp_inspected_objects :: nat
  rp_planned_objects :: nat
  rp_readable_objects :: nat
  rp_successful_reads :: nat
  rp_failed_reads :: nat
  rp_skipped_reads :: nat
  rp_batch_count :: nat
  rp_payload_bundle_bytes :: nat

definition default_read_plan :: object_read_plan_stats where
  "default_read_plan = \<lparr>rp_inspected_objects = 0, rp_planned_objects = 0, rp_readable_objects = 0,
     rp_successful_reads = 0, rp_failed_reads = 0, rp_skipped_reads = 0, rp_batch_count = 0,
     rp_payload_bundle_bytes = 0\<rparr>"

definition read_plan_is_empty :: "object_read_plan_stats \<Rightarrow> bool" where
  "read_plan_is_empty plan \<longleftrightarrow> plan = default_read_plan"

record in_memory_media_source =
  ms_target :: string
  ms_payload :: bytes

record pending_image_write =
  pi_target :: string
  pi_payload :: bytes
  pi_region :: region_config

record payload_export =
  px_export_path :: string
  px_export_root :: string
  px_native_scoped_post_process :: bool
  px_native_written_files :: "string list"
  px_native_acb_sources :: "in_memory_media_source list"
  px_ffi_skipped_object_reads :: "skipped_object_read list"
  px_ffi_object_read_plan :: object_read_plan_stats
  px_pending_image_writes :: "pending_image_write list"

record post_process_summary =
  pp_export_root :: string
  pp_generated_files :: "string list"
  pp_uploaded_files :: "string list"

end
