(* ===== verification/Executor.thy ===== *)
theory Executor
  imports Task_Pool Asset_Info Export_Types
begin

text \<open>
  The executor of \<^verbatim>\<open>src/core/asset_execution.rs\<close>: the work on one bundle, the loop that schedules
  downloads and post-processing under four semaphores, the persistence of the download record, the
  prefetch of raw bundles and the background export for the 3d viewer. The native exporter with its
  media stages, the git synchronisation and the external exporter process are arguments. Durations
  are not modelled; messages of errors are represented by the error.
\<close>

section \<open>Progress\<close>

datatype progress_update =
    PuPhase job_phase string
  | PuDownloadsPlanned nat
  | PuBundleStarted string
  | PuBundleDownloaded string nat
  | PuBundleFetchDetails string string
  | PuBundleDeobfuscated string
  | PuBundleTempWritten string
  | PuBundleExported string
  | PuBundleArtefactsProduced string string string "string list"
  | PuBundleFfiExportPhases string
  | PuBundleFfiSkippedObjectReads string nat
  | PuBundleFfiObjectReadPlan string object_read_plan_stats
  | PuSchedulerTelemetry "string option"
  | PuBundleCompleted string
  | PuBundleFailed string asset_execution_error
  | PuRecordSaved nat
  | PuChartHashSyncFinished bool

text \<open>What the executor acts on: files, the network and everything else outside, and the channel to
  the listener, \<open>None\<close> when there is none.\<close>

record 'h exec_world =
  xw_fs :: fs
  xw_http :: 'h
  xw_progress :: "progress_update list option"

definition send_progress :: "progress_update \<Rightarrow> 'h exec_world \<Rightarrow> 'h exec_world" where
  "send_progress update w = w\<lparr>xw_progress := map_option (\<lambda>sent. sent @ [update]) (xw_progress w)\<rparr>"

definition on_fs :: "(fs \<Rightarrow> 'r \<times> fs) \<Rightarrow> 'h exec_world \<Rightarrow> 'r \<times> 'h exec_world" where
  "on_fs f w = (case f (xw_fs w) of (r, s) \<Rightarrow> (r, w\<lparr>xw_fs := s\<rparr>))"

definition on_http :: "('h \<Rightarrow> 'r \<times> 'h) \<Rightarrow> 'h exec_world \<Rightarrow> 'r \<times> 'h exec_world" where
  "on_http f w = (case f (xw_http w) of (r, h) \<Rightarrow> (r, w\<lparr>xw_http := h\<rparr>))"

definition on_both :: "(fs \<times> 'h \<Rightarrow> 'r \<times> fs \<times> 'h) \<Rightarrow> 'h exec_world \<Rightarrow> 'r \<times> 'h exec_world" where
  "on_both f w = (case f (xw_fs w, xw_http w) of (r, s, h) \<Rightarrow> (r, w\<lparr>xw_fs := s, xw_http := h\<rparr>))"

record 'h export_ops =
  xo_export :: "region_config \<Rightarrow> string \<Rightarrow> string \<Rightarrow> string \<Rightarrow> string \<Rightarrow> fs \<times> 'h \<Rightarrow> (string + payload_export) \<times> fs \<times> 'h"
  xo_flush_images :: "pending_image_write list \<Rightarrow> fs \<times> 'h \<Rightarrow> (string + unit) \<times> fs \<times> 'h"
  xo_post_process :: "string \<Rightarrow> region_config \<Rightarrow> payload_export \<Rightarrow> fs \<times> 'h \<Rightarrow> (string + post_process_summary) \<times> fs \<times> 'h"

record 'h exec_env =
  xe_config :: app_config
  xe_concurrency :: concurrency_config
  xe_regex :: regex
  xe_temp_dir :: string
  xe_http :: "'h http_ops"
  xe_crypto :: crypto_ops
  xe_unpack_info :: "bytes \<Rightarrow> string + asset_bundle_info"
  xe_json :: record_json
  xe_export :: "'h export_ops"
  xe_chart_sync :: "download_record \<Rightarrow> 'h \<Rightarrow> (string + bool) \<times> 'h"

section \<open>One bundle\<close>

text \<open>Create the parent directory, then write.\<close>

definition write_under_parent ::
    "(string \<Rightarrow> io_kind \<Rightarrow> asset_execution_error) \<Rightarrow> (string \<Rightarrow> io_kind \<Rightarrow> asset_execution_error) \<Rightarrow>
     string \<Rightarrow> bytes \<Rightarrow> fs \<Rightarrow> (asset_execution_error + unit) \<times> fs" where
  "write_under_parent dir_error write_error path data s =
     st_bind (case parent path of
                None \<Rightarrow> (Inr (), s)
              | Some dir \<Rightarrow> st_map_err (dir_error dir) (fs_create_dir_all dir s)) (\<lambda>_ s1.
     st_map_err (write_error path) (fs_write path data s1))"

definition write_raw_bundle :: "string \<Rightarrow> bytes \<Rightarrow> fs \<Rightarrow> (asset_execution_error + unit) \<times> fs" where
  "write_raw_bundle = write_under_parent CreateRawBundleDir WriteRawBundle"

definition write_haruki_3d_work_bundle :: "string \<Rightarrow> bytes \<Rightarrow> fs \<Rightarrow> (asset_execution_error + unit) \<times> fs" where
  "write_haruki_3d_work_bundle = write_under_parent CreateHaruki3dStagingDir WriteHaruki3dStagingBundle"

definition write_temp_bundle :: "string \<Rightarrow> bytes \<Rightarrow> fs \<Rightarrow> (asset_execution_error + unit) \<times> fs" where
  "write_temp_bundle = write_under_parent CreateTempDir WriteTempFile"

record post_job =
  pj_bundle_path :: string
  pj_bundle_hash :: string
  pj_payload_export :: payload_export

fun category_name :: "asset_category \<Rightarrow> string" where
  "category_name StartApp = ''StartApp''"
| "category_name OnDemand = ''OnDemand''"
| "category_name (Other _) = ''OnDemand''"

definition asset_save_dir_of :: "exec_context \<Rightarrow> asset_execution_error + string" where
  "asset_save_dir_of ctx =
     ok_or (MissingAssetSaveDir (ec_region_name ctx)) (rp_asset_save_dir (rg_paths (ec_region ctx)))"

text \<open>The common first half: the body, fetched and unmasked.\<close>

definition fetch_bundle ::
    "'h exec_env \<Rightarrow> exec_context \<Rightarrow> download_task \<Rightarrow> 'h exec_world \<Rightarrow> (asset_execution_error + bytes) \<times> 'h exec_world" where
  "fetch_bundle env ctx task w0 =
     st_bind (render_bundle_url (ht_time_arg (xe_http env) (xw_http w0)) ctx task, w0) (\<lambda>url w1.
     st_bind (on_http (get_with_retry (xe_http env) ctx url) w1) (\<lambda>body w2.
       (Inr (deobfuscate body),
        send_progress (PuBundleDeobfuscated (dt_bundle_path task))
          (send_progress (PuBundleFetchDetails (dt_bundle_path task) ''network'')
            (send_progress (PuBundleDownloaded (dt_bundle_path task) (length body)) w2)))))"

definition write_bundle_copies ::
    "'h exec_env \<Rightarrow> exec_context \<Rightarrow> string option \<Rightarrow> string \<Rightarrow> download_task \<Rightarrow> bytes \<Rightarrow> 'h exec_world \<Rightarrow>
     (asset_execution_error + unit) \<times> 'h exec_world" where
  "write_bundle_copies env ctx haruki_3d_work_root asset_save_dir task data w0 =
     st_bind (if matches_raw_bundle_filters (xe_regex env) (ec_region ctx) (dt_bundle_path task)
              then st_bind (region_raw_bundle_output_path (ec_region ctx) asset_save_dir (dt_bundle_path task), w0)
                     (\<lambda>path. on_fs (write_raw_bundle path data))
              else (Inr (), w0)) (\<lambda>_ w1.
     case haruki_3d_work_root of
       Some work_root \<Rightarrow>
         if matches_haruki_3d_filters (xe_regex env) (ec_region ctx) (dt_bundle_path task)
         then st_bind (raw_bundle_output_path work_root (dt_bundle_path task), w1)
                (\<lambda>path. on_fs (write_haruki_3d_work_bundle path data))
         else (Inr (), w1)
     | None \<Rightarrow> (Inr (), w1))"

definition download_and_export_bundle_payloads ::
    "'h exec_env \<Rightarrow> exec_context \<Rightarrow> string option \<Rightarrow> download_task \<Rightarrow> 'h exec_world \<Rightarrow>
     (asset_execution_error + post_job) \<times> 'h exec_world" where
  "download_and_export_bundle_payloads env ctx haruki_3d_work_root task w0 =
     st_bind (asset_save_dir_of ctx, w0) (\<lambda>asset_save_dir w1.
     st_bind (fetch_bundle env ctx task w1) (\<lambda>data w2.
     st_bind (write_bundle_copies env ctx haruki_3d_work_root asset_save_dir task data w2) (\<lambda>_ w3.
     let temp_file = bundle_temp_file (xe_temp_dir env) (ec_region_name ctx) task in
     st_bind (on_fs (write_temp_bundle temp_file data) w3) (\<lambda>_ w4.
     let (res, w5) = on_both (xo_export (xe_export env) (ec_region ctx) temp_file (dt_bundle_path task) asset_save_dir
                               (category_name (dt_category task)))
                       (send_progress (PuBundleTempWritten (dt_bundle_path task)) w4);
         (_, w6) = on_fs (remove_file_if_exists temp_file) w5
     in st_bind (st_map_err ExportPipelineErr (res, w6)) (\<lambda>px w7.
        st_bind (if px_pending_image_writes px \<noteq> []
                 then st_map_err ExportPipelineErr
                        (on_both (xo_flush_images (xe_export env) (px_pending_image_writes px)) w7)
                 else (Inr (), w7)) (\<lambda>_ w8.
          (Inr \<lparr>pj_bundle_path = dt_bundle_path task, pj_bundle_hash = dt_bundle_hash task,
                pj_payload_export = px\<lparr>px_pending_image_writes := []\<rparr>\<rparr>, w8)))))))"

definition prefetch_bundle ::
    "'h exec_env \<Rightarrow> exec_context \<Rightarrow> download_task \<Rightarrow> 'h exec_world \<Rightarrow> (asset_execution_error + unit) \<times> 'h exec_world" where
  "prefetch_bundle env ctx task w0 =
     st_bind (asset_save_dir_of ctx, w0) (\<lambda>asset_save_dir w1.
     st_bind (fetch_bundle env ctx task w1) (\<lambda>data w2.
     st_bind (region_raw_bundle_output_path (ec_region ctx) asset_save_dir (dt_bundle_path task), w2) (\<lambda>path.
       on_fs (write_raw_bundle path data))))"

definition artefact_files :: "post_job \<Rightarrow> post_process_summary \<Rightarrow> string list" where
  "artefact_files job summary =
     rev (remdups (rev (px_native_written_files (pj_payload_export job) @ pp_generated_files summary)))"

definition finish_native_bundle_post_process ::
    "'h exec_env \<Rightarrow> exec_context \<Rightarrow> post_job \<Rightarrow> 'h exec_world \<Rightarrow> (asset_execution_error + unit) \<times> 'h exec_world" where
  "finish_native_bundle_post_process env ctx job w0 =
     (let px = pj_payload_export job; bundle = pj_bundle_path job in
      st_bind (st_map_err ExportPipelineErr
                 (on_both (xo_flush_images (xe_export env) (px_pending_image_writes px)) w0)) (\<lambda>_ w1.
      st_bind (st_map_err ExportPipelineErr
                 (on_both (xo_post_process (xe_export env) (ec_region_name ctx) (ec_region ctx)
                    (px\<lparr>px_pending_image_writes := []\<rparr>)) w1)) (\<lambda>summary w2.
      let w3 = send_progress (PuBundleFfiExportPhases bundle) w2;
          w4 = (if px_ffi_skipped_object_reads px \<noteq> []
                then send_progress (PuBundleFfiSkippedObjectReads bundle (length (px_ffi_skipped_object_reads px))) w3
                else w3);
          w5 = (if \<not> read_plan_is_empty (px_ffi_object_read_plan px)
                then send_progress (PuBundleFfiObjectReadPlan bundle (px_ffi_object_read_plan px)) w4 else w4);
          w6 = send_progress (PuBundleArtefactsProduced bundle (pj_bundle_hash job) (pp_export_root summary)
                 (artefact_files job summary)) w5
      in (Inr (), send_progress (PuBundleExported bundle) w6))))"

section \<open>The scheduler\<close>

text \<open>A spawned download waits for a slot, for room in the post-processing backlog and for memory,
  runs, and is done with its result until the loop joins it. A successful one keeps its backlog and
  memory permits.\<close>

datatype download_phase =
    WaitSlot
  | WaitBacklog
  | WaitMemory
  | Downloading "nat option"
  | DownloadDone "asset_execution_error + post_job \<times> nat option"

record download_job =
  dj_task :: download_task
  dj_phase :: download_phase

datatype post_phase = WaitPost | PostRunning | PostDone "asset_execution_error + unit"

record post_run =
  pr_job :: post_job
  pr_memory :: "nat option"
  pr_phase :: post_phase

text \<open>The state of the loop. \<open>xs_result\<close> is set when the loop returned an error; \<open>xs_done\<close> and
  \<open>xs_bad\<close> are ghosts: the bundles counted by \<open>xs_completed\<close> and \<open>xs_failed\<close>.\<close>

record 'h exec_state =
  xs_pending :: "download_task list"
  xs_downloads :: "download_job list"
  xs_posts :: "post_run list"
  xs_slots :: nat
  xs_backlog :: nat
  xs_post_permits :: nat
  xs_memory :: bundle_memory_limiter
  xs_cancelled :: bool
  xs_record :: download_record
  xs_completed :: nat
  xs_failed :: nat
  xs_pending_save :: nat
  xs_world :: "'h exec_world"
  xs_result :: "asset_execution_error option"
  xs_done :: "(string \<times> string) list"
  xs_bad :: "string list"

definition download_concurrency :: "concurrency_config \<Rightarrow> nat" where
  "download_concurrency c = max (cc_download c) 1"

definition post_process_concurrency :: "concurrency_config \<Rightarrow> nat" where
  "post_process_concurrency c =
     max (if cc_post_process c = 0
          then max (max (max (cc_audio_encode c) (cc_video_encode c)) (cc_media_encode c)) 1
          else cc_post_process c) 1"

definition spawn_bundle_download_job :: "download_task \<Rightarrow> download_job" where
  "spawn_bundle_download_job task = \<lparr>dj_task = task, dj_phase = WaitSlot\<rparr>"

definition spawn_next :: "'h exec_state \<Rightarrow> 'h exec_state" where
  "spawn_next s =
     (case xs_pending s of
        [] \<Rightarrow> s
      | task # rest \<Rightarrow> s\<lparr>xs_pending := rest, xs_downloads := xs_downloads s @ [spawn_bundle_download_job task]\<rparr>)"

definition start_loop ::
    "'h exec_env \<Rightarrow> download_task list \<Rightarrow> download_record \<Rightarrow> bool \<Rightarrow> 'h exec_world \<Rightarrow> 'h exec_state" where
  "start_loop env tasks downloaded cancelled w =
     (let n = download_concurrency (xe_concurrency env); p = post_process_concurrency (xe_concurrency env)
      in \<lparr>xs_pending = drop n tasks, xs_downloads = map spawn_bundle_download_job (take n tasks), xs_posts = [],
          xs_slots = n, xs_backlog = post_process_backlog_capacity n p, xs_post_permits = p,
          xs_memory = limiter_from_config (xe_config env), xs_cancelled = cancelled, xs_record = downloaded,
          xs_completed = 0, xs_failed = 0, xs_pending_save = 0, xs_world = w, xs_result = None,
          xs_done = [], xs_bad = []\<rparr>)"

definition xs_send :: "progress_update \<Rightarrow> 'h exec_state \<Rightarrow> 'h exec_state" where
  "xs_send u s = s\<lparr>xs_world := send_progress u (xs_world s)\<rparr>"

definition save_download_record_on_blocking_thread ::
    "'h exec_env \<Rightarrow> string \<Rightarrow> download_record \<Rightarrow> 'h exec_world \<Rightarrow> (asset_execution_error + unit) \<times> 'h exec_world" where
  "save_download_record_on_blocking_thread env path record w =
     st_map_err DownloadRecordErr (on_fs (save_download_record (xe_json env) path record) w)"

definition record_completed_bundle ::
    "'h exec_env \<Rightarrow> string \<Rightarrow> string \<Rightarrow> string \<Rightarrow> 'h exec_state \<Rightarrow> 'h exec_state" where
  "record_completed_bundle env record_path bundle_path bundle_hash s =
     (let batch = ex_batch_save_size (ap_execution (xe_config env));
          s1 = xs_send (PuBundleCompleted bundle_path)
                 (s\<lparr>xs_completed := xs_completed s + 1, xs_record := bt_insert bundle_path bundle_hash (xs_record s),
                    xs_pending_save := xs_pending_save s + 1, xs_done := xs_done s @ [(bundle_path, bundle_hash)]\<rparr>)
      in if 0 < batch \<and> batch \<le> xs_pending_save s1 then
           (case save_download_record_on_blocking_thread env record_path (xs_record s1) (xs_world s1) of
              (Inr _, w) \<Rightarrow>
                s1\<lparr>xs_world := send_progress (PuRecordSaved (length (xs_record s1))) w, xs_pending_save := 0\<rparr>
            | (Inl _, w) \<Rightarrow> s1\<lparr>xs_world := w, xs_pending_save := 0\<rparr>)
         else s1)"

text \<open>A bundle that failed: it is counted, or the loop returns when it was cancelled.\<close>

definition bundle_failed :: "string \<Rightarrow> asset_execution_error \<Rightarrow> 'h exec_state \<Rightarrow> 'h exec_state" where
  "bundle_failed bundle_path err s =
     (if err = Cancelled then s\<lparr>xs_result := Some Cancelled\<rparr>
      else xs_send (PuBundleFailed bundle_path err)
             (s\<lparr>xs_failed := xs_failed s + 1, xs_bad := xs_bad s @ [bundle_path]\<rparr>))"

definition set_download :: "nat \<Rightarrow> download_phase \<Rightarrow> 'h exec_state \<Rightarrow> 'h exec_state" where
  "set_download i ph s = s\<lparr>xs_downloads := (xs_downloads s)[i := (xs_downloads s ! i)\<lparr>dj_phase := ph\<rparr>]\<rparr>"

definition set_post :: "nat \<Rightarrow> post_phase \<Rightarrow> 'h exec_state \<Rightarrow> 'h exec_state" where
  "set_post i ph s = s\<lparr>xs_posts := (xs_posts s)[i := (xs_posts s ! i)\<lparr>pr_phase := ph\<rparr>]\<rparr>"

definition download_at :: "nat \<Rightarrow> 'h exec_state \<Rightarrow> download_phase option" where
  "download_at i s = (if i < length (xs_downloads s) then Some (dj_phase (xs_downloads s ! i)) else None)"

definition post_at :: "nat \<Rightarrow> 'h exec_state \<Rightarrow> post_phase option" where
  "post_at i s = (if i < length (xs_posts s) then Some (pr_phase (xs_posts s ! i)) else None)"

text \<open>The actions of the spawned tasks and of the loop; \<open>exec_apply\<close> is \<open>None\<close> where the action is
  not possible. A task that finds the flag raised when it has its slot ends at once. The work of a
  task happens at its end. Any task that finds enough permits may take them, which allows at least
  the schedules of the fair semaphores.\<close>

datatype exec_action =
    TakeSlot nat
  | TakeBacklog nat
  | TakeMemory nat
  | EndDownload nat
  | JoinDownload nat
  | TakePost nat
  | EndPost nat
  | JoinPost nat
  | RaiseCancel

definition end_download ::
    "'h exec_env \<Rightarrow> exec_context \<Rightarrow> string option \<Rightarrow> nat \<Rightarrow> nat option \<Rightarrow> 'h exec_state \<Rightarrow> 'h exec_state" where
  "end_download env ctx work_root i permit s =
     (let task = dj_task (xs_downloads s ! i);
          (r, w) = download_and_export_bundle_payloads env ctx work_root task (xs_world s);
          s1 = xs_send (PuSchedulerTelemetry (Some (dt_bundle_path task))) (s\<lparr>xs_world := w, xs_slots := xs_slots s + 1\<rparr>)
      in case r of
           Inr job \<Rightarrow> set_download i (DownloadDone (Inr (job, permit))) s1
         | Inl e \<Rightarrow> set_download i (DownloadDone (Inl e))
             (s1\<lparr>xs_backlog := xs_backlog s1 + 1, xs_memory := limiter_release (xs_memory s1) permit\<rparr>))"

definition join_download :: "nat \<Rightarrow> asset_execution_error + post_job \<times> nat option \<Rightarrow> 'h exec_state \<Rightarrow> 'h exec_state" where
  "join_download i r s =
     (let task = dj_task (xs_downloads s ! i);
          s1 = s\<lparr>xs_downloads := remove_nth i (xs_downloads s)\<rparr>;
          s2 = (case r of
                  Inr (job, permit) \<Rightarrow>
                    xs_send (PuSchedulerTelemetry (Some (pj_bundle_path job)))
                      (s1\<lparr>xs_posts := xs_posts s1 @ [\<lparr>pr_job = job, pr_memory = permit, pr_phase = WaitPost\<rparr>]\<rparr>)
                | Inl e \<Rightarrow> bundle_failed (dt_bundle_path task) e s1)
      in if xs_result s2 = None then spawn_next s2 else s2)"

definition end_post :: "'h exec_env \<Rightarrow> exec_context \<Rightarrow> nat \<Rightarrow> 'h exec_state \<Rightarrow> 'h exec_state" where
  "end_post env ctx i s =
     (let p = xs_posts s ! i;
          (r, w) = finish_native_bundle_post_process env ctx (pr_job p) (xs_world s)
      in set_post i (PostDone r)
           (xs_send (PuSchedulerTelemetry (Some (pj_bundle_path (pr_job p))))
             (s\<lparr>xs_world := w, xs_post_permits := xs_post_permits s + 1, xs_backlog := xs_backlog s + 1,
                xs_memory := limiter_release (xs_memory s) (pr_memory p)\<rparr>)))"

definition join_post :: "'h exec_env \<Rightarrow> string \<Rightarrow> nat \<Rightarrow> asset_execution_error + unit \<Rightarrow> 'h exec_state \<Rightarrow> 'h exec_state" where
  "join_post env record_path i r s =
     (let job = pr_job (xs_posts s ! i);
          s1 = s\<lparr>xs_posts := remove_nth i (xs_posts s)\<rparr>
      in case r of
           Inr _ \<Rightarrow> record_completed_bundle env record_path (pj_bundle_path job) (pj_bundle_hash job) s1
         | Inl e \<Rightarrow> bundle_failed (pj_bundle_path job) e s1)"

fun exec_apply ::
    "'h exec_env \<Rightarrow> exec_context \<Rightarrow> string option \<Rightarrow> string \<Rightarrow> exec_action \<Rightarrow> 'h exec_state \<Rightarrow> 'h exec_state option" where
  "exec_apply env ctx work_root record_path (TakeSlot i) s =
     (if download_at i s = Some WaitSlot \<and> 0 < xs_slots s
      then Some (if xs_cancelled s then set_download i (DownloadDone (Inl Cancelled)) s
                 else set_download i WaitBacklog (s\<lparr>xs_slots := xs_slots s - 1\<rparr>))
      else None)"
| "exec_apply env ctx work_root record_path (TakeBacklog i) s =
     (if download_at i s = Some WaitBacklog \<and> 0 < xs_backlog s
      then Some (set_download i WaitMemory (s\<lparr>xs_backlog := xs_backlog s - 1\<rparr>)) else None)"
| "exec_apply env ctx work_root record_path (TakeMemory i) s =
     (if download_at i s = Some WaitMemory
      then (let task = dj_task (xs_downloads s ! i) in
            case limiter_acquire (xs_memory s) (nat (max (dt_file_size task) 0)) of
              None \<Rightarrow> None
            | Some (permit, memory) \<Rightarrow>
                Some (xs_send (PuBundleStarted (dt_bundle_path task))
                        (set_download i (Downloading permit) (s\<lparr>xs_memory := memory\<rparr>))))
      else None)"
| "exec_apply env ctx work_root record_path (EndDownload i) s =
     (case download_at i s of
        Some (Downloading permit) \<Rightarrow> Some (end_download env ctx work_root i permit s) | _ \<Rightarrow> None)"
| "exec_apply env ctx work_root record_path (JoinDownload i) s =
     (case download_at i s of Some (DownloadDone r) \<Rightarrow> Some (join_download i r s) | _ \<Rightarrow> None)"
| "exec_apply env ctx work_root record_path (TakePost i) s =
     (if post_at i s = Some WaitPost \<and> 0 < xs_post_permits s
      then Some (set_post i PostRunning (s\<lparr>xs_post_permits := xs_post_permits s - 1\<rparr>)) else None)"
| "exec_apply env ctx work_root record_path (EndPost i) s =
     (if post_at i s = Some PostRunning then Some (end_post env ctx i s) else None)"
| "exec_apply env ctx work_root record_path (JoinPost i) s =
     (case post_at i s of Some (PostDone r) \<Rightarrow> Some (join_post env record_path i r s) | _ \<Rightarrow> None)"
| "exec_apply env ctx work_root record_path RaiseCancel s =
     (if xs_cancelled s then None else Some (s\<lparr>xs_cancelled := True\<rparr>))"

definition loop_over :: "'h exec_state \<Rightarrow> bool" where
  "loop_over s \<longleftrightarrow> xs_result s \<noteq> None \<or> xs_downloads s = [] \<and> xs_posts s = []"

text \<open>A run along a schedule: \<open>None\<close> when an action is not possible or comes after the end.\<close>

fun exec_run ::
    "'h exec_env \<Rightarrow> exec_context \<Rightarrow> string option \<Rightarrow> string \<Rightarrow> exec_action list \<Rightarrow> 'h exec_state \<Rightarrow> 'h exec_state option" where
  "exec_run env ctx work_root record_path [] s = Some s"
| "exec_run env ctx work_root record_path (a # as) s =
     (if loop_over s then None
      else case exec_apply env ctx work_root record_path a s of
             None \<Rightarrow> None
           | Some s' \<Rightarrow> exec_run env ctx work_root record_path as s')"

section \<open>A whole execution\<close>

definition ensure_not_cancelled :: "bool \<Rightarrow> asset_execution_error + unit" where
  "ensure_not_cancelled flag = (if flag then Inl Cancelled else Inr ())"

definition on_filter ::
    "'f task_filter_op option \<Rightarrow> download_task list \<Rightarrow> 'f \<Rightarrow> (asset_execution_error + download_task list) \<times> 'f" where
  "on_filter flt tasks f = (case flt of None \<Rightarrow> (Inr tasks, f) | Some op \<Rightarrow> op tasks f)"

text \<open>The part before the loop: the record path, the record and the bundle list, and the context after
  the fetch. \<open>flag n\<close> is the cancellation flag as the \<open>n\<close>-th check reads it.\<close>

definition prepare_execution ::
    "'h exec_env \<Rightarrow> (nat \<Rightarrow> bool) \<Rightarrow> exec_context \<Rightarrow> 'h exec_world \<Rightarrow>
     (asset_execution_error + string \<times> download_record \<times> asset_bundle_info \<times> exec_context) \<times> 'h exec_world" where
  "prepare_execution env flag ctx w0 =
     st_bind (ensure_not_cancelled (flag 0), w0) (\<lambda>_ w1.
     st_bind (ok_or (MissingAssetSaveDir (ec_region_name ctx))
                (rp_downloaded_asset_record_file (rg_paths (ec_region ctx))), w1) (\<lambda>record_path w2.
     st_bind (st_map_err DownloadRecordErr (on_fs (load_download_record (xe_json env) record_path) w2)) (\<lambda>downloaded w3.
     st_bind (if requires_cookies (rg_provider (ec_region ctx))
              then on_http (fetch_runtime_cookies (xe_http env) ctx)
                     (send_progress (PuPhase PhFetchingAssetInfo ''fetching asset bundle info'') w3)
              else (Inr ctx, send_progress (PuPhase PhFetchingAssetInfo ''fetching asset bundle info'') w3)) (\<lambda>ctx1 w4.
     st_bind (ensure_not_cancelled (flag 1), w4) (\<lambda>_ w5.
     st_bind (on_http (fetch_asset_bundle_info (xe_http env) (xe_crypto env) (xe_unpack_info env) ctx1) w5)
       (\<lambda>(info, ctx2) w6. (Inr (record_path, downloaded, info, ctx2), w6)))))))"

definition finish_execution ::
    "'h exec_env \<Rightarrow> (nat \<Rightarrow> bool) \<Rightarrow> string \<Rightarrow> nat \<Rightarrow> nat \<Rightarrow> 'h exec_state \<Rightarrow>
     (asset_execution_error + execution_summary) \<times> 'h exec_world" where
  "finish_execution env flag record_path discovered queued s =
     (let w0 = send_progress (PuPhase PhPersistingState ''saving downloaded asset record'') (xs_world s) in
      st_bind (ensure_not_cancelled (flag 2 \<or> xs_cancelled s), w0) (\<lambda>_ w1.
      st_bind (save_download_record_on_blocking_thread env record_path (xs_record s) w1) (\<lambda>_ w2.
      st_bind (st_map_err GitSyncErr (on_http (xe_chart_sync env (xs_record s))
                 (send_progress (PuPhase PhSyncingChartHashes ''syncing chart hashes'')
                   (send_progress (PuRecordSaved (length (xs_record s))) w2)))) (\<lambda>performed w3.
        (Inr \<lparr>es_discovered_bundles = discovered, es_queued_downloads = queued,
              es_completed_downloads = xs_completed s, es_failed_downloads = xs_failed s,
              es_updated_record_entries = length (xs_record s), es_chart_hash_sync_performed = performed\<rparr>,
         send_progress (PuChartHashSyncFinished performed) w3)))))"

text \<open>\<open>None\<close>: the schedule does not lead the loop to its end.\<close>

definition execute_with_filter ::
    "'h exec_env \<Rightarrow> (nat \<Rightarrow> bool) \<Rightarrow> exec_action list \<Rightarrow> exec_context \<Rightarrow> 'f task_filter_op option \<Rightarrow> 'f \<Rightarrow> 'h exec_world \<Rightarrow>
     ((asset_execution_error + execution_summary) \<times> 'f \<times> 'h exec_world) option" where
  "execute_with_filter env flag sched ctx flt f w0 =
     (case prepare_execution env flag ctx w0 of
        (Inl e, w1) \<Rightarrow> Some (Inl e, f, w1)
      | (Inr (record_path, downloaded, info, ctx1), w1) \<Rightarrow>
          (let w2 = send_progress (PuPhase PhPlanningDownloads ''building download task list'') w1;
               planned = build_download_tasks (xe_regex env) (ec_region ctx) info downloaded
           in case on_filter flt planned f of
                (Inl e, f1) \<Rightarrow> Some (Inl e, f1, w2)
              | (Inr tasks, f1) \<Rightarrow>
                  (let w3 = send_progress (PuDownloadsPlanned (length tasks)) w2 in
                   if tasks = [] then
                     Some (Inr \<lparr>es_discovered_bundles = length (bi_bundles info), es_queued_downloads = 0,
                             es_completed_downloads = 0, es_failed_downloads = 0, es_updated_record_entries = 0,
                             es_chart_hash_sync_performed = False\<rparr>, f1, w3)
                   else
                     (let w4 = send_progress (PuPhase PhDownloadingBundles
                                (''downloading '' @ show_nat (length tasks) @ '' bundle(s)'')) w3;
                          work_root = haruki_3d_work_asset_root (ec_region ctx1) (ec_region_name ctx1)
                                 (ec_resolved_asset_version ctx1)
                      in case exec_run env ctx1 work_root record_path sched (start_loop env tasks downloaded (flag 1) w4) of
                           None \<Rightarrow> None
                         | Some s \<Rightarrow>
                             if \<not> loop_over s then None
                             else case xs_result s of
                                    Some e \<Rightarrow> Some (Inl e, f1, xs_world s)
                                  | None \<Rightarrow>
                                      (case finish_execution env flag record_path (length (bi_bundles info))
                                              (length tasks) s of
                                         (r, w5) \<Rightarrow> Some (r, f1, w5))))))"

definition execute ::
    "'h exec_env \<Rightarrow> (nat \<Rightarrow> bool) \<Rightarrow> exec_action list \<Rightarrow> exec_context \<Rightarrow> 'h exec_world \<Rightarrow>
     ((asset_execution_error + execution_summary) \<times> 'h exec_world) option" where
  "execute env flag sched ctx w =
     map_option (\<lambda>(r, _, w'). (r, w')) (execute_with_filter env flag sched ctx None () w)"

section \<open>Prefetching\<close>

text \<open>All tasks are spawned at once; \<open>completion\<close> lists them in the order in which they end, each with
  the cancellation flag it saw.\<close>

fun prefetch_join ::
    "'h exec_env \<Rightarrow> exec_context \<Rightarrow> (download_task \<times> bool) list \<Rightarrow> nat \<Rightarrow> nat \<Rightarrow> 'h exec_world \<Rightarrow>
     (asset_execution_error + nat \<times> nat) \<times> 'h exec_world" where
  "prefetch_join env ctx [] completed failed w = (Inr (completed, failed), w)"
| "prefetch_join env ctx ((task, cancelled) # rest) completed failed w =
     (if cancelled then (Inl Cancelled, w)
      else case prefetch_bundle env ctx task (send_progress (PuBundleStarted (dt_bundle_path task)) w) of
             (Inr _, w1) \<Rightarrow>
               prefetch_join env ctx rest (completed + 1) failed (send_progress (PuBundleCompleted (dt_bundle_path task)) w1)
           | (Inl Cancelled, w1) \<Rightarrow> (Inl Cancelled, w1)
           | (Inl e, w1) \<Rightarrow>
               prefetch_join env ctx rest completed (failed + 1) (send_progress (PuBundleFailed (dt_bundle_path task) e) w1))"

definition prefetch_asset_bundles ::
    "'h exec_env \<Rightarrow> (nat \<Rightarrow> bool) \<Rightarrow> (download_task list \<Rightarrow> (download_task \<times> bool) list) \<Rightarrow> exec_context \<Rightarrow>
     'h exec_world \<Rightarrow> (asset_execution_error + execution_summary) \<times> 'h exec_world" where
  "prefetch_asset_bundles env flag completion ctx w0 =
     st_bind (ensure_not_cancelled (flag 0), w0) (\<lambda>_ w1.
     st_bind (if requires_cookies (rg_provider (ec_region ctx))
              then on_http (fetch_runtime_cookies (xe_http env) ctx)
                     (send_progress (PuPhase PhFetchingAssetInfo ''fetching asset bundle info'') w1)
              else (Inr ctx, send_progress (PuPhase PhFetchingAssetInfo ''fetching asset bundle info'') w1)) (\<lambda>ctx1 w2.
     st_bind (ensure_not_cancelled (flag 1), w2) (\<lambda>_ w3.
     st_bind (on_http (fetch_asset_bundle_info (xe_http env) (xe_crypto env) (xe_unpack_info env) ctx1) w3)
       (\<lambda>(info, ctx2) w4.
          let tasks = filter_raw_bundle_tasks (xe_regex env) (ec_region ctx2)
                        (build_download_tasks (xe_regex env) (ec_region ctx2) info []);
              w5 = send_progress (PuDownloadsPlanned (length tasks))
                     (send_progress (PuPhase PhPlanningDownloads ''building prefetch task list'') w4);
              summary = (\<lambda>queued completed failed.
                \<lparr>es_discovered_bundles = length (bi_bundles info), es_queued_downloads = queued,
                 es_completed_downloads = completed, es_failed_downloads = failed, es_updated_record_entries = 0,
                 es_chart_hash_sync_performed = False\<rparr>)
          in if tasks = [] then (Inr (summary 0 0 0), w5)
             else st_bind (prefetch_join env ctx2 (completion tasks) 0 0
                             (send_progress (PuPhase PhDownloadingBundles
                                (''prefetching '' @ show_nat (length tasks) @ '' bundle(s)'')) w5))
                    (\<lambda>(completed, failed) w6. (Inr (summary (length tasks) completed failed), w6))))))"

section \<open>The background export for the 3d viewer\<close>

record haruki_3d_summary =
  hs3_matched_bundles :: nat
  hs3_downloaded_bundles :: nat

text \<open>The outcome of the exporter process: success, the status and the error output.\<close>

record 'h exporter_ops =
  eo_run :: "string \<Rightarrow> string list \<Rightarrow> fs \<times> 'h \<Rightarrow> (io_kind + bool \<times> string \<times> string) \<times> fs \<times> 'h"
  eo_dir_exists :: "string \<Rightarrow> fs \<times> 'h \<Rightarrow> bool"
  eo_remove_dir_all :: "string \<Rightarrow> fs \<times> 'h \<Rightarrow> (io_kind + unit) \<times> fs \<times> 'h"

definition remove_haruki_3d_work_dir ::
    "'h exporter_ops \<Rightarrow> string \<Rightarrow> 'h exec_world \<Rightarrow> (asset_execution_error + unit) \<times> 'h exec_world" where
  "remove_haruki_3d_work_dir ops work_run_dir w =
     (if \<not> eo_dir_exists ops work_run_dir (xw_fs w, xw_http w) then (Inr (), w)
      else st_map_err (RemoveHaruki3dStagingDir work_run_dir) (on_both (eo_remove_dir_all ops work_run_dir) w))"

fun haruki_3d_downloads ::
    "'h exec_env \<Rightarrow> (nat \<Rightarrow> bool) \<Rightarrow> exec_context \<Rightarrow> string \<Rightarrow> nat \<Rightarrow> download_task list \<Rightarrow> nat \<Rightarrow> 'h exec_world \<Rightarrow>
     (asset_execution_error + nat) \<times> 'h exec_world" where
  "haruki_3d_downloads env flag ctx asset_root n [] downloaded w = (Inr downloaded, w)"
| "haruki_3d_downloads env flag ctx asset_root n (task # rest) downloaded w0 =
     st_bind (ensure_not_cancelled (flag n), w0) (\<lambda>_ w1.
     st_bind (raw_bundle_output_path asset_root (dt_bundle_path task),
              send_progress (PuBundleStarted (dt_bundle_path task)) w1) (\<lambda>output_path w2.
     if fs_files (xw_fs w2) output_path \<noteq> None
     then haruki_3d_downloads env flag ctx asset_root (n + 1) rest downloaded w2
     else
       st_bind (render_bundle_url (ht_time_arg (xe_http env) (xw_http w2)) ctx task, w2) (\<lambda>url w3.
       st_bind (on_http (get_with_retry (xe_http env) ctx url) w3) (\<lambda>body w4.
       st_bind (on_fs (write_haruki_3d_work_bundle output_path (deobfuscate body)) w4) (\<lambda>_ w5.
         haruki_3d_downloads env flag ctx asset_root (n + 1) rest (downloaded + 1)
           (send_progress (PuBundleCompleted (dt_bundle_path task)) w5))))))"

fun run_exporter_commands ::
    "'h exporter_ops \<Rightarrow> haruki_3d_export_config \<Rightarrow> string \<Rightarrow> string list list \<Rightarrow> 'h exec_world \<Rightarrow>
     (asset_execution_error + unit) \<times> 'h exec_world" where
  "run_exporter_commands ops h work_run_dir [] w = (Inr (), w)"
| "run_exporter_commands ops h work_run_dir (args # rest) w0 =
     st_bind (st_map_err (Haruki3dExporterSpawn (h3_exporter_path h))
                (on_both (eo_run ops (h3_exporter_path h) args) w0)) (\<lambda>(success, status, stderr) w1.
     if success then run_exporter_commands ops h work_run_dir rest w1
     else st_bind (if h3_cleanup_work_dir_after_failure h then remove_haruki_3d_work_dir ops work_run_dir w1
                   else (Inr (), w1)) (\<lambda>_ w2.
            (Inl (Haruki3dExporterFailed (h3_exporter_path h) status (trim stderr)), w2)))"

definition run_haruki_3d_background_export ::
    "'h exec_env \<Rightarrow> 'h exporter_ops \<Rightarrow> (bytes \<Rightarrow> string + game_version_info) \<Rightarrow> (nat \<Rightarrow> bool) \<Rightarrow> exec_context \<Rightarrow>
     'h exec_world \<Rightarrow> (asset_execution_error + haruki_3d_summary) \<times> 'h exec_world" where
  "run_haruki_3d_background_export env ops unpack_game flag ctx w0 =
     (let h = xp_haruki_3d (rg_export (ec_region ctx)) in
      if \<not> h3_enabled h then (Inr \<lparr>hs3_matched_bundles = 0, hs3_downloaded_bundles = 0\<rparr>, w0)
      else
        st_bind (ensure_not_cancelled (flag 0), w0) (\<lambda>_ w1.
        let w2 = send_progress (PuPhase PhFetchingAssetInfo ''fetching asset bundle info for Haruki 3D export'') w1 in
        st_bind (if requires_cookies (rg_provider (ec_region ctx)) then on_http (fetch_runtime_cookies (xe_http env) ctx) w2
                 else (Inr ctx, w2)) (\<lambda>ctx1 w3.
        st_bind (on_http (resolve_provider_versions (xe_http env) (xe_crypto env) unpack_game ctx1) w3) (\<lambda>ctx2 w4.
        st_bind (ensure_not_cancelled (flag 1), w4) (\<lambda>_ w5.
        st_bind (on_http (fetch_asset_bundle_info (xe_http env) (xe_crypto env) (xe_unpack_info env) ctx2) w5)
          (\<lambda>(info, ctx3) w6.
        st_bind (ok_or (MissingAssetSaveDir (ec_region_name ctx))
                   (rp_downloaded_asset_record_file (rg_paths (ec_region ctx))), w6) (\<lambda>record_path w7.
        st_bind (st_map_err DownloadRecordErr (on_fs (load_download_record (xe_json env) record_path) w7)) (\<lambda>record w8.
        let tasks = build_haruki_3d_tasks (xe_regex env) (ec_region ctx3) info record;
            w9 = send_progress (PuDownloadsPlanned (length tasks)) w8
        in case haruki_3d_work_asset_root (ec_region ctx3) (ec_region_name ctx3) (ec_resolved_asset_version ctx3) of
             None \<Rightarrow> (Inr \<lparr>hs3_matched_bundles = 0, hs3_downloaded_bundles = 0\<rparr>, w9)
           | Some asset_root \<Rightarrow>
               (let work_run_dir = unwrap_or asset_root (parent asset_root) in
                st_bind (haruki_3d_downloads env flag ctx3 asset_root 2 tasks 0 w9) (\<lambda>downloaded w10.
                st_bind (run_exporter_commands ops h work_run_dir (build_haruki_3d_exporter_commands h asset_root) w10) (\<lambda>_ w11.
                st_bind (if h3_cleanup_work_dir_after_success h then remove_haruki_3d_work_dir ops work_run_dir w11
                         else (Inr (), w11)) (\<lambda>_ w12.
                  (Inr \<lparr>hs3_matched_bundles = length tasks, hs3_downloaded_bundles = downloaded\<rparr>, w12)))))))))))))"

end
