(* ===== verification/Executor_Loop.thy ===== *)
theory Executor_Loop
  imports Executor
begin

text \<open>
  The scheduler of the executor is correct: permits are conserved, it cannot get stuck, it ends, and
  when it ends every task is accounted for. The facts hold for every schedule and whatever the
  export stages do.
\<close>

section \<open>Lemmas: positions\<close>

lemma sum_list_update:
  "i < length xs \<Longrightarrow> sum_list (map f (xs[i := v])) + f (xs ! i) = sum_list (map f xs) + (f v :: nat)"
  by (induction xs arbitrary: i) (auto split: nat.splits)

lemma map_update_same: "i < length xs \<Longrightarrow> g v = g (xs ! i) \<Longrightarrow> map g (xs[i := v]) = map g xs"
  by (metis list_update_id map_update nth_map)

lemma sum_list_zeroI: "(\<And>x. x \<in> set xs \<Longrightarrow> f x = (0::nat)) \<Longrightarrow> sum_list (map f xs) = 0"
  by (induction xs) auto

section \<open>Lemmas: permits\<close>

text \<open>What each task holds.\<close>

fun slot_held :: "download_phase \<Rightarrow> nat" where
  "slot_held WaitBacklog = 1" | "slot_held WaitMemory = 1" | "slot_held (Downloading _) = 1" | "slot_held _ = 0"

fun backlog_held :: "download_phase \<Rightarrow> nat" where
  "backlog_held WaitMemory = 1" | "backlog_held (Downloading _) = 1" | "backlog_held (DownloadDone (Inr _)) = 1"
| "backlog_held _ = 0"

definition permit_units :: "nat option \<Rightarrow> nat" where
  "permit_units p = unwrap_or 0 p"

fun memory_held :: "download_phase \<Rightarrow> nat" where
  "memory_held (Downloading p) = permit_units p" | "memory_held (DownloadDone (Inr (_, p))) = permit_units p"
| "memory_held _ = 0"

fun post_held :: "post_phase \<Rightarrow> nat" where
  "post_held PostRunning = 1" | "post_held _ = 0"

fun post_unfinished :: "post_phase \<Rightarrow> nat" where
  "post_unfinished (PostDone _) = 0" | "post_unfinished _ = 1"

definition post_memory :: "post_run \<Rightarrow> nat" where
  "post_memory p = post_unfinished (pr_phase p) * permit_units (pr_memory p)"

definition loop_permits :: "'h exec_env \<Rightarrow> 'h exec_state \<Rightarrow> bool" where
  "loop_permits env s \<longleftrightarrow>
     xs_slots s + (\<Sum>d\<leftarrow>xs_downloads s. slot_held (dj_phase d)) = download_concurrency (xe_concurrency env) \<and>
     xs_backlog s + (\<Sum>d\<leftarrow>xs_downloads s. backlog_held (dj_phase d)) + (\<Sum>p\<leftarrow>xs_posts s. post_unfinished (pr_phase p)) =
       post_process_concurrency (xe_concurrency env) \<and>
     xs_post_permits s + (\<Sum>p\<leftarrow>xs_posts s. post_held (pr_phase p)) = post_process_concurrency (xe_concurrency env) \<and>
     length (xs_downloads s) \<le> download_concurrency (xe_concurrency env) \<and>
     ml_limit_units (xs_memory s) = ml_limit_units (limiter_from_config (xe_config env)) \<and>
     (case ml_permits (xs_memory s) of
        None \<Rightarrow> ml_permits (limiter_from_config (xe_config env)) = None
      | Some free \<Rightarrow> 1 \<le> ml_limit_units (xs_memory s) \<and>
          free + (\<Sum>d\<leftarrow>xs_downloads s. memory_held (dj_phase d)) + (\<Sum>p\<leftarrow>xs_posts s. post_memory p) =
            ml_limit_units (xs_memory s))"

text \<open>Components of a state that the bookkeeping does not read.\<close>

lemma xs_send_fields [simp]:
  "xs_pending (xs_send u s) = xs_pending s" "xs_downloads (xs_send u s) = xs_downloads s"
  "xs_posts (xs_send u s) = xs_posts s" "xs_slots (xs_send u s) = xs_slots s"
  "xs_backlog (xs_send u s) = xs_backlog s" "xs_post_permits (xs_send u s) = xs_post_permits s"
  "xs_memory (xs_send u s) = xs_memory s" "xs_cancelled (xs_send u s) = xs_cancelled s"
  "xs_record (xs_send u s) = xs_record s" "xs_completed (xs_send u s) = xs_completed s"
  "xs_failed (xs_send u s) = xs_failed s" "xs_result (xs_send u s) = xs_result s"
  "xs_done (xs_send u s) = xs_done s" "xs_bad (xs_send u s) = xs_bad s"
  "xs_pending_save (xs_send u s) = xs_pending_save s"
  by (simp_all add: xs_send_def)

lemma set_download_fields [simp]:
  "xs_pending (set_download i ph s) = xs_pending s" "xs_posts (set_download i ph s) = xs_posts s"
  "xs_slots (set_download i ph s) = xs_slots s" "xs_backlog (set_download i ph s) = xs_backlog s"
  "xs_post_permits (set_download i ph s) = xs_post_permits s" "xs_memory (set_download i ph s) = xs_memory s"
  "xs_cancelled (set_download i ph s) = xs_cancelled s" "xs_record (set_download i ph s) = xs_record s"
  "xs_completed (set_download i ph s) = xs_completed s" "xs_failed (set_download i ph s) = xs_failed s"
  "xs_result (set_download i ph s) = xs_result s" "xs_done (set_download i ph s) = xs_done s"
  "xs_bad (set_download i ph s) = xs_bad s" "length (xs_downloads (set_download i ph s)) = length (xs_downloads s)"
  by (simp_all add: set_download_def)

lemma set_post_fields [simp]:
  "xs_pending (set_post i ph s) = xs_pending s" "xs_downloads (set_post i ph s) = xs_downloads s"
  "xs_slots (set_post i ph s) = xs_slots s" "xs_backlog (set_post i ph s) = xs_backlog s"
  "xs_post_permits (set_post i ph s) = xs_post_permits s" "xs_memory (set_post i ph s) = xs_memory s"
  "xs_cancelled (set_post i ph s) = xs_cancelled s" "xs_record (set_post i ph s) = xs_record s"
  "xs_completed (set_post i ph s) = xs_completed s" "xs_failed (set_post i ph s) = xs_failed s"
  "xs_result (set_post i ph s) = xs_result s" "xs_done (set_post i ph s) = xs_done s"
  "xs_bad (set_post i ph s) = xs_bad s"
  by (simp_all add: set_post_def)

lemma record_completed_fields [simp]:
  "xs_pending (record_completed_bundle env rp p h s) = xs_pending s"
  "xs_downloads (record_completed_bundle env rp p h s) = xs_downloads s"
  "xs_posts (record_completed_bundle env rp p h s) = xs_posts s"
  "xs_slots (record_completed_bundle env rp p h s) = xs_slots s"
  "xs_backlog (record_completed_bundle env rp p h s) = xs_backlog s"
  "xs_post_permits (record_completed_bundle env rp p h s) = xs_post_permits s"
  "xs_memory (record_completed_bundle env rp p h s) = xs_memory s"
  "xs_cancelled (record_completed_bundle env rp p h s) = xs_cancelled s"
  "xs_record (record_completed_bundle env rp p h s) = bt_insert p h (xs_record s)"
  "xs_completed (record_completed_bundle env rp p h s) = Suc (xs_completed s)"
  "xs_failed (record_completed_bundle env rp p h s) = xs_failed s"
  "xs_result (record_completed_bundle env rp p h s) = xs_result s"
  "xs_done (record_completed_bundle env rp p h s) = xs_done s @ [(p, h)]"
  "xs_bad (record_completed_bundle env rp p h s) = xs_bad s"
  by (auto simp: record_completed_bundle_def Let_def split: prod.split sum.split)

lemma bundle_failed_fields [simp]:
  "xs_pending (bundle_failed p e s) = xs_pending s" "xs_downloads (bundle_failed p e s) = xs_downloads s"
  "xs_posts (bundle_failed p e s) = xs_posts s" "xs_slots (bundle_failed p e s) = xs_slots s"
  "xs_backlog (bundle_failed p e s) = xs_backlog s" "xs_post_permits (bundle_failed p e s) = xs_post_permits s"
  "xs_memory (bundle_failed p e s) = xs_memory s" "xs_cancelled (bundle_failed p e s) = xs_cancelled s"
  "xs_record (bundle_failed p e s) = xs_record s" "xs_completed (bundle_failed p e s) = xs_completed s"
  "xs_done (bundle_failed p e s) = xs_done s"
  "xs_result (bundle_failed p e s) = (if e = Cancelled then Some Cancelled else xs_result s)"
  "xs_failed (bundle_failed p e s) = (if e = Cancelled then xs_failed s else Suc (xs_failed s))"
  "xs_bad (bundle_failed p e s) = (if e = Cancelled then xs_bad s else xs_bad s @ [p])"
  by (simp_all add: bundle_failed_def)

lemma download_sums:
  assumes "download_at i s = Some ph0"
  shows "(\<Sum>d\<leftarrow>xs_downloads (set_download i ph s). f (dj_phase d)) + f ph0 =
     (\<Sum>d\<leftarrow>xs_downloads s. f (dj_phase d)) + (f ph :: nat)"
  using assms sum_list_update [of i "xs_downloads s" "\<lambda>d. f (dj_phase d)" "(xs_downloads s ! i)\<lparr>dj_phase := ph\<rparr>"]
  by (auto simp: download_at_def set_download_def split: if_splits)

lemma post_sums:
  assumes "post_at i s = Some ph0"
  shows "(\<Sum>p\<leftarrow>xs_posts (set_post i ph s). f p) + f (xs_posts s ! i) =
     (\<Sum>p\<leftarrow>xs_posts s. f p) + (f ((xs_posts s ! i)\<lparr>pr_phase := ph\<rparr>) :: nat)"
  using assms sum_list_update [of i "xs_posts s" f "(xs_posts s ! i)\<lparr>pr_phase := ph\<rparr>"]
  by (auto simp: post_at_def set_post_def split: if_splits)

lemma remove_download_sums:
  assumes "download_at i s = Some ph0"
  shows "(\<Sum>d\<leftarrow>remove_nth i (xs_downloads s). f (dj_phase d)) + f ph0 = ((\<Sum>d\<leftarrow>xs_downloads s. f (dj_phase d)) :: nat)"
  using assms sum_list_remove_nth [of i "xs_downloads s" "\<lambda>d. f (dj_phase d)"]
  by (auto simp: download_at_def split: if_splits)

lemma spawn_next_fields [simp]:
  "xs_posts (spawn_next s) = xs_posts s" "xs_slots (spawn_next s) = xs_slots s"
  "xs_backlog (spawn_next s) = xs_backlog s" "xs_post_permits (spawn_next s) = xs_post_permits s"
  "xs_memory (spawn_next s) = xs_memory s" "xs_cancelled (spawn_next s) = xs_cancelled s"
  "xs_record (spawn_next s) = xs_record s" "xs_completed (spawn_next s) = xs_completed s"
  "xs_failed (spawn_next s) = xs_failed s" "xs_result (spawn_next s) = xs_result s"
  "xs_done (spawn_next s) = xs_done s" "xs_bad (spawn_next s) = xs_bad s"
  by (simp_all add: spawn_next_def split: list.split)

lemma spawn_next_downloads:
  "f WaitSlot = (0::nat) \<Longrightarrow>
     (\<Sum>d\<leftarrow>xs_downloads (spawn_next s). f (dj_phase d)) = (\<Sum>d\<leftarrow>xs_downloads s. f (dj_phase d))"
  by (simp add: spawn_next_def spawn_bundle_download_job_def split: list.split)

lemma spawn_next_length: "length (xs_downloads (spawn_next s)) \<le> Suc (length (xs_downloads s))"
  by (simp add: spawn_next_def split: list.split)

lemma limiter_acquire_Some:
  assumes "limiter_acquire l b = Some (permit, l')"
  shows "ml_limit_units l' = ml_limit_units l"
    and "ml_permits l' = None \<longleftrightarrow> ml_permits l = None"
    and "ml_permits l = Some free \<Longrightarrow> ml_permits l' = Some free' \<Longrightarrow> free' + permit_units permit = free"
  using assms by (auto simp: limiter_acquire_def permit_units_def Let_def split: option.splits if_splits)

lemma limiter_release_simps [simp]:
  "ml_limit_units (limiter_release l p) = ml_limit_units l"
  "ml_permits (limiter_release l p) = map_option (\<lambda>f. f + permit_units p) (ml_permits l)"
  by (simp_all add: limiter_release_def permit_units_def split: option.split) (simp add: option.map_ident)?

text \<open>One lemma per kind of action.\<close>

lemma permits_set_download:
  assumes inv: "loop_permits env s" and at: "download_at i s = Some ph0"
    and slots: "xs_slots s' + slot_held ph = xs_slots s + slot_held ph0"
    and backlog: "xs_backlog s' + backlog_held ph = xs_backlog s + backlog_held ph0"
    and memory: "ml_limit_units (xs_memory s') = ml_limit_units (xs_memory s)"
      "case ml_permits (xs_memory s') of
         None \<Rightarrow> ml_permits (xs_memory s) = None
       | Some free' \<Rightarrow> (\<exists>free. ml_permits (xs_memory s) = Some free \<and> free' + memory_held ph = free + memory_held ph0)"
    and rest: "xs_downloads s' = xs_downloads s" "xs_posts s' = xs_posts s" "xs_post_permits s' = xs_post_permits s"
  shows "loop_permits env (set_download i ph s')"
proof -
  have "download_at i s' = Some ph0" using at rest by (simp add: download_at_def split: if_splits)
  note sums = download_sums [OF this, of _ ph]
  show ?thesis
    using inv slots backlog memory rest sums [of slot_held] sums [of backlog_held] sums [of memory_held]
    by (auto simp: loop_permits_def split: option.splits)
qed

lemma permits_TakeSlot:
  assumes "loop_permits env s" and "exec_apply env ctx wr rp (TakeSlot i) s = Some s'"
  shows "loop_permits env s'"
proof -
  have at: "download_at i s = Some WaitSlot" "0 < xs_slots s" using assms(2) by (simp_all split: if_splits)
  show ?thesis
  proof (cases "xs_cancelled s")
    case True
    then have "s' = set_download i (DownloadDone (Inl Cancelled)) s" using assms(2) at by simp
    then show ?thesis
      by simp (rule permits_set_download [OF assms(1) at(1)]; simp split: option.split)
  next
    case False
    then have "s' = set_download i WaitBacklog (s\<lparr>xs_slots := xs_slots s - 1\<rparr>)" using assms(2) at by simp
    with at(2) show ?thesis
      by simp (rule permits_set_download [OF assms(1) at(1)]; simp split: option.split)
  qed
qed

lemma permits_TakeBacklog:
  assumes "loop_permits env s" and "exec_apply env ctx wr rp (TakeBacklog i) s = Some s'"
  shows "loop_permits env s'"
proof -
  have at: "download_at i s = Some WaitBacklog" "0 < xs_backlog s"
    and "s' = set_download i WaitMemory (s\<lparr>xs_backlog := xs_backlog s - 1\<rparr>)"
    using assms(2) by (simp_all split: if_splits)
  then show ?thesis
    by simp (rule permits_set_download [OF assms(1) at(1)]; simp split: option.split)
qed

lemma permits_xs_send [simp]: "loop_permits env (xs_send u s) = loop_permits env s"
  by (simp add: loop_permits_def split: option.split)

lemma permits_TakeMemory:
  assumes "loop_permits env s" and "exec_apply env ctx wr rp (TakeMemory i) s = Some s'"
  shows "loop_permits env s'"
proof -
  let ?b = "nat (max (dt_file_size (dj_task (xs_downloads s ! i))) 0)"
  obtain permit l where l: "download_at i s = Some WaitMemory" "limiter_acquire (xs_memory s) ?b = Some (permit, l)"
    and s': "s' = xs_send (PuBundleStarted (dt_bundle_path (dj_task (xs_downloads s ! i))))
      (set_download i (Downloading permit) (s\<lparr>xs_memory := l\<rparr>))"
    using assms(2) by (auto simp: Let_def split: if_splits option.splits)
  show ?thesis
    unfolding s' permits_xs_send
    by (rule permits_set_download [OF assms(1) l(1)])
      (use limiter_acquire_Some [OF l(2)] in \<open>auto split: option.splits\<close>)
qed

lemma permits_EndDownload:
  assumes "loop_permits env s" and "exec_apply env ctx wr rp (EndDownload i) s = Some s'"
  shows "loop_permits env s'"
proof -
  obtain permit where at: "download_at i s = Some (Downloading permit)" and s': "s' = end_download env ctx wr i permit s"
    using assms(2) by (auto split: option.splits download_phase.splits)
  show ?thesis
    unfolding s' end_download_def Let_def
    by (simp split: prod.split sum.split) (intro conjI allI impI permits_set_download [OF assms(1) at]; simp split: option.split)
qed

lemma permits_set_post:
  assumes inv: "loop_permits env s" and at: "post_at i s = Some ph0"
    and permits: "xs_post_permits s' + post_held ph = xs_post_permits s + post_held ph0"
    and backlog: "xs_backlog s' + post_unfinished ph = xs_backlog s + post_unfinished ph0"
    and memory: "xs_memory s' = (if post_unfinished ph = post_unfinished ph0 then xs_memory s
        else limiter_release (xs_memory s) (pr_memory (xs_posts s ! i)))"
      "post_unfinished ph \<noteq> post_unfinished ph0 \<Longrightarrow> post_unfinished ph0 = 1 \<and> post_unfinished ph = 0"
    and rest: "xs_downloads s' = xs_downloads s" "xs_posts s' = xs_posts s" "xs_slots s' = xs_slots s"
  shows "loop_permits env (set_post i ph s')"
proof -
  have at': "post_at i s' = Some ph0" and ph0: "pr_phase (xs_posts s ! i) = ph0"
    using at rest by (simp_all add: post_at_def split: if_splits)
  have pm: "post_memory (xs_posts s ! i) = post_unfinished ph0 * permit_units (pr_memory (xs_posts s ! i))"
      "post_memory ((xs_posts s ! i)\<lparr>pr_phase := ph\<rparr>) = post_unfinished ph * permit_units (pr_memory (xs_posts s ! i))"
    by (simp_all add: post_memory_def ph0)
  note sums = post_sums [OF at', of _ ph]
  show ?thesis
    using inv permits backlog memory rest ph0 sums [of "\<lambda>p. post_held (pr_phase p)"]
      sums [of "\<lambda>p. post_unfinished (pr_phase p)"] sums [of post_memory] pm
    by (auto simp: loop_permits_def split: option.splits if_splits)
qed

lemma permits_TakePost:
  assumes "loop_permits env s" and "exec_apply env ctx wr rp (TakePost i) s = Some s'"
  shows "loop_permits env s'"
proof -
  have at: "post_at i s = Some WaitPost" "0 < xs_post_permits s"
    and "s' = set_post i PostRunning (s\<lparr>xs_post_permits := xs_post_permits s - 1\<rparr>)"
    using assms(2) by (simp_all split: if_splits)
  then show ?thesis by simp (rule permits_set_post [OF assms(1) at(1)]; simp)
qed

lemma permits_EndPost:
  assumes "loop_permits env s" and "exec_apply env ctx wr rp (EndPost i) s = Some s'"
  shows "loop_permits env s'"
proof -
  have at: "post_at i s = Some PostRunning" and s': "s' = end_post env ctx i s"
    using assms(2) by (simp_all split: if_splits)
  show ?thesis
    unfolding s' end_post_def Let_def
    by (simp split: prod.split) (intro allI impI permits_set_post [OF assms(1) at]; simp)
qed

lemma permits_spawn_next:
  "loop_permits env s \<Longrightarrow> length (xs_downloads s) < download_concurrency (xe_concurrency env) \<Longrightarrow>
     loop_permits env (spawn_next s)"
  using spawn_next_length [of s]
  by (simp add: loop_permits_def spawn_next_downloads split: option.splits)

lemma permits_JoinDownload:
  assumes inv: "loop_permits env s" and "exec_apply env ctx wr rp (JoinDownload i) s = Some s'"
  shows "loop_permits env s'"
proof -
  obtain r where at: "download_at i s = Some (DownloadDone r)" and s': "s' = join_download i r s"
    using assms(2) by (auto split: option.splits download_phase.splits)
  let ?s1 = "s\<lparr>xs_downloads := remove_nth i (xs_downloads s)\<rparr>"
  define s2 where "s2 = (case r of
      Inr (job, permit) \<Rightarrow> xs_send (PuSchedulerTelemetry (Some (pj_bundle_path job)))
        (?s1\<lparr>xs_posts := xs_posts ?s1 @ [\<lparr>pr_job = job, pr_memory = permit, pr_phase = WaitPost\<rparr>]\<rparr>)
    | Inl e \<Rightarrow> bundle_failed (dt_bundle_path (dj_task (xs_downloads s ! i))) e ?s1)"
  have s'_eq: "s' = (if xs_result s2 = None then spawn_next s2 else s2)"
    by (simp add: s' join_download_def s2_def Let_def)
  have i: "i < length (xs_downloads s)" using at by (simp add: download_at_def split: if_splits)
  note sums = remove_download_sums [OF at]
  have len: "length (xs_downloads s2) < download_concurrency (xe_concurrency env)"
    using inv i length_remove_nth [OF i] by (auto simp: s2_def loop_permits_def split: sum.split)
  have pm: "post_memory \<lparr>pr_job = job, pr_memory = permit, pr_phase = WaitPost\<rparr> = permit_units permit" for job permit
    by (simp add: post_memory_def)
  have "loop_permits env s2"
    using inv sums [of slot_held] sums [of backlog_held] sums [of memory_held] len pm
    by (cases r) (auto simp: s2_def loop_permits_def split: option.splits)
  then show ?thesis using permits_spawn_next [of env s2] len by (simp add: s'_eq)
qed

lemma permits_JoinPost:
  assumes inv: "loop_permits env s" and "exec_apply env ctx wr rp (JoinPost i) s = Some s'"
  shows "loop_permits env s'"
proof -
  obtain r where at: "post_at i s = Some (PostDone r)" and s': "s' = join_post env rp i r s"
    using assms(2) by (auto split: option.splits post_phase.splits)
  have i: "i < length (xs_posts s)" and ph: "pr_phase (xs_posts s ! i) = PostDone r"
    using at by (simp_all add: post_at_def split: if_splits)
  have pm: "post_memory (xs_posts s ! i) = 0" by (simp add: post_memory_def ph)
  note sums = sum_list_remove_nth [OF i]
  show ?thesis
    using inv ph pm sums [of "\<lambda>p. post_held (pr_phase p)"] sums [of "\<lambda>p. post_unfinished (pr_phase p)"] sums [of post_memory]
    by (cases r) (auto simp: s' join_post_def loop_permits_def Let_def split: option.splits)
qed

lemma permits_RaiseCancel:
  "loop_permits env s \<Longrightarrow> exec_apply env ctx wr rp RaiseCancel s = Some s' \<Longrightarrow> loop_permits env s'"
  by (auto simp: loop_permits_def split: if_splits option.splits)

lemmas permits_actions = permits_TakeSlot permits_TakeBacklog permits_TakeMemory permits_EndDownload
  permits_JoinDownload permits_TakePost permits_EndPost permits_JoinPost permits_RaiseCancel

lemma permits_step:
  "loop_permits env s \<Longrightarrow> exec_apply env ctx wr rp a s = Some s' \<Longrightarrow> loop_permits env s'"
  by (cases a) (blast dest: permits_actions)+

lemma permits_start: "loop_permits env (start_loop env tasks downloaded c w)"
proof -
  have "(\<Sum>d\<leftarrow>map spawn_bundle_download_job ts. f (dj_phase d)) = (0::nat)" if "f WaitSlot = 0" for f ts
    using that by (intro sum_list_zeroI) (auto simp: spawn_bundle_download_job_def)
  then show ?thesis
    by (simp add: loop_permits_def start_loop_def Let_def post_process_backlog_capacity_def post_process_concurrency_def
        limiter_from_config_def bytes_to_units_def u32_max_def comp_def)
qed

section \<open>Lemmas: progress\<close>

lemma sum_list_member: "x \<in> set xs \<Longrightarrow> f x \<le> sum_list (map f xs)" for f :: "'a \<Rightarrow> nat"
  by (induction xs) auto

lemma limiter_units_le: "1 \<le> ml_limit_units l \<Longrightarrow> limiter_units l b \<le> ml_limit_units l"
  by (simp add: limiter_units_def)

lemma loop_permitsD:
  assumes "loop_permits env s"
  shows "xs_slots s + (\<Sum>d\<leftarrow>xs_downloads s. slot_held (dj_phase d)) = download_concurrency (xe_concurrency env)"
    and "xs_backlog s + (\<Sum>d\<leftarrow>xs_downloads s. backlog_held (dj_phase d)) + (\<Sum>p\<leftarrow>xs_posts s. post_unfinished (pr_phase p)) =
       post_process_concurrency (xe_concurrency env)"
    and "xs_post_permits s + (\<Sum>p\<leftarrow>xs_posts s. post_held (pr_phase p)) = post_process_concurrency (xe_concurrency env)"
    and "ml_permits (xs_memory s) = Some free \<Longrightarrow> 1 \<le> ml_limit_units (xs_memory s) \<and>
       free + (\<Sum>d\<leftarrow>xs_downloads s. memory_held (dj_phase d)) + (\<Sum>p\<leftarrow>xs_posts s. post_memory p) =
         ml_limit_units (xs_memory s)"
    and "ml_limit_units (xs_memory s) = ml_limit_units (limiter_from_config (xe_config env))"
  using assms unfolding loop_permits_def by (simp_all only: option.case) metis?

lemma concurrency_pos: "0 < post_process_concurrency c" "0 < download_concurrency c"
  by (simp_all add: post_process_concurrency_def download_concurrency_def less_max_iff_disj)

lemma action_enabled_post:
  assumes "loop_permits env s" and "xs_posts s \<noteq> []"
  shows "\<exists>a. a \<noteq> RaiseCancel \<and> exec_apply env ctx wr rp a s \<noteq> None"
proof (cases "\<exists>i. post_at i s \<in> {Some PostRunning} \<union> range (\<lambda>r. Some (PostDone r))")
  case True
  then obtain i where "post_at i s = Some PostRunning \<or> (\<exists>r. post_at i s = Some (PostDone r))" by blast
  then show ?thesis
  proof
    assume "post_at i s = Some PostRunning"
    then show ?thesis by (intro exI [of _ "EndPost i"]) simp
  next
    assume "\<exists>r. post_at i s = Some (PostDone r)"
    then show ?thesis by (intro exI [of _ "JoinPost i"]) auto
  qed
next
  case False
  have waits: "pr_phase p = WaitPost" if "p \<in> set (xs_posts s)" for p
  proof -
    obtain i where "i < length (xs_posts s)" "xs_posts s ! i = p" using \<open>p \<in> set (xs_posts s)\<close> by (auto simp: in_set_conv_nth)
    then have "post_at i s = Some (pr_phase p)" by (simp add: post_at_def)
    with False show ?thesis by (cases "pr_phase p") (metis UnI1 UnI2 insertI1 rangeI)+
  qed
  then have "(\<Sum>p\<leftarrow>xs_posts s. post_held (pr_phase p)) = 0" by (intro sum_list_zeroI) simp
  then have "0 < xs_post_permits s" using loop_permitsD(3) [OF assms(1)] concurrency_pos(1) by (metis add_0_right)
  moreover have "post_at 0 s = Some WaitPost" using assms(2) waits by (simp add: post_at_def)
  ultimately show ?thesis by (intro exI [of _ "TakePost 0"]) simp
qed

lemma action_enabled_download:
  assumes inv: "loop_permits env s" and posts: "xs_posts s = []" and d: "d \<in> set (xs_downloads s)"
  shows "\<exists>a. a \<noteq> RaiseCancel \<and> exec_apply env ctx wr rp a s \<noteq> None"
proof -
  have at: "\<exists>i. i < length (xs_downloads s) \<and> download_at i s = Some (dj_phase e)" if "e \<in> set (xs_downloads s)" for e
    using that by (auto simp: in_set_conv_nth download_at_def)
  consider (ends) e permit where "e \<in> set (xs_downloads s)" "dj_phase e = Downloading permit"
    | (joins) e r where "e \<in> set (xs_downloads s)" "dj_phase e = DownloadDone r"
    | (memory) e where "e \<in> set (xs_downloads s)" "dj_phase e = WaitMemory"
        "\<forall>d\<in>set (xs_downloads s). dj_phase d \<in> {WaitSlot, WaitBacklog, WaitMemory}"
    | (backlog) e where "e \<in> set (xs_downloads s)" "dj_phase e = WaitBacklog"
        "\<forall>d\<in>set (xs_downloads s). dj_phase d \<in> {WaitSlot, WaitBacklog}"
    | (slot) "\<forall>d\<in>set (xs_downloads s). dj_phase d = WaitSlot"
    by (metis (no_types, opaque_lifting) download_phase.exhaust insertCI)
  then show ?thesis
  proof cases
    case (ends e permit)
    with at obtain i where "download_at i s = Some (Downloading permit)" by metis
    then show ?thesis by (intro exI [of _ "EndDownload i"]) simp
  next
    case (joins e r)
    with at obtain i where "download_at i s = Some (DownloadDone r)" by metis
    then show ?thesis by (intro exI [of _ "JoinDownload i"]) simp
  next
    case (memory e)
    have "(\<Sum>d\<leftarrow>xs_downloads s. memory_held (dj_phase d)) = 0"
      using memory(3) by (intro sum_list_zeroI) auto
    then have free: "ml_permits (xs_memory s) = Some free \<Longrightarrow>
        free = ml_limit_units (xs_memory s) \<and> 1 \<le> ml_limit_units (xs_memory s)" for free
      using loop_permitsD(4) [OF inv, of free] unfolding posts by (metis add_0_right list.map(1) sum_list.Nil)
    have "limiter_acquire (xs_memory s) b \<noteq> None" for b
      using free limiter_units_le [of "xs_memory s" b] by (auto simp: limiter_acquire_def Let_def split: option.split)
    moreover from memory(1,2) at obtain i where "download_at i s = Some WaitMemory" by metis
    ultimately show ?thesis
      by (intro exI [of _ "TakeMemory i"]) (auto simp: Let_def split: option.splits)
  next
    case (backlog e)
    have "(\<Sum>d\<leftarrow>xs_downloads s. backlog_held (dj_phase d)) = 0"
      using backlog(3) by (intro sum_list_zeroI) auto
    then have "0 < xs_backlog s" using loop_permitsD(2) [OF inv] concurrency_pos(1) unfolding posts by (metis add_0_right list.map(1) sum_list.Nil)
    moreover from backlog(1,2) at obtain i where "download_at i s = Some WaitBacklog" by metis
    ultimately show ?thesis by (intro exI [of _ "TakeBacklog i"]) simp
  next
    case slot
    have "(\<Sum>d\<leftarrow>xs_downloads s. slot_held (dj_phase d)) = 0"
      using slot by (intro sum_list_zeroI) auto
    then have "0 < xs_slots s" using loop_permitsD(1) [OF inv] concurrency_pos(2) by (metis add_0_right)
    moreover from slot d at obtain i where "download_at i s = Some WaitSlot" by metis
    ultimately show ?thesis by (intro exI [of _ "TakeSlot i"]) simp
  qed
qed

lemma action_enabled:
  assumes "loop_permits env s" and "\<not> loop_over s"
  shows "\<exists>a. a \<noteq> RaiseCancel \<and> exec_apply env ctx wr rp a s \<noteq> None"
proof (cases "xs_posts s = []")
  case True
  with assms(2) obtain d where "d \<in> set (xs_downloads s)" by (cases "xs_downloads s") (auto simp: loop_over_def)
  with True show ?thesis using action_enabled_download [OF assms(1)] by blast
qed (use action_enabled_post [OF assms(1)] in blast)

section \<open>Lemmas: termination\<close>

fun download_rank :: "download_phase \<Rightarrow> nat" where
  "download_rank WaitSlot = 8" | "download_rank WaitBacklog = 7" | "download_rank WaitMemory = 6"
| "download_rank (Downloading _) = 5" | "download_rank (DownloadDone _) = 4"

fun post_rank :: "post_phase \<Rightarrow> nat" where
  "post_rank WaitPost = 3" | "post_rank PostRunning = 2" | "post_rank (PostDone _) = 1"

definition loop_measure :: "'h exec_state \<Rightarrow> nat" where
  "loop_measure s = 8 * length (xs_pending s) + (\<Sum>d\<leftarrow>xs_downloads s. download_rank (dj_phase d)) +
     (\<Sum>p\<leftarrow>xs_posts s. post_rank (pr_phase p)) + (if xs_cancelled s then 0 else 1)"

lemma measure_set_download:
  assumes "download_at i s = Some ph0" and "download_rank ph < download_rank ph0"
    and "xs_pending s' = xs_pending s" "xs_downloads s' = xs_downloads s" "xs_posts s' = xs_posts s"
      "xs_cancelled s' = xs_cancelled s"
  shows "loop_measure (set_download i ph s') < loop_measure s"
proof -
  have "download_at i s' = Some ph0" using assms(1,4) by (simp add: download_at_def split: if_splits)
  from download_sums [OF this, of download_rank ph] assms show ?thesis
    by (simp add: loop_measure_def)
qed

lemma measure_set_post:
  assumes "post_at i s = Some ph0" and "post_rank ph < post_rank ph0"
    and "xs_pending s' = xs_pending s" "xs_downloads s' = xs_downloads s" "xs_posts s' = xs_posts s"
      "xs_cancelled s' = xs_cancelled s"
  shows "loop_measure (set_post i ph s') < loop_measure s"
proof -
  have at: "post_at i s' = Some ph0" and ph: "pr_phase (xs_posts s ! i) = ph0"
    using assms(1,5) by (simp_all add: post_at_def split: if_splits)
  from post_sums [OF at, of "\<lambda>p. post_rank (pr_phase p)" ph] assms ph show ?thesis
    by (simp add: loop_measure_def)
qed

lemma measure_xs_send [simp]: "loop_measure (xs_send u s) = loop_measure s"
  by (simp add: loop_measure_def)

lemma measure_spawn_next: "loop_measure (spawn_next s) = loop_measure s"
  by (simp add: loop_measure_def spawn_next_def spawn_bundle_download_job_def split: list.split)

lemma measure_JoinDownload:
  assumes "download_at i s = Some (DownloadDone r)"
  shows "loop_measure (join_download i r s) < loop_measure s"
proof -
  have "loop_measure (join_download i r s) =
      loop_measure (case r of
          Inr (job, permit) \<Rightarrow> s\<lparr>xs_downloads := remove_nth i (xs_downloads s),
            xs_posts := xs_posts s @ [\<lparr>pr_job = job, pr_memory = permit, pr_phase = WaitPost\<rparr>]\<rparr>
        | Inl e \<Rightarrow> s\<lparr>xs_downloads := remove_nth i (xs_downloads s)\<rparr>)"
    by (simp add: join_download_def Let_def measure_spawn_next split: sum.split prod.split) (simp add: loop_measure_def)
  with remove_download_sums [OF assms, of download_rank] show ?thesis
    by (auto simp: loop_measure_def split: sum.split)
qed

lemma measure_JoinPost:
  assumes "post_at i s = Some (PostDone r)"
  shows "loop_measure (join_post env rp i r s) < loop_measure s"
proof -
  have "i < length (xs_posts s)" "pr_phase (xs_posts s ! i) = PostDone r"
    using assms by (simp_all add: post_at_def split: if_splits)
  with sum_list_remove_nth [of i "xs_posts s" "\<lambda>p. post_rank (pr_phase p)"] show ?thesis
    by (auto simp: join_post_def Let_def loop_measure_def split: sum.split)
qed

lemma measure_step:
  assumes "exec_apply env ctx wr rp a s = Some s'"
  shows "loop_measure s' < loop_measure s"
proof (cases a)
  case (TakeSlot i)
  then have at: "download_at i s = Some WaitSlot" using assms by (simp split: if_splits)
  from TakeSlot assms show ?thesis
    by (auto split: if_splits simp: measure_set_download [OF at])
next
  case (TakeBacklog i)
  then have at: "download_at i s = Some WaitBacklog" using assms by (simp split: if_splits)
  from TakeBacklog assms show ?thesis by (auto split: if_splits simp: measure_set_download [OF at])
next
  case (TakeMemory i)
  then have at: "download_at i s = Some WaitMemory" using assms by (simp split: if_splits)
  from TakeMemory assms show ?thesis
    by (auto simp: Let_def measure_set_download [OF at] split: if_splits option.splits)
next
  case (EndDownload i)
  then obtain permit where at: "download_at i s = Some (Downloading permit)" and s': "s' = end_download env ctx wr i permit s"
    using assms by (auto split: option.splits download_phase.splits)
  show ?thesis unfolding s' end_download_def Let_def
    by (simp split: prod.split sum.split add: measure_set_download [OF at])
next
  case (JoinDownload i)
  then show ?thesis using assms measure_JoinDownload by (auto split: option.splits download_phase.splits)
next
  case (TakePost i)
  then have at: "post_at i s = Some WaitPost" using assms by (simp split: if_splits)
  from TakePost assms show ?thesis by (auto split: if_splits simp: measure_set_post [OF at])
next
  case (EndPost i)
  then have at: "post_at i s = Some PostRunning" using assms by (simp split: if_splits)
  from EndPost assms show ?thesis
    by (auto simp: end_post_def Let_def measure_set_post [OF at] split: if_splits prod.splits)
next
  case (JoinPost i)
  then show ?thesis using assms measure_JoinPost by (auto split: option.splits post_phase.splits)
next
  case RaiseCancel
  then show ?thesis using assms by (auto simp: loop_measure_def split: if_splits)
qed

section \<open>Lemmas: accounting\<close>

definition task_id :: "download_task \<Rightarrow> string \<times> string" where
  "task_id t = (dt_bundle_path t, dt_bundle_hash t)"

definition job_id :: "post_job \<Rightarrow> string \<times> string" where
  "job_id j = (pj_bundle_path j, pj_bundle_hash j)"

lemma exported_job_id:
  "download_and_export_bundle_payloads env ctx wr task w = (Inr job, w') \<Longrightarrow> job_id job = task_id task"
  by (auto simp: download_and_export_bundle_payloads_def job_id_def task_id_def Let_def res_simps split_beta)

definition job_matches :: "download_job \<Rightarrow> bool" where
  "job_matches d \<longleftrightarrow> (\<forall>job p. dj_phase d = DownloadDone (Inr (job, p)) \<longrightarrow> job_id job = task_id (dj_task d))"

text \<open>Where each task is: recorded, failed, in post-processing, in download, or not begun.\<close>

definition accounted :: "'h exec_state \<Rightarrow> string multiset" where
  "accounted s = mset (map fst (xs_done s)) + mset (xs_bad s) + mset (map (\<lambda>p. fst (job_id (pr_job p))) (xs_posts s)) +
     mset (map (\<lambda>d. dt_bundle_path (dj_task d)) (xs_downloads s)) + mset (map dt_bundle_path (xs_pending s))"

definition account_inv :: "download_task list \<Rightarrow> download_record \<Rightarrow> 'h exec_state \<Rightarrow> bool" where
  "account_inv tasks downloaded s \<longleftrightarrow>
     (xs_result s = None \<longrightarrow> accounted s = mset (map dt_bundle_path tasks)) \<and>
     xs_result s \<in> {None, Some Cancelled} \<and>
     xs_completed s = length (xs_done s) \<and> xs_failed s = length (xs_bad s) \<and>
     xs_record s = fold (\<lambda>(p, h). bt_insert p h) (xs_done s) downloaded \<and>
     set (xs_done s) \<subseteq> task_id ` set tasks \<and> (\<forall>p\<in>set (xs_posts s). job_id (pr_job p) \<in> task_id ` set tasks) \<and>
     (\<forall>d\<in>set (xs_downloads s). dj_task d \<in> set tasks \<and> job_matches d) \<and> set (xs_pending s) \<subseteq> set tasks"

lemma account_start: "account_inv tasks downloaded (start_loop env tasks downloaded c w)"
proof -
  have "mset (map dt_bundle_path (take n tasks)) + mset (map dt_bundle_path (drop n tasks)) = mset (map dt_bundle_path tasks)" for n
    by (metis append_take_drop_id map_append mset_append)
  then show ?thesis
    by (auto simp: account_inv_def accounted_def start_loop_def Let_def spawn_bundle_download_job_def job_matches_def
        comp_def dest: in_set_takeD in_set_dropD)
qed

lemma account_xs_send [simp]: "account_inv tasks downloaded (xs_send u s) = account_inv tasks downloaded s"
  by (simp add: account_inv_def accounted_def)

text \<open>Changing a phase changes no account.\<close>

lemma account_set_download:
  assumes inv: "account_inv tasks downloaded s" and i: "i < length (xs_downloads s)"
    and ph: "\<forall>job p. ph = DownloadDone (Inr (job, p)) \<longrightarrow> job_id job = task_id (dj_task (xs_downloads s ! i))"
    and rest: "xs_downloads s' = xs_downloads s" "xs_pending s' = xs_pending s" "xs_posts s' = xs_posts s"
      "xs_done s' = xs_done s" "xs_bad s' = xs_bad s" "xs_result s' = xs_result s" "xs_completed s' = xs_completed s"
      "xs_failed s' = xs_failed s" "xs_record s' = xs_record s"
  shows "account_inv tasks downloaded (set_download i ph s')"
proof -
  let ?d = "(xs_downloads s ! i)\<lparr>dj_phase := ph\<rparr>"
  have paths: "map (\<lambda>d. dt_bundle_path (dj_task d)) ((xs_downloads s)[i := ?d]) =
      map (\<lambda>d. dt_bundle_path (dj_task d)) (xs_downloads s)"
    by (rule map_update_same [OF i]) simp
  have "dj_task ?d \<in> set tasks \<and> job_matches ?d"
    using inv i ph by (auto simp: account_inv_def job_matches_def)
  then have "\<forall>d\<in>set ((xs_downloads s)[i := ?d]). dj_task d \<in> set tasks \<and> job_matches d"
    using inv by (auto simp: account_inv_def dest!: set_update_subset_insert [THEN subsetD])
  then show ?thesis
    using inv rest by (simp add: account_inv_def accounted_def set_download_def paths)
qed

lemma account_set_post:
  assumes inv: "account_inv tasks downloaded s" and i: "i < length (xs_posts s)"
    and rest: "xs_downloads s' = xs_downloads s" "xs_pending s' = xs_pending s" "xs_posts s' = xs_posts s"
      "xs_done s' = xs_done s" "xs_bad s' = xs_bad s" "xs_result s' = xs_result s" "xs_completed s' = xs_completed s"
      "xs_failed s' = xs_failed s" "xs_record s' = xs_record s"
  shows "account_inv tasks downloaded (set_post i ph s')"
proof -
  let ?p = "(xs_posts s ! i)\<lparr>pr_phase := ph\<rparr>"
  have jobs: "map (\<lambda>p. fst (job_id (pr_job p))) ((xs_posts s)[i := ?p]) = map (\<lambda>p. fst (job_id (pr_job p))) (xs_posts s)"
    by (rule map_update_same [OF i]) simp
  have "\<forall>p\<in>set ((xs_posts s)[i := ?p]). job_id (pr_job p) \<in> task_id ` set tasks"
    using inv i by (auto simp: account_inv_def dest!: set_update_subset_insert [THEN subsetD])
  then show ?thesis
    using inv rest by (simp add: account_inv_def accounted_def set_post_def jobs)
qed

lemma account_spawn_next:
  "account_inv tasks downloaded s \<Longrightarrow> account_inv tasks downloaded (spawn_next s)"
  by (auto simp: account_inv_def accounted_def spawn_next_def spawn_bundle_download_job_def job_matches_def split: list.split)

lemma account_join_download:
  assumes inv: "account_inv tasks downloaded s" and at: "download_at i s = Some (DownloadDone r)" and "xs_result s = None"
  shows "account_inv tasks downloaded (join_download i r s)"
proof -
  have i: "i < length (xs_downloads s)" and ph: "dj_phase (xs_downloads s ! i) = DownloadDone r"
    using at by (simp_all add: download_at_def split: if_splits)
  have d: "xs_downloads s ! i \<in> set (xs_downloads s)" using i by simp
  have paths: "mset (map (\<lambda>d. dt_bundle_path (dj_task d)) (xs_downloads s)) =
      add_mset (dt_bundle_path (dj_task (xs_downloads s ! i))) (mset (map (\<lambda>d. dt_bundle_path (dj_task d)) (remove_nth i (xs_downloads s))))"
    using mset_remove_nth [of i "map (\<lambda>d. dt_bundle_path (dj_task d)) (xs_downloads s)"] i by (simp only: length_map nth_map map_remove_nth)
  have job: "job_id job = task_id (dj_task (xs_downloads s ! i)) \<and> dj_task (xs_downloads s ! i) \<in> set tasks"
    if "r = Inr (job, p)" for job p
    using inv d ph that by (auto simp: account_inv_def job_matches_def)
  define s2 where "s2 = (case r of
      Inr (job, permit) \<Rightarrow> xs_send (PuSchedulerTelemetry (Some (pj_bundle_path job)))
        (s\<lparr>xs_downloads := remove_nth i (xs_downloads s),
           xs_posts := xs_posts s @ [\<lparr>pr_job = job, pr_memory = permit, pr_phase = WaitPost\<rparr>]\<rparr>)
    | Inl e \<Rightarrow> bundle_failed (dt_bundle_path (dj_task (xs_downloads s ! i))) e (s\<lparr>xs_downloads := remove_nth i (xs_downloads s)\<rparr>))"
  have s': "join_download i r s = (if xs_result s2 = None then spawn_next s2 else s2)"
    by (cases r) (simp_all add: join_download_def s2_def Let_def split_beta)
  have "account_inv tasks downloaded s2"
  proof (cases r)
    case (Inl e)
    then show ?thesis
      using inv paths assms(3) set_remove_nth [of i "xs_downloads s"]
      by (auto simp: account_inv_def accounted_def s2_def)
  next
    case (Inr jp)
    obtain jb p where jp: "jp = (jb, p)" by fastforce
    with Inr job [of jb p] have "job_id jb = task_id (dj_task (xs_downloads s ! i))" "dj_task (xs_downloads s ! i) \<in> set tasks"
      by auto
    then show ?thesis
      using inv paths assms(3) set_remove_nth [of i "xs_downloads s"] Inr jp
      by (auto simp: account_inv_def accounted_def task_id_def s2_def)
  qed
  then show ?thesis by (simp add: s' account_spawn_next)
qed

lemma account_join_post:
  assumes inv: "account_inv tasks downloaded s" and at: "post_at i s = Some (PostDone r)" and "xs_result s = None"
  shows "account_inv tasks downloaded (join_post env rp i r s)"
proof -
  have i: "i < length (xs_posts s)" using at by (simp add: post_at_def split: if_splits)
  have p: "xs_posts s ! i \<in> set (xs_posts s)" using i by simp
  have jobs: "mset (map (\<lambda>p. fst (job_id (pr_job p))) (xs_posts s)) =
      add_mset (fst (job_id (pr_job (xs_posts s ! i)))) (mset (map (\<lambda>p. fst (job_id (pr_job p))) (remove_nth i (xs_posts s))))"
    using mset_remove_nth [of i "map (\<lambda>p. fst (job_id (pr_job p))) (xs_posts s)"] i by (simp only: length_map nth_map map_remove_nth)
  have id: "(pj_bundle_path (pr_job (xs_posts s ! i)), pj_bundle_hash (pr_job (xs_posts s ! i))) \<in> task_id ` set tasks"
    using inv p by (auto simp: account_inv_def job_id_def)
  have fst_id: "fst (job_id j) = pj_bundle_path j" for j by (simp add: job_id_def)
  show ?thesis
  proof (cases r)
    case (Inl e)
    then show ?thesis
      using inv jobs assms(3) set_remove_nth [of i "xs_posts s"]
      by (auto simp: join_post_def Let_def account_inv_def accounted_def fst_id)
  next
    case (Inr u)
    then show ?thesis
      using inv jobs assms(3) set_remove_nth [of i "xs_posts s"] id
      by (auto simp: join_post_def Let_def account_inv_def accounted_def fst_id)
  qed
qed

lemma account_step:
  assumes inv: "account_inv tasks downloaded s" and running: "xs_result s = None"
    and step: "exec_apply env ctx wr rp a s = Some s'"
  shows "account_inv tasks downloaded s'"
proof -
  have down: "i < length (xs_downloads s)" if "download_at i s = Some ph" for i ph
    using that by (simp add: download_at_def split: if_splits)
  have post: "i < length (xs_posts s)" if "post_at i s = Some ph" for i ph
    using that by (simp add: post_at_def split: if_splits)
  note sd = account_set_download [OF inv down] and sp = account_set_post [OF inv post]
  show ?thesis
  proof (cases a)
    case (TakeSlot i)
    with step have at: "download_at i s = Some WaitSlot" by (simp split: if_splits)
    with TakeSlot step show ?thesis by (auto split: if_splits simp: sd [OF at])
  next
    case (TakeBacklog i)
    with step have at: "download_at i s = Some WaitBacklog" by (simp split: if_splits)
    with TakeBacklog step show ?thesis by (auto split: if_splits simp: sd [OF at])
  next
    case (TakeMemory i)
    with step have at: "download_at i s = Some WaitMemory" by (simp split: if_splits)
    with TakeMemory step show ?thesis by (auto split: if_splits option.splits simp: Let_def sd [OF at])
  next
    case (EndDownload i)
    then obtain permit where at: "download_at i s = Some (Downloading permit)" and s': "s' = end_download env ctx wr i permit s"
      using step by (auto split: option.splits download_phase.splits)
    show ?thesis unfolding s' end_download_def Let_def
      by (auto split: prod.split sum.split simp: exported_job_id intro!: sd [OF at])
  next
    case (JoinDownload i)
    then show ?thesis using step account_join_download [OF inv _ running] by (auto split: option.splits download_phase.splits)
  next
    case (TakePost i)
    with step have at: "post_at i s = Some WaitPost" by (simp split: if_splits)
    with TakePost step show ?thesis by (auto split: if_splits simp: sp [OF at])
  next
    case (EndPost i)
    with step have at: "post_at i s = Some PostRunning" by (simp split: if_splits)
    with EndPost step show ?thesis by (auto simp: end_post_def Let_def sp [OF at] split: if_splits prod.splits)
  next
    case (JoinPost i)
    then show ?thesis using step account_join_post [OF inv _ running] by (auto split: option.splits post_phase.splits)
  next
    case RaiseCancel
    then show ?thesis using step inv by (auto simp: account_inv_def accounted_def split: if_splits)
  qed
qed

text \<open>Both invariants along a run.\<close>

lemma run_invariants:
  assumes "exec_run env ctx wr rp as s = Some s'" and "loop_permits env s" and "account_inv tasks downloaded s"
  shows "loop_permits env s' \<and> account_inv tasks downloaded s' \<and> length as + loop_measure s' \<le> loop_measure s"
  using assms
proof (induction as arbitrary: s)
  case Nil
  then show ?case by simp
next
  case (Cons a as)
  then obtain s1 where s1: "\<not> loop_over s" "exec_apply env ctx wr rp a s = Some s1" "exec_run env ctx wr rp as s1 = Some s'"
    by (auto split: if_splits option.splits)
  have "xs_result s = None" using s1(1) by (simp add: loop_over_def)
  with Cons.IH [OF s1(3) permits_step [OF Cons.prems(2) s1(2)] account_step [OF Cons.prems(3) _ s1(2)]]
    measure_step [OF s1(2)] show ?case by simp
qed

lemma exec_run_append:
  "exec_run env ctx wr rp (as @ bs) s =
     (case exec_run env ctx wr rp as s of None \<Rightarrow> None | Some s1 \<Rightarrow> exec_run env ctx wr rp bs s1)"
  by (induction as arbitrary: s) (auto split: option.split)

lemma run_to_the_end:
  assumes "loop_permits env s"
  shows "\<exists>as s'. exec_run env ctx wr rp as s = Some s' \<and> loop_over s' \<and> RaiseCancel \<notin> set as"
  using assms
proof (induction "loop_measure s" arbitrary: s rule: less_induct)
  case less
  show ?case
  proof (cases "loop_over s")
    case True
    then show ?thesis by (intro exI [of _ "[]"]) simp
  next
    case False
    with action_enabled [OF less.prems] obtain a s1 where a: "a \<noteq> RaiseCancel" "exec_apply env ctx wr rp a s = Some s1"
      by blast
    from less.hyps [OF measure_step [OF a(2)] permits_step [OF less.prems a(2)]]
    obtain as s' where "exec_run env ctx wr rp as s1 = Some s'" "loop_over s'" "RaiseCancel \<notin> set as" by blast
    with False a show ?thesis by (intro exI [of _ "a # as"] exI [of _ s']) simp
  qed
qed

lemma start_measure: "loop_measure (start_loop env tasks downloaded c w) \<le> 8 * length tasks + 1"
proof -
  have "(\<Sum>d\<leftarrow>map spawn_bundle_download_job ts. download_rank (dj_phase d)) = 8 * length ts" for ts
    by (induction ts) (auto simp: spawn_bundle_download_job_def)
  then show ?thesis by (auto simp: loop_measure_def start_loop_def Let_def comp_def min_def)
qed

lemma start_run:
  assumes "exec_run env ctx wr rp as (start_loop env tasks downloaded c w) = Some s"
  shows "loop_permits env s \<and> account_inv tasks downloaded s \<and> length as \<le> 8 * length tasks + 1"
  using run_invariants [OF assms permits_start account_start] start_measure [of env tasks downloaded c w] by linarith

text \<open>As long as tasks wait to be spawned, some download is under way.\<close>

definition supplied :: "'h exec_state \<Rightarrow> bool" where
  "supplied s \<longleftrightarrow> (xs_result s = None \<and> xs_pending s \<noteq> [] \<longrightarrow> xs_downloads s \<noteq> [])"

lemma supplied_spawn: "supplied (spawn_next s)"
  by (auto simp: supplied_def spawn_next_def split: list.split)

lemma supplied_keep:
  assumes "supplied s" and "xs_pending s' = xs_pending s" and "length (xs_downloads s') = length (xs_downloads s)"
    and "xs_result s = None"
  shows "supplied s'"
  using assms by (auto simp: supplied_def)

lemma supplied_step:
  assumes "supplied s" and "xs_result s = None" and "exec_apply env ctx wr rp a s = Some s'"
  shows "supplied s'"
proof (cases "\<exists>i. a = JoinDownload i")
  case True
  then obtain i r where "s' = join_download i r s"
    using assms(3) by (auto split: option.splits download_phase.splits)
  then show ?thesis by (auto simp: join_download_def Let_def supplied_spawn) (simp_all add: supplied_def)
next
  case False
  have "xs_pending s' = xs_pending s \<and> length (xs_downloads s') = length (xs_downloads s)"
    using False assms(3)
    by (cases a) (auto simp: end_download_def end_post_def join_post_def Let_def
        split: if_splits option.splits download_phase.splits post_phase.splits prod.splits sum.splits)
  then show ?thesis using supplied_keep assms(1,2) by blast
qed

lemma supplied_run:
  "exec_run env ctx wr rp as s = Some s' \<Longrightarrow> supplied s \<Longrightarrow> supplied s'"
  by (induction as arbitrary: s) (auto simp: loop_over_def split: if_splits option.splits dest: supplied_step)

lemma supplied_start: "supplied (start_loop env tasks downloaded c w)"
  by (auto simp: supplied_def start_loop_def Let_def download_concurrency_def)

lemma loop_end_accounts:
  assumes "exec_run env ctx wr rp as (start_loop env tasks downloaded c w) = Some s" and "loop_over s" and "xs_result s = None"
  shows "mset (map fst (xs_done s)) + mset (xs_bad s) = mset (map dt_bundle_path tasks) \<and>
    xs_completed s + xs_failed s = length tasks"
proof -
  have inv: "account_inv tasks downloaded s" using start_run [OF assms(1)] by blast
  have "xs_pending s = [] \<and> xs_downloads s = [] \<and> xs_posts s = []"
    using supplied_run [OF assms(1) supplied_start] assms(2,3) by (auto simp: supplied_def loop_over_def)
  then have "mset (map fst (xs_done s)) + mset (xs_bad s) = mset (map dt_bundle_path tasks)"
    using inv assms(3) by (simp add: account_inv_def accounted_def)
  moreover from this have "xs_completed s + xs_failed s = length tasks"
    using inv by (metis account_inv_def length_map size_mset size_union)
  ultimately show ?thesis by blast
qed

section \<open>Lemmas: planning again\<close>

lemma record_after_get:
  "map_of (fold (\<lambda>(p, h). bt_insert p h) done m) p =
     (case map_of (rev done) p of Some h \<Rightarrow> Some h | None \<Rightarrow> map_of m p)"
  by (induction "done" arbitrary: m) (auto simp: map_add_def split: option.splits)

lemma record_after_wf: "btmap_wf m \<Longrightarrow> btmap_wf (fold (\<lambda>(p, h). bt_insert p h) done m)"
  by (induction "done" arbitrary: m) auto

lemma planned_task:
  "t \<in> set (build_download_tasks regex region info m) \<longleftrightarrow>
     (\<exists>name detail. (name, detail) \<in> set (bi_bundles info) \<and> wanted regex region m name detail \<and>
        t = the (download_task_for regex region m (name, detail)))"
  using download_task_for_Some by (fastforce simp: in_download_tasks)

lemma task_for_record_independent:
  assumes "wanted regex region m name detail" "wanted regex region m' name detail"
  shows "download_task_for regex region m (name, detail) = download_task_for regex region m' (name, detail)"
  using assms by (auto simp: wanted_def download_task_for_def Let_def split: asset_category.splits option.splits)

lemma recorded_ids:
  assumes wf: "info_wf info" and tasks: "set tasks \<subseteq> set (build_download_tasks regex region info m)"
    and d: "(p, h) \<in> task_id ` set tasks" and detail: "(p, detail) \<in> set (bi_bundles info)"
  shows "h = provider_bundle_hash (rg_provider region) detail"
proof -
  obtain t where t: "t \<in> set tasks" "dt_bundle_path t = p" "dt_bundle_hash t = h"
    using d by (auto simp: task_id_def)
  then obtain name detail' where e: "(name, detail') \<in> set (bi_bundles info)"
    "download_task_for regex region m (name, detail') = Some t"
    using tasks in_download_tasks [of t regex region info m] by fastforce
  with t have "name = p" "h = provider_bundle_hash (rg_provider region) detail'"
    by (auto dest: download_task_for_fields)
  moreover from this e(1) detail wf have "detail' = detail"
    by (auto simp: info_wf_def hmap_wf_def dest: eq_key_imp_eq_value)
  ultimately show ?thesis by simp
qed

lemma wanted_after:
  assumes wf: "info_wf info" and tasks: "set tasks \<subseteq> set (build_download_tasks regex region info m)"
    and dn: "set done \<subseteq> task_id ` set tasks" and detail: "(name, detail) \<in> set (bi_bundles info)"
  shows "wanted regex region (fold (\<lambda>(p, h). bt_insert p h) done m) name detail \<longleftrightarrow>
     wanted regex region m name detail \<and> name \<notin> fst ` set done"
proof (cases "map_of (rev done) name")
  case None
  then have "name \<notin> fst ` set done" by (simp add: map_of_eq_None_iff)
  with None show ?thesis by (simp add: wanted_def record_after_get)
next
  case (Some h)
  then have mem: "(name, h) \<in> set done" by (metis map_of_SomeD set_rev)
  with dn have "(name, h) \<in> task_id ` set tasks" by blast
  from recorded_ids [OF wf tasks this detail] have "h = provider_bundle_hash (rg_provider region) detail" .
  with Some mem show ?thesis by (force simp: wanted_def record_after_get)
qed

lemma planned_again:
  assumes "info_wf info" and "set tasks \<subseteq> set (build_download_tasks regex region info m)"
    and "set done \<subseteq> task_id ` set tasks"
  shows "t \<in> set (build_download_tasks regex region info (fold (\<lambda>(p, h). bt_insert p h) done m)) \<longleftrightarrow>
     t \<in> set (build_download_tasks regex region info m) \<and> dt_bundle_path t \<notin> fst ` set done"
proof -
  let ?m = "fold (\<lambda>(p, h). bt_insert p h) done m"
  have name: "dt_bundle_path (the (download_task_for regex region m' (name, detail))) = name"
    if "wanted regex region m' name detail" for name detail m'
    using that download_task_for_Some [of regex region m' name detail] by (auto dest: download_task_for_fields(1))
  show ?thesis
    unfolding planned_task using wanted_after [OF assms] name task_for_record_independent
    by (smt (verit, best))
qed

lemma filter_le_sum:
  assumes "\<And>x. P x \<Longrightarrow> 1 \<le> f x"
  shows "length (filter P xs) \<le> (sum_list (map f xs) :: nat)"
proof (induction xs)
  case (Cons a xs)
  with assms [of a] show ?case by (cases "P a") simp_all
qed simp

lemma finish_saves_record:
  assumes "finish_execution env flag rp discovered queued s = (Inr summary, w')"
  shows "save_download_record (xe_json env) rp (xs_record s) (xw_fs (xs_world s)) = (Inr (), xw_fs w') \<and>
     es_completed_downloads summary = xs_completed s \<and> es_failed_downloads summary = xs_failed s \<and>
     es_queued_downloads summary = queued"
  using assms
  by (auto simp: finish_execution_def save_download_record_on_blocking_thread_def on_fs_def on_http_def send_progress_def
      Let_def res_simps split: prod.splits)

lemma new_context_fields:
  "new_context ch cp b config name region request = Inr ctx \<Longrightarrow>
     ec_region ctx = region \<and> ec_resolved_profile ctx = None \<and> ec_resolved_assetbundle_host_hash ctx = None"
  by (auto simp: new_context_def split: sum.splits)

lemma cookies_keep:
  "on_http (fetch_runtime_cookies http ctx) w = (Inr ctx1, w') \<Longrightarrow>
     ec_region ctx1 = ec_region ctx \<and> ec_resolved_profile ctx1 = ec_resolved_profile ctx \<and>
     ec_resolved_assetbundle_host_hash ctx1 = ec_resolved_assetbundle_host_hash ctx"
  by (auto simp: on_http_def split: prod.splits dest: cookies_context)

lemma no_profile_hash_no_info:
  assumes "rg_provider (ec_region ctx) = ColorfulPalette c" and "map_of (cp_profile_hashes c) (cp_profile c) = None"
    and "ec_resolved_profile ctx = None" and "ec_resolved_assetbundle_host_hash ctx = None"
  shows "on_http (fetch_asset_bundle_info http crypto unpack ctx) w \<noteq> (Inr r, w')"
  using assms
  by (auto simp: on_http_def fetch_asset_bundle_info_def render_asset_info_url_def palette_values_def Let_def
      split: prod.splits option.splits)

section \<open>Properties\<close>

text \<open>C27: the limits of the scheduler. In every state that can be reached, whatever the order in which
  tasks progress, at most \<open>download_concurrency\<close> bundles are being downloaded, at most
  \<open>post_process_concurrency\<close> are being post-processed, at most so many are exported and not yet
  post-processed (these also count the ones under way), and the bundles held in memory take no more
  units than the limiter has.\<close>

theorem executor_limits_hold:
  assumes "exec_run env ctx work_root record_path as (start_loop env tasks downloaded c w) = Some s"
  shows "length (filter (\<lambda>d. \<exists>m. dj_phase d = Downloading m) (xs_downloads s)) \<le> download_concurrency (xe_concurrency env) \<and>
    length (filter (\<lambda>p. pr_phase p = PostRunning) (xs_posts s)) \<le> post_process_concurrency (xe_concurrency env) \<and>
    length (filter (\<lambda>d. \<exists>r. dj_phase d = DownloadDone (Inr r)) (xs_downloads s)) +
      length (filter (\<lambda>p. \<forall>r. pr_phase p \<noteq> PostDone r) (xs_posts s)) \<le> post_process_concurrency (xe_concurrency env) \<and>
    (ml_permits (limiter_from_config (xe_config env)) \<noteq> None \<longrightarrow>
      (\<Sum>d\<leftarrow>xs_downloads s. memory_held (dj_phase d)) + (\<Sum>p\<leftarrow>xs_posts s. post_memory p) \<le>
        ml_limit_units (limiter_from_config (xe_config env)))"
proof -
  have inv: "loop_permits env s" using start_run [OF assms] by blast
  have "length (filter (\<lambda>d. \<exists>m. dj_phase d = Downloading m) (xs_downloads s)) \<le> (\<Sum>d\<leftarrow>xs_downloads s. slot_held (dj_phase d))"
    "length (filter (\<lambda>p. pr_phase p = PostRunning) (xs_posts s)) \<le> (\<Sum>p\<leftarrow>xs_posts s. post_held (pr_phase p))"
    "length (filter (\<lambda>d. \<exists>r. dj_phase d = DownloadDone (Inr r)) (xs_downloads s)) \<le> (\<Sum>d\<leftarrow>xs_downloads s. backlog_held (dj_phase d))"
    by (rule filter_le_sum; auto)+
  moreover have "length (filter (\<lambda>p. \<forall>r. pr_phase p \<noteq> PostDone r) (xs_posts s)) \<le> (\<Sum>p\<leftarrow>xs_posts s. post_unfinished (pr_phase p))"
  proof (rule filter_le_sum)
    fix p :: post_run
    assume "\<forall>r. pr_phase p \<noteq> PostDone r"
    then show "1 \<le> post_unfinished (pr_phase p)" by (cases "pr_phase p") simp_all
  qed
  moreover have "(\<Sum>d\<leftarrow>xs_downloads s. memory_held (dj_phase d)) + (\<Sum>p\<leftarrow>xs_posts s. post_memory p) \<le>
      ml_limit_units (limiter_from_config (xe_config env))" if "ml_permits (limiter_from_config (xe_config env)) \<noteq> None"
  proof (cases "ml_permits (xs_memory s)")
    case None
    then show ?thesis using that inv by (simp add: loop_permits_def)
  next
    case (Some free)
    then show ?thesis
      using loop_permitsD(4) [OF inv Some] loop_permitsD(5) [OF inv] by linarith
  qed
  ultimately show ?thesis using loop_permitsD(1-3) [OF inv] by linarith
qed

text \<open>C4: the scheduler never gets stuck and always ends. Whatever happened so far, it can go on to the
  end without a cancellation, and no run takes more than eight actions per task, one more with the
  cancellation. The semaphores cannot deadlock because a task asks for slot, backlog and memory in
  this order, a task in post-processing asks for nothing it does not already hold but its own
  permit, and no bundle asks for more memory than there is.\<close>

theorem executor_always_finishes:
  assumes "exec_run env ctx work_root record_path as (start_loop env tasks downloaded c w) = Some s"
  shows "length as \<le> 8 * length tasks + 1 \<and>
    (\<exists>bs s'. exec_run env ctx work_root record_path (as @ bs) (start_loop env tasks downloaded c w) = Some s' \<and>
       loop_over s' \<and> RaiseCancel \<notin> set bs)"
  using start_run [OF assms] run_to_the_end [of env s ctx work_root record_path] assms
  by (auto simp: exec_run_append)

text \<open>C3: nothing is lost. When the loop is over without a cancellation every task was either recorded or
  counted as failed, exactly once; the counters of the summary are these numbers; and the record
  maps the bundles that were completed to their hashes and everything else as before. The only error
  the loop itself returns is the cancellation.\<close>

theorem executor_accounts_for_every_task:
  assumes "exec_run env ctx work_root record_path as (start_loop env tasks downloaded c w) = Some s" and "loop_over s"
  shows "(case xs_result s of
      Some e \<Rightarrow> e = Cancelled
    | None \<Rightarrow> mset (map fst (xs_done s)) + mset (xs_bad s) = mset (map dt_bundle_path tasks) \<and>
        xs_completed s + xs_failed s = length tasks) \<and>
    set (xs_done s) \<subseteq> task_id ` set tasks \<and>
    (\<forall>p. map_of (xs_record s) p =
       (case map_of (rev (xs_done s)) p of Some h \<Rightarrow> Some h | None \<Rightarrow> map_of downloaded p))"
proof -
  have inv: "account_inv tasks downloaded s" using start_run [OF assms(1)] by blast
  then show ?thesis
    using loop_end_accounts [OF assms] by (auto simp: account_inv_def record_after_get split: option.split)
qed

text \<open>C24: what a later run does. After an execution that succeeded the record file holds the record of the
  loop, and planning from it with the same bundle list gives exactly the tasks planned before less
  the completed ones: a completed bundle is not downloaded again and a failed one is.\<close>

theorem completed_bundles_not_planned_again:
  assumes "exec_run env ctx work_root record_path as (start_loop env tasks downloaded c w) = Some s"
    and "finish_execution env flag record_path discovered queued s = (Inr summary, w')"
    and "record_json_faithful (xe_json env)" and "btmap_wf downloaded" and "fs_fails (OpRead record_path) (xw_fs w') = None"
    and "info_wf info" and "set tasks \<subseteq> set (build_download_tasks regex region info downloaded)"
  shows "\<exists>rec. fst (load_download_record (xe_json env) record_path (xw_fs w')) = Inr rec \<and>
    (\<forall>t. t \<in> set (build_download_tasks regex region info rec) \<longleftrightarrow>
       t \<in> set (build_download_tasks regex region info downloaded) \<and> dt_bundle_path t \<notin> fst ` set (xs_done s))"
proof -
  have inv: "account_inv tasks downloaded s" using start_run [OF assms(1)] by blast
  then have rec: "xs_record s = fold (\<lambda>(p, h). bt_insert p h) (xs_done s) downloaded"
    and ids: "set (xs_done s) \<subseteq> task_id ` set tasks" by (simp_all add: account_inv_def)
  have "btmap_wf (xs_record s)" using record_after_wf [OF assms(4)] rec by simp
  then have "fst (load_download_record (xe_json env) record_path (xw_fs w')) = Inr (xs_record s)"
    using saved_record_loads [OF assms(3)] finish_saves_record [OF assms(2)] assms(5) by blast
  then show ?thesis using planned_again [OF assms(6,7) ids] rec by auto
qed

text \<open>the executor does not ask the game server for the host hash. In a ColorfulPalette region whose
  configured profile has no configured hash, an execution fails, whatever the servers answer, before
  anything is planned or downloaded: only the comparison of bundle lists and the background export
  resolve the hash through \<^verbatim>\<open>game_version_url_template\<close>.\<close>

theorem executor_needs_configured_profile_hash:
  assumes "new_context check_header check_proxy build config name region request = Inr ctx"
    and "rg_provider region = ColorfulPalette c" and "map_of (cp_profile_hashes c) (cp_profile c) = None"
  shows "\<exists>e w'. execute_with_filter env flag sched ctx flt f w = Some (Inl e, f, w')"
proof -
  have ctx: "ec_region ctx = region" "ec_resolved_profile ctx = None" "ec_resolved_assetbundle_host_hash ctx = None"
    using new_context_fields [OF assms(1)] by auto
  have "prepare_execution env flag ctx w \<noteq> (Inr r, w')" for r w'
  proof
    assume "prepare_execution env flag ctx w = (Inr r, w')"
    then obtain ctx1 v v' info ctx2 where fetched:
      "on_http (fetch_asset_bundle_info (xe_http env) (xe_crypto env) (xe_unpack_info env) ctx1) v = (Inr (info, ctx2), v')"
      "ec_region ctx1 = region" "ec_resolved_profile ctx1 = None" "ec_resolved_assetbundle_host_hash ctx1 = None"
      using ctx by (auto simp: prepare_execution_def res_simps split: if_splits dest!: cookies_keep)
    show False
      using no_profile_hash_no_info [of ctx1 c "xe_http env" "xe_crypto env" "xe_unpack_info env" v "(info, ctx2)" v']
        fetched assms(2,3) by simp
  qed
  then obtain e w' where "prepare_execution env flag ctx w = (Inl e, w')" by (metis obj_sumE surj_pair)
  then show ?thesis by (simp add: execute_with_filter_def)
qed

section \<open>Witnesses\<close>

definition demo_payload :: payload_export where
  "demo_payload = \<lparr>px_export_path = ''out/a'', px_export_root = ''out'', px_native_scoped_post_process = False,
     px_native_written_files = [''out/a/x.png''], px_native_acb_sources = [], px_ffi_skipped_object_reads = [],
     px_ffi_object_read_plan = default_read_plan, px_pending_image_writes = []\<rparr>"

definition demo_export :: "nat export_ops" where
  "demo_export = \<lparr>xo_export = (\<lambda>_ _ _ _ _ w. (Inr demo_payload, w)), xo_flush_images = (\<lambda>_ w. (Inr (), w)),
     xo_post_process = (\<lambda>_ _ _ w. (Inr \<lparr>pp_export_root = ''out'', pp_generated_files = [], pp_uploaded_files = []\<rparr>, w))\<rparr>"

definition demo_one_record_json :: record_json where
  "demo_one_record_json = \<lparr>rj_print = (\<lambda>r. if r = [] then Inr [] else if r = [(''a'', ''h1'')] then Inr [1] else Inl ''demo''),
     rj_parse = (\<lambda>b. if b = [] then Inr [] else Inr [(''a'', ''h1'')])\<rparr>"

definition demo_info :: asset_bundle_info where
  "demo_info = \<lparr>bi_version = None, bi_os = None, bi_bundles = [(''a'', demo_detail)]\<rparr>"

definition demo_exec_env :: "nat exec_env" where
  "demo_exec_env = \<lparr>xe_config = default_app_config\<lparr>ap_resources := (ap_resources default_app_config)\<lparr>rs_memory :=
       (rs_memory (ap_resources default_app_config))\<lparr>mem_max_in_flight_bundle_bytes := 0\<rparr>\<rparr>\<rparr>, xe_concurrency = default_concurrency_config, xe_regex = (\<lambda>_. Some (\<lambda>_. True)),
     xe_temp_dir = ''/tmp'', xe_http = demo_http (HttpReply 200 None (Inr (replicate 16 1))), xe_crypto = demo_crypto,
     xe_unpack_info = (\<lambda>_. Inr demo_info), xe_json = demo_one_record_json, xe_export = demo_export,
     xe_chart_sync = (\<lambda>_ h. (Inr False, h))\<rparr>"

definition demo_palette :: colorful_palette_config where
  "demo_palette = \<lparr>cp_current_version_url = None, cp_game_version_url_template = None, cp_asset_info_url_template = ''i'',
     cp_asset_bundle_url_template = ''b'', cp_profile = ''p'', cp_profile_hashes = [(''p'', ''ph'')], cp_required_cookies = False,
     cp_cookie_bootstrap_url = None\<rparr>"

definition demo_ctx :: exec_context where
  "demo_ctx = \<lparr>ec_region_name = ''jp'',
     ec_region = demo_region\<lparr>rg_provider := ColorfulPalette demo_palette,
       rg_crypto := \<lparr>cr_aes_key_hex = Some ''k'', cr_aes_iv_hex = Some ''i''\<rparr>,
       rg_paths := \<lparr>rp_asset_save_dir = Some ''out'', rp_downloaded_asset_record_file = Some ''r''\<rparr>\<rparr>,
     ec_retry = ex_retry (ap_execution default_app_config), ec_runtime_cookie = None, ec_resolved_app_version = None,
     ec_resolved_app_hash = None, ec_resolved_asset_version = Some ''1'', ec_resolved_asset_hash = Some ''h'',
     ec_resolved_profile = None, ec_resolved_assetbundle_host_hash = None\<rparr>"

definition demo_exec_task :: download_task where
  "demo_exec_task = \<lparr>dt_download_path = ''a'', dt_bundle_path = ''a'', dt_bundle_hash = ''h1'', dt_category = StartApp,
     dt_file_size = 10, dt_priority = usize_max\<rparr>"

definition demo_exec_world :: "nat exec_world" where
  "demo_exec_world = \<lparr>xw_fs = \<lparr>fs_files = \<lambda>_. None, fs_clock = 0, fs_fault = no_faults\<rparr>, xw_http = 0, xw_progress = Some []\<rparr>"

definition demo_start :: "nat exec_state" where
  "demo_start = start_loop demo_exec_env [demo_exec_task] [] False demo_exec_world"

definition demo_schedule :: "exec_action list" where
  "demo_schedule = [TakeSlot 0, TakeBacklog 0, TakeMemory 0, EndDownload 0, JoinDownload 0, TakePost 0, EndPost 0, JoinPost 0]"

lemma demo_concurrency: "download_concurrency default_concurrency_config = 32" "post_process_concurrency default_concurrency_config = 16"
  by (simp_all add: download_concurrency_def post_process_concurrency_def default_concurrency_config_def)

lemma demo_start_eq:
  "start_loop demo_exec_env [demo_exec_task] [] False w = \<lparr>xs_pending = [], xs_downloads = [\<lparr>dj_task = demo_exec_task, dj_phase = WaitSlot\<rparr>], xs_posts = [], xs_slots = 32,
     xs_backlog = 16, xs_post_permits = 16, xs_memory = \<lparr>ml_permits = None, ml_limit_bytes = 0, ml_limit_units = 0\<rparr>,
     xs_cancelled = False, xs_record = [], xs_completed = 0, xs_failed = 0, xs_pending_save = 0, xs_world = w,
     xs_result = None, xs_done = [], xs_bad = []\<rparr>"
  by (simp add: start_loop_def demo_exec_env_def spawn_bundle_download_job_def limiter_from_config_def
     post_process_backlog_capacity_def demo_concurrency default_app_config_def)

lemma demo_get:
  "get_with_retry (demo_http (HttpReply 200 None (Inr b))) ctx url h = (Inr b, Suc h)"
  unfolding get_with_retry_def retry_async_def Let_def
  by (subst (1 2) retry_from.simps) (simp add: demo_http_def get_outcome_def is_success_def)

lemma remove_keeps_faults: "fs_fault (snd (remove_file_if_exists path s)) = fs_fault s"
proof -
  have "fs_fault (run_state (remove_file_with_retries path s)) = fs_fault s"
    unfolding remove_file_with_retries_def
    by (rule retry_from_keeps) (auto simp: remove_attempt_def fs_remove_file_def split: option.split io_kind.split)
  then show ?thesis by (simp add: remove_file_if_exists_def Let_def split: sum.split io_kind.split)
qed

lemma write_no_faults:
  assumes "fs_fault s = no_faults"
  shows "\<exists>s'. write_under_parent f g path data s = (Inr (), s') \<and> fs_fault s' = no_faults"
  using assms by (simp add: write_under_parent_def fs_create_dir_all_def fs_write_def split: option.split)

lemma demo_download:
  assumes "fs_fault (xw_fs w) = no_faults"
  shows "\<exists>w'. download_and_export_bundle_payloads demo_exec_env demo_ctx None demo_exec_task w =
     (Inr \<lparr>pj_bundle_path = ''a'', pj_bundle_hash = ''h1'', pj_payload_export = demo_payload\<rparr>, w') \<and>
     fs_fault (xw_fs w') = no_faults"
proof -
  obtain s1 where s1: "write_temp_bundle (bundle_temp_file ''/tmp'' ''jp'' demo_exec_task) (deobfuscate (replicate 16 1)) (xw_fs w) = (Inr (), s1)"
    "fs_fault s1 = no_faults"
    using write_no_faults [OF assms] unfolding write_temp_bundle_def by blast
  obtain u where url: "render_bundle_url [] demo_ctx demo_exec_task = Inr u"
    by (auto simp: render_bundle_url_def demo_ctx_def palette_values_def demo_palette_def)
  have time: "ht_time_arg (demo_http r) h = []" for r h by (simp add: demo_http_def)
  have path: "dt_bundle_path demo_exec_task = ''a''" "dt_bundle_hash demo_exec_task = ''h1''" "dt_category demo_exec_task = StartApp"
    by (simp_all add: demo_exec_task_def)
  have ctx: "ec_region_name demo_ctx = ''jp''" "asset_save_dir_of demo_ctx = Inr ''out''"
    "\<not> matches_raw_bundle_filters rx (ec_region demo_ctx) b" for rx b
    by (simp_all add: asset_save_dir_of_def demo_ctx_def matches_raw_bundle_filters_def demo_region_def default_region_config_def
        default_region_export_config_def ok_or_def)
  show ?thesis
    using s1 remove_keeps_faults
    by (simp add: download_and_export_bundle_payloads_def fetch_bundle_def write_bundle_copies_def url time path ctx demo_exec_env_def
        on_http_def demo_get send_progress_def on_fs_def on_both_def split_beta Let_def demo_export_def demo_payload_def)
qed

text \<open>The state after the whole schedule; the world is left as it comes.\<close>

lemma demo_run:
  assumes "fs_fault (xw_fs w) = no_faults"
  shows "\<exists>s. exec_run demo_exec_env demo_ctx None ''r'' demo_schedule (start_loop demo_exec_env [demo_exec_task] [] False w) = Some s \<and> loop_over s \<and> xs_result s = None \<and>
     xs_done s = [(''a'', ''h1'')] \<and> xs_record s = [(''a'', ''h1'')] \<and> \<not> xs_cancelled s \<and> fs_fault (xw_fs (xs_world s)) = no_faults"
proof -
  let ?job = "\<lparr>pj_bundle_path = ''a'', pj_bundle_hash = ''h1'', pj_payload_export = demo_payload\<rparr>"
  have start: "fs_fault (xw_fs (send_progress (PuBundleStarted ''a'') w)) = no_faults"
    using assms by (simp add: send_progress_def)
  obtain w1 where w1: "download_and_export_bundle_payloads demo_exec_env demo_ctx None demo_exec_task
      (send_progress (PuBundleStarted ''a'') w) = (Inr ?job, w1)" "fs_fault (xw_fs w1) = no_faults"
    using demo_download [OF start] by blast
  have finish: "\<exists>w'. finish_native_bundle_post_process demo_exec_env demo_ctx ?job w = (Inr (), w') \<and> xw_fs w' = xw_fs w" for w :: "nat exec_world"
    by (simp add: finish_native_bundle_post_process_def demo_exec_env_def demo_export_def on_both_def Let_def send_progress_def
        demo_payload_def)
  have batch: "ex_batch_save_size (ap_execution (xe_config demo_exec_env)) = 50"
    by (simp add: demo_exec_env_def default_app_config_def default_execution_config_def)
  have path: "dt_bundle_path demo_exec_task = ''a''" by (simp add: demo_exec_task_def)
  obtain w2 where w2: "finish_native_bundle_post_process demo_exec_env demo_ctx ?job
      (send_progress (PuSchedulerTelemetry (Some ''a'')) (send_progress (PuSchedulerTelemetry (Some ''a'')) w1)) = (Inr (), w2)"
    "fs_fault (xw_fs w2) = no_faults"
    using finish w1(2) by (metis (no_types) exec_world.select_convs(1) exec_world.surjective exec_world.update_convs(3) send_progress_def)
  show ?thesis
    using w1 w2
    by (simp add: demo_schedule_def demo_start_eq loop_over_def download_at_def post_at_def set_download_def set_post_def
        limiter_acquire_def Let_def path end_download_def xs_send_def limiter_release_def join_download_def remove_nth_def
        spawn_next_def end_post_def join_post_def record_completed_bundle_def batch send_progress_def)
qed

lemma demo_start_run:
  "\<exists>s. exec_run demo_exec_env demo_ctx None ''r'' demo_schedule demo_start = Some s \<and> loop_over s \<and> xs_result s = None \<and>
     xs_done s = [(''a'', ''h1'')] \<and> xs_record s = [(''a'', ''h1'')] \<and> \<not> xs_cancelled s \<and> fs_fault (xw_fs (xs_world s)) = no_faults"
  unfolding demo_start_def by (rule demo_run) (simp add: demo_exec_world_def)

theorem executor_limits_hold_witness:
  "\<exists>s. exec_run demo_exec_env demo_ctx None ''r'' [TakeSlot 0, TakeBacklog 0] demo_start = Some s \<and>
     length (filter (\<lambda>d. \<exists>m. dj_phase d = Downloading m) (xs_downloads s)) \<le> 32"
proof -
  obtain s where s: "exec_run demo_exec_env demo_ctx None ''r'' [TakeSlot 0, TakeBacklog 0] demo_start = Some s"
    by (simp add: demo_start_def demo_start_eq loop_over_def download_at_def set_download_def)
  have "download_concurrency (xe_concurrency demo_exec_env) = 32" by (simp add: demo_exec_env_def demo_concurrency)
  with executor_limits_hold [OF s [unfolded demo_start_def]] s show ?thesis by auto
qed

theorem executor_always_finishes_witness:
  "\<exists>bs s'. exec_run demo_exec_env demo_ctx None ''r'' ([TakeSlot 0, TakeBacklog 0] @ bs) demo_start = Some s' \<and> loop_over s'"
proof -
  obtain s where s: "exec_run demo_exec_env demo_ctx None ''r'' [TakeSlot 0, TakeBacklog 0] demo_start = Some s"
    by (simp add: demo_start_def demo_start_eq loop_over_def download_at_def set_download_def)
  from executor_always_finishes [OF s [unfolded demo_start_def]] show ?thesis unfolding demo_start_def by blast
qed

theorem executor_accounts_for_every_task_witness:
  "\<exists>s. exec_run demo_exec_env demo_ctx None ''r'' demo_schedule demo_start = Some s \<and> map_of (xs_record s) ''a'' = Some ''h1'' \<and>
     xs_completed s + xs_failed s = 1"
proof -
  obtain s where s: "exec_run demo_exec_env demo_ctx None ''r'' demo_schedule demo_start = Some s" "loop_over s" "xs_result s = None"
    "xs_done s = [(''a'', ''h1'')]"
    using demo_start_run by blast
  with executor_accounts_for_every_task [OF s(1) [unfolded demo_start_def] s(2)] show ?thesis by auto
qed

lemma demo_planned:
  "build_download_tasks (\<lambda>_. Some (\<lambda>_. True)) demo_region demo_info [] =
     [demo_exec_task]"
  by (simp add: build_download_tasks_def download_task_for_def Let_def demo_exec_task_def List.map_filter_simps demo_detail_def demo_info_def
      demo_region_def default_region_config_def default_region_provider_config_def compile_patterns_def matches_any_def)

lemma demo_finish:
  assumes "xs_record s = [(''a'', ''h1'')]" "\<not> xs_cancelled s" "fs_fault (xw_fs (xs_world s)) = no_faults"
  shows "\<exists>summary w'. finish_execution demo_exec_env (\<lambda>_. False) ''r'' 1 1 s = (Inr summary, w') \<and> fs_fault (xw_fs w') = no_faults"
  using assms
  by (simp add: finish_execution_def ensure_not_cancelled_def save_download_record_on_blocking_thread_def on_fs_def on_http_def
      save_download_record_def serialize_download_record_def demo_exec_env_def demo_one_record_json_def send_progress_def
      fs_create_dir_all_def fs_write_def Let_def split: option.split)

theorem completed_bundles_not_planned_again_witness:
  "let info = demo_info; rx = (\<lambda>_. Some (\<lambda>_. True)) in
   \<exists>rec. demo_exec_task \<in> set (build_download_tasks rx demo_region info []) \<and>
     demo_exec_task \<notin> set (build_download_tasks rx demo_region info rec)"
proof -
  let ?info = "demo_info"
  let ?rx = "\<lambda>_. Some (\<lambda>_. True)"
  have wf: "info_wf ?info" "btmap_wf ([] :: download_record)" by (simp_all add: info_wf_def hmap_wf_def btmap_wf_def demo_info_def)
  have json: "record_json_faithful (xe_json demo_exec_env)"
    by (auto simp: record_json_faithful_def demo_exec_env_def demo_one_record_json_def split: if_splits)
  obtain s where s: "exec_run demo_exec_env demo_ctx None ''r'' demo_schedule demo_start = Some s" "xs_done s = [(''a'', ''h1'')]"
    "xs_record s = [(''a'', ''h1'')]" "\<not> xs_cancelled s" "fs_fault (xw_fs (xs_world s)) = no_faults"
    using demo_start_run by blast
  obtain summary w' where w': "finish_execution demo_exec_env (\<lambda>_. False) ''r'' 1 1 s = (Inr summary, w')" "fs_fault (xw_fs w') = no_faults"
    using demo_finish [OF s(3-5)] by blast
  have nf: "fs_fails (OpRead ''r'') (xw_fs w') = None" using w'(2) by simp
  have planned: "demo_exec_task \<in> set (build_download_tasks ?rx demo_region ?info [])" unfolding demo_planned by simp
  have sub: "set [demo_exec_task] \<subseteq> set (build_download_tasks ?rx demo_region ?info [])" using planned by simp
  obtain rec where "\<forall>t. t \<in> set (build_download_tasks ?rx demo_region ?info rec) \<longleftrightarrow>
      t \<in> set (build_download_tasks ?rx demo_region ?info []) \<and> dt_bundle_path t \<notin> fst ` set (xs_done s)"
    using completed_bundles_not_planned_again [OF s(1) [unfolded demo_start_def] w'(1) json wf(2) nf wf(1) sub] by blast
  moreover have "dt_bundle_path demo_exec_task \<in> fst ` set (xs_done s)" by (simp add: s(2) demo_exec_task_def)
  ultimately show ?thesis using planned by (simp only: Let_def) blast
qed

theorem executor_needs_configured_profile_hash_witness:
  "\<exists>ctx e w'. new_context (\<lambda>_. Inr ()) (\<lambda>_. Inr ()) (Inr ()) default_app_config ''jp'' default_region_config demo_request = Inr ctx \<and>
     execute_with_filter demo_exec_env (\<lambda>_. False) [] ctx None () demo_exec_world = Some (Inl e, (), w')"
proof -
  have "\<exists>ctx. new_context (\<lambda>_. Inr ()) (\<lambda>_. Inr ()) (Inr ()) default_app_config ''jp'' default_region_config demo_request = Inr ctx"
    by (simp add: new_context_def split: option.split)
  then obtain ctx where ctx: "new_context (\<lambda>_. Inr ()) (\<lambda>_. Inr ()) (Inr ()) default_app_config ''jp'' default_region_config demo_request = Inr ctx" ..
  obtain c where c: "rg_provider default_region_config = ColorfulPalette c" "cp_profile_hashes c = []"
    by (simp add: default_region_config_def default_region_provider_config_def)
  then have "map_of (cp_profile_hashes c) (cp_profile c) = None" by simp
  from executor_needs_configured_profile_hash [OF ctx c(1) this, of demo_exec_env "\<lambda>_. False" "[]" None "()" demo_exec_world] ctx show ?thesis by blast
qed

end
