(* ===== verification/Updater.thy ===== *)
theory Updater
  imports Poller Executor_Loop
begin

text \<open>
  The parts of a tick together: the executor of \<open>Executor\<close> in the place the poller leaves open, the
  forwarder between its progress channel and the uploader, and the progress reporter
  (\<^verbatim>\<open>src/service/poller.rs\<close>).
\<close>

section \<open>The forwarder\<close>

fun artefact_event :: "progress_update \<Rightarrow> bundle_artefacts option" where
  "artefact_event (PuBundleArtefactsProduced bundle bundle_hash export_root files) =
     Some \<lparr>ba_bundle_path = bundle, ba_bundle_hash = bundle_hash, ba_export_root = export_root, ba_files = files\<rparr>"
| "artefact_event _ = None"

definition forward_artefacts :: "progress_update list \<Rightarrow> bundle_artefacts list" where
  "forward_artefacts events = List.map_filter artefact_event events"

section \<open>The progress reporter\<close>

text \<open>The time since the last log line is not modelled: \<open>interval_elapsed\<close> says whether it exceeds the
  interval. A phase of \<open>None\<close> is the initial text \<^verbatim>\<open>starting\<close>; \<open>pg_logged\<close> counts the lines written. The region name
  and the skip counters, which are only printed, are left out.\<close>

record progress_reporter =
  pg_phase :: "job_phase option"
  pg_planned :: nat
  pg_started :: nat
  pg_downloaded :: nat
  pg_exported :: nat
  pg_artefacts_ready :: nat
  pg_completed :: nat
  pg_failed :: nat
  pg_last_logged_percent_bucket :: nat
  pg_logged :: nat

definition PERCENT_BUCKET :: nat where "PERCENT_BUCKET = 5"

definition new_reporter :: progress_reporter where
  "new_reporter = \<lparr>pg_phase = None, pg_planned = 0, pg_started = 0, pg_downloaded = 0, pg_exported = 0,
     pg_artefacts_ready = 0, pg_completed = 0, pg_failed = 0, pg_last_logged_percent_bucket = 0, pg_logged = 0\<rparr>"

definition is_finished :: "progress_reporter \<Rightarrow> bool" where
  "is_finished r \<longleftrightarrow> 0 < pg_planned r \<and> pg_planned r \<le> pg_completed r + pg_failed r"

definition percent_bucket :: "progress_reporter \<Rightarrow> nat" where
  "percent_bucket r =
     (if pg_planned r = 0 then 0
      else (pg_completed r + pg_failed r) * 100 div pg_planned r div PERCENT_BUCKET)"

definition maybe_log :: "bool \<Rightarrow> bool \<Rightarrow> progress_reporter \<Rightarrow> progress_reporter" where
  "maybe_log interval_elapsed force r =
     (if \<not> force \<and> \<not> pg_last_logged_percent_bucket r < percent_bucket r \<and> \<not> interval_elapsed then r
      else r\<lparr>pg_last_logged_percent_bucket := percent_bucket r, pg_logged := pg_logged r + 1\<rparr>)"

text \<open>The counters, and whether the event forces a log line.\<close>

fun count_event :: "progress_update \<Rightarrow> progress_reporter \<Rightarrow> progress_reporter \<times> bool" where
  "count_event (PuPhase phase _) r = (r\<lparr>pg_phase := Some phase\<rparr>, True)"
| "count_event (PuDownloadsPlanned n) r = (r\<lparr>pg_planned := n\<rparr>, True)"
| "count_event (PuBundleStarted _) r = (r\<lparr>pg_started := pg_started r + 1\<rparr>, False)"
| "count_event (PuBundleDownloaded _ _) r = (r\<lparr>pg_downloaded := pg_downloaded r + 1\<rparr>, False)"
| "count_event (PuBundleExported _) r = (r\<lparr>pg_exported := pg_exported r + 1\<rparr>, False)"
| "count_event (PuBundleArtefactsProduced _ _ _ _) r = (r\<lparr>pg_artefacts_ready := pg_artefacts_ready r + 1\<rparr>, False)"
| "count_event (PuBundleCompleted _) r =
     (let r' = r\<lparr>pg_completed := pg_completed r + 1\<rparr> in (r', is_finished r'))"
| "count_event (PuBundleFailed _ _) r = (r\<lparr>pg_failed := pg_failed r + 1\<rparr>, True)"
| "count_event (PuRecordSaved _) r = (r, True)"
| "count_event (PuChartHashSyncFinished _) r = (r, True)"
| "count_event _ r = (r, False)"

definition observe :: "bool \<Rightarrow> progress_update \<Rightarrow> progress_reporter \<Rightarrow> progress_reporter" where
  "observe interval_elapsed event r =
     (case count_event event r of (r', force) \<Rightarrow> maybe_log interval_elapsed force r')"

definition finish_report :: "progress_reporter \<Rightarrow> progress_reporter" where
  "finish_report r = maybe_log False True r"

section \<open>The executor in the poller\<close>

text \<open>The executor as the poller starts it: with the filter and a progress channel. \<open>h\<close> is the network as
  the run finds it; \<open>stuck\<close> is only returned for a schedule that does not lead to the end.\<close>

definition run_executor ::
    "'h exec_env \<Rightarrow> (nat \<Rightarrow> bool) \<Rightarrow> exec_action list \<Rightarrow> exec_context \<Rightarrow> 'h \<Rightarrow> 'f task_filter_op \<Rightarrow> fs \<Rightarrow> 'f \<Rightarrow>
     ((asset_execution_error + execution_summary) \<times> bundle_artefacts list \<times> fs \<times> 'f) option" where
  "run_executor env flag sched ctx h flt s f =
     (case execute_with_filter env flag sched ctx (Some flt) f \<lparr>xw_fs = s, xw_http = h, xw_progress = Some []\<rparr> of
        None \<Rightarrow> None
      | Some (r, f', w) \<Rightarrow> Some (r, forward_artefacts (unwrap_or [] (xw_progress w)), xw_fs w, f'))"

definition with_executor ::
    "'h exec_env \<Rightarrow> (nat \<Rightarrow> bool) \<Rightarrow> exec_action list \<Rightarrow> 'h \<Rightarrow> (asset_update_request \<Rightarrow> exec_context) \<Rightarrow> 'g poller_env \<Rightarrow> 'g poller_env" where
  "with_executor xenv flag sched h context env =
     env\<lparr>pe_executor := (\<lambda>request flt s st.
        unwrap_or (Inl Cancelled, [], s, st) (run_executor xenv flag sched (context request) h flt s st))\<rparr>"

section \<open>Lemmas: what is forwarded\<close>

definition forwarded :: "'h exec_world \<Rightarrow> bundle_artefacts list" where
  "forwarded w = forward_artefacts (unwrap_or [] (xw_progress w))"

definition listening :: "'h exec_world \<Rightarrow> bool" where
  "listening w \<longleftrightarrow> xw_progress w \<noteq> None"

lemma forwarded_send:
  "forwarded (send_progress u w) = (if listening w then forwarded w @ (case artefact_event u of None \<Rightarrow> [] | Some a \<Rightarrow> [a]) else forwarded w)"
  by (auto simp: forwarded_def listening_def send_progress_def forward_artefacts_def List.map_filter_def split: option.split)

lemma listening_send [simp]: "listening (send_progress u w) = listening w"
  by (simp add: listening_def send_progress_def)

text \<open>Whether something is forwarded is a matter of the channel alone.\<close>

definition quiet :: "'h exec_world \<Rightarrow> 'h exec_world \<Rightarrow> bool" where
  "quiet w w' \<longleftrightarrow> listening w' = listening w \<and> forwarded w' = forwarded w"

lemma quiet_refl [simp]: "quiet w w" by (simp add: quiet_def)

lemma quiet_send: "artefact_event u = None \<Longrightarrow> quiet w w' \<Longrightarrow> quiet w (send_progress u w')"
  by (simp add: quiet_def forwarded_send)

lemma quiet_update:
  "quiet w w' \<Longrightarrow> quiet w (w'\<lparr>xw_fs := s\<rparr>)" "quiet w w' \<Longrightarrow> quiet w (w'\<lparr>xw_http := h\<rparr>)"
  by (simp_all add: quiet_def listening_def forwarded_def)

lemma quiet_on:
  "quiet w w' \<Longrightarrow> quiet w (snd (on_fs f w'))" "quiet w w' \<Longrightarrow> quiet w (snd (on_http g w'))"
  "quiet w w' \<Longrightarrow> quiet w (snd (on_both k w'))"
  by (simp_all add: on_fs_def on_http_def on_both_def quiet_update split: prod.split)

lemma quiet_bind: "quiet w (snd r) \<Longrightarrow> (\<And>x w'. quiet w w' \<Longrightarrow> quiet w (snd (f x w'))) \<Longrightarrow> quiet w (snd (st_bind r f))"
  by (auto simp: st_bind_def split: prod.split sum.split)

lemmas quiet_intros = quiet_bind quiet_send quiet_on quiet_update quiet_refl

lemma download_quiet: "quiet w (snd (download_and_export_bundle_payloads env ctx wr task w))"
  unfolding download_and_export_bundle_payloads_def fetch_bundle_def write_bundle_copies_def Let_def split_beta
  by (intro quiet_intros) (auto intro!: quiet_intros split: option.split)

lemma finish_forwards:
  assumes "finish_native_bundle_post_process env ctx job w = (r, w')"
  shows "listening w' = listening w"
    and "map (\<lambda>a. (ba_bundle_path a, ba_bundle_hash a)) (forwarded w') =
      map (\<lambda>a. (ba_bundle_path a, ba_bundle_hash a)) (forwarded w) @ (if listening w \<and> r = Inr () then [job_id job] else [])"
proof -
  have on: "on_both k v = (x, v') \<Longrightarrow> listening v' = listening v \<and> forwarded v' = forwarded v" for k x and v v' :: "'a exec_world"
    using quiet_on(3) [OF quiet_refl, of v k] by (simp add: quiet_def)
  show "listening w' = listening w"
    and "map (\<lambda>a. (ba_bundle_path a, ba_bundle_hash a)) (forwarded w') =
      map (\<lambda>a. (ba_bundle_path a, ba_bundle_hash a)) (forwarded w) @ (if listening w \<and> r = Inr () then [job_id job] else [])"
    using assms
    by (auto dest!: on simp: finish_native_bundle_post_process_def Let_def st_bind_def st_map_err_def forwarded_send job_id_def
        split: prod.splits sum.splits if_splits)
qed

text \<open>Post-processed bundles the loop has not joined yet.\<close>

definition finished_job :: "post_run \<Rightarrow> (string \<times> string) multiset" where
  "finished_job p = (if pr_phase p = PostDone (Inr ()) then {#job_id (pr_job p)#} else {#})"

definition forwarded_ids :: "'h exec_world \<Rightarrow> (string \<times> string) list" where
  "forwarded_ids w = map (\<lambda>a. (ba_bundle_path a, ba_bundle_hash a)) (forwarded w)"

definition forward_inv :: "'h exec_state \<Rightarrow> bool" where
  "forward_inv s \<longleftrightarrow> listening (xs_world s) \<and>
     mset (forwarded_ids (xs_world s)) = mset (xs_done s) + sum_list (map finished_job (xs_posts s))"

lemma quiet_ids: "quiet w w' \<Longrightarrow> forwarded_ids w' = forwarded_ids w" "quiet w w' \<Longrightarrow> listening w' = listening w"
  by (simp_all add: quiet_def forwarded_ids_def)

lemma sum_split_nth:
  "i < length xs \<Longrightarrow>
     sum_list (map f xs) = sum_list (map f (take i xs)) + f (xs ! i) + (sum_list (map f (drop (Suc i) xs)) :: 'b multiset)"
  by (metis (no_types, lifting) add.assoc id_take_nth_drop list.simps(9) map_append sum_list.Cons sum_list.append)

lemma sum_update_mset:
  "i < length xs \<Longrightarrow> sum_list (map f (xs[i := v])) + f (xs ! i) = sum_list (map f xs) + (f v :: 'b multiset)"
  by (simp add: sum_split_nth [of i xs f] upd_conv_take_nth_drop)

lemma sum_remove_mset:
  "i < length xs \<Longrightarrow> sum_list (map f (remove_nth i xs)) + f (xs ! i) = (sum_list (map f xs) :: 'b multiset)"
  by (simp add: sum_split_nth [of i xs f] remove_nth_def)

text \<open>Steps that neither forward anything nor finish a bundle.\<close>

lemma forward_keep:
  assumes "forward_inv s" and "quiet (xs_world s) (xs_world s')" and "xs_done s' = xs_done s"
    and "sum_list (map finished_job (xs_posts s')) = sum_list (map finished_job (xs_posts s))"
  shows "forward_inv s'"
  using assms quiet_ids [OF assms(2)] by (simp add: forward_inv_def)

lemma xs_send_quiet: "artefact_event u = None \<Longrightarrow> quiet w (xs_world s) \<Longrightarrow> quiet w (xs_world (xs_send u s))"
  by (simp add: xs_send_def quiet_send)

lemma record_completed_quiet: "quiet (xs_world s) (xs_world (record_completed_bundle env rp p h s))"
  by (auto simp: record_completed_bundle_def save_download_record_on_blocking_thread_def Let_def xs_send_def st_map_err_def
      intro!: quiet_send quiet_on split: prod.split sum.split dest!: arg_cong [where f = snd])

lemma spawn_next_world [simp]: "xs_world (spawn_next s) = xs_world s"
  by (simp add: spawn_next_def split: list.split)

lemma bundle_failed_quiet: "quiet w (xs_world s) \<Longrightarrow> quiet w (xs_world (bundle_failed p e s))"
  by (simp add: bundle_failed_def xs_send_def quiet_send)

lemma forward_join_download:
  assumes "forward_inv s"
  shows "forward_inv (join_download i r s)"
  by (rule forward_keep [OF assms])
    (auto simp: join_download_def Let_def finished_job_def xs_send_def intro!: quiet_send bundle_failed_quiet split: sum.split prod.split)

lemma forward_end_post:
  assumes inv: "forward_inv s" and at: "post_at i s = Some PostRunning"
  shows "forward_inv (end_post env ctx i s)"
proof -
  have i: "i < length (xs_posts s)" and ph: "pr_phase (xs_posts s ! i) = PostRunning"
    using at by (simp_all add: post_at_def split: if_splits)
  obtain r w where r: "finish_native_bundle_post_process env ctx (pr_job (xs_posts s ! i)) (xs_world s) = (r, w)" by fastforce
  let ?p = "(xs_posts s ! i)\<lparr>pr_phase := PostDone r\<rparr>"
  have "sum_list (map finished_job ((xs_posts s)[i := ?p])) = sum_list (map finished_job (xs_posts s)) + finished_job ?p"
    using sum_update_mset [OF i, of finished_job ?p] ph by (simp add: finished_job_def)
  moreover have "listening w = listening (xs_world s)"
    "forwarded_ids w = forwarded_ids (xs_world s) @ (if listening (xs_world s) \<and> r = Inr () then [job_id (pr_job (xs_posts s ! i))] else [])"
    using finish_forwards [OF r] by (simp_all add: forwarded_ids_def)
  ultimately show ?thesis
    using inv r by (simp add: forward_inv_def end_post_def Let_def set_post_def xs_send_def forwarded_ids_def forwarded_send finished_job_def)
qed

lemma forward_join_post:
  assumes inv: "forward_inv s" and at: "post_at i s = Some (PostDone r)"
  shows "forward_inv (join_post env rp i r s)"
proof -
  have i: "i < length (xs_posts s)" and ph: "pr_phase (xs_posts s ! i) = PostDone r"
    using at by (simp_all add: post_at_def split: if_splits)
  note sum = sum_remove_mset [OF i, of finished_job]
  let ?s = "s\<lparr>xs_posts := remove_nth i (xs_posts s)\<rparr>"
  show ?thesis
  proof (cases r)
    case (Inl e)
    then have "finished_job (xs_posts s ! i) = {#}" using ph by (simp add: finished_job_def)
    then show ?thesis
      using sum Inl by (intro forward_keep [OF inv]) (auto simp: join_post_def Let_def intro!: bundle_failed_quiet)
  next
    case (Inr u)
    have "quiet (xs_world s) (xs_world (record_completed_bundle env rp p h ?s))" for p h
      using record_completed_quiet [of ?s] by simp
    note q = quiet_ids [OF this]
    have "finished_job (xs_posts s ! i) = {#job_id (pr_job (xs_posts s ! i))#}" using ph Inr by (simp add: finished_job_def)
    then show ?thesis using sum [symmetric] Inr inv q by (simp add: join_post_def Let_def forward_inv_def job_id_def)
  qed
qed

lemma forward_step:
  assumes inv: "forward_inv s" and step: "exec_apply env ctx wr rp a s = Some s'"
  shows "forward_inv s'"
proof (cases a)
  case (TakePost i)
  then have at: "post_at i s = Some WaitPost" and s': "s' = set_post i PostRunning (s\<lparr>xs_post_permits := xs_post_permits s - 1\<rparr>)"
    using step by (simp_all split: if_splits)
  then have i: "i < length (xs_posts s)" and ph: "pr_phase (xs_posts s ! i) = WaitPost" by (simp_all add: post_at_def split: if_splits)
  show ?thesis
    using sum_update_mset [OF i, of finished_job "(xs_posts s ! i)\<lparr>pr_phase := PostRunning\<rparr>"] ph
    by (intro forward_keep [OF inv]) (simp_all add: s' set_post_def finished_job_def)
next
  case (EndDownload i)
  then obtain permit where s': "s' = end_download env ctx wr i permit s"
    using step by (auto split: option.splits download_phase.splits)
  have "quiet (xs_world s) (xs_world s')"
    using download_quiet [of "xs_world s" env ctx wr "dj_task (xs_downloads s ! i)"]
    by (auto simp: s' end_download_def Let_def set_download_def xs_send_def intro!: quiet_send split: prod.split sum.split)
  then show ?thesis
    by (rule forward_keep [OF inv]) (simp_all add: s' end_download_def Let_def split: prod.split sum.split)
next
  case (JoinDownload i)
  then show ?thesis using step forward_join_download [OF inv] by (auto split: option.splits download_phase.splits)
next
  case (EndPost i)
  then show ?thesis using step forward_end_post [OF inv] by (auto split: if_splits)
next
  case (JoinPost i)
  then show ?thesis using step forward_join_post [OF inv] by (auto split: option.splits post_phase.splits)
next
  case (TakeMemory i)
  then show ?thesis using step
    by (intro forward_keep [OF inv])
      (auto simp: Let_def xs_send_def set_download_def intro!: quiet_send split: if_splits option.splits)
qed (use inv step in \<open>auto simp: forward_inv_def set_download_def split: if_splits\<close>)

lemma forward_run: "exec_run env ctx wr rp as s = Some s' \<Longrightarrow> forward_inv s \<Longrightarrow> forward_inv s'"
  by (induction as arbitrary: s) (auto split: if_splits option.splits dest: forward_step)

section \<open>Lemmas: a whole execution\<close>

lemma prepare_quiet: "quiet w (snd (prepare_execution env flag ctx w))"
  unfolding prepare_execution_def
  by (intro quiet_bind) (auto intro!: quiet_intros)

lemma finish_quiet: "quiet (xs_world s) (snd (finish_execution env flag rp discovered queued s))"
  unfolding finish_execution_def save_download_record_on_blocking_thread_def Let_def
  by (auto intro!: quiet_intros)

text \<open>An execution that succeeded without planning anything, or ran its loop to the end.\<close>

lemma execution_ok_cases:
  assumes "execute_with_filter env flag sched ctx flt f w = Some (Inr summary, f', w')"
  obtains (idle) "es_queued_downloads summary = 0" "es_completed_downloads summary = 0" "es_failed_downloads summary = 0" "quiet w w'"
  | (ran) ctx1 wr rp tasks downloaded c w1 s discovered where "rp_downloaded_asset_record_file (rg_paths (ec_region ctx)) = Some rp"
      "quiet w w1" "exec_run env ctx1 wr rp sched (start_loop env tasks downloaded c w1) = Some s" "loop_over s"
      "xs_result s = None" "finish_execution env flag rp discovered (length tasks) s = (Inr summary, w')"
proof -
  obtain rp downloaded info ctx1 w1 where prep: "prepare_execution env flag ctx w = (Inr (rp, downloaded, info, ctx1), w1)"
    using assms by (fastforce simp: execute_with_filter_def split: prod.splits sum.splits)
  have q: "quiet w w1" using prepare_quiet [of w env flag ctx] prep by simp
  have rp: "rp_downloaded_asset_record_file (rg_paths (ec_region ctx)) = Some rp"
    using prep by (auto simp: prepare_execution_def res_simps split: if_splits)
  obtain tasks f1 where flt: "on_filter flt (build_download_tasks (xe_regex env) (ec_region ctx) info downloaded) f = (Inr tasks, f1)"
    using assms prep by (fastforce simp: execute_with_filter_def Let_def split: prod.splits sum.splits)
  show thesis
  proof (cases "tasks = []")
    case True
    show thesis
      using assms prep flt True q by (intro idle) (auto simp: execute_with_filter_def Let_def intro!: quiet_intros)
  next
    case False
    let ?w = "send_progress (PuPhase PhDownloadingBundles (''downloading '' @ show_nat (length tasks) @ '' bundle(s)''))
      (send_progress (PuDownloadsPlanned (length tasks))
        (send_progress (PuPhase PhPlanningDownloads ''building download task list'') w1))"
    have "quiet w ?w" using q by (intro quiet_send) simp_all
    then show thesis
      using assms prep flt False
      by (auto simp: execute_with_filter_def Let_def split: option.splits if_splits prod.splits
          dest: ran [OF rp])
  qed
qed

text \<open>The uploader processes what it receives.\<close>

lemma uploader_processes_received:
  assumes "run_uploader env arts s g = (Inr processed, st)"
  shows "set processed = ba_bundle_path ` set arts"
proof -
  obtain st1 where r: "receive_all env arts (uploader_init s g) = (Inr (), st1)"
    and f: "finish_uploader env st1 = (Inr (), st)" and p: "processed = ul_processed_all st"
    using assms by (auto simp: run_uploader_def st_bind_Inr)
  have "uploader_inv env arts st1" using receive_all_inv [OF r uploader_init_inv] by simp
  from finish_step [OF f this] show ?thesis by (auto simp: p)
qed

lemma executor_forwards_completed:
  assumes run: "run_executor env flag sched ctx h flt s f = Some (Inr summary, arts, s', f')"
  shows "length arts = es_completed_downloads summary \<and>
    es_completed_downloads summary + es_failed_downloads summary = es_queued_downloads summary \<and>
    (\<forall>rp. rp_downloaded_asset_record_file (rg_paths (ec_region ctx)) = Some rp \<and> arts \<noteq> [] \<longrightarrow>
       (\<exists>rec s0. ba_bundle_path ` set arts \<subseteq> dom (map_of rec) \<and> save_download_record (xe_json env) rp rec s0 = (Inr (), s')))"
proof -
  let ?w = "\<lparr>xw_fs = s, xw_http = h, xw_progress = Some []\<rparr>"
  obtain w' where ex: "execute_with_filter env flag sched ctx (Some flt) f ?w = Some (Inr summary, f', w')"
    and arts: "arts = forwarded w'" and s': "s' = xw_fs w'"
    using run by (auto simp: run_executor_def forwarded_def split: option.splits prod.splits)
  have start: "listening ?w" "forwarded ?w = []"
    by (simp_all add: listening_def forwarded_def forward_artefacts_def List.map_filter_simps)
  from ex show ?thesis
  proof (cases rule: execution_ok_cases)
    case idle
    then show ?thesis using start by (simp add: arts quiet_def)
  next
    case (ran ctx1 wr rp tasks downloaded c w1 st discovered)
    have "forward_inv (start_loop env tasks downloaded c w1)"
      using ran(2) start by (simp add: forward_inv_def start_loop_def Let_def quiet_def forwarded_ids_def)
    from forward_run [OF ran(3) this] have "mset (forwarded_ids (xs_world st)) = mset (xs_done st)"
      using ran(4,5) by (simp add: forward_inv_def loop_over_def)
    moreover have "forwarded_ids w' = forwarded_ids (xs_world st)"
      using finish_quiet [of st env flag rp discovered "length tasks"] ran(6) by (simp add: quiet_ids)
    ultimately have ids: "mset (forwarded_ids w') = mset (xs_done st)" by simp
    then have len: "length arts = length (xs_done st)"
      by (metis arts forwarded_ids_def length_map size_mset)
    have inv: "account_inv tasks downloaded st" using start_run [OF ran(3)] by blast
    note fin = finish_saves_record [OF ran(6)]
    have sums: "xs_completed st + xs_failed st = length tasks" using loop_end_accounts [OF ran(3-5)] by blast
    have "ba_bundle_path a \<in> dom (map_of (xs_record st))" if "a \<in> set arts" for a
    proof -
      have "(ba_bundle_path a, ba_bundle_hash a) \<in> set (xs_done st)"
        using that ids by (metis (mono_tags, lifting) arts forwarded_ids_def image_eqI list.set_map mset_eq_setD)
      then have "map_of (rev (xs_done st)) (ba_bundle_path a) \<noteq> None"
        by (metis map_of_eq_None_iff image_eqI fst_conv set_rev)
      then show ?thesis using inv by (auto simp: account_inv_def record_after_get)
    qed
    then have "ba_bundle_path ` set arts \<subseteq> dom (map_of (xs_record st))" by blast
    moreover have "save_download_record (xe_json env) rp (xs_record st) (xw_fs (xs_world st)) = (Inr (), s')"
      using fin s' by blast
    moreover have "length arts = xs_completed st" using len inv by (simp add: account_inv_def)
    ultimately show ?thesis using fin sums ran(1) by (metis option.inject)
  qed
qed

definition tick_filter :: "'g poller_env \<Rightarrow> session_handle option \<Rightarrow> string list \<Rightarrow> 'g filter_state task_filter_op" where
  "tick_filter env cs names =
     combined_filter (pe_ops env) cs (pe_region_name env) (max (hp_check_batch_size (ap_hip (pe_config env))) 1) names"

definition filter_start :: "'g \<Rightarrow> 'g filter_state" where
  "filter_start g = \<lparr>fl_gate = g, fl_layer1_skipped = 0, fl_skipped_counter = 0, fl_skipped_bundles = []\<rparr>"

lemma execute_and_upload_executor:
  assumes "execute_and_upload (with_executor xenv flag sched h context env) current request new_info cs names w =
      (Inr summary, ur, processed, w')"
  shows "\<exists>arts s' st1. run_executor xenv flag sched (context request) h (tick_filter env cs names) (pw_fs w) (filter_start (pw_gate w)) =
       Some (Inr summary, arts, s', st1) \<and>
     (hp_enabled (ap_hip (pe_config env)) \<and> ur = Inr () \<longrightarrow>
        set processed = ba_bundle_path ` set (take (pe_received env) arts) \<union> fst ` set (fl_skipped_bundles st1))"
proof -
  define e where "e = with_executor xenv flag sched h context env"
  have e: "pe_config e = pe_config env" "pe_received e = pe_received env" "pe_ops e = pe_ops env" "pe_region_name e = pe_region_name env"
    "pe_uploader_panic e = pe_uploader_panic env"
    "pe_executor e request flt s st = unwrap_or (Inl Cancelled, [], s, st) (run_executor xenv flag sched (context request) h flt s st)"
    for request flt s st by (simp_all add: e_def with_executor_def)
  define flt where "flt = tick_filter env cs names"
  define st0 where "st0 = filter_start (pw_gate w)"
  note flt = flt_def [unfolded tick_filter_def One_nat_def, symmetric] and st0 = st0_def [unfolded filter_start_def, symmetric]
  obtain r arts s1 st1 where run: "pe_executor e request flt (pw_fs w) st0 = (r, arts, s1, st1)" by (metis surj_pair)
  have r: "r = Inr summary"
    using assms run by (auto simp: execute_and_upload_def e_def [symmetric] e flt st0 Let_def
        split: if_splits prod.splits sum.splits)
  then have ex: "run_executor xenv flag sched (context request) h flt (pw_fs w) st0 = Some (Inr summary, arts, s1, st1)"
    using run by (cases "run_executor xenv flag sched (context request) h flt (pw_fs w) st0") (auto simp: e)
  moreover have "set processed = ba_bundle_path ` set (take (pe_received env) arts) \<union> fst ` set (fl_skipped_bundles st1)"
    if "hp_enabled (ap_hip (pe_config env))" "ur = Inr ()"
  proof -
    have img: "(a, b) \<in> set xs \<Longrightarrow> a \<in> fst ` set xs" for a b and xs :: "(string \<times> string) list" by force
    show ?thesis
    using assms run that
    by (auto simp: execute_and_upload_def e_def [symmetric] e flt st0 Let_def
        handle_uploader_result_def split: if_splits prod.splits sum.splits option.splits dest!: uploader_processes_received dest: img)
  qed
  ultimately show ?thesis unfolding flt_def st0_def by blast
qed

section \<open>Properties\<close>

text \<open>C6: the executor hands over what it recorded. When an execution succeeds, the artefacts forwarded to
  the uploader are those of the completed bundles, one for each; completed and failed bundles add up
  to the queued ones; and the record file was written last with all of them.\<close>

theorem executor_hands_over_completed_bundles:
  assumes "run_executor env flag sched ctx h flt s f = Some (Inr summary, arts, s', f')"
  shows "length arts = es_completed_downloads summary \<and>
    es_completed_downloads summary + es_failed_downloads summary = es_queued_downloads summary \<and>
    (\<forall>rp. rp_downloaded_asset_record_file (rg_paths (ec_region ctx)) = Some rp \<and> arts \<noteq> [] \<longrightarrow>
       (\<exists>rec s0. ba_bundle_path ` set arts \<subseteq> dom (map_of rec) \<and> save_download_record (xe_json env) rp rec s0 = (Inr (), s')))"
  using executor_forwards_completed [OF assms] by simp


section \<open>Witnesses\<close>

lemma demo_fetch_info:
  "\<exists>h'. fetch_asset_bundle_info (xe_http demo_exec_env) (xe_crypto demo_exec_env) unpack demo_ctx h =
     (map_sum AssetInfoDecode (\<lambda>v. (v, demo_ctx)) (unpack (replicate 15 1)), h')"
proof -
  have "take 15 (replicate 16 (1::8 word)) = replicate 15 1" by simp
  then show ?thesis
    by (simp add: fetch_asset_bundle_info_def render_asset_info_url_def palette_values_def demo_ctx_def demo_palette_def
        demo_exec_env_def demo_get context_decrypt_def decrypt_region_msgpack_def demo_crypto_def Let_def split: sum.split)
qed

lemma demo_prepare:
  assumes "fs_fault s = no_faults" and "fs_files s ''r'' = None"
    and "env = demo_exec_env\<lparr>xe_unpack_info := \<lambda>_. Inr info\<rparr>"
  shows "\<exists>w'. prepare_execution env (\<lambda>_. False) demo_ctx \<lparr>xw_fs = s, xw_http = h, xw_progress = Some []\<rparr> =
     (Inr (''r'', [], info, demo_ctx), w') \<and> fs_fault (xw_fs w') = no_faults"
proof -
  have load: "load_download_record json ''r'' s = (Inr [], fs_tick s)" for json
    using assms(1,2) by (simp add: load_download_record_def fs_read_def ok_or_def)
  have ctx: "rp_downloaded_asset_record_file (rg_paths (ec_region demo_ctx)) = Some ''r''"
    "\<not> requires_cookies (rg_provider (ec_region demo_ctx))"
    by (simp_all add: demo_ctx_def demo_palette_def)
  obtain h' where f: "fetch_asset_bundle_info (xe_http demo_exec_env) (xe_crypto demo_exec_env) (\<lambda>_. Inr info) demo_ctx h = (Inr (info, demo_ctx), h')"
    using demo_fetch_info [of "\<lambda>_. Inr info" h] by auto
  show ?thesis
    using assms(1) by (simp add: assms(3) prepare_execution_def ensure_not_cancelled_def ctx ok_or_def on_fs_def load on_http_def f send_progress_def)
qed

lemma demo_plan:
  "build_download_tasks (xe_regex demo_exec_env) (ec_region demo_ctx) demo_info [] = [demo_exec_task]"
  by (simp add: build_download_tasks_def download_task_for_def Let_def demo_exec_task_def List.map_filter_simps demo_detail_def
      demo_info_def demo_region_def demo_ctx_def demo_palette_def demo_exec_env_def default_region_config_def compile_patterns_def
      matches_any_def)

lemma demo_work_root: "haruki_3d_work_asset_root (ec_region demo_ctx) name v = None"
  by (simp add: haruki_3d_work_asset_root_def demo_ctx_def demo_region_def default_region_config_def
      default_region_export_config_def default_haruki_3d_export_config_def Let_def)

lemma demo_execution:
  "\<exists>summary arts s'. run_executor demo_exec_env (\<lambda>_. False) demo_schedule demo_ctx 0 noop_filter
     \<lparr>fs_files = Map.empty, fs_clock = 0, fs_fault = no_faults\<rparr> () = Some (Inr summary, arts, s', ()) \<and>
     es_completed_downloads summary = 1"
proof -
  let ?w = "\<lparr>xw_fs = \<lparr>fs_files = Map.empty, fs_clock = 0, fs_fault = no_faults\<rparr>, xw_http = 0, xw_progress = Some []\<rparr>"
  have "demo_exec_env = demo_exec_env\<lparr>xe_unpack_info := \<lambda>_. Inr demo_info\<rparr>" by (simp add: demo_exec_env_def)
  from demo_prepare [OF _ _ this, of "\<lparr>fs_files = Map.empty, fs_clock = 0, fs_fault = no_faults\<rparr>" 0]
  obtain w1 where prep: "prepare_execution demo_exec_env (\<lambda>_. False) demo_ctx ?w = (Inr (''r'', [], demo_info, demo_ctx), w1)"
    "fs_fault (xw_fs w1) = no_faults" by auto
  define w4 where "w4 = send_progress (PuPhase PhDownloadingBundles (''downloading '' @ show_nat 1 @ '' bundle(s)''))
      (send_progress (PuDownloadsPlanned 1) (send_progress (PuPhase PhPlanningDownloads ''building download task list'') w1))"
  have "fs_fault (xw_fs w4) = no_faults" using prep(2) by (simp add: w4_def send_progress_def)
  from demo_run [OF this] obtain s where s: "exec_run demo_exec_env demo_ctx None ''r'' demo_schedule (start_loop demo_exec_env [demo_exec_task] [] False w4) = Some s"
    "loop_over s" "xs_result s = None" "xs_done s = [(''a'', ''h1'')]" "xs_record s = [(''a'', ''h1'')]" "\<not> xs_cancelled s"
    "fs_fault (xw_fs (xs_world s)) = no_faults" by blast
  obtain summary w' where fin: "finish_execution demo_exec_env (\<lambda>_. False) ''r'' 1 1 s = (Inr summary, w')"
    using demo_finish [OF s(5-7)] by blast
  have "xs_completed s = 1" using start_run [OF s(1)] s(4) by (simp add: account_inv_def)
  then have "es_completed_downloads summary = 1" using finish_saves_record [OF fin] by simp
  moreover have one: "length (bi_bundles demo_info) = 1" by (simp add: demo_info_def)
  moreover have "execute_with_filter demo_exec_env (\<lambda>_. False) demo_schedule demo_ctx (Some noop_filter) () ?w = Some (Inr summary, (), w')"
    using s fin prep(1) one by (simp add: execute_with_filter_def on_filter_def noop_filter_def demo_plan demo_work_root Let_def w4_def)
  ultimately show ?thesis by (simp add: run_executor_def)
qed

theorem executor_hands_over_completed_bundles_witness:
  "\<exists>summary arts s'. run_executor demo_exec_env (\<lambda>_. False) demo_schedule demo_ctx 0 noop_filter
     \<lparr>fs_files = Map.empty, fs_clock = 0, fs_fault = no_faults\<rparr> () = Some (Inr summary, arts, s', ()) \<and> length arts = 1"
proof -
  obtain summary arts s' where r: "run_executor demo_exec_env (\<lambda>_. False) demo_schedule demo_ctx 0 noop_filter
     \<lparr>fs_files = Map.empty, fs_clock = 0, fs_fault = no_faults\<rparr> () = Some (Inr summary, arts, s', ())" "es_completed_downloads summary = 1"
    using demo_execution by blast
  with executor_hands_over_completed_bundles [OF r(1)] show ?thesis by auto
qed

definition demo_hip_config :: app_config where
  "demo_hip_config = default_app_config\<lparr>ap_hip := default_hip_config\<lparr>hp_enabled := True\<rparr>\<rparr>"

text \<open>The gateway tells the updater to skip the only bundle.\<close>

lemma demo_skips:
  "\<exists>st'. combined_filter demo_gateway (Some demo_session) ''jp'' (max n (Suc 0)) names [demo_exec_task] demo_filter_state = (Inr [], st') \<and>
     fl_skipped_bundles st' = [(''a'', ''h1'')]"
  by (simp add: combined_filter_def hip_check_filter_def chunks_step apply_decision_def decisions_def demo_gateway_def
      demo_filter_state_def demo_exec_task_def check_item_def)

lemma demo_skipping_run:
  assumes "flt [demo_exec_task] st = (Inr [], st')"
  shows "\<exists>summary s'. run_executor demo_exec_env (\<lambda>_. False) [] demo_ctx 0 flt
     \<lparr>fs_files = Map.empty, fs_clock = 0, fs_fault = no_faults\<rparr> st = Some (Inr summary, [], s', st') \<and> es_completed_downloads summary = 0"
proof -
  let ?w = "\<lparr>xw_fs = \<lparr>fs_files = Map.empty, fs_clock = 0, fs_fault = no_faults\<rparr>, xw_http = 0, xw_progress = Some []\<rparr>"
  have "demo_exec_env = demo_exec_env\<lparr>xe_unpack_info := \<lambda>_. Inr demo_info\<rparr>" by (simp add: demo_exec_env_def)
  from demo_prepare [OF _ _ this, of "\<lparr>fs_files = Map.empty, fs_clock = 0, fs_fault = no_faults\<rparr>" 0]
  obtain w1 where prep: "prepare_execution demo_exec_env (\<lambda>_. False) demo_ctx ?w = (Inr (''r'', [], demo_info, demo_ctx), w1)" by auto
  have "quiet ?w w1" using prepare_quiet [of ?w demo_exec_env "\<lambda>_. False" demo_ctx] prep by simp
  then have "forwarded (send_progress (PuDownloadsPlanned 0) (send_progress (PuPhase PhPlanningDownloads ''building download task list'') w1)) = []"
    by (simp add: forwarded_send quiet_def) (simp add: forwarded_def forward_artefacts_def List.map_filter_simps)
  then show ?thesis
    using prep assms by (simp add: run_executor_def execute_with_filter_def on_filter_def demo_plan Let_def forwarded_def)
qed

lemma demo_metadata_only:
  assumes "uenv = uploader_env_for (demo_poller_env config\<lparr>pe_executor := ex\<rparr>) demo_current demo_info st"
  shows "\<exists>ust. run_uploader uenv [] s g = (Inr [], ust)"
  by (simp add: assms run_uploader_def uploader_init_def finish_uploader_def flush_metadata_only_commit_def Let_def
      ensure_session_def connect_hip_with_def uploader_env_for_def demo_poller_env_def demo_gateway_def demo_ops_def
      take_first_commit_extras_def commit_and_close_def merge_committed_def)


end
