(* ===== verification/Storage.thy ===== *)
theory Storage
  imports Task_Pool Regions Retry Unix_Path
begin

text \<open>
  Cloud storage (\<^verbatim>\<open>src/core/storage.rs\<close>): selecting and resolving the configured providers, remote paths,
  the public-read rules, and the concurrent upload of exported files. The storage backend, the guess of
  content types and regular expressions are arguments.
\<close>

section \<open>Data\<close>

datatype storage_error =
    StMissingEndpoint string
  | StMissingBucket string
  | StInvalidProviderConfig string string
  | StInvalidPublicReadRule string
  | StInvalidRelativePath string
  | StIo string io_kind
  | StUpload string string string
  | StProvider string string
  | StJoin string

record resolved_storage_provider =
  rs_provider :: string
  rs_scheme :: string
  rs_endpoint :: string
  rs_bucket :: string
  rs_root :: "string option"
  rs_base_url :: string
  rs_public_read :: bool
  rs_path_style :: bool
  rs_options :: "(string, string) btmap"

record 'o storage_operator_target =
  ot_provider :: string
  ot_scheme :: string
  ot_operator :: 'o
  ot_public_operator :: "'o option"

record storage_upload_options =
  uo_selected_providers :: "string list"
  uo_public_read_include :: "string list"
  uo_public_read_exclude :: "string list"
  uo_remove_local :: bool
  uo_concurrency :: nat
  uo_retry :: retry_config

record public_read_matcher =
  pm_include :: "(string \<Rightarrow> bool) list"
  pm_exclude :: "(string \<Rightarrow> bool) list"

record storage_target_plan =
  tp_provider :: string
  tp_provider_kind :: string
  tp_endpoint :: string
  tp_bucket :: string
  tp_prefix :: "string option"
  tp_base_url :: string
  tp_public_read :: bool
  tp_path_style :: bool

text \<open>The backend: opening an operator for a scheme and its options, and one write of an object.\<close>

record ('o, 'g) storage_ops =
  so_open :: "string \<Rightarrow> (string, string) btmap \<Rightarrow> string + 'o"
  so_write :: "'o \<Rightarrow> string \<Rightarrow> bytes \<Rightarrow> string \<Rightarrow> 'g \<Rightarrow> (string + unit) \<times> 'g"
  so_mime :: "string \<Rightarrow> string"
  so_regex :: regex

section \<open>Templates, endpoints and paths\<close>

definition resolve_storage_template :: "string \<Rightarrow> string \<Rightarrow> string" where
  "resolve_storage_template value region_name = str_replace ''{region}'' region_name (str_replace ''{server}'' region_name value)"

definition resolve_bucket_template :: "string \<Rightarrow> string \<Rightarrow> string" where
  "resolve_bucket_template bucket region_name = resolve_storage_template bucket region_name"

definition construct_endpoint_url :: "string \<Rightarrow> bool \<Rightarrow> string" where
  "construct_endpoint_url endpoint tls = (if tls then ''https'' else ''http'') @ ''://'' @ endpoint"

definition construct_provider_endpoint :: "string \<Rightarrow> bool \<Rightarrow> string" where
  "construct_provider_endpoint endpoint0 tls =
     (let endpoint = trim_end_matches (CHR ''/'') (trim endpoint0)
      in if starts_with ''http://'' endpoint \<or> starts_with ''https://'' endpoint then endpoint
         else construct_endpoint_url endpoint tls)"

definition construct_remote_path :: "string \<Rightarrow> string \<Rightarrow> storage_error + string" where
  "construct_remote_path extracted_save_path file_path =
     (case path_strip_prefix_text file_path extracted_save_path of
        None \<Rightarrow> Inl (StInvalidRelativePath file_path)
      | Some relative \<Rightarrow> Inr (replace_char (CHR 0x5C) (CHR ''/'') relative))"

definition normalize_prefix :: "string option \<Rightarrow> string option" where
  "normalize_prefix raw =
     opt_filter (\<lambda>p. p \<noteq> [])
       (map_option (\<lambda>p. replace_char (CHR 0x5C) (CHR ''/'') (trim_matches (CHR ''/'') p))
         (opt_filter (\<lambda>p. p \<noteq> []) (map_option trim raw)))"

definition construct_storage_key :: "string option \<Rightarrow> string \<Rightarrow> string \<Rightarrow> storage_error + string" where
  "construct_storage_key raw extracted_save_path file_path =
     res_bind (construct_remote_path extracted_save_path file_path) (\<lambda>remote_path.
       case normalize_prefix raw of
         Some p \<Rightarrow> Inr (p @ ''/'' @ remote_path)
       | None \<Rightarrow> Inr remote_path)"

section \<open>Providers\<close>

definition effective_scheme :: "storage_provider_config \<Rightarrow> string" where
  "effective_scheme provider = sp_scheme provider"

definition explicit_matches :: "string \<Rightarrow> storage_provider_config list \<Rightarrow> storage_provider_config list" where
  "explicit_matches provider_name providers =
     filter (\<lambda>p. case sp_name p of None \<Rightarrow> False | Some name \<Rightarrow> trim name = provider_name) providers"

definition scheme_matches :: "string \<Rightarrow> storage_provider_config list \<Rightarrow> storage_provider_config list" where
  "scheme_matches provider_name providers =
     filter (\<lambda>p. (case sp_name p of None \<Rightarrow> True | Some name \<Rightarrow> trim name = []) \<and>
                 eq_ignore_ascii_case (trim (effective_scheme p)) provider_name) providers"

definition find_storage_provider_config ::
    "storage_config \<Rightarrow> string \<Rightarrow> storage_error + storage_provider_config" where
  "find_storage_provider_config storage provider_name0 =
     (let provider_name = trim provider_name0;
          explicit = explicit_matches provider_name (sg_providers storage);
          matches = (if explicit = [] then scheme_matches provider_name (sg_providers storage) else explicit)
      in if provider_name = [] then
           Inl (StInvalidProviderConfig ''<selection>'' ''selected provider name is empty'')
         else case matches of
                [provider] \<Rightarrow> Inr provider
              | [] \<Rightarrow> Inl (StInvalidProviderConfig provider_name ''selected provider was not found'')
              | _ \<Rightarrow> Inl (StInvalidProviderConfig provider_name
                     ''selected provider matched multiple storage providers; set unique provider.name values''))"

definition selected_provider_configs ::
    "storage_config \<Rightarrow> string list \<Rightarrow> storage_error + storage_provider_config list" where
  "selected_provider_configs storage selected_providers =
     (if selected_providers = [] then Inr (sg_providers storage)
      else map_res (find_storage_provider_config storage) selected_providers)"

fun matches_bool :: "string \<Rightarrow> bool \<Rightarrow> bool" where
  "matches_bool value True = (to_lower (trim value) \<in> {''true'', ''1'', ''yes'', ''on''})"
| "matches_bool value False = (to_lower (trim value) \<in> {''false'', ''0'', ''no'', ''off''})"

text \<open>\<^verbatim>\<open>entry(key).or_insert_with(...)\<close>, done when the guard holds.\<close>

definition or_insert :: "string \<Rightarrow> string option \<Rightarrow> (string, string) btmap \<Rightarrow> (string, string) btmap" where
  "or_insert key value m =
     (case value of None \<Rightarrow> m | Some v \<Rightarrow> if map_of m key = None then bt_insert key v m else m)"

abbreviation when_some :: "bool \<Rightarrow> 'a \<Rightarrow> 'a option" where
  "when_some c v \<equiv> (if c then Some v else None)"

definition root_option :: "storage_provider_config \<Rightarrow> string \<Rightarrow> string option" where
  "root_option provider region_name =
     (case opt_filter (\<lambda>r. r \<noteq> []) (map_option trim (sp_root provider)) of
        Some r \<Rightarrow> Some (resolve_storage_template r region_name)
      | None \<Rightarrow> map_option (\<lambda>p. resolve_storage_template p region_name) (normalize_prefix (sp_prefix provider)))"

definition provider_options :: "storage_provider_config \<Rightarrow> string \<Rightarrow> string \<Rightarrow> (string, string) btmap" where
  "provider_options provider scheme region_name =
     (or_insert ''enable_virtual_host_style'' (when_some (\<not> sp_path_style provider) ''true'')
     (or_insert ''default_acl'' (when_some (scheme = ''s3'' \<and> sp_public_read provider) ''public-read'')
     (or_insert ''secret_access_key'' (opt_filter (\<lambda>v. v \<noteq> []) (sp_secret_key provider))
     (or_insert ''access_key_id'' (opt_filter (\<lambda>v. v \<noteq> []) (sp_access_key provider))
     (or_insert ''region'' (opt_filter (\<lambda>v. v \<noteq> []) (sp_region provider))
     (or_insert ''endpoint'' (when_some (trim (sp_endpoint provider) \<noteq> [])
                               (construct_provider_endpoint (sp_endpoint provider) (sp_tls provider)))
     (or_insert ''bucket'' (when_some (trim (sp_bucket provider) \<noteq> []) (resolve_bucket_template (sp_bucket provider) region_name))
     (or_insert ''root'' (root_option provider region_name)
       (map (\<lambda>(key, value). (key, resolve_storage_template value region_name)) (sp_options provider))))))))))"

definition provider_label :: "storage_provider_config \<Rightarrow> string \<Rightarrow> string" where
  "provider_label provider scheme = unwrap_or scheme (opt_filter (\<lambda>name. trim name \<noteq> []) (sp_name provider))"

definition resolve_storage_provider ::
    "storage_provider_config \<Rightarrow> string \<Rightarrow> storage_error + resolved_storage_provider" where
  "resolve_storage_provider provider region_name =
     (let scheme = to_lower (trim (effective_scheme provider));
          label = provider_label provider scheme;
          options = provider_options provider scheme region_name;
          bucket = unwrap_or [] (map_of options ''bucket'');
          endpoint = unwrap_or [] (map_of options ''endpoint'')
      in if scheme = [] then Inl (StInvalidProviderConfig label ''scheme is empty'')
         else if scheme = ''s3'' \<and> trim bucket = [] then Inl (StMissingBucket label)
         else Inr \<lparr>
           rs_provider = label,
           rs_scheme = scheme,
           rs_endpoint = endpoint,
           rs_bucket = bucket,
           rs_root = opt_filter (\<lambda>r. r \<noteq> [])
             (map_option (\<lambda>r. replace_char (CHR 0x5C) (CHR ''/'') (trim_matches (CHR ''/'') (trim r)))
               (map_of options ''root'')),
           rs_base_url =
             unwrap_or endpoint (map_option (\<lambda>url. resolve_storage_template (trim_end_matches (CHR ''/'') (trim url)) region_name)
               (opt_filter (\<lambda>url. trim url \<noteq> []) (sp_public_base_url provider))),
           rs_public_read = (case map_of options ''default_acl'' of None \<Rightarrow> False | Some acl \<Rightarrow> eq_ignore_ascii_case acl ''public-read''),
           rs_path_style = (case map_of options ''enable_virtual_host_style'' of None \<Rightarrow> True | Some v \<Rightarrow> \<not> matches_bool v True),
           rs_options = options\<rparr>)"

definition target_plan_for :: "resolved_storage_provider \<Rightarrow> storage_target_plan" where
  "target_plan_for resolved =
     \<lparr>tp_provider = rs_provider resolved, tp_provider_kind = rs_scheme resolved, tp_endpoint = rs_endpoint resolved,
      tp_bucket = rs_bucket resolved, tp_prefix = rs_root resolved, tp_base_url = rs_base_url resolved,
      tp_public_read = rs_public_read resolved, tp_path_style = rs_path_style resolved\<rparr>"

definition plan_storage_targets ::
    "storage_config \<Rightarrow> string \<Rightarrow> string list \<Rightarrow> storage_error + storage_target_plan list" where
  "plan_storage_targets storage region_name selected_providers =
     res_bind (selected_provider_configs storage selected_providers)
       (map_res (\<lambda>provider. res_bind (resolve_storage_provider provider region_name) (\<lambda>r. Inr (target_plan_for r))))"

definition open_operator ::
    "('o, 'g) storage_ops \<Rightarrow> string \<Rightarrow> string \<Rightarrow> (string, string) btmap \<Rightarrow> storage_error + 'o" where
  "open_operator ops provider scheme options =
     (case so_open ops scheme options of Inl source \<Rightarrow> Inl (StProvider provider source) | Inr operator \<Rightarrow> Inr operator)"

definition build_operator_target ::
    "('o, 'g) storage_ops \<Rightarrow> string \<Rightarrow> storage_provider_config \<Rightarrow> storage_error + 'o storage_operator_target" where
  "build_operator_target ops region_name provider =
     res_bind (resolve_storage_provider provider region_name) (\<lambda>resolved.
     res_bind (open_operator ops (rs_provider resolved) (rs_scheme resolved) (rs_options resolved)) (\<lambda>operator.
     res_bind
       (if rs_scheme resolved = ''s3'' \<and> \<not> rs_public_read resolved then
          res_bind (open_operator ops (rs_provider resolved) (rs_scheme resolved)
                      (bt_insert ''default_acl'' ''public-read'' (rs_options resolved)))
            (\<lambda>public_op. Inr (Some public_op))
        else Inr None) (\<lambda>public_operator.
     Inr \<lparr>ot_provider = rs_provider resolved, ot_scheme = rs_scheme resolved, ot_operator = operator,
          ot_public_operator = public_operator\<rparr>)))"

definition build_storage_operator_targets ::
    "('o, 'g) storage_ops \<Rightarrow> storage_config \<Rightarrow> string \<Rightarrow> string list \<Rightarrow> storage_error + 'o storage_operator_target list" where
  "build_storage_operator_targets ops storage region_name selected_providers =
     res_bind (selected_provider_configs storage selected_providers) (map_res (build_operator_target ops region_name))"

definition build_storage_operator_target ::
    "('o, 'g) storage_ops \<Rightarrow> storage_config \<Rightarrow> string \<Rightarrow> string \<Rightarrow> storage_error + 'o storage_operator_target" where
  "build_storage_operator_target ops storage provider_name region_name =
     res_bind (find_storage_provider_config storage provider_name) (build_operator_target ops region_name)"

section \<open>Public-read rules\<close>

definition compile_public_read_rules :: "regex \<Rightarrow> string list \<Rightarrow> storage_error + (string \<Rightarrow> bool) list" where
  "compile_public_read_rules regex patterns =
     map_res (\<lambda>pattern. ok_or (StInvalidPublicReadRule pattern) (regex pattern)) (filter (\<lambda>p. trim p \<noteq> []) patterns)"

definition new_public_read_matcher :: "regex \<Rightarrow> string list \<Rightarrow> string list \<Rightarrow> storage_error + public_read_matcher" where
  "new_public_read_matcher regex include exclude =
     res_bind (compile_public_read_rules regex include) (\<lambda>i.
     res_bind (compile_public_read_rules regex exclude) (\<lambda>e. Inr \<lparr>pm_include = i, pm_exclude = e\<rparr>))"

definition matches_remote_path :: "public_read_matcher \<Rightarrow> string \<Rightarrow> bool" where
  "matches_remote_path m remote_path \<longleftrightarrow>
     (if pm_include m = [] then False
      else list_ex (\<lambda>r. r remote_path) (pm_include m) \<and> \<not> list_ex (\<lambda>r. r remote_path) (pm_exclude m))"

definition matches_file :: "public_read_matcher \<Rightarrow> string \<Rightarrow> string \<Rightarrow> storage_error + bool" where
  "matches_file m extracted_save_path file_path =
     res_bind (construct_remote_path extracted_save_path file_path) (\<lambda>p. Inr (matches_remote_path m p))"

definition operator_for_file :: "'o storage_operator_target \<Rightarrow> bool \<Rightarrow> 'o" where
  "operator_for_file target public_read =
     (if public_read \<and> ot_scheme target = ''s3'' then unwrap_or (ot_operator target) (ot_public_operator target)
      else ot_operator target)"

section \<open>One upload\<close>

fun is_retryable_storage_error :: "storage_error \<Rightarrow> bool" where
  "is_retryable_storage_error (StUpload _ _ _) = True"
| "is_retryable_storage_error _ = False"

definition write_attempt ::
    "('o, 'g) storage_ops \<Rightarrow> 'o storage_operator_target \<Rightarrow> string \<Rightarrow> string \<Rightarrow> bytes \<Rightarrow> bool \<Rightarrow> ('g, storage_error, unit) attempt_op" where
  "write_attempt ops target file_path remote_path content public_read attempt g =
     st_map_err (StUpload (ot_provider target) file_path)
       (so_write ops (operator_for_file target public_read) remote_path content (so_mime ops file_path) g)"

definition upload_single_file ::
    "('o, 'g) storage_ops \<Rightarrow> 'o storage_operator_target \<Rightarrow> string \<Rightarrow> string \<Rightarrow> bool \<Rightarrow> retry_config \<Rightarrow> fs \<Rightarrow> 'g \<Rightarrow>
     (storage_error + unit) \<times> fs \<times> 'g" where
  "upload_single_file ops target extracted_save_path file_path public_read retry s g =
     (case construct_remote_path extracted_save_path file_path of
        Inl e \<Rightarrow> (Inl e, s, g)
      | Inr remote_path \<Rightarrow>
          (case fs_read file_path s of
             (Inl kind, s') \<Rightarrow> (Inl (StIo file_path kind), s', g)
           | (Inr content, s') \<Rightarrow>
               (let r = retry_async retry (write_attempt ops target file_path remote_path content public_read)
                          is_retryable_storage_error g
                in (run_result r, s', run_state r))))"

section \<open>The pool of uploads\<close>

text \<open>One task per target and file; a task holds a permit while it uploads. The pending pairs are spawned in
  order; which waiting task gets a permit, and which of the running and finished tasks is next, is up to
  the schedule. The first error that is seen drops the rest. A task's reading and its attempts are one
  action. \<open>us_stored\<close> collects the joined uploads.\<close>

record 'o upload_job =
  uj_target :: "'o storage_operator_target"
  uj_path :: string
  uj_public_read :: bool

record ('o, 'g) upload_state =
  us_pending :: "('o storage_operator_target \<times> string) list"
  us_waiting :: "'o upload_job list"
  us_running :: "'o upload_job list"
  us_finished :: "('o upload_job \<times> (storage_error + unit)) list"
  us_stored :: "'o upload_job list"
  us_error :: "storage_error option"
  us_fs :: fs
  us_gate :: 'g

datatype upload_action = Spawn | Acquire nat | Finish nat | Join nat

record ('o, 'g) upload_env =
  ue_ops :: "('o, 'g) storage_ops"
  ue_root :: string
  ue_matcher :: public_read_matcher
  ue_permits :: nat
  ue_retry :: retry_config

definition uploads_over :: "('o, 'g) upload_state \<Rightarrow> bool" where
  "uploads_over s \<longleftrightarrow> us_error s \<noteq> None \<or>
     (us_pending s = [] \<and> us_waiting s = [] \<and> us_running s = [] \<and> us_finished s = [])"

definition spawn_upload :: "('o, 'g) upload_env \<Rightarrow> ('o, 'g) upload_state \<Rightarrow> ('o, 'g) upload_state option" where
  "spawn_upload env s =
     (case us_pending s of
        [] \<Rightarrow> None
      | (target, file) # rest \<Rightarrow>
          (case matches_file (ue_matcher env) (ue_root env) file of
             Inl e \<Rightarrow> Some (s\<lparr>us_error := Some e\<rparr>)
           | Inr public_read \<Rightarrow>
               Some (s\<lparr>us_pending := rest,
                       us_waiting := us_waiting s @ [\<lparr>uj_target = target, uj_path = file, uj_public_read = public_read\<rparr>]\<rparr>)))"

definition finish_upload :: "('o, 'g) upload_env \<Rightarrow> nat \<Rightarrow> ('o, 'g) upload_state \<Rightarrow> ('o, 'g) upload_state" where
  "finish_upload env i s =
     (let job = us_running s ! i;
          (r, fs', g') = upload_single_file (ue_ops env) (uj_target job) (ue_root env) (uj_path job) (uj_public_read job)
                           (ue_retry env) (us_fs s) (us_gate s)
      in s\<lparr>us_running := remove_nth i (us_running s), us_finished := us_finished s @ [(job, r)], us_fs := fs', us_gate := g'\<rparr>)"

definition join_upload :: "nat \<Rightarrow> ('o, 'g) upload_state \<Rightarrow> ('o, 'g) upload_state" where
  "join_upload i s =
     (let (job, r) = us_finished s ! i; s' = s\<lparr>us_finished := remove_nth i (us_finished s)\<rparr>
      in case r of
           Inl e \<Rightarrow> s'\<lparr>us_error := Some e\<rparr>
         | Inr _ \<Rightarrow> s'\<lparr>us_stored := us_stored s @ [job]\<rparr>)"

fun upload_step :: "('o, 'g) upload_env \<Rightarrow> upload_action \<Rightarrow> ('o, 'g) upload_state \<Rightarrow> ('o, 'g) upload_state option" where
  "upload_step env Spawn s = (if us_error s \<noteq> None then None else spawn_upload env s)"
| "upload_step env (Acquire i) s =
     (if us_error s \<noteq> None \<or> \<not> i < length (us_waiting s) \<or> \<not> length (us_running s) < ue_permits env then None
      else Some (s\<lparr>us_waiting := remove_nth i (us_waiting s), us_running := us_running s @ [us_waiting s ! i]\<rparr>))"
| "upload_step env (Finish i) s =
     (if us_error s \<noteq> None \<or> \<not> i < length (us_running s) then None else Some (finish_upload env i s))"
| "upload_step env (Join i) s =
     (if us_error s \<noteq> None \<or> us_pending s \<noteq> [] \<or> \<not> i < length (us_finished s) then None else Some (join_upload i s))"

definition upload_start :: "'o storage_operator_target list \<Rightarrow> string list \<Rightarrow> fs \<Rightarrow> 'g \<Rightarrow> ('o, 'g) upload_state" where
  "upload_start targets files s g =
     \<lparr>us_pending = List.product targets files, us_waiting = [], us_running = [], us_finished = [], us_stored = [],
      us_error = None, us_fs = s, us_gate = g\<rparr>"

fun remove_uploaded :: "string list \<Rightarrow> fs \<Rightarrow> (storage_error + unit) \<times> fs" where
  "remove_uploaded [] s = (Inr (), s)"
| "remove_uploaded (file # files) s = st_bind (st_map_err (StIo file) (fs_remove_file file s)) (\<lambda>_. remove_uploaded files)"

definition upload_env_for :: "('o, 'g) storage_ops \<Rightarrow> string \<Rightarrow> public_read_matcher \<Rightarrow> storage_upload_options \<Rightarrow> ('o, 'g) upload_env" where
  "upload_env_for ops base matcher options =
     \<lparr>ue_ops = ops, ue_root = base, ue_matcher = matcher, ue_permits = max (uo_concurrency options) 1, ue_retry = uo_retry options\<rparr>"

text \<open>\<open>None\<close> is only returned for a schedule that does not lead to the end.\<close>

definition upload_to_all_storages ::
    "('o, 'g) storage_ops \<Rightarrow> upload_action list \<Rightarrow> storage_config \<Rightarrow> string \<Rightarrow> string \<Rightarrow> string list \<Rightarrow> storage_upload_options \<Rightarrow>
     fs \<Rightarrow> 'g \<Rightarrow> ((storage_error + unit) \<times> fs \<times> 'g) option" where
  "upload_to_all_storages ops sched storage region_name extracted_save_path files options s g =
     (if files = [] \<or> (sg_providers storage = [] \<and> uo_selected_providers options = []) then Some (Inr (), s, g)
      else case build_storage_operator_targets ops storage region_name (uo_selected_providers options) of
             Inl e \<Rightarrow> Some (Inl e, s, g)
           | Inr targets \<Rightarrow>
               (case new_public_read_matcher (so_regex ops) (uo_public_read_include options) (uo_public_read_exclude options) of
                  Inl e \<Rightarrow> Some (Inl e, s, g)
                | Inr matcher \<Rightarrow>
                    (case run_steps (upload_step (upload_env_for ops extracted_save_path matcher options)) sched (upload_start targets files s g) of
                       None \<Rightarrow> None
                     | Some st \<Rightarrow>
                         if \<not> uploads_over st then None
                         else case us_error st of
                                Some e \<Rightarrow> Some (Inl e, us_fs st, us_gate st)
                              | None \<Rightarrow>
                                  if uo_remove_local options
                                  then (case remove_uploaded files (us_fs st) of (r, s') \<Rightarrow> Some (r, s', us_gate st))
                                  else Some (Inr (), us_fs st, us_gate st))))"

section \<open>Lemmas: the pool\<close>

lemma upload_single_file_reads:
  "upload_single_file ops t base path pr retry s g = (r, s', g') \<Longrightarrow> fs_files s' = fs_files s"
  by (auto simp: upload_single_file_def fs_read_def Let_def split: sum.splits option.splits prod.splits)

definition upload_work :: "('o, 'g) upload_state \<Rightarrow> nat" where
  "upload_work s =
     (if us_error s \<noteq> None then 0
      else 4 * length (us_pending s) + 3 * length (us_waiting s) + 2 * length (us_running s) + length (us_finished s))"

definition pool_inv :: "('o, 'g) upload_env \<Rightarrow> ('o, 'g) upload_state \<Rightarrow> bool" where
  "pool_inv env s \<longleftrightarrow> 0 < ue_permits env \<and> length (us_running s) \<le> ue_permits env"

lemma upload_step_cases:
  assumes "upload_step env a s = Some s'"
  obtains (refused) e where "s' = s\<lparr>us_error := Some e\<rparr>" "us_pending s \<noteq> []"
  | (spawned) t f rest pr where "us_pending s = (t, f) # rest" "matches_file (ue_matcher env) (ue_root env) f = Inr pr"
      "s' = s\<lparr>us_pending := rest, us_waiting := us_waiting s @ [\<lparr>uj_target = t, uj_path = f, uj_public_read = pr\<rparr>]\<rparr>"
  | (acquired) i where "i < length (us_waiting s)" "length (us_running s) < ue_permits env"
      "s' = s\<lparr>us_waiting := remove_nth i (us_waiting s), us_running := us_running s @ [us_waiting s ! i]\<rparr>"
  | (ended) i where "i < length (us_running s)" "s' = finish_upload env i s"
  | (joined) i where "i < length (us_finished s)" "us_pending s = []" "s' = join_upload i s"
  using assms by (cases a) (auto simp: spawn_upload_def split: if_splits list.splits sum.splits)

lemma upload_step_running: "upload_step env a s = Some s' \<Longrightarrow> us_error s = None"
  by (cases a) (auto split: if_splits)

lemma pool_keeps: "pool_inv env s \<Longrightarrow> upload_step env a s = Some s' \<Longrightarrow> pool_inv env s'"
  by (erule upload_step_cases)
    (auto simp: pool_inv_def finish_upload_def join_upload_def Let_def length_remove_nth split: prod.split sum.split)

lemma pool_shrinks:
  assumes "upload_step env a s = Some s'"
  shows "upload_work s' < upload_work s"
  using upload_step_running [OF assms] assms
  by (elim upload_step_cases; cases "us_pending s")
    (auto simp: upload_work_def finish_upload_def join_upload_def Let_def length_remove_nth split: prod.split sum.split)

lemma pool_enabled:
  assumes "pool_inv env s" and "\<not> uploads_over s"
  shows "\<exists>a. upload_step env a s \<noteq> None"
proof -
  consider "us_pending s \<noteq> []" | "us_running s \<noteq> []" | "us_running s = []" "us_waiting s \<noteq> []"
    | "us_pending s = []" "us_finished s \<noteq> []"
    using assms(2) by (auto simp: uploads_over_def)
  then show ?thesis
  proof cases
    case 1
    then have "upload_step env Spawn s \<noteq> None"
      using assms(2) by (auto simp: spawn_upload_def uploads_over_def split: list.split sum.split)
    then show ?thesis ..
  next
    case 2
    then have "upload_step env (Finish 0) s \<noteq> None" using assms(2) by (simp add: uploads_over_def)
    then show ?thesis ..
  next
    case 3
    then have "upload_step env (Acquire 0) s \<noteq> None" using assms by (simp add: uploads_over_def pool_inv_def)
    then show ?thesis ..
  next
    case 4
    then have "upload_step env (Join 0) s \<noteq> None" using assms(2) by (simp add: uploads_over_def)
    then show ?thesis ..
  qed
qed

interpretation uploads: task_pool "upload_step env" uploads_over "pool_inv env" upload_work for env
  by unfold_locales (rule pool_keeps pool_shrinks pool_enabled; assumption)+

text \<open>No job is lost or made up, and uploading changes no local file.\<close>

definition pair_of :: "'o upload_job \<Rightarrow> 'o storage_operator_target \<times> string" where
  "pair_of job = (uj_target job, uj_path job)"

definition account_uploads :: "('o storage_operator_target \<times> string) multiset \<Rightarrow> fs \<Rightarrow> ('o, 'g) upload_state \<Rightarrow> bool" where
  "account_uploads all s0 s \<longleftrightarrow> fs_files (us_fs s) = fs_files s0 \<and>
     (us_error s = None \<longrightarrow>
        all = mset (us_pending s) + mset (map pair_of (us_waiting s)) + mset (map pair_of (us_running s)) +
              mset (map (pair_of \<circ> fst) (us_finished s)) + mset (map pair_of (us_stored s)))"

lemma mset_map_remove:
  "i < length xs \<Longrightarrow> mset (map f xs) = add_mset (f (xs ! i)) (mset (map f (remove_nth i xs)))"
  using mset_remove_nth [of i "map f xs"] by (simp add: map_remove_nth)

lemma uploads_account_step:
  assumes acc: "account_uploads all s0 s" and step: "upload_step env a s = Some s'"
  shows "account_uploads all s0 s'"
  using step
proof (cases rule: upload_step_cases)
  case (acquired i)
  then show ?thesis using acc mset_map_remove [of i "us_waiting s" pair_of] by (auto simp: account_uploads_def)
next
  case (ended i)
  obtain r fs' g' where "upload_single_file (ue_ops env) (uj_target (us_running s ! i)) (ue_root env) (uj_path (us_running s ! i))
      (uj_public_read (us_running s ! i)) (ue_retry env) (us_fs s) (us_gate s) = (r, fs', g')" by (metis surj_pair)
  then show ?thesis
    using ended acc mset_map_remove [of i "us_running s" pair_of] upload_single_file_reads
    by (fastforce simp: account_uploads_def finish_upload_def Let_def)
next
  case (joined i)
  then show ?thesis
    using acc mset_map_remove [of i "us_finished s" "pair_of \<circ> fst"] upload_step_running [OF step]
    by (cases "us_finished s ! i") (auto simp: account_uploads_def join_upload_def Let_def split: sum.split)
qed (use acc in \<open>auto simp: account_uploads_def pair_of_def\<close>)

lemma uploads_account_start: "account_uploads (mset (List.product targets files)) s (upload_start targets files s g)"
  by (simp add: account_uploads_def upload_start_def)

lemma start_pool_inv: "pool_inv (upload_env_for ops base matcher options) (upload_start targets files s g)"
  by (simp add: pool_inv_def upload_env_for_def upload_start_def)

lemma start_work: "upload_work (upload_start targets files s g) = 4 * (length targets * length files)"
  by (simp add: upload_work_def upload_start_def)

lemma fs_remove_file_files:
  "fs_remove_file path s = (r, s') \<Longrightarrow> fs_files s' f = (if f = path \<and> r = Inr () then None else fs_files s f)"
  by (auto simp: fs_remove_file_def split: option.splits)

lemma remove_uploaded_files:
  "remove_uploaded files s = (r, s') \<Longrightarrow>
     (f \<notin> set files \<longrightarrow> fs_files s' f = fs_files s f) \<and> (fs_files s f = None \<longrightarrow> fs_files s' f = None) \<and>
     (r = Inr () \<and> f \<in> set files \<longrightarrow> fs_files s' f = None)"
proof (induction files arbitrary: s)
  case (Cons path files)
  obtain r1 s1 where r1: "fs_remove_file path s = (r1, s1)" by fastforce
  have "remove_uploaded (path # files) s = (case r1 of Inl e \<Rightarrow> (Inl (StIo path e), s1) | Inr _ \<Rightarrow> remove_uploaded files s1)"
    by (simp add: r1 st_map_err_def split: sum.split)
  with Cons.prems show ?case using fs_remove_file_files [OF r1, of f] Cons.IH [of s1] by (cases r1) auto
qed simp

lemma remove_uploaded_only:
  "remove_uploaded files s = (r, s') \<Longrightarrow> fs_files s' f = fs_files s f \<or> fs_files s' f = None"
proof (induction files arbitrary: s)
  case (Cons path files)
  obtain r1 s1 where r1: "fs_remove_file path s = (r1, s1)" by fastforce
  with Cons show ?case using fs_remove_file_files [OF r1, of f]
    by (cases r1) (fastforce simp: st_map_err_def split: if_splits)+
qed simp

text \<open>The backend accepted the contents of the file under its remote path.\<close>

definition accepted :: "('o, 'g) storage_ops \<Rightarrow> string \<Rightarrow> fs \<Rightarrow> 'o upload_job \<Rightarrow> bool" where
  "accepted ops base s job \<longleftrightarrow>
     (\<exists>remote_path content g1 g2. construct_remote_path base (uj_path job) = Inr remote_path \<and>
        fs_files s (uj_path job) = Some content \<and>
        so_write ops (operator_for_file (uj_target job) (uj_public_read job)) remote_path content (so_mime ops (uj_path job)) g1 =
          (Inr (), g2))"

lemma upload_single_file_accepted:
  assumes "upload_single_file ops (uj_target job) base (uj_path job) (uj_public_read job) retry s g = (Inr (), s', g')"
  shows "accepted ops base s job"
proof -
  obtain remote where remote: "construct_remote_path base (uj_path job) = Inr remote"
    using assms by (auto simp: upload_single_file_def split: sum.splits)
  obtain content s1 where c: "fs_read (uj_path job) s = (Inr content, s1)"
    using assms remote by (auto simp: upload_single_file_def split: sum.splits prod.splits)
  then have "fs_files s (uj_path job) = Some content" by (auto simp: fs_read_def split: option.splits)
  moreover obtain k g1 g2 where "write_attempt ops (uj_target job) (uj_path job) remote content (uj_public_read job) k g1 = (Inr (), g2)"
    using assms remote c
    by (auto simp: upload_single_file_def retry_async_def Let_def dest!: retry_from_ok)
  ultimately show ?thesis
    using remote by (fastforce simp: accepted_def write_attempt_def st_map_err_def split: prod.splits sum.splits)
qed

definition done_jobs :: "('o, 'g) upload_state \<Rightarrow> 'o upload_job set" where
  "done_jobs s = set (us_stored s) \<union> fst ` {x \<in> set (us_finished s). snd x = Inr ()}"

definition jobs_inv :: "('o, 'g) upload_env \<Rightarrow> fs \<Rightarrow> ('o, 'g) upload_state \<Rightarrow> bool" where
  "jobs_inv env s0 s \<longleftrightarrow> fs_files (us_fs s) = fs_files s0 \<and>
     (\<forall>job\<in>done_jobs s. accepted (ue_ops env) (ue_root env) s0 job) \<and>
     (\<forall>job\<in>set (us_waiting s) \<union> set (us_running s) \<union> fst ` set (us_finished s) \<union> set (us_stored s).
        matches_file (ue_matcher env) (ue_root env) (uj_path job) = Inr (uj_public_read job))"

lemma accepted_cong: "fs_files s = fs_files s' \<Longrightarrow> accepted ops base s job = accepted ops base s' job"
  by (simp add: accepted_def)

lemma jobs_step:
  assumes inv: "jobs_inv env s0 s" and step: "upload_step env a s = Some s'"
  shows "jobs_inv env s0 s'"
  using step
proof (cases rule: upload_step_cases)
  case (acquired i)
  then show ?thesis
    using inv set_remove_nth [of i "us_waiting s"] by (auto simp: jobs_inv_def done_jobs_def)
next
  case (ended i)
  let ?job = "us_running s ! i"
  obtain r fs' g' where r: "upload_single_file (ue_ops env) (uj_target ?job) (ue_root env) (uj_path ?job)
      (uj_public_read ?job) (ue_retry env) (us_fs s) (us_gate s) = (r, fs', g')" by (metis surj_pair)
  have same: "fs_files (us_fs s) = fs_files s0" using inv by (simp add: jobs_inv_def)
  have "accepted (ue_ops env) (ue_root env) s0 ?job" if "r = Inr ()"
    using upload_single_file_accepted [OF r [unfolded that]] accepted_cong [OF same] by blast
  then show ?thesis
    using inv ended r upload_single_file_reads [OF r] set_remove_nth [of i "us_running s"]
    by (auto simp: jobs_inv_def done_jobs_def finish_upload_def Let_def)
next
  case (joined i)
  obtain job r where jr: "us_finished s ! i = (job, r)" by fastforce
  then have mem: "(job, r) \<in> set (us_finished s)" using joined(1) by (metis nth_mem)
  have sub: "set (remove_nth i (us_finished s)) \<subseteq> set (us_finished s)" by (rule set_remove_nth)
  have s': "us_waiting s' = us_waiting s" "us_running s' = us_running s" "us_fs s' = us_fs s"
    "us_finished s' = remove_nth i (us_finished s)" "us_stored s' = us_stored s @ (case r of Inl _ \<Rightarrow> [] | Inr _ \<Rightarrow> [job])"
    using joined(3) jr by (simp_all add: join_upload_def Let_def split: sum.split)
  have "done_jobs s' \<subseteq> done_jobs s" using sub mem by (cases r) (force simp: done_jobs_def s')+
  moreover have "fst ` set (us_finished s') \<union> set (us_stored s') \<subseteq> fst ` set (us_finished s) \<union> set (us_stored s)"
    using sub mem by (cases r) (force simp: s')+
  ultimately show ?thesis using inv unfolding jobs_inv_def s'(1-3) by blast
qed (use inv in \<open>auto simp: jobs_inv_def done_jobs_def\<close>)

lemma jobs_start: "jobs_inv env s (upload_start targets files s g)"
  by (simp add: jobs_inv_def done_jobs_def upload_start_def)

text \<open>What a run of the pool leaves behind.\<close>

lemma upload_run_end:
  assumes run: "run_steps (upload_step env) sched (upload_start targets files s g) = Some st"
  shows "fs_files (us_fs st) = fs_files s"
    and "uploads_over st \<Longrightarrow> us_error st = None \<Longrightarrow>
      mset (map pair_of (us_stored st)) = mset (List.product targets files) \<and>
      (\<forall>job\<in>set (us_stored st). accepted (ue_ops env) (ue_root env) s job \<and>
         matches_file (ue_matcher env) (ue_root env) (uj_path job) = Inr (uj_public_read job))"
proof -
  have acc: "account_uploads (mset (List.product targets files)) s st"
    by (rule run_steps_inv [where I = "account_uploads (mset (List.product targets files)) s", OF uploads_account_step uploads_account_start run])
  have jobs: "jobs_inv env s st"
    by (rule run_steps_inv [where I = "jobs_inv env s", OF jobs_step jobs_start run])
  show "fs_files (us_fs st) = fs_files s" using acc by (simp add: account_uploads_def)
  show "mset (map pair_of (us_stored st)) = mset (List.product targets files) \<and>
      (\<forall>job\<in>set (us_stored st). accepted (ue_ops env) (ue_root env) s job \<and>
         matches_file (ue_matcher env) (ue_root env) (uj_path job) = Inr (uj_public_read job))"
    if "uploads_over st" "us_error st = None"
    using acc jobs that by (auto simp: account_uploads_def uploads_over_def jobs_inv_def done_jobs_def)
qed

section \<open>Lemmas: options\<close>

lemma or_insert_get:
  "map_of (or_insert key value m) k = (if k = key \<and> map_of m key = None then value else map_of m k)"
  by (auto simp: or_insert_def split: option.split)

lemma or_insert_keeps: "map_of m k = Some v \<Longrightarrow> map_of (or_insert key value m) k = Some v"
  by (auto simp: or_insert_get)

lemma or_insert_wf: "btmap_wf m \<Longrightarrow> btmap_wf (or_insert key value m)"
  by (simp add: or_insert_def split: option.split)

lemma map_of_map_values: "map_of (map (\<lambda>(k, v). (k, f v)) m) k = map_option f (map_of m k)"
  by (induction m) auto

lemma provider_options_explicit:
  "map_of (sp_options p) k = Some v \<Longrightarrow> map_of (provider_options p scheme region) k = Some (resolve_storage_template v region)"
  unfolding provider_options_def by (intro or_insert_keeps) (simp add: map_of_map_values)

lemma provider_options_wf:
  assumes "btmap_wf (sp_options p)"
  shows "btmap_wf (provider_options p scheme region)"
proof -
  have "map fst (map (\<lambda>(k, v). (k, resolve_storage_template v region)) (sp_options p)) = map fst (sp_options p)"
    by (simp add: case_prod_unfold comp_def)
  then have "btmap_wf (map (\<lambda>(k, v). (k, resolve_storage_template v region)) (sp_options p))"
    using assms unfolding btmap_wf_def by (simp only:)
  then show ?thesis unfolding provider_options_def by (intro or_insert_wf)
qed

section \<open>Properties\<close>


text \<open>the pool of uploads never holds more uploads in flight than the configured number (at least one),
  takes at most four actions per target and file, and can always go on to the end.\<close>

theorem storage_pool_always_finishes:
  assumes "run_steps (upload_step (upload_env_for ops base matcher options)) as (upload_start targets files s g) = Some st"
  shows "length (us_running st) \<le> max (uo_concurrency options) 1 \<and>
    length as \<le> 4 * (length targets * length files) \<and>
    (\<exists>bs st'. run_steps (upload_step (upload_env_for ops base matcher options)) (as @ bs) (upload_start targets files s g) = Some st' \<and>
       uploads_over st')"
proof -
  note start = start_pool_inv [of ops base matcher options targets files s g]
  have inv: "pool_inv (upload_env_for ops base matcher options) st" by (rule uploads.run_keeps [OF start assms])
  then have "length (us_running st) \<le> max (uo_concurrency options) 1" by (simp add: pool_inv_def upload_env_for_def)
  moreover have "length as \<le> 4 * (length targets * length files)"
    using uploads.run_bounded [OF start assms] by (simp add: start_work)
  ultimately show ?thesis using uploads.finishes [OF inv] assms by (auto simp: run_steps_append)
qed

text \<open>what is written in the options map of a provider always wins over the dedicated fields, after the
  region was filled in, and the resolved options are again a map.\<close>

theorem explicit_storage_options_win:
  assumes "resolve_storage_provider provider region = Inr resolved" and "btmap_wf (sp_options provider)"
    and "map_of (sp_options provider) key = Some value"
  shows "map_of (rs_options resolved) key = Some (resolve_storage_template value region) \<and> btmap_wf (rs_options resolved)"
proof -
  have "rs_options resolved = provider_options provider (to_lower (trim (sp_scheme provider))) region"
    using assms(1) by (auto simp: resolve_storage_provider_def Let_def effective_scheme_def split: if_splits)
  then show ?thesis using provider_options_explicit [OF assms(3)] provider_options_wf [OF assms(2)] by simp
qed

section \<open>Witnesses\<close>

definition demo_storage_ops :: "(string, nat) storage_ops" where
  "demo_storage_ops = \<lparr>so_open = (\<lambda>scheme options. Inr scheme), so_write = (\<lambda>operator path content mime g. (Inr (), g + 1)),
     so_mime = (\<lambda>_. ''text/plain''), so_regex = (\<lambda>_. Some (\<lambda>_. True))\<rparr>"

definition demo_provider :: storage_provider_config where
  "demo_provider = default_storage_provider_config\<lparr>sp_scheme := ''fs'', sp_options := [(''root'', ''/x/{region}'')]\<rparr>"

definition demo_upload_options :: storage_upload_options where
  "demo_upload_options = \<lparr>uo_selected_providers = [], uo_public_read_include = [], uo_public_read_exclude = [], uo_remove_local = True,
     uo_concurrency = 0, uo_retry = \<lparr>rt_attempts = 1, rt_initial_backoff_ms = 1, rt_max_backoff_ms = 1\<rparr>\<rparr>"

definition demo_store_fs :: fs where
  "demo_store_fs = \<lparr>fs_files = [''/d/a'' \<mapsto> [1]], fs_clock = 0, fs_fault = no_faults\<rparr>"

lemma demo_store_simps [simp]:
  "so_write demo_storage_ops operator path content mime g = (Inr (), g + 1)" "so_regex demo_storage_ops pattern = Some (\<lambda>_. True)"
  by (simp_all add: demo_storage_ops_def)

lemma demo_scheme: "trim ''fs'' = ''fs''" "to_lower ''fs'' = ''fs''"
  by code_simp+

lemma demo_template: "resolve_storage_template ''/x/{region}'' ''jp'' = ''/x/jp''"
  by code_simp

lemma demo_resolve:
  "\<exists>resolved. resolve_storage_provider demo_provider ''jp'' = Inr resolved \<and> rs_scheme resolved = ''fs'' \<and> rs_provider resolved = ''fs''"
  by (simp add: resolve_storage_provider_def effective_scheme_def demo_provider_def default_storage_provider_config_def Let_def
      demo_scheme provider_label_def opt_filter_def)

theorem explicit_storage_options_win_witness:
  "\<exists>resolved. resolve_storage_provider demo_provider ''jp'' = Inr resolved \<and> map_of (rs_options resolved) ''root'' = Some ''/x/jp''"
proof -
  obtain resolved where r: "resolve_storage_provider demo_provider ''jp'' = Inr resolved" using demo_resolve by blast
  have "map_of (sp_options demo_provider) ''root'' = Some ''/x/{region}''" "btmap_wf (sp_options demo_provider)"
    by (simp_all add: demo_provider_def btmap_wf_def)
  with r explicit_storage_options_win [OF r] show ?thesis by (simp add: demo_template)
qed

lemma demo_target:
  "build_storage_operator_targets demo_storage_ops \<lparr>sg_providers = [demo_provider]\<rparr> ''jp'' [] =
     Inr [\<lparr>ot_provider = ''fs'', ot_scheme = ''fs'', ot_operator = ''fs'', ot_public_operator = None\<rparr>]"
  using demo_resolve
  by (auto simp: build_storage_operator_targets_def selected_provider_configs_def build_operator_target_def open_operator_def demo_storage_ops_def)

lemma demo_remote: "construct_remote_path ''/d'' ''/d/a'' = Inr ''a''"
  by code_simp

lemma demo_single:
  "upload_single_file demo_storage_ops t ''/d'' ''/d/a'' pr (uo_retry demo_upload_options) demo_store_fs 0 = (Inr (), fs_tick demo_store_fs, 1)"
  by (simp add: upload_single_file_def demo_remote fs_read_def demo_store_fs_def retry_async_def retry_from.simps write_attempt_def
      st_map_err_def Let_def)

lemma demo_pool:
  assumes "env = upload_env_for demo_storage_ops ''/d'' \<lparr>pm_include = [], pm_exclude = []\<rparr> demo_upload_options"
  shows "\<exists>st. run_steps (upload_step env) [Spawn, Acquire 0, Finish 0, Join 0] (upload_start [t] [''/d/a''] demo_store_fs 0) = Some st \<and>
    uploads_over st \<and> us_error st = None \<and> us_fs st = fs_tick demo_store_fs \<and> us_gate st = 1"
  using demo_single [of t False]
  by (simp add: assms upload_start_def spawn_upload_def matches_file_def demo_remote matches_remote_path_def upload_env_for_def
      finish_upload_def join_upload_def remove_nth_def uploads_over_def)

lemma demo_upload:
  "\<exists>s'. upload_to_all_storages demo_storage_ops [Spawn, Acquire 0, Finish 0, Join 0] \<lparr>sg_providers = [demo_provider]\<rparr> ''jp'' ''/d''
     [''/d/a''] demo_upload_options demo_store_fs 0 = Some (Inr (), s', 1)"
proof -
  have o: "uo_selected_providers demo_upload_options = []" "uo_public_read_include demo_upload_options = []"
    "uo_public_read_exclude demo_upload_options = []" "uo_remove_local demo_upload_options" by (simp_all add: demo_upload_options_def)
  have "\<exists>s'. remove_uploaded [''/d/a''] (fs_tick demo_store_fs) = (Inr (), s')"
    by (simp add: fs_remove_file_def st_map_err_def demo_store_fs_def)
  with demo_pool [OF refl, of "\<lparr>ot_provider = ''fs'', ot_scheme = ''fs'', ot_operator = ''fs'', ot_public_operator = None\<rparr>"] show ?thesis
    by (auto simp: upload_to_all_storages_def o demo_target new_public_read_matcher_def compile_public_read_rules_def simp del: run_steps.simps)
qed


theorem storage_pool_always_finishes_witness:
  "\<exists>bs st'. run_steps (upload_step (upload_env_for demo_storage_ops ''/d'' \<lparr>pm_include = [], pm_exclude = []\<rparr> demo_upload_options)) ([] @ bs)
     (upload_start [\<lparr>ot_provider = ''fs'', ot_scheme = ''fs'', ot_operator = ''fs'', ot_public_operator = None\<rparr>] [''/d/a''] demo_store_fs 0) = Some st' \<and>
     uploads_over st'"
  using storage_pool_always_finishes [of demo_storage_ops "''/d''" "\<lparr>pm_include = [], pm_exclude = []\<rparr>" demo_upload_options "[]"
      "[\<lparr>ot_provider = ''fs'', ot_scheme = ''fs'', ot_operator = ''fs'', ot_public_operator = None\<rparr>]" "[''/d/a'']" demo_store_fs 0]
  by (auto simp only: run_steps.simps)

end
