(* ===== verification/Utf8.thy ===== *)
theory Utf8
  imports Haruki_Prelude
begin

text \<open>
  \<^verbatim>\<open>String::from_utf8_lossy\<close>: each maximal prefix of an ill-formed sequence becomes one replacement
  character. Strings of the model are their UTF-8 bytes.
\<close>

section \<open>Decoding\<close>

definition cont_byte :: "nat \<Rightarrow> bool" where
  "cont_byte b \<longleftrightarrow> 128 \<le> b \<and> b \<le> 191"

text \<open>The second byte of a sequence of three or four bytes, by the first.\<close>

definition second_ok :: "nat \<Rightarrow> nat \<Rightarrow> bool" where
  "second_ok a b \<longleftrightarrow>
     (if a = 224 then 160 \<le> b \<and> b \<le> 191
      else if a = 237 then 128 \<le> b \<and> b \<le> 159
      else if a = 240 then 144 \<le> b \<and> b \<le> 191
      else if a = 244 then 128 \<le> b \<and> b \<le> 143
      else cont_byte b)"

definition byte_at :: "nat list \<Rightarrow> nat \<Rightarrow> nat" where
  "byte_at bs i = (if i < length bs then bs ! i else 0)"

text \<open>Whether the text starts with a character, and the length of the character or of the broken sequence.\<close>

definition utf8_step :: "nat list \<Rightarrow> bool \<times> nat" where
  "utf8_step bs =
     (let a = byte_at bs 0 in
      if a < 128 then (True, 1)
      else if 194 \<le> a \<and> a \<le> 223 then (if cont_byte (byte_at bs 1) then (True, 2) else (False, 1))
      else if 224 \<le> a \<and> a \<le> 239 then
        (if \<not> second_ok a (byte_at bs 1) then (False, 1)
         else if \<not> cont_byte (byte_at bs 2) then (False, 2) else (True, 3))
      else if 240 \<le> a \<and> a \<le> 244 then
        (if \<not> second_ok a (byte_at bs 1) then (False, 1)
         else if \<not> cont_byte (byte_at bs 2) then (False, 2)
         else if \<not> cont_byte (byte_at bs 3) then (False, 3) else (True, 4))
      else (False, 1))"

lemma utf8_step_pos: "0 < snd (utf8_step bs)"
  by (simp add: utf8_step_def Let_def)

definition replacement :: string where
  "replacement = map char_of [239, 191, 189 :: nat]"

function from_utf8_lossy :: "string \<Rightarrow> string" where
  "from_utf8_lossy s =
     (if s = [] then []
      else case utf8_step (map of_char s) of (ok, n) \<Rightarrow>
        (if ok then take n s else replacement) @ from_utf8_lossy (drop n s))"
  by pat_completeness auto
termination
proof (relation "measure length", goal_cases)
  case (2 s ok n)
  then have "0 < n" using utf8_step_pos [of "map of_char s"] by (metis snd_conv)
  with 2 show ?case by simp
qed simp

declare from_utf8_lossy.simps [simp del]

section \<open>Well-formed text\<close>

function utf8_ok :: "string \<Rightarrow> bool" where
  "utf8_ok s = (if s = [] then True else case utf8_step (map of_char s) of (ok, n) \<Rightarrow> if ok then utf8_ok (drop n s) else False)"
  by pat_completeness auto
termination
proof (relation "measure length", goal_cases)
  case (2 s ok n)
  then have "0 < n" using utf8_step_pos [of "map of_char s"] by (metis snd_conv)
  with 2 show ?case by simp
qed simp

declare utf8_ok.simps [simp del]

lemma from_utf8_lossy_id: "utf8_ok s \<Longrightarrow> from_utf8_lossy s = s"
proof (induction s rule: utf8_ok.induct)
  case (1 s)
  obtain ok n where st: "utf8_step (map of_char s) = (ok, n)" by fastforce
  have "ok" "utf8_ok (drop n s)" if "s \<noteq> []"
    using "1.prems" that st by (subst (asm) utf8_ok.simps, simp split: if_splits)+
  then show ?case
    using "1.IH" [OF _ st [symmetric]] st by (subst from_utf8_lossy.simps) auto
qed

lemma utf8_step_ascii: "a < 128 \<Longrightarrow> utf8_step (a # bs) = (True, 1)"
  by (simp add: utf8_step_def byte_at_def Let_def)

lemma utf8_ok_ascii: "\<forall>c\<in>set s. (of_char c :: nat) < 128 \<Longrightarrow> utf8_ok s"
  by (induction s) (subst utf8_ok.simps; simp add: utf8_step_ascii)+

end
