(* ===== verification/Git_Sync.thy ===== *)
theory Git_Sync
  imports Utf8 Retry Unix_Path Asset_Types
begin

text \<open>
  Publishing the chart hashes in a git repository (\<^verbatim>\<open>src/core/git_sync.rs\<close>): the selected entries of the
  download record, the file, and the git commands in their order. The git program and the JSON printer
  are arguments; a command sees the files but does not change them.
\<close>

section \<open>Data\<close>

datatype git_sync_error =
    GsDisabled
  | GsMissingRepositoryDir
  | GsGitCommand string string
  | GsIo string io_kind
  | GsSerialize string string
  | GsMissingWorkdir
  | GsMissingBranch
  | GsMissingOrigin

record chart_hash_sync_result =
  sr_output_file :: string
  sr_commit_oid :: "string option"
  sr_branch :: "string option"
  sr_pushed :: bool

record git_output =
  gt_success :: bool
  gt_status :: string
  gt_stdout :: string
  gt_stderr :: string

record git_command =
  gc_args :: "string list"
  gc_env :: "(string \<times> string) list"

record 'g git_ops =
  gi_run :: "git_command \<Rightarrow> fs \<Rightarrow> 'g \<Rightarrow> (string + git_output) \<times> 'g"
  gi_json :: "(string, string) btmap \<Rightarrow> string + bytes"

section \<open>What is published\<close>

definition collect_chart_hashes :: "download_record \<Rightarrow> (string, string) btmap" where
  "collect_chart_hashes downloaded_assets = filter (\<lambda>(key, _). starts_with ''music/music_score'' key) downloaded_assets"

definition chart_hash_file_name :: "string \<Rightarrow> string" where
  "chart_hash_file_name region_name = region_name @ ''_chart_hashes.json''"

definition chart_hash_output_path :: "string \<Rightarrow> string \<Rightarrow> string" where
  "chart_hash_output_path repository_dir region_name = path_join repository_dir (chart_hash_file_name region_name)"

section \<open>Git commands\<close>

definition command_failure_message :: "git_output \<Rightarrow> string" where
  "command_failure_message output =
     (let detail = trim (from_utf8_lossy (gt_stderr output)) in if detail = [] then gt_status output else detail)"

definition run_command :: "'g git_ops \<Rightarrow> git_command \<Rightarrow> string \<Rightarrow> fs \<Rightarrow> 'g \<Rightarrow> (git_sync_error + git_output) \<times> 'g" where
  "run_command ops command action s g =
     (case gi_run ops command s g of
        (Inl e, g') \<Rightarrow> (Inl (GsGitCommand action (''failed to spawn git: '' @ e)), g')
      | (Inr output, g') \<Rightarrow>
          if \<not> gt_success output then (Inl (GsGitCommand action (command_failure_message output)), g')
          else (Inr output, g'))"

definition git_in :: "string \<Rightarrow> string list \<Rightarrow> git_command" where
  "git_in workdir args = \<lparr>gc_args = ''-C'' # workdir # args, gc_env = []\<rparr>"

definition run_git :: "'g git_ops \<Rightarrow> string \<Rightarrow> string list \<Rightarrow> string \<Rightarrow> fs \<Rightarrow> 'g \<Rightarrow> (git_sync_error + git_output) \<times> 'g" where
  "run_git ops workdir args action s g = run_command ops (git_in workdir args) action s g"

definition current_branch :: "'g git_ops \<Rightarrow> string \<Rightarrow> fs \<Rightarrow> 'g \<Rightarrow> (git_sync_error + string) \<times> 'g" where
  "current_branch ops workdir s g =
     st_bind (st_map_err (\<lambda>_. GsMissingBranch) (run_git ops workdir [''symbolic-ref'', ''--short'', ''HEAD''] ''symbolic-ref'' s g))
       (\<lambda>output g'.
          let branch = trim (from_utf8_lossy (gt_stdout output))
          in if branch = [] then (Inl GsMissingBranch, g') else (Inr branch, g'))"

definition path_has_changes :: "'g git_ops \<Rightarrow> string \<Rightarrow> string \<Rightarrow> fs \<Rightarrow> 'g \<Rightarrow> (git_sync_error + bool) \<times> 'g" where
  "path_has_changes ops workdir relative_output s g =
     st_bind (run_command ops (git_in workdir [''status'', ''--porcelain'', ''--'', relative_output]) ''status'' s g)
       (\<lambda>output g'. (Inr (gt_stdout output \<noteq> []), g'))"

definition stage_path :: "'g git_ops \<Rightarrow> string \<Rightarrow> string \<Rightarrow> fs \<Rightarrow> 'g \<Rightarrow> (git_sync_error + unit) \<times> 'g" where
  "stage_path ops workdir relative_output s g =
     st_bind (run_command ops (git_in workdir [''add'', ''--'', relative_output]) ''add'' s g) (\<lambda>_ g'. (Inr (), g'))"

fun signing_names :: "git_signing_format \<Rightarrow> string \<times> string" where
  "signing_names SignGpg = (''openpgp'', ''gpg.program'')"
| "signing_names SignSsh = (''ssh'', ''gpg.ssh.program'')"

definition config_option :: "string \<Rightarrow> string option \<Rightarrow> string list" where
  "config_option key value = (case opt_filter (\<lambda>v. v \<noteq> []) value of None \<Rightarrow> [] | Some v \<Rightarrow> [''-c'', key @ ''='' @ v])"

definition commit_args :: "chart_hash_config \<Rightarrow> string \<Rightarrow> string list" where
  "commit_args config message =
     (if ch_sign_commits config then
        (let (format, program_key) = signing_names (ch_signing_format config)
         in [''-c'', ''gpg.format='' @ format] @ config_option program_key (ch_signing_program config) @
            config_option ''user.signingkey'' (ch_signing_key config) @ [''commit'', ''-S''])
      else [''commit'']) @ [''-m'', message]"

definition git_commit ::
    "'g git_ops \<Rightarrow> string \<Rightarrow> chart_hash_config \<Rightarrow> string \<Rightarrow> string \<Rightarrow> string \<Rightarrow> fs \<Rightarrow> 'g \<Rightarrow> (git_sync_error + unit) \<times> 'g" where
  "git_commit ops workdir config message author_name author_email s g =
     st_bind (run_command ops
       ((git_in workdir (commit_args config message))\<lparr>gc_env :=
          [(''GIT_AUTHOR_NAME'', author_name), (''GIT_AUTHOR_EMAIL'', author_email),
           (''GIT_COMMITTER_NAME'', author_name), (''GIT_COMMITTER_EMAIL'', author_email)]\<rparr>) ''commit'' s g)
       (\<lambda>_ g'. (Inr (), g'))"

definition head_oid :: "'g git_ops \<Rightarrow> string \<Rightarrow> fs \<Rightarrow> 'g \<Rightarrow> (git_sync_error + string) \<times> 'g" where
  "head_oid ops workdir s g =
     st_bind (run_git ops workdir [''rev-parse'', ''HEAD''] ''rev-parse'' s g)
       (\<lambda>output g'. (Inr (trim (from_utf8_lossy (gt_stdout output))), g'))"

section \<open>Credentials\<close>

definition unreserved :: "char \<Rightarrow> bool" where
  "unreserved c \<longleftrightarrow> (let b = (of_char c :: nat) in
     65 \<le> b \<and> b \<le> 90 \<or> 97 \<le> b \<and> b \<le> 122 \<or> 48 \<le> b \<and> b \<le> 57) \<or> c \<in> {CHR ''-'', CHR ''.'', CHR ''_'', CHR ''~''}"

definition upper_hex :: "nat \<Rightarrow> char" where
  "upper_hex n = (if n < 10 then char_of (48 + n) else char_of (55 + n))"

definition pct_byte :: "char \<Rightarrow> string" where
  "pct_byte c = (if unreserved c then [c] else [CHR ''%'', upper_hex (of_char c div 16), upper_hex (of_char c mod 16)])"

definition pct_encode :: "string \<Rightarrow> string" where
  "pct_encode s = concat (map pct_byte s)"

definition http_scheme :: "string \<Rightarrow> (string \<times> string) option" where
  "http_scheme url =
     (case strip_prefix ''https://'' url of
        Some rest \<Rightarrow> Some (''https://'', rest)
      | None \<Rightarrow> map_option (Pair ''http://'') (strip_prefix ''http://'' url))"

definition without_user_info :: "string \<Rightarrow> string" where
  "without_user_info rest =
     (case split_once (CHR ''@'') rest of
        None \<Rightarrow> rest
      | Some (user_info, host) \<Rightarrow> if CHR ''/'' \<notin> set user_info then host else rest)"

definition inject_credentials :: "string \<Rightarrow> string \<Rightarrow> string \<Rightarrow> git_sync_error + string" where
  "inject_credentials url username password =
     (case http_scheme url of
        None \<Rightarrow> Inl (GsGitCommand ''remote get-url'' (''cannot inject credentials into non-HTTP(S) remote URL: '' @ url))
      | Some (scheme, rest) \<Rightarrow>
          Inr (scheme @ pct_encode username @ '':'' @ pct_encode password @ ''@'' @ without_user_info rest))"

section \<open>Pushing\<close>

definition TRANSIENT :: "string list" where
  "TRANSIENT = [''Could not resolve host'', ''Connection refused'', ''Connection reset'', ''Connection timed out'',
     ''Operation timed out'', ''Failed to connect'', ''could not read from remote'', ''unable to access'', ''SSL_ERROR'',
     ''TLS connection'', ''early EOF'', ''RPC failed'', ''HTTP/2 stream'', ''transfer closed'']"

fun is_retryable_git_error :: "git_sync_error \<Rightarrow> bool" where
  "is_retryable_git_error (GsGitCommand action message) =
     (action = ''push'' \<and> list_ex (\<lambda>needle. contains_sub needle message) TRANSIENT)"
| "is_retryable_git_error _ = False"

definition origin_url :: "'g git_ops \<Rightarrow> string \<Rightarrow> fs \<Rightarrow> 'g \<Rightarrow> (git_sync_error + string) \<times> 'g" where
  "origin_url ops workdir s g =
     (case gi_run ops (git_in workdir [''remote'', ''get-url'', ''origin'']) s g of
        (Inl e, g') \<Rightarrow> (Inl (GsGitCommand ''remote get-url'' (''failed to spawn git: '' @ e)), g')
      | (Inr output, g') \<Rightarrow>
          if gt_success output then (Inr (trim (from_utf8_lossy (gt_stdout output))), g')
          else (let stderr = from_utf8_lossy (gt_stderr output)
                in if contains_sub ''No such remote'' stderr \<or> contains_sub ''not a remote'' stderr then (Inl GsMissingOrigin, g')
                   else (Inl (GsGitCommand ''remote get-url'' (command_failure_message output)), g')))"

definition push_target :: "chart_hash_config \<Rightarrow> string \<Rightarrow> git_sync_error + string" where
  "push_target config remote_url =
     (case (ch_username config, ch_password config) of
        (Some user, Some pass) \<Rightarrow> if pass \<noteq> [] then inject_credentials remote_url user pass else Inr remote_url
      | _ \<Rightarrow> Inr remote_url)"

definition push_attempt :: "'g git_ops \<Rightarrow> string \<Rightarrow> string \<Rightarrow> string \<Rightarrow> string option \<Rightarrow> fs \<Rightarrow> ('g, git_sync_error, unit) attempt_op" where
  "push_attempt ops workdir target refspec proxy s attempt g =
     st_bind (run_command ops
       ((git_in workdir (config_option ''http.proxy'' proxy @ [''push'', target, refspec]))\<lparr>gc_env := [(''GIT_TERMINAL_PROMPT'', ''0'')]\<rparr>)
       ''push'' s g) (\<lambda>_ g'. (Inr (), g'))"

definition push_origin ::
    "'g git_ops \<Rightarrow> string \<Rightarrow> string \<Rightarrow> chart_hash_config \<Rightarrow> string option \<Rightarrow> retry_config \<Rightarrow> fs \<Rightarrow> 'g \<Rightarrow> (git_sync_error + unit) \<times> 'g" where
  "push_origin ops workdir refspec config proxy retry s g =
     st_bind (origin_url ops workdir s g) (\<lambda>remote_url g1.
       case push_target config remote_url of
         Inl e \<Rightarrow> (Inl e, g1)
       | Inr target \<Rightarrow>
           (let r = retry_sync retry (push_attempt ops workdir target refspec proxy s) is_retryable_git_error g1
            in (run_result r, run_state r)))"

section \<open>Synchronising\<close>

definition write_chart_hashes ::
    "'g git_ops \<Rightarrow> string \<Rightarrow> (string, string) btmap \<Rightarrow> fs \<Rightarrow> (git_sync_error + unit) \<times> fs" where
  "write_chart_hashes ops output_file chart_hashes s =
     st_bind (case parent output_file of
                None \<Rightarrow> (Inr (), s)
              | Some dir \<Rightarrow> st_map_err (GsIo dir) (fs_create_dir_all dir s))
       (\<lambda>_ s1. case gi_json ops chart_hashes of
          Inl e \<Rightarrow> (Inl (GsSerialize output_file e), s1)
        | Inr data \<Rightarrow> st_map_err (GsIo output_file) (fs_write output_file data s1))"

text \<open>The branch is known and the file written: commit and push it when it differs from the last commit.\<close>

definition publish_file ::
    "'g git_ops \<Rightarrow> chart_hash_config \<Rightarrow> string \<Rightarrow> string \<Rightarrow> string \<Rightarrow> string option \<Rightarrow> retry_config \<Rightarrow> fs \<Rightarrow> 'g \<Rightarrow>
     (git_sync_error + chart_hash_sync_result) \<times> 'g" where
  "publish_file ops config repository_dir region_name output_file proxy retry s g =
     (let relative_output = chart_hash_file_name region_name in
      st_bind (current_branch ops repository_dir s g) (\<lambda>branch g1.
      st_bind (path_has_changes ops repository_dir relative_output s g1) (\<lambda>changed g2.
      if \<not> changed then
        (Inr \<lparr>sr_output_file = output_file, sr_commit_oid = None, sr_branch = Some branch, sr_pushed = False\<rparr>, g2)
      else
        st_bind (stage_path ops repository_dir relative_output s g2) (\<lambda>_ g3.
        st_bind (git_commit ops repository_dir config (''Updated '' @ region_name @ '' server chart hashes'')
                   (unwrap_or ''Haruki Automation Git Bot'' (ch_username config))
                   (unwrap_or ''no-reply@seiunx.com'' (ch_email config)) s g3) (\<lambda>_ g4.
        st_bind (head_oid ops repository_dir s g4) (\<lambda>oid g5.
        st_bind (push_origin ops repository_dir (''refs/heads/'' @ branch @ '':refs/heads/'' @ branch) config proxy retry s g5) (\<lambda>_ g6.
        (Inr \<lparr>sr_output_file = output_file, sr_commit_oid = Some oid, sr_branch = Some branch, sr_pushed = True\<rparr>, g6))))))))"

definition sync_chart_hashes ::
    "'g git_ops \<Rightarrow> chart_hash_config \<Rightarrow> string \<Rightarrow> download_record \<Rightarrow> string option \<Rightarrow> retry_config \<Rightarrow> bool \<Rightarrow> fs \<Rightarrow> 'g \<Rightarrow>
     (git_sync_error + chart_hash_sync_result option) \<times> fs \<times> 'g" where
  "sync_chart_hashes ops config region_name downloaded_assets proxy retry dry_run s g =
     (if \<not> ch_enabled config then (Inr None, s, g)
      else case ch_repository_dir config of
             None \<Rightarrow> (Inl GsMissingRepositoryDir, s, g)
           | Some repository_dir \<Rightarrow>
               (let chart_hashes = collect_chart_hashes downloaded_assets;
                    output_file = chart_hash_output_path repository_dir region_name
                in if chart_hashes = [] then (Inr None, s, g)
                   else if dry_run then
                     (Inr (Some \<lparr>sr_output_file = output_file, sr_commit_oid = None, sr_branch = None, sr_pushed = False\<rparr>), s, g)
                   else case write_chart_hashes ops output_file chart_hashes s of
                          (Inl e, s1) \<Rightarrow> (Inl e, s1, g)
                        | (Inr _, s1) \<Rightarrow>
                            (case publish_file ops config repository_dir region_name output_file proxy retry s1 g of
                               (Inl e, g1) \<Rightarrow> (Inl e, s1, g1)
                             | (Inr r, g1) \<Rightarrow> (Inr (Some r), s1, g1))))"

section \<open>Lemmas: percent encoding\<close>

definition hex_value :: "char \<Rightarrow> nat" where
  "hex_value c = (let b = (of_char c :: nat) in if b < 58 then b - 48 else b - 55)"

fun pct_decode :: "string \<Rightarrow> string" where
  "pct_decode (p # c1 # c2 # cs) =
     (if p = CHR ''%'' then char_of (16 * hex_value c1 + hex_value c2) # pct_decode cs else p # pct_decode (c1 # c2 # cs))"
| "pct_decode (c # cs) = c # pct_decode cs"
| "pct_decode [] = []"

lemma pct_decode_plain: "c \<noteq> CHR ''%'' \<Longrightarrow> pct_decode (c # cs) = c # pct_decode cs"
proof (cases cs)
  case (Cons d ds)
  then show "c \<noteq> CHR ''%'' \<Longrightarrow> ?thesis" by (cases ds) simp_all
qed simp

lemma unreserved_plain: "unreserved c \<Longrightarrow> c \<noteq> CHR ''%'' \<and> c \<noteq> CHR '':'' \<and> c \<noteq> CHR ''@'' \<and> c \<noteq> CHR ''/''"
  by (auto simp: unreserved_def)

lemma of_char_lt: "(of_char c :: nat) < 256"
  by (metis of_char_mod_256 mod_less_divisor zero_less_numeral)

lemma nibbles: "(of_char c :: nat) div 16 < 16" "(of_char c :: nat) mod 16 < 16"
  using less_mult_imp_div_less [of "of_char c" 16 16] of_char_lt [of c] by simp_all

lemma of_upper_hex: "n < 16 \<Longrightarrow> (of_char (upper_hex n) :: nat) = (if n < 10 then 48 + n else 55 + n)"
  by (simp add: upper_hex_def of_char_of)

lemma hex_value_digit: "n < 16 \<Longrightarrow> hex_value (upper_hex n) = n"
  by (auto simp: hex_value_def of_upper_hex Let_def)

lemma upper_hex_plain: "n < 16 \<Longrightarrow> upper_hex n \<notin> {CHR '':'', CHR ''@'', CHR ''/''}"
  using of_upper_hex [of n] by (auto split: if_splits)

lemma pct_decode_byte: "pct_decode (pct_byte c @ cs) = c # pct_decode cs"
proof (cases "unreserved c")
  case True
  then show ?thesis using unreserved_plain by (simp add: pct_byte_def pct_decode_plain)
next
  case False
  have "hex_value (upper_hex (of_char c div 16)) = of_char c div 16" "hex_value (upper_hex (of_char c mod 16)) = of_char c mod 16"
    by (simp_all add: hex_value_digit nibbles)
  with False show ?thesis by (simp add: pct_byte_def)
qed

lemma pct_round_trip: "pct_decode (pct_encode s) = s"
  by (induction s) (simp_all add: pct_encode_def pct_decode_byte)

lemma pct_byte_plain: "set (pct_byte c) \<inter> {CHR '':'', CHR ''@'', CHR ''/''} = {}"
  using unreserved_plain [of c] upper_hex_plain [of "of_char c div 16"] upper_hex_plain [of "of_char c mod 16"] nibbles [of c]
  by (auto simp: pct_byte_def split: if_splits)

lemma pct_encode_plain: "set (pct_encode s) \<inter> {CHR '':'', CHR ''@'', CHR ''/''} = {}"
  using pct_byte_plain by (fastforce simp: pct_encode_def)

lemma split_once_at: "d \<notin> set a \<Longrightarrow> split_once d (a @ d # b) = Some (a, b)"
  by (induction a) auto

section \<open>Lemmas: commands\<close>

lemma run_command_ok:
  "run_command ops c a s g = (Inr out, g') \<longleftrightarrow> gi_run ops c s g = (Inr out, g') \<and> gt_success out"
  by (auto simp: run_command_def split: prod.splits sum.splits)

lemma run_command_error: "run_command ops c a s g = (Inl e, g') \<Longrightarrow> \<exists>m. e = GsGitCommand a m"
  by (auto simp: run_command_def split: prod.splits sum.splits if_splits)

lemma command_errors:
  "current_branch ops dir s g = (Inl e, g') \<Longrightarrow> e = GsMissingBranch"
  "path_has_changes ops dir rel s g = (Inl e, g') \<Longrightarrow> \<exists>m. e = GsGitCommand ''status'' m"
  "stage_path ops dir rel s g = (Inl e, g') \<Longrightarrow> \<exists>m. e = GsGitCommand ''add'' m"
  "git_commit ops dir config msg name email s g = (Inl e, g') \<Longrightarrow> \<exists>m. e = GsGitCommand ''commit'' m"
  "head_oid ops dir s g = (Inl e, g') \<Longrightarrow> \<exists>m. e = GsGitCommand ''rev-parse'' m"
  by (auto simp: current_branch_def path_has_changes_def stage_path_def git_commit_def head_oid_def run_git_def Let_def
      st_bind_def st_map_err_def split: prod.splits sum.splits if_splits dest: run_command_error)

lemma publish_push_error:
  assumes "publish_file ops config dir region out proxy retry s g = (Inl (GsGitCommand ''push'' m), g')"
  obtains branch g2 g3 g4 oid g5 msg name email where
    "stage_path ops dir (chart_hash_file_name region) s g2 = (Inr (), g3)"
    "git_commit ops dir config msg name email s g3 = (Inr (), g4)" "head_oid ops dir s g4 = (Inr oid, g5)"
    "push_origin ops dir (''refs/heads/'' @ branch @ '':refs/heads/'' @ branch) config proxy retry s g5 = (Inl (GsGitCommand ''push'' m), g')"
  using assms unfolding publish_file_def Let_def
  by (auto simp: st_bind_Inl dest!: command_errors split: if_splits dest: that)

section \<open>What is documented of git\<close>

text \<open>The commands that change neither the index nor the last commit.\<close>

definition reading :: "string \<Rightarrow> string \<Rightarrow> git_command \<Rightarrow> bool" where
  "reading dir rel c \<longleftrightarrow>
     c \<in> {git_in dir [''symbolic-ref'', ''--short'', ''HEAD''], git_in dir [''status'', ''--porcelain'', ''--'', rel],
          git_in dir [''rev-parse'', ''HEAD''], git_in dir [''remote'', ''get-url'', ''origin'']} \<or>
     (\<exists>proxy target refspec env. c = (git_in dir (config_option ''http.proxy'' proxy @ [''push'', target, refspec]))\<lparr>gc_env := env\<rparr>)"

text \<open>\<open>staged x g\<close>: the index holds the contents \<open>x\<close> of the file; \<open>settled x g\<close>: index and last commit do. Adding
  stages what is on disk, a commit settles what is staged, and a file that is settled is clean.\<close>

definition git_behaves ::
    "'g git_ops \<Rightarrow> string \<Rightarrow> string \<Rightarrow> string \<Rightarrow> (bytes option \<Rightarrow> 'g \<Rightarrow> bool) \<Rightarrow> (bytes option \<Rightarrow> 'g \<Rightarrow> bool) \<Rightarrow> bool" where
  "git_behaves ops dir rel out staged settled \<longleftrightarrow>
     (\<forall>s g r g'. gi_run ops (git_in dir [''add'', ''--'', rel]) s g = (Inr r, g') \<and> gt_success r \<longrightarrow> staged (fs_files s out) g') \<and>
     (\<forall>config msg env s g r g' x. gi_run ops ((git_in dir (commit_args config msg))\<lparr>gc_env := env\<rparr>) s g = (Inr r, g') \<and> gt_success r \<and>
        staged x g \<longrightarrow> settled x g') \<and>
     (\<forall>c s g r g' x. reading dir rel c \<and> gi_run ops c s g = (r, g') \<and> settled x g \<longrightarrow> settled x g') \<and>
     (\<forall>s g r g'. gi_run ops (git_in dir [''status'', ''--porcelain'', ''--'', rel]) s g = (Inr r, g') \<and> gt_success r \<and>
        settled (fs_files s out) g \<longrightarrow> gt_stdout r = [])"

lemma reading_keeps:
  assumes "git_behaves ops dir rel out staged settled" and "settled x g" and "reading dir rel c"
  shows "settled x (snd (gi_run ops c s g))" "settled x (snd (run_command ops c a s g))"
proof -
  obtain r g' where r: "gi_run ops c s g = (r, g')" by fastforce
  then have "settled x g'" using assms by (auto simp: git_behaves_def)
  with r show "settled x (snd (gi_run ops c s g))" "settled x (snd (run_command ops c a s g))"
    by (auto simp: run_command_def split: sum.splits)
qed

lemma status_reading: "reading dir rel (git_in dir [''status'', ''--porcelain'', ''--'', rel])"
  and branch_reading: "reading dir rel (git_in dir [''symbolic-ref'', ''--short'', ''HEAD''])"
  and head_reading: "reading dir rel (git_in dir [''rev-parse'', ''HEAD''])"
  and origin_reading: "reading dir rel (git_in dir [''remote'', ''get-url'', ''origin''])"
  and push_reading: "reading dir rel ((git_in dir (config_option ''http.proxy'' proxy @ [''push'', target, refspec]))\<lparr>gc_env := env\<rparr>)"
  by (auto simp: reading_def)

lemma snd_st_bind_keeps: "P (snd r) \<Longrightarrow> (\<And>x s. P s \<Longrightarrow> P (snd (f x s))) \<Longrightarrow> P (snd (st_bind r f))"
  by (auto simp: st_bind_def split: prod.splits sum.splits)

lemma head_oid_keeps:
  assumes "git_behaves ops dir rel out staged settled" and "settled x g"
  shows "settled x (snd (head_oid ops dir s g))"
  unfolding head_oid_def run_git_def
  by (rule snd_st_bind_keeps) (use reading_keeps(2) [OF assms head_reading] in simp_all)

lemma current_branch_keeps:
  assumes "git_behaves ops dir rel out staged settled" and "settled x g" and "current_branch ops dir s g = (Inr branch, g')"
  shows "settled x g'"
  using assms(3) reading_keeps(2) [OF assms(1,2) branch_reading, where s = s and a = "''symbolic-ref''"]
  by (auto simp: current_branch_def run_git_def st_bind_def st_map_err_def Let_def split: prod.splits sum.splits if_splits)

lemma push_origin_keeps:
  assumes git: "git_behaves ops dir rel out staged settled" and g: "settled x g"
  shows "settled x (snd (push_origin ops dir refspec config proxy retry s g))"
proof -
  have "settled x (snd (gi_run ops (git_in dir [''remote'', ''get-url'', ''origin'']) s g))"
    by (rule reading_keeps(1) [OF git g origin_reading])
  then have url: "settled x (snd (origin_url ops dir s g))"
    by (auto simp: origin_url_def Let_def split: prod.splits sum.splits)
  have "settled x g0 \<Longrightarrow> settled x (snd (push_attempt ops dir target refspec proxy s k g0))" for target k g0
    unfolding push_attempt_def
    by (rule snd_st_bind_keeps) (use reading_keeps(2) [OF git _ push_reading] in simp_all)
  then have "settled x g0 \<Longrightarrow>
      settled x (run_state (retry_sync retry (push_attempt ops dir target refspec proxy s) is_retryable_git_error g0))" for target g0
    unfolding retry_sync_def by (rule retry_from_keeps)
  then have "settled x g0 \<Longrightarrow> settled x (snd (case push_target config remote_url of Inl e \<Rightarrow> (Inl e, g0)
      | Inr target \<Rightarrow> let r = retry_sync retry (push_attempt ops dir target refspec proxy s) is_retryable_git_error g0
                      in (run_result r, run_state r)))" for remote_url g0
    by (cases "push_target config remote_url") (simp_all add: Let_def)
  with url show ?thesis unfolding push_origin_def by (rule snd_st_bind_keeps)
qed

lemma stage_and_commit_settle:
  assumes "git_behaves ops dir rel out staged settled" and "stage_path ops dir rel s g = (Inr (), g1)"
    and "git_commit ops dir config msg name email s g1 = (Inr (), g2)"
  shows "settled (fs_files s out) g2"
proof -
  obtain r where r: "gi_run ops (git_in dir [''add'', ''--'', rel]) s g = (Inr r, g1)" "gt_success r"
    using assms(2) by (auto simp: stage_path_def st_bind_Inr run_command_ok)
  have "staged (fs_files s out) g1" using assms(1) r by (simp add: git_behaves_def)
  then show ?thesis
    using assms(1,3) by (auto simp: git_commit_def st_bind_Inr run_command_ok git_behaves_def)
qed

lemma st_map_err_ok: "st_map_err f r = (Inr x, s) \<longleftrightarrow> r = (Inr x, s)"
  by (auto simp: st_map_err_def split: prod.splits sum.splits)

lemma write_chart_hashes_ok:
  assumes "write_chart_hashes ops out hashes s = (Inr (), s')"
  shows "\<exists>data. gi_json ops hashes = Inr data \<and> fs_files s' out = Some data"
  using assms
  by (cases "gi_json ops hashes") (auto simp: write_chart_hashes_def st_bind_Inr st_map_err_ok dest!: fs_write_ok)

lemma write_chart_hashes_error:
  "write_chart_hashes ops out hashes s = (r, s') \<Longrightarrow> r \<noteq> Inl (GsGitCommand a m)"
  by (auto simp: write_chart_hashes_def st_bind_def st_map_err_def split: prod.splits sum.splits option.splits)

lemma sync_publishes:
  assumes "sync_chart_hashes ops config region assets proxy retry False s g = (res, s', g')"
    and "ch_enabled config" and "ch_repository_dir config = Some dir"
    and "res \<noteq> Inr None" and "\<forall>e. res = Inl e \<longrightarrow> (\<exists>m. e = GsGitCommand ''push'' m)"
  shows "\<exists>data. gi_json ops (collect_chart_hashes assets) = Inr data \<and> fs_files s' (chart_hash_output_path dir region) = Some data \<and>
    (case res of
       Inl e \<Rightarrow> publish_file ops config dir region (chart_hash_output_path dir region) proxy retry s' g = (Inl e, g')
     | Inr r \<Rightarrow> (\<exists>r'. r = Some r' \<and> publish_file ops config dir region (chart_hash_output_path dir region) proxy retry s' g = (Inr r', g')))"
proof -
  let ?out = "chart_hash_output_path dir region"
  have ne: "collect_chart_hashes assets \<noteq> []" using assms by (auto simp: sync_chart_hashes_def Let_def)
  obtain w s1 where w: "write_chart_hashes ops ?out (collect_chart_hashes assets) s = (w, s1)" by fastforce
  note werr = write_chart_hashes_error [OF w]
  have wok: "w = Inr ()" using assms ne w werr by (cases w) (auto simp: sync_chart_hashes_def Let_def)
  then have "s1 = s'" using assms(1-3) ne w by (auto simp: sync_chart_hashes_def Let_def split: prod.splits sum.splits)
  with wok w show ?thesis
    using write_chart_hashes_ok [of ops ?out "collect_chart_hashes assets" s s1] assms(1-3) ne
    by (auto simp: sync_chart_hashes_def Let_def split: prod.splits sum.splits)
qed

section \<open>Properties\<close>

text \<open>credentials survive being put into the address. The address pushed to is the remote's with any
  credentials of its own taken out; what stands before the at sign splits at the colon into two parts that
  decode to the configured user name and password, whatever characters they contain. Other schemes are
  refused.\<close>

theorem credentials_round_trip:
  "case inject_credentials url username password of
     Inl e \<Rightarrow> http_scheme url = None
   | Inr out \<Rightarrow> \<exists>scheme rest info u p. http_scheme url = Some (scheme, rest) \<and>
       http_scheme out = Some (scheme, info @ ''@'' @ without_user_info rest) \<and>
       split_once (CHR ''@'') (info @ ''@'' @ without_user_info rest) = Some (info, without_user_info rest) \<and>
       split_once (CHR '':'') info = Some (u, p) \<and> pct_decode u = username \<and> pct_decode p = password"
proof (cases "http_scheme url")
  case None
  then show ?thesis by (simp add: inject_credentials_def)
next
  case (Some sr)
  obtain scheme rest where sr: "sr = (scheme, rest)" by fastforce
  let ?info = "pct_encode username @ '':'' @ pct_encode password"
  have scheme: "scheme = ''https://'' \<or> scheme = ''http://''"
    using Some sr by (auto simp: http_scheme_def split: option.splits)
  then have "http_scheme (scheme @ t) = Some (scheme, t)" for t
    by (auto simp: http_scheme_def strip_prefix_def starts_with_def)
  from this [of "?info @ ''@'' @ without_user_info rest"]
  have "http_scheme (scheme @ ?info @ ''@'' @ without_user_info rest) = Some (scheme, ?info @ ''@'' @ without_user_info rest)" .
  moreover have "split_once (CHR ''@'') (?info @ ''@'' @ without_user_info rest) = Some (?info, without_user_info rest)"
    using split_once_at [of "CHR ''@''" ?info] pct_encode_plain [of username] pct_encode_plain [of password] by auto
  moreover have "split_once (CHR '':'') ?info = Some (pct_encode username, pct_encode password)"
    using split_once_at [of "CHR '':''" "pct_encode username"] pct_encode_plain [of username] by auto
  ultimately show ?thesis
    using Some sr by (auto simp: inject_credentials_def pct_round_trip)
qed

text \<open>a push that failed is never made up for. When a synchronisation committed the chart hashes but
  could not push them, a later one with the same hashes finds nothing to commit and reports success
  without pushing: the commit stays in the local repository until the hashes change again.\<close>

theorem failed_push_is_not_repeated:
  assumes "git_behaves ops dir (chart_hash_file_name region) (chart_hash_output_path dir region) staged settled"
    and "ch_enabled config" and "ch_repository_dir config = Some dir"
    and "sync_chart_hashes ops config region assets proxy retry False s g = (Inl (GsGitCommand ''push'' m), s1, g1)"
    and "sync_chart_hashes ops config region assets proxy' retry' False s2 g1 = (Inr (Some r), s3, g3)"
  shows "\<not> sr_pushed r \<and> sr_commit_oid r = None"
proof -
  let ?out = "chart_hash_output_path dir region"
  obtain data where data: "gi_json ops (collect_chart_hashes assets) = Inr data" "fs_files s1 ?out = Some data"
    and pub: "publish_file ops config dir region ?out proxy retry s1 g = (Inl (GsGitCommand ''push'' m), g1)"
    using sync_publishes [OF assms(4,2,3)] by auto
  have "settled (Some data) g1"
  proof -
    obtain branch ga gb gc oid gd msg name email where
      st: "stage_path ops dir (chart_hash_file_name region) s1 ga = (Inr (), gb)"
      and co: "git_commit ops dir config msg name email s1 gb = (Inr (), gc)" and hd: "head_oid ops dir s1 gc = (Inr oid, gd)"
      and pu: "push_origin ops dir (''refs/heads/'' @ branch @ '':refs/heads/'' @ branch) config proxy retry s1 gd = (Inl (GsGitCommand ''push'' m), g1)"
      using publish_push_error [OF pub] by metis
    have "settled (Some data) gc" using stage_and_commit_settle [OF assms(1) st co] data(2) by simp
    then have "settled (Some data) gd" using head_oid_keeps [OF assms(1), of _ gc s1] hd by simp
    then show ?thesis using push_origin_keeps [OF assms(1), of _ gd] pu by (metis snd_conv)
  qed
  moreover have again: "fs_files s3 ?out = Some data" "publish_file ops config dir region ?out proxy' retry' s3 g1 = (Inr r, g3)"
    using sync_publishes [OF assms(5,2,3)] data(1) by auto
  moreover obtain branch g2 changed g4 where br: "current_branch ops dir s3 g1 = (Inr branch, g2)"
    and ch: "path_has_changes ops dir (chart_hash_file_name region) s3 g2 = (Inr changed, g4)"
    using again(2) by (auto simp: publish_file_def Let_def st_bind_Inr)
  ultimately have "settled (fs_files s3 ?out) g2" using current_branch_keeps [OF assms(1) _ br] by simp
  moreover obtain st where "gi_run ops (git_in dir [''status'', ''--porcelain'', ''--'', chart_hash_file_name region]) s3 g2 = (Inr st, g4)"
    "gt_success st" "changed \<longleftrightarrow> gt_stdout st \<noteq> []"
    using ch by (auto simp: path_has_changes_def st_bind_Inr run_command_ok)
  ultimately have "\<not> changed" using assms(1) unfolding git_behaves_def by blast
  then show ?thesis using again(2) br ch by (auto simp: publish_file_def)
qed

section \<open>Witnesses\<close>

text \<open>A repository with one tracked file, as the contents in its index and in its last commit; pushes are denied.\<close>

definition demo_answer :: "bool \<Rightarrow> string \<Rightarrow> string + git_output" where
  "demo_answer ok text = Inr \<lparr>gt_success = ok, gt_status = ''exit status: 1'', gt_stdout = text, gt_stderr = ''denied''\<rparr>"

definition demo_file :: string where "demo_file = chart_hash_file_name ''jp''"

definition demo_out :: string where "demo_out = chart_hash_output_path ''repo'' ''jp''"

definition demo_git :: "(bytes option \<times> bytes option) git_ops" where
  "demo_git = \<lparr>
     gi_run = (\<lambda>c s (index, head). let args = drop 2 (gc_args c) in
       if args = [''add'', ''--'', demo_file] then (demo_answer True [], (fs_files s demo_out, head))
       else if ''commit'' \<in> set args then (demo_answer True [], (index, index))
       else if args = [''status'', ''--porcelain'', ''--'', demo_file] then
         (demo_answer True (if index = head \<and> head = fs_files s demo_out then [] else ''M''), (index, head))
       else if ''push'' \<in> set args then (demo_answer False [], (index, head))
       else (demo_answer True ''main'', (index, head))),
     gi_json = (\<lambda>_. Inr [7])\<rparr>"

definition demo_chart_config :: chart_hash_config where
  "demo_chart_config = default_chart_hash_config\<lparr>ch_enabled := True, ch_repository_dir := Some ''repo''\<rparr>"

definition demo_assets :: download_record where
  "demo_assets = [(''music/music_score_1'', ''h'')]"

definition demo_once :: retry_config where
  "demo_once = \<lparr>rt_attempts = 1, rt_initial_backoff_ms = 1, rt_max_backoff_ms = 1\<rparr>"

lemma demo_git_run:
  "gi_run demo_git c s (index, head) =
     (let args = drop 2 (gc_args c) in
      if args = [''add'', ''--'', demo_file] then (demo_answer True [], (fs_files s demo_out, head))
      else if ''commit'' \<in> set args then (demo_answer True [], (index, index))
      else if args = [''status'', ''--porcelain'', ''--'', demo_file] then
        (demo_answer True (if index = head \<and> head = fs_files s demo_out then [] else ''M''), (index, head))
      else if ''push'' \<in> set args then (demo_answer False [], (index, head))
      else (demo_answer True ''main'', (index, head)))"
  by (simp add: demo_git_def)

lemma demo_file_text: "demo_file = ''jp_chart_hashes.json''"
  by (simp add: demo_file_def chart_hash_file_name_def)

lemma commit_args_shape: "''commit'' \<in> set (commit_args config msg)" "commit_args config msg \<noteq> [''add'', ''--'', rel]"
  by (cases "ch_signing_format config"; auto simp: commit_args_def)+

lemma demo_git_behaves:
  "git_behaves demo_git ''repo'' demo_file demo_out (\<lambda>x g. fst g = x) (\<lambda>x g. fst g = x \<and> snd g = x)"
proof -
  have keep: "reading ''repo'' demo_file c \<Longrightarrow> drop 2 (gc_args c) \<noteq> [''add'', ''--'', demo_file]" for c
    by (auto simp: reading_def git_in_def config_option_def opt_filter_def split: option.splits)
  show ?thesis
    unfolding git_behaves_def
  proof (intro conjI allI impI, goal_cases)
    case (1 s g r g')
    then show ?case by (cases g) (auto simp: demo_git_run git_in_def demo_answer_def)
  next
    case (2 config msg env s g r g' x)
    then show ?case by (cases g) (auto simp: demo_git_run git_in_def commit_args_shape)
  next
    case (3 config msg env s g r g' x)
    then show ?case by (cases g) (auto simp: demo_git_run git_in_def commit_args_shape)
  next
    case (4 c s g r g' x)
    then show ?case using keep [of c] by (cases g) (auto simp: demo_git_run Let_def split: if_splits)
  next
    case (5 c s g r g' x)
    then show ?case using keep [of c] by (cases g) (auto simp: demo_git_run Let_def split: if_splits)
  next
    case (6 s g r g')
    then show ?case by (cases g) (auto simp: demo_git_run git_in_def demo_answer_def demo_file_text)
  qed
qed

lemma demo_trims: "trim (from_utf8_lossy ''main'') = ''main''" "trim (from_utf8_lossy ''denied'') = ''denied''"
  by code_simp+

lemma demo_ok_command:
  "run_command demo_git c a s g = (case gi_run demo_git c s g of
     (Inr out, g') \<Rightarrow> if gt_success out then (Inr out, g') else (Inl (GsGitCommand a ''denied''), g')
   | (Inl e, g') \<Rightarrow> (Inl (GsGitCommand a (''failed to spawn git: '' @ e)), g'))"
  by (cases g)
    (auto simp: run_command_def demo_git_run demo_answer_def command_failure_message_def demo_trims Let_def split: if_splits)

lemma demo_commands:
  "current_branch demo_git ''repo'' s (index, head) = (Inr ''main'', (index, head))"
  "path_has_changes demo_git ''repo'' demo_file s (index, head) = (Inr (\<not> (index = head \<and> head = fs_files s demo_out)), (index, head))"
  "stage_path demo_git ''repo'' demo_file s (index, head) = (Inr (), (fs_files s demo_out, head))"
  "git_commit demo_git ''repo'' config msg name email s (index, head) = (Inr (), (index, index))"
  "head_oid demo_git ''repo'' s (index, head) = (Inr ''main'', (index, head))"
  "origin_url demo_git ''repo'' s (index, head) = (Inr ''main'', (index, head))"
  by (auto simp: current_branch_def path_has_changes_def stage_path_def git_commit_def head_oid_def origin_url_def run_git_def
      demo_ok_command demo_git_run git_in_def demo_answer_def demo_trims demo_file_text commit_args_shape st_map_err_def Let_def)

lemma demo_push:
  "refspec \<noteq> ''commit'' \<Longrightarrow> push_origin demo_git ''repo'' refspec demo_chart_config None demo_once s (index, head) =
     (Inl (GsGitCommand ''push'' ''denied''), (index, head))"
  by (simp add: push_origin_def demo_commands push_target_def demo_chart_config_def default_chart_hash_config_def retry_sync_def
      retry_from.simps demo_once_def push_attempt_def config_option_def opt_filter_def git_in_def demo_ok_command demo_git_run demo_answer_def
      Let_def)

lemma demo_write:
  "fs_fault s = no_faults \<Longrightarrow>
     \<exists>s'. write_chart_hashes demo_git demo_out hashes s = (Inr (), s') \<and> fs_files s' demo_out = Some [7] \<and> fs_fault s' = no_faults"
  by (simp add: write_chart_hashes_def demo_git_def fs_create_dir_all_def fs_write_def st_map_err_def split: option.split)

lemma demo_hashes: "collect_chart_hashes demo_assets \<noteq> []"
  by (simp add: collect_chart_hashes_def demo_assets_def starts_with_def)

lemma demo_sync:
  assumes "write_chart_hashes demo_git demo_out (collect_chart_hashes demo_assets) s = (Inr (), s')" and "fs_files s' demo_out = Some [7]"
  shows "sync_chart_hashes demo_git demo_chart_config ''jp'' demo_assets None demo_once False s (None, None) =
      (Inl (GsGitCommand ''push'' ''denied''), s', (Some [7], Some [7]))"
    "sync_chart_hashes demo_git demo_chart_config ''jp'' demo_assets None demo_once False s (Some [7], Some [7]) =
      (Inr (Some \<lparr>sr_output_file = demo_out, sr_commit_oid = None, sr_branch = Some ''main'', sr_pushed = False\<rparr>), s', (Some [7], Some [7]))"
proof -
  have c: "ch_enabled demo_chart_config" "ch_repository_dir demo_chart_config = Some ''repo''" by (simp_all add: demo_chart_config_def)
  show "sync_chart_hashes demo_git demo_chart_config ''jp'' demo_assets None demo_once False s (None, None) =
      (Inl (GsGitCommand ''push'' ''denied''), s', (Some [7], Some [7]))"
    "sync_chart_hashes demo_git demo_chart_config ''jp'' demo_assets None demo_once False s (Some [7], Some [7]) =
      (Inr (Some \<lparr>sr_output_file = demo_out, sr_commit_oid = None, sr_branch = Some ''main'', sr_pushed = False\<rparr>), s', (Some [7], Some [7]))"
    using assms demo_hashes
    by (simp_all add: sync_chart_hashes_def publish_file_def c demo_push demo_out_def [symmetric] demo_file_def [symmetric] demo_commands)
qed

theorem failed_push_is_not_repeated_witness:
  "\<exists>m s1 g1 r s3 g3. let s = \<lparr>fs_files = Map.empty, fs_clock = 0, fs_fault = no_faults\<rparr> in
     sync_chart_hashes demo_git demo_chart_config ''jp'' demo_assets None demo_once False s (None, None) =
       (Inl (GsGitCommand ''push'' m), s1, g1) \<and>
     sync_chart_hashes demo_git demo_chart_config ''jp'' demo_assets None demo_once False s1 g1 = (Inr (Some r), s3, g3) \<and>
     \<not> sr_pushed r"
proof -
  let ?s = "\<lparr>fs_files = Map.empty, fs_clock = 0, fs_fault = no_faults\<rparr>"
  obtain s1 where 1: "write_chart_hashes demo_git demo_out (collect_chart_hashes demo_assets) ?s = (Inr (), s1)"
    "fs_files s1 demo_out = Some [7]" "fs_fault s1 = no_faults" using demo_write [of ?s] by auto
  obtain s3 where 3: "write_chart_hashes demo_git demo_out (collect_chart_hashes demo_assets) s1 = (Inr (), s3)"
    "fs_files s3 demo_out = Some [7]" using demo_write [OF 1(3)] by blast
  note first = demo_sync(1) [OF 1(1,2)] and second = demo_sync(2) [OF 3]
  have "ch_enabled demo_chart_config" "ch_repository_dir demo_chart_config = Some ''repo''" by (simp_all add: demo_chart_config_def)
  from failed_push_is_not_repeated [OF demo_git_behaves [unfolded demo_file_def demo_out_def] this first second] first second
  show ?thesis unfolding Let_def by blast
qed

end
