(* ===== verification/Plan.thy ===== *)
theory Plan
  imports Storage Git_Sync Regions
begin

text \<open>
  The plan of an update (\<^verbatim>\<open>src/core/pipeline.rs\<close>) and the job records around it (\<^verbatim>\<open>src/core/models.rs\<close>).
  Time and identifiers are arguments.
\<close>

section \<open>Data\<close>

datatype planning_error =
    PlRegion region_error
  | PlStorage storage_error
  | PlMissingDownloadRecordPath string

record chart_hash_sync_plan =
  cs_repository_dir :: string
  cs_output_file :: string
  cs_branch_hint :: "string option"

record execution_plan =
  ep_region :: string
  ep_dry_run :: bool
  ep_codec_backend :: string
  ep_url_preview :: url_preview
  ep_download_record_file :: string
  ep_upload_targets :: "storage_target_plan list"
  ep_chart_hash_sync :: "chart_hash_sync_plan option"
  ep_pending_steps :: "string list"

datatype job_status =
  StQueued | StPlanning | StWaitingForPipeline | StRunning | StCancelled | StFailed | StCompleted

datatype job_failure_kind =
  FkValidation | FkConfiguration | FkNetwork | FkDecode | FkExport | FkStorage | FkGitSync | FkTimeout | FkCancelled | FkInternal

record job_failure =
  jf_kind :: job_failure_kind
  jf_message :: string
  jf_retryable :: bool
  jf_at :: nat

record job_progress_event =
  je_at :: nat
  je_phase :: job_phase
  je_message :: string

record job_progress_snapshot =
  jp_phase :: job_phase
  jp_current_step :: string
  jp_total_downloads :: nat
  jp_completed_downloads :: nat
  jp_failed_downloads :: nat
  jp_recent_events :: "job_progress_event list"

record job_snapshot =
  js_id :: string
  js_parent_job_id :: "string option"
  js_kind :: string
  js_region :: string
  js_asset_version :: "string option"
  js_asset_hash :: "string option"
  js_dry_run :: bool
  js_status :: job_status
  js_message :: string
  js_preview :: "url_preview option"
  js_plan :: "execution_plan option"
  js_execution :: "execution_summary option"
  js_failure :: "job_failure option"
  js_progress :: job_progress_snapshot
  js_created_at :: nat
  js_updated_at :: nat

definition CODEC_BACKEND :: string where
  "CODEC_BACKEND = ''crates.io:cridecoder@0.2.3''"

section \<open>Operations\<close>

definition default_job_progress :: "nat \<Rightarrow> job_progress_snapshot" where
  "default_job_progress now =
     \<lparr>jp_phase = PhAccepted, jp_current_step = ''job accepted'', jp_total_downloads = 0, jp_completed_downloads = 0,
      jp_failed_downloads = 0, jp_recent_events = [\<lparr>je_at = now, je_phase = PhAccepted, je_message = ''job accepted''\<rparr>]\<rparr>"

definition new_job :: "string \<Rightarrow> nat \<Rightarrow> nat \<Rightarrow> asset_update_request \<Rightarrow> job_snapshot" where
  "new_job uuid now later request =
     \<lparr>js_id = uuid, js_parent_job_id = None,
      js_kind = (case rq_mode request of Update \<Rightarrow> ''asset_update'' | PrefetchRawBundles \<Rightarrow> ''raw_bundle_prefetch''),
      js_region = rq_region request, js_asset_version = rq_asset_version request, js_asset_hash = rq_asset_hash request,
      js_dry_run = rq_dry_run request, js_status = StQueued, js_message = ''job accepted'', js_preview = None, js_plan = None,
      js_execution = None, js_failure = None, js_progress = default_job_progress later, js_created_at = now, js_updated_at = now\<rparr>"

definition plan_chart_hash_sync :: "chart_hash_config \<Rightarrow> string \<Rightarrow> chart_hash_sync_plan option" where
  "plan_chart_hash_sync config region =
     (if ch_enabled config then
        (let repository_dir = unwrap_or ''./sekai-chart-hash'' (ch_repository_dir config)
         in Some \<lparr>cs_repository_dir = repository_dir, cs_output_file = repository_dir @ ''/'' @ region @ ''_chart_hashes.json'',
                  cs_branch_hint = None\<rparr>)
      else None)"

definition planned_steps :: "bool \<Rightarrow> bool \<Rightarrow> string list" where
  "planned_steps uploads syncs =
     [''dry-run responses stop after planning; live bundle discovery and execution happen only for non-dry-run jobs''] @
     (if uploads then [''cloud upload is configured and implemented, but it is not called until export outputs exist''] else []) @
     (if syncs then [''chart-hash Git sync is configured and implemented, but it is not called until downloaded assets are available''] else [])"

definition build_execution_plan :: "app_config \<Rightarrow> asset_update_request \<Rightarrow> planning_error + execution_plan" where
  "build_execution_plan config request =
     (case select_region config (rq_region request) of
        Inl e \<Rightarrow> Inl (PlRegion e)
      | Inr region \<Rightarrow>
          (case rp_downloaded_asset_record_file (rg_paths region) of
             None \<Rightarrow> Inl (PlMissingDownloadRecordPath (rq_region request))
           | Some record_file \<Rightarrow>
               (case (if up_enabled (rg_upload region)
                      then plan_storage_targets (ap_storage config) (rq_region request) (up_providers (rg_upload region))
                      else Inr []) of
                  Inl e \<Rightarrow> Inl (PlStorage e)
                | Inr targets \<Rightarrow>
                    (let sync = plan_chart_hash_sync (gs_chart_hashes (ap_git_sync config)) (rq_region request)
                     in Inr \<lparr>ep_region = rq_region request, ep_dry_run = rq_dry_run request, ep_codec_backend = CODEC_BACKEND,
                             ep_url_preview = build_url_preview (rg_provider region) request,
                             ep_download_record_file = record_file, ep_upload_targets = targets, ep_chart_hash_sync = sync,
                             ep_pending_steps = planned_steps (up_enabled (rg_upload region)) (sync \<noteq> None)\<rparr>))))"

section \<open>Lemmas\<close>

lemma target_of_resolved:
  assumes "build_operator_target ops region p = Inr t" and "resolve_storage_provider p region = Inr r"
  shows "ot_provider t = rs_provider r \<and> ot_scheme t = rs_scheme r"
  using assms by (auto simp: build_operator_target_def res_bind_def split: sum.splits if_splits)

section \<open>Properties\<close>

text \<open>a plan names the targets an update uploads to. When both the plan and the set-up of the storage
  operators succeed for the same providers, they list the same providers with the same schemes in the same order.\<close>

theorem planned_targets_are_the_upload_targets:
  assumes "plan_storage_targets storage region selected = Inr plans"
    and "build_storage_operator_targets ops storage region selected = Inr targets"
  shows "map (\<lambda>p. (tp_provider p, tp_provider_kind p)) plans = map (\<lambda>t. (ot_provider t, ot_scheme t)) targets"
proof -
  obtain providers where p: "selected_provider_configs storage selected = Inr providers"
    using assms(1) by (auto simp: plan_storage_targets_def res_bind_def split: sum.splits)
  have plans: "list_all2 (\<lambda>p y. \<exists>r. resolve_storage_provider p region = Inr r \<and> y = target_plan_for r) providers plans"
    using assms(1) p by (auto simp: plan_storage_targets_def map_res_Inr res_bind_def elim!: list.rel_mono_strong split: sum.splits)
  have targets: "list_all2 (\<lambda>p t. build_operator_target ops region p = Inr t) providers targets"
    using assms(2) p by (simp add: build_storage_operator_targets_def map_res_Inr)
  have "list_all2 (\<lambda>y t. tp_provider y = ot_provider t \<and> tp_provider_kind y = ot_scheme t) plans targets"
  proof (rule list_all2_all_nthI)
    show "length plans = length targets" using list_all2_lengthD [OF plans] list_all2_lengthD [OF targets] by simp
    fix i assume i: "i < length plans"
    then have "i < length providers" using list_all2_lengthD [OF plans] by simp
    then obtain r where r: "resolve_storage_provider (providers ! i) region = Inr r" "plans ! i = target_plan_for r"
      using list_all2_nthD [OF plans] by blast
    from target_of_resolved [OF list_all2_nthD [OF targets \<open>i < length providers\<close>] r(1)] r(2)
    show "tp_provider (plans ! i) = ot_provider (targets ! i) \<and> tp_provider_kind (plans ! i) = ot_scheme (targets ! i)"
      by (simp add: target_plan_for_def)
  qed
  then show ?thesis by (auto simp: list_all2_conv_all_nth intro!: nth_equalityI)
qed

text \<open>the plan promises what the synchronisation refuses. With chart hashes enabled and no repository
  configured a plan names a default directory and file, but the synchronisation after the downloads always
  fails, before anything is written.\<close>

theorem planned_sync_without_repository_fails:
  assumes "build_execution_plan config request = Inr plan" and "ch_enabled (gs_chart_hashes (ap_git_sync config))"
    and "ch_repository_dir (gs_chart_hashes (ap_git_sync config)) = None"
  shows "map_option cs_output_file (ep_chart_hash_sync plan) = Some (''./sekai-chart-hash/'' @ rq_region request @ ''_chart_hashes.json'') \<and>
    sync_chart_hashes ops (gs_chart_hashes (ap_git_sync config)) (rq_region request) assets proxy retry dry_run s g =
      (Inl GsMissingRepositoryDir, s, g)"
proof -
  have "ep_chart_hash_sync plan = plan_chart_hash_sync (gs_chart_hashes (ap_git_sync config)) (rq_region request)"
    using assms(1) by (auto simp: build_execution_plan_def Let_def split: sum.splits option.splits if_splits)
  then show ?thesis using assms(2,3) by (simp add: plan_chart_hash_sync_def sync_chart_hashes_def)
qed

section \<open>Witnesses\<close>

theorem planned_targets_are_the_upload_targets_witness:
  "\<exists>plans. plan_storage_targets \<lparr>sg_providers = [demo_provider]\<rparr> ''jp'' [] = Inr plans \<and>
     map (\<lambda>p. (tp_provider p, tp_provider_kind p)) plans = [(''fs'', ''fs'')]"
proof -
  obtain plans where p: "plan_storage_targets \<lparr>sg_providers = [demo_provider]\<rparr> ''jp'' [] = Inr plans"
    using demo_resolve by (auto simp: plan_storage_targets_def selected_provider_configs_def)
  from planned_targets_are_the_upload_targets [OF p demo_target] p show ?thesis by simp
qed

definition demo_plan_config :: app_config where
  "demo_plan_config = default_app_config\<lparr>
     ap_git_sync := \<lparr>gs_chart_hashes = default_chart_hash_config\<lparr>ch_enabled := True\<rparr>\<rparr>,
     ap_regions := [(''jp'', default_region_config\<lparr>rg_enabled := True,
       rg_paths := (rg_paths default_region_config)\<lparr>rp_downloaded_asset_record_file := Some ''r''\<rparr>\<rparr>)]\<rparr>"

theorem planned_sync_without_repository_fails_witness:
  "\<exists>plan. build_execution_plan demo_plan_config
       \<lparr>rq_region = ''jp'', rq_asset_version = None, rq_asset_hash = None, rq_dry_run = True, rq_mode = Update\<rparr> = Inr plan \<and>
     map_option cs_output_file (ep_chart_hash_sync plan) = Some ''./sekai-chart-hash/jp_chart_hashes.json''"
proof -
  let ?r = "\<lparr>rq_region = ''jp'', rq_asset_version = None, rq_asset_hash = None, rq_dry_run = True, rq_mode = Update\<rparr>"
  obtain plan where p: "build_execution_plan demo_plan_config ?r = Inr plan"
    by (simp add: build_execution_plan_def select_region_def demo_plan_config_def default_region_config_def default_region_upload_config_def Let_def)
  have "ch_enabled (gs_chart_hashes (ap_git_sync demo_plan_config))" "ch_repository_dir (gs_chart_hashes (ap_git_sync demo_plan_config)) = None"
    by (simp_all add: demo_plan_config_def default_chart_hash_config_def)
  from planned_sync_without_repository_fails [OF p this, of demo_git "[]" None demo_once False] p show ?thesis by simp
qed

end
