(* ===== verification/Le_Bytes.thy ===== *)
theory Le_Bytes
  imports Utf8
begin

text \<open>
  Little-endian integers (\<^verbatim>\<open>to_le_bytes\<close>, \<^verbatim>\<open>from_le_bytes\<close>), sub-slices, text as bytes, and
  \<^verbatim>\<open>std::str::from_utf8\<close> with the text of its error. An unsigned integer of \<open>k\<close> bytes is a
  natural number below \<open>256 ^ k\<close>.
\<close>

section \<open>Little-endian integers\<close>

primrec to_le_bytes :: "nat \<Rightarrow> nat \<Rightarrow> bytes" where
  "to_le_bytes 0 n = []"
| "to_le_bytes (Suc k) n = of_nat n # to_le_bytes k (n div 256)"

primrec from_le_bytes :: "bytes \<Rightarrow> nat" where
  "from_le_bytes [] = 0"
| "from_le_bytes (b # bs) = unat b + 256 * from_le_bytes bs"

lemma length_to_le_bytes [simp, codec_simps]: "length (to_le_bytes k n) = k"
  by (induction k arbitrary: n) auto

lemma byte_bound: "unat (b :: byte) < 256"
  using unsigned_less [of b] by simp

lemma unat_of_nat_byte [simp]: "unat (of_nat n :: byte) = n mod 256"
  by (simp add: unat_of_nat)

lemma from_to_le_bytes [simp, codec_simps]: "n < 256 ^ k \<Longrightarrow> from_le_bytes (to_le_bytes k n) = n"
proof (induction k arbitrary: n)
  case (Suc k)
  then have "n div 256 < 256 ^ k" by (simp add: less_mult_imp_div_less mult.commute)
  with Suc.IH [of "n div 256"] show ?case by simp
qed simp

lemma to_from_le_bytes [simp, codec_simps]: "to_le_bytes (length bs) (from_le_bytes bs) = bs"
proof (induction bs)
  case (Cons b bs)
  have "unat b < 256" by (rule byte_bound)
  then have "(unat b + 256 * from_le_bytes bs) div 256 = from_le_bytes bs" by simp
  moreover have "(of_nat (256 * from_le_bytes bs) :: byte) = 0"
    by (rule word_unat_eq_iff [THEN iffD2]) (simp only: unat_of_nat_byte mod_mult_self1_is_0 unsigned_0)
  then have "(of_nat (unat b + 256 * from_le_bytes bs) :: byte) = b"
    by (simp only: of_nat_add) simp
  ultimately show ?case using Cons.IH by simp
qed simp

lemma from_le_bytes_bound: "from_le_bytes bs < 256 ^ length bs"
proof (induction bs)
  case (Cons b bs)
  have "unat b < 256" by (rule byte_bound)
  with Cons show ?case by simp
qed simp

lemma from_le_bytes_iff:
  "length bs = k \<Longrightarrow> from_le_bytes bs = n \<longleftrightarrow> bs = to_le_bytes k n \<and> n < 256 ^ k"
  using from_to_le_bytes to_from_le_bytes from_le_bytes_bound by metis

section \<open>Slices and text\<close>

definition subslice :: "nat \<Rightarrow> nat \<Rightarrow> 'a list \<Rightarrow> 'a list" where
  "subslice a b xs = take (b - a) (drop a xs)"

lemma slice_prefix: "drop c xs = ys @ zs \<Longrightarrow> length ys = n \<Longrightarrow> subslice c (c + n) xs = ys"
  by (simp add: subslice_def)

lemma drop_slice: "drop c xs = subslice c (c + n) xs @ drop (c + n) xs"
  by (simp add: subslice_def add.commute [of c n] flip: drop_drop)

lemma length_slice: "c + n \<le> length xs \<Longrightarrow> length (subslice c (c + n) xs) = n"
  by (simp add: subslice_def)

definition text_of :: "bytes \<Rightarrow> string" where
  "text_of bs = map (\<lambda>b. char_of (unat b)) bs"

definition as_bytes :: "string \<Rightarrow> bytes" where
  "as_bytes s = map (\<lambda>c. of_nat (of_char c)) s"

lemma length_as_bytes [simp]: "length (as_bytes s) = length s"
  by (simp add: as_bytes_def)

lemma text_of_as_bytes [simp, codec_simps]: "text_of (as_bytes s) = s"
  by (simp add: text_of_def as_bytes_def comp_def)

lemma as_bytes_text_of [simp, codec_simps]: "as_bytes (text_of bs) = bs"
proof -
  have "(of_nat (of_char (char_of (unat b) :: char)) :: byte) = b" for b :: byte
    using byte_bound [of b] by (simp add: of_char_of)
  then show ?thesis by (simp add: text_of_def as_bytes_def comp_def)
qed

lemma text_of_append [simp]: "text_of (a @ b) = text_of a @ text_of b"
  by (simp add: text_of_def)

section \<open>Checked UTF-8\<close>

text \<open>\<^verbatim>\<open>Utf8Error\<close>: how many bytes are well-formed, and the length of the broken sequence unless the input
  ended inside it.\<close>

record utf8_error =
  ue_valid_up_to :: nat
  ue_error_len :: "nat option"

definition broken_len :: "nat list \<Rightarrow> nat \<Rightarrow> nat option" where
  "broken_len bs n =
     (if n = length bs \<and> 194 \<le> byte_at bs 0 \<and> byte_at bs 0 \<le> 244 then None else Some n)"

function find_utf8_error :: "nat \<Rightarrow> string \<Rightarrow> utf8_error option" where
  "find_utf8_error i s =
     (if s = [] then None
      else case utf8_step (map of_char s) of (ok, n) \<Rightarrow>
        if ok then find_utf8_error (i + n) (drop n s)
        else Some \<lparr>ue_valid_up_to = i, ue_error_len = broken_len (map of_char s) n\<rparr>)"
  by pat_completeness auto
termination
proof (relation "measure (\<lambda>(i, s). length s)", goal_cases)
  case (2 i s ok n)
  then have "0 < n" using utf8_step_pos [of "map of_char s"] by (metis snd_conv)
  with 2 show ?case by simp
qed simp

declare find_utf8_error.simps [simp del]

definition show_utf8_error :: "utf8_error \<Rightarrow> string" where
  "show_utf8_error e =
     (case ue_error_len e of
        Some n \<Rightarrow> ''invalid utf-8 sequence of '' @ show_nat n @ '' bytes from index '' @
          show_nat (ue_valid_up_to e)
      | None \<Rightarrow> ''incomplete utf-8 byte sequence from index '' @ show_nat (ue_valid_up_to e))"

definition from_utf8 :: "bytes \<Rightarrow> utf8_error + string" where
  "from_utf8 bs =
     (case find_utf8_error 0 (text_of bs) of Some e \<Rightarrow> Inl e | None \<Rightarrow> Inr (text_of bs))"

lemma find_utf8_error_None: "find_utf8_error i s = None \<longleftrightarrow> utf8_ok s"
proof (induction i s rule: find_utf8_error.induct)
  case (1 i s)
  then show ?case
    by (subst find_utf8_error.simps, subst utf8_ok.simps) (auto split: prod.splits)
qed

lemma from_utf8_Inr: "from_utf8 bs = Inr s \<longleftrightarrow> s = text_of bs \<and> utf8_ok s"
  using find_utf8_error_None [of 0 "text_of bs"] by (auto simp: from_utf8_def split: option.splits)

lemma from_utf8_as_bytes: "utf8_ok s \<Longrightarrow> from_utf8 (as_bytes s) = Inr s"
  by (simp add: from_utf8_Inr)

end
