(* ===== verification/Ffi_Types.thy ===== *)
theory Ffi_Types
  imports Export_Types File_System Le_Bytes
begin

text \<open>
  The vocabulary of the AssetStudio bridge (\<^verbatim>\<open>crates/assetstudio-ffi/src/types.rs\<close>): its errors, requests
  and responses, and the errors of the export pipeline (\<^verbatim>\<open>src/core/errors.rs\<close>). Durations and
  the tables of phase times are left out.
\<close>

section \<open>Errors\<close>

datatype ffi_error =
    FfiMessage string
  | FfiSerialize string
  | FfiSpawn string io_kind
  | FfiCommandFailed string string string
  | FfiIo string io_kind

datatype export_error =
    ExCodec string
  | ExStorage string
  | ExIo string io_kind
  | ExImage string string
  | ExSpawn string io_kind
  | ExCommandFailed string string string
  | ExMedia string
  | ExAssetStudioFfi string
  | ExFfiSerialize string
  | ExFfiParse string
  | ExWorkerSpawn string io_kind
  | ExWorkerPanic string string

fun from_ffi_error :: "ffi_error \<Rightarrow> export_error" where
  "from_ffi_error (FfiMessage m) = ExAssetStudioFfi m"
| "from_ffi_error (FfiSerialize e) = ExFfiSerialize e"
| "from_ffi_error (FfiSpawn p e) = ExSpawn p e"
| "from_ffi_error (FfiCommandFailed p st err) = ExCommandFailed p st err"
| "from_ffi_error (FfiIo p e) = ExIo p e"

text \<open>The display of the errors; \<open>io\<close> is the text the standard library gives to an I/O error.\<close>

fun show_export_error :: "(io_kind \<Rightarrow> string) \<Rightarrow> export_error \<Rightarrow> string" where
  "show_export_error io (ExCodec m) = m"
| "show_export_error io (ExStorage m) = m"
| "show_export_error io (ExIo p e) = ''io error at '' @ p @ '': '' @ io e"
| "show_export_error io (ExImage p e) = ''image codec error at '' @ p @ '': '' @ e"
| "show_export_error io (ExSpawn p e) = ''failed to spawn command `'' @ p @ ''`: '' @ io e"
| "show_export_error io (ExCommandFailed p st err) =
     ''command `'' @ p @ ''` failed with status '' @ st @ '': '' @ err"
| "show_export_error io (ExMedia m) = ''media conversion failed: '' @ m"
| "show_export_error io (ExAssetStudioFfi m) = ''assetstudio ffi backend failed: '' @ m"
| "show_export_error io (ExFfiSerialize e) =
     ''failed to serialize assetstudio ffi request: '' @ e"
| "show_export_error io (ExFfiParse e) = ''failed to parse assetstudio ffi response: '' @ e"
| "show_export_error io (ExWorkerSpawn w e) = ''failed to spawn worker `'' @ w @ ''`: '' @ io e"
| "show_export_error io (ExWorkerPanic w m) = ''worker `'' @ w @ ''` panicked: '' @ m"

fun show_ffi_error :: "(io_kind \<Rightarrow> string) \<Rightarrow> ffi_error \<Rightarrow> string" where
  "show_ffi_error io (FfiMessage m) = m"
| "show_ffi_error io (FfiSerialize e) = ''failed to serialize FFI request: '' @ e"
| "show_ffi_error io (FfiSpawn p e) = ''failed to spawn `'' @ p @ ''`: '' @ io e"
| "show_ffi_error io (FfiCommandFailed p st err) =
     ''command `'' @ p @ ''` failed with status '' @ st @ '': '' @ err"
| "show_ffi_error io (FfiIo p e) = ''I/O error at `'' @ p @ ''`: '' @ io e"

text \<open>\<^verbatim>\<open>is_native_worker_signal_failure\<close>: the worker process died of a signal.\<close>

fun is_native_worker_signal_failure :: "export_error \<Rightarrow> bool" where
  "is_native_worker_signal_failure (ExCommandFailed program status _) \<longleftrightarrow>
     contains_sub ''assetstudio_ffi_worker'' program \<and>
     (contains_sub ''signal:'' status \<or> contains_sub ''SIGSEGV'' status)"
| "is_native_worker_signal_failure _ \<longleftrightarrow> False"

section \<open>Requests\<close>

record asset_info =
  ai_index :: nat
  ai_name :: "string option"
  ai_container :: "string option"
  ai_asset_type :: "string option"
  ai_type_id :: int
  ai_path_id :: int
  ai_unique_id :: "string option"
  ai_size :: int
  ai_source_file :: "string option"

record context_open_request =
  oq_input_path :: string
  oq_asset_types :: "string list"
  oq_unity_version :: "string option"
  oq_filter_exclude_mode :: bool
  oq_filter_with_regex :: bool
  oq_filter_by_name :: "string option"
  oq_filter_by_container :: "string option"
  oq_filter_by_path_ids :: "int list"
  oq_load_all_assets :: bool
  oq_include_assets :: bool

record list_objects_request =
  lq_context_id :: int
  lq_offset :: nat
  lq_limit :: nat

record read_object_item =
  ri_path_id :: int
  ri_kind :: string
  ri_image_format :: string

record read_object_request =
  rq_context_id :: int
  rq_path_id :: int
  rq_kind :: string
  rq_image_format :: string

record read_objects_request =
  bq_context_id :: int
  bq_objects :: "read_object_item list"

datatype ffi_operation =
    OpContextOpen | OpContextListObjects | OpContextClose | OpContextReadObject | OpContextReadObjects

fun operation_as_str :: "ffi_operation \<Rightarrow> string" where
  "operation_as_str OpContextOpen = ''context_open''"
| "operation_as_str OpContextListObjects = ''context_list_objects''"
| "operation_as_str OpContextClose = ''context_close''"
| "operation_as_str OpContextReadObject = ''context_read_object''"
| "operation_as_str OpContextReadObjects = ''context_read_objects''"

datatype ffi_request =
    ReqContextOpen context_open_request
  | ReqContextListObjects list_objects_request
  | ReqContextClose int
  | ReqContextReadObject read_object_request
  | ReqContextReadObjects read_objects_request

fun request_operation :: "ffi_request \<Rightarrow> ffi_operation" where
  "request_operation (ReqContextOpen _) = OpContextOpen"
| "request_operation (ReqContextListObjects _) = OpContextListObjects"
| "request_operation (ReqContextClose _) = OpContextClose"
| "request_operation (ReqContextReadObject _) = OpContextReadObject"
| "request_operation (ReqContextReadObjects _) = OpContextReadObjects"

section \<open>Responses\<close>

record context_open_response =
  os_success :: bool
  os_context_id :: int
  os_assets_file_count :: nat
  os_exportable_asset_count :: nat
  os_unity_version :: "string option"
  os_assets :: "asset_info list"
  os_object_index_count :: nat
  os_has_more_assets :: bool
  os_error :: "string option"

record list_objects_response =
  ls_success :: bool
  ls_context_id :: int
  ls_offset :: nat
  ls_limit :: nat
  ls_next_offset :: "nat option"
  ls_total_count :: nat
  ls_returned_count :: nat
  ls_assets :: "asset_info list"
  ls_error :: "string option"

record object_read_response =
  or_success :: bool
  or_asset :: "asset_info option"
  or_payload_kind :: "string option"
  or_payload_len :: int
  or_suggested_extension :: "string option"
  or_error :: "string option"

record object_read_batch_response =
  br_success :: bool
  br_reads :: "object_read_response list"
  br_payload_kind_counts :: "(string, nat) hmap"
  br_payload_bytes_by_kind :: "(string, nat) hmap"
  br_payload_len :: int
  br_object_count :: nat
  br_payload_bundle_version :: nat
  br_payload_bundle_entry_count :: nat
  br_payload_bundle_bytes :: int
  br_payload_data_bytes :: nat
  br_failed_count :: nat
  br_error :: "string option"

record object_read_output =
  ro_response :: object_read_response
  ro_payload :: bytes

record context_close_response =
  cs_success :: bool
  cs_error :: "string option"

datatype ffi_response =
    RespContextOpen context_open_response
  | RespContextListObjects list_objects_response
  | RespContextClose context_close_response
  | RespContextReadObject object_read_response
  | RespContextReadObjects object_read_batch_response

fun response_operation :: "ffi_response \<Rightarrow> ffi_operation" where
  "response_operation (RespContextOpen _) = OpContextOpen"
| "response_operation (RespContextListObjects _) = OpContextListObjects"
| "response_operation (RespContextClose _) = OpContextClose"
| "response_operation (RespContextReadObject _) = OpContextReadObject"
| "response_operation (RespContextReadObjects _) = OpContextReadObjects"

text \<open>Taking the expected response out; \<open>dbg\<close> is the debug rendering of a response.\<close>

definition unexpected_native_response :: "(ffi_response \<Rightarrow> string) \<Rightarrow> string \<Rightarrow> ffi_response \<Rightarrow> ffi_error" where
  "unexpected_native_response dbg expected response =
     FfiMessage (''ffi worker returned unexpected response for '' @ expected @ '': '' @ dbg response)"

fun into_context_open :: "(ffi_response \<Rightarrow> string) \<Rightarrow> ffi_response \<Rightarrow> ffi_error + context_open_response" where
  "into_context_open dbg (RespContextOpen r) = Inr r"
| "into_context_open dbg r = Inl (unexpected_native_response dbg ''context_open'' r)"

fun into_context_list_objects :: "(ffi_response \<Rightarrow> string) \<Rightarrow> ffi_response \<Rightarrow> ffi_error + list_objects_response" where
  "into_context_list_objects dbg (RespContextListObjects r) = Inr r"
| "into_context_list_objects dbg r = Inl (unexpected_native_response dbg ''context_list_objects'' r)"

fun into_context_close :: "(ffi_response \<Rightarrow> string) \<Rightarrow> ffi_response \<Rightarrow> ffi_error + context_close_response" where
  "into_context_close dbg (RespContextClose r) = Inr r"
| "into_context_close dbg r = Inl (unexpected_native_response dbg ''context_close'' r)"

fun into_object_read :: "(ffi_response \<Rightarrow> string) \<Rightarrow> ffi_response \<Rightarrow> ffi_error + object_read_response" where
  "into_object_read dbg (RespContextReadObject r) = Inr r"
| "into_object_read dbg r = Inl (unexpected_native_response dbg ''context_read_object'' r)"

fun into_object_read_batch :: "(ffi_response \<Rightarrow> string) \<Rightarrow> ffi_response \<Rightarrow> ffi_error + object_read_batch_response" where
  "into_object_read_batch dbg (RespContextReadObjects r) = Inr r"
| "into_object_read_batch dbg r = Inl (unexpected_native_response dbg ''context_read_objects'' r)"

fun_cases into_context_openE: "into_context_open dbg r = Inr x"
fun_cases into_context_list_objectsE: "into_context_list_objects dbg r = Inr x"
fun_cases into_context_closeE: "into_context_close dbg r = Inr x"
fun_cases into_object_read_batchE: "into_object_read_batch dbg r = Inr x"

lemma into_ok_iff:
  "is_ok (into_context_open dbg r) \<longleftrightarrow> response_operation r = OpContextOpen"
  "is_ok (into_context_list_objects dbg r) \<longleftrightarrow> response_operation r = OpContextListObjects"
  "is_ok (into_context_close dbg r) \<longleftrightarrow> response_operation r = OpContextClose"
  "is_ok (into_object_read dbg r) \<longleftrightarrow> response_operation r = OpContextReadObject"
  "is_ok (into_object_read_batch dbg r) \<longleftrightarrow> response_operation r = OpContextReadObjects"
  by (cases r; simp)+

section \<open>Outputs of a call\<close>

record worker_output =
  wo_status :: string
  wo_status_success :: bool
  wo_response :: ffi_response
  wo_stderr :: string
  wo_payload :: bytes
  wo_payload_file :: "string option"

end
