(* ===== verification/Ffi_Worker.thy ===== *)
theory Ffi_Worker
  imports Ffi_Types
begin

text \<open>
  The worker process of the AssetStudio bridge and a call to it: the frames on its pipes
  (\<^verbatim>\<open>frame.rs\<close>), the server loop (\<^verbatim>\<open>bin/assetstudio_ffi_worker.rs\<close>) and the calling side
  (\<^verbatim>\<open>PooledWorker::call\<close> in \<^verbatim>\<open>worker_pool.rs\<close>). The native library, the JSON codec, the names of
  temporary files and the text of I/O errors are parameters. The end of a byte stream is the end of the
  pipe.
\<close>

section \<open>Frames\<close>

datatype frame_error = FrameEof | FrameTooLarge nat

definition MAX_FRAME_SIZE :: nat where "MAX_FRAME_SIZE = 512 * 1024 * 1024"
definition SERVER_MAX_FRAME_SIZE :: nat where "SERVER_MAX_FRAME_SIZE = 256 * 1024 * 1024"
definition PAYLOAD_FILE_THRESHOLD :: nat where "PAYLOAD_FILE_THRESHOLD = 128 * 1024 * 1024"

definition write_worker_frame :: "bytes \<Rightarrow> bytes" where
  "write_worker_frame payload = to_le_bytes 8 (length payload) @ payload"

definition read_exact :: "nat \<Rightarrow> bytes \<Rightarrow> (bytes \<times> bytes) option" where
  "read_exact n s = (if length s < n then None else Some (take n s, drop n s))"

definition read_worker_frame :: "bytes \<Rightarrow> frame_error + bytes \<times> bytes" where
  "read_worker_frame s =
     (case read_exact 8 s of
        None \<Rightarrow> Inl FrameEof
      | Some (len_bytes, s) \<Rightarrow>
          let len = from_le_bytes len_bytes in
          if len > MAX_FRAME_SIZE then Inl (FrameTooLarge len)
          else (case read_exact len s of None \<Rightarrow> Inl FrameEof | Some r \<Rightarrow> Inr r))"

text \<open>The server reads the end of its input in front of a frame as the request to stop.\<close>

definition server_read_frame :: "bytes \<Rightarrow> frame_error + (bytes \<times> bytes) option" where
  "server_read_frame s =
     (case read_exact 8 s of
        None \<Rightarrow> Inr None
      | Some (len_bytes, s) \<Rightarrow>
          let len = from_le_bytes len_bytes in
          if len > SERVER_MAX_FRAME_SIZE then Inl (FrameTooLarge len)
          else (case read_exact len s of None \<Rightarrow> Inl FrameEof | Some r \<Rightarrow> Inr (Some r)))"

lemma ffi_read_exact_append [simp]: "length a = n \<Longrightarrow> read_exact n (a @ b) = Some (a, b)"
  by (auto simp: read_exact_def)

lemma read_written_frame [simp]:
  "length payload \<le> MAX_FRAME_SIZE \<Longrightarrow> read_worker_frame (write_worker_frame payload @ rest) = Inr (payload, rest)"
  by (simp add: read_worker_frame_def write_worker_frame_def MAX_FRAME_SIZE_def)

lemma server_reads_written_frame [simp]:
  "length payload \<le> SERVER_MAX_FRAME_SIZE \<Longrightarrow>
     server_read_frame (write_worker_frame payload @ rest) = Inr (Some (payload, rest))"
  by (simp add: server_read_frame_def write_worker_frame_def SERVER_MAX_FRAME_SIZE_def)

lemma server_read_frame_shorter: "server_read_frame s = Inr (Some (f, s')) \<Longrightarrow> length s' < length s"
  by (auto simp: server_read_frame_def read_exact_def Let_def split: option.splits if_splits)

section \<open>Messages\<close>

record server_request =
  sq_id :: nat
  sq_request :: ffi_request

record server_response =
  sp_id :: nat
  sp_status :: "int option"
  sp_response :: "ffi_response option"
  sp_payload_len :: nat
  sp_payload_file :: "string option"
  sp_error :: "string option"

text \<open>The JSON codec of the messages, the library, the source of temporary file names and the text of
  errors.\<close>

record 'n worker_env =
  we_request_to_vec :: "server_request \<Rightarrow> string + bytes"
  we_request_from_slice :: "bytes \<Rightarrow> string + server_request"
  we_response_to_vec :: "server_response \<Rightarrow> string + bytes"
  we_response_from_slice :: "bytes \<Rightarrow> string + server_response"
  we_call_native :: "ffi_request \<Rightarrow> 'n \<Rightarrow> (ffi_error + int \<times> ffi_response \<times> bytes) \<times> 'n"
  we_temp_file :: "fs \<Rightarrow> io_kind + string"
  we_io_text :: "io_kind \<Rightarrow> string"

section \<open>The server\<close>

record 'n server_state =
  ss_native :: 'n
  ss_fs :: fs

definition spill_payload_to_temp_file :: "'n worker_env \<Rightarrow> bytes \<Rightarrow> fs \<Rightarrow> (io_kind + string) \<times> fs" where
  "spill_payload_to_temp_file env payload f =
     (case we_temp_file env f of
        Inl e \<Rightarrow> (Inl e, f)
      | Inr path \<Rightarrow>
          (case fs_write path payload f of
             (Inr _, f) \<Rightarrow> (Inr path, f)
           | (Inl e, f) \<Rightarrow> (Inl e, snd (fs_remove_file path f))))"

definition server_response_with_payload ::
    "'n worker_env \<Rightarrow> nat \<Rightarrow> int \<Rightarrow> ffi_response \<Rightarrow> bytes \<Rightarrow> fs \<Rightarrow> (io_kind + server_response \<times> bytes) \<times> fs" where
  "server_response_with_payload env rid status response payload f =
     (let len = length payload in
      if len > PAYLOAD_FILE_THRESHOLD
      then st_bind (spill_payload_to_temp_file env payload f) (\<lambda>path f.
        (Inr (\<lparr>sp_id = rid, sp_status = Some status, sp_response = Some response, sp_payload_len = len,
               sp_payload_file = Some path, sp_error = None\<rparr>, []), f))
      else
        (Inr (\<lparr>sp_id = rid, sp_status = Some status, sp_response = Some response, sp_payload_len = len,
               sp_payload_file = None, sp_error = None\<rparr>, payload), f))"

definition error_server_response :: "nat \<Rightarrow> string \<Rightarrow> server_response" where
  "error_server_response rid message =
     \<lparr>sp_id = rid, sp_status = None, sp_response = None, sp_payload_len = 0, sp_payload_file = None,
      sp_error = Some message\<rparr>"

text \<open>One turn of the loop: the answer to a request, or the exit code.\<close>

definition server_answer ::
    "'n worker_env \<Rightarrow> server_request \<Rightarrow> 'n server_state \<Rightarrow> (server_response \<times> bytes) \<times> 'n server_state" where
  "server_answer env request st =
     (case we_call_native env (sq_request request) (ss_native st) of
        (Inl e, n) \<Rightarrow>
          ((error_server_response (sq_id request) (show_ffi_error (we_io_text env) e), []), st\<lparr>ss_native := n\<rparr>)
      | (Inr (status, response, payload), n) \<Rightarrow>
          (case server_response_with_payload env (sq_id request) status response payload (ss_fs st) of
             (Inr answer, f) \<Rightarrow> (answer, \<lparr>ss_native = n, ss_fs = f\<rparr>)
           | (Inl e, f) \<Rightarrow>
               ((error_server_response (sq_id request) (we_io_text env e), []), \<lparr>ss_native = n, ss_fs = f\<rparr>)))"

definition server_turn :: "'n worker_env \<Rightarrow> bytes \<Rightarrow> 'n server_state \<Rightarrow> (nat + bytes) \<times> 'n server_state" where
  "server_turn env frame st =
     (case we_request_from_slice env frame of
        Inl _ \<Rightarrow> (Inl 2, st)
      | Inr request \<Rightarrow>
          (case server_answer env request st of ((response, payload), st) \<Rightarrow>
             (case we_response_to_vec env response of
                Inl _ \<Rightarrow> (Inl 2, st)
              | Inr response_frame \<Rightarrow>
                  (Inr (write_worker_frame response_frame @
                        (if payload \<noteq> [] then write_worker_frame payload else [])), st))))"

text \<open>\<^verbatim>\<open>run_server\<close> on the bytes of its input: the exit code and what it wrote.\<close>

function run_server :: "'n worker_env \<Rightarrow> bytes \<Rightarrow> 'n server_state \<Rightarrow> nat \<times> bytes \<times> 'n server_state" where
  "run_server env input st =
     (case server_read_frame input of
        Inl _ \<Rightarrow> (2, [], st)
      | Inr None \<Rightarrow> (0, [], st)
      | Inr (Some (frame, input)) \<Rightarrow>
          (case server_turn env frame st of
             (Inl code, st) \<Rightarrow> (code, [], st)
           | (Inr out, st) \<Rightarrow> (case run_server env input st of (code, rest, st) \<Rightarrow> (code, out @ rest, st))))"
  by pat_completeness auto
termination
  by (relation "measure (\<lambda>(env, input, st). length input)") (auto dest: server_read_frame_shorter)

declare run_server.simps [simp del]

section \<open>A call\<close>

record 's pooled_worker =
  pw_worker_id :: nat
  pw_program :: string
  pw_completed_calls :: nat
  pw_idle_since :: "nat option"
  pw_proc :: 's
  pw_stdout :: bytes

text \<open>The process as its client sees it: what it answers to the bytes of a request (or the text of the
  write error), and its exit status once it is gone.\<close>

record 's process =
  pr_react :: "bytes \<Rightarrow> 's \<Rightarrow> (string + bytes) \<times> 's"
  pr_status :: "'s \<Rightarrow> string option"

record pool_stats =
  ps_spawned :: nat
  ps_recycled :: nat
  ps_killed :: nat
  ps_idle_reaped :: nat
  ps_protocol_errors :: nat
  ps_completed_calls :: nat

definition frame_error_text :: "frame_error \<Rightarrow> string" where
  "frame_error_text e =
     (case e of FrameEof \<Rightarrow> ''early eof''
      | FrameTooLarge len \<Rightarrow> ''ffi worker frame too large: '' @ show_nat len @ '' bytes'')"

definition protocol_error ::
    "'s process \<Rightarrow> string \<Rightarrow> 's pooled_worker \<times> pool_stats \<Rightarrow> ffi_error \<times> 's pooled_worker \<times> pool_stats" where
  "protocol_error pr source = (\<lambda>(w, stats).
     (FfiCommandFailed (pw_program w @ '' --server'')
        (unwrap_or ''protocol error'' (pr_status pr (pw_proc w))) source,
      w, stats\<lparr>ps_protocol_errors := ps_protocol_errors stats + 1\<rparr>))"

definition recv_frame ::
    "'s process \<Rightarrow> 's pooled_worker \<times> pool_stats \<Rightarrow> (ffi_error + bytes) \<times> 's pooled_worker \<times> pool_stats" where
  "recv_frame pr = (\<lambda>(w, stats).
     case read_worker_frame (pw_stdout w) of
       Inr (payload, rest) \<Rightarrow> (Inr payload, w\<lparr>pw_stdout := rest\<rparr>, stats)
     | Inl e \<Rightarrow> (case protocol_error pr (frame_error_text e) (w\<lparr>pw_stdout := []\<rparr>, stats) of
         (err, s) \<Rightarrow> (Inl err, s)))"

definition payload_file_check :: "fs \<Rightarrow> string \<Rightarrow> nat \<Rightarrow> ffi_error + unit" where
  "payload_file_check f path len =
     (case fs_files f path of
        None \<Rightarrow> Inl (FfiIo path NotFound)
      | Some b \<Rightarrow>
          if length b \<noteq> len
          then Inl (FfiMessage (''ffi worker payload file length mismatch: expected '' @ show_nat len @ '', got '' @
                 show_nat (length b) @ '' at '' @ path))
          else Inr ())"

definition call_payload ::
    "'s process \<Rightarrow> fs \<Rightarrow> server_response \<Rightarrow> 's pooled_worker \<times> pool_stats \<Rightarrow>
     (ffi_error + bytes) \<times> 's pooled_worker \<times> pool_stats" where
  "call_payload pr f response s =
     (case sp_payload_file response of
        Some path \<Rightarrow>
          (case payload_file_check f path (sp_payload_len response) of
             Inl e \<Rightarrow> (Inl e, s) | Inr _ \<Rightarrow> (Inr [], s))
      | None \<Rightarrow>
          if sp_payload_len response > 0
          then st_bind (recv_frame pr s) (\<lambda>payload s.
            if length payload \<noteq> sp_payload_len response
            then (Inl (FfiMessage (''ffi worker payload length mismatch: expected '' @
                    show_nat (sp_payload_len response) @ '', got '' @ show_nat (length payload))), s)
            else (Inr payload, s))
          else (Inr [], s))"

definition sat_add_usize :: "nat \<Rightarrow> nat \<Rightarrow> nat" where
  "sat_add_usize a b = min (a + b) usize_max"

definition finish_call :: "int \<Rightarrow> ffi_response \<Rightarrow> string option \<Rightarrow> bytes \<Rightarrow> 's pooled_worker \<times> pool_stats \<Rightarrow>
    (ffi_error + worker_output) \<times> 's pooled_worker \<times> pool_stats" where
  "finish_call status response payload_file payload = (\<lambda>(w, stats).
     (Inr \<lparr>wo_status = show_int status, wo_status_success = (status = 0), wo_response = response, wo_stderr = '''',
           wo_payload = payload, wo_payload_file = payload_file\<rparr>,
      w\<lparr>pw_completed_calls := sat_add_usize (pw_completed_calls w) 1\<rparr>,
      stats\<lparr>ps_completed_calls := ps_completed_calls stats + 1\<rparr>))"

definition read_response ::
    "'n worker_env \<Rightarrow> 's process \<Rightarrow> nat \<Rightarrow> fs \<Rightarrow> 's pooled_worker \<times> pool_stats \<Rightarrow>
     (ffi_error + worker_output) \<times> 's pooled_worker \<times> pool_stats" where
  "read_response env pr rid f s =
     st_bind (recv_frame pr s) (\<lambda>response_bytes s.
     case we_response_from_slice env response_bytes of
       Inl source \<Rightarrow> (Inl (FfiMessage (''failed to parse ffi worker pool response: '' @ source)), s)
     | Inr response \<Rightarrow>
         if sp_id response \<noteq> rid
         then (Inl (FfiMessage (''ffi worker pool response id mismatch: expected '' @ show_nat rid @ '', got '' @
                 show_nat (sp_id response))), s)
         else case sp_error response of
           Some e \<Rightarrow> (Inl (FfiMessage e), s)
         | None \<Rightarrow>
             (case sp_response response of
                None \<Rightarrow> (Inl (FfiMessage ''ffi worker pool response is missing typed response''), s)
              | Some typed_response \<Rightarrow>
                  st_bind (call_payload pr f response s) (\<lambda>payload s.
                    finish_call (unwrap_or 100 (sp_status response)) typed_response (sp_payload_file response)
                      payload s)))"

definition worker_call ::
    "'n worker_env \<Rightarrow> 's process \<Rightarrow> nat \<Rightarrow> ffi_request \<Rightarrow> ('s \<Rightarrow> fs) \<Rightarrow> 's pooled_worker \<times> pool_stats \<Rightarrow>
     (ffi_error + worker_output) \<times> 's pooled_worker \<times> pool_stats" where
  "worker_call env pr rid request files = (\<lambda>(w, stats).
     case we_request_to_vec env \<lparr>sq_id = rid, sq_request = request\<rparr> of
       Inl source \<Rightarrow> (Inl (FfiSerialize source), w, stats)
     | Inr request_bytes \<Rightarrow>
         (case pr_react pr (write_worker_frame request_bytes) (pw_proc w) of
            (Inl source, p) \<Rightarrow>
              (case protocol_error pr source (w\<lparr>pw_proc := p\<rparr>, stats) of (err, s) \<Rightarrow> (Inl err, s))
          | (Inr out, p) \<Rightarrow>
              read_response env pr rid (files p)
                (w\<lparr>pw_proc := p, pw_stdout := pw_stdout w @ out\<rparr>, stats)))"

section \<open>The server as the process of a worker\<close>

text \<open>The process keeps its exit code; a client that writes to a process that is gone gets an error.\<close>

definition server_react ::
    "'n worker_env \<Rightarrow> bytes \<Rightarrow> nat option \<times> 'n server_state \<Rightarrow> (string + bytes) \<times> nat option \<times> 'n server_state" where
  "server_react env input = (\<lambda>(code, st).
     case code of
       Some c \<Rightarrow> (Inl (we_io_text env OtherIo), Some c, st)
     | None \<Rightarrow>
         (case server_read_frame input of
            Inl _ \<Rightarrow> (Inr [], Some 2, st)
          | Inr None \<Rightarrow> (Inr [], Some 0, st)
          | Inr (Some (frame, _)) \<Rightarrow>
              (case server_turn env frame st of
                 (Inl c, st) \<Rightarrow> (Inr [], Some c, st)
               | (Inr out, st) \<Rightarrow> (Inr out, None, st))))"

definition server_process :: "'n worker_env \<Rightarrow> (nat option \<times> 'n server_state) process" where
  "server_process env =
     \<lparr>pr_react = server_react env, pr_status = (\<lambda>(code, _). map_option (\<lambda>c. ''exit status: '' @ show_nat c) code)\<rparr>"

text \<open>The process answers one request as the loop does.\<close>

lemma run_server_one_request:
  assumes "server_react env (write_worker_frame frame) (None, st) = (Inr out, None, st')"
    and "length frame \<le> SERVER_MAX_FRAME_SIZE"
  shows "run_server env (write_worker_frame frame @ input) st =
    (case run_server env input st' of (code, rest, st) \<Rightarrow> (code, out @ rest, st))"
proof -
  have "server_read_frame (write_worker_frame frame) = Inr (Some (frame, []))"
    using server_reads_written_frame [OF assms(2), of "[]"] by simp
  then have "server_turn env frame st = (Inr out, st')"
    using assms(1) by (auto simp: server_react_def split: sum.splits prod.splits)
  then show ?thesis
    using assms(2) by (subst run_server.simps) simp
qed

text \<open>The bytes of an object read, wherever the worker left them.\<close>

definition delivered_payload :: "fs \<Rightarrow> worker_output \<Rightarrow> bytes option" where
  "delivered_payload f out =
     (if wo_payload out \<noteq> [] then Some (wo_payload out)
      else case wo_payload_file out of Some path \<Rightarrow> fs_files f path | None \<Rightarrow> Some [])"

definition json_codec :: "'n worker_env \<Rightarrow> bool" where
  "json_codec env \<longleftrightarrow>
     (\<forall>r b. we_request_to_vec env r = Inr b \<longrightarrow> we_request_from_slice env b = Inr r) \<and>
     (\<forall>r b. we_response_to_vec env r = Inr b \<longrightarrow> we_response_from_slice env b = Inr r)"

definition spill_works :: "'n worker_env \<Rightarrow> fs \<Rightarrow> bool" where
  "spill_works env f \<longleftrightarrow> (\<exists>path. we_temp_file env f = Inr path) \<and> fs_fault f = no_faults"

lemma server_response_delivers:
  assumes "spill_works env f"
  shows "\<exists>sp body f'. server_response_with_payload env rid status resp payload f = (Inr (sp, body), f') \<and>
    sp_id sp = rid \<and> sp_status sp = Some status \<and> sp_response sp = Some resp \<and> sp_error sp = None \<and>
    sp_payload_len sp = length payload \<and>
    (if length payload > PAYLOAD_FILE_THRESHOLD
     then body = [] \<and> (\<exists>path. sp_payload_file sp = Some path \<and> fs_files f' path = Some payload)
     else body = payload \<and> sp_payload_file sp = None)"
proof (cases "length payload > PAYLOAD_FILE_THRESHOLD")
  case True
  obtain path where path: "we_temp_file env f = Inr path" and nf: "fs_fault f = no_faults"
    using assms by (auto simp: spill_works_def)
  then obtain f' where w: "fs_write path payload f = (Inr (), f')"
    by (auto simp: fs_write_def)
  have "spill_payload_to_temp_file env payload f = (Inr path, f')"
    by (simp add: spill_payload_to_temp_file_def path w)
  with True fs_write_ok [OF w] show ?thesis
    by (simp add: server_response_with_payload_def Let_def)
next
  case False
  then show ?thesis by (simp add: server_response_with_payload_def Let_def)
qed

text \<open>C7: a call to a worker returns what the library returned: its status, its response and all bytes of
  the payload, through the pipe or, above 128 MiB, through a file; the pipe is empty again.\<close>

theorem worker_call_returns_library_result:
  assumes codec: "json_codec env"
    and q: "we_request_to_vec env \<lparr>sq_id = rid, sq_request = request\<rparr> = Inr qb"
    and qsize: "length qb \<le> SERVER_MAX_FRAME_SIZE"
    and lib: "we_call_native env request (ss_native st) = (Inr (status, resp, payload), n')"
    and spill: "spill_works env (ss_fs st)"
    and resp_ok: "\<forall>sp body f. server_response_with_payload env rid status resp payload (ss_fs st) = (Inr (sp, body), f) \<longrightarrow>
      (\<exists>b. we_response_to_vec env sp = Inr b \<and> length b \<le> MAX_FRAME_SIZE)"
    and w: "pw_proc w = (None, st)" "pw_stdout w = []"
  shows "\<exists>out w' stats' st'.
    worker_call env (server_process env) rid request (\<lambda>p. ss_fs (snd p)) (w, stats) = (Inr out, w', stats') \<and>
    pw_proc w' = (None, st') \<and> pw_stdout w' = [] \<and> ss_native st' = n' \<and>
    wo_response out = resp \<and> wo_status out = show_int status \<and> wo_status_success out = (status = 0) \<and>
    delivered_payload (ss_fs st') out = Some payload"
proof -
  obtain sp body f' where sp: "server_response_with_payload env rid status resp payload (ss_fs st) = (Inr (sp, body), f')"
    and f: "sp_id sp = rid" "sp_status sp = Some status" "sp_response sp = Some resp" "sp_error sp = None"
      "sp_payload_len sp = length payload"
    and pl: "if length payload > PAYLOAD_FILE_THRESHOLD
     then body = [] \<and> (\<exists>path. sp_payload_file sp = Some path \<and> fs_files f' path = Some payload)
     else body = payload \<and> sp_payload_file sp = None"
    using server_response_delivers [OF spill] by blast
  define st' where "st' = \<lparr>ss_native = n', ss_fs = f'\<rparr>"
  obtain rb where rb: "we_response_to_vec env sp = Inr rb" "length rb \<le> MAX_FRAME_SIZE"
    using resp_ok sp by blast
  let ?out = "write_worker_frame rb @ (if body \<noteq> [] then write_worker_frame body else [])"
  have "server_turn env qb st = (Inr ?out, st')"
    using codec q lib sp rb(1) by (simp add: server_turn_def server_answer_def json_codec_def st'_def)
  moreover have "server_read_frame (write_worker_frame qb) = Inr (Some (qb, []))"
    using server_reads_written_frame [OF qsize, of "[]"] by simp
  ultimately have react: "server_react env (write_worker_frame qb) (None, st) = (Inr ?out, None, st')"
    by (simp add: server_react_def)
  have resp_json: "we_response_from_slice env rb = Inr sp" using codec rb(1) by (simp add: json_codec_def)
  let ?w = "\<lambda>s. w\<lparr>pw_proc := (None, st'), pw_stdout := s\<rparr>"
  have small: "length body \<le> MAX_FRAME_SIZE"
    using pl by (auto simp: PAYLOAD_FILE_THRESHOLD_def MAX_FRAME_SIZE_def split: if_splits)
  have pay: "call_payload (server_process env) f' sp (?w (if body \<noteq> [] then write_worker_frame body else []), stats)
      = (Inr body, ?w [], stats)"
    using pl f(5) small read_written_frame [OF small, of "[]"]
    by (auto simp: call_payload_def payload_file_check_def recv_frame_def split: if_splits)
  have first: "recv_frame (server_process env) (?w ?out, stats) =
      (Inr rb, ?w (if body \<noteq> [] then write_worker_frame body else []), stats)"
    using read_written_frame [OF rb(2)] by (simp add: recv_frame_def)
  have "worker_call env (server_process env) rid request (\<lambda>p. ss_fs (snd p)) (w, stats) =
      finish_call status resp (sp_payload_file sp) body (?w [], stats)"
    using q react first resp_json f pay w
    by (simp add: worker_call_def read_response_def server_process_def st'_def)
  moreover have "delivered_payload f' \<lparr>wo_status = show_int status, wo_status_success = (status = 0),
      wo_response = resp, wo_stderr = '''', wo_payload = body, wo_payload_file = sp_payload_file sp\<rparr> = Some payload"
    using pl by (auto simp: delivered_payload_def split: if_splits)
  ultimately show ?thesis by (simp add: finish_call_def st'_def)
qed

text \<open>A codec of one request and one response, for concrete runs.\<close>

definition one_message_env :: "server_request \<Rightarrow> server_response \<Rightarrow> unit worker_env" where
  "one_message_env q r =
     \<lparr>we_request_to_vec = (\<lambda>x. if x = q then Inr [1] else Inl ''unsupported''),
      we_request_from_slice = (\<lambda>_. Inr q),
      we_response_to_vec = (\<lambda>x. if x = r then Inr [2] else Inl ''unsupported''),
      we_response_from_slice = (\<lambda>_. Inr r),
      we_call_native = (\<lambda>_ n. (Inr (0, RespContextClose \<lparr>cs_success = True, cs_error = None\<rparr>, [5, 6]), n)),
      we_temp_file = (\<lambda>_. Inr ''/tmp/p''), we_io_text = (\<lambda>_. ''io'')\<rparr>"

definition close_response :: server_response where
  "close_response = \<lparr>sp_id = 7, sp_status = Some 0,
     sp_response = Some (RespContextClose \<lparr>cs_success = True, cs_error = None\<rparr>), sp_payload_len = 2,
     sp_payload_file = None, sp_error = None\<rparr>"

definition close_env :: "unit worker_env" where
  "close_env = one_message_env \<lparr>sq_id = 7, sq_request = ReqContextClose 3\<rparr> close_response"

definition idle_server :: "unit server_state" where
  "idle_server = \<lparr>ss_native = (), ss_fs = \<lparr>fs_files = (\<lambda>_. None), fs_clock = 0, fs_fault = no_faults\<rparr>\<rparr>"

definition fresh_worker :: "'s \<Rightarrow> 's pooled_worker" where
  "fresh_worker p = \<lparr>pw_worker_id = 1, pw_program = ''w'', pw_completed_calls = 0, pw_idle_since = None,
     pw_proc = p, pw_stdout = []\<rparr>"

definition empty_stats :: pool_stats where
  "empty_stats = \<lparr>ps_spawned = 0, ps_recycled = 0, ps_killed = 0, ps_idle_reaped = 0, ps_protocol_errors = 0,
     ps_completed_calls = 0\<rparr>"

theorem worker_call_returns_library_result_witness:
  "\<exists>out w' stats' st'.
    worker_call close_env (server_process close_env) 7 (ReqContextClose 3) (\<lambda>p. ss_fs (snd p))
      (fresh_worker (None, idle_server), empty_stats) = (Inr out, w', stats') \<and> pw_proc w' = (None, st') \<and>
    wo_status out = show_int 0 \<and> delivered_payload (ss_fs st') out = Some [5, 6]"
proof -
  let ?resp = "RespContextClose \<lparr>cs_success = True, cs_error = None\<rparr>"
  have codec: "json_codec close_env" by (simp add: json_codec_def close_env_def one_message_env_def)
  have q: "we_request_to_vec close_env \<lparr>sq_id = 7, sq_request = ReqContextClose 3\<rparr> = Inr [1]"
    by (simp add: close_env_def one_message_env_def)
  have size: "length [1 :: byte] \<le> SERVER_MAX_FRAME_SIZE" by (simp add: SERVER_MAX_FRAME_SIZE_def)
  have lib: "we_call_native close_env (ReqContextClose 3) (ss_native idle_server) = (Inr (0, ?resp, [5, 6]), ())"
    by (simp add: close_env_def one_message_env_def idle_server_def)
  have answer: "server_response_with_payload close_env 7 0 ?resp [5, 6] (ss_fs idle_server) =
      (Inr (close_response, [5, 6]), ss_fs idle_server)"
    by (simp add: server_response_with_payload_def PAYLOAD_FILE_THRESHOLD_def close_response_def)
  have vec: "we_response_to_vec close_env close_response = Inr [2]"
    by (simp add: close_env_def one_message_env_def)
  have resp: "\<forall>sp body f. server_response_with_payload close_env 7 0 ?resp [5, 6] (ss_fs idle_server) =
      (Inr (sp, body), f) \<longrightarrow> (\<exists>b. we_response_to_vec close_env sp = Inr b \<and> length b \<le> MAX_FRAME_SIZE)"
    by (simp add: answer vec MAX_FRAME_SIZE_def)
  have spill: "spill_works close_env (ss_fs idle_server)"
    by (simp add: spill_works_def close_env_def one_message_env_def idle_server_def)
  have w: "pw_proc (fresh_worker (None, idle_server)) = (None, idle_server)"
      "pw_stdout (fresh_worker (None, idle_server)) = []"
    by (simp_all add: fresh_worker_def)
  show ?thesis
    using worker_call_returns_library_result [OF codec q size lib spill resp w, of empty_stats] by blast
qed

end
