(* ===== verification/Worker_Pool.thy ===== *)
theory Worker_Pool
  imports Ffi_Worker Task_Pool Unix_Path
begin

text \<open>
  The pool of worker processes (\<^verbatim>\<open>crates/assetstudio-ffi/src/worker_pool.rs\<close>): leases guarded by a
  semaphore, workers that wait for the next lease, recycling after a number of calls and the sweep that kills
  workers idle for too long. A step of the model is one await-free section of the code; a process that could
  be spawned is an input of the step.
\<close>

section \<open>How a worker is started\<close>

record pool_tuning =
  pt_idle_timeout :: nat
  pt_gc_heap_hard_limit_mb :: nat
  pt_gc_conserve_memory :: "nat option"

definition lower_hex_digit :: "nat \<Rightarrow> char" where
  "lower_hex_digit n = (if n < 10 then char_of (48 + n) else char_of (87 + n))"

fun show_lower_hex :: "nat \<Rightarrow> string" where
  "show_lower_hex n =
     (if n < 16 then [lower_hex_digit n] else show_lower_hex (n div 16) @ [lower_hex_digit (n mod 16)])"

declare show_lower_hex.simps [simp del]

record worker_command =
  wc_program :: string
  wc_args :: "string list"
  wc_current_dir :: "string option"
  wc_env :: "(string \<times> string) list"

text \<open>\<^verbatim>\<open>canonicalize\<close> asks the file system; it is a parameter.\<close>

definition absolute_command_path :: "(string \<Rightarrow> string option) \<Rightarrow> string \<Rightarrow> string" where
  "absolute_command_path canonicalize path = unwrap_or path (canonicalize path)"

definition native_library_working_dir :: "string \<Rightarrow> string option" where
  "native_library_working_dir native_library_path = parent native_library_path"

definition worker_command_for :: "(string \<Rightarrow> string option) \<Rightarrow> string \<Rightarrow> string \<Rightarrow> pool_tuning \<Rightarrow> worker_command" where
  "worker_command_for canonicalize worker_path native_library_path tuning =
     \<lparr>wc_program = absolute_command_path canonicalize worker_path,
      wc_args = [''--server'', ''--ffi-library'', native_library_path],
      wc_current_dir = native_library_working_dir native_library_path,
      wc_env =
        (if pt_gc_heap_hard_limit_mb tuning > 0
         then [(''DOTNET_GCHeapHardLimit'',
                show_lower_hex (sat_mul (pt_gc_heap_hard_limit_mb tuning) (1024 * 1024)))]
         else []) @
        (case pt_gc_conserve_memory tuning of
           Some n \<Rightarrow> [(''DOTNET_GCConserveMemory'', show_nat (min n 9))] | None \<Rightarrow> [])\<rparr>"

definition worker_executable_name :: string where
  "worker_executable_name = ''assetstudio_ffi_worker''"

text \<open>The worker program: configured, from the environment, or beside the running executable.\<close>

definition configured_worker_path ::
    "(string \<Rightarrow> string option) \<Rightarrow> (io_kind + string) \<Rightarrow> string option \<Rightarrow> ffi_error + string" where
  "configured_worker_path env current_exe configured_path =
     (case opt_filter (\<lambda>v. v \<noteq> []) (map_option trim configured_path) of
        Some path \<Rightarrow> Inr path
      | None \<Rightarrow>
          (case opt_filter (\<lambda>v. v \<noteq> []) (map_option trim (env ''HARUKI_ASSET_STUDIO_FFI_WORKER_PATH'')) of
             Some path \<Rightarrow> Inr path
           | None \<Rightarrow>
               (case current_exe of
                  Inl e \<Rightarrow> Inl (FfiSpawn ''current_exe'' e)
                | Inr exe \<Rightarrow>
                    (case parent exe of
                       None \<Rightarrow> Inl (FfiMessage
                         (''failed to infer ffi worker path from current executable `'' @ exe @ ''`''))
                     | Some dir \<Rightarrow> Inr (path_join dir worker_executable_name)))))"

section \<open>Shared pools\<close>

text \<open>\<^verbatim>\<open>shared_with_tuning\<close> keeps one pool per key. The time-out enters the key in milliseconds, the unit of the
  model.\<close>

definition nul :: char where "nul = CHR 0x00"

definition show_opt_nat :: "nat option \<Rightarrow> string" where
  "show_opt_nat x = (case x of None \<Rightarrow> ''None'' | Some n \<Rightarrow> ''Some('' @ show_nat n @ '')'')"

definition pool_key :: "string \<Rightarrow> string \<Rightarrow> nat \<Rightarrow> nat \<Rightarrow> pool_tuning \<Rightarrow> string" where
  "pool_key worker_path native_library_path process_concurrency max_calls tuning =
     join_with [nul] [show_nat process_concurrency, show_nat max_calls, worker_path, native_library_path,
       show_nat (pt_idle_timeout tuning), show_nat (pt_gc_heap_hard_limit_mb tuning),
       show_opt_nat (pt_gc_conserve_memory tuning)]"

section \<open>State\<close>

record 's lease =
  le_worker :: "'s pooled_worker"
  le_permits :: nat

record 's worker_pool =
  wp_process_concurrency :: nat
  wp_max_calls_per_worker :: nat
  wp_tuning :: pool_tuning
  wp_program :: string
  wp_permits :: nat
  wp_available :: "'s pooled_worker list"
  wp_leases :: "'s lease list"
  wp_next_id :: nat
  wp_next_worker_id :: nat
  wp_stats :: pool_stats

definition new_pool :: "string \<Rightarrow> nat \<Rightarrow> nat \<Rightarrow> pool_tuning \<Rightarrow> 's worker_pool" where
  "new_pool program process_concurrency max_calls tuning =
     (let n = max process_concurrency 1 in
      \<lparr>wp_process_concurrency = n, wp_max_calls_per_worker = max_calls, wp_tuning = tuning, wp_program = program,
       wp_permits = n, wp_available = [], wp_leases = [], wp_next_id = 1, wp_next_worker_id = 1,
       wp_stats = empty_stats\<rparr>)"

text \<open>The registry of pools: the pool of the key, and whether it was created by this call.\<close>

definition shared_with_tuning ::
    "string \<Rightarrow> string \<Rightarrow> nat \<Rightarrow> nat \<Rightarrow> pool_tuning \<Rightarrow> (string, 's worker_pool) hmap \<Rightarrow>
     's worker_pool \<times> bool \<times> (string, 's worker_pool) hmap" where
  "shared_with_tuning worker_path native_library_path process_concurrency max_calls tuning pools =
     (let n = max process_concurrency 1;
          key = pool_key worker_path native_library_path n max_calls tuning in
      case map_of pools key of
        Some pool \<Rightarrow> (pool, False, pools)
      | None \<Rightarrow>
          let pool = new_pool worker_path n max_calls tuning
          in (pool, True, hmap_insert key pool pools))"

section \<open>Operations\<close>

definition spawn_worker :: "'s option \<Rightarrow> 's worker_pool \<Rightarrow> ('s pooled_worker \<times> 's worker_pool) option" where
  "spawn_worker proc pool =
     map_option (\<lambda>p.
       (\<lparr>pw_worker_id = wp_next_worker_id pool, pw_program = wp_program pool, pw_completed_calls = 0,
         pw_idle_since = None, pw_proc = p, pw_stdout = []\<rparr>,
        pool\<lparr>wp_next_worker_id := wp_next_worker_id pool + 1,
             wp_stats := (wp_stats pool)\<lparr>ps_spawned := ps_spawned (wp_stats pool) + 1\<rparr>\<rparr>)) proc"

definition lease_out :: "nat \<Rightarrow> 's pooled_worker \<Rightarrow> 's worker_pool \<Rightarrow> 's worker_pool" where
  "lease_out n w pool =
     pool\<lparr>wp_permits := wp_permits pool - n, wp_leases := wp_leases pool @ [\<lparr>le_worker = w, le_permits = n\<rparr>]\<rparr>"

text \<open>\<open>None\<close> while the permits are taken; a failed spawn gives its permits back.\<close>

definition acquire :: "'s option \<Rightarrow> 's worker_pool \<Rightarrow> 's worker_pool option" where
  "acquire proc pool =
     (if wp_permits pool < 1 then None
      else if wp_available pool \<noteq> []
      then Some (lease_out 1 ((last (wp_available pool))\<lparr>pw_idle_since := None\<rparr>)
             (pool\<lparr>wp_available := butlast (wp_available pool)\<rparr>))
      else Some (case spawn_worker proc pool of None \<Rightarrow> pool | Some (w, pool) \<Rightarrow> lease_out 1 w pool))"

definition acquire_exclusive :: "'s option \<Rightarrow> 's worker_pool \<Rightarrow> 's worker_pool option" where
  "acquire_exclusive proc pool =
     (if wp_permits pool < wp_process_concurrency pool then None
      else Some (case spawn_worker proc pool of
                   None \<Rightarrow> pool | Some (w, pool) \<Rightarrow> lease_out (wp_process_concurrency pool) w pool))"

definition count_kill :: "'s worker_pool \<Rightarrow> 's worker_pool" where
  "count_kill pool = pool\<lparr>wp_stats := (wp_stats pool)\<lparr>ps_killed := ps_killed (wp_stats pool) + 1\<rparr>\<rparr>"

definition return_or_recycle_worker :: "nat \<Rightarrow> 's pooled_worker \<Rightarrow> 's worker_pool \<Rightarrow> 's worker_pool" where
  "return_or_recycle_worker now w pool =
     (if wp_max_calls_per_worker pool > 0 \<and> pw_completed_calls w \<ge> wp_max_calls_per_worker pool
      then count_kill (pool\<lparr>wp_stats := (wp_stats pool)\<lparr>ps_recycled := ps_recycled (wp_stats pool) + 1\<rparr>\<rparr>)
      else pool\<lparr>wp_available := wp_available pool @ [w\<lparr>pw_idle_since := Some now\<rparr>]\<rparr>)"

definition end_lease :: "nat \<Rightarrow> 's worker_pool \<Rightarrow> 's worker_pool" where
  "end_lease i pool =
     pool\<lparr>wp_permits := wp_permits pool + le_permits (wp_leases pool ! i), wp_leases := remove_nth i (wp_leases pool)\<rparr>"

definition finish_success :: "nat \<Rightarrow> nat \<Rightarrow> 's worker_pool \<Rightarrow> 's worker_pool option" where
  "finish_success now i pool =
     (if i < length (wp_leases pool)
      then Some (return_or_recycle_worker now (le_worker (wp_leases pool ! i)) (end_lease i pool))
      else None)"

definition kill_lease :: "nat \<Rightarrow> 's worker_pool \<Rightarrow> 's worker_pool option" where
  "kill_lease i pool = (if i < length (wp_leases pool) then Some (count_kill (end_lease i pool)) else None)"

text \<open>A lease that is dropped kills its process without counting it (\<^verbatim>\<open>kill_on_drop\<close>).\<close>

definition drop_lease :: "nat \<Rightarrow> 's worker_pool \<Rightarrow> 's worker_pool option" where
  "drop_lease i pool = (if i < length (wp_leases pool) then Some (end_lease i pool) else None)"

definition lease_call ::
    "'n worker_env \<Rightarrow> 's process \<Rightarrow> ffi_request \<Rightarrow> ('s \<Rightarrow> fs) \<Rightarrow> nat \<Rightarrow> 's worker_pool \<Rightarrow>
     ((ffi_error + worker_output) \<times> 's worker_pool) option" where
  "lease_call env pr request files i pool =
     (if i < length (wp_leases pool)
      then Some (let l = wp_leases pool ! i in
        case worker_call env pr (wp_next_id pool) request files (le_worker l, wp_stats pool) of
          (r, w, stats) \<Rightarrow>
            (r, pool\<lparr>wp_next_id := wp_next_id pool + 1, wp_leases := (wp_leases pool)[i := l\<lparr>le_worker := w\<rparr>],
                     wp_stats := stats\<rparr>))
      else None)"

text \<open>\<^verbatim>\<open>reap_idle_workers\<close>: the scan by index over the waiting workers.\<close>

definition idle_expired :: "nat \<Rightarrow> nat \<Rightarrow> 's pooled_worker \<Rightarrow> bool" where
  "idle_expired timeout now w \<longleftrightarrow> (case pw_idle_since w of None \<Rightarrow> False | Some since \<Rightarrow> timeout \<le> now - since)"

function reap_scan :: "('w \<Rightarrow> bool) \<Rightarrow> nat \<Rightarrow> 'w list \<Rightarrow> 'w list \<Rightarrow> 'w list \<times> 'w list" where
  "reap_scan expired index available out =
     (if index < length available
      then if expired (available ! index)
           then reap_scan expired index (remove_nth index available) (out @ [available ! index])
           else reap_scan expired (index + 1) available out
      else (available, out))"
  by pat_completeness auto
termination
  by (relation "measure (\<lambda>(_, index, available, _). length available - index)") (auto simp: length_remove_nth)

declare reap_scan.simps [simp del]

definition reap_idle_workers :: "nat \<Rightarrow> 's worker_pool \<Rightarrow> 's worker_pool" where
  "reap_idle_workers now pool =
     (let timeout = pt_idle_timeout (wp_tuning pool) in
      if timeout = 0 then pool
      else case reap_scan (idle_expired timeout now) 0 (wp_available pool) [] of (available, expired) \<Rightarrow>
        if expired = [] then pool
        else pool\<lparr>wp_available := available,
               wp_stats := (wp_stats pool)\<lparr>ps_idle_reaped := ps_idle_reaped (wp_stats pool) + length expired,
                 ps_killed := ps_killed (wp_stats pool) + length expired\<rparr>\<rparr>)"

section \<open>Steps\<close>

datatype 's pool_action =
    Acquire "'s option"
  | AcquireExclusive "'s option"
  | Calls nat nat
  | FinishSuccess nat nat
  | KillLease nat
  | DropLease nat
  | Reap nat

text \<open>\<open>Calls i n\<close>: the worker of lease \<open>i\<close> completes \<open>n\<close> more calls.\<close>

definition calls_done :: "nat \<Rightarrow> nat \<Rightarrow> 's worker_pool \<Rightarrow> 's worker_pool option" where
  "calls_done i n pool =
     (if i < length (wp_leases pool)
      then let l = wp_leases pool ! i; w = le_worker l in
        Some (pool\<lparr>wp_leases := (wp_leases pool)[i := l\<lparr>le_worker :=
                w\<lparr>pw_completed_calls := sat_add_usize (pw_completed_calls w) n\<rparr>\<rparr>],
              wp_stats := (wp_stats pool)\<lparr>ps_completed_calls := ps_completed_calls (wp_stats pool) + n\<rparr>\<rparr>)
      else None)"

fun pool_step :: "'s pool_action \<Rightarrow> 's worker_pool \<Rightarrow> 's worker_pool option" where
  "pool_step (Acquire proc) pool = acquire proc pool"
| "pool_step (AcquireExclusive proc) pool = acquire_exclusive proc pool"
| "pool_step (Calls i n) pool = calls_done i n pool"
| "pool_step (FinishSuccess now i) pool = finish_success now i pool"
| "pool_step (KillLease i) pool = kill_lease i pool"
| "pool_step (DropLease i) pool = drop_lease i pool"
| "pool_step (Reap now) pool = Some (reap_idle_workers now pool)"

section \<open>The sweep\<close>

text \<open>The scan by index separates the expired workers from the others and keeps both in order.\<close>

lemma reap_scan_filter:
  "i \<le> length xs \<Longrightarrow> reap_scan P i xs out =
     (take i xs @ filter (\<lambda>x. \<not> P x) (drop i xs), out @ filter P (drop i xs))"
proof (induction P i xs out rule: reap_scan.induct)
  case (1 P i xs out)
  show ?case
  proof (cases "i < length xs")
    case True
    then have d: "drop i xs = xs ! i # drop (Suc i) xs" by (simp add: Cons_nth_drop_Suc)
    show ?thesis
    proof (cases "P (xs ! i)")
      case True
      have "take i (remove_nth i xs) = take i xs" "drop i (remove_nth i xs) = drop (Suc i) xs"
        using \<open>i < length xs\<close> by (simp_all add: remove_nth_def)
      with True \<open>i < length xs\<close> "1.IH"(1) show ?thesis
        by (subst reap_scan.simps) (simp add: d length_remove_nth)
    next
      case False
      with \<open>i < length xs\<close> "1.IH"(2) show ?thesis
        by (subst reap_scan.simps) (simp add: d take_Suc_conv_app_nth)
    qed
  next
    case False
    with "1.prems" show ?thesis by (subst reap_scan.simps) simp
  qed
qed

lemma reap_scan_eq: "reap_scan P 0 xs [] = (filter (\<lambda>x. \<not> P x) xs, filter P xs)"
  by (simp add: reap_scan_filter)

section \<open>Invariant\<close>

definition pool_ids :: "'s worker_pool \<Rightarrow> nat list" where
  "pool_ids pool = map pw_worker_id (wp_available pool) @ map (\<lambda>l. pw_worker_id (le_worker l)) (wp_leases pool)"

definition permits_ok :: "'s worker_pool \<Rightarrow> bool" where
  "permits_ok pool \<longleftrightarrow>
     1 \<le> wp_process_concurrency pool \<and>
     wp_permits pool + sum_list (map le_permits (wp_leases pool)) = wp_process_concurrency pool \<and>
     (\<forall>l\<in>set (wp_leases pool). le_permits l = 1 \<or> le_permits l = wp_process_concurrency pool)"

definition waiting_ok :: "'s worker_pool \<Rightarrow> bool" where
  "waiting_ok pool \<longleftrightarrow>
     (\<forall>w\<in>set (wp_available pool). pw_idle_since w \<noteq> None \<and>
        (0 < wp_max_calls_per_worker pool \<longrightarrow> pw_completed_calls w < wp_max_calls_per_worker pool))"

definition ids_ok :: "'s worker_pool \<Rightarrow> bool" where
  "ids_ok pool \<longleftrightarrow> distinct (pool_ids pool) \<and> (\<forall>x\<in>set (pool_ids pool). x < wp_next_worker_id pool)"

definition pool_inv :: "'s worker_pool \<Rightarrow> bool" where
  "pool_inv pool \<longleftrightarrow> permits_ok pool \<and> waiting_ok pool \<and> ids_ok pool"

lemma new_pool_inv: "pool_inv (new_pool p n m t)"
  by (simp add: pool_inv_def permits_ok_def waiting_ok_def ids_ok_def pool_ids_def new_pool_def Let_def)

lemma ids_ok_sub:
  assumes "ids_ok pool" and "mset (pool_ids pool') \<subseteq># mset (pool_ids pool)"
    and "wp_next_worker_id pool \<le> wp_next_worker_id pool'"
  shows "ids_ok pool'"
proof -
  obtain M where "mset (pool_ids pool) = mset (pool_ids pool') + M"
    using assms(2) by (auto simp: mset_subset_eq_exists_conv)
  moreover obtain zs where "mset zs = M" using ex_mset by blast
  ultimately have "mset (pool_ids pool) = mset (pool_ids pool' @ zs)" by simp
  then have "distinct (pool_ids pool) = distinct (pool_ids pool' @ zs)" by (rule mset_eq_imp_distinct_iff)
  then have "distinct (pool_ids pool')" using assms(1) by (simp add: ids_ok_def)
  moreover have "set (pool_ids pool') \<subseteq> set (pool_ids pool)" using assms(2) by (metis set_mset_mono set_mset_mset)
  ultimately show ?thesis using assms(1,3) by (fastforce simp: ids_ok_def)
qed

lemma ids_ok_new:
  assumes "ids_ok pool" and "mset (pool_ids pool') = add_mset (wp_next_worker_id pool) (mset (pool_ids pool))"
    and "wp_next_worker_id pool' = Suc (wp_next_worker_id pool)"
  shows "ids_ok pool'"
proof -
  have "mset (pool_ids pool') = mset (wp_next_worker_id pool # pool_ids pool)" using assms(2) by simp
  then have "distinct (pool_ids pool') = distinct (wp_next_worker_id pool # pool_ids pool)"
      "set (pool_ids pool') = insert (wp_next_worker_id pool) (set (pool_ids pool))"
    by (rule mset_eq_imp_distinct_iff) (metis assms(2) set_mset_add_mset_insert set_mset_mset)
  with assms show ?thesis by (fastforce simp: ids_ok_def)
qed

lemma lease_ids_remove:
  assumes "i < length ls"
  shows "mset (map (\<lambda>l. pw_worker_id (le_worker l)) ls) =
    add_mset (pw_worker_id (le_worker (ls ! i))) (mset (map (\<lambda>l. pw_worker_id (le_worker l)) (remove_nth i ls)))"
  using arg_cong [OF mset_remove_nth [OF assms], of "image_mset (\<lambda>l. pw_worker_id (le_worker l))"] by simp

lemma end_lease_permits: "permits_ok pool \<Longrightarrow> i < length (wp_leases pool) \<Longrightarrow> permits_ok (end_lease i pool)"
  using sum_list_remove_nth [of i "wp_leases pool" le_permits] set_remove_nth [of i "wp_leases pool"]
  by (auto simp: permits_ok_def end_lease_def)

lemmas pool_op_defs = lease_out_def spawn_worker_def count_kill_def end_lease_def pool_ids_def

lemma lease_out_permits:
  assumes "permits_ok pool" and "n \<le> wp_permits pool" and "n = 1 \<or> n = wp_process_concurrency pool"
  shows "permits_ok (lease_out n w pool)"
proof -
  have "wp_permits pool - n + (sum_list (map le_permits (wp_leases pool)) + n) = wp_process_concurrency pool"
    using assms(1,2) unfolding permits_ok_def by linarith
  with assms show ?thesis by (auto simp: permits_ok_def lease_out_def)
qed

lemma spawned_lease_keeps:
  assumes inv: "pool_inv pool" and n: "n \<le> wp_permits pool" "n = 1 \<or> n = wp_process_concurrency pool"
    and s: "spawn_worker proc pool = Some (w, pool1)"
  shows "pool_inv (lease_out n w pool1)"
proof -
  have pool1: "wp_leases pool1 = wp_leases pool" "wp_permits pool1 = wp_permits pool" "wp_available pool1 = wp_available pool"
      "wp_process_concurrency pool1 = wp_process_concurrency pool" "wp_max_calls_per_worker pool1 = wp_max_calls_per_worker pool"
      "wp_next_worker_id pool1 = Suc (wp_next_worker_id pool)" "pw_worker_id w = wp_next_worker_id pool"
    using s by (auto simp: spawn_worker_def)
  have "permits_ok pool1" using inv by (simp add: pool_inv_def permits_ok_def pool1)
  then have "permits_ok (lease_out n w pool1)" using n by (intro lease_out_permits) (simp_all add: pool1)
  moreover have "ids_ok (lease_out n w pool1)"
    by (rule ids_ok_new [of pool]) (use inv in \<open>simp_all add: pool_inv_def lease_out_def pool_ids_def pool1\<close>)
  moreover have "waiting_ok (lease_out n w pool1)"
    using inv by (simp add: pool_inv_def waiting_ok_def lease_out_def pool1)
  ultimately show ?thesis by (simp add: pool_inv_def)
qed

lemma acquire_keeps: "pool_inv pool \<Longrightarrow> acquire proc pool = Some pool' \<Longrightarrow> pool_inv pool'"
proof -
  assume inv: "pool_inv pool" and a: "acquire proc pool = Some pool'"
  then have p: "1 \<le> wp_permits pool" by (simp add: acquire_def split: if_splits)
  show "pool_inv pool'"
  proof (cases "wp_available pool = []")
    case False
    then obtain ws w where ws: "wp_available pool = ws @ [w]" by (metis append_butlast_last_id)
    have pool': "pool' = lease_out 1 (w\<lparr>pw_idle_since := None\<rparr>) (pool\<lparr>wp_available := ws\<rparr>)"
      using a p by (simp add: acquire_def ws)
    have "mset (pool_ids pool') = mset (pool_ids pool)" by (simp add: pool' pool_op_defs ws)
    then have "ids_ok pool'" using inv ids_ok_sub [of pool pool'] by (simp add: pool_inv_def pool' lease_out_def)
    moreover have "permits_ok pool'"
      using inv p unfolding pool' by (intro lease_out_permits) (simp_all add: pool_inv_def permits_ok_def)
    moreover have "waiting_ok pool'" using inv by (simp add: pool_inv_def waiting_ok_def pool' lease_out_def ws)
    ultimately show ?thesis by (simp add: pool_inv_def)
  next
    case True
    with a p have pool': "pool' = (case spawn_worker proc pool of None \<Rightarrow> pool | Some (w, pool) \<Rightarrow> lease_out 1 w pool)"
      by (simp add: acquire_def)
    show ?thesis
      using inv spawned_lease_keeps [OF inv p disjI1 [OF refl], of proc] by (auto simp: pool' split: option.splits)
  qed
qed

lemma acquire_exclusive_keeps: "pool_inv pool \<Longrightarrow> acquire_exclusive proc pool = Some pool' \<Longrightarrow> pool_inv pool'"
proof -
  assume inv: "pool_inv pool" and a: "acquire_exclusive proc pool = Some pool'"
  have p: "wp_process_concurrency pool \<le> wp_permits pool" using a by (simp add: acquire_exclusive_def split: if_splits)
  with a have pool': "pool' = (case spawn_worker proc pool of
      None \<Rightarrow> pool | Some (w, pool) \<Rightarrow> lease_out (wp_process_concurrency pool) w pool)"
    by (simp add: acquire_exclusive_def)
  show "pool_inv pool'"
  proof (cases "spawn_worker proc pool")
    case None
    with inv show ?thesis by (simp add: pool')
  next
    case (Some wp)
    then obtain w pool1 where s: "spawn_worker proc pool = Some (w, pool1)" by (cases wp) auto
    then have "wp_process_concurrency pool1 = wp_process_concurrency pool" by (auto simp: spawn_worker_def)
    with s show ?thesis using spawned_lease_keeps [OF inv p disjI2 [OF refl] s] by (simp add: pool')
  qed
qed

lemma finish_success_keeps: "pool_inv pool \<Longrightarrow> finish_success now i pool = Some pool' \<Longrightarrow> pool_inv pool'"
proof -
  assume inv: "pool_inv pool" and f: "finish_success now i pool = Some pool'"
  have i: "i < length (wp_leases pool)"
    and pool': "pool' = return_or_recycle_worker now (le_worker (wp_leases pool ! i)) (end_lease i pool)"
    using f by (simp_all add: finish_success_def split: if_splits)
  have pe: "permits_ok (end_lease i pool)" using inv i by (simp add: pool_inv_def end_lease_permits)
  have "mset (pool_ids pool') \<subseteq># mset (pool_ids pool)"
    using lease_ids_remove [OF i]
    by (simp add: pool' return_or_recycle_worker_def pool_op_defs del: mset_map)
  then have "ids_ok pool'"
    using inv ids_ok_sub [of pool pool']
    by (simp add: pool_inv_def pool' return_or_recycle_worker_def count_kill_def end_lease_def)
  moreover have "permits_ok pool'"
    using pe by (simp add: pool' return_or_recycle_worker_def permits_ok_def count_kill_def)
  moreover have "waiting_ok pool'"
    using inv by (auto simp: pool_inv_def pool' return_or_recycle_worker_def waiting_ok_def count_kill_def end_lease_def)
  ultimately show "pool_inv pool'" by (simp add: pool_inv_def)
qed

lemma end_lease_keeps: "pool_inv pool \<Longrightarrow> i < length (wp_leases pool) \<Longrightarrow> pool_inv (end_lease i pool)"
proof -
  assume inv: "pool_inv pool" and i: "i < length (wp_leases pool)"
  have "mset (pool_ids (end_lease i pool)) \<subseteq># mset (pool_ids pool)"
    using lease_ids_remove [OF i] by (simp add: pool_op_defs del: mset_map)
  then have "ids_ok (end_lease i pool)"
    using inv ids_ok_sub [of pool "end_lease i pool"] by (simp add: pool_inv_def end_lease_def)
  moreover have "permits_ok (end_lease i pool)" using inv i by (simp add: pool_inv_def end_lease_permits)
  moreover have "waiting_ok (end_lease i pool)" using inv by (simp add: pool_inv_def waiting_ok_def end_lease_def)
  ultimately show ?thesis by (simp add: pool_inv_def)
qed

lemma count_kill_keeps [simp]: "pool_inv (count_kill pool) \<longleftrightarrow> pool_inv pool"
  by (simp add: pool_inv_def permits_ok_def waiting_ok_def ids_ok_def pool_ids_def count_kill_def)

lemma calls_done_keeps: "pool_inv pool \<Longrightarrow> calls_done i n pool = Some pool' \<Longrightarrow> pool_inv pool'"
proof -
  assume inv: "pool_inv pool" and c: "calls_done i n pool = Some pool'"
  then have i: "i < length (wp_leases pool)" by (simp add: calls_done_def split: if_splits)
  define l where "l = wp_leases pool ! i"
  define l' where "l' = l\<lparr>le_worker := (le_worker l)\<lparr>pw_completed_calls :=
    sat_add_usize (pw_completed_calls (le_worker l)) n\<rparr>\<rparr>"
  have ls: "wp_leases pool' = (wp_leases pool)[i := l']"
    using c i by (auto simp: calls_done_def Let_def l_def l'_def)
  have same: "le_permits l' = le_permits l" "pw_worker_id (le_worker l') = pw_worker_id (le_worker l)"
    by (simp_all add: l'_def)
  have permits: "map le_permits (wp_leases pool') = map le_permits (wp_leases pool)"
    and ids: "map (\<lambda>l. pw_worker_id (le_worker l)) (wp_leases pool') =
      map (\<lambda>l. pw_worker_id (le_worker l)) (wp_leases pool)"
    using i same by (simp_all add: ls map_update l_def list_update_same_conv)
  then have "le_permits ` set (wp_leases pool') = le_permits ` set (wp_leases pool)" by (metis set_map)
  then have "\<forall>l\<in>set (wp_leases pool'). le_permits l = 1 \<or> le_permits l = wp_process_concurrency pool"
    using inv unfolding pool_inv_def permits_ok_def by (metis (no_types, opaque_lifting) image_iff)
  moreover have rest: "wp_permits pool' = wp_permits pool" "wp_process_concurrency pool' = wp_process_concurrency pool"
      "wp_available pool' = wp_available pool" "wp_next_worker_id pool' = wp_next_worker_id pool"
      "wp_max_calls_per_worker pool' = wp_max_calls_per_worker pool"
    using c i by (auto simp: calls_done_def Let_def)
  ultimately show "pool_inv pool'"
    using inv permits ids by (simp add: pool_inv_def permits_ok_def waiting_ok_def ids_ok_def pool_ids_def)
qed

lemma reap_keeps: "pool_inv pool \<Longrightarrow> pool_inv (reap_idle_workers now pool)"
proof -
  assume inv: "pool_inv pool"
  let ?pool = "reap_idle_workers now pool"
  have "\<exists>P. wp_available ?pool = filter P (wp_available pool)" 
    by (auto simp: reap_idle_workers_def Let_def reap_scan_eq intro: exI [of _ "\<lambda>_. True"] split: if_splits)
  then obtain P where P: "wp_available ?pool = filter P (wp_available pool)" by blast
  have rest: "wp_leases ?pool = wp_leases pool" "wp_permits ?pool = wp_permits pool"
      "wp_process_concurrency ?pool = wp_process_concurrency pool" "wp_next_worker_id ?pool = wp_next_worker_id pool"
      "wp_max_calls_per_worker ?pool = wp_max_calls_per_worker pool"
    by (simp_all add: reap_idle_workers_def Let_def split: prod.split)
  have "mset (pool_ids ?pool) \<subseteq># mset (pool_ids pool)"
    by (simp add: pool_ids_def P rest image_mset_subseteq_mono)
  then have "ids_ok ?pool" using inv ids_ok_sub [of pool ?pool] rest by (simp add: pool_inv_def)
  with inv rest P show ?thesis by (auto simp: pool_inv_def permits_ok_def waiting_ok_def)
qed

lemma pool_step_keeps: "pool_inv pool \<Longrightarrow> pool_step a pool = Some pool' \<Longrightarrow> pool_inv pool'"
  by (cases a)
    (auto simp: kill_lease_def drop_lease_def end_lease_keeps reap_keeps split: if_splits
      dest: acquire_keeps acquire_exclusive_keeps calls_done_keeps finish_success_keeps)

lemma pool_run_inv: "run_steps pool_step as (new_pool p n m t) = Some pool \<Longrightarrow> pool_inv pool"
  by (rule run_steps_inv [of pool_inv pool_step, OF pool_step_keeps new_pool_inv])

lemma pool_step_config:
  "pool_step a pool = Some pool' \<Longrightarrow> wp_process_concurrency pool' = wp_process_concurrency pool"
  by (cases a)
    (auto simp: acquire_def acquire_exclusive_def calls_done_def finish_success_def kill_lease_def drop_lease_def
      return_or_recycle_worker_def reap_idle_workers_def pool_op_defs Let_def
      split: if_splits option.splits prod.splits)

lemma pool_run_config:
  "run_steps pool_step as (new_pool p n m t) = Some pool \<Longrightarrow> wp_process_concurrency pool = max n 1"
proof -
  assume r: "run_steps pool_step as (new_pool p n m t) = Some pool"
  show ?thesis
    by (rule run_steps_inv [of "\<lambda>pool. wp_process_concurrency pool = max n 1" pool_step, OF _ _ r])
      (auto simp: new_pool_def Let_def dest: pool_step_config)
qed

lemma sum_list_ge_length: "\<forall>x\<in>set xs. 1 \<le> f x \<Longrightarrow> length xs \<le> sum_list (map f xs)" for f :: "'a \<Rightarrow> nat"
  by (induction xs) auto

lemma member_le_sum: "x \<in> set xs \<Longrightarrow> f x + sum_list (map f (remove1 x xs)) = sum_list (map f xs)" for f :: "'a \<Rightarrow> nat"
  by (induction xs) auto

text \<open>whatever leases are taken, returned, killed or dropped and whatever the sweep removes, no more workers
  are leased than the process limit, a worker is never in two places at once, and a lease taken for recovery
  is alone.\<close>

theorem worker_leases_bounded:
  assumes run: "run_steps pool_step as (new_pool p n m t) = Some pool"
  shows "length (wp_leases pool) \<le> max n 1 \<and> distinct (pool_ids pool) \<and>
    ((\<exists>l\<in>set (wp_leases pool). le_permits l = max n 1) \<longrightarrow> length (wp_leases pool) = 1)"
proof -
  have inv: "pool_inv pool" by (rule pool_run_inv [OF run])
  have c: "wp_process_concurrency pool = max n 1" by (rule pool_run_config [OF run])
  have ge: "\<forall>l\<in>set (wp_leases pool). 1 \<le> le_permits l" using inv by (auto simp: pool_inv_def permits_ok_def)
  have sum: "sum_list (map le_permits (wp_leases pool)) \<le> max n 1"
    using inv c by (simp add: pool_inv_def permits_ok_def)
  have "length (wp_leases pool) = 1" if "l \<in> set (wp_leases pool)" "le_permits l = max n 1" for l
  proof -
    have "sum_list (map le_permits (remove1 l (wp_leases pool))) = 0"
      using member_le_sum [OF that(1), of le_permits] sum unfolding that(2) by linarith
    moreover have "length (remove1 l (wp_leases pool)) \<le> sum_list (map le_permits (remove1 l (wp_leases pool)))"
      by (rule sum_list_ge_length) (meson ge notin_set_remove1)
    ultimately have "length (remove1 l (wp_leases pool)) = 0" by linarith
    then show ?thesis using that(1) by (cases "wp_leases pool") (auto split: if_splits)
  qed
  with sum_list_ge_length [OF ge] sum inv show ?thesis by (auto simp: pool_inv_def ids_ok_def)
qed

theorem worker_leases_bounded_witness:
  "\<exists>pool. run_steps pool_step [Acquire (Some ()), Acquire (Some ())]
      (new_pool ''w'' 2 0 \<lparr>pt_idle_timeout = 0, pt_gc_heap_hard_limit_mb = 0, pt_gc_conserve_memory = None\<rparr>) = Some pool \<and>
     length (wp_leases pool) = 2 \<and> distinct (pool_ids pool)"
proof -
  obtain pool where r: "run_steps pool_step [Acquire (Some ()), Acquire (Some ())]
      (new_pool ''w'' 2 0 \<lparr>pt_idle_timeout = 0, pt_gc_heap_hard_limit_mb = 0, pt_gc_conserve_memory = None\<rparr>) = Some pool"
    and l: "length (wp_leases pool) = 2"
    by (simp add: new_pool_def acquire_def pool_op_defs)
  from worker_leases_bounded [OF r] l r show ?thesis by blast
qed

section \<open>How many processes live\<close>

definition shared_inv :: "'s worker_pool \<Rightarrow> bool" where
  "shared_inv pool \<longleftrightarrow>
     length (wp_available pool) + length (wp_leases pool) \<le> wp_process_concurrency pool \<and>
     wp_permits pool + length (wp_leases pool) = wp_process_concurrency pool \<and>
     (\<forall>l\<in>set (wp_leases pool). le_permits l = 1)"

fun is_exclusive :: "'s pool_action \<Rightarrow> bool" where
  "is_exclusive (AcquireExclusive _) = True"
| "is_exclusive _ = False"

lemma end_lease_shared:
  "shared_inv pool \<Longrightarrow> i < length (wp_leases pool) \<Longrightarrow>
   shared_inv (end_lease i pool) \<and> length (wp_available (end_lease i pool)) + length (wp_leases (end_lease i pool)) <
     wp_process_concurrency (end_lease i pool)"
  using set_remove_nth [of i "wp_leases pool"] by (auto simp: shared_inv_def end_lease_def length_remove_nth)

lemma count_kill_shared [simp]: "shared_inv (count_kill pool) \<longleftrightarrow> shared_inv pool"
  by (simp add: shared_inv_def count_kill_def)

lemma acquire_shared: "shared_inv pool \<Longrightarrow> acquire proc pool = Some pool' \<Longrightarrow> shared_inv pool'"
  by (auto simp: acquire_def shared_inv_def pool_op_defs split: if_splits option.splits)

lemma finish_shared: "shared_inv pool \<Longrightarrow> finish_success now i pool = Some pool' \<Longrightarrow> shared_inv pool'"
  using end_lease_shared [of pool i]
  by (auto simp: finish_success_def return_or_recycle_worker_def shared_inv_def count_kill_def split: if_splits)

lemma calls_shared: "shared_inv pool \<Longrightarrow> calls_done i n pool = Some pool' \<Longrightarrow> shared_inv pool'"
  using set_update_subset_insert [of "wp_leases pool" i]
  by (auto simp: calls_done_def shared_inv_def Let_def split: if_splits) fastforce

lemma reap_shared: "shared_inv pool \<Longrightarrow> shared_inv (reap_idle_workers now pool)"
  using length_filter_le [of "\<lambda>w. \<not> idle_expired (pt_idle_timeout (wp_tuning pool)) now w" "wp_available pool"]
  by (auto simp: reap_idle_workers_def Let_def reap_scan_eq shared_inv_def simp del: length_filter_le)

lemma pool_step_shared:
  "shared_inv pool \<Longrightarrow> \<not> is_exclusive a \<Longrightarrow> pool_step a pool = Some pool' \<Longrightarrow> shared_inv pool'"
  using end_lease_shared [of pool]
  by (cases a) (auto simp: kill_lease_def drop_lease_def reap_shared split: if_splits
      dest: acquire_shared finish_shared calls_shared)

lemma shared_run:
  "shared_inv pool \<Longrightarrow> list_all (\<lambda>a. \<not> is_exclusive a) as \<Longrightarrow> run_steps pool_step as pool = Some pool' \<Longrightarrow>
   shared_inv pool'"
  by (induction as arbitrary: pool) (auto split: option.splits dest: pool_step_shared)

text \<open>C28: as long as no lease is taken for recovery, no more worker processes live, leased or waiting, than the
  process limit.\<close>

theorem worker_processes_bounded:
  assumes "run_steps pool_step as (new_pool p n m t) = Some pool" and "list_all (\<lambda>a. \<not> is_exclusive a) as"
  shows "length (wp_available pool) + length (wp_leases pool) \<le> max n 1"
proof -
  have "shared_inv (new_pool p n m t)" by (simp add: shared_inv_def new_pool_def Let_def)
  from shared_run [OF this assms(2,1)] pool_run_config [OF assms(1)] show ?thesis by (simp add: shared_inv_def)
qed

text \<open>every lease taken for recovery that ends well leaves one more worker in the pool: with a limit of
  \<open>n\<close> processes any number of them can be waiting, since the fresh worker is handed back without
  regard to the workers already there.\<close>

theorem recovery_leases_accumulate:
  "\<exists>as (pool :: unit worker_pool). run_steps pool_step as (new_pool p n 0 t) = Some pool \<and> wp_leases pool = [] \<and>
     length (wp_available pool) = k"
proof (induction k)
  case 0
  show ?case by (intro exI [of _ "[]"]) (simp add: new_pool_def Let_def)
next
  case (Suc k)
  then obtain as and pool :: "unit worker_pool" where r: "run_steps pool_step as (new_pool p n 0 t) = Some pool"
    and e: "wp_leases pool = []" "length (wp_available pool) = k"
    by blast
  have "permits_ok pool" using pool_run_inv [OF r] by (simp add: pool_inv_def)
  then have full: "wp_permits pool = wp_process_concurrency pool" using e by (simp add: permits_ok_def)
  have nolimit: "wp_max_calls_per_worker pool = 0"
    by (rule run_steps_inv [of "\<lambda>pool. wp_max_calls_per_worker pool = 0" pool_step, OF _ _ r])
      (auto simp: new_pool_def Let_def pool_op_defs acquire_def acquire_exclusive_def calls_done_def finish_success_def
        kill_lease_def drop_lease_def return_or_recycle_worker_def reap_idle_workers_def
        elim!: pool_step.elims split: if_splits option.splits prod.splits)
  have "\<exists>pool'. run_steps pool_step [AcquireExclusive (Some ()), FinishSuccess 0 0] pool = Some pool' \<and>
      wp_leases pool' = [] \<and> length (wp_available pool') = Suc k"
    using e full nolimit
    by (simp add: acquire_exclusive_def finish_success_def return_or_recycle_worker_def pool_op_defs remove_nth_def)
  with r show ?case by (auto simp: run_steps_append intro!: exI [of _ "as @ [AcquireExclusive (Some ()), FinishSuccess 0 0]"])
qed

theorem worker_processes_bounded_witness:
  "\<exists>pool. run_steps pool_step [Acquire (Some ()), FinishSuccess 0 0, Acquire (Some ())]
      (new_pool ''w'' 1 0 \<lparr>pt_idle_timeout = 0, pt_gc_heap_hard_limit_mb = 0, pt_gc_conserve_memory = None\<rparr>) = Some pool \<and>
     length (wp_available pool) + length (wp_leases pool) \<le> 1"
proof -
  let ?as = "[Acquire (Some ()), FinishSuccess 0 0, Acquire (Some ())]"
  obtain pool where r: "run_steps pool_step ?as
      (new_pool ''w'' 1 0 \<lparr>pt_idle_timeout = 0, pt_gc_heap_hard_limit_mb = 0, pt_gc_conserve_memory = None\<rparr>) = Some pool"
    by (simp add: new_pool_def acquire_def finish_success_def return_or_recycle_worker_def pool_op_defs)
  have "list_all (\<lambda>a. \<not> is_exclusive a) ?as" by simp
  from worker_processes_bounded [OF r this] r show ?thesis by auto
qed

section \<open>Accounting\<close>

definition live :: "'s worker_pool \<Rightarrow> nat" where
  "live pool = length (wp_available pool) + length (wp_leases pool)"

definition accounted :: "'s worker_pool \<Rightarrow> bool" where
  "accounted pool \<longleftrightarrow> ps_spawned (wp_stats pool) = live pool + ps_killed (wp_stats pool)"

fun is_drop :: "'s pool_action \<Rightarrow> bool" where
  "is_drop (DropLease _) = True"
| "is_drop _ = False"

lemma pool_step_accounted:
  "accounted pool \<Longrightarrow> \<not> is_drop a \<Longrightarrow> pool_step a pool = Some pool' \<Longrightarrow> accounted pool'"
proof (cases a)
  case (Reap now)
  assume "accounted pool" and "pool_step a pool = Some pool'"
  moreover have "length (wp_available pool) = length (filter (\<lambda>w. \<not> P w) (wp_available pool)) +
      length (filter P (wp_available pool))" for P
    using sum_length_filter_compl [of P "wp_available pool"] by simp
  ultimately show ?thesis
    using Reap by (auto simp: accounted_def live_def reap_idle_workers_def Let_def reap_scan_eq split: if_splits)
qed (auto simp: accounted_def live_def acquire_def acquire_exclusive_def calls_done_def finish_success_def kill_lease_def
    return_or_recycle_worker_def pool_op_defs length_remove_nth Let_def split: if_splits option.splits)

text \<open>Every process that was started lives or was counted as killed, unless its lease was dropped.\<close>

lemma pool_accounts_for_processes:
  "list_all (\<lambda>a. \<not> is_drop a) as \<Longrightarrow> accounted pool \<Longrightarrow> run_steps pool_step as pool = Some pool' \<Longrightarrow> accounted pool'"
  by (induction as arbitrary: pool) (auto split: option.splits dest: pool_step_accounted)

section \<open>Keys\<close>

lemma nul_not_in_show_nat [simp]: "nul \<notin> set (show_nat n)"
proof -
  have "\<not> is_digit nul" by (simp add: is_digit_def nul_def)
  then show ?thesis using show_nat_digits [of n] by (auto simp: list_all_iff)
qed

lemma nul_not_in_show_opt [simp]: "nul \<notin> set (show_opt_nat x)"
  using nul_not_in_show_nat by (cases x) (simp_all add: show_opt_nat_def nul_def)

lemma show_opt_nat_inj [simp]: "show_opt_nat x = show_opt_nat y \<longleftrightarrow> x = y"
  by (cases x; cases y) (simp_all add: show_opt_nat_def)

text \<open>Pools with different settings are different pools, for paths without a NUL byte.\<close>

lemma pool_key_inj:
  assumes "nul \<notin> set w" "nul \<notin> set l" "nul \<notin> set w'" "nul \<notin> set l'"
  shows "pool_key w l n m t = pool_key w' l' n' m' t' \<longleftrightarrow> w = w' \<and> l = l' \<and> n = n' \<and> m = m' \<and> t = t'"
proof
  assume "pool_key w l n m t = pool_key w' l' n' m' t'"
  from arg_cong [OF this, of "split_char nul"]
  have "w = w' \<and> l = l' \<and> n = n' \<and> m = m' \<and> pt_idle_timeout t = pt_idle_timeout t' \<and>
      pt_gc_heap_hard_limit_mb t = pt_gc_heap_hard_limit_mb t' \<and> pt_gc_conserve_memory t = pt_gc_conserve_memory t'"
    using assms by (simp add: pool_key_def split_char_append split_char_absent)
  then show "w = w' \<and> l = l' \<and> n = n' \<and> m = m' \<and> t = t'" by simp
qed simp

end
