(* ===== verification/Payload_Bundle.thy ===== *)
theory Payload_Bundle
  imports Ffi_Types
begin

text \<open>
  The container in which object payloads cross the bridge: the writer of
  \<^verbatim>\<open>crates/assetstudio-ffi/src/native.rs\<close> and the parser of
  \<^verbatim>\<open>export_pipeline/implementation/payload.rs\<close> (version 2 and the two layouts of version 1), and the raw
  RGBA image format with its row stride.
\<close>

section \<open>Writing\<close>

definition V2_MAGIC :: nat where "V2_MAGIC = 0x42504148"
definition V2_VERSION :: nat where "V2_VERSION = 2"
definition V2_HEADER_LEN :: nat where "V2_HEADER_LEN = 20"
definition V1_MAGIC :: bytes where "V1_MAGIC = as_bytes ''HARUKI_ASSET_PAYLOAD_BUNDLE_V1''"

definition checked_add :: "nat \<Rightarrow> nat \<Rightarrow> nat option" where
  "checked_add a b = (if a + b \<le> usize_max then Some (a + b) else None)"

type_synonym entry = "string \<times> bytes"

fun bundle_total_len :: "nat \<Rightarrow> entry list \<Rightarrow> nat option" where
  "bundle_total_len len [] = Some len"
| "bundle_total_len len ((name, payload) # es) =
     Option.bind (checked_add len 4) (\<lambda>v. Option.bind (checked_add v 8) (\<lambda>v.
       Option.bind (checked_add v (length name)) (\<lambda>v.
       Option.bind (checked_add v (length payload)) (\<lambda>v. bundle_total_len v es))))"

fun write_entries :: "entry list \<Rightarrow> ffi_error + bytes" where
  "write_entries [] = Inr []"
| "write_entries ((name, payload) # es) =
     (if length name > u32_max then Inl (FfiMessage ''native payload bundle entry name is too large'')
      else res_bind (write_entries es) (\<lambda>rest.
        Inr (to_le_bytes 4 (length name) @ to_le_bytes 8 (length payload) @ as_bytes name @ payload @ rest)))"

definition payload_data_bytes :: "entry list \<Rightarrow> nat" where
  "payload_data_bytes es = sum_list (map (\<lambda>(_, payload). length payload) es)"

definition write_native_payload_bundle :: "entry list \<Rightarrow> ffi_error + bytes" where
  "write_native_payload_bundle es =
     (if es = [] then Inr []
      else case bundle_total_len V2_HEADER_LEN es of
             None \<Rightarrow> Inl (FfiMessage ''native payload bundle is too large'')
           | Some _ \<Rightarrow> res_bind (write_entries es) (\<lambda>body.
               Inr (to_le_bytes 4 V2_MAGIC @ to_le_bytes 2 V2_VERSION @ to_le_bytes 2 V2_HEADER_LEN @
                    to_le_bytes 4 (length es) @ to_le_bytes 8 (payload_data_bytes es) @ body)))"

section \<open>Parsing\<close>

definition read_bundle_uint :: "nat \<Rightarrow> string \<Rightarrow> bytes \<Rightarrow> nat \<Rightarrow> export_error + nat \<times> nat" where
  "read_bundle_uint k message payload cursor =
     (if length payload - cursor < k then Inl (ExAssetStudioFfi message)
      else Inr (from_le_bytes (subslice cursor (cursor + k) payload), cursor + k))"

definition read_bundle_u16 :: "bytes \<Rightarrow> nat \<Rightarrow> export_error + nat \<times> nat" where
  "read_bundle_u16 = read_bundle_uint 2 ''native payload bundle has truncated u16''"

definition read_bundle_u32 :: "bytes \<Rightarrow> nat \<Rightarrow> export_error + nat \<times> nat" where
  "read_bundle_u32 = read_bundle_uint 4 ''native payload bundle has truncated u32''"

definition read_bundle_u64 :: "bytes \<Rightarrow> nat \<Rightarrow> export_error + nat \<times> nat" where
  "read_bundle_u64 = read_bundle_uint 8 ''native payload bundle has truncated u64''"

text \<open>The name of an entry, common to both layouts.\<close>

definition read_entry_name :: "bytes \<Rightarrow> nat \<Rightarrow> nat \<Rightarrow> export_error + string \<times> nat" where
  "read_entry_name payload cursor name_len =
     (if length payload - cursor < name_len
      then Inl (ExAssetStudioFfi ''native payload bundle has truncated entry name'')
      else case from_utf8 (subslice cursor (cursor + name_len) payload) of
             Inl e \<Rightarrow> Inl (ExAssetStudioFfi
               (''native payload bundle entry name is not utf-8: '' @ show_utf8_error e))
           | Inr name \<Rightarrow> Inr (name, cursor + name_len))"

definition read_entry_data :: "bytes \<Rightarrow> nat \<Rightarrow> nat \<Rightarrow> export_error + bytes \<times> nat" where
  "read_entry_data payload cursor data_len =
     (if length payload - cursor < data_len
      then Inl (ExAssetStudioFfi ''native payload bundle has truncated entry data'')
      else Inr (subslice cursor (cursor + data_len) payload, cursor + data_len))"

definition data_len_usize :: "nat \<Rightarrow> export_error + nat" where
  "data_len_usize n =
     (if n \<le> usize_max then Inr n
      else Inl (ExAssetStudioFfi ''native payload bundle entry data is too large''))"

definition sat_add_u64 :: "nat \<Rightarrow> nat \<Rightarrow> nat" where
  "sat_add_u64 a b = min (a + b) u64_max"

text \<open>One turn of the interleaved loop: lengths, name, data.\<close>

definition interleaved_entry :: "bytes \<Rightarrow> nat \<Rightarrow> export_error + entry \<times> nat" where
  "interleaved_entry payload cursor =
     res_bind (read_bundle_u32 payload cursor) (\<lambda>(name_len, cursor).
     res_bind (read_bundle_u64 payload cursor) (\<lambda>(data_len, cursor).
     res_bind (data_len_usize data_len) (\<lambda>len.
     res_bind (read_entry_name payload cursor name_len) (\<lambda>(name, cursor).
     res_bind (read_entry_data payload cursor len) (\<lambda>(data, cursor).
     Inr ((name, data), cursor))))))"

fun interleaved_loop :: "bytes \<Rightarrow> nat \<Rightarrow> nat \<Rightarrow> nat \<Rightarrow> export_error + entry list \<times> nat \<times> nat" where
  "interleaved_loop payload 0 cursor observed = Inr ([], cursor, observed)"
| "interleaved_loop payload (Suc n) cursor observed =
     res_bind (interleaved_entry payload cursor) (\<lambda>(e, cursor).
     res_bind (interleaved_loop payload n cursor (sat_add_u64 observed (length (snd e))))
       (\<lambda>(es, cursor, observed). Inr (e # es, cursor, observed)))"

definition finish_payload_bundle_parse :: "bytes \<Rightarrow> nat \<Rightarrow> nat \<Rightarrow> nat option \<Rightarrow> export_error + unit" where
  "finish_payload_bundle_parse payload cursor observed expected =
     (if cursor \<noteq> length payload
      then Inl (ExAssetStudioFfi (''native payload bundle has '' @ show_nat (length payload - cursor) @
             '' trailing byte(s)''))
      else case expected of
             None \<Rightarrow> Inr ()
           | Some n \<Rightarrow>
               if observed \<noteq> n
               then Inl (ExAssetStudioFfi (''native payload bundle data byte count mismatch: expected '' @
                      show_nat n @ '', got '' @ show_nat observed))
               else Inr ())"

definition parse_payload_bundle_interleaved_entries ::
    "bytes \<Rightarrow> nat \<Rightarrow> nat \<Rightarrow> nat option \<Rightarrow> export_error + entry list" where
  "parse_payload_bundle_interleaved_entries payload cursor cnt expected =
     res_bind (interleaved_loop payload cnt cursor 0) (\<lambda>(entries, cursor, observed).
     res_bind (finish_payload_bundle_parse payload cursor observed expected) (\<lambda>_. Inr entries))"

text \<open>The grouped layout: all lengths and names, then all data.\<close>

definition grouped_header :: "bytes \<Rightarrow> nat \<Rightarrow> export_error + (string \<times> nat) \<times> nat" where
  "grouped_header payload cursor =
     res_bind (read_bundle_u32 payload cursor) (\<lambda>(name_len, cursor).
     res_bind (read_bundle_u64 payload cursor) (\<lambda>(data_len, cursor).
     res_bind (read_entry_name payload cursor name_len) (\<lambda>(name, cursor).
     Inr ((name, data_len), cursor))))"

fun grouped_headers :: "bytes \<Rightarrow> nat \<Rightarrow> nat \<Rightarrow> nat \<Rightarrow> export_error + (string \<times> nat) list \<times> nat \<times> nat" where
  "grouped_headers payload 0 cursor observed = Inr ([], cursor, observed)"
| "grouped_headers payload (Suc n) cursor observed =
     res_bind (grouped_header payload cursor) (\<lambda>(h, cursor).
     res_bind (grouped_headers payload n cursor (sat_add_u64 observed (snd h)))
       (\<lambda>(hs, cursor, observed). Inr (h # hs, cursor, observed)))"

fun grouped_data :: "bytes \<Rightarrow> (string \<times> nat) list \<Rightarrow> nat \<Rightarrow> export_error + entry list \<times> nat" where
  "grouped_data payload [] cursor = Inr ([], cursor)"
| "grouped_data payload ((name, data_len) # hs) cursor =
     res_bind (data_len_usize data_len) (\<lambda>len.
     res_bind (read_entry_data payload cursor len) (\<lambda>(data, cursor).
     res_bind (grouped_data payload hs cursor) (\<lambda>(es, cursor). Inr ((name, data) # es, cursor))))"

definition parse_payload_bundle_grouped_entries :: "bytes \<Rightarrow> nat \<Rightarrow> nat \<Rightarrow> export_error + entry list" where
  "parse_payload_bundle_grouped_entries payload cursor cnt =
     res_bind (grouped_headers payload cnt cursor 0) (\<lambda>(headers, cursor, observed).
     res_bind (grouped_data payload headers cursor) (\<lambda>(entries, cursor).
     res_bind (finish_payload_bundle_parse payload cursor observed None) (\<lambda>_. Inr entries)))"

fun assetstudio_error_message :: "(io_kind \<Rightarrow> string) \<Rightarrow> export_error \<Rightarrow> string" where
  "assetstudio_error_message io (ExAssetStudioFfi message) = message"
| "assetstudio_error_message io other = show_export_error io other"

definition parse_payload_bundle_v2 :: "bytes \<Rightarrow> export_error + entry list" where
  "parse_payload_bundle_v2 payload =
     res_bind (read_bundle_u16 payload 4) (\<lambda>(version, cursor).
     if version \<noteq> V2_VERSION
     then Inl (ExAssetStudioFfi (''native payload bundle has unsupported version '' @ show_nat version))
     else res_bind (read_bundle_u16 payload cursor) (\<lambda>(header_len, cursor).
     if header_len < V2_HEADER_LEN \<or> header_len > length payload
     then Inl (ExAssetStudioFfi (''native payload bundle has invalid header length '' @ show_nat header_len))
     else res_bind (read_bundle_u32 payload cursor) (\<lambda>(cnt, cursor).
     res_bind (read_bundle_u64 payload cursor) (\<lambda>(expected, cursor).
     parse_payload_bundle_interleaved_entries payload header_len cnt (Some expected)))))"

definition has_v2_magic :: "bytes \<Rightarrow> bool" where
  "has_v2_magic payload \<longleftrightarrow> 4 \<le> length payload \<and> from_le_bytes (subslice 0 4 payload) = V2_MAGIC"

definition parse_payload_bundle_borrowed :: "(io_kind \<Rightarrow> string) \<Rightarrow> bytes \<Rightarrow> export_error + entry list" where
  "parse_payload_bundle_borrowed io payload =
     (if has_v2_magic payload then parse_payload_bundle_v2 payload
      else if starts_with V1_MAGIC payload then
        res_bind (read_bundle_u32 payload (length V1_MAGIC)) (\<lambda>(cnt, cursor).
        case parse_payload_bundle_grouped_entries payload cursor cnt of
          Inr entries \<Rightarrow> Inr entries
        | Inl grouped_error \<Rightarrow>
            (case parse_payload_bundle_interleaved_entries payload cursor cnt None of
               Inr entries \<Rightarrow> Inr entries
             | Inl interleaved_error \<Rightarrow>
                 Inl (ExAssetStudioFfi (assetstudio_error_message io interleaved_error @
                   ''; legacy grouped parse also failed: '' @ assetstudio_error_message io grouped_error))))
      else Inl (ExAssetStudioFfi ''native payload bundle has invalid magic''))"

section \<open>What a bundle of version 2 is\<close>

definition entry_bytes :: "entry \<Rightarrow> bytes" where
  "entry_bytes e = to_le_bytes 4 (length (fst e)) @ to_le_bytes 8 (length (snd e)) @ as_bytes (fst e) @ snd e"

definition entry_ok :: "entry \<Rightarrow> bool" where
  "entry_ok e \<longleftrightarrow> utf8_ok (fst e) \<and> length (fst e) \<le> u32_max \<and> length (snd e) \<le> u64_max"

text \<open>A header of twenty bytes and an extension that readers of this version skip, then the entries.\<close>

definition v2_bundle :: "bytes \<Rightarrow> entry list \<Rightarrow> bytes" where
  "v2_bundle ext es =
     to_le_bytes 4 V2_MAGIC @ to_le_bytes 2 V2_VERSION @ to_le_bytes 2 (V2_HEADER_LEN + length ext) @
     to_le_bytes 4 (length es) @ to_le_bytes 8 (payload_data_bytes es) @ ext @ concat (map entry_bytes es)"

definition v2_bundle_ok :: "bytes \<Rightarrow> entry list \<Rightarrow> bool" where
  "v2_bundle_ok ext es \<longleftrightarrow> V2_HEADER_LEN + length ext < 65536 \<and> length es \<le> u32_max \<and> list_all entry_ok es"

section \<open>The parser reads exactly the bundles\<close>

lemma u_max_powers: "n \<le> u32_max \<longleftrightarrow> n < 256 ^ 4" "n \<le> u64_max \<longleftrightarrow> n < 256 ^ 8" "usize_max = u64_max"
  by (auto simp: u32_max_def u64_max_def usize_max_def)

lemma drop_eq_append:
  "c \<le> length p \<Longrightarrow> (\<exists>rest. drop c p = ys @ rest) \<longleftrightarrow>
     c + length ys \<le> length p \<and> drop c p = ys @ drop (c + length ys) p"
proof (intro iffI; elim exE conjE)
  fix rest assume c: "c \<le> length p" and d: "drop c p = ys @ rest"
  then have "length p - c = length ys + length rest" by (metis length_append length_drop)
  moreover have "drop (c + length ys) p = rest"
    using d by (metis add.commute append_eq_conv_conj drop_drop)
  ultimately show "c + length ys \<le> length p \<and> drop c p = ys @ drop (c + length ys) p"
    using c d by simp
qed blast

lemma slice_eq_iff:
  assumes "c + n \<le> length p" and "length ys = n"
  shows "subslice c (c + n) p = ys \<longleftrightarrow> drop c p = ys @ drop (c + n) p"
proof -
  have "drop c p = subslice c (c + n) p @ drop (c + n) p" by (rule drop_slice)
  then show ?thesis by (metis append_same_eq)
qed

lemma read_bundle_uint_iff [codec_simps]:
  assumes c: "c \<le> length p"
  shows "read_bundle_uint k m p c = Inr (v, c') \<longleftrightarrow>
    c' = c + k \<and> c' \<le> length p \<and> v < 256 ^ k \<and> drop c p = to_le_bytes k v @ drop c' p"
proof (cases "length p - c < k")
  case True
  with c show ?thesis by (auto simp: read_bundle_uint_def)
next
  case False
  with c have ck: "c + k \<le> length p" by simp
  have "from_le_bytes (subslice c (c + k) p) = v \<longleftrightarrow>
      subslice c (c + k) p = to_le_bytes k v \<and> v < 256 ^ k"
    by (rule from_le_bytes_iff) (simp add: length_slice ck)
  with False ck show ?thesis
    by (auto simp: read_bundle_uint_def slice_eq_iff)
qed

lemmas read_bundle_u16_iff [codec_simps] =
  read_bundle_uint_iff [of _ _ 2 "''native payload bundle has truncated u16''", folded read_bundle_u16_def]
lemmas read_bundle_u32_iff [codec_simps] =
  read_bundle_uint_iff [of _ _ 4 "''native payload bundle has truncated u32''", folded read_bundle_u32_def]
lemmas read_bundle_u64_iff [codec_simps] =
  read_bundle_uint_iff [of _ _ 8 "''native payload bundle has truncated u64''", folded read_bundle_u64_def]

lemma read_entry_name_iff [codec_simps]:
  assumes c: "c \<le> length p"
  shows "read_entry_name p c n = Inr (name, c') \<longleftrightarrow>
    c' = c + n \<and> c' \<le> length p \<and> length name = n \<and> utf8_ok name \<and> drop c p = as_bytes name @ drop c' p"
proof (cases "length p - c < n")
  case True
  with c show ?thesis by (auto simp: read_entry_name_def)
next
  case False
  with c have cn: "c + n \<le> length p" by simp
  have "name = text_of (subslice c (c + n) p) \<longleftrightarrow> length name = n \<and> subslice c (c + n) p = as_bytes name"
    using length_slice [OF cn] by (metis as_bytes_text_of length_as_bytes text_of_as_bytes)
  moreover have "read_entry_name p c n = Inr (name, c') \<longleftrightarrow>
      from_utf8 (subslice c (c + n) p) = Inr name \<and> c' = c + n"
    using False by (auto simp: read_entry_name_def split: sum.splits)
  moreover have "length name = n \<Longrightarrow>
      subslice c (c + n) p = as_bytes name \<longleftrightarrow> drop c p = as_bytes name @ drop (c + n) p"
    by (rule slice_eq_iff [OF cn]) simp
  ultimately show ?thesis using cn by (auto simp: from_utf8_Inr)
qed

lemma read_entry_data_iff [codec_simps]:
  assumes c: "c \<le> length p"
  shows "read_entry_data p c n = Inr (d, c') \<longleftrightarrow>
    c' = c + n \<and> c' \<le> length p \<and> length d = n \<and> drop c p = d @ drop c' p"
proof (cases "length p - c < n")
  case True
  with c show ?thesis by (auto simp: read_entry_data_def)
next
  case False
  with c have cn: "c + n \<le> length p" by simp
  have "subslice c (c + n) p = d \<longleftrightarrow> length d = n \<and> drop c p = d @ drop (c + n) p"
    using length_slice [OF cn] slice_eq_iff [OF cn] by blast
  with False cn show ?thesis
    by (auto simp: read_entry_data_def)
qed

lemma data_len_usize_iff [codec_simps]: "data_len_usize n = Inr m \<longleftrightarrow> m = n \<and> n \<le> u64_max"
  by (auto simp: data_len_usize_def u_max_powers(3))

lemma length_entry_bytes: "length (entry_bytes e) = 12 + length (fst e) + length (snd e)"
  by (simp add: entry_bytes_def)

lemma interleaved_entry_iff [codec_simps]:
  assumes c: "c \<le> length p"
  shows "interleaved_entry p c = Inr (e, c') \<longleftrightarrow>
    entry_ok e \<and> c' = c + length (entry_bytes e) \<and> c' \<le> length p \<and> drop c p = entry_bytes e @ drop c' p"
    (is "?L \<longleftrightarrow> ?R")
proof
  assume ?L
  then obtain nl c1 dl c2 c3 where
    r: "read_bundle_u32 p c = Inr (nl, c1)" "read_bundle_u64 p c1 = Inr (dl, c2)" "dl \<le> u64_max"
      "read_entry_name p c2 nl = Inr (fst e, c3)" "read_entry_data p c3 dl = Inr (snd e, c')"
    by (auto simp: interleaved_entry_def res_bind_eq_Inr data_len_usize_iff)
  have 1: "c1 = c + 4" "c1 \<le> length p" "nl < 256 ^ 4" "drop c p = to_le_bytes 4 nl @ drop c1 p"
    using r(1) by (auto simp: read_bundle_u32_iff [OF c])
  have 2: "c2 = c1 + 8" "c2 \<le> length p" "drop c1 p = to_le_bytes 8 dl @ drop c2 p"
    using r(2) by (auto simp: read_bundle_u64_iff [OF 1(2)])
  have 3: "c3 = c2 + nl" "c3 \<le> length p" "length (fst e) = nl" "utf8_ok (fst e)"
      "drop c2 p = as_bytes (fst e) @ drop c3 p"
    using r(4) by (auto simp: read_entry_name_iff [OF 2(2)])
  have 4: "c' = c3 + dl" "c' \<le> length p" "length (snd e) = dl" "drop c3 p = snd e @ drop c' p"
    using r(5) by (auto simp: read_entry_data_iff [OF 3(2)])
  from 1 2 3 4 r(3) show ?R
    by (simp add: entry_ok_def length_entry_bytes entry_bytes_def u_max_powers(1))
next
  assume R: ?R
  let ?n = "length (fst e)" and ?d = "length (snd e)"
  have le: "c + 4 \<le> length p" "c + 4 + 8 \<le> length p" "c + 4 + 8 + ?n \<le> length p"
      "c + 4 + 8 + ?n + ?d \<le> length p"
    using R by (auto simp: length_entry_bytes)
  have d: "drop c p = to_le_bytes 4 ?n @ to_le_bytes 8 ?d @ as_bytes (fst e) @ snd e @ drop c' p"
    using R by (simp add: entry_bytes_def)
  have d1: "drop (c + 4) p = to_le_bytes 8 ?d @ as_bytes (fst e) @ snd e @ drop c' p"
    using arg_cong [OF d, of "drop 4"] by (simp add: add.commute)
  have d2: "drop (c + 4 + 8) p = as_bytes (fst e) @ snd e @ drop c' p"
    using arg_cong [OF d1, of "drop 8"] by (simp add: add.commute)
  have d3: "drop (c + 4 + 8 + ?n) p = snd e @ drop c' p"
    using arg_cong [OF d2, of "drop ?n"] by (simp add: add.commute)
  have c': "c' = c + 4 + 8 + ?n + ?d" using R by (simp add: length_entry_bytes)
  have ok: "utf8_ok (fst e)" "?n < 256 ^ 4" "?d < 256 ^ 8" "?d \<le> u64_max"
    using R by (auto simp: entry_ok_def u_max_powers)
  have "read_bundle_u32 p c = Inr (?n, c + 4)"
    unfolding read_bundle_u32_iff [OF c] using le d d1 ok by simp
  moreover have "read_bundle_u64 p (c + 4) = Inr (?d, c + 4 + 8)"
    unfolding read_bundle_u64_iff [OF le(1)] using le d1 d2 ok by simp
  moreover have "data_len_usize ?d = Inr ?d" using ok by (simp add: data_len_usize_iff)
  moreover have "read_entry_name p (c + 4 + 8) ?n = Inr (fst e, c + 4 + 8 + ?n)"
    unfolding read_entry_name_iff [OF le(2)] using le d2 d3 ok by simp
  moreover have "read_entry_data p (c + 4 + 8 + ?n) ?d = Inr (snd e, c')"
    unfolding read_entry_data_iff [OF le(3)] using le d3 c' by simp
  ultimately show ?L by (simp add: interleaved_entry_def)
qed

definition entries_bytes :: "entry list \<Rightarrow> bytes" where
  "entries_bytes es = concat (map entry_bytes es)"

definition observed_after :: "nat \<Rightarrow> entry list \<Rightarrow> nat" where
  "observed_after o0 es = foldl (\<lambda>n e. sat_add_u64 n (length (snd e))) o0 es"

lemma interleaved_loop_iff:
  "c \<le> length p \<Longrightarrow> interleaved_loop p n c o0 = Inr (es, c', o1) \<longleftrightarrow>
     length es = n \<and> list_all entry_ok es \<and> c' = c + length (entries_bytes es) \<and> c' \<le> length p \<and>
     drop c p = entries_bytes es @ drop c' p \<and> o1 = observed_after o0 es"
proof (induction n arbitrary: c o0 es)
  case 0
  then show ?case by (auto simp: entries_bytes_def observed_after_def)
next
  case (Suc n)
  show ?case (is "?L \<longleftrightarrow> ?R")
  proof
    assume ?L
    then obtain e c1 es1 where e: "interleaved_entry p c = Inr (e, c1)" and es: "es = e # es1"
      and l: "interleaved_loop p n c1 (sat_add_u64 o0 (length (snd e))) = Inr (es1, c', o1)"
      by (auto simp: res_bind_eq_Inr)
    from e have 1: "entry_ok e" "c1 = c + length (entry_bytes e)" "c1 \<le> length p"
        "drop c p = entry_bytes e @ drop c1 p"
      by (auto simp: interleaved_entry_iff [OF Suc.prems])
    from l 1 es show ?R
      unfolding Suc.IH [OF 1(3)] by (simp add: entries_bytes_def observed_after_def)
  next
    assume R: ?R
    then obtain e es1 where es: "es = e # es1" by (cases es) auto
    define c1 where "c1 = c + length (entry_bytes e)"
    have le: "c1 \<le> length p" using R es by (simp add: entries_bytes_def c1_def)
    have d: "drop c p = entry_bytes e @ entries_bytes es1 @ drop c' p" using R es by (simp add: entries_bytes_def)
    have d1: "drop c1 p = entries_bytes es1 @ drop c' p"
      using arg_cong [OF d, of "drop (length (entry_bytes e))"] by (simp add: c1_def add.commute)
    have "interleaved_entry p c = Inr (e, c1)"
      unfolding interleaved_entry_iff [OF Suc.prems] using R es le d d1 by (simp add: c1_def)
    moreover have "interleaved_loop p n c1 (sat_add_u64 o0 (length (snd e))) = Inr (es1, c', o1)"
      unfolding Suc.IH [OF le] using R es d1 by (simp add: entries_bytes_def observed_after_def c1_def)
    ultimately show ?L by (simp add: es)
  qed
qed

lemma payload_data_bytes_simps [simp]:
  "payload_data_bytes [] = 0" "payload_data_bytes (e # es) = length (snd e) + payload_data_bytes es"
  by (auto simp: payload_data_bytes_def split: prod.splits)

lemma observed_after_sum:
  "o0 + payload_data_bytes es \<le> u64_max \<Longrightarrow> observed_after o0 es = o0 + payload_data_bytes es"
  by (induction es arbitrary: o0) (auto simp: observed_after_def sat_add_u64_def)

lemma data_bytes_le_entries: "payload_data_bytes es \<le> length (entries_bytes es)"
  by (induction es) (auto simp: entries_bytes_def length_entry_bytes)

lemma parse_interleaved_iff:
  assumes c: "c \<le> length p" and len: "length p \<le> usize_max"
  shows "parse_payload_bundle_interleaved_entries p c n expected = Inr es \<longleftrightarrow>
    length es = n \<and> list_all entry_ok es \<and> drop c p = entries_bytes es \<and>
    (\<forall>x. expected = Some x \<longrightarrow> x = payload_data_bytes es)"
proof -
  have fin: "finish_payload_bundle_parse p c' o1 expected = Inr u \<longleftrightarrow>
      c' = length p \<and> (\<forall>x. expected = Some x \<longrightarrow> x = o1)" for c' o1 and u :: unit
    by (auto simp: finish_payload_bundle_parse_def split: option.splits)
  have sum: "observed_after 0 es = payload_data_bytes es" if "drop c p = entries_bytes es"
  proof -
    have "length (entries_bytes es) \<le> length p" by (simp add: that [symmetric])
    then show ?thesis
      using data_bytes_le_entries [of es] len observed_after_sum [of 0 es] by (simp add: u_max_powers(3))
  qed
  have size: "length p = c + length (entries_bytes es)" if "drop c p = entries_bytes es"
    using c arg_cong [OF that, of length] by simp
  have "parse_payload_bundle_interleaved_entries p c n expected = Inr es \<longleftrightarrow>
      (\<exists>o1. interleaved_loop p n c 0 = Inr (es, length p, o1) \<and> (\<forall>x. expected = Some x \<longrightarrow> x = o1))"
    by (auto simp: parse_payload_bundle_interleaved_entries_def res_bind_eq_Inr fin)
  also have "\<dots> \<longleftrightarrow> length es = n \<and> list_all entry_ok es \<and> length p = c + length (entries_bytes es) \<and>
      drop c p = entries_bytes es \<and> (\<forall>x. expected = Some x \<longrightarrow> x = observed_after 0 es)"
    by (simp add: interleaved_loop_iff [OF c])
  also have "\<dots> \<longleftrightarrow> length es = n \<and> list_all entry_ok es \<and> drop c p = entries_bytes es \<and>
      (\<forall>x. expected = Some x \<longrightarrow> x = payload_data_bytes es)"
    using sum size by metis
  finally show ?thesis .
qed

definition v2_header :: "nat \<Rightarrow> nat \<Rightarrow> nat \<Rightarrow> bytes" where
  "v2_header header_len n total_bytes =
     to_le_bytes 4 V2_MAGIC @ to_le_bytes 2 V2_VERSION @ to_le_bytes 2 header_len @ to_le_bytes 4 n @
     to_le_bytes 8 total_bytes"

lemma length_v2_header [simp]: "length (v2_header h n t) = 20"
  by (simp add: v2_header_def)

lemma V2_MAGIC_bound: "V2_MAGIC < 256 ^ 4"
  by (simp add: V2_MAGIC_def)

lemma has_v2_magic_iff: "has_v2_magic p \<longleftrightarrow> (\<exists>rest. p = to_le_bytes 4 V2_MAGIC @ rest)"
proof
  assume m: "has_v2_magic p"
  then have "length (subslice 0 4 p) = 4" by (simp add: has_v2_magic_def subslice_def)
  moreover have "from_le_bytes (subslice 0 4 p) = V2_MAGIC" using m by (simp add: has_v2_magic_def)
  ultimately have "subslice 0 4 p = to_le_bytes 4 V2_MAGIC" using to_from_le_bytes by metis
  then have "p = to_le_bytes 4 V2_MAGIC @ drop 4 p" by (metis drop0 drop_slice plus_nat.add_0)
  then show "\<exists>rest. p = to_le_bytes 4 V2_MAGIC @ rest" by blast
next
  assume "\<exists>rest. p = to_le_bytes 4 V2_MAGIC @ rest"
  then show "has_v2_magic p" using V2_MAGIC_bound by (auto simp: has_v2_magic_def subslice_def)
qed

lemma drop_of_append: "drop c p = ys @ zs \<Longrightarrow> drop (c + length ys) p = zs"
  by (metis add.commute append_eq_conv_conj drop_drop)

lemma parse_v2_steps:
  assumes len: "length p \<le> usize_max" and magic: "p = to_le_bytes 4 V2_MAGIC @ rest"
  shows "parse_payload_bundle_v2 p = Inr es \<longleftrightarrow>
    (\<exists>h n t ext. p = v2_header h n t @ ext \<and> h < 65536 \<and> n \<le> u32_max \<and> t \<le> u64_max \<and>
       20 \<le> h \<and> h \<le> length p \<and> parse_payload_bundle_interleaved_entries p h n (Some t) = Inr es)"
    (is "?L \<longleftrightarrow> ?R")
proof
  assume ?L
  then obtain c1 h c2 n c3 t c4 where
    r: "read_bundle_u16 p 4 = Inr (2, c1)" "read_bundle_u16 p c1 = Inr (h, c2)" "20 \<le> h" "h \<le> length p"
      "read_bundle_u32 p c2 = Inr (n, c3)" "read_bundle_u64 p c3 = Inr (t, c4)"
      "parse_payload_bundle_interleaved_entries p h n (Some t) = Inr es"
    by (auto simp: parse_payload_bundle_v2_def res_bind_eq_Inr V2_VERSION_def V2_HEADER_LEN_def split: if_splits)
  have c0: "4 \<le> length p" using magic by simp
  have 1: "c1 = 4 + 2" "c1 \<le> length p" "drop 4 p = to_le_bytes 2 2 @ drop c1 p"
    using r(1) by (auto simp: read_bundle_u16_iff [OF c0])
  have 2: "c2 = c1 + 2" "c2 \<le> length p" "h < 256 ^ 2" "drop c1 p = to_le_bytes 2 h @ drop c2 p"
    using r(2) by (auto simp: read_bundle_u16_iff [OF 1(2)])
  have 3: "c3 = c2 + 4" "c3 \<le> length p" "n < 256 ^ 4" "drop c2 p = to_le_bytes 4 n @ drop c3 p"
    using r(5) by (auto simp: read_bundle_u32_iff [OF 2(2)])
  have 4: "t < 256 ^ 8" "drop c3 p = to_le_bytes 8 t @ drop c4 p"
    using r(6) by (auto simp: read_bundle_u64_iff [OF 3(2)])
  have "rest = drop 4 p" using magic by simp
  then have "p = v2_header h n t @ drop c4 p"
    using magic 1 2 3 4 by (simp add: v2_header_def V2_VERSION_def)
  with r 2 3 4 show ?R by (intro exI [of _ h] exI [of _ n] exI [of _ t] exI [of _ "drop c4 p"])
      (simp add: u_max_powers)
next
  assume ?R
  then obtain h n t ext where R: "p = v2_header h n t @ ext" "h < 65536" "n \<le> u32_max" "t \<le> u64_max"
    "20 \<le> h" "h \<le> length p" "parse_payload_bundle_interleaved_entries p h n (Some t) = Inr es"
    by blast
  have d: "p = to_le_bytes 4 V2_MAGIC @ to_le_bytes 2 2 @ to_le_bytes 2 h @ to_le_bytes 4 n @ to_le_bytes 8 t @ ext"
    using R(1) by (simp add: v2_header_def V2_VERSION_def)
  have le: "4 \<le> length p" "6 \<le> length p" "8 \<le> length p" "12 \<le> length p" "20 \<le> length p"
    using R(1) by (simp_all add: v2_header_def)
  have d4: "drop 4 p = to_le_bytes 2 2 @ to_le_bytes 2 h @ to_le_bytes 4 n @ to_le_bytes 8 t @ ext"
    using arg_cong [OF d, of "drop 4"] by simp
  have d6: "drop 6 p = to_le_bytes 2 h @ to_le_bytes 4 n @ to_le_bytes 8 t @ ext"
    using drop_of_append [OF d4] by simp
  have d8: "drop 8 p = to_le_bytes 4 n @ to_le_bytes 8 t @ ext" using drop_of_append [OF d6] by simp
  have d12: "drop 12 p = to_le_bytes 8 t @ ext" using drop_of_append [OF d8] by simp
  have d20: "drop 20 p = ext" using drop_of_append [OF d12] by simp
  have "read_bundle_u16 p 4 = Inr (2, 6)" unfolding read_bundle_u16_iff [OF le(1)] using le d4 d6 by simp
  moreover have "read_bundle_u16 p 6 = Inr (h, 8)"
    unfolding read_bundle_u16_iff [OF le(2)] using le d6 d8 R(2) by simp
  moreover have "read_bundle_u32 p 8 = Inr (n, 12)"
    unfolding read_bundle_u32_iff [OF le(3)] using le d8 d12 R(3) by (simp add: u_max_powers)
  moreover have "read_bundle_u64 p 12 = Inr (t, 20)"
    unfolding read_bundle_u64_iff [OF le(4)] using le d12 d20 R(4) by (simp add: u_max_powers)
  ultimately show ?L
    using R by (simp add: parse_payload_bundle_v2_def V2_VERSION_def V2_HEADER_LEN_def)
qed

lemma v2_bundle_header:
  "v2_bundle ext es = v2_header (20 + length ext) (length es) (payload_data_bytes es) @ ext @ entries_bytes es"
  by (simp add: v2_bundle_def v2_header_def V2_HEADER_LEN_def entries_bytes_def)

lemma parse_v2_bundle_iff:
  assumes len: "length p \<le> usize_max" and magic: "has_v2_magic p"
  shows "parse_payload_bundle_borrowed io p = Inr es \<longleftrightarrow> (\<exists>ext. v2_bundle_ok ext es \<and> p = v2_bundle ext es)"
    (is "?L \<longleftrightarrow> ?R")
proof -
  obtain rest where rest: "p = to_le_bytes 4 V2_MAGIC @ rest" using magic by (auto simp: has_v2_magic_iff)
  have entries: "h \<le> length p \<Longrightarrow> parse_payload_bundle_interleaved_entries p h n (Some t) = Inr es \<longleftrightarrow>
      length es = n \<and> list_all entry_ok es \<and> drop h p = entries_bytes es \<and> t = payload_data_bytes es" for h n t
    using parse_interleaved_iff [OF _ len, of h n "Some t" es] by simp
  have "?L \<longleftrightarrow> parse_payload_bundle_v2 p = Inr es"
    using magic by (simp add: parse_payload_bundle_borrowed_def)
  also have "\<dots> \<longleftrightarrow> (\<exists>h n t ext. p = v2_header h n t @ ext \<and> h < 65536 \<and> n \<le> u32_max \<and> t \<le> u64_max \<and>
      20 \<le> h \<and> h \<le> length p \<and> length es = n \<and> list_all entry_ok es \<and> drop h p = entries_bytes es \<and>
      t = payload_data_bytes es)"
    unfolding parse_v2_steps [OF len rest] using entries by (intro ex_cong1) blast
  also have "\<dots> \<longleftrightarrow> ?R"
  proof (intro iffI; elim exE conjE)
    fix h n t x
    assume a: "p = v2_header h n t @ x" "h < 65536" "n \<le> u32_max" "20 \<le> h" "h \<le> length p" "length es = n"
      "list_all entry_ok es" "drop h p = entries_bytes es" "t = payload_data_bytes es"
    have "drop (h - 20) x = entries_bytes es" using a(1,4,8) by simp
    then have x: "x = take (h - 20) x @ entries_bytes es" by (metis append_take_drop_id)
    have lt: "length (take (h - 20) x) = h - 20" using a(1,5) by simp
    have "p = v2_bundle (take (h - 20) x) es"
      using a(1,4,6,9) x lt by (simp add: v2_bundle_header)
    moreover have "v2_bundle_ok (take (h - 20) x) es"
      using a lt by (simp add: v2_bundle_ok_def V2_HEADER_LEN_def)
    ultimately show ?R by blast
  next
    fix ext assume ok: "v2_bundle_ok ext es" and p: "p = v2_bundle ext es"
    have "payload_data_bytes es \<le> u64_max"
      using len data_bytes_le_entries [of es] by (simp add: p v2_bundle_header u_max_powers(3))
    with ok p show "\<exists>h n t ext. p = v2_header h n t @ ext \<and> h < 65536 \<and> n \<le> u32_max \<and> t \<le> u64_max \<and>
      20 \<le> h \<and> h \<le> length p \<and> length es = n \<and> list_all entry_ok es \<and> drop h p = entries_bytes es \<and>
      t = payload_data_bytes es"
      by (intro exI [of _ "20 + length ext"] exI [of _ "length es"] exI [of _ "payload_data_bytes es"]
          exI [of _ "ext @ entries_bytes es"])
        (simp add: v2_bundle_header v2_bundle_ok_def V2_HEADER_LEN_def)
  qed
  finally show ?thesis .
qed

text \<open>C23: a payload that carries the magic of version 2 is accepted with entries \<open>es\<close> exactly when it is the
  bundle of these entries, byte for byte: nothing is left over, every declared length is the real one, every
  name is UTF-8, and only an extension of the header is skipped.\<close>

theorem bundle_v2_parses_exactly:
  assumes "length p \<le> usize_max" and "has_v2_magic p"
  shows "parse_payload_bundle_borrowed io p = Inr es \<longleftrightarrow> (\<exists>ext. v2_bundle_ok ext es \<and> p = v2_bundle ext es)"
  using assms by (rule parse_v2_bundle_iff)

section \<open>What the writer produces\<close>

lemma write_entries_iff:
  "write_entries es = Inr b \<longleftrightarrow> (\<forall>e\<in>set es. length (fst e) \<le> u32_max) \<and> b = entries_bytes es"
  by (induction es arbitrary: b) (fastforce simp: entries_bytes_def entry_bytes_def res_bind_eq_Inr split: if_splits)+

lemma bundle_total_len_Some:
  "bundle_total_len t es = Some n \<Longrightarrow> n = t + length (entries_bytes es)"
  by (induction es arbitrary: t)
    (fastforce simp: entries_bytes_def length_entry_bytes checked_add_def bind_eq_Some_conv split: if_splits)+

lemma bundle_total_len_bound: "bundle_total_len t es = Some n \<Longrightarrow> t \<le> usize_max \<Longrightarrow> n \<le> usize_max"
  by (induction es arbitrary: t) (auto simp: checked_add_def bind_eq_Some_conv split: if_splits)

lemma bundle_total_len_ok:
  "t + length (entries_bytes es) \<le> usize_max \<Longrightarrow> bundle_total_len t es = Some (t + length (entries_bytes es))"
proof (induction es arbitrary: t)
  case (Cons e es)
  obtain name d where e: "e = (name, d)" by (cases e)
  have len: "length (entries_bytes (e # es)) = 12 + length name + length d + length (entries_bytes es)"
    by (simp add: entries_bytes_def length_entry_bytes e)
  with Cons.prems have "bundle_total_len (t + 12 + length name + length d) es =
      Some (t + length (entries_bytes (e # es)))"
    using Cons.IH [of "t + 12 + length name + length d"] by (simp add: add.assoc)
  with Cons.prems len show ?case by (simp add: e checked_add_def add.assoc add.commute)
qed (simp add: entries_bytes_def)

lemma write_bundle_ok:
  assumes "\<forall>e\<in>set es. length (fst e) \<le> u32_max" and "20 + length (entries_bytes es) \<le> usize_max"
  shows "\<exists>b. write_native_payload_bundle es = Inr b"
  using assms write_entries_iff [of es "entries_bytes es"] bundle_total_len_ok [of 20 es]
  by (auto simp: write_native_payload_bundle_def V2_HEADER_LEN_def)

lemma write_bundle_cases:
  assumes "write_native_payload_bundle es = Inr b" and "es \<noteq> []"
  shows "b = v2_bundle [] es" and "length b \<le> usize_max" and "\<forall>e\<in>set es. length (fst e) \<le> u32_max"
proof -
  from assms obtain n where n: "bundle_total_len 20 es = Some n"
    and ok: "\<forall>e\<in>set es. length (fst e) \<le> u32_max" and b: "b = v2_bundle [] es"
    by (auto simp: write_native_payload_bundle_def V2_HEADER_LEN_def res_bind_eq_Inr write_entries_iff
        v2_bundle_def entries_bytes_def split: option.splits)
  show "b = v2_bundle [] es" and "\<forall>e\<in>set es. length (fst e) \<le> u32_max" by (fact b, fact ok)
  have "n \<le> usize_max" using bundle_total_len_bound [OF n] by (simp add: usize_max_def)
  then show "length b \<le> usize_max" using bundle_total_len_Some [OF n] b by (simp add: v2_bundle_header)
qed

lemma parse_written_bundle:
  assumes w: "write_native_payload_bundle es = Inr b" and ne: "es \<noteq> []"
    and names: "\<forall>e\<in>set es. utf8_ok (fst e)" and cnt: "length es \<le> u32_max"
  shows "parse_payload_bundle_borrowed io b = Inr es"
proof -
  note b = write_bundle_cases [OF w ne]
  have "length (snd e) \<le> u64_max" if "e \<in> set es" for e
  proof -
    have "length (snd e) \<le> length (entries_bytes es)"
      using that by (induction es) (auto simp: entries_bytes_def length_entry_bytes)
    also have "\<dots> \<le> usize_max" using b(2) by (simp add: b(1) v2_bundle_header)
    finally show ?thesis by (simp add: u_max_powers(3))
  qed
  with b(3) names have "list_all entry_ok es" by (auto simp: list_all_iff entry_ok_def)
  then have "v2_bundle_ok [] es" using cnt by (simp add: v2_bundle_ok_def V2_HEADER_LEN_def)
  moreover have "has_v2_magic b" by (auto simp: has_v2_magic_iff b(1) v2_bundle_def)
  ultimately show ?thesis using parse_v2_bundle_iff [OF b(2), of io es] b(1) by blast
qed

text \<open>C8: what the bridge writes the exporter reads back: the entries of a bundle of the writer, with their
  names, bytes and order.\<close>

theorem bundle_round_trip:
  assumes "write_native_payload_bundle es = Inr b" and "es \<noteq> []"
    and "\<forall>e\<in>set es. utf8_ok (fst e)" and "length es \<le> u32_max"
  shows "parse_payload_bundle_borrowed io b = Inr es"
  using assms by (rule parse_written_bundle)

theorem bundle_v2_parses_exactly_witness:
  "has_v2_magic (v2_bundle [7] [(''12'', [1, 2]), (''34'', [])]) \<and>
   parse_payload_bundle_borrowed (\<lambda>_. []) (v2_bundle [7] [(''12'', [1, 2]), (''34'', [])]) =
     Inr [(''12'', [1, 2]), (''34'', [])]"
proof -
  let ?es = "[(''12'', [1, 2]), (''34'', [])] :: entry list"
  have m: "has_v2_magic (v2_bundle [7] ?es)" by (auto simp: has_v2_magic_iff v2_bundle_def)
  have l: "length (v2_bundle [7] ?es) \<le> usize_max"
    by (simp add: v2_bundle_header entries_bytes_def length_entry_bytes usize_max_def)
  have "v2_bundle_ok [7] ?es"
    by (simp add: v2_bundle_ok_def entry_ok_def utf8_ok_ascii V2_HEADER_LEN_def u32_max_def u64_max_def)
  then show ?thesis using bundle_v2_parses_exactly [OF l m, of "\<lambda>_. []" ?es] m by blast
qed

theorem bundle_round_trip_witness:
  "\<exists>b. write_native_payload_bundle [(''12'', [1, 2]), (''-34'', [])] = Inr b \<and>
     parse_payload_bundle_borrowed (\<lambda>_. []) b = Inr [(''12'', [1, 2]), (''-34'', [])]"
proof -
  let ?es = "[(''12'', [1, 2]), (''-34'', [])] :: entry list"
  have "bundle_total_len V2_HEADER_LEN ?es \<noteq> None"
    by (simp add: V2_HEADER_LEN_def checked_add_def usize_max_def)
  moreover have "write_entries ?es = Inr (entries_bytes ?es)"
    by (simp only: write_entries_iff) (simp add: u32_max_def)
  ultimately obtain b where w: "write_native_payload_bundle ?es = Inr b"
    by (auto simp: write_native_payload_bundle_def)
  have "\<forall>e\<in>set ?es. utf8_ok (fst e)" "length ?es \<le> u32_max"
    by (simp_all add: utf8_ok_ascii u32_max_def)
  then have "parse_payload_bundle_borrowed (\<lambda>_. []) b = Inr ?es"
    by (intro bundle_round_trip [OF w]) simp_all
  with w show ?thesis by blast
qed

text \<open>The two layouts of version 1 are not told apart by their bytes: an interleaved bundle whose first
  payload looks like a header is read in the grouped layout, with other entries than it was written with.\<close>

definition header_bytes :: "entry \<Rightarrow> bytes" where
  "header_bytes e = to_le_bytes 4 (length (fst e)) @ to_le_bytes 8 (length (snd e)) @ as_bytes (fst e)"

definition grouped_bytes :: "entry list \<Rightarrow> bytes" where
  "grouped_bytes es = concat (map header_bytes es) @ concat (map snd es)"

definition v1_bundle :: "bytes \<Rightarrow> nat \<Rightarrow> bytes" where
  "v1_bundle body n = V1_MAGIC @ to_le_bytes 4 n @ body"

lemma drop_append_le: "drop c p = ys @ zs \<Longrightarrow> c \<le> length p \<Longrightarrow> c + length ys \<le> length p"
  using drop_eq_append [of c p ys] by blast

lemma grouped_header_reads:
  assumes c: "c \<le> length p" and d: "drop c p = header_bytes e @ rest" and ok: "entry_ok e"
  shows "grouped_header p c = Inr ((fst e, length (snd e)), c + length (header_bytes e))"
proof -
  let ?n = "length (fst e)" and ?d = "length (snd e)"
  have d0: "drop c p = to_le_bytes 4 ?n @ to_le_bytes 8 ?d @ as_bytes (fst e) @ rest"
    using d by (simp add: header_bytes_def)
  have d1: "drop (c + 4) p = to_le_bytes 8 ?d @ as_bytes (fst e) @ rest" using drop_of_append [OF d0] by simp
  have d2: "drop (c + 4 + 8) p = as_bytes (fst e) @ rest" using drop_of_append [OF d1] by simp
  have d3: "drop (c + 4 + 8 + ?n) p = rest" using drop_of_append [OF d2] by simp
  have le1: "c + 4 \<le> length p" using drop_append_le [OF d0 c] by simp
  have le2: "c + 4 + 8 \<le> length p" using drop_append_le [OF d1 le1] by simp
  have le3: "c + 4 + 8 + ?n \<le> length p" using drop_append_le [OF d2 le2] by simp
  have "read_bundle_u32 p c = Inr (?n, c + 4)"
    unfolding read_bundle_u32_iff [OF c] using le1 d0 d1 ok by (simp add: entry_ok_def u_max_powers)
  moreover have "read_bundle_u64 p (c + 4) = Inr (?d, c + 4 + 8)"
    unfolding read_bundle_u64_iff [OF le1] using le2 d1 d2 ok by (simp add: entry_ok_def u_max_powers)
  moreover have "read_entry_name p (c + 4 + 8) ?n = Inr (fst e, c + 4 + 8 + ?n)"
    unfolding read_entry_name_iff [OF le2] using le3 d2 d3 ok by (simp add: entry_ok_def)
  ultimately show ?thesis by (simp add: grouped_header_def header_bytes_def)
qed

lemma grouped_headers_read:
  "c \<le> length p \<Longrightarrow> drop c p = concat (map header_bytes es) @ rest \<Longrightarrow> list_all entry_ok es \<Longrightarrow>
   \<exists>o1. grouped_headers p (length es) c o0 =
     Inr (map (\<lambda>e. (fst e, length (snd e))) es, c + length (concat (map header_bytes es)), o1)"
proof (induction es arbitrary: c o0)
  case (Cons e es)
  have d: "drop c p = header_bytes e @ concat (map header_bytes es) @ rest" using Cons.prems by simp
  have le: "c + length (header_bytes e) \<le> length p" by (rule drop_append_le [OF d Cons.prems(1)])
  obtain o1 where "grouped_headers p (length es) (c + length (header_bytes e)) (sat_add_u64 o0 (length (snd e))) =
      Inr (map (\<lambda>e. (fst e, length (snd e))) es,
        c + length (header_bytes e) + length (concat (map header_bytes es)), o1)"
    using Cons.IH [OF le drop_of_append [OF d]] Cons.prems(3) by auto
  then show ?case
    using grouped_header_reads [OF Cons.prems(1) d] Cons.prems(3) by (auto simp: add.assoc)
qed simp

lemma grouped_data_reads:
  "c \<le> length p \<Longrightarrow> drop c p = concat (map snd es) @ rest \<Longrightarrow> list_all entry_ok es \<Longrightarrow>
   grouped_data p (map (\<lambda>e. (fst e, length (snd e))) es) c = Inr (es, c + length (concat (map snd es)))"
proof (induction es arbitrary: c)
  case (Cons e es)
  have d: "drop c p = snd e @ concat (map snd es) @ rest" using Cons.prems by simp
  have le: "c + length (snd e) \<le> length p" by (rule drop_append_le [OF d Cons.prems(1)])
  have "read_entry_data p c (length (snd e)) = Inr (snd e, c + length (snd e))"
    unfolding read_entry_data_iff [OF Cons.prems(1)] using le d drop_of_append [OF d] by simp
  moreover have "data_len_usize (length (snd e)) = Inr (length (snd e))"
    using Cons.prems(3) by (simp add: data_len_usize_iff entry_ok_def)
  ultimately show ?case
    using Cons.IH [OF le drop_of_append [OF d]] Cons.prems(3) by (simp add: add.assoc)
qed simp

lemma v1_magic_not_v2: "\<not> has_v2_magic (V1_MAGIC @ rest)"
  by (simp add: has_v2_magic_def subslice_def V1_MAGIC_def as_bytes_def V2_MAGIC_def)

text \<open>A version 1 bundle in the grouped layout is read as written.\<close>

lemma v1_grouped_parses:
  assumes ok: "list_all entry_ok es" and cnt: "length es \<le> u32_max"
  shows "parse_payload_bundle_borrowed io (v1_bundle (grouped_bytes es) (length es)) = Inr es"
proof -
  define p where "p = v1_bundle (grouped_bytes es) (length es)"
  define c where "c = length V1_MAGIC + 4"
  have p: "p = V1_MAGIC @ to_le_bytes 4 (length es) @ grouped_bytes es" by (simp add: p_def v1_bundle_def)
  have le0: "length V1_MAGIC \<le> length p" and le: "c \<le> length p" by (simp_all add: p c_def)
  have dc: "drop c p = concat (map header_bytes es) @ concat (map snd es) @ []"
    by (simp add: p c_def grouped_bytes_def)
  have n: "read_bundle_u32 p (length V1_MAGIC) = Inr (length es, c)"
    unfolding read_bundle_u32_iff [OF le0] using cnt by (simp add: p c_def u_max_powers)
  obtain o1 where h: "grouped_headers p (length es) c 0 =
      Inr (map (\<lambda>e. (fst e, length (snd e))) es, c + length (concat (map header_bytes es)), o1)"
    using grouped_headers_read [OF le dc ok] by blast
  have le': "c + length (concat (map header_bytes es)) \<le> length p" by (rule drop_append_le [OF dc le])
  have "grouped_data p (map (\<lambda>e. (fst e, length (snd e))) es) (c + length (concat (map header_bytes es))) =
      Inr (es, length p)"
    using grouped_data_reads [OF le' drop_of_append [OF dc] ok] by (simp add: p c_def grouped_bytes_def)
  with h have g: "parse_payload_bundle_grouped_entries p c (length es) = Inr es"
    by (simp add: parse_payload_bundle_grouped_entries_def finish_payload_bundle_parse_def)
  have "\<not> has_v2_magic p" "starts_with V1_MAGIC p" using v1_magic_not_v2 by (simp_all add: p)
  with n g show ?thesis by (simp add: parse_payload_bundle_borrowed_def p_def [symmetric])
qed

lemma v1_layouts_ambiguous:
  "parse_payload_bundle_borrowed io
     (v1_bundle (entries_bytes [(''a'', to_le_bytes 4 0 @ to_le_bytes 8 1), (''b'', [])]) 2)
   = Inr [(''a'', to_le_bytes 4 1 @ to_le_bytes 8 0), ('''', as_bytes ''b'')]"
proof -
  let ?es = "[(''a'', to_le_bytes 4 1 @ to_le_bytes 8 0), ('''', as_bytes ''b'')] :: entry list"
  have "entries_bytes [(''a'', to_le_bytes 4 0 @ to_le_bytes 8 1), (''b'', [])] = grouped_bytes ?es"
    by (simp add: entries_bytes_def entry_bytes_def grouped_bytes_def header_bytes_def as_bytes_def)
  moreover have ok: "list_all entry_ok ?es" by (simp add: entry_ok_def utf8_ok_ascii u32_max_def u64_max_def)
  moreover have cnt: "length ?es \<le> u32_max" by (simp add: u32_max_def)
  moreover have two: "length ?es = 2" by simp
  ultimately show ?thesis using v1_grouped_parses [OF ok cnt, of io, unfolded two] by (simp only:)
qed

section \<open>Raw images\<close>

definition RGBA_IR_MAGIC :: bytes where "RGBA_IR_MAGIC = as_bytes ''HARUKI_RGBAIR_V1''"
definition RGBA_IR_HEADER_LEN :: nat where "RGBA_IR_HEADER_LEN = 36"

record native_rgba_ir =
  ir_width :: nat
  ir_height :: nat
  ir_stride :: nat
  ir_row_bytes :: nat
  ir_height_usize :: nat
  ir_pixels :: bytes

definition checked_mul :: "nat \<Rightarrow> nat \<Rightarrow> nat option" where
  "checked_mul a b = (if a * b \<le> usize_max then Some (a * b) else None)"

definition rgba_error :: "string \<Rightarrow> string \<Rightarrow> export_error" where
  "rgba_error target message =
     ExAssetStudioFfi (''native raw RGBA image payload for `'' @ target @ ''` '' @ message)"

definition read_u32_at :: "bytes \<Rightarrow> nat \<Rightarrow> nat" where
  "read_u32_at payload offset = from_le_bytes (subslice offset (offset + 4) payload)"

definition parse_native_rgba_ir_payload :: "bytes \<Rightarrow> string \<Rightarrow> export_error + native_rgba_ir" where
  "parse_native_rgba_ir_payload payload target =
     (if length payload < RGBA_IR_HEADER_LEN
      then Inl (rgba_error target (''is too short: '' @ show_nat (length payload) @ '' bytes''))
      else if \<not> starts_with RGBA_IR_MAGIC payload then Inl (rgba_error target ''has invalid magic'')
      else
        let width = read_u32_at payload 16; height = read_u32_at payload 20;
            stride = read_u32_at payload 24; pixel_format = read_u32_at payload 28 in
        if pixel_format \<noteq> 1
        then Inl (rgba_error target (''has unsupported pixel format '' @ show_nat pixel_format))
        else case checked_mul width 4 of
          None \<Rightarrow> Inl (rgba_error target (''has invalid width '' @ show_nat width))
        | Some row_bytes \<Rightarrow>
            if stride < row_bytes
            then Inl (rgba_error target
                   (''has invalid stride '' @ show_nat stride @ '' for width '' @ show_nat width))
            else case Option.bind (checked_mul stride height) (\<lambda>v. checked_add v RGBA_IR_HEADER_LEN) of
              None \<Rightarrow> Inl (rgba_error target ''is too large'')
            | Some pixel_bytes \<Rightarrow>
                if length payload < pixel_bytes
                then Inl (rgba_error target (''is truncated: expected at least '' @ show_nat pixel_bytes @
                       '', got '' @ show_nat (length payload)))
                else Inr \<lparr>ir_width = width, ir_height = height, ir_stride = stride, ir_row_bytes = row_bytes,
                       ir_height_usize = height,
                       ir_pixels = subslice RGBA_IR_HEADER_LEN pixel_bytes payload\<rparr>)"

fun copy_rows :: "bytes \<Rightarrow> nat \<Rightarrow> nat \<Rightarrow> nat list \<Rightarrow> bytes" where
  "copy_rows pixels stride row_bytes [] = []"
| "copy_rows pixels stride row_bytes (y # ys) =
     subslice (y * stride) (y * stride + row_bytes) pixels @ copy_rows pixels stride row_bytes ys"

definition native_rgba_ir_contiguous_pixels :: "native_rgba_ir \<Rightarrow> bytes" where
  "native_rgba_ir_contiguous_pixels raw =
     (if ir_stride raw = ir_row_bytes raw then take (ir_row_bytes raw * ir_height_usize raw) (ir_pixels raw)
      else copy_rows (ir_pixels raw) (ir_stride raw) (ir_row_bytes raw) [0..<ir_height_usize raw])"

lemma copy_rows_map: "copy_rows p s r ys = concat (map (\<lambda>y. subslice (y * s) (y * s + r) p) ys)"
  by (induction ys) auto

lemma take_rows: "concat (map (\<lambda>y. subslice (y * r) (y * r + r) p) [0..<h]) = take (r * h) p"
proof (induction h)
  case (Suc h)
  have "take (r * Suc h) p = take (r * h) p @ subslice (h * r) (h * r + r) p"
    using take_add [of "r * h" r p] by (simp add: subslice_def mult.commute add.commute)
  with Suc show ?case by simp
qed simp

text \<open>The shortcut for images without padding gives the pixels the row by row copy gives.\<close>

lemma contiguous_pixels_rows:
  "native_rgba_ir_contiguous_pixels raw =
     concat (map (\<lambda>y. subslice (y * ir_stride raw) (y * ir_stride raw + ir_row_bytes raw) (ir_pixels raw))
       [0..<ir_height_usize raw])"
  by (simp add: native_rgba_ir_contiguous_pixels_def copy_rows_map take_rows)

text \<open>The layout the producer writes: a header with four unused bytes at its end, then the rows, each
  padded to the stride.\<close>

definition rgba_ir_bytes :: "nat \<Rightarrow> nat \<Rightarrow> nat \<Rightarrow> bytes \<Rightarrow> (bytes \<times> bytes) list \<Rightarrow> bytes" where
  "rgba_ir_bytes width height stride unused rows =
     RGBA_IR_MAGIC @ to_le_bytes 4 width @ to_le_bytes 4 height @ to_le_bytes 4 stride @ to_le_bytes 4 1 @
     unused @ concat (map (\<lambda>(row, pad). row @ pad) rows)"

definition rgba_ir_ok :: "nat \<Rightarrow> nat \<Rightarrow> nat \<Rightarrow> bytes \<Rightarrow> (bytes \<times> bytes) list \<Rightarrow> bool" where
  "rgba_ir_ok width height stride unused rows \<longleftrightarrow>
     stride \<le> u32_max \<and> width * 4 \<le> stride \<and> height \<le> u32_max \<and> length unused = 4 \<and> length rows = height \<and>
     list_all (\<lambda>(row, pad). length row = width * 4 \<and> length row + length pad = stride) rows \<and>
     stride * height + 36 \<le> usize_max"

lemma length_RGBA_IR_MAGIC [simp]: "length RGBA_IR_MAGIC = 16"
  by (simp add: RGBA_IR_MAGIC_def)

lemma concat_rows_nth:
  "\<forall>r\<in>set rs. length r = s \<Longrightarrow> y < length rs \<Longrightarrow> w \<le> s \<Longrightarrow>
   subslice (y * s) (y * s + w) (concat rs @ ts) = take w (rs ! y)"
proof (induction rs arbitrary: y)
  case (Cons r rs)
  show ?case
  proof (cases y)
    case 0
    with Cons.prems show ?thesis by (simp add: subslice_def)
  next
    case (Suc z)
    have "subslice (y * s) (y * s + w) (concat (r # rs) @ ts) = subslice (z * s) (z * s + w) (concat rs @ ts)"
      using Cons.prems by (simp add: subslice_def Suc)
    with Suc Cons show ?thesis by simp
  qed
qed simp

lemma length_concat_rows: "\<forall>r\<in>set rs. length r = s \<Longrightarrow> length (concat rs) = s * length rs"
  by (induction rs) auto

lemma rgba_ir_fields:
  assumes p: "p = rgba_ir_bytes w h s unused rows @ extra" and "w < 256 ^ 4" "h < 256 ^ 4" "s < 256 ^ 4"
  shows "read_u32_at p 16 = w" "read_u32_at p 20 = h" "read_u32_at p 24 = s" "read_u32_at p 28 = 1"
    and "starts_with RGBA_IR_MAGIC p"
proof -
  have d0: "drop 0 p = RGBA_IR_MAGIC @ to_le_bytes 4 w @ to_le_bytes 4 h @ to_le_bytes 4 s @ to_le_bytes 4 1 @
      unused @ concat (map (\<lambda>(row, pad). row @ pad) rows) @ extra"
    by (simp add: p rgba_ir_bytes_def)
  have d16: "drop 16 p = to_le_bytes 4 w @ to_le_bytes 4 h @ to_le_bytes 4 s @ to_le_bytes 4 1 @
      unused @ concat (map (\<lambda>(row, pad). row @ pad) rows) @ extra"
    using drop_of_append [OF d0] by simp
  have d20: "drop 20 p = to_le_bytes 4 h @ to_le_bytes 4 s @ to_le_bytes 4 1 @
      unused @ concat (map (\<lambda>(row, pad). row @ pad) rows) @ extra"
    using drop_of_append [OF d16] by simp
  have d24: "drop 24 p = to_le_bytes 4 s @ to_le_bytes 4 1 @
      unused @ concat (map (\<lambda>(row, pad). row @ pad) rows) @ extra"
    using drop_of_append [OF d20] by simp
  have d28: "drop 28 p = to_le_bytes 4 1 @ unused @ concat (map (\<lambda>(row, pad). row @ pad) rows) @ extra"
    using drop_of_append [OF d24] by simp
  show "read_u32_at p 16 = w" "read_u32_at p 20 = h" "read_u32_at p 24 = s" "read_u32_at p 28 = 1"
    using slice_prefix [OF d16, of 4] slice_prefix [OF d20, of 4] slice_prefix [OF d24, of 4]
      slice_prefix [OF d28, of 4] assms(2-)
    by (simp_all add: read_u32_at_def)
  show "starts_with RGBA_IR_MAGIC p" using d0 by simp
qed

text \<open>an image written row by row with any padding is decoded to its rows without the padding, whatever
  follows the last row.\<close>

theorem rgba_image_round_trip:
  assumes ok: "rgba_ir_ok width height stride unused rows"
    and p: "p = rgba_ir_bytes width height stride unused rows @ extra"
  shows "\<exists>raw. parse_native_rgba_ir_payload p target = Inr raw \<and> ir_width raw = width \<and> ir_height raw = height \<and>
    native_rgba_ir_contiguous_pixels raw = concat (map fst rows)"
proof -
  have b: "width < 256 ^ 4" "height < 256 ^ 4" "stride < 256 ^ 4" "width * 4 \<le> stride" "length rows = height"
      "stride * height + 36 \<le> usize_max" "length unused = 4"
    using ok by (auto simp: rgba_ir_ok_def u_max_powers)
  let ?rs = "map (\<lambda>(row, pad). row @ pad) rows"
  have rs: "\<forall>r\<in>set ?rs. length r = stride" using ok by (auto simp: rgba_ir_ok_def list_all_iff)
  have body: "length (concat ?rs) = stride * height" using length_concat_rows [OF rs] b(5) by simp
  have len: "length p = 36 + stride * height + length extra" by (simp add: p rgba_ir_bytes_def b(7) body)
  have d36: "drop 36 p = concat ?rs @ extra" by (simp add: p rgba_ir_bytes_def b(7))
  have pix: "subslice 36 (stride * height + 36) p = concat ?rs" by (simp add: subslice_def d36 body)
  note f = rgba_ir_fields [OF p b(1-3)]
  have mul: "checked_mul width 4 = Some (width * 4)" "checked_mul stride height = Some (stride * height)"
    using b(4,6) b(3) by (auto simp: checked_mul_def usize_max_def)
  define raw where "raw = \<lparr>ir_width = width, ir_height = height, ir_stride = stride, ir_row_bytes = width * 4,
    ir_height_usize = height, ir_pixels = concat ?rs\<rparr>"
  have "parse_native_rgba_ir_payload p target = Inr raw"
    using b len by (simp add: parse_native_rgba_ir_payload_def f mul checked_add_def RGBA_IR_HEADER_LEN_def
        raw_def pix)
  moreover have "native_rgba_ir_contiguous_pixels raw = concat (map (\<lambda>y. take (width * 4) (?rs ! y)) [0..<height])"
  proof -
    have "subslice (y * stride) (y * stride + width * 4) (concat ?rs) = take (width * 4) (?rs ! y)"
      if "y \<in> set [0..<height]" for y
      using concat_rows_nth [OF rs, of y "width * 4" "[]"] that b(4,5) by simp
    then show ?thesis
      unfolding contiguous_pixels_rows raw_def native_rgba_ir.simps
      by (intro arg_cong [of _ _ concat] map_cong refl)
  qed
  moreover have "map (\<lambda>y. take (width * 4) (?rs ! y)) [0..<height] = map fst rows"
  proof (rule nth_equalityI)
    fix i assume "i < length (map (\<lambda>y. take (width * 4) (?rs ! y)) [0..<height])"
    then have i: "i < height" by simp
    then have "length (fst (rows ! i)) = width * 4"
      using ok b(5) by (simp add: rgba_ir_ok_def list_all_length split_beta)
    then show "map (\<lambda>y. take (width * 4) (?rs ! y)) [0..<height] ! i = map fst rows ! i"
      using i b(5) by (simp add: split_beta)
  qed (simp add: b(5))
  ultimately show ?thesis by (auto simp: raw_def)
qed

theorem rgba_image_round_trip_witness:
  "\<exists>raw. parse_native_rgba_ir_payload
      (rgba_ir_bytes 1 2 5 [0, 0, 0, 0] [([1, 2, 3, 4], [9]), ([5, 6, 7, 8], [9])] @ [7]) ''a'' = Inr raw \<and>
    native_rgba_ir_contiguous_pixels raw = [1, 2, 3, 4, 5, 6, 7, 8]"
proof -
  have "rgba_ir_ok 1 2 5 [0, 0, 0, 0] [([1, 2, 3, 4], [9]), ([5, 6, 7, 8], [9])]"
    by (simp add: rgba_ir_ok_def u32_max_def usize_max_def)
  from rgba_image_round_trip [OF this refl, of "[7]" "''a''"] show ?thesis by auto
qed

end
