(* ===== verification/Native_Abi.thy ===== *)
theory Native_Abi
  imports Ffi_Types
begin

text \<open>
  The binary interface of the native library (\<^verbatim>\<open>crates/assetstudio-ffi/src/native.rs\<close>): the C structures
  with their sizes under \<^verbatim>\<open>repr(C)\<close> on a 64-bit target, and the checks a library has to pass before it is
  used. A structure filled in by the library is a valuation of its fields.
\<close>

section \<open>Layout of C structures\<close>

datatype c_type = CInt | CLongLong | CPtr

fun c_size :: "c_type \<Rightarrow> nat" where
  "c_size CInt = 4"
| "c_size CLongLong = 8"
| "c_size CPtr = 8"

definition align_up :: "nat \<Rightarrow> nat \<Rightarrow> nat" where
  "align_up a n = (n + a - 1) div a * a"

type_synonym c_struct = "(string \<times> c_type) list"

fun field_end :: "nat \<Rightarrow> c_struct \<Rightarrow> nat" where
  "field_end off [] = off"
| "field_end off ((_, t) # fs) = field_end (align_up (c_size t) off + c_size t) fs"

definition c_align :: "c_struct \<Rightarrow> nat" where
  "c_align fs = fold (\<lambda>(_, t) a. max (c_size t) a) fs 1"

definition size_of :: "c_struct \<Rightarrow> nat" where
  "size_of fs = align_up (c_align fs) (field_end 0 fs)"

definition c_ints :: "string list \<Rightarrow> c_struct" where
  "c_ints names = map (\<lambda>n. (n, CInt)) names"

definition capabilities_response :: c_struct where
  "capabilities_response = c_ints
     [''struct_size'', ''abi_version'', ''schema_version'', ''status'', ''error_code'', ''core_api_version_major'',
      ''core_api_version_minor'', ''context_abi_version'', ''object_table_abi_version'',
      ''object_table_into_abi_version'', ''object_lookup_abi_version'', ''object_lookup_into_abi_version'',
      ''object_read_abi_version'', ''object_read_batch_abi_version'', ''object_read_batch_handle_abi_version'',
      ''object_read_batch_into_abi_version'', ''object_read_batch_by_index_abi_version'',
      ''object_read_batch_direct_into_abi_version'', ''object_read_batch_direct_retry_abi_version'',
      ''supports_typed_object_table'', ''supports_caller_provided_object_table_buffers'',
      ''supports_typed_object_lookup'', ''supports_caller_provided_object_lookup_buffers'',
      ''supports_typed_object_read'', ''supports_typed_object_read_batch'', ''supports_result_handle'',
      ''supports_direct_object_read_retry'', ''supports_typed_context'', ''supports_native_dependency_resolver'',
      ''supports_abi_layout'', ''supports_multiple_contexts'', ''supports_concurrent_operations'',
      ''supports_context_lifetime_guards'', ''native_console_capture'', ''flags'', ''reserved'']"

definition abi_layout_response :: c_struct where
  "abi_layout_response = c_ints
     [''struct_size'', ''abi_version'', ''schema_version'', ''status'', ''error_code'', ''layout_version'',
      ''context_open_request'', ''context_open_response'', ''context_close_request'', ''context_close_response'',
      ''limits_response'', ''capabilities_response'', ''object_list_request'', ''object_list_into_request_v1'',
      ''object_table'', ''asset_object'', ''object_read_item_request'', ''object_read_batch_into_request_v1'',
      ''object_read_item_response_v1'', ''object_read_batch_retry_response_v1'', ''flags'', ''reserved'']"

definition limits_response :: c_struct where
  "limits_response =
     c_ints [''struct_size'', ''abi_version'', ''schema_version'', ''limits_abi_version'', ''status'', ''error_code'',
       ''max_native_utf8_bytes'', ''max_object_read_batch_count'', ''max_object_table_page_limit''] @
     [(''max_object_read_batch_payload_bytes'', CLongLong), (''max_cached_object_read_batch_payload_bytes'', CLongLong)] @
     c_ints [''max_active_contexts'', ''max_concurrent_operations'', ''supports_multiple_contexts'',
       ''supports_concurrent_operations'', ''legacy_static_engine'', ''native_console_capture'', ''flags'', ''reserved'']"

definition context_open_request_layout :: c_struct where
  "context_open_request_layout =
     [(''struct_size'', CInt), (''input_path_utf8'', CPtr), (''input_path_utf8_len'', CInt),
      (''unity_version_utf8'', CPtr), (''unity_version_utf8_len'', CInt), (''asset_types_csv_utf8'', CPtr),
      (''asset_types_csv_utf8_len'', CInt), (''output_dir_utf8'', CPtr), (''output_dir_utf8_len'', CInt),
      (''load_all_assets'', CInt), (''flags'', CInt), (''reserved'', CInt)]"

definition context_open_response_layout :: c_struct where
  "context_open_response_layout =
     c_ints [''struct_size'', ''abi_version'', ''schema_version'', ''context_abi_version'', ''status'', ''error_code''] @
     [(''context_id'', CLongLong)] @
     c_ints [''assets_file_count'', ''exportable_asset_count'', ''object_index_count'', ''has_more_assets''] @
     [(''unity_version_utf8'', CPtr), (''unity_version_utf8_len'', CInt), (''buffer'', CPtr), (''buffer_len'', CLongLong),
      (''duration_ms'', CLongLong), (''flags'', CInt), (''reserved'', CInt)]"

definition context_close_request_layout :: c_struct where
  "context_close_request_layout =
     [(''struct_size'', CInt), (''context_id'', CLongLong), (''flags'', CInt), (''reserved'', CInt)]"

definition context_close_response_layout :: c_struct where
  "context_close_response_layout =
     c_ints [''struct_size'', ''abi_version'', ''schema_version'', ''context_abi_version'', ''status'', ''error_code''] @
     [(''context_id'', CLongLong), (''duration_ms'', CLongLong), (''flags'', CInt), (''reserved'', CInt)]"

definition object_list_request_layout :: c_struct where
  "object_list_request_layout =
     [(''struct_size'', CInt), (''context_id'', CLongLong), (''offset'', CInt), (''limit'', CInt),
      (''asset_types_csv_utf8'', CPtr), (''asset_types_csv_utf8_len'', CInt), (''flags'', CInt), (''reserved'', CInt)]"

definition object_list_into_request_layout :: c_struct where
  "object_list_into_request_layout =
     object_list_request_layout @ [(''buffer'', CPtr), (''buffer_len'', CLongLong)]"

definition asset_object_layout :: c_struct where
  "asset_object_layout =
     [(''index'', CInt), (''type_id'', CInt), (''path_id'', CLongLong), (''size'', CLongLong),
      (''estimated_payload_capacity'', CLongLong), (''raw_payload_capacity'', CLongLong),
      (''image_payload_capacity'', CLongLong), (''text_payload_capacity'', CLongLong)] @
     c_ints [''payload_capacity_flags'', ''reserved'', ''name_offset'', ''name_len'', ''container_offset'',
       ''container_len'', ''type_offset'', ''type_len'', ''unique_id_offset'', ''unique_id_len'',
       ''source_file_offset'', ''source_file_len'']"

definition object_table_layout :: c_struct where
  "object_table_layout =
     c_ints [''struct_size'', ''abi_version'', ''schema_version'', ''object_table_abi_version'', ''status'', ''error_code''] @
     [(''context_id'', CLongLong)] @
     c_ints [''offset'', ''limit'', ''next_offset'', ''has_more'', ''total_count'', ''returned_count''] @
     [(''objects'', CPtr), (''string_data'', CPtr), (''string_data_len'', CInt), (''buffer'', CPtr),
      (''buffer_len'', CLongLong), (''duration_ms'', CLongLong), (''flags'', CInt), (''reserved'', CInt)]"

definition object_read_item_request_layout :: c_struct where
  "object_read_item_request_layout =
     [(''path_id'', CLongLong), (''kind_utf8'', CPtr), (''kind_utf8_len'', CInt), (''image_format_utf8'', CPtr),
      (''image_format_utf8_len'', CInt)]"

definition object_read_batch_into_request_layout :: c_struct where
  "object_read_batch_into_request_layout =
     [(''struct_size'', CInt), (''context_id'', CLongLong), (''items'', CPtr), (''count'', CInt), (''flags'', CInt),
      (''items_buffer'', CPtr), (''items_buffer_len'', CLongLong), (''payload'', CPtr), (''payload_len'', CLongLong),
      (''reserved'', CInt)]"

definition object_read_batch_retry_response_layout :: c_struct where
  "object_read_batch_retry_response_layout =
     c_ints [''struct_size'', ''abi_version'', ''schema_version'', ''object_read_batch_abi_version'',
       ''object_read_batch_into_abi_version'', ''object_read_batch_direct_retry_abi_version'', ''status'', ''error_code''] @
     [(''context_id'', CLongLong), (''requested_count'', CInt), (''returned_count'', CInt), (''failed_count'', CInt),
      (''items'', CPtr), (''string_data'', CPtr), (''string_data_len'', CInt), (''items_buffer'', CPtr),
      (''items_buffer_len'', CLongLong), (''payload'', CPtr), (''payload_len'', CLongLong),
      (''required_items_buffer_len'', CLongLong), (''required_string_data_len'', CInt),
      (''required_payload_len'', CLongLong), (''duration_ms'', CLongLong), (''result_handle'', CLongLong),
      (''ownership_flags'', CInt), (''flags'', CInt), (''reserved'', CInt)]"

definition object_read_item_response_layout :: c_struct where
  "object_read_item_response_layout =
     [(''index'', CInt), (''status'', CInt), (''error_code'', CInt), (''path_id'', CLongLong), (''type_id'', CInt),
      (''size'', CLongLong), (''payload_offset'', CLongLong), (''payload_len'', CLongLong)] @
     c_ints [''payload_kind_offset'', ''payload_kind_len'', ''suggested_extension_offset'', ''suggested_extension_len'',
       ''error_message_offset'', ''error_message_len'']"

section \<open>Checks\<close>

type_synonym c_values = "string \<Rightarrow> int"

definition check_typed_abi_version :: "string \<Rightarrow> int \<Rightarrow> int \<Rightarrow> ffi_error + unit" where
  "check_typed_abi_version name native expected =
     (if native = expected then Inr ()
      else Inl (FfiMessage (''AssetStudioFFI '' @ name @ '' version mismatch: native='' @ show_int native @
             '' rust='' @ show_int expected)))"

definition check_typed_struct_size :: "c_struct \<Rightarrow> int \<Rightarrow> string \<Rightarrow> ffi_error + unit" where
  "check_typed_struct_size t native name =
     (if 0 \<le> native \<and> nat native = size_of t then Inr ()
      else Inl (FfiMessage (''AssetStudioFFI ABI layout mismatch for '' @ name @ '': native='' @ show_int native @
             '' rust='' @ show_nat (size_of t))))"

definition call_failed :: "string \<Rightarrow> int \<Rightarrow> c_values \<Rightarrow> ffi_error" where
  "call_failed what status v =
     FfiMessage (''AssetStudioFFI '' @ what @ '' failed: status='' @ show_int status @ '' response_status='' @
       show_int (v ''status'') @ '' error_code='' @ show_int (v ''error_code''))"

definition abi_size_mismatch :: "string \<Rightarrow> c_values \<Rightarrow> c_struct \<Rightarrow> ffi_error" where
  "abi_size_mismatch what v t =
     FfiMessage (''AssetStudioFFI '' @ what @ '' struct size mismatch: native='' @ show_int (v ''struct_size'') @
       '' rust='' @ show_nat (size_of t))"

text \<open>The calls that describe the library: each returns a status and fills a structure.\<close>

record native_description =
  nd_capabilities :: "int \<times> c_values"
  nd_abi_layout :: "int \<times> c_values"
  nd_limits :: "int \<times> c_values"

definition call_typed_capabilities :: "native_description \<Rightarrow> ffi_error + c_values" where
  "call_typed_capabilities lib =
     (case nd_capabilities lib of (status, v) \<Rightarrow>
        if status \<noteq> 0 \<or> v ''status'' \<noteq> 0 then Inl (call_failed ''capabilities_v1'' status v) else Inr v)"

definition capability_versions :: "c_values \<Rightarrow> (string \<times> int \<times> int) list" where
  "capability_versions v =
     [(''capabilities_v1 abi'', v ''abi_version'', 1), (''capabilities_v1 schema'', v ''schema_version'', 1),
      (''context'', v ''context_abi_version'', 1), (''object_table'', v ''object_table_abi_version'', 1),
      (''object_table_into'', v ''object_table_into_abi_version'', 1),
      (''object_read_batch'', v ''object_read_batch_abi_version'', 1),
      (''object_read_batch_into'', v ''object_read_batch_into_abi_version'', 1),
      (''object_read_batch_direct_retry'', v ''object_read_batch_direct_retry_abi_version'', 1)]"

definition layout_versions :: "c_values \<Rightarrow> (string \<times> int \<times> int) list" where
  "layout_versions v =
     [(''abi_layout_v1 abi'', v ''abi_version'', 1), (''abi_layout_v1 schema'', v ''schema_version'', 1),
      (''abi_layout_v1 layout'', v ''layout_version'', 1)]"

definition limits_versions :: "c_values \<Rightarrow> (string \<times> int \<times> int) list" where
  "limits_versions v =
     [(''limits_v1 abi'', v ''abi_version'', 1), (''limits_v1 schema'', v ''schema_version'', 1),
      (''limits_v1 limits'', v ''limits_abi_version'', 1)]"

definition struct_checks :: "(c_struct \<times> string \<times> string) list" where
  "struct_checks =
     [(capabilities_response, ''capabilities_response'', ''haruki_assetstudio_capabilities_response''),
      (context_open_request_layout, ''context_open_request'', ''haruki_assetstudio_context_open_request''),
      (context_open_response_layout, ''context_open_response'', ''haruki_assetstudio_context_open_response''),
      (context_close_request_layout, ''context_close_request'', ''haruki_assetstudio_context_close_request''),
      (context_close_response_layout, ''context_close_response'', ''haruki_assetstudio_context_close_response''),
      (limits_response, ''limits_response'', ''haruki_assetstudio_limits_response''),
      (object_list_request_layout, ''object_list_request'', ''haruki_assetstudio_object_list_request''),
      (object_list_into_request_layout, ''object_list_into_request_v1'',
       ''haruki_assetstudio_object_list_into_request_v1''),
      (object_table_layout, ''object_table'', ''haruki_assetstudio_object_table''),
      (asset_object_layout, ''asset_object'', ''haruki_assetstudio_asset_object''),
      (object_read_item_request_layout, ''object_read_item_request'', ''haruki_assetstudio_object_read_item_request''),
      (object_read_batch_into_request_layout, ''object_read_batch_into_request_v1'',
       ''haruki_assetstudio_object_read_batch_into_request_v1''),
      (object_read_item_response_layout, ''object_read_item_response_v1'',
       ''haruki_assetstudio_object_read_item_response_v1''),
      (object_read_batch_retry_response_layout, ''object_read_batch_retry_response_v1'',
       ''haruki_assetstudio_object_read_batch_retry_response_v1'')]"

definition check_versions :: "(string \<times> int \<times> int) list \<Rightarrow> ffi_error + unit" where
  "check_versions = try_all (\<lambda>(name, native, expected). check_typed_abi_version name native expected)"

definition check_structs :: "c_values \<Rightarrow> ffi_error + unit" where
  "check_structs v = try_all (\<lambda>(t, field, name). check_typed_struct_size t (v field) name) struct_checks"

definition verify_typed_abi :: "native_description \<Rightarrow> ffi_error + unit" where
  "verify_typed_abi lib =
     res_bind (call_typed_capabilities lib) (\<lambda>cap.
     if cap ''struct_size'' \<noteq> int (size_of capabilities_response)
     then Inl (abi_size_mismatch ''capabilities_v1'' cap capabilities_response)
     else if cap ''status'' \<noteq> 0
     then Inl (FfiMessage (''AssetStudioFFI capabilities_v1 failed: status='' @ show_int (cap ''status'') @
            '' error_code='' @ show_int (cap ''error_code'')))
     else res_bind (check_versions (capability_versions cap)) (\<lambda>_.
     case nd_abi_layout lib of (status, lay) \<Rightarrow>
     if status \<noteq> 0 \<or> lay ''status'' \<noteq> 0 then Inl (call_failed ''abi_layout_v1'' status lay)
     else if lay ''struct_size'' \<noteq> int (size_of abi_layout_response)
     then Inl (abi_size_mismatch ''abi_layout_v1'' lay abi_layout_response)
     else res_bind (check_versions (layout_versions lay)) (\<lambda>_.
     res_bind (check_structs lay) (\<lambda>_.
     case nd_limits lib of (status, limv) \<Rightarrow>
     if status \<noteq> 0 \<or> limv ''status'' \<noteq> 0 then Inl (call_failed ''limits_v1'' status limv)
     else if limv ''struct_size'' \<noteq> int (size_of limits_response)
     then Inl (abi_size_mismatch ''limits_v1'' limv limits_response)
     else check_versions (limits_versions limv)))))"

text \<open>The symbols a library has to export, in the order they are looked up.\<close>

definition required_symbols :: "string list" where
  "required_symbols =
     [''haruki_assetstudio_free_string'', ''haruki_assetstudio_free_buffer'', ''haruki_assetstudio_result_free'',
      ''haruki_assetstudio_capabilities_v1'', ''haruki_assetstudio_abi_layout_v1'', ''haruki_assetstudio_limits_v1'',
      ''haruki_assetstudio_context_open_v1'', ''haruki_assetstudio_context_list_objects_size_v1'',
      ''haruki_assetstudio_context_list_objects_into_v1'', ''haruki_assetstudio_context_close_v1'',
      ''haruki_assetstudio_context_read_objects_direct_retry_v1'']"

text \<open>The loader: \<open>opened\<close> is the answer of the dynamic linker, \<open>symbol\<close> its look-up of one name.\<close>

definition load_required_symbol :: "(string \<Rightarrow> string + unit) \<Rightarrow> string \<Rightarrow> ffi_error + unit" where
  "load_required_symbol symbol name =
     (case symbol name of
        Inr _ \<Rightarrow> Inr ()
      | Inl source \<Rightarrow> Inl (FfiMessage (''missing required typed AssetStudioFFI symbol `'' @ name @ ''`: '' @ source)))"

definition load_library ::
    "string \<Rightarrow> (string + (string \<Rightarrow> string + unit)) \<Rightarrow> native_description \<Rightarrow> ffi_error + native_description" where
  "load_library path opened lib =
     (case opened of
        Inl source \<Rightarrow> Inl (FfiMessage (''failed to load native library `'' @ path @ ''`: '' @ source))
      | Inr symbol \<Rightarrow>
          res_bind (try_all (load_required_symbol symbol) required_symbols) (\<lambda>_.
          res_bind (verify_typed_abi lib) (\<lambda>_. Inr lib)))"

section \<open>What an accepted library agrees on\<close>

lemma struct_sizes:
  "size_of capabilities_response = 144" "size_of abi_layout_response = 88" "size_of limits_response = 88"
  "size_of context_open_request_layout = 80" "size_of context_open_response_layout = 96"
  "size_of context_close_request_layout = 24" "size_of context_close_response_layout = 48"
  "size_of object_list_request_layout = 48" "size_of object_list_into_request_layout = 64"
  "size_of object_table_layout = 112" "size_of asset_object_layout = 104"
  "size_of object_read_item_request_layout = 40" "size_of object_read_batch_into_request_layout = 72"
  "size_of object_read_batch_retry_response_layout = 168" "size_of object_read_item_response_layout = 80"
  by code_simp+

lemma check_typed_abi_version_ok [simp]: "check_typed_abi_version n a b = Inr u \<longleftrightarrow> a = b"
  by (cases u) (simp add: check_typed_abi_version_def)

lemma check_typed_struct_size_ok [simp]: "check_typed_struct_size t n name = Inr u \<longleftrightarrow> n = int (size_of t)"
  by (cases u) (auto simp: check_typed_struct_size_def)

text \<open>a library is loaded exactly when the linker finds it and all its symbols, the three descriptions
  succeed, every version is the one this program was built for, and it lays out every structure that crosses
  the boundary in the same number of bytes.\<close>

theorem loaded_library_agrees:
  "is_ok (load_library path opened lib) \<longleftrightarrow>
     (\<exists>symbol. opened = Inr symbol \<and> (\<forall>s\<in>set required_symbols. is_ok (symbol s))) \<and>
     (\<forall>(status, v)\<in>{nd_capabilities lib, nd_abi_layout lib, nd_limits lib}. status = 0 \<and> v ''status'' = 0) \<and>
     snd (nd_capabilities lib) ''struct_size'' = 144 \<and> snd (nd_abi_layout lib) ''struct_size'' = 88 \<and>
     snd (nd_limits lib) ''struct_size'' = 88 \<and>
     (\<forall>(_, native, expected)\<in>set (capability_versions (snd (nd_capabilities lib)) @
        layout_versions (snd (nd_abi_layout lib)) @ limits_versions (snd (nd_limits lib))). native = expected) \<and>
     (\<forall>(t, field, _)\<in>set struct_checks. snd (nd_abi_layout lib) field = int (size_of t))"
proof -
  obtain s1 cap s2 lay s3 limv where d: "nd_capabilities lib = (s1, cap)" "nd_abi_layout lib = (s2, lay)"
    "nd_limits lib = (s3, limv)" by (metis surj_pair)
  have sym: "try_all (load_required_symbol symbol) required_symbols = Inr () \<longleftrightarrow>
      (\<forall>s\<in>set required_symbols. is_ok (symbol s))" for symbol
    by (auto simp: try_all_ok load_required_symbol_def is_ok_def split: sum.split)
  have ver: "check_versions vs = Inr () \<longleftrightarrow> (\<forall>(_, native, expected)\<in>set vs. native = expected)" for vs
    by (auto simp: check_versions_def try_all_ok)
  have str: "check_structs lay = Inr () \<longleftrightarrow> (\<forall>(t, field, _)\<in>set struct_checks. lay field = int (size_of t))"
    by (auto simp: check_structs_def try_all_ok)
  have abi: "verify_typed_abi lib = Inr () \<longleftrightarrow>
      (s1 = 0 \<and> cap ''status'' = 0 \<and> s2 = 0 \<and> lay ''status'' = 0 \<and> s3 = 0 \<and> limv ''status'' = 0) \<and>
      cap ''struct_size'' = 144 \<and> lay ''struct_size'' = 88 \<and> limv ''struct_size'' = 88 \<and>
      check_versions (capability_versions cap) = Inr () \<and> check_versions (layout_versions lay) = Inr () \<and>
      check_versions (limits_versions limv) = Inr () \<and> check_structs lay = Inr ()"
    by (auto simp: verify_typed_abi_def call_typed_capabilities_def d struct_sizes res_bind_eq_Inr)
  have "is_ok (load_library path opened lib) \<longleftrightarrow>
      (\<exists>symbol. opened = Inr symbol \<and> try_all (load_required_symbol symbol) required_symbols = Inr ()) \<and>
      verify_typed_abi lib = Inr ()"
    by (auto simp: load_library_def is_ok_def res_bind_def split: sum.split)
  then show ?thesis unfolding sym abi ver str by (simp add: d ball_Un)
qed

text \<open>A library that agrees, and one that lays out the object table differently.\<close>

definition agreeing_layout :: c_values where
  "agreeing_layout f =
     (if f = ''status'' then 0
      else case map_of (map (\<lambda>(t, field, _). (field, t)) struct_checks) f of
             Some t \<Rightarrow> int (size_of t)
           | None \<Rightarrow> if f = ''struct_size'' then 88 else 1)"

definition agreeing_library :: native_description where
  "agreeing_library =
     \<lparr>nd_capabilities = (0, \<lambda>f. if f = ''status'' then 0 else if f = ''struct_size'' then 144 else 1),
      nd_abi_layout = (0, agreeing_layout),
      nd_limits = (0, \<lambda>f. if f = ''status'' then 0 else if f = ''struct_size'' then 88 else 1)\<rparr>"

theorem loaded_library_agrees_witness:
  "is_ok (load_library ''lib.so'' (Inr (\<lambda>_. Inr ())) agreeing_library) \<and>
   \<not> is_ok (load_library ''lib.so'' (Inr (\<lambda>_. Inr ()))
     (agreeing_library\<lparr>nd_abi_layout := (0, agreeing_layout(''object_table'' := 104))\<rparr>))"
proof -
  have s: "\<forall>(t, field, _)\<in>set struct_checks. agreeing_layout field = int (size_of t)" by code_simp
  have v: "\<forall>(_, native, expected)\<in>set (capability_versions (snd (nd_capabilities agreeing_library)) @
      layout_versions (snd (nd_abi_layout agreeing_library)) @ limits_versions (snd (nd_limits agreeing_library))).
      native = expected"
    by code_simp
  have "is_ok (load_library ''lib.so'' (Inr (\<lambda>_. Inr ())) agreeing_library)"
    unfolding loaded_library_agrees
    using s v by (simp add: agreeing_library_def agreeing_layout_def struct_checks_def)
  moreover have "(object_table_layout, ''object_table'', ''haruki_assetstudio_object_table'') \<in> set struct_checks"
    by (simp add: struct_checks_def)
  then have "\<not> is_ok (load_library ''lib.so'' (Inr (\<lambda>_. Inr ()))
     (agreeing_library\<lparr>nd_abi_layout := (0, agreeing_layout(''object_table'' := 104))\<rparr>))"
    unfolding loaded_library_agrees by (force simp: struct_sizes)
  ultimately show ?thesis by blast
qed

end
