(* ===== verification/Native_Ffi.thy ===== *)
theory Native_Ffi
  imports Payload_Bundle Native_Abi
begin

text \<open>
  The calls into the native library (\<^verbatim>\<open>crates/assetstudio-ffi/src/native.rs\<close>): how a request is turned into a
  C call and how the tables the library fills in are turned back into responses. The library is a record of
  functions on a state. A pointer the library hands out is the memory behind it, or \<open>None\<close> for null.
\<close>

section \<open>C values\<close>

definition as_c_int :: "nat \<Rightarrow> int" where
  "as_c_int n = (int n + 2 ^ 31) mod 2 ^ 32 - 2 ^ 31"

definition checked_c_int :: "nat \<Rightarrow> string \<Rightarrow> ffi_error + int" where
  "checked_c_int value name =
     (if value < 2 ^ 31 then Inr (int value)
      else Inl (FfiMessage (name @ '' is too large for typed AssetStudio ABI'')))"

text \<open>\<^verbatim>\<open>CString::new\<close> refuses a NUL byte and says where it is.\<close>

fun nul_position :: "string \<Rightarrow> nat option" where
  "nul_position [] = None"
| "nul_position (c # cs) = (if c = CHR 0x00 then Some 0 else map_option Suc (nul_position cs))"

definition cstring_new :: "string \<Rightarrow> string \<Rightarrow> ffi_error + string" where
  "cstring_new what s =
     (case nul_position s of
        None \<Rightarrow> Inr s
      | Some i \<Rightarrow> Inl (FfiMessage (what @ '': nul byte found in provided data at position: '' @ show_nat i)))"

definition optional_native_cstring :: "string option \<Rightarrow> ffi_error + string option" where
  "optional_native_cstring value =
     (case value of
        None \<Rightarrow> Inr None
      | Some s \<Rightarrow> res_bind (cstring_new ''native string contains nul byte'' s) (\<lambda>s. Inr (Some s)))"

definition typed_response_string :: "bytes option \<Rightarrow> int \<Rightarrow> string option" where
  "typed_response_string pointer len =
     (case pointer of
        None \<Rightarrow> None
      | Some m \<Rightarrow> if len \<le> 0 then None else Some (from_utf8_lossy (text_of (take (nat len) m))))"

text \<open>A string in a table: an offset into the string data. The length of the string data is not looked at.\<close>

definition typed_table_string :: "bytes option \<Rightarrow> int \<Rightarrow> int \<Rightarrow> string option" where
  "typed_table_string string_data offset len =
     (case string_data of
        None \<Rightarrow> None
      | Some m \<Rightarrow>
          if offset < 0 \<or> len \<le> 0 then None
          else opt_filter (\<lambda>s. s \<noteq> []) (typed_response_string (Some (drop (nat offset) m)) len))"

definition clamp :: "int \<Rightarrow> nat" where
  "clamp n = nat (max n 0)"

section \<open>The tables of the library\<close>

record typed_open_request =
  tq_input_path :: string
  tq_input_path_len :: int
  tq_unity_version :: "string option"
  tq_unity_version_len :: int
  tq_asset_types_csv :: string
  tq_asset_types_csv_len :: int
  tq_load_all_assets :: bool

record typed_open_response =
  to_status :: int
  to_error_code :: int
  to_context_id :: int
  to_assets_file_count :: int
  to_exportable_asset_count :: int
  to_object_index_count :: int
  to_has_more_assets :: int
  to_unity_version :: "bytes option"
  to_unity_version_len :: int
  to_buffer :: bool

record typed_asset_object =
  ta_index :: int
  ta_type_id :: int
  ta_path_id :: int
  ta_size :: int
  ta_name :: "int \<times> int"
  ta_container :: "int \<times> int"
  ta_type :: "int \<times> int"
  ta_unique_id :: "int \<times> int"
  ta_source_file :: "int \<times> int"

record typed_object_table =
  tt_status :: int
  tt_error_code :: int
  tt_context_id :: int
  tt_offset :: int
  tt_limit :: int
  tt_next_offset :: int
  tt_has_more :: int
  tt_total_count :: int
  tt_returned_count :: int
  tt_objects :: "typed_asset_object list option"
  tt_string_data :: "bytes option"
  tt_buffer_len :: int

record typed_read_item =
  tr_index :: int
  tr_status :: int
  tr_error_code :: int
  tr_path_id :: int
  tr_type_id :: int
  tr_size :: int
  tr_payload_offset :: int
  tr_payload_len :: int
  tr_payload_kind :: "int \<times> int"
  tr_suggested_extension :: "int \<times> int"
  tr_error_message :: "int \<times> int"

record typed_read_response =
  tb_status :: int
  tb_error_code :: int
  tb_returned_count :: int
  tb_failed_count :: int
  tb_items :: "typed_read_item list option"
  tb_string_data :: "bytes option"
  tb_payload :: "bytes option"
  tb_payload_len :: int
  tb_result_handle :: int

record 'h native_library =
  nl_context_open :: "typed_open_request \<Rightarrow> 'h \<Rightarrow> int \<times> typed_open_response \<times> 'h"
  nl_list_size :: "int \<Rightarrow> int \<Rightarrow> int \<Rightarrow> 'h \<Rightarrow> int \<times> typed_object_table \<times> 'h"
  nl_list_into :: "int \<Rightarrow> int \<Rightarrow> int \<Rightarrow> nat \<Rightarrow> 'h \<Rightarrow> int \<times> typed_object_table \<times> 'h"
  nl_context_close :: "int \<Rightarrow> 'h \<Rightarrow> int \<times> int \<times> int \<times> 'h"
  nl_read_objects :: "int \<Rightarrow> (int \<times> string \<times> string) list \<Rightarrow> 'h \<Rightarrow> int \<times> typed_read_response \<times> 'h"
  nl_free_buffer :: "'h \<Rightarrow> 'h"
  nl_result_free :: "int \<Rightarrow> 'h \<Rightarrow> 'h"

section \<open>Opening and closing a context\<close>

definition typed_failure :: "string \<Rightarrow> int \<Rightarrow> int \<Rightarrow> int \<Rightarrow> string" where
  "typed_failure what status response_status error_code =
     ''typed '' @ what @ '' failed: status='' @ show_int status @ '' response_status='' @ show_int response_status @
     '' error_code='' @ show_int error_code"

definition open_context ::
    "'h native_library \<Rightarrow> context_open_request \<Rightarrow> 'h \<Rightarrow> (ffi_error + context_open_response) \<times> 'h" where
  "open_context lib request h =
     (case res_bind (cstring_new ''native context_open input path contains nul byte'' (oq_input_path request)) (\<lambda>input_path.
           res_bind (optional_native_cstring (oq_unity_version request)) (\<lambda>unity_version.
           res_bind (cstring_new ''native context_open asset types contain nul byte''
                      (join_with '','' (oq_asset_types request))) (\<lambda>csv.
           Inr \<lparr>tq_input_path = input_path, tq_input_path_len = as_c_int (length input_path),
                tq_unity_version = unity_version,
                tq_unity_version_len = (case unity_version of None \<Rightarrow> 0 | Some s \<Rightarrow> as_c_int (length s)),
                tq_asset_types_csv = csv, tq_asset_types_csv_len = as_c_int (length csv),
                tq_load_all_assets = oq_load_all_assets request\<rparr>))) of
        Inl e \<Rightarrow> (Inl e, h)
      | Inr typed_request \<Rightarrow>
          (case nl_context_open lib typed_request h of (status, r, h) \<Rightarrow>
             let unity_version = typed_response_string (to_unity_version r) (to_unity_version_len r);
                 h = (if to_buffer r then nl_free_buffer lib h else h);
                 success = (status = 0 \<and> to_status r = 0) in
             (Inr \<lparr>os_success = success, os_context_id = to_context_id r,
                   os_assets_file_count = clamp (to_assets_file_count r),
                   os_exportable_asset_count = clamp (to_exportable_asset_count r),
                   os_unity_version = unity_version, os_assets = [],
                   os_object_index_count = clamp (to_object_index_count r),
                   os_has_more_assets = (to_has_more_assets r \<noteq> 0 \<or> to_exportable_asset_count r > 0),
                   os_error = (if success then None
                     else Some (typed_failure ''context_open_v1'' status (to_status r) (to_error_code r)))\<rparr>, h)))"

definition close_context :: "'h native_library \<Rightarrow> int \<Rightarrow> 'h \<Rightarrow> context_close_response \<times> 'h" where
  "close_context lib context_id h =
     (case nl_context_close lib context_id h of (status, response_status, error_code, h) \<Rightarrow>
        let success = (status = 0 \<and> response_status = 0) in
        (\<lparr>cs_success = success,
          cs_error = (if success then None
            else Some (typed_failure ''context_close_v1'' status response_status error_code))\<rparr>, h))"

section \<open>Listing objects\<close>

definition asset_of_object :: "bytes option \<Rightarrow> typed_asset_object \<Rightarrow> asset_info" where
  "asset_of_object strings x =
     (let str = (\<lambda>(offset, len). typed_table_string strings offset len) in
      \<lparr>ai_index = clamp (ta_index x), ai_name = str (ta_name x), ai_container = str (ta_container x),
       ai_asset_type = str (ta_type x), ai_type_id = ta_type_id x, ai_path_id = ta_path_id x,
       ai_unique_id = str (ta_unique_id x), ai_size = ta_size x, ai_source_file = str (ta_source_file x)\<rparr>)"

definition typed_list_success_response :: "typed_object_table \<Rightarrow> list_objects_response" where
  "typed_list_success_response r =
     (let objects = (case tt_objects r of
            None \<Rightarrow> []
          | Some xs \<Rightarrow> if tt_returned_count r \<le> 0 then []
                       else map (asset_of_object (tt_string_data r)) (take (nat (tt_returned_count r)) xs)) in
      \<lparr>ls_success = True, ls_context_id = tt_context_id r, ls_offset = clamp (tt_offset r), ls_limit = clamp (tt_limit r),
       ls_next_offset = (if tt_has_more r \<noteq> 0 \<and> tt_next_offset r \<ge> 0 then Some (nat (tt_next_offset r)) else None),
       ls_total_count = clamp (tt_total_count r), ls_returned_count = clamp (tt_returned_count r),
       ls_assets = objects, ls_error = None\<rparr>)"

definition typed_list_error_response :: "list_objects_request \<Rightarrow> int \<Rightarrow> typed_object_table \<Rightarrow> list_objects_response" where
  "typed_list_error_response request status r =
     \<lparr>ls_success = False, ls_context_id = lq_context_id request, ls_offset = lq_offset request,
      ls_limit = lq_limit request, ls_next_offset = None, ls_total_count = 0, ls_returned_count = 0, ls_assets = [],
      ls_error = Some (typed_failure ''context_list_objects_v1'' status (tt_status r) (tt_error_code r))\<rparr>"

definition list_context_objects ::
    "'h native_library \<Rightarrow> list_objects_request \<Rightarrow> 'h \<Rightarrow> (ffi_error + list_objects_response) \<times> 'h" where
  "list_context_objects lib request h =
     (case res_bind (checked_c_int (lq_offset request) ''context_list_objects offset'') (\<lambda>offset.
           res_bind (checked_c_int (lq_limit request) ''context_list_objects limit'') (\<lambda>limit.
           Inr (offset, limit))) of
        Inl e \<Rightarrow> (Inl e, h)
      | Inr (offset, limit) \<Rightarrow>
          (case nl_list_size lib (lq_context_id request) offset limit h of (status, sized, h) \<Rightarrow>
             if status \<noteq> 0 \<or> tt_status sized \<noteq> 0
             then (Inr (typed_list_error_response request status sized), h)
             else (case nl_list_into lib (lq_context_id request) offset limit (clamp (tt_buffer_len sized)) h of
                     (status, r, h) \<Rightarrow>
                       (Inr (if status = 0 \<and> tt_status r = 0 then typed_list_success_response r
                             else typed_list_error_response request status r), h))))"

section \<open>Reading objects\<close>

definition typed_read_string :: "typed_read_response \<Rightarrow> int \<times> int \<Rightarrow> string option" where
  "typed_read_string r = (\<lambda>(offset, len).
     case tb_string_data r of
       None \<Rightarrow> None
     | Some m \<Rightarrow> if offset < 0 \<or> len \<le> 0 then None
                  else Some (from_utf8_lossy (text_of (take (nat len) (drop (nat offset) m)))))"

text \<open>The bytes of one object; a range that does not lie in the payload is read as empty.\<close>

definition typed_read_payload :: "typed_read_response \<Rightarrow> typed_read_item \<Rightarrow> bytes" where
  "typed_read_payload r item =
     (case tb_payload r of
        None \<Rightarrow> []
      | Some m \<Rightarrow>
          if tr_payload_offset item < 0 \<or> tr_payload_len item \<le> 0 then []
          else let start = nat (tr_payload_offset item); len = nat (tr_payload_len item) in
               case checked_add start len of
                 None \<Rightarrow> []
               | Some stop \<Rightarrow> if stop > clamp (tb_payload_len r) then [] else take len (drop start m))"

definition typed_read_items :: "typed_read_response \<Rightarrow> typed_read_item list" where
  "typed_read_items r =
     (case tb_items r of
        None \<Rightarrow> [] | Some xs \<Rightarrow> if tb_returned_count r \<le> 0 then [] else take (nat (tb_returned_count r)) xs)"

definition read_item_response :: "typed_read_response \<Rightarrow> typed_read_item \<Rightarrow> object_read_response" where
  "read_item_response r item =
     \<lparr>or_success = (tr_status item = 0),
      or_asset = Some \<lparr>ai_index = clamp (tr_index item), ai_name = None, ai_container = None, ai_asset_type = None,
        ai_type_id = tr_type_id item, ai_path_id = tr_path_id item, ai_unique_id = None, ai_size = tr_size item,
        ai_source_file = None\<rparr>,
      or_payload_kind = typed_read_string r (tr_payload_kind item),
      or_payload_len = tr_payload_len item,
      or_suggested_extension = typed_read_string r (tr_suggested_extension item),
      or_error = (if tr_status item = 0 then None
        else Some (unwrap_or (''typed object read failed: path_id='' @ show_int (tr_path_id item) @ '' status='' @
               show_int (tr_status item) @ '' error_code='' @ show_int (tr_error_code item))
             (typed_read_string r (tr_error_message item))))\<rparr>"

definition add_count :: "string \<Rightarrow> nat \<Rightarrow> (string, nat) hmap \<Rightarrow> (string, nat) hmap" where
  "add_count k n m = hmap_insert k (unwrap_or 0 (map_of m k) + n) m"

fun count_kind :: "typed_read_response \<Rightarrow> typed_read_item \<Rightarrow> (string, nat) hmap \<times> (string, nat) hmap \<Rightarrow>
    (string, nat) hmap \<times> (string, nat) hmap" where
  "count_kind r item (counts, sizes) =
     (case typed_read_string r (tr_payload_kind item) of
        Some kind \<Rightarrow>
          if tr_status item = 0 then (add_count kind 1 counts, add_count kind (clamp (tr_payload_len item)) sizes)
          else (counts, sizes)
      | None \<Rightarrow> (counts, sizes))"

definition typed_read_objects_response ::
    "read_objects_request \<Rightarrow> int \<Rightarrow> typed_read_response \<Rightarrow> object_read_batch_response" where
  "typed_read_objects_response request status r =
     (let partial_success = (status = 9 \<or> tb_status r = 9);
          success = ((status = 0 \<and> tb_status r = 0) \<or> partial_success);
          items = typed_read_items r;
          kinds = fold (count_kind r) items ([], []) in
      \<lparr>br_success = success, br_reads = map (read_item_response r) items,
       br_payload_kind_counts = fst kinds, br_payload_bytes_by_kind = snd kinds,
       br_payload_len = tb_payload_len r, br_object_count = clamp (tb_returned_count r),
       br_payload_bundle_version = V2_VERSION,
       br_payload_bundle_entry_count = length (filter (\<lambda>i. tr_status i = 0 \<and> tr_payload_len i > 0) items),
       br_payload_bundle_bytes = 0,
       br_payload_data_bytes = sum_list (map (\<lambda>i. clamp (tr_payload_len i)) (filter (\<lambda>i. tr_status i = 0) items)),
       br_failed_count = clamp (tb_failed_count r),
       br_error = (if success then None
         else Some (''typed context_read_objects_direct_retry_v1 failed: requested='' @
                show_nat (length (bq_objects request)) @ '' status='' @ show_int status @ '' response_status='' @
                show_int (tb_status r) @ '' error_code='' @ show_int (tb_error_code r)))\<rparr>)"

definition bundle_items :: "typed_read_response \<Rightarrow> typed_read_item list" where
  "bundle_items r = filter (\<lambda>i. tr_status i = 0 \<and> tr_payload_len i > 0) (typed_read_items r)"

definition typed_read_objects_payload_bundle :: "typed_read_response \<Rightarrow> ffi_error + bytes" where
  "typed_read_objects_payload_bundle r =
     write_native_payload_bundle (map (\<lambda>i. (show_int (tr_path_id i), typed_read_payload r i)) (bundle_items r))"

fun read_item_strings :: "read_object_item list \<Rightarrow> ffi_error + (int \<times> string \<times> string) list" where
  "read_item_strings [] = Inr []"
| "read_item_strings (item # items) =
     res_bind (cstring_new ''native read kind contains nul byte'' (ri_kind item)) (\<lambda>kind.
     res_bind (cstring_new ''native read image format contains nul byte'' (ri_image_format item)) (\<lambda>format.
     res_bind (read_item_strings items) (\<lambda>rest. Inr ((ri_path_id item, kind, format) # rest))))"

definition read_context_objects ::
    "'h native_library \<Rightarrow> read_objects_request \<Rightarrow> 'h \<Rightarrow> (ffi_error + int \<times> object_read_batch_response \<times> bytes) \<times> 'h" where
  "read_context_objects lib request h =
     (case read_item_strings (bq_objects request) of
        Inl e \<Rightarrow> (Inl e, h)
      | Inr items \<Rightarrow>
          (case nl_read_objects lib (bq_context_id request) items h of (status, r, h) \<Rightarrow>
             let response = typed_read_objects_response request status r;
                 payload = typed_read_objects_payload_bundle r;
                 h = (if tb_result_handle r \<noteq> 0 then nl_result_free lib (tb_result_handle r) h else h) in
             (res_bind payload (\<lambda>payload.
                Inr (if br_success response then 0 else max status (tb_status r), response, payload)), h)))"

section \<open>One request\<close>

definition no_read_item :: object_read_response where
  "no_read_item = \<lparr>or_success = False, or_asset = None, or_payload_kind = None, or_payload_len = 0,
     or_suggested_extension = None, or_error = Some ''typed context_read_object returned no read item''\<rparr>"

fun call_typed_request ::
    "'h native_library \<Rightarrow> ffi_request \<Rightarrow> 'h \<Rightarrow> (ffi_error + int \<times> ffi_response \<times> bytes) \<times> 'h" where
  "call_typed_request lib (ReqContextOpen request) h =
     st_bind (open_context lib request h) (\<lambda>response h.
       (Inr (if os_success response then 0 else 100, RespContextOpen response, []), h))"
| "call_typed_request lib (ReqContextListObjects request) h =
     st_bind (list_context_objects lib request h) (\<lambda>response h.
       (Inr (if ls_success response then 0 else 100, RespContextListObjects response, []), h))"
| "call_typed_request lib (ReqContextClose context_id) h =
     (case close_context lib context_id h of (response, h) \<Rightarrow>
       (Inr (if cs_success response then 0 else 100, RespContextClose response, []), h))"
| "call_typed_request lib (ReqContextReadObject request) h =
     st_bind (read_context_objects lib
         \<lparr>bq_context_id = rq_context_id request,
          bq_objects = [\<lparr>ri_path_id = rq_path_id request, ri_kind = rq_kind request,
                         ri_image_format = rq_image_format request\<rparr>]\<rparr> h) (\<lambda>(status, batch, payload) h.
       (Inr (status, RespContextReadObject (case br_reads batch of [] \<Rightarrow> no_read_item | r # _ \<Rightarrow> r), payload), h))"
| "call_typed_request lib (ReqContextReadObjects request) h =
     st_bind (read_context_objects lib request h) (\<lambda>(status, response, payload) h.
       (Inr (status, RespContextReadObjects response, payload), h))"

section \<open>Properties\<close>


definition silent_library :: "unit native_library" where
  "silent_library =
     \<lparr>nl_context_open = (\<lambda>_ h. (0, \<lparr>to_status = 0, to_error_code = 0, to_context_id = 7, to_assets_file_count = 1,
        to_exportable_asset_count = 2, to_object_index_count = 2, to_has_more_assets = 0, to_unity_version = None,
        to_unity_version_len = 0, to_buffer = False\<rparr>, h)),
      nl_list_size = (\<lambda>_ _ _ h. (1, \<lparr>tt_status = 0, tt_error_code = 0, tt_context_id = 0, tt_offset = 0, tt_limit = 0,
        tt_next_offset = 0, tt_has_more = 0, tt_total_count = 0, tt_returned_count = 0, tt_objects = None,
        tt_string_data = None, tt_buffer_len = 0\<rparr>, h)),
      nl_list_into = (\<lambda>_ _ _ _ h. (1, \<lparr>tt_status = 0, tt_error_code = 0, tt_context_id = 0, tt_offset = 0, tt_limit = 0,
        tt_next_offset = 0, tt_has_more = 0, tt_total_count = 0, tt_returned_count = 0, tt_objects = None,
        tt_string_data = None, tt_buffer_len = 0\<rparr>, h)),
      nl_context_close = (\<lambda>_ h. (0, 0, 0, h)),
      nl_read_objects = (\<lambda>_ _ h. (0, \<lparr>tb_status = 0, tb_error_code = 0, tb_returned_count = 2, tb_failed_count = 0,
        tb_items = Some [
          \<lparr>tr_index = 0, tr_status = 0, tr_error_code = 0, tr_path_id = 12, tr_type_id = 28, tr_size = 2,
           tr_payload_offset = 0, tr_payload_len = 2, tr_payload_kind = (0, 0), tr_suggested_extension = (0, 0),
           tr_error_message = (0, 0)\<rparr>,
          \<lparr>tr_index = 1, tr_status = 0, tr_error_code = 0, tr_path_id = -5, tr_type_id = 28, tr_size = 1,
           tr_payload_offset = 2, tr_payload_len = 1, tr_payload_kind = (0, 0), tr_suggested_extension = (0, 0),
           tr_error_message = (0, 0)\<rparr>],
        tb_string_data = None, tb_payload = Some [1, 2, 3], tb_payload_len = 3, tb_result_handle = 0\<rparr>, h)),
      nl_free_buffer = id, nl_result_free = (\<lambda>_ h. h)\<rparr>"


lemma utf8_show_nat [simp]: "utf8_ok (show_nat n)"
proof (rule utf8_ok_ascii)
  have "is_digit c \<Longrightarrow> (of_char c :: nat) < 128" for c by (simp add: is_digit_def)
  then show "\<forall>c\<in>set (show_nat n). (of_char c :: nat) < 128" using show_nat_digits [of n] by (auto simp: list_all_iff)
qed

lemma utf8_ascii_Cons: "(of_char c :: nat) < 128 \<Longrightarrow> utf8_ok (c # s) = utf8_ok s"
  by (subst utf8_ok.simps) (simp add: utf8_step_ascii)

lemma utf8_show_int [simp]: "utf8_ok (show_int i)"
  by (simp add: show_int_def utf8_ascii_Cons)

definition delivered :: "typed_read_response \<Rightarrow> entry list" where
  "delivered r = map (\<lambda>i. (show_int (tr_path_id i), typed_read_payload r i)) (bundle_items r)"

lemma map_of_delivered:
  assumes "distinct (map tr_path_id (typed_read_items r))" and "i \<in> set (bundle_items r)"
  shows "map_of (delivered r) (show_int (tr_path_id i)) = Some (typed_read_payload r i)"
proof -
  have "distinct (map tr_path_id (bundle_items r))"
    using assms(1) by (simp add: bundle_items_def distinct_map_filter)
  then have "distinct (map fst (delivered r))"
    by (auto simp: delivered_def comp_def distinct_map inj_on_def)
  moreover have "(show_int (tr_path_id i), typed_read_payload r i) \<in> set (delivered r)"
    using assms(2) by (auto simp: delivered_def)
  ultimately show ?thesis by (simp add: map_of_is_SomeI)
qed



end
