(* ===== verification/Cpu_Budget.thy ===== *)
theory Cpu_Budget
  imports Task_Pool Config_Types
begin

text \<open>
  The CPU budget of the export pipeline (\<^verbatim>\<open>export_pipeline/implementation/limits.rs\<close>): the counting limiter
  whose permits heavy work holds, the use the exporter makes of it (a permit for the whole export of a bundle,
  and one for every image that is encoded when a mid-bundle flush runs), and the sum of the CPU ticks of a tree of
  processes. The percentages of the throttle are floating point numbers and are not modelled.
\<close>

section \<open>Ticks of a process tree\<close>

type_synonym proc_row = "nat \<times> nat \<times> nat"

definition row_pid :: "proc_row \<Rightarrow> nat" where "row_pid r = fst r"
definition row_ppid :: "proc_row \<Rightarrow> nat" where "row_ppid r = fst (snd r)"
definition row_ticks :: "proc_row \<Rightarrow> nat" where "row_ticks r = snd (snd r)"

definition sat_add64 :: "nat \<Rightarrow> nat \<Rightarrow> nat" where
  "sat_add64 a b = min (a + b) u64_max"

text \<open>One pass over the rows for a process: its ticks are added, its children are pushed in the order of the
  rows. The head of the list is the top of the stack.\<close>

fun visit_rows :: "nat \<Rightarrow> proc_row list \<Rightarrow> nat list \<Rightarrow> nat \<Rightarrow> nat list \<times> nat" where
  "visit_rows pid [] stack ticks = (stack, ticks)"
| "visit_rows pid (r # rows) stack ticks =
     visit_rows pid rows (if row_ppid r = pid then row_pid r # stack else stack)
       (if row_pid r = pid then sat_add64 ticks (row_ticks r) else ticks)"

lemma visit_rows_stack:
  "fst (visit_rows pid rows stack ticks) = rev (map row_pid (filter (\<lambda>r. row_ppid r = pid) rows)) @ stack"
  by (induction rows arbitrary: stack ticks) auto

function tree_ticks :: "proc_row list \<Rightarrow> nat list \<Rightarrow> nat set \<Rightarrow> nat \<Rightarrow> nat set \<times> nat" where
  "tree_ticks rows [] seen ticks = (seen, ticks)"
| "tree_ticks rows (pid # stack) seen ticks =
     (if pid \<in> seen then tree_ticks rows stack seen ticks
      else case visit_rows pid rows stack ticks of (stack, ticks) \<Rightarrow>
        tree_ticks rows stack (insert pid seen) ticks)"
  by pat_completeness auto
termination
proof (relation "measures [\<lambda>(rows, stack, seen, _). card ((set stack \<union> row_pid ` set rows) - seen),
    \<lambda>(rows, stack, seen, _). length stack]", goal_cases)
  case (2 rows pid stack seen ticks)
  have "card ((set stack \<union> row_pid ` set rows) - seen) \<le> card ((set (pid # stack) \<union> row_pid ` set rows) - seen)"
    by (rule card_mono) auto
  then show ?case by auto
next
  case (3 rows pid stack seen ticks stack' ticks')
  have "stack' = rev (map row_pid (filter (\<lambda>r. row_ppid r = pid) rows)) @ stack"
    using 3 visit_rows_stack [of pid rows stack ticks] by (metis fst_conv)
  then have "set stack' \<union> row_pid ` set rows \<subseteq> set (pid # stack) \<union> row_pid ` set rows" by auto
  then have "card ((set stack' \<union> row_pid ` set rows) - insert pid seen) <
      card ((set (pid # stack) \<union> row_pid ` set rows) - seen)"
    using 3 by (intro psubset_card_mono) auto
  then show ?case by simp
qed simp

definition sum_process_tree_cpu_ticks :: "nat \<Rightarrow> proc_row list \<Rightarrow> nat" where
  "sum_process_tree_cpu_ticks root_pid rows = snd (tree_ticks rows [root_pid] {} 0)"

definition child_of :: "proc_row list \<Rightarrow> (nat \<times> nat) set" where
  "child_of rows = {(row_ppid r, row_pid r) | r. r \<in> set rows}"

definition ticks_of :: "proc_row list \<Rightarrow> nat set \<Rightarrow> nat" where
  "ticks_of rows pids = sum_list (map row_ticks (filter (\<lambda>r. row_pid r \<in> pids) rows))"

lemma visit_rows_ticks:
  "snd (visit_rows pid rows stack (min t u64_max)) = min (t + ticks_of rows {pid}) u64_max"
proof (induction rows arbitrary: stack t)
  case (Cons r rows)
  have "sat_add64 (min t u64_max) (row_ticks r) = min (t + row_ticks r) u64_max"
    by (auto simp: sat_add64_def)
  with Cons show ?case by (simp add: ticks_of_def add.assoc)
qed (simp add: ticks_of_def)

lemma ticks_of_insert:
  "pid \<notin> seen \<Longrightarrow> ticks_of rows (insert pid seen) = ticks_of rows seen + ticks_of rows {pid}"
  by (induction rows) (auto simp: ticks_of_def)

lemma tree_ticks_sum:
  "tree_ticks rows stack seen (min (ticks_of rows seen) u64_max) = (seen', t) \<Longrightarrow>
     t = min (ticks_of rows seen') u64_max"
proof (induction rows stack seen "min (ticks_of rows seen) u64_max" rule: tree_ticks.induct)
  case (2 rows pid stack seen)
  obtain st tk where v: "visit_rows pid rows stack (min (ticks_of rows seen) u64_max) = (st, tk)" by fastforce
  have "tk = min (ticks_of rows (insert pid seen)) u64_max" if "pid \<notin> seen"
    using visit_rows_ticks [of pid rows stack "ticks_of rows seen"] v ticks_of_insert [OF that] by simp
  with 2 v show ?case by (auto split: if_splits)
qed simp

lemma reach_insert: "R\<^sup>* `` insert p S = insert p (R\<^sup>* `` (R `` {p} \<union> S))"
proof -
  have "R\<^sup>* `` {p} = insert p (R\<^sup>* `` (R `` {p}))"
    by (auto elim: converse_rtranclE intro: converse_rtrancl_into_rtrancl)
  then show ?thesis by auto
qed

text \<open>The search visits the processes reachable from the stack.\<close>

lemma tree_ticks_seen:
  "\<forall>p\<in>seen. \<forall>q. (p, q) \<in> child_of rows \<longrightarrow> q \<in> seen \<union> set stack \<Longrightarrow>
   fst (tree_ticks rows stack seen ticks) = seen \<union> (child_of rows)\<^sup>* `` set stack"
proof (induction rows stack seen ticks rule: tree_ticks.induct)
  case (1 rows seen ticks)
  then show ?case by simp
next
  case (2 rows pid stack seen ticks)
  let ?R = "child_of rows"
  obtain st tk where v: "visit_rows pid rows stack ticks = (st, tk)" by fastforce
  have st: "set st = ?R `` {pid} \<union> set stack"
    using visit_rows_stack [of pid rows stack ticks] v by (auto simp: child_of_def)
  show ?case
  proof (cases "pid \<in> seen")
    case True
    have closed: "seen \<union> ?R\<^sup>* `` set stack = seen \<union> ?R\<^sup>* `` set (pid # stack)"
    proof -
      have "q \<in> seen \<union> ?R\<^sup>* `` set stack" if "(p, q) \<in> ?R\<^sup>*" "p \<in> seen" for p q
        using that
      proof (induction rule: rtrancl_induct)
        case base
        then show ?case by simp
      next
        case (step y z)
        have "y \<in> seen \<or> y \<in> ?R\<^sup>* `` set stack" using step.IH step.prems by auto
        then show ?case
        proof
          assume "y \<in> seen"
          with "2.prems" step(2) have "z \<in> seen \<union> set (pid # stack)" by auto
          with True show ?thesis by auto
        next
          assume "y \<in> ?R\<^sup>* `` set stack"
          with step(2) show ?thesis by (auto intro: rtrancl.rtrancl_into_rtrancl)
        qed
      qed
      with True show ?thesis by auto
    qed
    from True "2.prems" have "\<forall>p\<in>seen. \<forall>q. (p, q) \<in> ?R \<longrightarrow> q \<in> seen \<union> set stack" by auto
    with "2.IH"(1) [OF True] True closed show ?thesis by simp
  next
    case False
    have inv: "\<forall>p\<in>insert pid seen. \<forall>q. (p, q) \<in> ?R \<longrightarrow> q \<in> insert pid seen \<union> set st"
      using "2.prems" st by auto
    have "?R\<^sup>* `` set (pid # stack) = insert pid (?R\<^sup>* `` set st)"
      using reach_insert [of ?R pid "set stack"] by (simp add: st)
    with "2.IH"(2) [OF False v [symmetric] inv] False v show ?thesis by auto
  qed
qed

text \<open>the CPU time of the process tree is the saturated sum of the ticks of the process and all its
  descendants, each once, even when the table of processes has cycles.\<close>

theorem process_tree_ticks_sum:
  "sum_process_tree_cpu_ticks pid rows = min (ticks_of rows ((child_of rows)\<^sup>* `` {pid})) u64_max"
proof -
  have seen: "fst (tree_ticks rows [pid] {} 0) = (child_of rows)\<^sup>* `` {pid}"
    using tree_ticks_seen [of "{}" rows "[pid]" 0] by simp
  have "min (ticks_of rows {}) u64_max = 0" by (simp add: ticks_of_def)
  with tree_ticks_sum [of rows "[pid]" "{}"] seen show ?thesis
    by (metis prod.collapse sum_process_tree_cpu_ticks_def)
qed

section \<open>The limiter\<close>

record cpu_budget_limiter =
  cl_max :: nat
  cl_active :: nat

text \<open>\<^verbatim>\<open>cpu_budget_limiter\<close>: one limiter per budget, created on first use.\<close>

definition limiter_for :: "nat \<Rightarrow> (nat, cpu_budget_limiter) hmap \<Rightarrow> cpu_budget_limiter \<times> (nat, cpu_budget_limiter) hmap" where
  "limiter_for cpu_budget limiters =
     (let n = max cpu_budget 1 in
      case map_of limiters n of
        Some l \<Rightarrow> (l, limiters)
      | None \<Rightarrow> let l = \<lparr>cl_max = n, cl_active = 0\<rparr> in (l, hmap_insert n l limiters))"

text \<open>The hard cap holds while the throttle is off; with the throttle on a permit is only a token.\<close>

definition cpu_budget_hard_cap_enabled :: "cpu_throttle_config \<Rightarrow> bool" where
  "cpu_budget_hard_cap_enabled throttle \<longleftrightarrow> \<not> th_enabled throttle"

text \<open>The end of the wait loop (\<open>None\<close> while it waits), and the drop of a permit: the flag says whether the
  permit counts.\<close>

definition acquire_permit :: "cpu_throttle_config \<Rightarrow> cpu_budget_limiter \<Rightarrow> (bool \<times> cpu_budget_limiter) option" where
  "acquire_permit throttle l =
     (if \<not> cpu_budget_hard_cap_enabled throttle then Some (False, l)
      else if cl_active l \<ge> cl_max l then None
      else Some (True, l\<lparr>cl_active := cl_active l + 1\<rparr>))"

definition drop_permit :: "bool \<Rightarrow> cpu_budget_limiter \<Rightarrow> cpu_budget_limiter" where
  "drop_permit counts l = (if counts then l\<lparr>cl_active := cl_active l - 1\<rparr> else l)"

section \<open>Exports that share the budget\<close>

text \<open>One export of a bundle: \<^verbatim>\<open>call_assetstudio_ffi_object_export_pooled\<close> takes a permit first and drops it
  when the export is over; each mid-bundle flush in between hands a number of images to tasks which take a
  permit of the same limiter, and waits for all of them.\<close>

datatype export_phase = WaitsForPermit | Exports | Finished

record budget_job =
  bj_phase :: export_phase
  bj_permit :: bool
  bj_flushes :: "nat list"
  bj_images_waiting :: nat
  bj_images_running :: "bool list"

record budget_state =
  bs_throttle :: cpu_throttle_config
  bs_limiter :: cpu_budget_limiter
  bs_jobs :: "budget_job list"

datatype budget_action = StartExport nat | Flush nat | StartImage nat | EndImage nat | EndExport nat

definition set_job :: "nat \<Rightarrow> budget_job \<Rightarrow> cpu_budget_limiter \<Rightarrow> budget_state \<Rightarrow> budget_state" where
  "set_job i j l s = s\<lparr>bs_limiter := l, bs_jobs := (bs_jobs s)[i := j]\<rparr>"

fun job_step :: "cpu_throttle_config \<Rightarrow> cpu_budget_limiter \<Rightarrow> budget_action \<Rightarrow> budget_job \<Rightarrow>
    (budget_job \<times> cpu_budget_limiter) option" where
  "job_step th l (StartExport _) j =
     (if bj_phase j = WaitsForPermit
      then map_option (\<lambda>(c, l). (j\<lparr>bj_phase := Exports, bj_permit := c\<rparr>, l)) (acquire_permit th l)
      else None)"
| "job_step th l (Flush _) j =
     (if bj_phase j = Exports \<and> bj_images_waiting j = 0 \<and> bj_images_running j = []
      then (case bj_flushes j of [] \<Rightarrow> None | n # ns \<Rightarrow> Some (j\<lparr>bj_flushes := ns, bj_images_waiting := n\<rparr>, l))
      else None)"
| "job_step th l (StartImage _) j =
     (if 0 < bj_images_waiting j
      then map_option (\<lambda>(c, l). (j\<lparr>bj_images_waiting := bj_images_waiting j - 1,
             bj_images_running := c # bj_images_running j\<rparr>, l)) (acquire_permit th l)
      else None)"
| "job_step th l (EndImage _) j =
     (case bj_images_running j of
        [] \<Rightarrow> None | c # cs \<Rightarrow> Some (j\<lparr>bj_images_running := cs\<rparr>, drop_permit c l))"
| "job_step th l (EndExport _) j =
     (if bj_phase j = Exports \<and> bj_images_waiting j = 0 \<and> bj_images_running j = [] \<and> bj_flushes j = []
      then Some (j\<lparr>bj_phase := Finished, bj_permit := False\<rparr>, drop_permit (bj_permit j) l)
      else None)"

fun action_job :: "budget_action \<Rightarrow> nat" where
  "action_job (StartExport i) = i"
| "action_job (Flush i) = i"
| "action_job (StartImage i) = i"
| "action_job (EndImage i) = i"
| "action_job (EndExport i) = i"

definition budget_step :: "budget_action \<Rightarrow> budget_state \<Rightarrow> budget_state option" where
  "budget_step a s =
     (let i = action_job a in
      if i < length (bs_jobs s)
      then map_option (\<lambda>(j, l). set_job i j l s) (job_step (bs_throttle s) (bs_limiter s) a (bs_jobs s ! i))
      else None)"

definition new_export_job :: "nat list \<Rightarrow> budget_job" where
  "new_export_job flushes = \<lparr>bj_phase = WaitsForPermit, bj_permit = False, bj_flushes = flushes, bj_images_waiting = 0,
     bj_images_running = []\<rparr>"

definition new_budget :: "cpu_throttle_config \<Rightarrow> nat \<Rightarrow> nat list list \<Rightarrow> budget_state" where
  "new_budget throttle cpu_budget bundles =
     \<lparr>bs_throttle = throttle, bs_limiter = fst (limiter_for cpu_budget []), bs_jobs = map new_export_job bundles\<rparr>"

definition budget_over :: "budget_state \<Rightarrow> bool" where
  "budget_over s \<longleftrightarrow> (\<forall>j\<in>set (bs_jobs s). bj_phase j = Finished)"

section \<open>The cap holds\<close>

definition held :: "budget_job \<Rightarrow> nat" where
  "held j = (if bj_permit j then 1 else 0) + length (filter id (bj_images_running j))"

definition job_ok :: "budget_job \<Rightarrow> bool" where
  "job_ok j \<longleftrightarrow> (bj_phase j \<noteq> Exports \<longrightarrow> \<not> bj_permit j \<and> bj_images_waiting j = 0 \<and> bj_images_running j = [])"

definition budget_inv :: "budget_state \<Rightarrow> bool" where
  "budget_inv s \<longleftrightarrow>
     cl_active (bs_limiter s) = sum_list (map held (bs_jobs s)) \<and> cl_active (bs_limiter s) \<le> cl_max (bs_limiter s) \<and>
     1 \<le> cl_max (bs_limiter s) \<and> (\<forall>j\<in>set (bs_jobs s). job_ok j)"

lemma acquire_permit_Some:
  "acquire_permit th l = Some (c, l') \<longleftrightarrow>
     c = cpu_budget_hard_cap_enabled th \<and> (c \<longrightarrow> cl_active l < cl_max l) \<and>
     l' = l\<lparr>cl_active := cl_active l + (if c then 1 else 0)\<rparr>"
  by (auto simp: acquire_permit_def)

lemma job_step_effect:
  assumes "job_step th l a j = Some (j', l')" and "job_ok j" and "held j \<le> cl_active l"
  shows "job_ok j' \<and> cl_max l' = cl_max l \<and> cl_active l' + held j = cl_active l + held j' \<and>
    (cl_active l \<le> cl_max l \<longrightarrow> cl_active l' \<le> cl_max l)"
  using assms
  by (cases a) (auto simp: acquire_permit_Some drop_permit_def held_def job_ok_def split: if_splits list.splits)

lemma sum_list_update_nat:
  "i < length xs \<Longrightarrow> sum_list (map f (xs[i := y])) + f (xs ! i) = sum_list (map f xs) + (f y :: nat)"
  by (induction xs arbitrary: i) (auto split: nat.splits)

lemma budget_step_keeps:
  assumes inv: "budget_inv s" and step: "budget_step a s = Some s'"
  shows "budget_inv s'"
proof -
  let ?i = "action_job a"
  have i: "?i < length (bs_jobs s)" using step by (auto simp: budget_step_def Let_def split: if_splits)
  then obtain j' l' where j: "job_step (bs_throttle s) (bs_limiter s) a (bs_jobs s ! ?i) = Some (j', l')"
    and s': "s' = set_job ?i j' l' s"
    using step by (auto simp: budget_step_def Let_def)
  have "held (bs_jobs s ! ?i) \<le> sum_list (map held (bs_jobs s))"
    using i by (intro member_le_sum_list) auto
  then have e: "job_ok j'" "cl_max l' = cl_max (bs_limiter s)"
      "cl_active l' + held (bs_jobs s ! ?i) = cl_active (bs_limiter s) + held j'" "cl_active l' \<le> cl_max (bs_limiter s)"
    using job_step_effect [OF j] inv i by (auto simp: budget_inv_def)
  have "sum_list (map held ((bs_jobs s)[?i := j'])) = cl_active l'"
    using sum_list_update_nat [OF i, of held j'] e(3) inv by (simp add: budget_inv_def)
  then show ?thesis
    using inv e set_update_subset_insert [of "bs_jobs s" ?i j'] by (auto simp: budget_inv_def s' set_job_def)
qed

lemma new_budget_inv: "budget_inv (new_budget th n bundles)"
proof -
  have "sum_list (map held (map new_export_job bundles)) = 0"
    by (induction bundles) (auto simp: held_def new_export_job_def)
  then show ?thesis by (auto simp: budget_inv_def new_budget_def limiter_for_def Let_def job_ok_def new_export_job_def)
qed

section \<open>When exports finish\<close>

fun phase_work :: "export_phase \<Rightarrow> nat" where
  "phase_work WaitsForPermit = 2"
| "phase_work Exports = 1"
| "phase_work Finished = 0"

definition job_work :: "budget_job \<Rightarrow> nat" where
  "job_work j = phase_work (bj_phase j) + sum_list (map (\<lambda>n. 2 * n + 1) (bj_flushes j)) + 2 * bj_images_waiting j +
     length (bj_images_running j)"

definition budget_work :: "budget_state \<Rightarrow> nat" where
  "budget_work s = sum_list (map job_work (bs_jobs s))"

definition flushless :: "budget_job \<Rightarrow> bool" where
  "flushless j \<longleftrightarrow> bj_flushes j = [] \<and> bj_images_waiting j = 0"

text \<open>The budget is spare when the cap is off, when there are fewer exports than permits, or when no export has
  a flush.\<close>

definition spare :: "budget_state \<Rightarrow> bool" where
  "spare s \<longleftrightarrow> \<not> cpu_budget_hard_cap_enabled (bs_throttle s) \<or> length (bs_jobs s) < cl_max (bs_limiter s) \<or>
     (\<forall>j\<in>set (bs_jobs s). flushless j)"

lemma job_step_work: "job_step th l a j = Some (j', l') \<Longrightarrow> job_work j' < job_work j"
  by (cases a) (auto simp: job_work_def split: if_splits list.splits)

lemma budget_step_work: "budget_step a s = Some s' \<Longrightarrow> budget_work s' < budget_work s"
proof -
  let ?i = "action_job a"
  assume step: "budget_step a s = Some s'"
  then have i: "?i < length (bs_jobs s)" by (auto simp: budget_step_def Let_def split: if_splits)
  then obtain j' l' where j: "job_step (bs_throttle s) (bs_limiter s) a (bs_jobs s ! ?i) = Some (j', l')"
    and s': "s' = set_job ?i j' l' s"
    using step by (auto simp: budget_step_def Let_def)
  show ?thesis
    using job_step_work [OF j] sum_list_update_nat [OF i, of job_work j'] by (simp add: budget_work_def s' set_job_def)
qed

lemma budget_step_spare: "spare s \<Longrightarrow> budget_inv s \<Longrightarrow> budget_step a s = Some s' \<Longrightarrow> spare s'"
proof -
  let ?i = "action_job a"
  assume sp: "spare s" and inv: "budget_inv s" and step: "budget_step a s = Some s'"
  then have i: "?i < length (bs_jobs s)" by (auto simp: budget_step_def Let_def split: if_splits)
  then obtain j' l' where j: "job_step (bs_throttle s) (bs_limiter s) a (bs_jobs s ! ?i) = Some (j', l')"
    and s': "s' = set_job ?i j' l' s"
    using step by (auto simp: budget_step_def Let_def)
  have "cl_max l' = cl_max (bs_limiter s)"
    using j by (cases a) (auto simp: acquire_permit_Some drop_permit_def split: if_splits list.splits)
  moreover have "flushless (bs_jobs s ! ?i) \<Longrightarrow> flushless j'"
    using j by (cases a) (auto simp: flushless_def split: if_splits list.splits)
  ultimately show ?thesis
    using sp i set_update_subset_insert [of "bs_jobs s" ?i j'] by (fastforce simp: spare_def s' set_job_def)
qed

lemma budget_step_enabledI:
  "i < length (bs_jobs s) \<Longrightarrow> action_job a = i \<Longrightarrow>
   job_step (bs_throttle s) (bs_limiter s) a (bs_jobs s ! i) \<noteq> None \<Longrightarrow> budget_step a s \<noteq> None"
  by (simp add: budget_step_def Let_def)

lemma permit_free:
  assumes inv: "budget_inv s" and idle: "\<forall>j\<in>set (bs_jobs s). bj_images_running j = []"
    and less: "length (filter (\<lambda>j. bj_phase j = Exports) (bs_jobs s)) < cl_max (bs_limiter s)"
  shows "acquire_permit (bs_throttle s) (bs_limiter s) \<noteq> None"
proof -
  have "sum_list (map held js) \<le> length (filter (\<lambda>j. bj_phase j = Exports) js)"
    if "\<forall>j\<in>set js. job_ok j \<and> bj_images_running j = []" for js
    using that by (induction js) (auto simp: held_def job_ok_def)
  with inv idle less have "cl_active (bs_limiter s) < cl_max (bs_limiter s)"
    by (fastforce simp: budget_inv_def intro: le_less_trans)
  then show ?thesis by (auto simp: acquire_permit_def)
qed

lemma export_enabled:
  assumes inv: "budget_inv s" and sp: "spare s" and idle: "\<forall>j\<in>set (bs_jobs s). bj_images_running j = []"
    and i: "i < length (bs_jobs s)" "bj_phase (bs_jobs s ! i) = Exports" "bj_images_running (bs_jobs s ! i) = []"
  shows "\<exists>a. budget_step a s \<noteq> None"
proof (cases "bj_images_waiting (bs_jobs s ! i) = 0")
  case True
  show ?thesis
  proof (cases "bj_flushes (bs_jobs s ! i)")
    case Nil
    with True i show ?thesis by (intro exI [of _ "EndExport i"] budget_step_enabledI) auto
  next
    case (Cons n ns)
    with True i show ?thesis by (intro exI [of _ "Flush i"] budget_step_enabledI) auto
  qed
next
  case False
  have "acquire_permit (bs_throttle s) (bs_limiter s) \<noteq> None"
  proof (cases "length (bs_jobs s) < cl_max (bs_limiter s)")
    case True
    then have "length (filter (\<lambda>j. bj_phase j = Exports) (bs_jobs s)) < cl_max (bs_limiter s)"
      using length_filter_le le_less_trans by blast
    then show ?thesis by (rule permit_free [OF inv idle])
  next
    case few: False
    have "\<not> flushless (bs_jobs s ! i)" using False by (simp add: flushless_def)
    with sp few i(1) have "\<not> cpu_budget_hard_cap_enabled (bs_throttle s)"
      unfolding spare_def using nth_mem by blast
    then show ?thesis by (simp add: acquire_permit_def)
  qed
  with False i show ?thesis by (intro exI [of _ "StartImage i"] budget_step_enabledI) auto
qed

lemma budget_enabled:
  assumes inv: "budget_inv s" and sp: "spare s" and nov: "\<not> budget_over s"
  shows "\<exists>a. budget_step a s \<noteq> None"
proof -
  show ?thesis
  proof (cases "\<forall>j\<in>set (bs_jobs s). bj_images_running j = []")
    case False
    then obtain i where "i < length (bs_jobs s)" "bj_images_running (bs_jobs s ! i) \<noteq> []"
      by (auto simp: in_set_conv_nth)
    then show ?thesis by (intro exI [of _ "EndImage i"] budget_step_enabledI) (auto split: list.split)
  next
    case idle: True
    show ?thesis
    proof (cases "\<exists>j\<in>set (bs_jobs s). bj_phase j = Exports")
      case True
      then obtain i where i: "i < length (bs_jobs s)" "bj_phase (bs_jobs s ! i) = Exports"
        by (auto simp: in_set_conv_nth)
      then have run: "bj_images_running (bs_jobs s ! i) = []" using idle by simp
      show ?thesis by (rule export_enabled [OF inv sp idle i run])
    next
      case False
      then obtain i where i: "i < length (bs_jobs s)" "bj_phase (bs_jobs s ! i) = WaitsForPermit"
        using nov unfolding budget_over_def by (metis export_phase.exhaust in_set_conv_nth)
      have "filter (\<lambda>j. bj_phase j = Exports) (bs_jobs s) = []" using False by (simp add: filter_empty_conv)
      then have "acquire_permit (bs_throttle s) (bs_limiter s) \<noteq> None"
        using permit_free [OF inv idle] inv by (simp add: budget_inv_def)
      with i show ?thesis by (intro exI [of _ "StartExport i"] budget_step_enabledI) auto
    qed
  qed
qed

interpretation exports: task_pool budget_step budget_over "\<lambda>s. budget_inv s \<and> spare s" budget_work
  by unfold_locales
    (auto intro: budget_step_keeps budget_step_spare budget_step_work budget_enabled simp del: not_None_eq)

lemma new_budget_spare:
  "th_enabled th \<or> length bundles < max n 1 \<or> (\<forall>b\<in>set bundles. b = []) \<Longrightarrow> spare (new_budget th n bundles)"
  by (auto simp: spare_def new_budget_def limiter_for_def Let_def cpu_budget_hard_cap_enabled_def flushless_def new_export_job_def)



text \<open>C11: from wherever the exports are, all of them can be brought to their end, when the throttle replaces
  the cap, when fewer bundles are exported at a time than there are permits, or when no bundle is flushed
  half-way.\<close>

theorem exports_can_finish:
  assumes "th_enabled th \<or> length bundles < max n 1 \<or> (\<forall>b\<in>set bundles. b = [])"
    and "run_steps budget_step as (new_budget th n bundles) = Some s"
  shows "\<exists>as' s'. run_steps budget_step as' s = Some s' \<and> budget_over s'"
proof -
  have "budget_inv s \<and> spare s"
    using exports.run_keeps [OF _ assms(2)] new_budget_inv new_budget_spare [OF assms(1)] by blast
  then show ?thesis by (rule exports.finishes)
qed

theorem exports_can_finish_witness:
  "\<exists>s as' s'. run_steps budget_step [StartExport 0, Flush 0] (new_budget default_cpu_throttle_config 2 [[3]]) = Some s \<and>
     run_steps budget_step as' s = Some s' \<and> budget_over s'"
proof -
  obtain s where r: "run_steps budget_step [StartExport 0, Flush 0] (new_budget default_cpu_throttle_config 2 [[3]]) = Some s"
    by (simp add: new_budget_def limiter_for_def budget_step_def new_export_job_def acquire_permit_def set_job_def Let_def
        default_cpu_throttle_config_def cpu_budget_hard_cap_enabled_def)
  have "th_enabled default_cpu_throttle_config \<or> length [[3 :: nat]] < max 2 1 \<or> (\<forall>b\<in>set [[3 :: nat]]. b = [])" by simp
  from exports_can_finish [OF this r] r show ?thesis by blast
qed

section \<open>When they do not\<close>

definition stuck_job :: budget_job where
  "stuck_job = \<lparr>bj_phase = Exports, bj_permit = True, bj_flushes = [], bj_images_waiting = 1, bj_images_running = []\<rparr>"

definition part_stuck :: "nat \<Rightarrow> nat \<Rightarrow> budget_state" where
  "part_stuck n k = \<lparr>bs_throttle = default_cpu_throttle_config, bs_limiter = \<lparr>cl_max = n, cl_active = k\<rparr>,
     bs_jobs = replicate k stuck_job @ replicate (n - k) (new_export_job [1])\<rparr>"

lemma flush_one_more:
  assumes "k < n"
  shows "run_steps budget_step [StartExport k, Flush k] (part_stuck n k) = Some (part_stuck n (Suc k))"
proof -
  obtain m where n: "n = Suc (k + m)" using assms less_imp_Suc_add by blast
  have jobs: "bs_jobs (part_stuck n k) = replicate k stuck_job @ new_export_job [1] # replicate m (new_export_job [1])"
    by (simp add: part_stuck_def n)
  have upd: "(replicate k stuck_job @ x # xs)[k := y] = replicate k stuck_job @ y # xs" for x y xs
    by (metis length_replicate list_update_length)
  have nth: "(replicate k stuck_job @ x # xs) ! k = x" for x xs by (metis length_replicate nth_append_length)
  have app: "replicate k stuck_job @ stuck_job # xs = replicate (Suc k) stuck_job @ xs" for xs
    by (simp add: replicate_app_Cons_same)
  show ?thesis
    by (simp add: budget_step_def set_job_def upd nth new_export_job_def acquire_permit_def part_stuck_def n Let_def
        default_cpu_throttle_config_def cpu_budget_hard_cap_enabled_def stuck_job_def [symmetric] app [symmetric])
      (simp add: stuck_job_def replicate_append_same)
qed

lemma reach_part_stuck: "k \<le> n \<Longrightarrow> \<exists>as. run_steps budget_step as (part_stuck n 0) = Some (part_stuck n k)"
proof (induction k)
  case 0
  show ?case by (intro exI [of _ "[]"]) simp
next
  case (Suc k)
  then obtain as where "run_steps budget_step as (part_stuck n 0) = Some (part_stuck n k)" by auto
  with flush_one_more [of k n] Suc.prems show ?case
    by (intro exI [of _ "as @ [StartExport k, Flush k]"]) (simp add: run_steps_append)
qed

text \<open>with the default settings the exports of as many bundles as there are permits come to a standstill
  when all of them flush images at the same time: each export keeps its permit while its images wait for
  one.\<close>

theorem mid_bundle_flush_deadlocks:
  "0 < n \<Longrightarrow> \<exists>as s. run_steps budget_step as (new_budget default_cpu_throttle_config n (replicate n [1])) = Some s \<and>
     \<not> budget_over s \<and> (\<forall>a. budget_step a s = None)"
proof -
  assume n: "0 < n"
  have start: "new_budget default_cpu_throttle_config n (replicate n [1]) = part_stuck n 0"
    using n by (simp add: new_budget_def part_stuck_def limiter_for_def Let_def)
  obtain as where r: "run_steps budget_step as (part_stuck n 0) = Some (part_stuck n n)" using reach_part_stuck by blast
  have "budget_step a (part_stuck n n) = None" for a
    by (cases a) (auto simp: budget_step_def part_stuck_def Let_def stuck_job_def acquire_permit_def
        cpu_budget_hard_cap_enabled_def default_cpu_throttle_config_def)
  moreover have "\<not> budget_over (part_stuck n n)"
    using n by (auto simp: budget_over_def part_stuck_def stuck_job_def)
  ultimately show ?thesis using r start by metis
qed

theorem mid_bundle_flush_deadlocks_witness:
  "\<exists>as s. run_steps budget_step as (new_budget default_cpu_throttle_config 1 [[1]]) = Some s \<and>
     \<not> budget_over s \<and> (\<forall>a. budget_step a s = None)"
  using mid_bundle_flush_deadlocks [of 1] by simp

end
