(* ===== verification/Export_Pool.thy ===== *)
theory Export_Pool
  imports Ffi_Types Task_Pool
begin

text \<open>
  The thread pool of \<^verbatim>\<open>src/core/export_pipeline/implementation/tasks.rs\<close>: \<^verbatim>\<open>run_tasks\<close> starts a fixed number of
  threads that take tasks from a shared queue until it is empty or one of them has failed. A schedule says
  which thread acts next; a thread acts at its accesses to the shared state: it looks for an error, takes a
  task, and delivers the result.
\<close>

section \<open>The threads\<close>

datatype 'a task_outcome = Returns "export_error + 'a" | Panics string

datatype 'i task_worker = AtTop | Checked | Running 'i | Stopped | Panicked string

record ('i, 't) task_state =
  tk_queue :: "'i list"
  tk_results :: "'t list"
  tk_first_error :: "export_error option"
  tk_workers :: "'i task_worker list"

definition set_worker :: "nat \<Rightarrow> 'i task_worker \<Rightarrow> ('i, 't) task_state \<Rightarrow> ('i, 't) task_state" where
  "set_worker k w s = s\<lparr>tk_workers := (tk_workers s)[k := w]\<rparr>"

fun deliver :: "nat \<Rightarrow> 't task_outcome \<Rightarrow> ('i, 't) task_state \<Rightarrow> ('i, 't) task_state" where
  "deliver k (Returns (Inr generated)) s = set_worker k AtTop (s\<lparr>tk_results := tk_results s @ [generated]\<rparr>)"
| "deliver k (Returns (Inl err)) s =
     set_worker k Stopped (s\<lparr>tk_first_error := opt_or (tk_first_error s) (Some err)\<rparr>)"
| "deliver k (Panics message) s = set_worker k (Panicked message) s"

definition task_step :: "('i \<Rightarrow> 't task_outcome) \<Rightarrow> nat \<Rightarrow> ('i, 't) task_state \<Rightarrow> ('i, 't) task_state option" where
  "task_step task k s =
     (if k < length (tk_workers s)
      then (case tk_workers s ! k of
              AtTop \<Rightarrow> Some (set_worker k (if tk_first_error s \<noteq> None then Stopped else Checked) s)
            | Checked \<Rightarrow>
                (case tk_queue s of
                   [] \<Rightarrow> Some (set_worker k Stopped s)
                 | path # rest \<Rightarrow> Some (set_worker k (Running path) (s\<lparr>tk_queue := rest\<rparr>)))
            | Running path \<Rightarrow> Some (deliver k (task path) s)
            | Stopped \<Rightarrow> None
            | Panicked _ \<Rightarrow> None)
      else None)"

definition start_tasks :: "nat \<Rightarrow> 'i list \<Rightarrow> ('i, 't) task_state" where
  "start_tasks concurrency paths =
     \<lparr>tk_queue = paths, tk_results = [], tk_first_error = None,
      tk_workers = replicate (min (max concurrency 1) (length paths)) AtTop\<rparr>"

fun worker_ended :: "'i task_worker \<Rightarrow> bool" where
  "worker_ended Stopped = True"
| "worker_ended (Panicked _) = True"
| "worker_ended _ = False"

definition tasks_over :: "('i, 't) task_state \<Rightarrow> bool" where
  "tasks_over s = list_all worker_ended (tk_workers s)"

text \<open>The threads are joined in order; the first that panicked decides.\<close>

fun join_handles :: "'i task_worker list \<Rightarrow> export_error + unit" where
  "join_handles [] = Inr ()"
| "join_handles (Panicked message # ws) = Inl (ExWorkerPanic ''export task'' message)"
| "join_handles (_ # ws) = join_handles ws"

definition joined_result :: "('i, 't) task_state \<Rightarrow> export_error + 't list" where
  "joined_result s =
     res_bind (join_handles (tk_workers s)) (\<lambda>_.
       case tk_first_error s of Some err \<Rightarrow> Inl err | None \<Rightarrow> Inr (tk_results s))"

text \<open>Threads are started one by one; the first that cannot be started ends the call. \<open>spawn\<close> gives the
  error of the operating system for a thread.\<close>

fun spawn_workers :: "(nat \<Rightarrow> io_kind option) \<Rightarrow> nat \<Rightarrow> export_error + unit" where
  "spawn_workers spawn 0 = Inr ()"
| "spawn_workers spawn (Suc n) =
     res_bind (spawn_workers spawn n) (\<lambda>_.
       case spawn n of None \<Rightarrow> Inr () | Some kind \<Rightarrow> Inl (ExWorkerSpawn ''export-task'' kind))"

text \<open>\<open>None\<close> is a schedule that does not bring all threads to their end.\<close>

definition run_tasks ::
    "(nat \<Rightarrow> io_kind option) \<Rightarrow> nat list \<Rightarrow> 'i list \<Rightarrow> nat \<Rightarrow> ('i \<Rightarrow> 't task_outcome) \<Rightarrow> 't list task_outcome option" where
  "run_tasks spawn schedule paths concurrency task =
     (case paths of
        [] \<Rightarrow> Some (Returns (Inr []))
      | [path] \<Rightarrow>
          Some (case task path of
                  Returns (Inr t) \<Rightarrow> Returns (Inr [t])
                | Returns (Inl e) \<Rightarrow> Returns (Inl e)
                | Panics m \<Rightarrow> Panics m)
      | _ \<Rightarrow>
          let s = start_tasks concurrency paths in
          case spawn_workers spawn (length (tk_workers s)) of
            Inl e \<Rightarrow> Some (Returns (Inl e))
          | Inr _ \<Rightarrow>
              (case run_steps (task_step task) schedule s of
                 None \<Rightarrow> None
               | Some s' \<Rightarrow> if tasks_over s' then Some (Returns (joined_result s')) else None))"

definition run_path_tasks ::
    "(nat \<Rightarrow> io_kind option) \<Rightarrow> nat list \<Rightarrow> string list \<Rightarrow> nat \<Rightarrow> (string \<Rightarrow> string list task_outcome) \<Rightarrow>
     string list task_outcome option" where
  "run_path_tasks spawn schedule paths concurrency task =
     map_option (\<lambda>r. case r of
         Returns (Inr results) \<Rightarrow> Returns (Inr (concat results))
       | Returns (Inl e) \<Rightarrow> Returns (Inl e)
       | Panics m \<Rightarrow> Panics m)
       (run_tasks spawn schedule paths concurrency task)"

section \<open>Accounting for the tasks\<close>

fun holding :: "'i task_worker \<Rightarrow> 'i multiset" where
  "holding (Running path) = {#path#}"
| "holding _ = {#}"

definition held :: "('i, 't) task_state \<Rightarrow> 'i multiset" where
  "held s = sum_list (map holding (tk_workers s))"

definition ok_results :: "('i \<Rightarrow> 't task_outcome) \<Rightarrow> 'i multiset \<Rightarrow> 't multiset" where
  "ok_results task m =
     image_mset (\<lambda>i. case task i of Returns (Inr t) \<Rightarrow> t)
       (filter_mset (\<lambda>i. case task i of Returns (Inr t) \<Rightarrow> True | _ \<Rightarrow> False) m)"

definition tasks_inv :: "('i \<Rightarrow> 't task_outcome) \<Rightarrow> 'i list \<Rightarrow> ('i, 't) task_state \<Rightarrow> bool" where
  "tasks_inv task paths s \<longleftrightarrow>
     (\<exists>delivered. mset paths = mset (tk_queue s) + held s + delivered \<and>
        mset (tk_results s) = ok_results task delivered \<and>
        (\<forall>i e. i \<in># delivered \<longrightarrow> task i = Returns (Inl e) \<longrightarrow> tk_first_error s \<noteq> None) \<and>
        (\<forall>i m. i \<in># delivered \<longrightarrow> task i = Panics m \<longrightarrow> Panicked m \<in> set (tk_workers s)) \<and>
        (\<forall>e. tk_first_error s = Some e \<longrightarrow> (\<exists>i. i \<in># delivered \<and> task i = Returns (Inl e))) \<and>
        (\<forall>m. Panicked m \<in> set (tk_workers s) \<longrightarrow> (\<exists>i. i \<in># delivered \<and> task i = Panics m))) \<and>
     (Stopped \<in> set (tk_workers s) \<longrightarrow> tk_queue s = [] \<or> tk_first_error s \<noteq> None) \<and>
     tk_workers s \<noteq> []"

fun worker_work :: "'i task_worker \<Rightarrow> nat" where
  "worker_work AtTop = 2"
| "worker_work Checked = 1"
| "worker_work (Running _) = 3"
| "worker_work _ = 0"

definition tasks_work :: "('i, 't) task_state \<Rightarrow> nat" where
  "tasks_work s = 3 * length (tk_queue s) + sum_list (map worker_work (tk_workers s))"

lemma set_worker_simps [simp]:
  "tk_queue (set_worker k w s) = tk_queue s" "tk_results (set_worker k w s) = tk_results s"
  "tk_first_error (set_worker k w s) = tk_first_error s"
  "tk_workers (set_worker k w s) = (tk_workers s)[k := w]"
  by (simp_all add: set_worker_def)

lemma sum_update:
  fixes f :: "'a \<Rightarrow> 'b::comm_monoid_add"
  shows "k < length ws \<Longrightarrow> sum_list (map f (ws[k := w])) + f (ws ! k) = sum_list (map f ws) + f w"
proof (induction ws arbitrary: k)
  case (Cons a ws)
  then show ?case by (cases k) (simp_all add: add_ac)
qed simp

lemma held_set_worker:
  "k < length (tk_workers s) \<Longrightarrow>
     held (set_worker k w s) + holding (tk_workers s ! k) = held s + holding w"
  by (simp add: held_def sum_update)

lemma ok_results_add:
  "ok_results task (add_mset i m) =
     (case task i of Returns (Inr t) \<Rightarrow> add_mset t (ok_results task m) | _ \<Rightarrow> ok_results task m)"
  by (simp add: ok_results_def split: task_outcome.split sum.split)

lemma ok_results_empty [simp]: "ok_results task {#} = {#}"
  by (simp add: ok_results_def)

lemma panicked_update:
  "k < length ws \<Longrightarrow> (\<And>m. ws ! k \<noteq> Panicked m) \<Longrightarrow> (\<And>m. w \<noteq> Panicked m) \<Longrightarrow>
     Panicked m \<in> set (ws[k := w]) \<longleftrightarrow> Panicked m \<in> set ws"
  by (metis in_set_conv_nth length_list_update nth_list_update_eq nth_list_update_neq)

lemma panicked_new:
  "k < length ws \<Longrightarrow> ws ! k \<noteq> Panicked n \<Longrightarrow>
     Panicked n \<in> set (ws[k := Panicked m]) \<longleftrightarrow> n = m \<or> Panicked n \<in> set ws"
  by (metis in_set_conv_nth length_list_update nth_list_update_eq nth_list_update_neq task_worker.inject(2))

lemma stopped_update:
  "Stopped \<in> set (ws[k := w]) \<Longrightarrow> w \<noteq> Stopped \<Longrightarrow> Stopped \<in> set ws"
  by (auto dest: set_update_subset_insert [THEN subsetD])

lemma idle_move_keeps:
  assumes inv: "tasks_inv task paths s" and k: "k < length (tk_workers s)"
    and idle: "holding (tk_workers s ! k) = {#}" "holding w = {#}"
    and no_panic: "\<And>m. tk_workers s ! k \<noteq> Panicked m" "\<And>m. w \<noteq> Panicked m"
    and stop: "w = Stopped \<Longrightarrow> tk_queue s = [] \<or> tk_first_error s \<noteq> None"
  shows "tasks_inv task paths (set_worker k w s)"
proof -
  have "held (set_worker k w s) = held s"
    using held_set_worker [OF k, of w] idle by simp
  moreover have "\<And>m. Panicked m \<in> set (tk_workers (set_worker k w s)) \<longleftrightarrow> Panicked m \<in> set (tk_workers s)"
    using panicked_update [OF k no_panic] by simp
  moreover have "Stopped \<in> set (tk_workers (set_worker k w s)) \<Longrightarrow> tk_queue s = [] \<or> tk_first_error s \<noteq> None"
    using inv stop stopped_update [of "tk_workers s" k w] by (auto simp: tasks_inv_def)
  ultimately show ?thesis using inv unfolding tasks_inv_def by simp
qed

lemma take_keeps:
  assumes inv: "tasks_inv task paths s" and k: "k < length (tk_workers s)"
    and checked: "tk_workers s ! k = Checked" and q: "tk_queue s = path # rest"
  shows "tasks_inv task paths (set_worker k (Running path) (s\<lparr>tk_queue := rest\<rparr>))" (is "tasks_inv _ _ ?t")
proof -
  have "held ?t = add_mset path (held s)"
    using held_set_worker [OF k, of "Running path"] checked by (simp add: held_def)
  moreover have "\<And>m. Panicked m \<in> set (tk_workers ?t) \<longleftrightarrow> Panicked m \<in> set (tk_workers s)"
    using panicked_update [OF k, of "Running path"] checked by simp
  moreover have "Stopped \<in> set (tk_workers ?t) \<Longrightarrow> tk_first_error s \<noteq> None"
    using inv stopped_update [of "tk_workers s" k "Running path"] q by (auto simp: tasks_inv_def)
  ultimately show ?thesis using inv q unfolding tasks_inv_def by simp
qed

lemma deliver_keeps:
  assumes inv: "tasks_inv task paths s" and k: "k < length (tk_workers s)"
    and running: "tk_workers s ! k = Running path"
  shows "tasks_inv task paths (deliver k (task path) s)" (is "tasks_inv _ _ ?t")
proof -
  have old: "add_mset path (held (set_worker k w s)) = held s + holding w" for w
    using held_set_worker [OF k, of w] running by simp
  obtain d where d: "mset paths = mset (tk_queue s) + held s + d" "mset (tk_results s) = ok_results task d"
    "\<And>i e. i \<in># d \<Longrightarrow> task i = Returns (Inl e) \<Longrightarrow> tk_first_error s \<noteq> None"
    "\<And>i m. i \<in># d \<Longrightarrow> task i = Panics m \<Longrightarrow> Panicked m \<in> set (tk_workers s)"
    "\<And>e. tk_first_error s = Some e \<Longrightarrow> \<exists>i. i \<in># d \<and> task i = Returns (Inl e)"
    "\<And>m. Panicked m \<in> set (tk_workers s) \<Longrightarrow> \<exists>i. i \<in># d \<and> task i = Panics m"
    using inv unfolding tasks_inv_def by blast
  have stop: "Stopped \<in> set (tk_workers s) \<Longrightarrow> tk_queue s = [] \<or> tk_first_error s \<noteq> None"
    using inv by (simp add: tasks_inv_def)
  have ne: "tk_workers s \<noteq> []" using k by auto
  have d5: "\<exists>i. (i = path \<or> i \<in># d) \<and> task i = Returns (Inl e)" if "tk_first_error s = Some e" for e
    using d(5) [OF that] by blast
  have d6: "\<exists>i. (i = path \<or> i \<in># d) \<and> task i = Panics m" if "Panicked m \<in> set (tk_workers s)" for m
    using d(6) [OF that] by blast
  have same: "Panicked m \<in> set ((tk_workers s)[k := w]) \<longleftrightarrow> Panicked m \<in> set (tk_workers s)"
    if "\<And>m. w \<noteq> Panicked m" for m w using panicked_update [OF k _ that] running by simp
  show ?thesis
  proof (cases "task path")
    case (Returns r)
    show ?thesis
    proof (cases r)
      case (Inr t)
      have "mset paths = mset (tk_queue s) + held ?t + add_mset path d"
        using d(1) old [of AtTop] Returns Inr by (simp add: held_def)
      moreover have "Stopped \<in> set (tk_workers ?t) \<Longrightarrow> tk_queue s = [] \<or> tk_first_error s \<noteq> None"
        using stop stopped_update [of "tk_workers s" k AtTop] Returns Inr by simp
      ultimately show ?thesis
        unfolding tasks_inv_def using Returns Inr d(2-4) d5 d6 ne
        by (intro conjI exI [of _ "add_mset path d"]) (auto simp: ok_results_add same)
    next
      case (Inl e)
      have "mset paths = mset (tk_queue s) + held ?t + add_mset path d"
        using d(1) old [of Stopped] Returns Inl by (simp add: held_def)
      then show ?thesis
        unfolding tasks_inv_def using Returns Inl d(2-4) d5 d6 ne
        by (intro conjI exI [of _ "add_mset path d"])
          (auto simp: ok_results_add same opt_or_def split: option.splits)
    qed
  next
    case (Panics m)
    have "mset paths = mset (tk_queue s) + held ?t + add_mset path d"
      using d(1) old [of "Panicked m"] Panics by (simp add: held_def)
    moreover have "Panicked n \<in> set (tk_workers ?t) \<longleftrightarrow> n = m \<or> Panicked n \<in> set (tk_workers s)" for n
      using panicked_new [OF k] running Panics by simp
    moreover have "Stopped \<in> set (tk_workers ?t) \<Longrightarrow> tk_queue s = [] \<or> tk_first_error s \<noteq> None"
      using stop stopped_update [of "tk_workers s" k "Panicked m"] Panics by simp
    ultimately show ?thesis
      unfolding tasks_inv_def using Panics d(2-4) d5 d6 ne
      by (intro conjI exI [of _ "add_mset path d"]) (auto simp: ok_results_add)
  qed
qed

lemma task_step_keeps:
  assumes inv: "tasks_inv task paths s" and step: "task_step task k s = Some s'"
  shows "tasks_inv task paths s'"
proof -
  have k: "k < length (tk_workers s)" using step by (simp add: task_step_def split: if_splits)
  show ?thesis
  proof (cases "tk_workers s ! k")
    case AtTop
    with step k have "s' = set_worker k (if tk_first_error s \<noteq> None then Stopped else Checked) s"
      by (simp add: task_step_def)
    with idle_move_keeps [OF inv k, of Stopped] idle_move_keeps [OF inv k, of Checked] AtTop show ?thesis
      by (simp split: if_splits)
  next
    case Checked
    show ?thesis
    proof (cases "tk_queue s")
      case Nil
      with step k Checked have "s' = set_worker k Stopped s" by (simp add: task_step_def)
      with idle_move_keeps [OF inv k, of Stopped] Checked Nil show ?thesis by simp
    next
      case (Cons path rest)
      with step k Checked take_keeps [OF inv k Checked Cons] show ?thesis by (simp add: task_step_def)
    qed
  next
    case (Running path)
    with step k deliver_keeps [OF inv k Running] show ?thesis by (simp add: task_step_def)
  qed (use step k in \<open>simp_all add: task_step_def\<close>)
qed

section \<open>Every schedule ends\<close>

lemma sum_replicate_empty [simp]: "sum_list (replicate n {#}) = {#}"
  by (induction n) simp_all

lemma start_inv: "paths \<noteq> [] \<Longrightarrow> tasks_inv task paths (start_tasks c paths)"
  by (auto simp: tasks_inv_def start_tasks_def held_def map_replicate_const)

lemma work_set_worker:
  "k < length (tk_workers s) \<Longrightarrow>
     tasks_work (set_worker k w s) + worker_work (tk_workers s ! k) = tasks_work s + worker_work w"
  using sum_update [of k "tk_workers s" worker_work w] by (simp add: tasks_work_def)

lemma work_deliver:
  assumes "k < length (tk_workers s)" and "tk_workers s ! k = Running path"
  shows "tasks_work (deliver k r s) < tasks_work s"
proof -
  have "tasks_work (set_worker k w s) + 3 = tasks_work s + worker_work w" for w
    using work_set_worker [OF assms(1), of w] assms(2) by simp
  from this [of AtTop] this [of Stopped] this [of "Panicked (case r of Panics m \<Rightarrow> m)"] show ?thesis
    by (cases "(k, r, s)" rule: deliver.cases) (simp_all add: tasks_work_def)
qed

lemma task_step_shrinks:
  assumes step: "task_step task k s = Some s'"
  shows "tasks_work s' < tasks_work s"
proof -
  have k: "k < length (tk_workers s)" using step by (simp add: task_step_def split: if_splits)
  note work = work_set_worker [OF k]
  show ?thesis
  proof (cases "tk_workers s ! k")
    case AtTop
    with step k work [of Stopped] work [of Checked] show ?thesis by (auto simp: task_step_def)
  next
    case Checked
    with step k work [of Stopped] work [of "Running (hd (tk_queue s))"] show ?thesis
      by (cases "tk_queue s") (auto simp: task_step_def tasks_work_def)
  next
    case (Running path)
    with step k work_deliver [OF k Running] show ?thesis by (auto simp: task_step_def)
  qed (use step k in \<open>simp_all add: task_step_def\<close>)
qed

lemma task_step_enabled:
  assumes "\<not> tasks_over s"
  shows "\<exists>k. task_step task k s \<noteq> None"
proof -
  from assms obtain k where k: "k < length (tk_workers s)" "\<not> worker_ended (tk_workers s ! k)"
    by (auto simp: tasks_over_def list_all_length)
  then have "task_step task k s \<noteq> None"
    by (cases "tk_workers s ! k") (auto simp: task_step_def split: list.split)
  then show ?thesis ..
qed

interpretation threads: task_pool "task_step task" tasks_over "tasks_inv task paths" tasks_work for task paths
  by unfold_locales (rule task_step_keeps task_step_shrinks task_step_enabled; assumption)+

lemma start_tasks_work: "tasks_work (start_tasks c paths) \<le> 5 * length paths"
  by (simp add: tasks_work_def start_tasks_def sum_list_replicate)

section \<open>What a run returns\<close>

lemma join_handles_Inl:
  "join_handles ws = Inl e \<Longrightarrow> \<exists>m. Panicked m \<in> set ws \<and> e = ExWorkerPanic ''export task'' m"
  by (induction ws rule: join_handles.induct) auto

lemma join_handles_Inr: "join_handles ws = Inr u \<longleftrightarrow> (\<forall>m. Panicked m \<notin> set ws)"
  by (induction ws rule: join_handles.induct) auto

lemma spawn_workers_Inl: "spawn_workers spawn n = Inl e \<Longrightarrow> \<exists>k kind. spawn k = Some kind \<and> e = ExWorkerSpawn ''export-task'' kind"
  by (induction n) (auto simp: res_simps split: option.splits)

lemma over_holds_nothing:
  assumes "tasks_over s" shows "held s = {#}"
proof -
  have "holding w = {#}" if "worker_ended w" for w :: "'a task_worker" using that by (cases w) simp_all
  with assms have "map holding (tk_workers s) = map (\<lambda>_. {#}) (tk_workers s)"
    by (simp add: tasks_over_def list_all_iff)
  then show ?thesis by (simp add: held_def map_replicate_const)
qed

definition all_ok :: "('i \<Rightarrow> 't task_outcome) \<Rightarrow> 'i list \<Rightarrow> 't list \<Rightarrow> bool" where
  "all_ok task paths ts = list_all2 (\<lambda>p t. task p = Returns (Inr t)) paths ts"

lemma ok_results_all:
  "(\<And>p. p \<in> set paths \<Longrightarrow> \<exists>t. task p = Returns (Inr t)) \<Longrightarrow>
     \<exists>ts. all_ok task paths ts \<and> ok_results task (mset paths) = mset ts"
proof (induction paths)
  case (Cons p ps)
  then obtain ts where ts: "all_ok task ps ts" "ok_results task (mset ps) = mset ts" by auto
  from Cons.prems obtain t where t: "task p = Returns (Inr t)" by auto
  show ?case
    by (rule exI [of _ "t # ts"]) (use ts t in \<open>simp add: ok_results_add all_ok_def\<close>)
qed (simp add: all_ok_def)

lemma over_result:
  assumes inv: "tasks_inv task paths s" and over: "tasks_over s" and ne: "tk_workers s \<noteq> []"
  shows "(case joined_result s of
      Inr rs \<Rightarrow> \<exists>ts. all_ok task paths ts \<and> mset rs = mset ts
    | Inl e \<Rightarrow> \<exists>p\<in>set paths. task p = Returns (Inl e) \<or> (\<exists>m. task p = Panics m \<and> e = ExWorkerPanic ''export task'' m))"
proof -
  obtain d where d: "mset paths = mset (tk_queue s) + d" "mset (tk_results s) = ok_results task d"
    "\<And>i e. i \<in># d \<Longrightarrow> task i = Returns (Inl e) \<Longrightarrow> tk_first_error s \<noteq> None"
    "\<And>i m. i \<in># d \<Longrightarrow> task i = Panics m \<Longrightarrow> Panicked m \<in> set (tk_workers s)"
    "\<And>e. tk_first_error s = Some e \<Longrightarrow> \<exists>i. i \<in># d \<and> task i = Returns (Inl e)"
    "\<And>m. Panicked m \<in> set (tk_workers s) \<Longrightarrow> \<exists>i. i \<in># d \<and> task i = Panics m"
    using inv over_holds_nothing [OF over] unfolding tasks_inv_def by auto
  have sub: "i \<in># d \<Longrightarrow> i \<in> set paths" for i
    using d(1) by (metis mset_subset_eq_add_right mset_subset_eqD set_mset_mset)
  show ?thesis
  proof (cases "joined_result s")
    case (Inl e)
    then consider "\<exists>m. Panicked m \<in> set (tk_workers s) \<and> e = ExWorkerPanic ''export task'' m" | "tk_first_error s = Some e"
      by (auto simp: joined_result_def res_simps split: option.splits dest: join_handles_Inl)
    then show ?thesis using d(5,6) sub Inl by cases fastforce+
  next
    case (Inr rs)
    then have none: "tk_first_error s = None" "\<And>m. Panicked m \<notin> set (tk_workers s)" and rs: "rs = tk_results s"
      by (auto simp: joined_result_def res_simps join_handles_Inr split: option.splits)
    have "hd (tk_workers s) \<in> set (tk_workers s)" using ne by simp
    with none(2) over have "Stopped \<in> set (tk_workers s)"
      by (cases "hd (tk_workers s)") (auto simp: tasks_over_def list_all_iff)
    with inv none have "tk_queue s = []" by (auto simp: tasks_inv_def)
    with d have all: "d = mset paths" by simp
    have "\<exists>t. task p = Returns (Inr t)" if "p \<in> set paths" for p
      using d(3,4) [of p] that all none by (cases "task p") (auto, metis sum.exhaust)
    from ok_results_all [of paths task, OF this] obtain ts where "all_ok task paths ts" "ok_results task d = mset ts"
      using all by blast
    with rs d(2) Inr show ?thesis by auto
  qed
qed

lemma run_result:
  assumes "run_tasks spawn schedule paths c task = Some r" and "Suc 0 < length paths"
  shows "(\<exists>k kind. spawn k = Some kind \<and> r = Returns (Inl (ExWorkerSpawn ''export-task'' kind))) \<or>
    (\<exists>s. run_steps (task_step task) schedule (start_tasks c paths) = Some s \<and> tasks_over s \<and>
         r = Returns (joined_result s))"
  using assms
  by (auto simp: run_tasks_def Let_def split: list.splits sum.splits option.splits if_splits dest: spawn_workers_Inl)

text \<open>C16: The pool returns the results of all tasks, in some order, or the failure of one of its tasks or threads; with
  one task the panic goes to the caller.\<close>

theorem run_tasks_returns_all_results:
  assumes run: "run_tasks spawn schedule paths c task = Some r"
  shows "case r of
      Returns (Inr rs) \<Rightarrow> \<exists>ts. all_ok task paths ts \<and> mset rs = mset ts
    | Returns (Inl e) \<Rightarrow>
        (\<exists>p\<in>set paths. task p = Returns (Inl e) \<or> (\<exists>m. task p = Panics m \<and> e = ExWorkerPanic ''export task'' m)) \<or>
        (\<exists>k kind. spawn k = Some kind \<and> e = ExWorkerSpawn ''export-task'' kind)
    | Panics m \<Rightarrow> \<exists>p. paths = [p] \<and> task p = Panics m"
proof -
  consider "paths = []" | p where "paths = [p]" | "Suc 0 < length paths" "paths \<noteq> []" by (cases paths; cases "tl paths") auto
  then show ?thesis
  proof cases
    case 3
    from run_result [OF run 3(1)] show ?thesis
    proof (elim disjE exE conjE)
      fix s assume s: "run_steps (task_step task) schedule (start_tasks c paths) = Some s" "tasks_over s"
        "r = Returns (joined_result s)"
      have inv: "tasks_inv task paths s" using threads.run_keeps [OF start_inv [OF 3(2)] s(1)] .
      then have "tk_workers s \<noteq> []" by (simp add: tasks_inv_def)
      from over_result [OF inv s(2) this] show ?thesis using s(3) by (auto split: sum.splits)
    qed auto
  qed (use run in \<open>auto simp: run_tasks_def all_ok_def split: task_outcome.splits sum.splits\<close>)
qed

theorem run_tasks_returns_all_results_witness:
  "\<exists>ts. all_ok (\<lambda>n. Returns (Inr (n * n))) [3, 4 :: nat] ts \<and> mset [16, 9] = mset ts"
proof -
  have "run_tasks (\<lambda>_. None) [0, 0, 1, 1, 1, 0, 0, 0, 1, 1] [3, 4 :: nat] 2 (\<lambda>n. Returns (Inr (n * n))) =
      Some (Returns (Inr [16, 9]))"
    by code_simp
  from run_tasks_returns_all_results [OF this] show ?thesis by simp
qed

text \<open>Whatever the tasks return, when all threads can be started the pool can finish, and it finishes after at most
  five actions per task.\<close>

theorem run_tasks_finishes:
  "(\<exists>schedule. run_tasks (\<lambda>_. None) schedule paths c task \<noteq> None) \<and>
   (run_steps (task_step task) schedule (start_tasks c paths) = Some s \<longrightarrow> length schedule \<le> 5 * length paths)"
proof (cases "paths = []")
  case True
  then have "task_step task k (start_tasks c paths) = None" for k by (simp add: task_step_def start_tasks_def)
  then show ?thesis using True by (cases schedule) (auto simp: run_tasks_def)
next
  case False
  note inv = start_inv [OF False, of task c]
  have bound: "run_steps (task_step task) schedule (start_tasks c paths) = Some s \<longrightarrow> length schedule \<le> 5 * length paths"
    using order_trans [OF threads.run_bounded [OF inv, of schedule s] start_tasks_work] by fastforce
  have "spawn_workers (\<lambda>_. None) n = Inr ()" for n by (induction n) simp_all
  moreover obtain as t where "run_steps (task_step task) as (start_tasks c paths) = Some t" "tasks_over t"
    using threads.finishes [OF inv] by blast
  ultimately have "run_tasks (\<lambda>_. None) as paths c task \<noteq> None"
    by (auto simp: run_tasks_def Let_def split: list.splits)
  with bound show ?thesis by blast
qed

theorem run_tasks_finishes_witness:
  "\<exists>schedule. run_tasks (\<lambda>_. None) schedule [1, 2, 3 :: nat] 2 (\<lambda>n. if n = 2 then Panics ''x'' else Returns (Inr n)) \<noteq> None"
  using run_tasks_finishes [of "[1, 2, 3]" 2 "\<lambda>n. if n = 2 then Panics ''x'' else Returns (Inr n)"] by blast

end
