(* ===== verification/Export_Base.thy ===== *)
theory Export_Base
  imports Export_Pool Retry Unix_Path
begin

text \<open>
  What the files of the export pipeline share: paths as text, the order of paths, files that are written
  piece by piece, and input and output errors with their path.
\<close>

section \<open>Paths\<close>

definition to_str :: "string \<Rightarrow> string option" where
  "to_str s = (if utf8_ok s then Some s else None)"

definition file_stem :: "string \<Rightarrow> string option" where
  "file_stem p = map_option (\<lambda>f. fst (split_at_dot f)) (file_name p)"

definition path_eq :: "string \<Rightarrow> string \<Rightarrow> bool" where
  "path_eq p q \<longleftrightarrow> components p = components q"

text \<open>Components are ordered by their kind, then by their bytes; paths by their lists of components.\<close>

fun component_rank :: "component \<Rightarrow> nat \<times> string" where
  "component_rank RootDir = (0, [])"
| "component_rank CurDir = (1, [])"
| "component_rank ParentDir = (2, [])"
| "component_rank (Normal s) = (3, s)"

lemma component_rank_inj: "component_rank a = component_rank b \<longleftrightarrow> a = b"
  by (cases a; cases b) simp_all

instantiation component :: linorder
begin

definition less_eq_component :: "component \<Rightarrow> component \<Rightarrow> bool" where
  "a \<le> b \<longleftrightarrow> fst (component_rank a) < fst (component_rank b) \<or>
     fst (component_rank a) = fst (component_rank b) \<and> snd (component_rank a) \<le> snd (component_rank b)"

definition less_component :: "component \<Rightarrow> component \<Rightarrow> bool" where
  "less_component a b \<longleftrightarrow> a \<le> b \<and> \<not> b \<le> a"

instance
proof
  fix a b c :: component
  show "a < b \<longleftrightarrow> a \<le> b \<and> \<not> b \<le> a" by (rule less_component_def)
  show "a \<le> a" by (simp add: less_eq_component_def)
  show "a \<le> b \<Longrightarrow> b \<le> c \<Longrightarrow> a \<le> c" by (auto simp: less_eq_component_def)
  show "a \<le> b \<Longrightarrow> b \<le> a \<Longrightarrow> a = b"
    by (auto simp: less_eq_component_def component_rank_inj [symmetric] prod_eq_iff)
  show "a \<le> b \<or> b \<le> a" by (auto simp: less_eq_component_def)
qed

end

section \<open>Files\<close>

text \<open>\<^verbatim>\<open>File::create\<close> truncates; what is written through the handle is appended. A failing write leaves a prefix of
  the new bytes.\<close>

definition fs_create :: "string \<Rightarrow> fs \<Rightarrow> (io_kind + unit) \<times> fs" where
  "fs_create path = fs_write path []"

definition fs_append :: "string \<Rightarrow> bytes \<Rightarrow> fs \<Rightarrow> (io_kind + unit) \<times> fs" where
  "fs_append path b s =
     (let old = unwrap_or [] (fs_files s path) in
      case fs_fails (OpWrite path) s of
        Some (kind, n) \<Rightarrow> (Inl kind, (fs_tick s)\<lparr>fs_files := (fs_files s)(path \<mapsto> old @ take (unwrap_or 0 n) b)\<rparr>)
      | None \<Rightarrow> (Inr (), (fs_tick s)\<lparr>fs_files := (fs_files s)(path \<mapsto> old @ b)\<rparr>))"

abbreviation io_at :: "string \<Rightarrow> (io_kind + 'a) \<times> fs \<Rightarrow> (export_error + 'a) \<times> fs" where
  "io_at path r \<equiv> st_map_err (ExIo path) r"

definition remove_export_file_if_exists :: "string \<Rightarrow> fs \<Rightarrow> (export_error + unit) \<times> fs" where
  "remove_export_file_if_exists path f = io_at path (remove_file_if_exists path f)"

text \<open>The operating system does not report a file as missing that is there.\<close>

definition honest_removal :: "fs \<Rightarrow> bool" where
  "honest_removal f \<longleftrightarrow> (\<forall>t p n. fs_fault f t (OpRemove p) \<noteq> Some (NotFound, n))"

lemma fs_fault_kept [simp]:
  "fs_fault (snd (fs_read p f)) = fs_fault f" "fs_fault (snd (fs_write p b f)) = fs_fault f"
  "fs_fault (snd (fs_append p b f)) = fs_fault f" "fs_fault (snd (fs_create p f)) = fs_fault f"
  "fs_fault (snd (fs_create_dir_all p f)) = fs_fault f"
  by (simp_all add: fs_read_def fs_write_def fs_append_def fs_create_def fs_create_dir_all_def Let_def split: option.split)

lemma st_bind_keeps: "P (snd r) \<Longrightarrow> (\<And>x s. P s \<Longrightarrow> P (snd (g x s))) \<Longrightarrow> P (snd (st_bind r g))"
  by (cases r; cases "fst r") (auto simp: st_bind_def)

lemma fs_append_ok:
  "fs_append p b f = (Inr u, f') \<Longrightarrow> fs_files f' = (fs_files f)(p \<mapsto> unwrap_or [] (fs_files f p) @ b)"
  by (auto simp: fs_append_def Let_def split: option.splits)

lemma remove_export_fault [simp]: "fs_fault (snd (remove_export_file_if_exists p f)) = fs_fault f"
proof -
  have "fs_fault (run_state (remove_file_with_retries p f)) = fs_fault f"
    unfolding remove_file_with_retries_def
    by (rule retry_from_keeps) (auto simp: remove_attempt_def fs_remove_file_def split: option.split io_kind.split)
  then show ?thesis
    by (simp add: remove_export_file_if_exists_def remove_file_if_exists_def Let_def split: sum.split io_kind.split)
qed

lemma honest_removal_ops [simp]:
  "honest_removal (snd (fs_read p f)) = honest_removal f" "honest_removal (snd (fs_write p b f)) = honest_removal f"
  "honest_removal (snd (fs_append p b f)) = honest_removal f" "honest_removal (snd (fs_create p f)) = honest_removal f"
  "honest_removal (snd (fs_create_dir_all p f)) = honest_removal f"
  "honest_removal (snd (remove_export_file_if_exists p f)) = honest_removal f"
  by (simp_all add: honest_removal_def)

lemma remove_export_ok:
  assumes "honest_removal f" and "remove_export_file_if_exists p f = (Inr u, f')"
  shows "fs_files f' = (fs_files f)(p := None)"
proof -
  from assms(2) have "remove_file_if_exists p f = (Inr u, f')"
    by (simp add: remove_export_file_if_exists_def res_simps)
  with remove_file_if_exists_outcome [of f p "Inr u" f'] assms(1) show ?thesis
    by (auto simp: honest_removal_def)
qed

text \<open>Without faults.\<close>

lemma quiet_remove:
  "fs_fault f = no_faults \<Longrightarrow>
     remove_export_file_if_exists p f = (Inr (), (fs_tick f)\<lparr>fs_files := (fs_files f)(p := None)\<rparr>)"
  by (cases "fs_files f p")
    (auto simp: remove_export_file_if_exists_def remove_file_if_exists_def remove_file_with_retries_def
      retry_from.simps remove_attempt_def fs_remove_file_def Let_def fs_tick_def fun_upd_idem)

lemma quiet_read: "fs_fault f = no_faults \<Longrightarrow> fs_read p f = (ok_or NotFound (fs_files f p), fs_tick f)"
  by (simp add: fs_read_def)

lemma quiet_append:
  "fs_fault f = no_faults \<Longrightarrow>
     fs_append p b f = (Inr (), (fs_tick f)\<lparr>fs_files := (fs_files f)(p \<mapsto> unwrap_or [] (fs_files f p) @ b)\<rparr>)"
  by (simp add: fs_append_def Let_def)

lemma quiet_write:
  "fs_fault f = no_faults \<Longrightarrow> fs_write p b f = (Inr (), (fs_tick f)\<lparr>fs_files := (fs_files f)(p \<mapsto> b)\<rparr>)"
  by (simp add: fs_write_def)

lemma quiet_create_dirs: "fs_fault f = no_faults \<Longrightarrow> fs_create_dir_all p f = (Inr (), fs_tick f)"
  by (simp add: fs_create_dir_all_def)

lemmas quiet_fs = quiet_remove quiet_read quiet_append quiet_write quiet_create_dirs fs_create_def

end
