(* ===== verification/Usm_Inputs.thy ===== *)
theory Usm_Inputs
  imports Export_Base Regions "HOL-Library.Option_ord" "HOL-Library.Product_Lexorder"
begin

text \<open>
  The input files of the post-processing (\<^verbatim>\<open>src/core/export_pipeline/implementation/tasks.rs\<close>): the types handed to the
  exporter, the video segments that are merged before they are decoded, and the search for files by extension.
\<close>

section \<open>Types to export\<close>

definition assetstudio_export_type_selector :: "string \<Rightarrow> string option" where
  "assetstudio_export_type_selector asset_type =
     map_of
       [(''texture2d'', ''tex2d''), (''tex2d'', ''tex2d''),
        (''texture2darray'', ''tex2dArray''), (''tex2darray'', ''tex2dArray''), (''tex2d_array'', ''tex2dArray''),
        (''sprite'', ''sprite''), (''textasset'', ''textAsset''), (''text_asset'', ''textAsset''),
        (''monobehaviour'', ''monoBehaviour''), (''monobehavior'', ''monoBehaviour''),
        (''mono_behaviour'', ''monoBehaviour''), (''mono_behavior'', ''monoBehaviour''),
        (''font'', ''font''), (''shader'', ''shader''), (''audioclip'', ''audio''), (''audio'', ''audio''),
        (''videoclip'', ''video''), (''video'', ''video''), (''movietexture'', ''movieTexture''),
        (''movie_texture'', ''movieTexture''), (''mesh'', ''mesh''), (''animator'', ''animator'')]
       (to_lower (trim asset_type))"

definition MESH_PATH_EXTRA_EXPORT_TYPES :: "string list" where
  "MESH_PATH_EXTRA_EXPORT_TYPES = [''tex2d'', ''tex2dArray'', ''mesh'']"

definition append_asset_studio_export_type :: "string \<Rightarrow> string list \<Rightarrow> string list" where
  "append_asset_studio_export_type raw export_types =
     (let asset_type = unwrap_or (trim raw) (assetstudio_export_type_selector (trim raw)) in
      if asset_type = [] \<or> list_ex (\<lambda>value. value = asset_type) export_types then export_types
      else export_types @ [asset_type])"

definition append_asset_studio_export_types :: "string list \<Rightarrow> string list \<Rightarrow> string list" where
  "append_asset_studio_export_types asset_types export_types = fold append_asset_studio_export_type asset_types export_types"

definition should_export_mesh_for_bundle :: "regex \<Rightarrow> region_config \<Rightarrow> string \<Rightarrow> bool" where
  "should_export_mesh_for_bundle regex region bundle_path =
     (let mesh = xp_mesh (rg_export region) in
      if \<not> ms_export_obj mesh \<or> ms_path_patterns mesh = [] then False
      else matches_any (compile_patterns regex (ms_path_patterns mesh)) bundle_path)"

definition asset_studio_export_type_list :: "regex \<Rightarrow> region_config \<Rightarrow> string \<Rightarrow> string list" where
  "asset_studio_export_type_list regex region bundle_path =
     (let configured = append_asset_studio_export_types (xp_asset_studio_types (rg_export region)) [];
          types = (if configured = [] then append_asset_studio_export_types default_asset_studio_export_types configured
                   else configured)
      in if should_export_mesh_for_bundle regex region bundle_path
         then append_asset_studio_export_types MESH_PATH_EXTRA_EXPORT_TYPES types else types)"

section \<open>Video inputs\<close>

datatype usm_processing_input =
    UsmPath string
  | UsmBytes (ub_output_dir: string) (ub_output_name: string) (ub_fallback_name: string) (ub_data: bytes)
      (ub_source_files: "string list")

record usm_processing_inputs =
  ui_files :: "usm_processing_input list"
  ui_merged_count :: nat

fun usm_input_path :: "usm_processing_input \<Rightarrow> string option" where
  "usm_input_path (UsmPath path) = Some path"
| "usm_input_path (UsmBytes _ _ _ _ _) = None"

fun usm_output_dir :: "usm_processing_input \<Rightarrow> string" where
  "usm_output_dir (UsmPath path) = unwrap_or ''.'' (parent path)"
| "usm_output_dir (UsmBytes output_dir _ _ _ _) = output_dir"

fun usm_output_name :: "usm_processing_input \<Rightarrow> export_error + string" where
  "usm_output_name (UsmPath path) = ok_or (ExIo path OtherIo) (Option.bind (file_stem path) to_str)"
| "usm_output_name (UsmBytes _ output_name _ _ _) = Inr output_name"

fun remove_sources :: "string list \<Rightarrow> fs \<Rightarrow> (export_error + unit) \<times> fs" where
  "remove_sources [] f = (Inr (), f)"
| "remove_sources (p # ps) f = st_bind (remove_export_file_if_exists p f) (\<lambda>_. remove_sources ps)"

fun cleanup_sources :: "usm_processing_input \<Rightarrow> fs \<Rightarrow> (export_error + unit) \<times> fs" where
  "cleanup_sources (UsmPath path) f = remove_export_file_if_exists path f"
| "cleanup_sources (UsmBytes _ _ _ _ source_files) f = remove_sources source_files f"

fun output_sort_key :: "usm_processing_input \<Rightarrow> string" where
  "output_sort_key (UsmPath path) = path"
| "output_sort_key (UsmBytes output_dir output_name _ _ _) = path_join output_dir (output_name @ ''.usm'')"

text \<open>\<^verbatim>\<open>rsplit_once\<close> with a string: the last occurrence.\<close>

definition rsplit_once_str :: "string \<Rightarrow> string \<Rightarrow> (string \<times> string) option" where
  "rsplit_once_str d s =
     map_option (\<lambda>i. (take (length s - i - length d) s, drop (length s - i) s)) (find_sub (rev d) (rev s))"

definition strip_duplicate :: "string \<Rightarrow> string" where
  "strip_duplicate raw_segment =
     (case rsplit_once_str ''__dup'' raw_segment of
        Some (segment, duplicate) \<Rightarrow> if duplicate \<noteq> [] \<and> list_all is_digit duplicate then segment else raw_segment
      | None \<Rightarrow> raw_segment)"

definition usm_segment_key :: "string \<Rightarrow> (string \<times> string \<times> nat) option" where
  "usm_segment_key path =
     Option.bind (Option.bind (file_stem path) to_str) (\<lambda>stem.
     Option.bind (rsplit_once CHR ''-'' stem) (\<lambda>(prefix, raw_segment).
       let segment = strip_duplicate raw_segment in
       if prefix = [] \<or> segment = [] \<or> \<not> list_all is_digit segment then None
       else Option.bind (parse_usize segment) (\<lambda>n.
         if n = 0 then None else Some (unwrap_or ''.'' (parent path), prefix, n))))"

section \<open>Merging\<close>

fun append_files :: "string \<Rightarrow> string list \<Rightarrow> fs \<Rightarrow> (export_error + unit) \<times> fs" where
  "append_files merged_file [] f = (Inr (), f)"
| "append_files merged_file (source_path # ps) f =
     (if path_eq source_path merged_file then append_files merged_file ps f
      else st_bind (io_at source_path (fs_read source_path f)) (\<lambda>b f.
           st_bind (io_at source_path (fs_append merged_file b f)) (\<lambda>_ f.
           st_bind (remove_export_file_if_exists source_path f) (\<lambda>_ f. append_files merged_file ps f))))"

definition merge_usm_segment_files ::
    "string \<Rightarrow> string \<Rightarrow> string list \<Rightarrow> fs \<Rightarrow> (export_error + usm_processing_input) \<times> fs" where
  "merge_usm_segment_files dir stem usm_files f =
     (let merged_file = path_join dir (stem @ ''.usm'') in
      st_bind (io_at merged_file (fs_create merged_file f)) (\<lambda>_ f.
      st_bind (append_files merged_file usm_files f) (\<lambda>_ f. (Inr (UsmPath merged_file), f))))"

fun append_inputs :: "string \<Rightarrow> usm_processing_input list \<Rightarrow> fs \<Rightarrow> (export_error + unit) \<times> fs" where
  "append_inputs merged_file [] f = (Inr (), f)"
| "append_inputs merged_file (UsmPath source_path # inputs) f =
     st_bind (append_files merged_file [source_path] f) (\<lambda>_ f. append_inputs merged_file inputs f)"
| "append_inputs merged_file (UsmBytes _ _ _ data source_files # inputs) f =
     st_bind (io_at merged_file (fs_append merged_file data f)) (\<lambda>_ f.
     st_bind (remove_sources source_files f) (\<lambda>_ f. append_inputs merged_file inputs f))"

definition merge_usm_inputs :: "string \<Rightarrow> usm_processing_input list \<Rightarrow> fs \<Rightarrow> (export_error + string) \<times> fs" where
  "merge_usm_inputs dir usm_inputs f =
     (let dir_name = unwrap_or ''merged'' (Option.bind (file_name dir) to_str);
          merged_file = path_join dir (dir_name @ ''.usm'')
      in st_bind (io_at merged_file (fs_create merged_file f)) (\<lambda>_ f.
         st_bind (append_inputs merged_file usm_inputs f) (\<lambda>_ f. (Inr merged_file, f))))"

section \<open>Grouping\<close>

text \<open>A group is keyed by directory and name, compared as a path; the first file of a group supplies the directory
  as it is written. Files that are no segments share one group.\<close>

type_synonym usm_entry = "nat \<times> nat \<times> string"
type_synonym usm_groups = "((component list \<times> string) option, (string \<times> string) option \<times> usm_entry list) btmap"

definition add_to_group :: "nat \<times> string \<Rightarrow> usm_groups \<Rightarrow> usm_groups" where
  "add_to_group = (\<lambda>(index, path) groups.
     let key = usm_segment_key path;
         k = map_option (\<lambda>(dir, stem, _). (components dir, stem)) key;
         name = map_option (\<lambda>(dir, stem, _). (dir, stem)) key;
         entry = (case key of Some (_, _, segment) \<Rightarrow> (segment, index, path) | None \<Rightarrow> (usize_max, index, path))
     in case map_of groups k of
          Some (first, entries) \<Rightarrow> bt_insert k (first, entries @ [entry]) groups
        | None \<Rightarrow> bt_insert k (name, [entry]) groups)"

definition entry_path :: "usm_entry \<Rightarrow> string" where
  "entry_path = (\<lambda>(_, _, path). path)"

definition sort_group :: "usm_entry list \<Rightarrow> usm_entry list" where
  "sort_group = sort_key (\<lambda>(segment, index, _). (segment, index))"

definition is_contiguous_segmented_usm :: "usm_entry list \<Rightarrow> bool" where
  "is_contiguous_segmented_usm entries \<longleftrightarrow>
     length entries > 1 \<and> list_all (\<lambda>(index, segment, _). segment = index + 1) (zip [0..<length entries] entries)"

definition prepare_group ::
    "(string \<times> string) option \<Rightarrow> usm_entry list \<Rightarrow> fs \<Rightarrow> (export_error + usm_processing_input list \<times> nat) \<times> fs" where
  "prepare_group name entries f =
     (let sorted_group = sort_group entries; sources = map entry_path sorted_group in
      case (name, is_contiguous_segmented_usm sorted_group) of
        (Some (dir, stem), True) \<Rightarrow>
          st_bind (merge_usm_segment_files dir stem sources f) (\<lambda>merged f. (Inr ([merged], length sources), f))
      | _ \<Rightarrow> (Inr (map UsmPath sources, 0), f))"

fun prepare_groups :: "usm_groups \<Rightarrow> fs \<Rightarrow> (export_error + usm_processing_input list \<times> nat) \<times> fs" where
  "prepare_groups [] f = (Inr ([], 0), f)"
| "prepare_groups ((_, name, entries) # groups) f =
     st_bind (prepare_group name entries f) (\<lambda>(prepared, merged_count) f.
     st_bind (prepare_groups groups f) (\<lambda>(more, count) f. (Inr (prepared @ more, merged_count + count), f)))"

definition prepare_usm_processing_inputs :: "string list \<Rightarrow> fs \<Rightarrow> (export_error + usm_processing_inputs) \<times> fs" where
  "prepare_usm_processing_inputs usm_files f =
     (if length usm_files \<le> 1 then (Inr \<lparr>ui_files = map UsmPath usm_files, ui_merged_count = 0\<rparr>, f)
      else st_bind (prepare_groups (fold add_to_group (zip [0..<length usm_files] usm_files) []) f)
             (\<lambda>(prepared, merged_count) f.
               (Inr \<lparr>ui_files = sort_key (\<lambda>i. components (output_sort_key i)) prepared,
                     ui_merged_count = merged_count\<rparr>, f)))"

section \<open>What merging does to the files\<close>

lemma honest_removal_cong: "fs_fault f' = fs_fault f \<Longrightarrow> honest_removal f' = honest_removal f"
  by (simp add: honest_removal_def)

lemma append_step:
  assumes ne: "\<not> path_eq p m" and h: "honest_removal f" and m: "fs_files f m = Some old"
    and run: "append_files m (p # ps) f = (Inr u, f')"
  obtains b f3 where "fs_files f p = Some b" "honest_removal f3" "append_files m ps f3 = (Inr u, f')"
    "fs_files f3 = (fs_files f)(m \<mapsto> old @ b, p := None)"
proof -
  from ne run obtain b f1 v f2 w f3 where r: "fs_read p f = (Inr b, f1)" and a: "fs_append m b f1 = (Inr v, f2)"
    and d: "remove_export_file_if_exists p f2 = (Inr w, f3)" and rest: "append_files m ps f3 = (Inr u, f')"
    by (auto simp: res_simps)
  from r have f1: "fs_files f p = Some b" "fs_files f1 = fs_files f" by (auto dest: fs_read_eq)
  have "fs_fault f1 = fs_fault f" "fs_fault f2 = fs_fault f1" "fs_fault f3 = fs_fault f2"
    using r a d fs_fault_kept(1) [of p f] fs_fault_kept(3) [of m b f1] remove_export_fault [of p f2] by simp_all
  with h have "honest_removal f2" "honest_removal f3" by (simp_all add: honest_removal_def)
  with f1 m fs_append_ok [OF a] remove_export_ok [OF _ d] rest that show ?thesis by simp
qed

lemma append_files_ok:
  assumes "append_files m ps f = (Inr u, f')" and "honest_removal f" and "fs_files f m = Some old"
    and "distinct ps" and "\<forall>p\<in>set ps. \<not> path_eq p m"
  shows "fs_files f' = (\<lambda>q. if q = m then Some (old @ concat (map (\<lambda>p. the (fs_files f p)) ps))
      else if q \<in> set ps then None else fs_files f q)"
  using assms
proof (induction ps arbitrary: f old)
  case (Cons p ps)
  have ne: "\<not> path_eq p m" using Cons.prems(5) by simp
  obtain b f3 where b: "fs_files f p = Some b" and h: "honest_removal f3"
    and rest: "append_files m ps f3 = (Inr u, f')" and f3: "fs_files f3 = (fs_files f)(m \<mapsto> old @ b, p := None)"
    by (rule append_step [OF ne Cons.prems(2,3,1)])
  have pm: "p \<noteq> m" using Cons.prems(5) by (auto simp: path_eq_def)
  have same: "map (\<lambda>q. the (fs_files f3 q)) ps = map (\<lambda>q. the (fs_files f q)) ps"
    using Cons.prems(4,5) by (auto simp: f3 path_eq_def)
  have "fs_files f' = (\<lambda>q. if q = m then Some ((old @ b) @ concat (map (\<lambda>p. the (fs_files f3 p)) ps))
      else if q \<in> set ps then None else fs_files f3 q)"
    by (rule Cons.IH) (use Cons.prems rest h f3 pm in auto)
  from this [unfolded same] show ?case using b pm Cons.prems(4) by (auto simp: f3 fun_eq_iff)
qed auto

lemma merge_ok:
  assumes run: "merge_usm_segment_files dir stem ps f = (Inr i, f')" and h: "honest_removal f"
    and ps: "distinct ps" "\<forall>p\<in>set ps. \<not> path_eq p (path_join dir (stem @ ''.usm''))"
  shows "i = UsmPath (path_join dir (stem @ ''.usm'')) \<and>
    fs_files f' = (\<lambda>q. if q = path_join dir (stem @ ''.usm'') then Some (concat (map (\<lambda>p. the (fs_files f p)) ps))
      else if q \<in> set ps then None else fs_files f q)"
proof -
  let ?m = "path_join dir (stem @ ''.usm'')"
  from run obtain v f1 u where c: "fs_create ?m f = (Inr v, f1)" and a: "append_files ?m ps f1 = (Inr u, f')"
    and i: "i = UsmPath ?m"
    by (auto simp: merge_usm_segment_files_def Let_def res_simps)
  from c have f1: "fs_files f1 = (fs_files f)(?m \<mapsto> [])" by (auto simp: fs_create_def dest: fs_write_ok)
  have "fs_fault f1 = fs_fault f" using c fs_fault_kept(4) [of ?m f] by simp
  with h have h1: "honest_removal f1" by (simp add: honest_removal_def)
  have same: "map (\<lambda>q. the (fs_files f1 q)) ps = map (\<lambda>q. the (fs_files f q)) ps"
    using ps(2) by (auto simp: f1 path_eq_def)
  have "fs_files f1 ?m = Some []" by (simp add: f1)
  from append_files_ok [OF a h1 this ps, unfolded same] i show ?thesis by (auto simp: f1 fun_eq_iff)
qed

section \<open>What the groups are\<close>

lemma file_name_no_slash: "file_name p = Some s \<Longrightarrow> CHR ''/'' \<notin> set s"
  using file_name_shape by blast

lemma set_stem: "set (fst (split_at_dot s)) \<subseteq> set s"
  by (auto simp: split_at_dot_def rsplit_once_Some split: option.splits if_splits)

lemma usm_stem_plain:
  assumes "usm_segment_key p = Some (dir, stem, n)"
  shows "plain_name (stem @ ''.usm'')"
proof -
  from assms obtain s raw where fn: "file_name p = Some s" and sp: "rsplit_once CHR ''-'' (fst (split_at_dot s)) = Some (stem, raw)"
    by (auto simp: usm_segment_key_def file_stem_def to_str_def Let_def bind_eq_Some_conv split: if_splits)
  have "fst (split_at_dot s) = stem @ CHR ''-'' # raw" using sp by (simp add: rsplit_once_Some)
  with set_stem [of s] have "set stem \<subseteq> set s" by auto
  with file_name_no_slash [OF fn] show ?thesis by (auto simp: plain_name_def)
qed

definition group_key :: "string \<Rightarrow> (component list \<times> string) option" where
  "group_key p = map_option (\<lambda>(dir, stem, _). (components dir, stem)) (usm_segment_key p)"

definition entry_ok :: "(component list \<times> string) option \<Rightarrow> usm_entry \<Rightarrow> bool" where
  "entry_ok k = (\<lambda>(segment, i, p). group_key p = k \<and>
     (case usm_segment_key p of None \<Rightarrow> True | Some (_, _, n) \<Rightarrow> segment = n))"

definition group_ok :: "(component list \<times> string) option \<Rightarrow> (string \<times> string) option \<Rightarrow> usm_entry list \<Rightarrow> bool" where
  "group_ok k name es \<longleftrightarrow>
     k = map_option (\<lambda>(dir, stem). (components dir, stem)) name \<and> es \<noteq> [] \<and>
     (case name of None \<Rightarrow> True | Some (dir, stem) \<Rightarrow> plain_name (stem @ ''.usm'')) \<and>
     (\<forall>e\<in>set es. entry_ok k e)"

definition groups_ok :: "string list \<Rightarrow> usm_groups \<Rightarrow> bool" where
  "groups_ok ps gs \<longleftrightarrow> btmap_wf gs \<and> (\<forall>(k, name, es)\<in>set gs. group_ok k name es) \<and>
     mset (concat (map (\<lambda>(_, _, es). map entry_path es) gs)) = mset ps"

lemma bt_insert_concat:
  "btmap_wf m \<Longrightarrow>
     mset (concat (map g (bt_insert k v m))) + (case map_of m k of None \<Rightarrow> {#} | Some w \<Rightarrow> mset (g (k, w))) =
     mset (concat (map g m)) + mset (g (k, v))"
proof (induction m)
  case (Cons a m)
  obtain k' v' where a: "a = (k', v')" by fastforce
  have wf: "btmap_wf m" "\<And>x. x \<in> fst ` set m \<Longrightarrow> k' < x" using Cons.prems by (auto simp: btmap_wf_def a)
  consider "k < k'" | "k = k'" | "k' < k" by (rule linorder_cases)
  then show ?case
  proof cases
    case 1
    then have "map_of m k = None" using wf(2) by (force simp: map_of_eq_None_iff)
    with 1 show ?thesis by (simp add: a)
  next
    case 2
    then show ?thesis by (simp add: a)
  next
    case 3
    then show ?thesis using Cons.IH [OF wf(1)] by (auto simp: a ac_simps split: option.splits)
  qed
qed simp

lemma add_to_group_ok:
  assumes ok: "groups_ok ps gs"
  shows "groups_ok (p # ps) (add_to_group (i, p) gs)"
proof -
  define k where "k = group_key p"
  define name where "name = map_option (\<lambda>(dir, stem, _ :: nat). (dir, stem)) (usm_segment_key p)"
  define e where "e = (case usm_segment_key p of Some (_, _, segment) \<Rightarrow> (segment, i, p) | None \<Rightarrow> (usize_max, i, p))"
  define v where "v = (case map_of gs k of Some (first, es) \<Rightarrow> (first, es @ [e]) | None \<Rightarrow> (name, [e]))"
  have add: "add_to_group (i, p) gs = bt_insert k v gs"
    by (simp add: add_to_group_def Let_def k_def name_def e_def v_def group_key_def split: option.split)
  have wf: "btmap_wf gs" and each: "\<And>k name es. (k, name, es) \<in> set gs \<Longrightarrow> group_ok k name es"
    and total: "mset (concat (map (\<lambda>(_, _, es). map entry_path es) gs)) = mset ps"
    using ok by (auto simp: groups_ok_def)
  have ep: "entry_path e = p" by (simp add: e_def entry_path_def split: option.split)
  have e_ok: "entry_ok k e" by (simp add: entry_ok_def e_def k_def split: option.split)
  have "group_ok k (fst v) (snd v)"
  proof (cases "map_of gs k")
    case None
    have "k = map_option (\<lambda>(dir, stem). (components dir, stem)) name"
      by (cases "usm_segment_key p") (auto simp: k_def name_def group_key_def)
    moreover have "case name of None \<Rightarrow> True | Some (dir, stem) \<Rightarrow> plain_name (stem @ ''.usm'')"
      using usm_stem_plain [of p] by (auto simp: name_def split: option.split)
    ultimately show ?thesis using e_ok None by (simp add: group_ok_def v_def)
  next
    case (Some w)
    then obtain first es where w: "map_of gs k = Some (first, es)" by (cases w) simp
    then have "group_ok k first es" using each btmap_get_iff [OF wf] by blast
    with e_ok w show ?thesis by (auto simp: group_ok_def v_def)
  qed
  moreover have "set (bt_insert k v gs) \<subseteq> insert (k, v) (set gs)" by (induction gs) auto
  moreover have "mset (concat (map (\<lambda>(_, _, es). map entry_path es) (bt_insert k v gs))) = mset (p # ps)"
    using bt_insert_concat [OF wf, of "\<lambda>(_, _, es). map entry_path es" k v] total ep
    by (cases "map_of gs k") (auto simp: v_def split: prod.splits)
  ultimately show ?thesis
    unfolding groups_ok_def add using wf each by (cases v) (auto 0 3)
qed

lemma fold_groups_ok:
  "groups_ok ps gs \<Longrightarrow> groups_ok (rev (map snd es) @ ps) (fold add_to_group es gs)"
proof (induction es arbitrary: ps gs)
  case (Cons e es)
  from Cons.IH [OF add_to_group_ok [OF Cons.prems, of "snd e" "fst e"]] show ?case by simp
qed simp

lemma prepared_groups_ok:
  "groups_ok (rev files) (fold add_to_group (zip [0..<length files] files) [])"
  using fold_groups_ok [of "[]" "[]" "zip [0..<length files] files"] by (simp add: groups_ok_def btmap_wf_def)

section \<open>Every file is kept or merged\<close>

definition merged_path :: "string \<times> string \<Rightarrow> string" where
  "merged_path = (\<lambda>(dir, stem). path_join dir (stem @ ''.usm''))"

definition touched :: "(string \<times> string) option \<Rightarrow> usm_entry list \<Rightarrow> string set" where
  "touched name es = entry_path ` set es \<union> (case name of None \<Rightarrow> {} | Some n \<Rightarrow> {merged_path n})"

definition kept_or_merged ::
    "usm_entry list \<Rightarrow> (string \<times> string) option \<Rightarrow> usm_processing_input list \<Rightarrow> (string \<Rightarrow> bytes option) \<Rightarrow> (string \<Rightarrow> bytes option) \<Rightarrow> bool" where
  "kept_or_merged es name prepared before after \<longleftrightarrow>
     (\<forall>p\<in>entry_path ` set es. UsmPath p \<in> set prepared \<and> after p = before p) \<or>
     (\<exists>n. name = Some n \<and> UsmPath (merged_path n) \<in> set prepared \<and> is_contiguous_segmented_usm (sort_group es) \<and>
        after (merged_path n) = Some (concat (map (\<lambda>p. the (before p)) (map entry_path (sort_group es)))))"

lemma set_sort_group [simp]: "set (sort_group es) = set es"
  by (simp add: sort_group_def)

lemma mset_sort_group [simp]: "mset (sort_group es) = mset es"
  by (simp add: sort_group_def)

lemma distinct_sort_group: "distinct (map entry_path (sort_group es)) = distinct (map entry_path es)"
  by (rule mset_eq_imp_distinct_iff) (simp add: mset_map)

lemma kept_or_merged_cong:
  assumes "kept_or_merged es name prepared b a"
    and "\<And>q. q \<in> entry_path ` set es \<Longrightarrow> b' q = b q" and "\<And>q. q \<in> touched name es \<Longrightarrow> a' q = a q"
    and "set prepared \<subseteq> set prepared'"
  shows "kept_or_merged es name prepared' b' a'"
proof -
  have "map (\<lambda>p. the (b' p)) (map entry_path (sort_group es)) = map (\<lambda>p. the (b p)) (map entry_path (sort_group es))"
    by (rule map_cong [OF refl]) (use assms(2) in auto)
  note same = this
  from assms(1) consider "\<forall>p\<in>entry_path ` set es. UsmPath p \<in> set prepared \<and> a p = b p"
    | n where "name = Some n" "UsmPath (merged_path n) \<in> set prepared" "is_contiguous_segmented_usm (sort_group es)"
      "a (merged_path n) = Some (concat (map (\<lambda>p. the (b p)) (map entry_path (sort_group es))))"
    unfolding kept_or_merged_def by blast
  then show ?thesis
  proof cases
    case 1
    then have "\<forall>p\<in>entry_path ` set es. UsmPath p \<in> set prepared' \<and> a' p = b' p"
      using assms(2-4) by (auto simp: touched_def)
    then show ?thesis unfolding kept_or_merged_def by blast
  next
    case 2
    have "a' (merged_path n) = a (merged_path n)" using assms(3) 2(1) by (simp add: touched_def)
    then have "a' (merged_path n) = Some (concat (map (\<lambda>p. the (b' p)) (map entry_path (sort_group es))))"
      unfolding same using 2(4) by (rule trans)
    moreover have "UsmPath (merged_path n) \<in> set prepared'" using 2(2) assms(4) by blast
    ultimately show ?thesis using 2(1,3) unfolding kept_or_merged_def by blast
  qed
qed

lemma prepare_group_ok:
  assumes run: "prepare_group name es f = (Inr (prepared, n), f')" and h: "honest_removal f"
    and es: "distinct (map entry_path es)"
    and free: "\<And>m p. name = Some m \<Longrightarrow> p \<in> entry_path ` set es \<Longrightarrow> \<not> path_eq p (merged_path m)"
  shows "kept_or_merged es name prepared (fs_files f) (fs_files f') \<and> (\<forall>q. q \<notin> touched name es \<longrightarrow> fs_files f' q = fs_files f q)"
proof (cases "\<exists>m. name = Some m \<and> is_contiguous_segmented_usm (sort_group es)")
  case True
  then obtain dir stem where name: "name = Some (dir, stem)" and c: "is_contiguous_segmented_usm (sort_group es)" by auto
  with run obtain i where m: "merge_usm_segment_files dir stem (map entry_path (sort_group es)) f = (Inr i, f')"
    and p: "prepared = [i]"
    by (auto simp: prepare_group_def Let_def res_simps)
  have ne: "\<forall>p\<in>set (map entry_path (sort_group es)). \<not> path_eq p (path_join dir (stem @ ''.usm''))"
    using free [of "(dir, stem)"] name by (simp add: merged_path_def)
  from merge_ok [OF m h _ ne] es distinct_sort_group [of es] p name c show ?thesis
    by (auto simp: kept_or_merged_def touched_def merged_path_def image_iff)
next
  case False
  with run have "prepared = map UsmPath (map entry_path (sort_group es))" "f' = f"
    by (auto simp: prepare_group_def Let_def split: option.splits bool.splits)
  then show ?thesis by (auto simp: kept_or_merged_def)
qed

lemma append_files_honest: "honest_removal f \<Longrightarrow> honest_removal (snd (append_files m ps f))"
proof (induction ps arbitrary: f)
  case (Cons p ps)
  show ?case
  proof (cases "path_eq p m")
    case False
    show ?thesis
      unfolding append_files.simps if_not_P [OF False]
      by (intro st_bind_keeps [of honest_removal] Cons.IH; simp add: Cons.prems)
  qed (use Cons in simp)
qed simp

lemma merge_honest: "honest_removal f \<Longrightarrow> honest_removal (snd (merge_usm_segment_files dir stem ps f))"
  unfolding merge_usm_segment_files_def Let_def
  by (intro st_bind_keeps [of honest_removal] append_files_honest; simp)

lemma prepare_group_honest:
  assumes "honest_removal f" shows "honest_removal (snd (prepare_group name es f))"
proof (cases "name \<noteq> None \<and> is_contiguous_segmented_usm (sort_group es)")
  case True
  then obtain dir stem where "name = Some (dir, stem)" by auto
  with True have "prepare_group name es f = st_bind (merge_usm_segment_files dir stem (map entry_path (sort_group es)) f)
      (\<lambda>merged f. (Inr ([merged], length (map entry_path (sort_group es))), f))"
    by (simp add: prepare_group_def Let_def)
  then show ?thesis using merge_honest [OF assms] by (auto intro!: st_bind_keeps [of honest_removal])
next
  case False
  then have "snd (prepare_group name es f) = f"
    by (auto simp: prepare_group_def Let_def split: option.split bool.split)
  with assms show ?thesis by simp
qed

type_synonym usm_group = "(component list \<times> string) option \<times> (string \<times> string) option \<times> usm_entry list"

definition group_touches :: "usm_group \<Rightarrow> string set" where
  "group_touches g = touched (fst (snd g)) (snd (snd g))"

definition group_free :: "usm_group \<Rightarrow> bool" where
  "group_free g \<longleftrightarrow> distinct (map entry_path (snd (snd g))) \<and>
     (\<forall>m p. fst (snd g) = Some m \<longrightarrow> p \<in> entry_path ` set (snd (snd g)) \<longrightarrow> \<not> path_eq p (merged_path m))"

abbreviation group_result :: "usm_group \<Rightarrow> usm_processing_input list \<Rightarrow> fs \<Rightarrow> fs \<Rightarrow> bool" where
  "group_result g prepared f f' \<equiv> kept_or_merged (snd (snd g)) (fst (snd g)) prepared (fs_files f) (fs_files f')"

lemma prepare_groups_ok:
  assumes "prepare_groups gs f = (Inr (prepared, n), f')" and "honest_removal f" and "\<forall>g\<in>set gs. group_free g"
    and "sorted_wrt (\<lambda>g g'. group_touches g \<inter> group_touches g' = {}) gs"
  shows "(\<forall>g\<in>set gs. group_result g prepared f f') \<and>
    (\<forall>q. (\<forall>g\<in>set gs. q \<notin> group_touches g) \<longrightarrow> fs_files f' q = fs_files f q)"
  using assms
proof (induction gs arbitrary: f prepared n)
  case (Cons g gs)
  obtain k name es where g: "g = (k, name, es)" by (cases g) auto
  from Cons.prems(1) obtain p1 n1 f1 p2 n2 where r1: "prepare_group name es f = (Inr (p1, n1), f1)"
    and r2: "prepare_groups gs f1 = (Inr (p2, n2), f')" and p: "prepared = p1 @ p2"
    by (auto simp: g res_simps split: prod.splits)
  have h1: "honest_removal f1" using prepare_group_honest [OF Cons.prems(2), of name es] r1 by simp
  have head: "group_result g p1 f f1" "\<And>q. q \<notin> group_touches g \<Longrightarrow> fs_files f1 q = fs_files f q"
    using prepare_group_ok [OF r1 Cons.prems(2)] Cons.prems(3) by (auto simp: g group_free_def group_touches_def)
  have "sorted_wrt (\<lambda>g g'. group_touches g \<inter> group_touches g' = {}) gs"
    and apart: "\<And>g'. g' \<in> set gs \<Longrightarrow> group_touches g \<inter> group_touches g' = {}" using Cons.prems(4) by auto
  from Cons.IH [OF r2 h1 _ this(1)] Cons.prems(3)
  have tail: "\<And>g'. g' \<in> set gs \<Longrightarrow> group_result g' p2 f1 f'"
    "\<And>q. (\<forall>g\<in>set gs. q \<notin> group_touches g) \<Longrightarrow> fs_files f' q = fs_files f1 q" by auto
  have "group_result g prepared f f'"
    by (rule kept_or_merged_cong [OF head(1)])
      (use tail(2) apart p in \<open>auto simp: group_touches_def disjoint_iff\<close>)
  moreover have "group_result g' prepared f f'" if g': "g' \<in> set gs" for g'
  proof (rule kept_or_merged_cong [OF tail(1) [OF g'] _ refl])
    fix q assume "q \<in> entry_path ` set (snd (snd g'))"
    then have "q \<in> group_touches g'" by (simp add: group_touches_def touched_def)
    then show "fs_files f q = fs_files f1 q" using head(2) apart [OF g'] by (metis disjoint_iff)
  qed (use p in auto)
  ultimately show ?case using tail(2) head(2) by auto
qed simp

text \<open>No input has the name a group of segments is merged into.\<close>

definition merge_names_free :: "string list \<Rightarrow> bool" where
  "merge_names_free files \<longleftrightarrow>
     (\<forall>p\<in>set files. \<forall>q\<in>set files.
        case usm_segment_key p of None \<Rightarrow> True | Some (dir, stem, _) \<Rightarrow> \<not> path_eq q (path_join dir (stem @ ''.usm'')))"

lemma entry_in_files:
  assumes "groups_ok (rev files) gs" and "(k, name, es) \<in> set gs" and "e \<in> set es"
  shows "entry_path e \<in> set files" and "group_key (entry_path e) = k"
proof -
  have "mset (concat (map (\<lambda>(_, _, es). map entry_path es) gs)) = mset (rev files)"
    using assms(1) by (simp add: groups_ok_def)
  from mset_eq_setD [OF this] have "set (concat (map (\<lambda>(_, _, es). map entry_path es) gs)) = set files" by simp
  moreover have "entry_path e \<in> set (concat (map (\<lambda>(_, _, es). map entry_path es) gs))"
    using assms(2,3) by (force intro!: bexI [of _ "(k, name, es)"])
  ultimately show "entry_path e \<in> set files" by blast
  have "entry_ok k e" using assms by (auto simp: groups_ok_def group_ok_def)
  then show "group_key (entry_path e) = k" by (cases e) (simp add: entry_ok_def entry_path_def)
qed

lemma merged_path_components:
  assumes "groups_ok ps gs" and "(k, Some m, es) \<in> set gs"
  shows "k = Some (components (fst m), snd m)"
    and "components (merged_path m) = components (fst m) @ [Normal (snd m @ ''.usm'')]"
proof -
  have "group_ok k (Some m) es" using assms by (auto simp: groups_ok_def)
  then show "k = Some (components (fst m), snd m)"
    and "components (merged_path m) = components (fst m) @ [Normal (snd m @ ''.usm'')]"
    by (cases m; simp add: group_ok_def merged_path_def)+
qed

lemma merged_path_not_input:
  assumes ok: "groups_ok (rev files) gs" and free: "merge_names_free files"
    and g: "(k, Some m, es) \<in> set gs" and q: "q \<in> set files"
  shows "\<not> path_eq q (merged_path m)"
proof -
  have "group_ok k (Some m) es" using ok g by (auto simp: groups_ok_def)
  then obtain e where e: "e \<in> set es" by (cases es) (auto simp: group_ok_def)
  let ?p = "entry_path e"
  have "group_key ?p = Some (components (fst m), snd m)"
    using entry_in_files(2) [OF ok g e] merged_path_components(1) [OF ok g] by simp
  then obtain dir n where key: "usm_segment_key ?p = Some (dir, snd m, n)" and dir: "components dir = components (fst m)"
    by (auto simp: group_key_def)
  have "\<not> path_eq q (path_join dir (snd m @ ''.usm''))"
    using free entry_in_files(1) [OF ok g e] q key unfolding merge_names_free_def by fastforce
  then show ?thesis
    using usm_stem_plain [OF key] dir merged_path_components(2) [OF ok g] by (simp add: path_eq_def)
qed

lemma groups_apart:
  assumes ok: "groups_ok (rev files) gs" and free: "merge_names_free files"
    and g: "(k, name, es) \<in> set gs" and g': "(k', name', es') \<in> set gs" and ne: "k \<noteq> k'"
  shows "touched name es \<inter> touched name' es' = {}"
proof -
  have paths: "entry_path ` set es \<inter> entry_path ` set es' = {}"
    using entry_in_files(2) [OF ok g] entry_in_files(2) [OF ok g'] ne by fastforce
  have m: "merged_path m \<notin> entry_path ` set es'" if "name = Some m" for m
    using merged_path_not_input [OF ok free, of k m es] g that entry_in_files(1) [OF ok g'] by (force simp: path_eq_def)
  have m': "merged_path m \<notin> entry_path ` set es" if "name' = Some m" for m
    using merged_path_not_input [OF ok free, of k' m es'] g' that entry_in_files(1) [OF ok g] by (force simp: path_eq_def)
  have "merged_path m \<noteq> merged_path m'" if "name = Some m" "name' = Some m'" for m m'
    using merged_path_components [OF ok, of k m es] merged_path_components [OF ok, of k' m' es'] g g' that ne
    by (metis append_same_eq butlast_snoc component.inject last_snoc)
  with paths m m' show ?thesis by (cases name; cases name') (simp_all add: touched_def)
qed

lemma groups_separate:
  assumes ok: "groups_ok (rev files) gs" and free: "merge_names_free files"
  shows "sorted_wrt (\<lambda>g g'. group_touches g \<inter> group_touches g' = {}) gs"
proof -
  have "sorted_wrt (\<lambda>g g'. fst g < fst g') gs" using ok by (simp add: groups_ok_def btmap_wf_def sorted_wrt_map)
  then show ?thesis
  proof (rule sorted_wrt_mono_rel [rotated])
    fix g g' :: usm_group assume "g \<in> set gs" "g' \<in> set gs" "fst g < fst g'"
    then show "group_touches g \<inter> group_touches g' = {}"
      using groups_apart [OF ok free, of "fst g" "fst (snd g)" "snd (snd g)" "fst g'" "fst (snd g')" "snd (snd g')"]
      by (simp add: group_touches_def)
  qed
qed

lemma groups_free:
  assumes ok: "groups_ok (rev files) gs" and free: "merge_names_free files" and "distinct files" and g: "g \<in> set gs"
  shows "group_free g"
proof -
  have "distinct (concat (map (\<lambda>(_, _, es). map entry_path es) gs))"
    using ok assms(3) mset_eq_imp_distinct_iff [of "concat (map (\<lambda>(_, _, es). map entry_path es) gs)" "rev files"]
    by (simp add: groups_ok_def)
  moreover have "map entry_path (snd (snd g)) \<in> set (map (\<lambda>(_, _, es). map entry_path es) gs)"
    using g by (auto intro!: image_eqI [of _ _ g] split: prod.split)
  ultimately have "distinct (map entry_path (snd (snd g)))" by (simp add: distinct_concat_iff)
  moreover have "\<not> path_eq p (merged_path m)" if "fst (snd g) = Some m" "p \<in> entry_path ` set (snd (snd g))" for m p
    using merged_path_not_input [OF ok free, of "fst g" m "snd (snd g)" p] entry_in_files(1) [OF ok, of "fst g" "fst (snd g)" "snd (snd g)"]
      g that by (cases g) auto
  ultimately show ?thesis by (simp add: group_free_def)
qed

definition segment_number :: "string \<Rightarrow> nat" where
  "segment_number p = (case usm_segment_key p of Some (_, _, n) \<Rightarrow> n | None \<Rightarrow> 0)"

lemma contiguous_numbers:
  assumes "is_contiguous_segmented_usm es" and "\<forall>e\<in>set es. entry_ok (Some k) e"
  shows "map segment_number (map entry_path es) = [1..<Suc (length es)]"
proof (rule nth_equalityI)
  fix i assume "i < length (map segment_number (map entry_path es))"
  then have i: "i < length es" by simp
  obtain n j p where e: "es ! i = (n, j, p)" by (cases "es ! i") auto
  have "(i, es ! i) \<in> set (zip [0..<length es] es)" using i by (force simp: in_set_zip)
  then have "n = i + 1" using assms(1) e by (fastforce simp: is_contiguous_segmented_usm_def list_all_iff)
  moreover have "entry_ok (Some k) (n, j, p)" using assms(2) nth_mem [OF i] e by simp
  then have "segment_number p = n" by (auto simp: entry_ok_def segment_number_def group_key_def)
  ultimately show "map segment_number (map entry_path es) ! i = [1..<Suc (length es)] ! i"
    using i e by (simp add: entry_path_def nth_upt del: upt_Suc)
qed (simp del: upt_Suc)


definition demo_usm :: "bytes option \<Rightarrow> fs" where
  "demo_usm taken = \<lparr>fs_files = (\<lambda>_. None)(''v.usm'' := taken, ''v-2.usm'' \<mapsto> [3], ''v-1.usm'' \<mapsto> [1, 2]),
     fs_clock = 0, fs_fault = no_faults\<rparr>"

lemma demo_parts:
  "file_stem ''v-1.usm'' = Some ''v-1''" "file_stem ''v-2.usm'' = Some ''v-2''" "file_stem ''v.usm'' = Some ''v''"
  "rsplit_once CHR ''-'' ''v-1'' = Some (''v'', ''1'')" "rsplit_once CHR ''-'' ''v-2'' = Some (''v'', ''2'')"
  "rsplit_once CHR ''-'' ''v'' = None" "strip_duplicate ''1'' = ''1''" "strip_duplicate ''2'' = ''2''"
  "parent ''v-1.usm'' = Some ''''" "parent ''v-2.usm'' = Some ''''" "is_digit CHR ''1''" "is_digit CHR ''2''"
  by (code_simp, code_simp, code_simp, code_simp, code_simp, code_simp, code_simp, code_simp, code_simp, code_simp, code_simp, code_simp)

lemma demo_keys:
  "usm_segment_key ''v-1.usm'' = Some ('''', ''v'', 1)" "usm_segment_key ''v-2.usm'' = Some ('''', ''v'', 2)"
  "usm_segment_key ''v.usm'' = None"
proof -
  have "utf8_ok ''v-1''" "utf8_ok ''v-2''" "utf8_ok ''v''" by (simp_all add: utf8_ok_ascii)
  moreover have "show_nat 1 = ''1''" "show_nat 2 = ''2''" by (code_simp, code_simp)
  then have "parse_usize ''1'' = Some 1" "parse_usize ''2'' = Some 2"
    using parse_usize_show [of 1] parse_usize_show [of 2] by (simp_all add: usize_max_def)
  ultimately show "usm_segment_key ''v-1.usm'' = Some ('''', ''v'', 1)" "usm_segment_key ''v-2.usm'' = Some ('''', ''v'', 2)"
    "usm_segment_key ''v.usm'' = None"
    by (simp_all add: usm_segment_key_def demo_parts to_str_def)
qed

lemma demo_contiguous: "is_contiguous_segmented_usm [(Suc 0, i, p), (2, j, q)]"
  by (simp add: is_contiguous_segmented_usm_def)

lemma demo_names:
  "\<not> path_eq ''v-1.usm'' ''v.usm''" "\<not> path_eq ''v-2.usm'' ''v.usm''" "path_push '''' ''v.usm'' = ''v.usm''"
  by (code_simp, code_simp, code_simp)

lemma demo_merge:
  "merge_usm_segment_files '''' ''v'' [''v-1.usm'', ''v-2.usm''] (demo_usm taken) =
     (Inr (UsmPath ''v.usm''), \<lparr>fs_files = [''v.usm'' \<mapsto> [1, 2, 3]], fs_clock = 7, fs_fault = no_faults\<rparr>)"
  by (simp add: merge_usm_segment_files_def demo_names quiet_fs demo_usm_def fs_tick_def fun_eq_iff Let_def)


text \<open>When the merged name is taken, the file that had it is emptied although it is an input itself, and it is handed
  on twice: preparing \<open>v.usm\<close>, \<open>v-1.usm\<close> and \<open>v-2.usm\<close> leaves nothing of \<open>v.usm\<close>.\<close>

theorem usm_merge_overwrites_input:
  "let r = prepare_usm_processing_inputs [''v.usm'', ''v-1.usm'', ''v-2.usm''] (demo_usm (Some old)) in
   map_sum id ui_files (fst r) = Inr [UsmPath ''v.usm'', UsmPath ''v.usm''] \<and> fs_files (snd r) ''v.usm'' = Some [1, 2, 3]"
  by (simp add: prepare_usm_processing_inputs_def add_to_group_def demo_keys prepare_group_def sort_group_def
      demo_contiguous entry_path_def demo_merge Let_def)

section \<open>Searching for files\<close>

text \<open>What \<^verbatim>\<open>read_dir\<close> shows of a directory tree.\<close>

datatype dir_listing = Unreadable io_kind | Listing "dir_entry list"
and dir_entry =
    BrokenEntry io_kind
  | UntypedEntry string io_kind
  | FileEntry string
  | DirEntry string dir_listing

fun walk :: "string \<Rightarrow> dir_listing \<Rightarrow> export_error + string list"
  and walk_entries :: "string \<Rightarrow> dir_entry list \<Rightarrow> export_error + string list" where
  "walk dir (Unreadable source) = Inl (ExIo dir source)"
| "walk dir (Listing entries) = walk_entries dir entries"
| "walk_entries dir [] = Inr []"
| "walk_entries dir (BrokenEntry source # es) = Inl (ExIo dir source)"
| "walk_entries dir (UntypedEntry name source # es) = Inl (ExIo (path_join dir name) source)"
| "walk_entries dir (FileEntry name # es) =
     res_bind (walk_entries dir es) (\<lambda>rest. Inr (path_join dir name # rest))"
| "walk_entries dir (DirEntry name listing # es) =
     res_bind (walk (path_join dir name) listing) (\<lambda>below.
     res_bind (walk_entries dir es) (\<lambda>rest. Inr (below @ rest)))"

definition scan_all_files :: "string \<Rightarrow> dir_listing \<Rightarrow> export_error + string list" where
  "scan_all_files dir listing = walk dir listing"

definition has_extension :: "string \<Rightarrow> string \<Rightarrow> bool" where
  "has_extension ext path =
     (case Option.bind (extension path) to_str of None \<Rightarrow> False | Some value \<Rightarrow> eq_ignore_ascii_case value ext)"

definition find_files_by_extension :: "string \<Rightarrow> dir_listing \<Rightarrow> string \<Rightarrow> export_error + string list" where
  "find_files_by_extension dir listing ext = res_bind (walk dir listing) (\<lambda>files. Inr (filter (has_extension (to_lower ext)) files))"

definition post_process_files_by_extension ::
    "string \<Rightarrow> dir_listing \<Rightarrow> bool \<Rightarrow> string list \<Rightarrow> string \<Rightarrow> fs \<Rightarrow> export_error + string list" where
  "post_process_files_by_extension export_path listing scoped_post_process scoped_files ext f =
     (if \<not> scoped_post_process then find_files_by_extension export_path listing ext
      else Inr (filter (\<lambda>path. fs_files f path \<noteq> None) (filter (has_extension ext) scoped_files)))"

text \<open>Everything a search finds lies under the directory it started from, when the names the directory lists
  are names.\<close>

fun names_plain :: "dir_listing \<Rightarrow> bool" and entries_plain :: "dir_entry list \<Rightarrow> bool" where
  "names_plain (Unreadable _) = True"
| "names_plain (Listing entries) = entries_plain entries"
| "entries_plain [] = True"
| "entries_plain (FileEntry name # es) = (plain_name name \<and> entries_plain es)"
| "entries_plain (DirEntry name listing # es) = (plain_name name \<and> names_plain listing \<and> entries_plain es)"
| "entries_plain (_ # es) = entries_plain es"

lemma walk_stays_below:
  "walk dir listing = Inr files \<Longrightarrow> names_plain listing \<Longrightarrow> p \<in> set files \<Longrightarrow> path_starts_with p dir"
  "walk_entries dir es = Inr files \<Longrightarrow> entries_plain es \<Longrightarrow> p \<in> set files \<Longrightarrow> path_starts_with p dir"
proof (induction dir listing and dir es arbitrary: files and files rule: walk_walk_entries.induct)
  case (7 dir name listing es)
  from 7(3) obtain below rest where w: "walk (path_join dir name) listing = Inr below" "walk_entries dir es = Inr rest"
    "files = below @ rest" by (auto simp: res_simps)
  have "path_starts_with p dir" if "p \<in> set below"
    using 7(1) [OF w(1) _ that] 7(4) by (auto simp: path_starts_with_def starts_with_iff)
  then show ?case using 7(2) [OF w(2)] 7(4,5) w(3) by auto
qed (auto simp: res_simps path_starts_with_def)

lemma found_files_below:
  "find_files_by_extension dir listing ext = Inr files \<Longrightarrow> names_plain listing \<Longrightarrow> p \<in> set files \<Longrightarrow> path_starts_with p dir"
  using walk_stays_below(1) by (fastforce simp: find_files_by_extension_def res_simps)

end
