(* ===== verification/Export_Names.thy ===== *)
theory Export_Names
  imports Usm_Inputs
begin

text \<open>
  Names of types, files and extensions in \<^verbatim>\<open>src/core/export_pipeline/implementation\<close> (\<^verbatim>\<open>paths.rs\<close> and the selectors of
  \<^verbatim>\<open>assetstudio.rs\<close>): which objects are read, in which form, and how their files may be called.
\<close>

section \<open>Characters\<close>

text \<open>The characters of a text, each as its UTF-8 bytes.\<close>

function utf8_chars :: "string \<Rightarrow> string list" where
  "utf8_chars s =
     (if s = [] then [] else let n = snd (utf8_step (map of_char s)) in take n s # utf8_chars (drop n s))"
  by pat_completeness auto
termination
  by (relation "measure length") (auto simp: utf8_step_pos)

declare utf8_chars.simps [simp del]

lemma concat_utf8_chars [simp]: "concat (utf8_chars s) = s"
proof (induction s rule: utf8_chars.induct)
  case (1 s)
  then show ?case by (subst utf8_chars.simps) (auto simp: Let_def)
qed

text \<open>The tables of \<^verbatim>\<open>char::to_lowercase\<close> and \<^verbatim>\<open>str::to_lowercase\<close> are arguments; on ASCII text they fold the letters.\<close>

record case_tables =
  ct_char :: "string \<Rightarrow> string"
  ct_str :: "string \<Rightarrow> string"

definition is_ascii :: "string \<Rightarrow> bool" where
  "is_ascii s = list_all (\<lambda>c. (of_char c :: nat) < 128) s"

definition ascii_case :: "case_tables \<Rightarrow> bool" where
  "ascii_case ct \<longleftrightarrow> (\<forall>c. (of_char c :: nat) < 128 \<longrightarrow> ct_char ct [c] = [ascii_lower c]) \<and>
     (\<forall>s. is_ascii s \<longrightarrow> ct_str ct s = to_lower s)"

definition is_whitespace :: "string \<Rightarrow> bool" where
  "is_whitespace c \<longleftrightarrow> c \<noteq> [] \<and> ws_len (map of_char c) = length c"

text \<open>\<^verbatim>\<open>char::is_control\<close>: the code points below 32 and from 127 to 159.\<close>

definition is_control :: "string \<Rightarrow> bool" where
  "is_control c =
     (case map of_char c :: nat list of
        [a] \<Rightarrow> a < 32 \<or> a = 127
      | [a, b] \<Rightarrow> a = 194 \<and> 128 \<le> b \<and> b \<le> 159
      | _ \<Rightarrow> False)"

section \<open>Types\<close>

definition normalize_assetstudio_type_name :: "case_tables \<Rightarrow> string \<Rightarrow> string" where
  "normalize_assetstudio_type_name ct value =
     concat (map (ct_char ct) (filter (\<lambda>ch. ch \<noteq> ''_'' \<and> ch \<noteq> ''-'' \<and> \<not> is_whitespace ch) (utf8_chars (trim value))))"

definition normalize_semantic_path_component :: "case_tables \<Rightarrow> string \<Rightarrow> string" where
  "normalize_semantic_path_component ct value =
     concat (map (ct_char ct) (filter (\<lambda>ch. ch \<noteq> ''_'' \<and> ch \<noteq> ''-'' \<and> \<not> is_whitespace ch) (utf8_chars (trim value))))"

definition selector_types :: "(string \<times> string list) list" where
  "selector_types =
     [(''tex2d'', [''texture2d'']), (''texture2d'', [''texture2d'']),
      (''tex2darray'', [''texture2darray'', ''texture2darrayimage'']),
      (''texture2darray'', [''texture2darray'', ''texture2darrayimage'']),
      (''sprite'', [''sprite'']), (''textasset'', [''textasset'']),
      (''monobehaviour'', [''monobehaviour'']), (''monobehavior'', [''monobehaviour'']),
      (''audio'', [''audioclip'']), (''audioclip'', [''audioclip'']),
      (''video'', [''videoclip'']), (''videoclip'', [''videoclip'']),
      (''movietexture'', [''movietexture'']), (''font'', [''font'']),
      (''shader'', [''shader'', ''shadervariantcollection'']), (''mesh'', [''mesh'']),
      (''animator'', [''animator'', ''animatorcontroller''])]"

definition assetstudio_type_selector_matches :: "case_tables \<Rightarrow> string \<Rightarrow> string \<Rightarrow> bool" where
  "assetstudio_type_selector_matches ct selector asset_type =
     (let selector = trim selector in
      if eq_ignore_ascii_case selector ''all'' then True
      else let normalized_selector = normalize_assetstudio_type_name ct selector;
               normalized_asset_type = normalize_assetstudio_type_name ct asset_type
           in normalized_selector = normalized_asset_type \<or>
              (case map_of selector_types normalized_selector of
                 Some types \<Rightarrow> normalized_asset_type \<in> set types | None \<Rightarrow> False))"

definition assetstudio_object_mode_supported_type :: "string \<Rightarrow> bool" where
  "assetstudio_object_mode_supported_type asset_type \<longleftrightarrow> trim asset_type \<noteq> []"

definition assetstudio_object_mode_known_unreadable_type :: "string \<Rightarrow> bool" where
  "assetstudio_object_mode_known_unreadable_type asset_type \<longleftrightarrow>
     asset_type \<in> set
       [''Animation'', ''AnimationClip'', ''AnimatorController'', ''AssetBundle'', ''AudioListener'', ''Avatar'',
        ''Camera'', ''Canvas'', ''CanvasRenderer'', ''Cubemap'', ''GameObject'', ''Material'', ''MeshFilter'',
        ''MeshRenderer'', ''MonoScript'', ''ParticleSystem'', ''ParticleSystemRenderer'', ''PlayableDirector'',
        ''RectTransform'', ''ShaderVariantCollection'', ''SkinnedMeshRenderer'', ''SortingGroup'', ''SpriteMask'',
        ''SpriteRenderer'', ''TextMesh'', ''Texture3D'', ''Transform'']"

definition opt_any :: "('a \<Rightarrow> bool) \<Rightarrow> 'a option \<Rightarrow> bool" where
  "opt_any P x = (case x of None \<Rightarrow> False | Some v \<Rightarrow> P v)"

definition is_native_image_asset :: "case_tables \<Rightarrow> asset_info \<Rightarrow> bool" where
  "is_native_image_asset ct asset =
     opt_any (\<lambda>asset_type.
       assetstudio_type_selector_matches ct ''Texture2D'' asset_type \<or>
       assetstudio_type_selector_matches ct ''Texture2DArray'' asset_type \<or>
       assetstudio_type_selector_matches ct ''Sprite'' asset_type) (ai_asset_type asset)"

definition is_native_object_supported_asset :: "asset_info \<Rightarrow> bool" where
  "is_native_object_supported_asset asset = opt_any assetstudio_object_mode_supported_type (ai_asset_type asset)"

definition assetstudio_object_mode_type_enabled :: "case_tables \<Rightarrow> asset_info \<Rightarrow> string list \<Rightarrow> bool" where
  "assetstudio_object_mode_type_enabled ct asset configured_asset_types =
     opt_any (\<lambda>asset_type. list_ex (\<lambda>configured. assetstudio_type_selector_matches ct configured asset_type)
       configured_asset_types) (ai_asset_type asset)"

section \<open>How an object is read\<close>

definition normalize_native_read_kind :: "case_tables \<Rightarrow> string \<Rightarrow> string" where
  "normalize_native_read_kind ct kind = ct_str ct (trim kind)"

definition default_native_read_kind :: "case_tables \<Rightarrow> string \<Rightarrow> string" where
  "default_native_read_kind ct asset_type =
     unwrap_or ''typetree_json''
       (map_of
         [(''texture2d'', ''image''), (''texture2darray'', ''image''), (''texture2darrayimage'', ''image''),
          (''sprite'', ''image''), (''textasset'', ''text_bytes''), (''monobehaviour'', ''typetree_json''),
          (''monobehavior'', ''typetree_json''), (''audioclip'', ''audio''), (''videoclip'', ''video''),
          (''movietexture'', ''video''), (''font'', ''font''), (''shader'', ''shader''),
          (''shadervariantcollection'', ''shader''), (''mesh'', ''obj''), (''animator'', ''fbx'')]
         (normalize_assetstudio_type_name ct asset_type))"

definition is_all_selector :: "string \<Rightarrow> bool" where
  "is_all_selector selector = eq_ignore_ascii_case (trim selector) ''all''"

definition native_read_kind_for_asset :: "case_tables \<Rightarrow> asset_info \<Rightarrow> (string, string) btmap \<Rightarrow> string" where
  "native_read_kind_for_asset ct asset configured_kinds =
     (let asset_type = unwrap_or [] (ai_asset_type asset) in
      case find (\<lambda>(selector, _). \<not> is_all_selector selector \<and> assetstudio_type_selector_matches ct selector asset_type)
             configured_kinds of
        Some (_, kind) \<Rightarrow> normalize_native_read_kind ct kind
      | None \<Rightarrow>
          (case find (\<lambda>(selector, _). is_all_selector selector) configured_kinds of
             Some (_, kind) \<Rightarrow> normalize_native_read_kind ct kind
           | None \<Rightarrow> default_native_read_kind ct asset_type))"

definition NATIVE_AOT_DEFAULT_IMAGE_FORMAT :: string where "NATIVE_AOT_DEFAULT_IMAGE_FORMAT = ''raw_rgba''"
definition NATIVE_AOT_IMAGE_SURROGATE_FORMAT :: string where "NATIVE_AOT_IMAGE_SURROGATE_FORMAT = ''bmp''"

definition native_image_format_for_asset :: "asset_info \<Rightarrow> string \<Rightarrow> string" where
  "native_image_format_for_asset asset configured = NATIVE_AOT_DEFAULT_IMAGE_FORMAT"

definition is_native_aot_non_bmp_image_read :: "case_tables \<Rightarrow> asset_info \<Rightarrow> string \<Rightarrow> bool" where
  "is_native_aot_non_bmp_image_read ct asset image_format \<longleftrightarrow>
     is_native_image_asset ct asset \<and> native_image_format_for_asset asset image_format \<noteq> ''bmp''"

section \<open>File names\<close>

definition ASSETSTUDIO_MAX_PUBLIC_FILE_STEM_CHARS :: nat where "ASSETSTUDIO_MAX_PUBLIC_FILE_STEM_CHARS = 220"

definition unsafe_chars :: "string list" where
  "unsafe_chars = [''<'', ''>'', '':'', [CHR 0x22], ''/'', [CHR 0x5C], ''|'', ''?'', ''*'']"

definition safe_char :: "string \<Rightarrow> string" where
  "safe_char ch = (if ch \<in> set unsafe_chars \<or> is_control ch then ''_'' else ch)"

text \<open>The end of the text after the clone markers at its end are taken off, and how many there were.\<close>

function strip_clones :: "string \<Rightarrow> nat \<Rightarrow> string \<times> nat" where
  "strip_clones value n =
     (if ends_with ''(Clone)'' value then strip_clones (take (length value - 7) value) (n + 1) else (value, n))"
  by pat_completeness auto
termination
  by (relation "measure (\<lambda>(v, _). length v)") (auto simp: ends_with_def)

declare strip_clones.simps [simp del]

definition trim_end :: "string \<Rightarrow> string" where
  "trim_end s = rev (trim_gen ws_len_rev (rev s))"

definition compress_repeated_clone_suffixes :: "string \<Rightarrow> string" where
  "compress_repeated_clone_suffixes value =
     (case strip_clones value 0 of (rest, clones) \<Rightarrow>
        if clones \<le> 1 then value else trim_end rest @ ''__clone'' @ show_nat clones)"

definition shorten_assetstudio_public_file_stem :: "string \<Rightarrow> string" where
  "shorten_assetstudio_public_file_stem value =
     (if length (utf8_chars value) \<le> ASSETSTUDIO_MAX_PUBLIC_FILE_STEM_CHARS then value
      else concat (take (ASSETSTUDIO_MAX_PUBLIC_FILE_STEM_CHARS - length ''__truncated'') (utf8_chars value)) @ ''__truncated'')"

definition assetstudio_fix_file_name :: "string \<Rightarrow> string" where
  "assetstudio_fix_file_name value =
     shorten_assetstudio_public_file_stem (compress_repeated_clone_suffixes (concat (map safe_char (utf8_chars value))))"

definition fixed_name :: "string option \<Rightarrow> string option" where
  "fixed_name x = opt_filter (\<lambda>value. trim value \<noteq> []) (map_option assetstudio_fix_file_name x)"

definition assetstudio_semantic_file_stem :: "asset_info \<Rightarrow> string" where
  "assetstudio_semantic_file_stem asset =
     unwrap_or ''asset''
       (opt_or (fixed_name (ai_name asset)) (opt_or (fixed_name (ai_unique_id asset)) (fixed_name (ai_asset_type asset))))"

section \<open>Extensions\<close>

definition static_known_payload_extension :: "case_tables \<Rightarrow> string \<Rightarrow> string option" where
  "static_known_payload_extension ct ext =
     map_of
       [(''bytes'', ''bytes''), (''dat'', ''dat''), (''json'', ''json''), (''lua'', ''lua''), (''txt'', ''txt''),
        (''bmp'', ''bmp''), (''png'', ''png''), (''tga'', ''tga''), (''jpg'', ''jpg''), (''jpeg'', ''jpg''),
        (''webp'', ''webp''), (''wav'', ''wav''), (''mp3'', ''mp3''), (''flac'', ''flac''), (''ogg'', ''ogv''),
        (''ogv'', ''ogv''), (''ttf'', ''ttf''), (''otf'', ''otf''), (''shader'', ''shader''), (''obj'', ''obj''),
        (''fbx'', ''fbx''), (''bin'', ''bin'')]
       (ct_str ct (trim_start_matches CHR ''.'' (trim ext)))"

definition default_extension_for_asset :: "case_tables \<Rightarrow> asset_info \<Rightarrow> string" where
  "default_extension_for_asset ct asset =
     unwrap_or ''dat''
       (map_of
         [(''textasset'', ''bytes''), (''monobehaviour'', ''json''), (''monobehavior'', ''json''), (''shader'', ''shader''),
          (''shadervariantcollection'', ''shader''), (''mesh'', ''obj''), (''animator'', ''fbx'')]
         (unwrap_or [] (map_option (normalize_assetstudio_type_name ct) (ai_asset_type asset))))"

definition fixed_extensions :: "(string \<times> string) list" where
  "fixed_extensions =
     [(''raw'', ''dat''), (''typetree_json'', ''json''), (''image_bmp'', NATIVE_AOT_IMAGE_SURROGATE_FORMAT),
      (''image_raw_rgba'', ''png''), (''image_png'', ''png''), (''image_tga'', ''tga''), (''image_jpeg'', ''jpg''),
      (''image_webp'', ''webp''), (''image_array_bundle_bmp'', []), (''image_array_bundle_png'', []),
      (''image_array_bundle_tga'', []), (''image_array_bundle_jpeg'', []), (''image_array_bundle_webp'', []),
      (''image_array_bundle_raw_rgba'', []), (''animator_bundle_fbx'', []), (''movie_ogv'', ''ogv''),
      (''shader_text'', ''shader''), (''mesh_obj'', ''obj'')]"

definition suggested_extensions :: "(string \<times> string) list" where
  "suggested_extensions = [(''text_bytes'', ''bytes''), (''audio_raw'', ''wav''), (''video_raw'', ''bin''), (''font'', ''ttf'')]"

definition native_object_output_extension :: "case_tables \<Rightarrow> asset_info \<Rightarrow> string option \<Rightarrow> string option \<Rightarrow> string" where
  "native_object_output_extension ct asset payload_kind suggested_extension =
     (let kind = ct_str ct (trim (unwrap_or [] payload_kind)) in
      case map_of fixed_extensions kind of
        Some ext \<Rightarrow> ext
      | None \<Rightarrow>
          unwrap_or (unwrap_or (default_extension_for_asset ct asset) (map_of suggested_extensions kind))
            (Option.bind suggested_extension (static_known_payload_extension ct)))"

section \<open>Safe names\<close>

lemma utf8_step_ascii_byte:
  assumes "bs ! i < 128" and "i < snd (utf8_step bs)" and "i < length bs"
  shows "snd (utf8_step bs) = 1"
proof -
  have "snd (utf8_step bs) \<le> 4" by (simp add: utf8_step_def Let_def)
  then consider "i = 0" | "i = 1" | "i = 2" | "i = 3" using assms(2) by linarith
  then show ?thesis
    using assms
    by cases (auto simp: utf8_step_def Let_def byte_at_def cont_byte_def second_ok_def split: if_splits)
qed

lemma ascii_char_alone:
  "ch \<in> set (utf8_chars s) \<Longrightarrow> c \<in> set ch \<Longrightarrow> (of_char c :: nat) < 128 \<Longrightarrow> ch = [c]"
proof (induction s rule: utf8_chars.induct)
  case (1 s)
  let ?bs = "map of_char s :: nat list" and ?n = "snd (utf8_step (map of_char s :: nat list))"
  from 1(2) have s: "s \<noteq> []" by (subst (asm) utf8_chars.simps) (auto split: if_splits)
  then have "ch = take ?n s \<or> ch \<in> set (utf8_chars (drop ?n s))"
    using 1(2) by (subst (asm) utf8_chars.simps) (auto simp: Let_def)
  then show ?case
  proof
    assume ch: "ch = take ?n s"
    with 1(3) obtain i where i: "i < ?n" "i < length s" "s ! i = c" by (auto simp: in_set_conv_nth)
    with 1(4) utf8_step_ascii_byte [of ?bs i] have "?n = 1" by simp
    with ch i s show ?thesis by (cases s) auto
  qed (use 1(1) [OF s] 1(3,4) in auto)
qed

lemma safe_char_no_slash: "ch \<in> set (utf8_chars s) \<Longrightarrow> CHR ''/'' \<notin> set (safe_char ch)"
  using ascii_char_alone [of ch s "CHR ''/''"] by (auto simp: safe_char_def unsafe_chars_def)

lemma strip_clones_prefix: "set (fst (strip_clones v n)) \<subseteq> set v"
proof (induction v n rule: strip_clones.induct)
  case (1 v n)
  then show ?case by (subst strip_clones.simps) (auto dest: in_set_takeD)
qed

lemma trim_end_subset: "set (trim_end s) \<subseteq> set s"
proof -
  obtain n where "trim_gen ws_len_rev (rev s) = drop n (rev s)" using trim_gen_suffix by blast
  then show ?thesis using set_drop_subset [of n "rev s"] by (simp add: trim_end_def)
qed

lemma slash_not_digit: "CHR ''/'' \<notin> set (show_nat n)"
  using show_nat_digits [of n] by (auto simp: list_all_iff is_digit_def)

lemma compress_no_slash: "CHR ''/'' \<notin> set v \<Longrightarrow> CHR ''/'' \<notin> set (compress_repeated_clone_suffixes v)"
  using strip_clones_prefix [of v 0] trim_end_subset [of "fst (strip_clones v 0)"] slash_not_digit
  by (cases "strip_clones v 0") (auto simp: compress_repeated_clone_suffixes_def)

lemma shorten_no_slash: "CHR ''/'' \<notin> set v \<Longrightarrow> CHR ''/'' \<notin> set (shorten_assetstudio_public_file_stem v)"
proof -
  assume v: "CHR ''/'' \<notin> set v"
  have "set (concat (take n (utf8_chars v))) \<subseteq> set (concat (utf8_chars v))" for n
    using set_take_subset [of n "utf8_chars v"] unfolding set_concat by blast
  then have "set (concat (take n (utf8_chars v))) \<subseteq> set v" for n by simp
  with v show ?thesis by (auto simp: shorten_assetstudio_public_file_stem_def)
qed

lemma fix_file_name_no_slash: "CHR ''/'' \<notin> set (assetstudio_fix_file_name v)"
proof -
  have "CHR ''/'' \<notin> set (concat (map safe_char (utf8_chars v)))" using safe_char_no_slash by fastforce
  then show ?thesis by (simp add: assetstudio_fix_file_name_def compress_no_slash shorten_no_slash)
qed

lemma semantic_stem_no_slash: "CHR ''/'' \<notin> set (assetstudio_semantic_file_stem asset)"
  using fix_file_name_no_slash
  by (auto simp: assetstudio_semantic_file_stem_def fixed_name_def opt_or_def opt_filter_def unwrap_or_def split: option.splits)

lemma semantic_stem_nonempty: "assetstudio_semantic_file_stem asset \<noteq> []"
  by (auto simp: assetstudio_semantic_file_stem_def fixed_name_def opt_or_def opt_filter_def unwrap_or_def split: option.splits)

lemma output_extension_plain:
  "native_object_output_extension ct asset kind suggested = [] \<or>
   plain_name (native_object_output_extension ct asset kind suggested) \<and>
   CHR ''.'' \<notin> set (native_object_output_extension ct asset kind suggested)"
proof -
  define ok where "ok e \<longleftrightarrow> e = [] \<or> plain_name e \<and> CHR ''.'' \<notin> set e" for e
  have tables: "list_all (\<lambda>(_, e). ok e) fixed_extensions" "list_all (\<lambda>(_, e). ok e) suggested_extensions"
    by (simp_all add: ok_def plain_name_def fixed_extensions_def suggested_extensions_def NATIVE_AOT_IMAGE_SURROGATE_FORMAT_def)
  have known: "ok e" if "static_known_payload_extension ct x = Some e" for x e
    using that unfolding static_known_payload_extension_def ok_def by (drule_tac map_of_SomeD) (auto simp: plain_name_def)
  have dflt: "ok (default_extension_for_asset ct asset)"
    unfolding default_extension_for_asset_def ok_def unwrap_or_def
    by (auto simp: plain_name_def split: option.splits if_splits dest!: map_of_SomeD)
  have table: "ok e" if "map_of t k = Some e" "list_all (\<lambda>(_, e). ok e) t" for t and k :: string and e
    using that by (auto simp: list_all_iff dest!: map_of_SomeD)
  have "ok (unwrap_or (default_extension_for_asset ct asset) (map_of suggested_extensions k))" for k
    using table [OF _ tables(2), of k] dflt by (simp add: unwrap_or_def split: option.split)
  moreover have "ok (unwrap_or d (Option.bind suggested (static_known_payload_extension ct)))" if "ok d" for d
    using known that by (cases suggested) (auto simp: unwrap_or_def split: option.split)
  ultimately have "ok (native_object_output_extension ct asset kind suggested)"
    using table [OF _ tables(1)] unfolding native_object_output_extension_def Let_def by (auto split: option.split)
  then show ?thesis by (simp add: ok_def)
qed

end
