(* ===== verification/Export_Paths.thy ===== *)
theory Export_Paths
  imports Export_Names
begin

text \<open>
  Where an exported object is written (\<^verbatim>\<open>src/core/export_pipeline/implementation/paths.rs\<close> and the path functions of
  \<^verbatim>\<open>payload.rs\<close>). Containers, names and bundle entries come from the game's files; the section at the end shows which
  of them stay under the output directory.
\<close>

section \<open>Container paths\<close>

definition strip_container_prefix :: "string \<Rightarrow> string \<Rightarrow> string" where
  "strip_container_prefix container strip_path_prefix =
     (let normalized = trim_start_matches CHR ''/'' (replace_char (CHR 0x5C) (CHR ''/'') container);
          prefix = trim_matches CHR ''/'' (replace_char (CHR 0x5C) (CHR ''/'') strip_path_prefix)
      in unwrap_or normalized
           (opt_filter (\<lambda>value. value \<noteq> [])
             (map_option (trim_start_matches CHR ''/'') (strip_prefix prefix normalized))))"

definition path_text :: "string option \<Rightarrow> string option" where
  "path_text x = Option.bind x to_str"

definition with_file_name :: "string \<Rightarrow> string \<Rightarrow> string" where
  "with_file_name p name = path_push (if file_name p \<noteq> None then unwrap_or [] (parent p) else p) name"

definition with_stem :: "string \<Rightarrow> string \<Rightarrow> string option \<Rightarrow> string" where
  "with_stem dir stem ext =
     (case opt_filter (\<lambda>e. e \<noteq> []) ext of
        Some e \<Rightarrow> path_join dir (stem @ ''.'' @ e)
      | None \<Rightarrow> path_join dir stem)"

definition named_flat_subasset_output_path :: "string \<Rightarrow> asset_info \<Rightarrow> string" where
  "named_flat_subasset_output_path default_path asset =
     with_stem (unwrap_or [] (parent default_path)) (assetstudio_semantic_file_stem asset) (path_text (extension default_path))"

definition named_subasset_output_path :: "string \<Rightarrow> asset_info \<Rightarrow> string \<Rightarrow> string" where
  "named_subasset_output_path default_path asset semantic_dir =
     (let container_stem = unwrap_or ''asset'' (opt_filter (\<lambda>s. s \<noteq> []) (path_text (file_stem default_path)));
          object_dir = path_join (path_join (unwrap_or [] (parent default_path)) (container_stem @ ''.assets'')) semantic_dir
      in with_stem object_dir (assetstudio_semantic_file_stem asset) (path_text (extension default_path)))"

definition is_member_cutout_container :: "asset_info \<Rightarrow> bool" where
  "is_member_cutout_container asset =
     opt_any (\<lambda>container. contains_sub ''/character/member_cutout'' (replace_char (CHR 0x5C) (CHR ''/'') container))
       (ai_container asset)"

definition member_cutout_sprite_output_path :: "string \<Rightarrow> asset_info \<Rightarrow> string" where
  "member_cutout_sprite_output_path default_path asset =
     (case opt_filter (\<lambda>s. s \<noteq> []) (path_text (file_stem default_path)) of
        None \<Rightarrow> default_path
      | Some stem \<Rightarrow>
          let object_dir = path_join (path_join (unwrap_or [] (parent default_path)) (stem @ ''.assets'')) ''sprite''
          in with_stem object_dir (assetstudio_semantic_file_stem asset) (path_text (extension default_path)))"

definition mono_behaviour_can_use_container_path :: "case_tables \<Rightarrow> string \<Rightarrow> asset_info \<Rightarrow> bool" where
  "mono_behaviour_can_use_container_path ct default_path asset =
     (case (opt_filter (\<lambda>s. s \<noteq> []) (path_text (file_stem default_path)),
            opt_filter (\<lambda>s. s \<noteq> []) (map_option assetstudio_fix_file_name (ai_name asset))) of
        (Some container_stem, Some asset_stem) \<Rightarrow>
          normalize_semantic_path_component ct container_stem = normalize_semantic_path_component ct asset_stem
      | _ \<Rightarrow> False)"

definition semantic_dirs :: "(string \<times> string) list" where
  "semantic_dirs =
     [(''sprite'', ''sprite''), (''animator'', ''animator''), (''monobehaviour'', ''monobehaviour''),
      (''monobehavior'', ''monobehaviour''), (''texture2darray'', ''texture2d_array''),
      (''texture2darrayimage'', ''texture2d_array''), (''monoscript'', ''monoscript''), (''gameobject'', ''gameobject''),
      (''material'', ''material''), (''transform'', ''transform''), (''recttransform'', ''recttransform''),
      (''particlesystem'', ''particle_system''), (''particlesystemrenderer'', ''particle_system_renderer''),
      (''spriterenderer'', ''sprite_renderer''), (''spritemask'', ''sprite_mask''), (''meshfilter'', ''mesh_filter''),
      (''meshrenderer'', ''mesh_renderer''), (''skinnedmeshrenderer'', ''skinned_mesh_renderer''),
      (''playabledirector'', ''playable_director''), (''canvas'', ''canvas''), (''canvasrenderer'', ''canvas_renderer''),
      (''camera'', ''camera''), (''avatar'', ''avatar''), (''audiolistener'', ''audio_listener''),
      (''animation'', ''animation''), (''animationclip'', ''animation_clip''), (''textmesh'', ''text_mesh''),
      (''sortinggroup'', ''sorting_group''), (''cubemap'', ''cubemap''), (''texture3d'', ''texture3d''),
      (''shader'', ''shader''), (''shadervariantcollection'', ''shader'')]"

definition semantic_assetstudio_object_output_path :: "case_tables \<Rightarrow> string \<Rightarrow> asset_info \<Rightarrow> string" where
  "semantic_assetstudio_object_output_path ct default_path asset =
     (let normalized = unwrap_or [] (map_option (normalize_assetstudio_type_name ct) (ai_asset_type asset)) in
      if is_member_cutout_container asset \<and> normalized = ''sprite'' then member_cutout_sprite_output_path default_path asset
      else if is_member_cutout_container asset \<and> (normalized = ''texture2d'' \<or> normalized = ''texture2dimage'') then default_path
      else if (normalized = ''monobehaviour'' \<or> normalized = ''monobehavior'') \<and>
              mono_behaviour_can_use_container_path ct default_path asset then default_path
      else if normalized = ''mesh'' then default_path
      else if normalized = ''font'' then named_flat_subasset_output_path default_path asset
      else case map_of semantic_dirs normalized of
             Some semantic_dir \<Rightarrow> named_subasset_output_path default_path asset semantic_dir
           | None \<Rightarrow> default_path)"

definition container_of :: "asset_info \<Rightarrow> string" where
  "container_of asset =
     unwrap_or (unwrap_or ''asset'' (ai_name asset)) (opt_filter (\<lambda>value. trim value \<noteq> []) (ai_container asset))"

definition native_object_output_path ::
    "case_tables \<Rightarrow> string \<Rightarrow> string \<Rightarrow> string \<Rightarrow> bool \<Rightarrow> asset_info \<Rightarrow> string option \<Rightarrow> string option \<Rightarrow> string" where
  "native_object_output_path ct output_dir export_path strip_path_prefix by_category asset payload_kind suggested_extension =
     (let relative = strip_container_prefix (container_of asset) strip_path_prefix;
          path = (if by_category then path_join output_dir relative
                  else path_join (path_join output_dir export_path)
                         (unwrap_or (assetstudio_semantic_file_stem asset) (file_name relative)));
          ext = native_object_output_extension ct asset payload_kind suggested_extension;
          path = (if ext \<noteq> [] then set_extension path (trim_start_matches CHR ''.'' ext) else path)
      in semantic_assetstudio_object_output_path ct path asset)"

section \<open>Entries of payload bundles\<close>

definition normal_names :: "component list \<Rightarrow> string list" where
  "normal_names cs = List.map_filter (\<lambda>c. case c of Normal s \<Rightarrow> Some s | _ \<Rightarrow> None) cs"

definition safe_payload_bundle_path :: "string \<Rightarrow> string" where
  "safe_payload_bundle_path name =
     (let safe = foldl path_push [] (normal_names (components name)) in
      if safe = [] then ''payload.bin'' else safe)"

definition payload_bundle_entry_target :: "string \<Rightarrow> string \<Rightarrow> string" where
  "payload_bundle_entry_target target entry_name =
     (let stem = unwrap_or ''asset'' (opt_filter (\<lambda>s. s \<noteq> []) (path_text (file_stem target))) in
      path_join (path_join (unwrap_or [] (parent target)) stem) (safe_payload_bundle_path entry_name))"

section \<open>Type trees of whole bundles\<close>

text \<open>What the code looks at in the JSON of an asset bundle; parsing is an argument.\<close>

record bundle_json =
  ab_asset_bundle_name :: "string option"
  ab_name :: "string option"
  ab_container_keys :: "string option list option"

definition assetbundle_container_category :: "string \<Rightarrow> string option" where
  "assetbundle_container_category relative =
     (case components relative of
        Normal value # _ \<Rightarrow>
          if \<not> utf8_ok value then None
          else if eq_ignore_ascii_case value ''startapp'' then Some ''startapp''
          else if eq_ignore_ascii_case value ''ondemand'' then Some ''ondemand'' else None
      | _ \<Rightarrow> None)"

definition bundle_containers :: "string \<Rightarrow> bundle_json \<Rightarrow> string list" where
  "bundle_containers strip_path_prefix data =
     map (\<lambda>key. strip_container_prefix key strip_path_prefix)
       (List.map_filter id (unwrap_or [] (ab_container_keys data)))"

definition bundle_json_path :: "string \<Rightarrow> string \<Rightarrow> string \<Rightarrow> bool \<Rightarrow> asset_info \<Rightarrow> bundle_json \<Rightarrow> string" where
  "bundle_json_path output_dir export_path strip_path_prefix by_category asset data =
     (let nonblank = opt_filter (\<lambda>value. trim value \<noteq> []);
          bundle_name = unwrap_or export_path
            (opt_or (nonblank (ab_asset_bundle_name data)) (opt_or (nonblank (ab_name data)) (ai_name asset)));
          bundle_path = safe_payload_bundle_path bundle_name
      in if \<not> by_category then path_join (path_join (path_join output_dir export_path) bundle_path) ''_bundle.json''
         else
           let relatives = bundle_containers strip_path_prefix data;
               categories = remdups (List.map_filter assetbundle_container_category relatives);
               parents = List.map_filter (\<lambda>r. opt_filter (\<lambda>p. p \<noteq> []) (parent r)) relatives
           in case categories of
                category # others \<Rightarrow>
                  if others \<noteq> [] then path_join (path_join output_dir bundle_path) ''_bundle.json''
                  else path_join (path_join (path_join output_dir category) bundle_path) ''_bundle.json''
              | [] \<Rightarrow>
                  (case parents of
                     p # others \<Rightarrow>
                       if list_all (path_eq p) others then path_join (path_join output_dir p) ''_bundle.json''
                       else path_join (path_join output_dir bundle_path) ''_bundle.json''
                   | [] \<Rightarrow> path_join (path_join output_dir bundle_path) ''_bundle.json''))"

definition assetbundle_typetree_output_path ::
    "(bytes \<Rightarrow> string + bundle_json) \<Rightarrow> case_tables \<Rightarrow> string \<Rightarrow> string \<Rightarrow> string \<Rightarrow> bool \<Rightarrow> asset_info \<Rightarrow>
     string option \<Rightarrow> bytes \<Rightarrow> export_error + string option" where
  "assetbundle_typetree_output_path parse ct output_dir export_path strip_path_prefix by_category asset payload_kind payload =
     (if payload_kind \<noteq> Some ''typetree_json'' \<or>
         \<not> opt_any (\<lambda>t. normalize_assetstudio_type_name ct t = ''assetbundle'') (ai_asset_type asset)
      then Inr None
      else case parse payload of
             Inl source \<Rightarrow> Inl (ExFfiParse source)
           | Inr data \<Rightarrow> Inr (Some (bundle_json_path output_dir export_path strip_path_prefix by_category asset data)))"

section \<open>Special targets\<close>

definition playable_container_output_path :: "string \<Rightarrow> string \<Rightarrow> string \<Rightarrow> bool \<Rightarrow> string \<Rightarrow> string" where
  "playable_container_output_path output_dir export_path strip_path_prefix by_category container =
     (let relative = strip_container_prefix container strip_path_prefix;
          path = (if by_category then path_join output_dir relative
                  else path_join (path_join output_dir export_path)
                         (unwrap_or ''timeline.playable'' (file_name relative)))
      in set_extension path ''json'')"

definition text_asset_is_music_score :: "string \<Rightarrow> asset_info \<Rightarrow> bool" where
  "text_asset_is_music_score target asset \<longleftrightarrow>
     contains_sub ''/music/music_score/'' (replace_char (CHR 0x5C) (CHR ''/'') (from_utf8_lossy target)) \<or>
     contains_sub ''/music/music_score/'' (replace_char (CHR 0x5C) (CHR ''/'') (unwrap_or [] (ai_container asset)))"

definition text_asset_public_bytes_target :: "string \<Rightarrow> asset_info \<Rightarrow> string option" where
  "text_asset_public_bytes_target target asset =
     (if ai_asset_type asset \<noteq> Some ''TextAsset'' then None
      else Option.bind (path_text (file_name target)) (\<lambda>name.
        case opt_or (map_option (\<lambda>stem. stem @ ''.acb'') (strip_suffix ''.acb.bytes'' name))
                    (map_option (\<lambda>stem. stem @ ''.usm'') (strip_suffix ''.usm.bytes'' name)) of
          Some media_name \<Rightarrow> Some (with_file_name target media_name)
        | None \<Rightarrow>
            map_option (\<lambda>stem.
              if text_asset_is_music_score target asset then with_file_name target (stem @ ''.txt'')
              else with_file_name target stem) (strip_suffix ''.bytes'' name)))"

definition is_text_asset_acb_target :: "asset_info \<Rightarrow> string \<Rightarrow> bool" where
  "is_text_asset_acb_target asset target \<longleftrightarrow>
     ai_asset_type asset = Some ''TextAsset'' \<and> has_extension ''acb'' target"

definition is_text_asset_decoded_usm_target :: "asset_info \<Rightarrow> string \<Rightarrow> region_config \<Rightarrow> bool" where
  "is_text_asset_decoded_usm_target asset target region \<longleftrightarrow>
     us_export (xp_usm (rg_export region)) \<and> us_decode (xp_usm (rg_export region)) \<and>
     ai_asset_type asset = Some ''TextAsset'' \<and> has_extension ''usm'' target"

definition semantic_duplicate_path :: "string \<Rightarrow> nat \<Rightarrow> string" where
  "semantic_duplicate_path path ordinal =
     (if ordinal \<le> 1 then path
      else let stem = unwrap_or ''asset'' (opt_filter (\<lambda>s. s \<noteq> []) (path_text (file_stem path))) @ ''__dup'' @ show_nat ordinal
           in with_stem (unwrap_or [] (parent path)) stem (path_text (extension path)))"

section \<open>Staying under the output directory\<close>

definition contained :: "string \<Rightarrow> string \<Rightarrow> bool" where
  "contained dir p \<longleftrightarrow> (\<exists>ns. ns \<noteq> [] \<and> components p = components dir @ map Normal ns)"

lemma components_push_relative:
  assumes "p \<noteq> []" and "\<not> is_absolute q"
  shows "components (path_push p q) = components p @ inner_components (split_char CHR ''/'' q)"
proof (cases "last p = CHR ''/''")
  case True
  then obtain p' where p': "p = p' @ ''/''" using assms(1) by (metis append_butlast_last_id)
  show ?thesis
  proof (cases "p' = []")
    case True
    then show ?thesis
      using assms(2) components_root [of q] components_root [of "[]"] by (simp add: path_push_def p' skipped_def)
  next
    case False
    then show ?thesis
      using assms(2) components_sep [of p' q] components_sep [of p' "[]"] by (simp add: path_push_def p' skipped_def)
  qed
next
  case False
  then show ?thesis using assms components_sep [of p q] by (simp add: path_push_def)
qed

lemma file_name_normal: "components p = cs @ [Normal s] \<Longrightarrow> file_name p = Some s"
  by (simp add: file_name_def)

lemma file_name_components: "file_name p = Some s \<Longrightarrow> components p = butlast (components p) @ [Normal s]"
  by (auto simp: file_name_def split: if_splits component.splits) (metis append_butlast_last_id)

lemma parent_exists: "file_name p = Some s \<Longrightarrow> \<exists>up. parent p = Some up \<and> components up = butlast (components p)"
proof (cases "parent p")
  case None
  assume f: "file_name p = Some s"
  then have p: "p \<noteq> []" by (auto simp: file_name_def components_def)
  with None have "hd (split_char CHR ''/'' p) = []" "trim_pieces (tl (split_char CHR ''/'' p)) = []"
    by (auto simp: parent_def Let_def split: if_splits)
  then have "components p = [RootDir]" using components_trim [OF p] by (simp add: first_components_def)
  with f show ?thesis by (simp add: file_name_def)
next
  case (Some up)
  then show ?thesis using parent_components by blast
qed

lemma with_stem_components:
  assumes "plain_name stem" and "\<And>e. ext = Some e \<Longrightarrow> CHR ''/'' \<notin> set e"
  shows "\<exists>n. components (with_stem dir stem ext) = components dir @ [Normal n]"
proof (cases "opt_filter (\<lambda>e. e \<noteq> []) ext")
  case None
  with assms(1) show ?thesis by (auto simp: with_stem_def)
next
  case (Some e)
  then have e: "ext = Some e" "e \<noteq> []" by simp_all
  have "length (stem @ ''.'' @ e) \<ge> 3" using assms(1) e(2) by (cases stem; cases e) (auto simp: plain_name_def)
  then have "stem @ ''.'' @ e \<noteq> ''''" "stem @ ''.'' @ e \<noteq> ''.''" "stem @ ''.'' @ e \<noteq> ''..''"
    by (force dest: arg_cong [of _ _ length])+
  then have "plain_name (stem @ ''.'' @ e)" using assms e by (auto simp: plain_name_def)
  moreover have "with_stem dir stem ext = path_join dir (stem @ ''.'' @ e)" unfolding with_stem_def Some by simp
  ultimately show ?thesis using components_push by metis
qed

lemma extension_no_slash: "extension p = Some e \<Longrightarrow> CHR ''/'' \<notin> set e"
  using file_name_no_slash [of p]
  by (auto simp: extension_def split_at_dot_def rsplit_once_Some split: option.splits if_splits)

lemma stem_dir_plain:
  assumes "file_name p = Some f"
  shows "plain_name (unwrap_or ''asset'' (opt_filter (\<lambda>s. s \<noteq> []) (path_text (file_stem p))) @ ''.assets'')"
proof -
  have "CHR ''/'' \<notin> set (fst (split_at_dot f))" using file_name_no_slash [OF assms] set_stem [of f] by blast
  then show ?thesis
    using assms by (auto simp: file_stem_def path_text_def to_str_def plain_name_def unwrap_or_def opt_filter_def split: option.splits)
qed

lemma text_extension_no_slash: "path_text (extension p) = Some e \<Longrightarrow> CHR ''/'' \<notin> set e"
  using extension_no_slash [of p] by (auto simp: path_text_def to_str_def bind_eq_Some_conv split: if_splits)

lemma contained_parent:
  assumes "contained dir p"
  obtains f up ns where "file_name p = Some f" "parent p = Some up" "components up = components dir @ map Normal ns"
proof -
  obtain ns n where ns: "components p = components dir @ map Normal (ns @ [n])"
    using assms unfolding contained_def by (metis rev_exhaust)
  then have f: "file_name p = Some n" by (intro file_name_normal [of _ "components dir @ map Normal ns"]) simp
  with parent_exists [OF f] ns that show ?thesis by (auto simp: butlast_append)
qed

lemma containedI: "components p = components dir @ map Normal ns \<Longrightarrow> ns \<noteq> [] \<Longrightarrow> contained dir p"
  unfolding contained_def by blast

lemma with_stem_contained:
  assumes "components up = components dir @ map Normal ns" and "plain_name stem"
  shows "contained dir (with_stem up stem (path_text (extension p)))"
proof -
  obtain n where "components (with_stem up stem (path_text (extension p))) = components up @ [Normal n]"
    using with_stem_components [OF assms(2)] text_extension_no_slash by blast
  then show ?thesis by (intro containedI [of _ _ "ns @ [n]"]) (simp_all add: assms(1))
qed

lemma flat_subasset_contained:
  assumes "contained dir p" and "plain_name (assetstudio_semantic_file_stem asset)"
  shows "contained dir (named_flat_subasset_output_path p asset)"
  using assms(1)
  by (rule contained_parent) (simp add: named_flat_subasset_output_path_def with_stem_contained [OF _ assms(2)])

lemma subasset_contained:
  assumes "contained dir p" and "plain_name (assetstudio_semantic_file_stem asset)" and "plain_name semantic_dir"
  shows "contained dir (named_subasset_output_path p asset semantic_dir)"
  using assms(1)
proof (rule contained_parent)
  fix f up ns assume f: "file_name p = Some f" and up: "parent p = Some up" "components up = components dir @ map Normal ns"
  let ?s = "unwrap_or ''asset'' (opt_filter (\<lambda>s. s \<noteq> []) (path_text (file_stem p))) @ ''.assets''"
  have "components (path_join (path_join up ?s) semantic_dir) = components dir @ map Normal (ns @ [?s, semantic_dir])"
    using stem_dir_plain [OF f] assms(3) up(2) by simp
  from with_stem_contained [OF this assms(2)] show ?thesis
    by (simp add: named_subasset_output_path_def Let_def up(1))
qed

lemma cutout_contained:
  assumes "contained dir p" and "plain_name (assetstudio_semantic_file_stem asset)"
  shows "contained dir (member_cutout_sprite_output_path p asset)"
proof (cases "opt_filter (\<lambda>s. s \<noteq> []) (path_text (file_stem p))")
  case None
  then show ?thesis using assms(1) by (simp add: member_cutout_sprite_output_path_def)
next
  case (Some stem)
  then have "member_cutout_sprite_output_path p asset = named_subasset_output_path p asset ''sprite''"
    unfolding member_cutout_sprite_output_path_def named_subasset_output_path_def Some Let_def by simp
  then show ?thesis using subasset_contained [OF assms, of "''sprite''"] by (simp add: plain_name_def)
qed

lemma semantic_dirs_plain: "map_of semantic_dirs t = Some d \<Longrightarrow> plain_name d"
proof -
  assume "map_of semantic_dirs t = Some d"
  moreover have "list_all (\<lambda>(_, d). plain_name d) semantic_dirs" by (simp add: semantic_dirs_def plain_name_def)
  ultimately show ?thesis by (auto simp: list_all_iff dest!: map_of_SomeD)
qed

lemma semantic_path_contained:
  assumes "contained dir p" and "plain_name (assetstudio_semantic_file_stem asset)"
  shows "contained dir (semantic_assetstudio_object_output_path ct p asset)"
  unfolding semantic_assetstudio_object_output_path_def Let_def
  using assms cutout_contained [OF assms] flat_subasset_contained [OF assms] subasset_contained [OF assms semantic_dirs_plain]
  by (simp split: option.split)

text \<open>A relative path that never goes up, and one that also names something.\<close>

definition never_up :: "string \<Rightarrow> bool" where
  "never_up q \<longleftrightarrow> \<not> is_absolute q \<and> ''..'' \<notin> set (split_char CHR ''/'' q)"

definition names_something :: "string \<Rightarrow> bool" where
  "names_something q \<longleftrightarrow> list_ex (\<lambda>s. \<not> skipped s) (split_char CHR ''/'' q)"

lemma is_absolute_hd: "is_absolute q \<longleftrightarrow> q \<noteq> [] \<and> hd q = CHR ''/''"
  by (cases q) (auto simp: is_absolute_def starts_with_def)

lemma push_never_up:
  assumes "p \<noteq> []" and "never_up q"
  shows "components (path_push p q) = components p @ map Normal (filter (\<lambda>s. \<not> skipped s) (split_char CHR ''/'' q))"
  using assms components_push_relative [of p q]
  by (auto simp: never_up_def inner_components_def piece_def)

lemma stripped_relative: "\<not> is_absolute (strip_container_prefix container strip)"
proof -
  have *: "\<not> is_absolute (trim_start_matches CHR ''/'' s)" for s
    using hd_dropWhile [of "\<lambda>c. c = CHR ''/''" s] by (auto simp: is_absolute_hd trim_start_matches_def)
  have "\<not> is_absolute (unwrap_or (trim_start_matches CHR ''/'' a) (opt_filter P (map_option (trim_start_matches CHR ''/'') b)))"
    for a b P
    using * by (cases b) (auto simp: unwrap_or_def opt_filter_def split: option.split)
  then show ?thesis unfolding strip_container_prefix_def Let_def by blast
qed

lemma set_extension_contained:
  assumes "contained dir p" and "ext \<noteq> []" and "CHR ''/'' \<notin> set ext"
  shows "contained dir (set_extension p ext)"
proof -
  obtain ns n where ns: "components p = components dir @ map Normal (ns @ [n])"
    using assms(1) unfolding contained_def by (metis rev_exhaust)
  then have f: "file_name p = Some n" by (intro file_name_normal [of _ "components dir @ map Normal ns"]) simp
  show ?thesis
    using set_extension_components [OF f assms(2,3)] ns
    by (intro containedI [of _ _ "ns @ [fst (split_at_dot n) @ ''.'' @ ext]"]) (simp_all add: butlast_append)
qed

lemma file_name_plain: "file_name p = Some f \<Longrightarrow> plain_name f"
  using file_name_shape by (auto simp: plain_name_def)

lemma default_path_contained:
  assumes dir: "output_dir \<noteq> []" and stem: "plain_name stem"
    and by_cat: "by_category \<Longrightarrow> never_up relative \<and> names_something relative"
    and flat: "\<not> by_category \<Longrightarrow> never_up export_path"
  shows "contained output_dir (if by_category then path_join output_dir relative
           else path_join (path_join output_dir export_path) (unwrap_or stem (file_name relative)))"
proof (cases by_category)
  case True
  with by_cat have "filter (\<lambda>s. \<not> skipped s) (split_char CHR ''/'' relative) \<noteq> []"
    by (auto simp: names_something_def list_ex_iff filter_empty_conv)
  with True push_never_up [OF dir] by_cat show ?thesis by (simp add: containedI)
next
  case False
  have "plain_name (unwrap_or stem (file_name relative))"
    using stem file_name_plain by (simp add: unwrap_or_def split: option.split)
  with False push_never_up [OF dir flat] show ?thesis
    by (intro containedI [of _ _ "filter (\<lambda>s. \<not> skipped s) (split_char CHR ''/'' export_path) @ [unwrap_or stem (file_name relative)]"])
      simp_all
qed


text \<open>Entries of a bundle stay under the directory of their target, whatever they are called.\<close>

lemma normal_names_plain: "list_all plain_name (normal_names (components name))"
proof -
  have "plain_name s" if "Normal s \<in> set (components name)" for s
  proof -
    have "Normal s \<in> set (first_components (hd (split_char CHR ''/'' name))) \<union> set (inner_components (tl (split_char CHR ''/'' name)))"
      using that by (auto simp: components_def Let_def split: if_splits)
    moreover have "set (tl (split_char CHR ''/'' name)) \<subseteq> set (split_char CHR ''/'' name)"
      "hd (split_char CHR ''/'' name) \<in> set (split_char CHR ''/'' name)"
      by (auto intro: list.set_sel(2))
    ultimately show ?thesis
      using split_char_no_sep [of _ "CHR ''/''" name]
      by (auto simp: first_components_def inner_components_def piece_def skipped_def plain_name_def split: if_splits)
  qed
  then show ?thesis
    by (auto simp: normal_names_def list_all_iff List.map_filter_def split: component.splits)
qed

lemma foldl_push_nonempty: "list_all plain_name xs \<Longrightarrow> xs \<noteq> [] \<Longrightarrow> foldl path_push p xs \<noteq> []"
  using foldl_push_components [of xs p] by (cases "foldl path_push p xs") (auto simp: components_def)

lemma foldl_push_relative:
  "list_all plain_name xs \<Longrightarrow> xs \<noteq> [] \<Longrightarrow> never_up (foldl path_push [] xs) \<and>
     filter (\<lambda>s. \<not> skipped s) (split_char CHR ''/'' (foldl path_push [] xs)) = xs"
proof (induction xs rule: rev_induct)
  case (snoc x xs)
  have x: "plain_name x" "split_char CHR ''/'' x = [x]" using snoc.prems by (auto simp: plain_name_def split_char_absent)
  show ?case
  proof (cases "xs = []")
    case True
    with x show ?thesis by (auto simp: path_push_def never_up_def plain_name_def skipped_def)
  next
    case False
    define p where "p = foldl path_push [] xs"
    have p: "never_up p" "filter (\<lambda>s. \<not> skipped s) (split_char CHR ''/'' p) = xs"
      using snoc.IH snoc.prems False by (simp_all add: p_def)
    have ne: "p \<noteq> []" unfolding p_def using foldl_push_nonempty False snoc.prems by simp
    obtain y where y: "last p = CHR ''/'' \<longrightarrow> p = y @ ''/''" using ne by (metis append_butlast_last_id)
    have "split_char CHR ''/'' (path_push p x) = (if last p = CHR ''/'' then split_char CHR ''/'' y @ [x] else split_char CHR ''/'' p @ [x])"
      using y ne x split_char_app [of "CHR ''/''" y x] split_char_app [of "CHR ''/''" p x]
      by (auto simp: path_push_def)
    moreover have "split_char CHR ''/'' p = split_char CHR ''/'' y @ [[]]" if "last p = CHR ''/''"
      using y that split_char_app [of "CHR ''/''" y "[]"] by simp
    moreover have "\<not> is_absolute (path_push p x)"
      using p(1) ne plain_name_relative [OF x(1)] by (auto simp: path_push_def never_up_def is_absolute_hd)
    ultimately show ?thesis using p x ne by (auto simp: p_def [symmetric] never_up_def plain_name_def skipped_def)
  qed
qed simp

lemma safe_path_never_up: "never_up (safe_payload_bundle_path name) \<and> names_something (safe_payload_bundle_path name)"
proof (cases "normal_names (components name) = []")
  case True
  have "never_up ''payload.bin''" "names_something ''payload.bin''" by (code_simp, code_simp)
  with True show ?thesis by (simp add: safe_payload_bundle_path_def)
next
  case False
  let ?p = "foldl path_push [] (normal_names (components name))"
  have "never_up ?p" "filter (\<lambda>s. \<not> skipped s) (split_char CHR ''/'' ?p) \<noteq> []"
    using foldl_push_relative [OF normal_names_plain False] False by simp_all
  moreover have "safe_payload_bundle_path name = ?p"
    using foldl_push_nonempty [OF normal_names_plain False] by (simp add: safe_payload_bundle_path_def)
  ultimately show ?thesis by (auto simp: names_something_def list_ex_iff filter_empty_conv)
qed

theorem bundle_entry_contained:
  assumes "contained dir target" and "file_stem target = Some stem" and "plain_name stem"
  shows "contained dir (payload_bundle_entry_target target entry_name)"
  using assms(1)
proof (rule contained_parent)
  fix f up ns assume up: "parent target = Some up" "components up = components dir @ map Normal ns"
  let ?s = "unwrap_or ''asset'' (opt_filter (\<lambda>s. s \<noteq> []) (path_text (file_stem target)))"
  let ?xs = "filter (\<lambda>s. \<not> skipped s) (split_char CHR ''/'' (safe_payload_bundle_path entry_name))"
  have s: "plain_name ?s"
    using assms(2,3) by (auto simp: path_text_def to_str_def unwrap_or_def opt_filter_def plain_name_def)
  have ne: "path_join up ?s \<noteq> []" using components_push [OF s, of up] by (auto simp: components_def)
  have xs: "?xs \<noteq> []"
    using safe_path_never_up [of entry_name] by (auto simp: names_something_def list_ex_iff filter_empty_conv)
  have "components (payload_bundle_entry_target target entry_name) = components dir @ map Normal (ns @ [?s] @ ?xs)"
    using push_never_up [OF ne, of "safe_payload_bundle_path entry_name"] safe_path_never_up s up
    by (simp add: payload_bundle_entry_target_def Let_def)
  then show ?thesis by (rule containedI) simp
qed

section \<open>Examples\<close>

definition ascii_tables :: case_tables where
  "ascii_tables = \<lparr>ct_char = to_lower, ct_str = to_lower\<rparr>"

definition demo_object :: "string \<Rightarrow> string \<Rightarrow> string \<Rightarrow> asset_info" where
  "demo_object name container asset_type =
     \<lparr>ai_index = 0, ai_name = Some name, ai_container = Some container, ai_asset_type = Some asset_type, ai_type_id = 0,
      ai_path_id = 1, ai_unique_id = None, ai_size = 0, ai_source_file = None\<rparr>"


theorem bundle_entry_contained_witness:
  "contained ''/out'' (payload_bundle_entry_target ''/out/model.fbx'' ''../../etc/passwd'')"
proof (rule bundle_entry_contained)
  have "components ''/out/model.fbx'' = components ''/out'' @ map Normal [''model.fbx'']" by code_simp
  then show "contained ''/out'' ''/out/model.fbx''" by (rule containedI) simp
  show "file_stem ''/out/model.fbx'' = Some ''model''" by code_simp
  show "plain_name ''model''" by code_simp
qed

text \<open>A container that goes up leaves the output directory.\<close>

theorem container_leaves_output_directory:
  "components (native_object_output_path ascii_tables ''/w'' export_path [] True
     (demo_object ''x'' ''../x.txt'' ''TextAsset'') (Some ''text_bytes'') (Some ''txt'')) =
   [RootDir, Normal ''w'', ParentDir, Normal ''x.txt'']"
proof -
  let ?a = "demo_object ''x'' ''../x.txt'' ''TextAsset''"
  have container: "strip_container_prefix (container_of ?a) [] = ''../x.txt''" by code_simp
  have ext: "native_object_output_extension ascii_tables ?a (Some ''text_bytes'') (Some ''txt'') = ''txt''"
  proof -
    have "trim ''text_bytes'' = ''text_bytes''" "trim ''txt'' = ''txt''" "trim_start_matches CHR ''.'' ''txt'' = ''txt''"
      by (code_simp, code_simp, code_simp)
    then show ?thesis
      by (simp add: native_object_output_extension_def static_known_payload_extension_def fixed_extensions_def ascii_tables_def
          to_lower_def ascii_lower_def)
  qed
  have joined: "path_push ''/w'' ''../x.txt'' = ''/w/../x.txt''" by code_simp
  have trimmed: "trim_start_matches CHR ''.'' ''txt'' = ''txt''" by code_simp
  have type: "normalize_assetstudio_type_name ascii_tables ''TextAsset'' = ''textasset''" by code_simp
  have semantic: "semantic_assetstudio_object_output_path ascii_tables p ?a = p" for p
    by (simp add: semantic_assetstudio_object_output_path_def demo_object_def type semantic_dirs_def)
  have comps: "components ''/w/../x.txt'' =
      [RootDir, Normal ''w'', ParentDir, Normal ''x.txt'']" by code_simp
  then have fname: "file_name ''/w/../x.txt'' = Some ''x.txt''" by (simp add: file_name_def)
  have stem: "fst (split_at_dot ''x.txt'') = ''x''" by code_simp
  show ?thesis
    using set_extension_components [OF fname, of "''txt''"]
    by (simp add: native_object_output_path_def container ext joined trimmed semantic comps stem)
qed

end
