(* ===== verification/Export_Claims.thy ===== *)
theory Export_Claims
  imports Export_Paths Payload_Bundle Config
begin

text \<open>
  Writing the objects of a bundle (\<^verbatim>\<open>src/core/export_pipeline/implementation/payload.rs\<close>): every object claims its path,
  objects that were already written under it are recognised by a signature, images are queued, everything else is
  written at once, and each file gets a line in the manifest of the export. The search for a free path is a loop
  that need not end, so what depends on it is an option.
\<close>

unbundle bit_operations_syntax

section \<open>Results of loops\<close>

definition run_bind :: "(('e + 'a) \<times> 's) option \<Rightarrow> ('a \<Rightarrow> 's \<Rightarrow> (('e + 'b) \<times> 's) option) \<Rightarrow> (('e + 'b) \<times> 's) option" where
  "run_bind m g = (case m of None \<Rightarrow> None | Some (Inl e, s) \<Rightarrow> Some (Inl e, s) | Some (Inr x, s) \<Rightarrow> g x s)"

lemma run_bind_simps [simp]:
  "run_bind None g = None" "run_bind (Some (Inl e, s)) g = Some (Inl e, s)" "run_bind (Some (Inr x, s)) g = g x s"
  by (simp_all add: run_bind_def)

lemma run_bind_Inr [res_simps]:
  "run_bind m g = Some (Inr y, s') \<longleftrightarrow> (\<exists>x s. m = Some (Inr x, s) \<and> g x s = Some (Inr y, s'))"
  by (auto simp: run_bind_def split: option.splits prod.splits sum.splits)

section \<open>Signatures\<close>

record payload_signature =
  sg_asset_type :: "string option"
  sg_name :: "string option"
  sg_container :: "string option"
  sg_payload_kind :: "string option"
  sg_suggested_extension :: "string option"
  sg_payload_len :: nat
  sg_payload_fingerprint :: "64 word \<times> 64 word"

definition FNV_PRIME :: "64 word" where "FNV_PRIME = 0x00000100000001b3"

fun fingerprint_from :: "nat \<Rightarrow> bytes \<Rightarrow> 64 word \<times> 64 word \<Rightarrow> 64 word \<times> 64 word" where
  "fingerprint_from index [] acc = acc"
| "fingerprint_from index (b # bs) (left, right) =
     (let left = (left XOR ucast b) * FNV_PRIME;
          right = right XOR (push_bit ((index mod 8) * 8) (ucast b) XOR of_nat index);
          right = word_rotl 5 right * FNV_PRIME
      in fingerprint_from (index + 1) bs (left, right))"

definition native_payload_fingerprint :: "bytes \<Rightarrow> 64 word \<times> 64 word" where
  "native_payload_fingerprint payload = fingerprint_from 0 payload (0xcbf29ce484222325, 0x84222325cbf29ce4)"

definition native_payload_signature :: "asset_info \<Rightarrow> object_read_output \<Rightarrow> payload_signature" where
  "native_payload_signature asset read_output =
     \<lparr>sg_asset_type = ai_asset_type asset, sg_name = ai_name asset, sg_container = ai_container asset,
      sg_payload_kind = or_payload_kind (ro_response read_output),
      sg_suggested_extension = or_suggested_extension (ro_response read_output),
      sg_payload_len = length (ro_payload read_output),
      sg_payload_fingerprint = native_payload_fingerprint (ro_payload read_output)\<rparr>"

section \<open>Claims\<close>

text \<open>Claims are kept by path, compared component by component.\<close>

type_synonym claims = "(component list, payload_signature option) hmap"

datatype semantic_path_claim = Claimed string | Duplicate string

definition same_signature :: "payload_signature option \<Rightarrow> payload_signature option \<Rightarrow> bool" where
  "same_signature x y = (case (x, y) of (Some l, Some r) \<Rightarrow> l = r | _ \<Rightarrow> False)"

partial_function (option) claim_loop ::
    "(string \<Rightarrow> bool) \<Rightarrow> claims \<Rightarrow> string \<Rightarrow> payload_signature option \<Rightarrow> nat \<Rightarrow> (semantic_path_claim \<times> claims) option" where
  [code]: "claim_loop on_disk claims path signature ordinal =
     (let candidate = semantic_duplicate_path path ordinal in
      case map_of claims (components candidate) of
        Some existing \<Rightarrow>
          if same_signature signature existing then Some (Duplicate candidate, claims)
          else claim_loop on_disk claims path signature (ordinal + 1)
      | None \<Rightarrow>
          if \<not> on_disk candidate then Some (Claimed candidate, hmap_insert (components candidate) signature claims)
          else claim_loop on_disk claims path signature (ordinal + 1))"

definition claim_with_signature ::
    "(string \<Rightarrow> bool) \<Rightarrow> claims \<Rightarrow> string \<Rightarrow> payload_signature option \<Rightarrow> (semantic_path_claim \<times> claims) option" where
  "claim_with_signature on_disk claims path signature = claim_loop on_disk claims path signature 1"

definition claim_payload ::
    "(string \<Rightarrow> bool) \<Rightarrow> claims \<Rightarrow> string \<Rightarrow> asset_info \<Rightarrow> object_read_output \<Rightarrow> (semantic_path_claim \<times> claims) option" where
  "claim_payload on_disk claims path asset read_output =
     claim_with_signature on_disk claims path (Some (native_payload_signature asset read_output))"

fun claimed_path :: "semantic_path_claim \<Rightarrow> string" where
  "claimed_path (Claimed path) = path"
| "claimed_path (Duplicate existing) = existing"

definition claim_path :: "(string \<Rightarrow> bool) \<Rightarrow> claims \<Rightarrow> string \<Rightarrow> (string \<times> claims) option" where
  "claim_path on_disk claims path = map_option (\<lambda>(c, claims). (claimed_path c, claims)) (claim_with_signature on_disk claims path None)"

section \<open>The candidates for a path\<close>

definition stem_suffix :: "string option \<Rightarrow> string" where
  "stem_suffix ext = (case opt_filter (\<lambda>e. e \<noteq> []) ext of Some e \<Rightarrow> ''.'' @ e | None \<Rightarrow> [])"

lemma with_stem_push: "with_stem dir stem ext = path_push dir (stem @ stem_suffix ext)"
  by (cases ext) (simp_all add: with_stem_def stem_suffix_def opt_filter_def)

lemma stem_suffix_no_slash: "CHR ''/'' \<notin> set (stem_suffix (path_text (extension p)))"
  using text_extension_no_slash [of p] by (auto simp: stem_suffix_def opt_filter_def split: option.splits)

definition duplicate_stem :: "string \<Rightarrow> string" where
  "duplicate_stem path = unwrap_or ''asset'' (opt_filter (\<lambda>s. s \<noteq> []) (path_text (file_stem path)))"

lemma duplicate_stem_no_slash: "CHR ''/'' \<notin> set (duplicate_stem path)"
proof -
  have "CHR ''/'' \<notin> set s" if "file_stem path = Some s" for s
    using that file_name_no_slash [of path] set_stem by (fastforce simp: file_stem_def)
  then show ?thesis
    by (auto simp: duplicate_stem_def path_text_def to_str_def unwrap_or_def opt_filter_def bind_eq_Some_conv
        split: option.splits if_splits)
qed

lemma duplicate_components:
  assumes "1 < n"
  shows "components (semantic_duplicate_path path n) = components (unwrap_or [] (parent path)) @
    [Normal (duplicate_stem path @ ''__dup'' @ show_nat n @ stem_suffix (path_text (extension path)))]"
proof -
  let ?s = "duplicate_stem path @ ''__dup'' @ show_nat n @ stem_suffix (path_text (extension path))"
  have "length ?s > 2" by simp
  then have "?s \<noteq> ''''" "?s \<noteq> ''.''" "?s \<noteq> ''..''" by (force dest: arg_cong [of _ _ length])+
  then have "plain_name ?s"
    using duplicate_stem_no_slash [of path] stem_suffix_no_slash [of path] slash_not_digit [of n] by (simp add: plain_name_def)
  from components_push [OF this] assms show ?thesis
    by (simp add: semantic_duplicate_path_def with_stem_push duplicate_stem_def)
qed

lemma duplicates_distinct:
  "1 < m \<Longrightarrow> 1 < n \<Longrightarrow> components (semantic_duplicate_path path m) = components (semantic_duplicate_path path n) \<longleftrightarrow> m = n"
  by (auto simp: duplicate_components)


section \<open>What a claim gives\<close>

abbreviation claimed_keys :: "claims \<Rightarrow> component list set" where
  "claimed_keys claims \<equiv> fst ` set claims"

definition candidate_busy :: "(string \<Rightarrow> bool) \<Rightarrow> claims \<Rightarrow> string \<Rightarrow> nat \<Rightarrow> bool" where
  "candidate_busy on_disk claims path k \<longleftrightarrow>
     components (semantic_duplicate_path path k) \<in> claimed_keys claims \<or> on_disk (semantic_duplicate_path path k)"

definition claim_ok ::
    "(string \<Rightarrow> bool) \<Rightarrow> claims \<Rightarrow> string \<Rightarrow> payload_signature option \<Rightarrow> nat \<Rightarrow> semantic_path_claim \<times> claims \<Rightarrow> bool" where
  "claim_ok on_disk claims path signature n r \<longleftrightarrow>
     (\<exists>m\<ge>n. (\<forall>k\<in>{n..<m}. candidate_busy on_disk claims path k) \<and>
        (case r of
           (Claimed q, claims') \<Rightarrow> q = semantic_duplicate_path path m \<and> \<not> candidate_busy on_disk claims path m \<and>
             claims' = hmap_insert (components q) signature claims
         | (Duplicate q, claims') \<Rightarrow> q = semantic_duplicate_path path m \<and> claims' = claims \<and>
             signature \<noteq> None \<and> map_of claims (components q) = Some signature))"

lemma claim_ok_later:
  assumes "claim_ok on_disk claims path signature (n + 1) r" and "candidate_busy on_disk claims path n"
  shows "claim_ok on_disk claims path signature n r"
proof -
  obtain m where m: "m \<ge> n + 1" "\<forall>k\<in>{n + 1..<m}. candidate_busy on_disk claims path k"
    and r: "case r of
           (Claimed q, claims') \<Rightarrow> q = semantic_duplicate_path path m \<and> \<not> candidate_busy on_disk claims path m \<and>
             claims' = hmap_insert (components q) signature claims
         | (Duplicate q, claims') \<Rightarrow> q = semantic_duplicate_path path m \<and> claims' = claims \<and>
             signature \<noteq> None \<and> map_of claims (components q) = Some signature"
    using assms(1) by (auto simp: claim_ok_def)
  have "\<forall>k\<in>{n..<m}. candidate_busy on_disk claims path k"
    using m(2) assms(2) by (metis Suc_eq_plus1 Suc_leI atLeastLessThan_iff le_neq_implies_less)
  with m(1) r show ?thesis unfolding claim_ok_def by (intro exI [of _ m]) simp
qed

lemma same_signature_iff: "same_signature x y \<longleftrightarrow> x \<noteq> None \<and> x = y"
  by (cases x; cases y) (auto simp: same_signature_def)

lemma claim_loop_ok:
  assumes "claim_loop on_disk claims path signature n = Some r"
  shows "claim_ok on_disk claims path signature n r"
proof (rule claim_loop.raw_induct [where P = claim_ok, OF _ assms])
  fix rec on_disk claims path signature n r
  assume 1: "\<And>on_disk claims path signature n r. rec on_disk claims path signature n = Some r \<Longrightarrow>
      claim_ok on_disk claims path signature n r"
    "(let candidate = semantic_duplicate_path path n in
      case map_of claims (components candidate) of
        None \<Rightarrow>
          if \<not> on_disk candidate then Some (Claimed candidate, hmap_insert (components candidate) signature claims)
          else rec on_disk claims path signature (n + 1)
      | Some existing \<Rightarrow>
          if same_signature signature existing then Some (Duplicate candidate, claims)
          else rec on_disk claims path signature (n + 1)) = Some r"
  let ?c = "semantic_duplicate_path path n"
  show "claim_ok on_disk claims path signature n r"
  proof (cases "map_of claims (components ?c)")
    case None
    then have free: "components ?c \<notin> claimed_keys claims" by (simp add: map_of_eq_None_iff)
    show ?thesis
    proof (cases "on_disk ?c")
      case True
      then show ?thesis
        using 1 None claim_ok_later [of on_disk claims path signature n r] by (simp add: Let_def candidate_busy_def)
    next
      case False
      then show ?thesis
        using 1(2) None free unfolding claim_ok_def by (intro exI [of _ n]) (auto simp: Let_def candidate_busy_def)
    qed
  next
    case (Some existing)
    then have busy: "candidate_busy on_disk claims path n"
      using map_of_SomeD [OF Some] by (force simp: candidate_busy_def)
    show ?thesis
    proof (cases "same_signature signature existing")
      case True
      then show ?thesis
        using 1(2) Some unfolding claim_ok_def by (intro exI [of _ n]) (auto simp: Let_def same_signature_iff)
    next
      case False
      then show ?thesis
        using 1 Some busy claim_ok_later [of on_disk claims path signature n r] by (simp add: Let_def)
    qed
  qed
qed

text \<open>When only finitely many paths exist the loop ends: the candidates are different paths.\<close>

lemma claim_loop_finds:
  assumes "\<not> candidate_busy on_disk claims path m" and "n \<le> m"
  shows "\<exists>r. claim_loop on_disk claims path signature n = Some r"
  using assms(2)
proof (induction "m - n" arbitrary: n)
  case 0
  then have "n = m" by simp
  moreover have "map_of claims (components (semantic_duplicate_path path m)) = None"
    using assms(1) by (simp add: candidate_busy_def map_of_eq_None_iff)
  ultimately show ?case
    using assms(1) by (subst claim_loop.simps) (simp add: Let_def candidate_busy_def)
next
  case (Suc d)
  then have "\<exists>r. claim_loop on_disk claims path signature (n + 1) = Some r" by simp
  then show ?case by (subst claim_loop.simps) (auto simp: Let_def split: option.split)
qed

lemma claim_loop_ends:
  assumes "finite {p. on_disk p}"
  shows "\<exists>r. claim_loop on_disk claims path signature n = Some r"
proof -
  let ?used = "claimed_keys claims \<union> components ` {p. on_disk p}"
  have "inj_on (\<lambda>k. components (semantic_duplicate_path path k)) {max n 2..}"
    by (auto simp: inj_on_def duplicates_distinct)
  then have "infinite ((\<lambda>k. components (semantic_duplicate_path path k)) ` {max n 2..})"
    using finite_imageD infinite_Ici by blast
  moreover have "finite ?used" using assms by simp
  ultimately obtain k where k: "k \<ge> max n 2" "components (semantic_duplicate_path path k) \<notin> ?used"
    using finite_subset by (metis (no_types, lifting) atLeast_iff image_subsetI)
  then have "\<not> candidate_busy on_disk claims path k" by (auto simp: candidate_busy_def)
  from claim_loop_finds [OF this] k(1) show ?thesis by simp
qed

end
