(* ===== verification/Export_Images.thy ===== *)
theory Export_Images
  imports Export_Paths Payload_Bundle Config
begin

text \<open>
  Writing images (\<^verbatim>\<open>src/core/export_pipeline/implementation/images.rs\<close> and the image functions of \<^verbatim>\<open>payload.rs\<close>). The
  image library is an argument. An encoder writes through a buffer: what it has handed to the file when it
  returns can fail with an error, what is still in the buffer then is written when the buffer is dropped, and an
  error there is not seen by anyone.
\<close>

section \<open>The image library\<close>

record encoded =
  en_early :: bytes
  en_late :: bytes
  en_error :: "string option"

record 'img image_codec =
  ic_decode :: "bytes \<Rightarrow> io_kind + (string + 'img)"
  ic_from_raw :: "nat \<Rightarrow> nat \<Rightarrow> bytes \<Rightarrow> 'img option"
  ic_rgba8 :: "'img \<Rightarrow> nat \<times> nat \<times> bytes"
  ic_rgb8 :: "'img \<Rightarrow> nat \<times> nat \<times> bytes"
  ic_png :: "image_png_compression \<Rightarrow> nat \<Rightarrow> nat \<Rightarrow> bytes \<Rightarrow> encoded"
  ic_jpeg :: "nat \<Rightarrow> nat \<Rightarrow> nat \<Rightarrow> bytes \<Rightarrow> encoded"
  ic_webp :: "nat \<Rightarrow> nat \<Rightarrow> bytes \<Rightarrow> encoded"
  ic_write_error :: "io_kind \<Rightarrow> string"

definition write_encoded :: "'img image_codec \<Rightarrow> string \<Rightarrow> encoded \<Rightarrow> fs \<Rightarrow> (export_error + unit) \<times> fs" where
  "write_encoded ic out_file e f =
     st_bind (io_at out_file (fs_create out_file f)) (\<lambda>_ f.
     st_bind (st_map_err (\<lambda>k. ExImage out_file (ic_write_error ic k)) (fs_append out_file (en_early e) f)) (\<lambda>_ f.
       (case en_error e of Some source \<Rightarrow> Inl (ExImage out_file source) | None \<Rightarrow> Inr (),
        snd (fs_append out_file (en_late e) f))))"

section \<open>Decoded images\<close>

definition write_dynamic_image_to_png_file ::
    "'img image_codec \<Rightarrow> 'img \<Rightarrow> string \<Rightarrow> image_png_compression \<Rightarrow> fs \<Rightarrow> (export_error + unit) \<times> fs" where
  "write_dynamic_image_to_png_file ic img png_file compression =
     (let (width, height, rgba) = ic_rgba8 ic img in write_encoded ic png_file (ic_png ic compression width height rgba))"

definition write_dynamic_image_to_jpeg_file ::
    "'img image_codec \<Rightarrow> 'img \<Rightarrow> string \<Rightarrow> nat \<Rightarrow> fs \<Rightarrow> (export_error + unit) \<times> fs" where
  "write_dynamic_image_to_jpeg_file ic img jpeg_file quality =
     (let (width, height, rgb) = ic_rgb8 ic img in write_encoded ic jpeg_file (ic_jpeg ic quality width height rgb))"

definition write_dynamic_image_to_webp_file ::
    "'img image_codec \<Rightarrow> 'img \<Rightarrow> string \<Rightarrow> fs \<Rightarrow> (export_error + unit) \<times> fs" where
  "write_dynamic_image_to_webp_file ic img webp_file =
     (let (width, height, rgba) = ic_rgba8 ic img in write_encoded ic webp_file (ic_webp ic width height rgba))"

fun write_dynamic_image_to_image_file ::
    "'img image_codec \<Rightarrow> 'img \<Rightarrow> string \<Rightarrow> image_output_format \<Rightarrow> image_backend_config \<Rightarrow> fs \<Rightarrow> (export_error + unit) \<times> fs" where
  "write_dynamic_image_to_image_file ic img output_file FmtPng backend =
     write_dynamic_image_to_png_file ic img output_file (im_png_compression backend)"
| "write_dynamic_image_to_image_file ic img output_file FmtJpg backend =
     write_dynamic_image_to_jpeg_file ic img output_file (im_jpeg_quality backend)"
| "write_dynamic_image_to_image_file ic img output_file FmtWebp backend =
     write_dynamic_image_to_webp_file ic img output_file"

section \<open>Raw images\<close>

text \<open>The first three bytes of every complete group of four.\<close>

fun rgb_of_rgba :: "bytes \<Rightarrow> bytes" where
  "rgb_of_rgba (r # g # b # a # rest) = r # g # b # rgb_of_rgba rest"
| "rgb_of_rgba _ = []"

definition write_native_rgba_ir_to_png_file ::
    "'img image_codec \<Rightarrow> native_rgba_ir \<Rightarrow> string \<Rightarrow> image_png_compression \<Rightarrow> fs \<Rightarrow> (export_error + unit) \<times> fs" where
  "write_native_rgba_ir_to_png_file ic raw png_file compression =
     write_encoded ic png_file (ic_png ic compression (ir_width raw) (ir_height raw) (native_rgba_ir_contiguous_pixels raw))"

definition write_native_rgba_ir_to_webp_file ::
    "'img image_codec \<Rightarrow> native_rgba_ir \<Rightarrow> string \<Rightarrow> fs \<Rightarrow> (export_error + unit) \<times> fs" where
  "write_native_rgba_ir_to_webp_file ic raw webp_file =
     write_encoded ic webp_file (ic_webp ic (ir_width raw) (ir_height raw) (native_rgba_ir_contiguous_pixels raw))"

definition write_native_rgba_ir_to_jpeg_file ::
    "'img image_codec \<Rightarrow> native_rgba_ir \<Rightarrow> string \<Rightarrow> nat \<Rightarrow> fs \<Rightarrow> (export_error + unit) \<times> fs" where
  "write_native_rgba_ir_to_jpeg_file ic raw jpeg_file quality =
     write_encoded ic jpeg_file
       (ic_jpeg ic quality (ir_width raw) (ir_height raw) (rgb_of_rgba (native_rgba_ir_contiguous_pixels raw)))"

fun write_native_rgba_ir_to_image_file ::
    "'img image_codec \<Rightarrow> native_rgba_ir \<Rightarrow> string \<Rightarrow> image_output_format \<Rightarrow> image_backend_config \<Rightarrow> fs \<Rightarrow>
     (export_error + unit) \<times> fs" where
  "write_native_rgba_ir_to_image_file ic raw output_file FmtPng backend =
     write_native_rgba_ir_to_png_file ic raw output_file (im_png_compression backend)"
| "write_native_rgba_ir_to_image_file ic raw output_file FmtJpg backend =
     write_native_rgba_ir_to_jpeg_file ic raw output_file (im_jpeg_quality backend)"
| "write_native_rgba_ir_to_image_file ic raw output_file FmtWebp backend =
     write_native_rgba_ir_to_webp_file ic raw output_file"

definition decode_native_rgba_ir_payload :: "'img image_codec \<Rightarrow> bytes \<Rightarrow> string \<Rightarrow> export_error + 'img" where
  "decode_native_rgba_ir_payload ic payload target =
     res_bind (parse_native_rgba_ir_payload payload target) (\<lambda>raw.
       case ic_from_raw ic (ir_width raw) (ir_height raw) (native_rgba_ir_contiguous_pixels raw) of
         Some img \<Rightarrow> Inr img
       | None \<Rightarrow> Inl (rgba_error target ''could not be converted to an image''))"

definition decode_image_payload_bytes :: "'img image_codec \<Rightarrow> bytes \<Rightarrow> string \<Rightarrow> export_error + 'img" where
  "decode_image_payload_bytes ic payload target =
     (if starts_with RGBA_IR_MAGIC payload then decode_native_rgba_ir_payload ic payload target
      else case ic_decode ic payload of
             Inl source \<Rightarrow> Inl (ExIo target source)
           | Inr (Inl source) \<Rightarrow> Inl (ExImage target source)
           | Inr (Inr img) \<Rightarrow> Inr img)"

section \<open>The files of an image\<close>

fun image_format_extension :: "image_output_format \<Rightarrow> string" where
  "image_format_extension FmtPng = ''png''"
| "image_format_extension FmtJpg = ''jpg''"
| "image_format_extension FmtWebp = ''webp''"

definition image_output_file_for_format :: "string \<Rightarrow> image_output_format \<Rightarrow> string" where
  "image_output_file_for_format target format = with_extension target (image_format_extension format)"

abbreviation region_image_formats :: "region_config \<Rightarrow> image_output_format list" where
  "region_image_formats region \<equiv> image_output_formats (xp_images (rg_export region))"

definition planned_image_output_files :: "string \<Rightarrow> region_config \<Rightarrow> string list" where
  "planned_image_output_files target region = map (image_output_file_for_format target) (region_image_formats region)"

definition native_image_surrogate_public_target :: "string \<Rightarrow> region_config \<Rightarrow> string" where
  "native_image_surrogate_public_target target region =
     (if \<not> has_extension NATIVE_AOT_IMAGE_SURROGATE_FORMAT target then target
      else with_extension target
             (image_format_extension (case region_image_formats region of [] \<Rightarrow> FmtPng | format # _ \<Rightarrow> format)))"

text \<open>Either the raw image is written in every format, or the payload is decoded for the first format and the
  image kept for the others.\<close>

fun write_raw_formats ::
    "'img image_codec \<Rightarrow> native_rgba_ir \<Rightarrow> string \<Rightarrow> image_backend_config \<Rightarrow> image_output_format list \<Rightarrow> fs \<Rightarrow>
     (export_error + string list) \<times> fs" where
  "write_raw_formats ic raw target backend [] f = (Inr [], f)"
| "write_raw_formats ic raw target backend (format # formats) f =
     (let out = image_output_file_for_format target format in
      st_bind (write_native_rgba_ir_to_image_file ic raw out format backend f) (\<lambda>_ f.
      st_bind (write_raw_formats ic raw target backend formats f) (\<lambda>files f. (Inr (out # files), f))))"

fun write_dynamic_formats ::
    "'img image_codec \<Rightarrow> bytes \<Rightarrow> 'img option \<Rightarrow> string \<Rightarrow> image_backend_config \<Rightarrow> image_output_format list \<Rightarrow> fs \<Rightarrow>
     (export_error + string list) \<times> fs" where
  "write_dynamic_formats ic payload img target backend [] f = (Inr [], f)"
| "write_dynamic_formats ic payload img target backend (format # formats) f =
     (let out = image_output_file_for_format target format in
      st_bind (case img of Some i \<Rightarrow> Inr i | None \<Rightarrow> decode_image_payload_bytes ic payload target, f) (\<lambda>i f.
      st_bind (write_dynamic_image_to_image_file ic i out format backend f) (\<lambda>_ f.
      st_bind (write_dynamic_formats ic payload (Some i) target backend formats f) (\<lambda>files f. (Inr (out # files), f)))))"

definition write_native_image_payload_final_files_with_backend ::
    "'img image_codec \<Rightarrow> string \<Rightarrow> bytes \<Rightarrow> region_config \<Rightarrow> image_backend_config \<Rightarrow> fs \<Rightarrow> (export_error + string list) \<times> fs" where
  "write_native_image_payload_final_files_with_backend ic target payload region backend f =
     (let formats = region_image_formats region in
      if starts_with RGBA_IR_MAGIC payload
      then st_bind (parse_native_rgba_ir_payload payload target, f) (\<lambda>raw f. write_raw_formats ic raw target backend formats f)
      else write_dynamic_formats ic payload None target backend formats f)"

section \<open>Tasks with effects\<close>

text \<open>
  The pool of \<open>Export_Pool\<close> runs tasks that write files. Every task works on files of its own, so the files are those
  of running the tasks one after another, in the order in which they end; \<open>order\<close> lists them. After an error the
  tasks that are already running still end, the others are not started.
\<close>

fun run_effects ::
    "('i \<Rightarrow> fs \<Rightarrow> (export_error + 't) \<times> fs) \<Rightarrow> 'i list \<Rightarrow> fs \<Rightarrow> (export_error + 't list) \<times> fs" where
  "run_effects task [] f = (Inr [], f)"
| "run_effects task (i # order) f =
     (let (r, f1) = task i f; (rs, f2) = run_effects task order f1
      in (res_bind r (\<lambda>t. res_bind rs (\<lambda>ts. Inr (t # ts))), f2))"

definition flush_pending_native_image_writes_with ::
    "'img image_codec \<Rightarrow> pending_image_write list \<Rightarrow> image_backend_config \<Rightarrow> fs \<Rightarrow> (export_error + string list list) \<times> fs" where
  "flush_pending_native_image_writes_with ic order backend f =
     run_effects (\<lambda>job. write_native_image_payload_final_files_with_backend ic (pi_target job) (pi_payload job) (pi_region job) backend)
       order f"

section \<open>Post-processing of images\<close>

definition handle_png_file ::
    "'img image_codec \<Rightarrow> image_backend_config \<Rightarrow> image_output_format list \<Rightarrow> bool \<Rightarrow> string \<Rightarrow> fs \<Rightarrow> (export_error + string list) \<times> fs" where
  "handle_png_file ic backend secondary_formats keep_png png_file f =
     st_bind (io_at png_file (fs_read png_file f)) (\<lambda>payload f.
     st_bind (decode_image_payload_bytes ic payload png_file, f) (\<lambda>img f.
     st_bind (write_dynamic_formats ic payload (Some img) png_file backend secondary_formats f) (\<lambda>generated f.
     st_bind (if keep_png then (Inr (), f) else remove_export_file_if_exists png_file f) (\<lambda>_ f. (Inr generated, f)))))"

definition handle_png_conversion ::
    "'img image_codec \<Rightarrow> (string list \<Rightarrow> string list) \<Rightarrow> string \<Rightarrow> dir_listing \<Rightarrow> string list \<Rightarrow> region_config \<Rightarrow>
     image_backend_config \<Rightarrow> bool \<Rightarrow> fs \<Rightarrow> (export_error + string list) \<times> fs" where
  "handle_png_conversion ic order export_path listing scoped_files region backend scoped_post_process f =
     (let output_formats = region_image_formats region;
          secondary_formats = filter (\<lambda>format. format \<noteq> FmtPng) output_formats
      in if secondary_formats = [] then (Inr [], f)
         else st_bind (post_process_files_by_extension export_path listing scoped_post_process scoped_files ''png'' f, f)
           (\<lambda>png_files f.
              st_bind (run_effects (handle_png_file ic backend secondary_formats (FmtPng \<in> set output_formats)) (order png_files) f)
                (\<lambda>results f. (Inr (concat results), f))))"

definition image_error_at :: "string \<Rightarrow> export_error \<Rightarrow> export_error" where
  "image_error_at path e = (case e of ExImage _ source \<Rightarrow> ExImage path source | other \<Rightarrow> other)"

definition convert_image_to_png :: "'img image_codec \<Rightarrow> string \<Rightarrow> string \<Rightarrow> fs \<Rightarrow> (export_error + unit) \<times> fs" where
  "convert_image_to_png ic source_file png_file f =
     st_bind (io_at source_file (fs_read source_file f)) (\<lambda>payload f.
     st_bind (st_map_err (image_error_at source_file) (decode_image_payload_bytes ic payload source_file, f)) (\<lambda>img f.
       write_dynamic_image_to_png_file ic img png_file PngFast f))"

definition convert_surrogate :: "'img image_codec \<Rightarrow> string \<Rightarrow> fs \<Rightarrow> (export_error + string list) \<times> fs" where
  "convert_surrogate ic surrogate_file f =
     (let png_file = with_extension surrogate_file ''png'' in
      case convert_image_to_png ic surrogate_file png_file f of
        (Inr _, f) \<Rightarrow> st_bind (remove_export_file_if_exists surrogate_file f) (\<lambda>_ f. (Inr [png_file], f))
      | (Inl (ExIo p NotFound), f) \<Rightarrow>
          if fs_files f png_file \<noteq> None then (Inr [], f) else (Inl (ExIo p NotFound), f)
      | (Inl error, f) \<Rightarrow> (Inl error, f))"

definition convert_native_surrogate_images_to_png ::
    "'img image_codec \<Rightarrow> (string list \<Rightarrow> string list) \<Rightarrow> bool \<Rightarrow> string \<Rightarrow> dir_listing \<Rightarrow> string list \<Rightarrow> bool \<Rightarrow> fs \<Rightarrow>
     (export_error + string list) \<times> fs" where
  "convert_native_surrogate_images_to_png ic order export_path_exists export_path listing scoped_files scoped_post_process f =
     (if \<not> export_path_exists then (Inr [], f)
      else st_bind (post_process_files_by_extension export_path listing scoped_post_process scoped_files
                      NATIVE_AOT_IMAGE_SURROGATE_FORMAT f, f) (\<lambda>surrogate_files f.
           st_bind (run_effects (convert_surrogate ic) (order surrogate_files) f) (\<lambda>results f. (Inr (concat results), f))))"

section \<open>What is written for a queued image\<close>

text \<open>The specification: how an image looks in each format, and the files of a queued image with their contents.\<close>

fun raw_encoding :: "'img image_codec \<Rightarrow> image_backend_config \<Rightarrow> native_rgba_ir \<Rightarrow> image_output_format \<Rightarrow> encoded" where
  "raw_encoding ic backend raw FmtPng =
     ic_png ic (im_png_compression backend) (ir_width raw) (ir_height raw) (native_rgba_ir_contiguous_pixels raw)"
| "raw_encoding ic backend raw FmtJpg =
     ic_jpeg ic (im_jpeg_quality backend) (ir_width raw) (ir_height raw) (rgb_of_rgba (native_rgba_ir_contiguous_pixels raw))"
| "raw_encoding ic backend raw FmtWebp =
     ic_webp ic (ir_width raw) (ir_height raw) (native_rgba_ir_contiguous_pixels raw)"

fun dynamic_encoding :: "'img image_codec \<Rightarrow> image_backend_config \<Rightarrow> 'img \<Rightarrow> image_output_format \<Rightarrow> encoded" where
  "dynamic_encoding ic backend img FmtPng = (case ic_rgba8 ic img of (w, h, px) \<Rightarrow> ic_png ic (im_png_compression backend) w h px)"
| "dynamic_encoding ic backend img FmtJpg = (case ic_rgb8 ic img of (w, h, px) \<Rightarrow> ic_jpeg ic (im_jpeg_quality backend) w h px)"
| "dynamic_encoding ic backend img FmtWebp = (case ic_rgba8 ic img of (w, h, px) \<Rightarrow> ic_webp ic w h px)"

definition image_encoding ::
    "'img image_codec \<Rightarrow> image_backend_config \<Rightarrow> pending_image_write \<Rightarrow> export_error + (image_output_format \<Rightarrow> encoded)" where
  "image_encoding ic backend job =
     (if starts_with RGBA_IR_MAGIC (pi_payload job)
      then map_sum id (raw_encoding ic backend) (parse_native_rgba_ir_payload (pi_payload job) (pi_target job))
      else map_sum id (dynamic_encoding ic backend) (decode_image_payload_bytes ic (pi_payload job) (pi_target job)))"

definition encoded_bytes :: "encoded \<Rightarrow> bytes" where
  "encoded_bytes e = en_early e @ en_late e"

definition can_encode :: "'img image_codec \<Rightarrow> image_backend_config \<Rightarrow> pending_image_write \<Rightarrow> bool" where
  "can_encode ic backend job =
     (case image_encoding ic backend job of
        Inl _ \<Rightarrow> False
      | Inr enc \<Rightarrow> list_all (\<lambda>format. en_error (enc format) = None) (region_image_formats (pi_region job)))"

definition image_files :: "'img image_codec \<Rightarrow> image_backend_config \<Rightarrow> pending_image_write \<Rightarrow> string \<rightharpoonup> bytes" where
  "image_files ic backend job =
     (case image_encoding ic backend job of
        Inl _ \<Rightarrow> Map.empty
      | Inr enc \<Rightarrow>
          map_of (rev (map (\<lambda>format. (image_output_file_for_format (pi_target job) format, encoded_bytes (enc format)))
                       (region_image_formats (pi_region job)))))"

text \<open>Both families of writers write the encoding of their format.\<close>

lemma raw_writer_encoded:
  "write_native_rgba_ir_to_image_file ic raw out format backend = write_encoded ic out (raw_encoding ic backend raw format)"
  by (cases format) (simp_all add: write_native_rgba_ir_to_png_file_def write_native_rgba_ir_to_jpeg_file_def
      write_native_rgba_ir_to_webp_file_def)

lemma dynamic_writer_encoded:
  "write_dynamic_image_to_image_file ic img out format backend = write_encoded ic out (dynamic_encoding ic backend img format)"
  by (cases format) (simp_all add: write_dynamic_image_to_png_file_def write_dynamic_image_to_jpeg_file_def
      write_dynamic_image_to_webp_file_def split: prod.split)

lemma quiet_write_encoded:
  assumes "fs_fault f = no_faults" and "en_error e = None"
  shows "\<exists>f'. write_encoded ic out e f = (Inr (), f') \<and> fs_fault f' = no_faults \<and>
    fs_files f' = (fs_files f)(out \<mapsto> encoded_bytes e)"
  using assms by (simp add: write_encoded_def fs_create_def quiet_write quiet_append encoded_bytes_def)

definition format_files :: "string \<Rightarrow> (image_output_format \<Rightarrow> encoded) \<Rightarrow> image_output_format list \<Rightarrow> string \<rightharpoonup> bytes" where
  "format_files target enc formats =
     map_of (rev (map (\<lambda>format. (image_output_file_for_format target format, encoded_bytes (enc format))) formats))"

lemma format_files_Cons:
  "m(image_output_file_for_format target format \<mapsto> encoded_bytes (enc format)) ++ format_files target enc formats =
     m ++ format_files target enc (format # formats)"
  by (simp add: format_files_def map_of_append fun_upd_def map_add_def fun_eq_iff split: option.split)

lemma quiet_raw_formats:
  assumes "fs_fault f = no_faults" and "list_all (\<lambda>format. en_error (raw_encoding ic backend raw format) = None) formats"
  shows "\<exists>f'. write_raw_formats ic raw target backend formats f = (Inr (map (image_output_file_for_format target) formats), f') \<and>
    fs_fault f' = no_faults \<and> fs_files f' = fs_files f ++ format_files target (raw_encoding ic backend raw) formats"
  using assms
proof (induction formats arbitrary: f)
  case Nil
  then show ?case by (simp add: format_files_def)
next
  case (Cons format formats)
  obtain f1 where f1: "write_encoded ic (image_output_file_for_format target format) (raw_encoding ic backend raw format) f = (Inr (), f1)"
    "fs_fault f1 = no_faults"
    "fs_files f1 = (fs_files f)(image_output_file_for_format target format \<mapsto> encoded_bytes (raw_encoding ic backend raw format))"
    using quiet_write_encoded [OF Cons.prems(1), of "raw_encoding ic backend raw format" ic "image_output_file_for_format target format"] Cons.prems(2) by auto
  obtain f2 where f2: "write_raw_formats ic raw target backend formats f1 = (Inr (map (image_output_file_for_format target) formats), f2)"
    "fs_fault f2 = no_faults" "fs_files f2 = fs_files f1 ++ format_files target (raw_encoding ic backend raw) formats"
    using Cons.IH [OF f1(2)] Cons.prems(2) by auto
  have "fs_files f2 = fs_files f ++ format_files target (raw_encoding ic backend raw) (format # formats)"
    by (simp only: f2(3) f1(3) format_files_Cons)
  with f1(1) f2(1,2) show ?case by (simp add: raw_writer_encoded)
qed

lemma quiet_dynamic_formats:
  assumes "fs_fault f = no_faults" and "list_all (\<lambda>format. en_error (dynamic_encoding ic backend img format) = None) formats"
    and "kept = Some img \<or> kept = None \<and> decode_image_payload_bytes ic payload target = Inr img"
  shows "\<exists>f'. write_dynamic_formats ic payload kept target backend formats f =
      (Inr (map (image_output_file_for_format target) formats), f') \<and>
    fs_fault f' = no_faults \<and> fs_files f' = fs_files f ++ format_files target (dynamic_encoding ic backend img) formats"
  using assms
proof (induction formats arbitrary: f kept)
  case Nil
  then show ?case by (simp add: format_files_def)
next
  case (Cons format formats)
  obtain f1 where f1: "write_encoded ic (image_output_file_for_format target format) (dynamic_encoding ic backend img format) f = (Inr (), f1)"
    "fs_fault f1 = no_faults"
    "fs_files f1 = (fs_files f)(image_output_file_for_format target format \<mapsto> encoded_bytes (dynamic_encoding ic backend img format))"
    using quiet_write_encoded [OF Cons.prems(1), of "dynamic_encoding ic backend img format" ic "image_output_file_for_format target format"] Cons.prems(2) by auto
  have "(case kept of Some i \<Rightarrow> Inr i | None \<Rightarrow> decode_image_payload_bytes ic payload target) = Inr img"
    using Cons.prems(3) by auto
  moreover obtain f2 where f2: "write_dynamic_formats ic payload (Some img) target backend formats f1 =
      (Inr (map (image_output_file_for_format target) formats), f2)" "fs_fault f2 = no_faults"
    "fs_files f2 = fs_files f1 ++ format_files target (dynamic_encoding ic backend img) formats"
    using Cons.IH [OF f1(2), of "Some img"] Cons.prems(2) by auto
  moreover have "fs_files f2 = fs_files f ++ format_files target (dynamic_encoding ic backend img) (format # formats)"
    by (simp only: f2(3) f1(3) format_files_Cons)
  ultimately show ?case using f1(1) by (simp add: dynamic_writer_encoded)
qed

lemma quiet_image_written:
  assumes "fs_fault f = no_faults" and "can_encode ic backend job"
  shows "\<exists>f'. write_native_image_payload_final_files_with_backend ic (pi_target job) (pi_payload job) (pi_region job) backend f =
      (Inr (planned_image_output_files (pi_target job) (pi_region job)), f') \<and>
    fs_fault f' = no_faults \<and> fs_files f' = fs_files f ++ image_files ic backend job"
proof (cases "starts_with RGBA_IR_MAGIC (pi_payload job)")
  case True
  then obtain raw where raw: "parse_native_rgba_ir_payload (pi_payload job) (pi_target job) = Inr raw"
    "list_all (\<lambda>format. en_error (raw_encoding ic backend raw format) = None) (region_image_formats (pi_region job))"
    using assms(2)
    by (cases "parse_native_rgba_ir_payload (pi_payload job) (pi_target job)") (simp_all add: can_encode_def image_encoding_def)
  with quiet_raw_formats [OF assms(1) raw(2), of "pi_target job"] True show ?thesis
    by (simp add: write_native_image_payload_final_files_with_backend_def planned_image_output_files_def image_files_def
        image_encoding_def format_files_def)
next
  case False
  then obtain img where img: "decode_image_payload_bytes ic (pi_payload job) (pi_target job) = Inr img"
    "list_all (\<lambda>format. en_error (dynamic_encoding ic backend img format) = None) (region_image_formats (pi_region job))"
    using assms(2)
    by (cases "decode_image_payload_bytes ic (pi_payload job) (pi_target job)") (simp_all add: can_encode_def image_encoding_def)
  with quiet_dynamic_formats [OF assms(1) img(2), of None "pi_payload job" "pi_target job"] False show ?thesis
    by (simp add: write_native_image_payload_final_files_with_backend_def planned_image_output_files_def image_files_def
        image_encoding_def format_files_def)
qed


section \<open>An image library that copies\<close>

definition demo_codec :: "bytes image_codec" where
  "demo_codec = \<lparr>ic_decode = (\<lambda>b. Inr (Inr b)), ic_from_raw = (\<lambda>w h b. Some b), ic_rgba8 = (\<lambda>b. (1, 1, b)), ic_rgb8 = (\<lambda>b. (1, 1, b)),
     ic_png = (\<lambda>c w h b. \<lparr>en_early = [0x89], en_late = b, en_error = None\<rparr>),
     ic_jpeg = (\<lambda>q w h b. \<lparr>en_early = [0xFF], en_late = b, en_error = None\<rparr>),
     ic_webp = (\<lambda>w h b. \<lparr>en_early = [0x52], en_late = b, en_error = None\<rparr>), ic_write_error = (\<lambda>_. ''disk full'')\<rparr>"

definition demo_image_job :: "string \<Rightarrow> bytes \<Rightarrow> pending_image_write" where
  "demo_image_job target payload = \<lparr>pi_target = target, pi_payload = payload, pi_region = default_region_config\<rparr>"

definition demo_disk :: "(nat \<Rightarrow> fs_op \<Rightarrow> fault option) \<Rightarrow> fs" where
  "demo_disk faults = \<lparr>fs_files = Map.empty, fs_clock = 0, fs_fault = faults\<rparr>"

lemma demo_png_names:
  "image_output_file_for_format ''a.bmp'' FmtPng = ''a.png''" "image_output_file_for_format ''b.bmp'' FmtPng = ''b.png''"
  by (code_simp, code_simp)

lemma demo_image_formats: "region_image_formats default_region_config = [FmtPng]"
  by code_simp

lemma demo_no_magic: "\<not> starts_with RGBA_IR_MAGIC [x]"
  by (simp add: starts_with_def RGBA_IR_MAGIC_def as_bytes_def)

lemmas demo_image_defs = demo_image_job_def image_encoding_def decode_image_payload_bytes_def demo_no_magic demo_codec_def
  demo_image_formats demo_png_names


text \<open>When the last part of an image cannot be written the export succeeds with a truncated file.\<close>

theorem truncated_image_reported_as_written:
  "let r = write_native_image_payload_final_files_with_backend demo_codec ''a.bmp'' [1] default_region_config
        default_image_backend_config (demo_disk (\<lambda>t _. if t = 2 then Some (OtherIo, None) else None)) in
   fst r = Inr [''a.png''] \<and> fs_files (snd r) ''a.png'' = Some [0x89]"
  by (simp add: demo_image_defs write_native_image_payload_final_files_with_backend_def Let_def demo_disk_def
      write_dynamic_image_to_png_file_def write_encoded_def fs_create_def fs_write_def fs_append_def fs_fails_def fs_tick_def)

end
