(* ===== verification/Export_Write.thy ===== *)
theory Export_Write
  imports Export_Claims Export_Images
begin

text \<open>
  Writing what the library returned for an object (\<^verbatim>\<open>write_native_object_payload\<close> and what it calls in
  \<^verbatim>\<open>src/core/export_pipeline/implementation/payload.rs\<close>), the timelines that are collected per container, and the flush of
  queued images. The state is what the export remembers (\<open>path_state\<close>) and the files. JSON is an argument: a parsed value is
  represented by the bytes it was parsed from.
\<close>

section \<open>State\<close>

record path_state =
  ps_claims :: claims
  ps_written_files :: "string list"
  ps_acb_sources :: "in_memory_media_source list"
  ps_pending_image_writes :: "pending_image_write list"
  ps_pending_image_bytes :: nat

definition empty_path_state :: path_state where
  "empty_path_state = \<lparr>ps_claims = [], ps_written_files = [], ps_acb_sources = [], ps_pending_image_writes = [],
     ps_pending_image_bytes = 0\<rparr>"

record image_flush_config =
  if_flush_bytes :: nat
  if_concurrency :: nat
  if_cpu_budget :: nat
  if_image_backend :: image_backend_config

record object_export_options =
  eo_output_dir :: string
  eo_export_path :: string
  eo_strip_path_prefix :: string
  eo_region :: region_config
  eo_read_kinds :: "(string, string) btmap"
  eo_image_format :: string
  eo_read_batch_size :: nat
  eo_image_flush :: "image_flush_config option"

record manifest_entry =
  me_path :: string
  me_asset_type :: "string option"
  me_name :: "string option"
  me_container :: "string option"
  me_payload_kind :: "string option"
  me_suggested_extension :: "string option"

record playable_object =
  po_name :: "string option"
  po_asset_type :: "string option"
  po_data :: bytes

record export_env =
  xe_ct :: case_tables
  xe_io :: "io_kind \<Rightarrow> string"
  xe_is_dir :: "fs \<Rightarrow> string \<Rightarrow> bool"
  xe_bundle_json :: "bytes \<Rightarrow> string + bundle_json"
  xe_json_error :: "bytes \<Rightarrow> string option"
  xe_manifest_line :: "manifest_entry \<Rightarrow> string + string"
  xe_playable_json :: "string \<Rightarrow> playable_object list \<Rightarrow> string + bytes"

type_synonym 'a writing = "path_state \<times> fs \<Rightarrow> ((export_error + 'a) \<times> path_state \<times> fs) option"

definition on_fs :: "(fs \<Rightarrow> (export_error + 'a) \<times> fs) \<Rightarrow> 'a writing" where
  "on_fs op = (\<lambda>(ps, f). Some (fst (op f), ps, snd (op f)))"

definition path_exists :: "export_env \<Rightarrow> fs \<Rightarrow> string \<Rightarrow> bool" where
  "path_exists env f p \<longleftrightarrow> fs_files f p \<noteq> None \<or> xe_is_dir env f p"

section \<open>The manifest of an export\<close>

definition assetstudio_manifest_public_target :: "export_env \<Rightarrow> string \<Rightarrow> object_read_output \<Rightarrow> export_error + string" where
  "assetstudio_manifest_public_target env target read_output =
     (let kind = or_payload_kind (ro_response read_output) in
      if kind = Some ''image_bmp'' \<or> kind = Some ''image_raw_rgba''
      then Inr (if has_extension ''bmp'' target then with_extension target ''png'' else target)
      else if kind = Some ''animator_bundle_fbx''
      then res_bind (parse_payload_bundle_borrowed (xe_io env) (ro_payload read_output)) (\<lambda>entries.
             let names = map fst entries;
                 entry_name = (case List.find (has_extension ''fbx'') names of
                                 Some name \<Rightarrow> name
                               | None \<Rightarrow> (case names of name # _ \<Rightarrow> name | [] \<Rightarrow> ''payload.bin''))
             in Inr (payload_bundle_entry_target target entry_name))
      else Inr target)"

definition manifest_suggested_extension :: "string \<Rightarrow> object_read_output \<Rightarrow> string option" where
  "manifest_suggested_extension public_target read_output =
     opt_or (map_option (\<lambda>ext. ''.'' @ ext) (opt_filter (\<lambda>ext. trim ext \<noteq> []) (path_text (extension public_target))))
       (or_suggested_extension (ro_response read_output))"

definition ASSETSTUDIO_MANIFEST_LOCKS :: nat where "ASSETSTUDIO_MANIFEST_LOCKS = 64"

fun hash_bytes :: "bytes \<Rightarrow> 64 word \<Rightarrow> 64 word" where
  "hash_bytes [] hash = hash"
| "hash_bytes (b # bs) hash = hash_bytes bs (hash * 131 + ucast b)"

definition manifest_lock_index :: "string \<Rightarrow> nat" where
  "manifest_lock_index path = unat (hash_bytes (as_bytes (from_utf8_lossy path)) 0) mod ASSETSTUDIO_MANIFEST_LOCKS"

definition manifest_path :: "string \<Rightarrow> string" where
  "manifest_path output_dir = path_join output_dir ''.assetstudio-export-manifest.jsonl''"

text \<open>The lock serialises the writers of one process and is held while a line is appended; the line and its end are
  two writes.\<close>

definition append_manifest_line :: "string \<Rightarrow> string \<Rightarrow> fs \<Rightarrow> (export_error + unit) \<times> fs" where
  "append_manifest_line path line f =
     st_bind (io_at path (fs_append path [] f)) (\<lambda>_ f.
     st_bind (io_at path (fs_append path (as_bytes line) f)) (\<lambda>_ f. io_at path (fs_append path [10] f)))"

definition write_assetstudio_export_manifest_entry ::
    "export_env \<Rightarrow> string \<Rightarrow> string \<Rightarrow> asset_info \<Rightarrow> object_read_output \<Rightarrow> fs \<Rightarrow> (export_error + unit) \<times> fs" where
  "write_assetstudio_export_manifest_entry env output_dir target asset read_output f =
     st_bind (io_at output_dir (fs_create_dir_all output_dir f)) (\<lambda>_ f.
     st_bind (assetstudio_manifest_public_target env target read_output, f) (\<lambda>public_target f.
       let path = replace_char (CHR 0x5C) (CHR ''/'')
                    (from_utf8_lossy (unwrap_or public_target (path_strip_prefix_text public_target output_dir)));
           entry = \<lparr>me_path = path, me_asset_type = ai_asset_type asset, me_name = ai_name asset,
                    me_container = ai_container asset, me_payload_kind = or_payload_kind (ro_response read_output),
                    me_suggested_extension = manifest_suggested_extension public_target read_output\<rparr>
       in case xe_manifest_line env entry of
            Inl source \<Rightarrow> (Inl (ExFfiSerialize source), f)
          | Inr line \<Rightarrow> append_manifest_line (manifest_path output_dir) line f))"

section \<open>Files of an object\<close>

definition create_target_parent :: "string \<Rightarrow> fs \<Rightarrow> (export_error + unit) \<times> fs" where
  "create_target_parent target f =
     (case parent target of None \<Rightarrow> (Inr (), f) | Some dir \<Rightarrow> io_at dir (fs_create_dir_all dir f))"

definition write_native_payload_file :: "string \<Rightarrow> bytes \<Rightarrow> fs \<Rightarrow> (export_error + unit) \<times> fs" where
  "write_native_payload_file target payload f = io_at target (fs_write target payload f)"

fun write_entry_files :: "string \<Rightarrow> entry list \<Rightarrow> fs \<Rightarrow> (export_error + string list) \<times> fs" where
  "write_entry_files target [] f = (Inr [], f)"
| "write_entry_files target ((name, b) # entries) f =
     (let entry_target = payload_bundle_entry_target target name in
      st_bind (create_target_parent entry_target f) (\<lambda>_ f.
      st_bind (io_at entry_target (fs_write entry_target b f)) (\<lambda>_ f.
      st_bind (write_entry_files target entries f) (\<lambda>written f. (Inr (entry_target # written), f)))))"

definition write_payload_bundle :: "export_env \<Rightarrow> string \<Rightarrow> bytes \<Rightarrow> fs \<Rightarrow> (export_error + string list) \<times> fs" where
  "write_payload_bundle env target payload f =
     st_bind (parse_payload_bundle_borrowed (xe_io env) payload, f) (\<lambda>entries f. write_entry_files target entries f)"

definition queue_native_image_payload_final_files ::
    "string \<Rightarrow> bytes \<Rightarrow> region_config \<Rightarrow> path_state \<Rightarrow> string list \<times> path_state" where
  "queue_native_image_payload_final_files target payload region ps =
     (planned_image_output_files target region,
      ps\<lparr>ps_pending_image_bytes := min usize_max (ps_pending_image_bytes ps + length payload),
         ps_pending_image_writes := ps_pending_image_writes ps @ [\<lparr>pi_target = target, pi_payload = payload, pi_region = region\<rparr>]\<rparr>)"

fun queue_entries :: "string \<Rightarrow> region_config \<Rightarrow> entry list \<Rightarrow> string list writing" where
  "queue_entries target region [] s = Some (Inr [], s)"
| "queue_entries target region ((name, b) # entries) s =
     (let entry_target = with_extension (payload_bundle_entry_target target name) ''png'' in
      run_bind (on_fs (create_target_parent entry_target) s) (\<lambda>_ (ps, f).
        let (written, ps) = queue_native_image_payload_final_files entry_target b region ps in
        run_bind (queue_entries target region entries (ps, f)) (\<lambda>rest s. Some (Inr (written @ rest), s))))"

definition queue_native_image_payload_bundle_final_files ::
    "export_env \<Rightarrow> string \<Rightarrow> bytes \<Rightarrow> region_config \<Rightarrow> string list writing" where
  "queue_native_image_payload_bundle_final_files env target payload region s =
     run_bind (Some (parse_payload_bundle_borrowed (xe_io env) payload, s)) (\<lambda>entries s. queue_entries target region entries s)"

section \<open>Writing an object\<close>

definition object_target :: "export_env \<Rightarrow> object_export_options \<Rightarrow> asset_info \<Rightarrow> object_read_output \<Rightarrow> export_error + string" where
  "object_target env options asset read_output =
     (let kind = or_payload_kind (ro_response read_output);
          by_category = xp_by_category (rg_export (eo_region options));
          target = native_object_output_path (xe_ct env) (eo_output_dir options) (eo_export_path options)
                     (eo_strip_path_prefix options) by_category asset kind (or_suggested_extension (ro_response read_output));
          target = unwrap_or target (text_asset_public_bytes_target target asset)
      in res_bind (assetbundle_typetree_output_path (xe_bundle_json env) (xe_ct env) (eo_output_dir options) (eo_export_path options)
                     (eo_strip_path_prefix options) by_category asset kind (ro_payload read_output))
           (\<lambda>bundle. Inr (unwrap_or target bundle)))"

abbreviation single_image_kind :: "string \<Rightarrow> bool" where
  "single_image_kind kind \<equiv> kind = ''image_bmp'' \<or> kind = ''image_raw_rgba''"

definition write_payload_files :: "export_env \<Rightarrow> region_config \<Rightarrow> string \<Rightarrow> string \<Rightarrow> bytes \<Rightarrow> string list writing" where
  "write_payload_files env region target kind payload s =
     (if kind = ''image_array_bundle_raw_rgba'' then queue_native_image_payload_bundle_final_files env target payload region s
      else if starts_with ''image_array_bundle_'' kind \<or> kind = ''animator_bundle_fbx''
      then on_fs (write_payload_bundle env target payload) s
      else if single_image_kind kind
      then (case s of (ps, f) \<Rightarrow>
              let (written, ps) = queue_native_image_payload_final_files target payload region ps in Some (Inr written, ps, f))
      else run_bind (on_fs (write_native_payload_file target payload) s) (\<lambda>_ s. Some (Inr [target], s)))"

fun write_manifest_entries ::
    "export_env \<Rightarrow> string \<Rightarrow> string list \<Rightarrow> asset_info \<Rightarrow> object_read_output \<Rightarrow> fs \<Rightarrow> (export_error + unit) \<times> fs" where
  "write_manifest_entries env output_dir [] asset read_output f = (Inr (), f)"
| "write_manifest_entries env output_dir (t # ts) asset read_output f =
     st_bind (write_assetstudio_export_manifest_entry env output_dir t asset read_output f) (\<lambda>_ f.
       write_manifest_entries env output_dir ts asset read_output f)"

definition manifest_targets :: "region_config \<Rightarrow> string \<Rightarrow> string \<Rightarrow> string list \<Rightarrow> string list" where
  "manifest_targets region kind target written =
     (if starts_with ''image_array_bundle_'' kind
      then map (\<lambda>w. native_image_surrogate_public_target w region) written
      else [if single_image_kind kind then native_image_surrogate_public_target target region else target])"

definition record_written ::
    "export_env \<Rightarrow> object_export_options \<Rightarrow> asset_info \<Rightarrow> object_read_output \<Rightarrow> string \<Rightarrow> string list \<Rightarrow> unit writing" where
  "record_written env options asset read_output target written = (\<lambda>(ps, f).
     let ps = ps\<lparr>ps_written_files := ps_written_files ps @ written\<rparr>;
         kind = unwrap_or [] (or_payload_kind (ro_response read_output)); region = eo_region options
     in if is_text_asset_decoded_usm_target asset target region then Some (Inr (), ps, f)
        else on_fs (write_manifest_entries env (eo_output_dir options) (manifest_targets region kind target written)
                      asset read_output) (ps, f))"

definition store_payload ::
    "export_env \<Rightarrow> object_export_options \<Rightarrow> asset_info \<Rightarrow> object_read_output \<Rightarrow> string \<Rightarrow> unit writing" where
  "store_payload env options asset read_output target = (\<lambda>(ps, f).
     let kind = unwrap_or [] (or_payload_kind (ro_response read_output)); payload = ro_payload read_output
     in if is_text_asset_acb_target asset target
        then Some (Inr (), ps\<lparr>ps_acb_sources := ps_acb_sources ps @ [\<lparr>ms_target = target, ms_payload = payload\<rparr>]\<rparr>, f)
        else run_bind (write_payload_files env (eo_region options) target kind payload (ps, f))
               (record_written env options asset read_output target))"

definition write_claimed_payload ::
    "export_env \<Rightarrow> object_export_options \<Rightarrow> asset_info \<Rightarrow> object_read_output \<Rightarrow> string \<Rightarrow> unit writing" where
  "write_claimed_payload env options asset read_output target s =
     run_bind (on_fs (create_target_parent target) s) (\<lambda>_. store_payload env options asset read_output target)"

definition write_native_object_payload ::
    "export_env \<Rightarrow> object_export_options \<Rightarrow> asset_info \<Rightarrow> object_read_output \<Rightarrow> unit writing" where
  "write_native_object_payload env options asset read_output s =
     (if ro_payload read_output = [] \<or> or_payload_kind (ro_response read_output) = Some ''unsupported'' then Some (Inr (), s)
      else run_bind (Some (object_target env options asset read_output, s)) (\<lambda>target (ps, f).
        case claim_payload (path_exists env f) (ps_claims ps) target asset read_output of
          None \<Rightarrow> None
        | Some (Duplicate existing, claims) \<Rightarrow> Some (Inr (), ps, f)
        | Some (Claimed target, claims) \<Rightarrow>
            write_claimed_payload env options asset read_output target (ps\<lparr>ps_claims := claims\<rparr>, f)))"

section \<open>Timelines\<close>

definition is_playable_mono_typetree :: "case_tables \<Rightarrow> asset_info \<Rightarrow> object_read_output \<Rightarrow> bool" where
  "is_playable_mono_typetree ct asset read_output \<longleftrightarrow>
     opt_any (assetstudio_type_selector_matches ct ''MonoBehaviour'') (ai_asset_type asset) \<and>
     or_payload_kind (ro_response read_output) = Some ''typetree_json'' \<and>
     opt_any (\<lambda>container. ends_with ''.playable'' (to_lower (replace_char (CHR 0x5C) (CHR ''/'') container))) (ai_container asset)"

type_synonym playables = "(asset_info \<times> object_read_output) list"

fun group_playables :: "export_env \<Rightarrow> object_export_options \<Rightarrow> playables \<Rightarrow> (string, playables) btmap \<Rightarrow> (string, playables) btmap writing" where
  "group_playables env options [] groups s = Some (Inr groups, s)"
| "group_playables env options ((asset, read_output) # ps) groups s =
     (case map_option (replace_char (CHR 0x5C) (CHR ''/'')) (opt_filter (\<lambda>c. trim c \<noteq> []) (ai_container asset)) of
        None \<Rightarrow>
          run_bind (write_native_object_payload env options asset read_output s) (\<lambda>_ s. group_playables env options ps groups s)
      | Some container \<Rightarrow>
          group_playables env options ps
            (bt_insert container (unwrap_or [] (map_of groups container) @ [(asset, read_output)]) groups) s)"

fun playable_objects :: "export_env \<Rightarrow> playables \<Rightarrow> export_error + playable_object list" where
  "playable_objects env [] = Inr []"
| "playable_objects env ((asset, read_output) # ps) =
     (case xe_json_error env (ro_payload read_output) of
        Some source \<Rightarrow> Inl (ExFfiParse source)
      | None \<Rightarrow> res_bind (playable_objects env ps) (\<lambda>objects.
          Inr (\<lparr>po_name = ai_name asset, po_asset_type = ai_asset_type asset, po_data = ro_payload read_output\<rparr> # objects)))"

definition write_playable_container ::
    "export_env \<Rightarrow> object_export_options \<Rightarrow> string \<Rightarrow> playables \<Rightarrow> unit writing" where
  "write_playable_container env options container entries s =
     (let entries = sort_key (\<lambda>(asset, _). (ai_name asset, ai_index asset)) entries in
      run_bind (Some (playable_objects env entries, s)) (\<lambda>objects s.
        case xe_playable_json env container objects of
          Inl source \<Rightarrow> Some (Inl (ExFfiSerialize source), s)
        | Inr payload \<Rightarrow>
            (case entries of
               [] \<Rightarrow> Some (Inl (ExAssetStudioFfi (''playable export has no objects for container '' @ container)), s)
             | (first_asset, first_read_output) # _ \<Rightarrow>
                 (case s of (ps, f) \<Rightarrow>
                    case claim_path (path_exists env f) (ps_claims ps)
                           (playable_container_output_path (eo_output_dir options) (eo_export_path options)
                              (eo_strip_path_prefix options) (xp_by_category (rg_export (eo_region options))) container) of
                      None \<Rightarrow> None
                    | Some (target, claims) \<Rightarrow>
                        run_bind (on_fs (create_target_parent target) (ps\<lparr>ps_claims := claims\<rparr>, f)) (\<lambda>_ s.
                        run_bind (on_fs (write_native_payload_file target payload) s) (\<lambda>_ (ps, f).
                          on_fs (write_assetstudio_export_manifest_entry env (eo_output_dir options) target first_asset first_read_output)
                            (ps\<lparr>ps_written_files := ps_written_files ps @ [target]\<rparr>, f)))))))"

fun write_playable_containers :: "export_env \<Rightarrow> object_export_options \<Rightarrow> (string, playables) btmap \<Rightarrow> unit writing" where
  "write_playable_containers env options [] s = Some (Inr (), s)"
| "write_playable_containers env options ((container, entries) # groups) s =
     run_bind (write_playable_container env options container entries s) (\<lambda>_ s. write_playable_containers env options groups s)"

definition write_assetstudio_playable_payloads :: "export_env \<Rightarrow> object_export_options \<Rightarrow> playables \<Rightarrow> unit writing" where
  "write_assetstudio_playable_payloads env options playable_outputs s =
     run_bind (group_playables env options playable_outputs [] s) (\<lambda>groups s. write_playable_containers env options groups s)"

section \<open>Flushing in the middle of a bundle\<close>

definition flush_queued_native_images_if_over_threshold ::
    "'img image_codec \<Rightarrow> (pending_image_write list \<Rightarrow> pending_image_write list) \<Rightarrow> object_export_options \<Rightarrow> unit writing" where
  "flush_queued_native_images_if_over_threshold ic order options = (\<lambda>(ps, f).
     case eo_image_flush options of
       None \<Rightarrow> Some (Inr (), ps, f)
     | Some flush \<Rightarrow>
         if ps_pending_image_writes ps = [] \<or> ps_pending_image_bytes ps < if_flush_bytes flush then Some (Inr (), ps, f)
         else (case flush_pending_native_image_writes_with ic (order (ps_pending_image_writes ps)) (if_image_backend flush) f of
                 (r, f) \<Rightarrow> Some (map_sum id (\<lambda>_. ()) r, ps\<lparr>ps_pending_image_writes := [], ps_pending_image_bytes := 0\<rparr>, f)))"

section \<open>Frames\<close>

lemma run_bind_keeps:
  assumes "run_bind m g = Some (r, s')" and "\<And>q s. m = Some (q, s) \<Longrightarrow> P s"
    and "\<And>x s r s'. P s \<Longrightarrow> g x s = Some (r, s') \<Longrightarrow> P s'"
  shows "P s'"
  using assms by (auto simp: run_bind_def split: option.splits prod.splits sum.splits)

lemma on_fs_Some: "on_fs op s = Some (r, s') \<longleftrightarrow> r = fst (op (snd s)) \<and> s' = (fst s, snd (op (snd s)))"
  by (cases s) (auto simp: on_fs_def)

definition holds :: "string \<Rightarrow> bytes option \<Rightarrow> fs \<Rightarrow> bool" where
  "holds p c f \<longleftrightarrow> fs_files f p = c"

lemma st_bind_holds:
  "holds p c (snd r) \<Longrightarrow> (\<And>x s. holds p c s \<Longrightarrow> holds p c (snd (g x s))) \<Longrightarrow> holds p c (snd (st_bind r g))"
  by (rule st_bind_keeps)

lemma other_file_holds:
  "p \<noteq> q \<Longrightarrow> holds p c f \<Longrightarrow> holds p c (snd (fs_write q b f))"
  "p \<noteq> q \<Longrightarrow> holds p c f \<Longrightarrow> holds p c (snd (fs_append q b f))"
  "holds p c f \<Longrightarrow> holds p c (snd (fs_create_dir_all d f))"
  by (auto simp: holds_def fs_write_def fs_append_def Let_def split: option.splits)

lemma create_target_parent_holds: "holds p c f \<Longrightarrow> holds p c (snd (create_target_parent t f))"
  by (auto simp: create_target_parent_def other_file_holds split: option.split)

lemma manifest_line_holds: "p \<noteq> q \<Longrightarrow> holds p c f \<Longrightarrow> holds p c (snd (append_manifest_line q line f))"
  unfolding append_manifest_line_def by (intro st_bind_holds) (simp_all add: other_file_holds)

lemma manifest_entry_holds:
  assumes "p \<noteq> manifest_path output_dir" and "holds p c f"
  shows "holds p c (snd (write_assetstudio_export_manifest_entry env output_dir target asset read_output f))"
  unfolding write_assetstudio_export_manifest_entry_def
proof (intro st_bind_holds)
  show "holds p c (snd (io_at output_dir (fs_create_dir_all output_dir f)))" using assms(2) by (simp add: other_file_holds)
qed (auto simp: Let_def manifest_line_holds [OF assms(1)] split: sum.split)

lemma manifest_entries_hold:
  assumes "p \<noteq> manifest_path output_dir"
  shows "holds p c f \<Longrightarrow> holds p c (snd (write_manifest_entries env output_dir ts asset read_output f))"
proof (induction ts arbitrary: f)
  case (Cons t ts)
  then show ?case unfolding write_manifest_entries.simps by (intro st_bind_holds manifest_entry_holds [OF assms])
qed simp

text \<open>Payloads that become one file, or that are queued for later.\<close>

definition direct_kind :: "string \<Rightarrow> bool" where
  "direct_kind kind \<longleftrightarrow> \<not> starts_with ''image_array_bundle_'' kind \<and> kind \<noteq> ''animator_bundle_fbx''"

lemma direct_payload_files:
  "direct_kind kind \<Longrightarrow> write_payload_files env region target kind payload (ps, f) =
     (if single_image_kind kind
      then Some (Inr (planned_image_output_files target region), snd (queue_native_image_payload_final_files target payload region ps), f)
      else run_bind (on_fs (write_native_payload_file target payload) (ps, f)) (\<lambda>_ s. Some (Inr [target], s)))"
  by (auto simp: write_payload_files_def direct_kind_def queue_native_image_payload_final_files_def starts_with_def Let_def)

lemma direct_payload_keeps:
  assumes "write_payload_files env region target kind payload s = Some (r, s')" and "direct_kind kind"
    and "p \<noteq> target" and "holds p c (snd s)"
  shows "holds p c (snd s')"
proof -
  obtain ps f where s: "s = (ps, f)" by (cases s)
  from assms(1) [unfolded s direct_payload_files [OF assms(2)]] show ?thesis
    using other_file_holds(1) [OF assms(3), of c f payload] assms(4) s
    by (auto simp: on_fs_def write_native_payload_file_def run_bind_def split: if_splits sum.splits)
qed

lemma record_written_keeps:
  assumes "record_written env options asset read_output target written s = Some (r, s')"
    and "p \<noteq> manifest_path (eo_output_dir options)" and "holds p c (snd s)"
  shows "holds p c (snd s')"
  using assms(1,3) manifest_entries_hold [OF assms(2), of c "snd s"]
  by (auto simp: record_written_def Let_def on_fs_Some split: prod.splits if_splits)

lemma store_payload_keeps:
  assumes "store_payload env options asset read_output target s = Some (r, s')"
    and "direct_kind (unwrap_or [] (or_payload_kind (ro_response read_output)))"
    and "p \<noteq> target" and "p \<noteq> manifest_path (eo_output_dir options)" and "holds p c (snd s)"
  shows "holds p c (snd s')"
proof (cases "is_text_asset_acb_target asset target")
  case True
  with assms(1,5) show ?thesis by (auto simp: store_payload_def Let_def split: prod.splits)
next
  case False
  with assms(1) have "run_bind (write_payload_files env (eo_region options) target
      (unwrap_or [] (or_payload_kind (ro_response read_output))) (ro_payload read_output) s)
      (record_written env options asset read_output target) = Some (r, s')"
    by (cases s) (simp add: store_payload_def Let_def)
  then show ?thesis
    by (rule run_bind_keeps) (use direct_payload_keeps [OF _ assms(2,3,5)] record_written_keeps [OF _ assms(4)] in blast)+
qed

lemma claimed_write_keeps:
  assumes "write_claimed_payload env options asset read_output target s = Some (r, s')"
    and "direct_kind (unwrap_or [] (or_payload_kind (ro_response read_output)))"
    and "p \<noteq> target" and "p \<noteq> manifest_path (eo_output_dir options)" and "holds p c (snd s)"
  shows "holds p c (snd s')"
  using assms(1) unfolding write_claimed_payload_def
proof (rule run_bind_keeps)
  show "holds p c (snd s1)" if "on_fs (create_target_parent target) s = Some (q, s1)" for q s1
    using that assms(5) by (auto simp: on_fs_Some create_target_parent_holds)
qed (rule store_payload_keeps [OF _ assms(2-4)])

section \<open>No file is overwritten\<close>

lemma claim_is_new:
  assumes "claim_payload on_disk claims path asset read_output = Some (Claimed target, claims')"
  shows "components target \<notin> claimed_keys claims \<and> \<not> on_disk target \<and>
    claims' = hmap_insert (components target) (Some (native_payload_signature asset read_output)) claims"
  using claim_loop_ok [OF assms [unfolded claim_payload_def claim_with_signature_def]]
  by (auto simp: claim_ok_def candidate_busy_def)

lemma duplicate_has_signature:
  assumes "claim_payload on_disk claims path asset read_output = Some (Duplicate existing, claims')"
  shows "map_of claims (components existing) = Some (Some (native_payload_signature asset read_output)) \<and> claims' = claims"
  using claim_loop_ok [OF assms [unfolded claim_payload_def claim_with_signature_def]] by (auto simp: claim_ok_def)

text \<open>C10: Writing an object that becomes one file leaves every file that was there before as it was, apart from the manifest
  of the export, whatever fails on the way.\<close>

theorem object_overwrites_no_file:
  assumes "write_native_object_payload env options asset read_output (ps, f) = Some (r, ps', f')"
    and "direct_kind (unwrap_or [] (or_payload_kind (ro_response read_output)))"
    and "fs_files f p = Some b" and "p \<noteq> manifest_path (eo_output_dir options)"
  shows "fs_files f' p = Some b"
proof (cases "ro_payload read_output = [] \<or> or_payload_kind (ro_response read_output) = Some ''unsupported''")
  case True
  with assms(1,3) show ?thesis by (simp add: write_native_object_payload_def)
next
  case False
  show ?thesis
  proof (cases "object_target env options asset read_output")
    case (Inl e)
    with assms(1,3) False show ?thesis by (simp add: write_native_object_payload_def)
  next
    case (Inr path)
    note run = assms(1) [unfolded write_native_object_payload_def if_not_P [OF False] Inr run_bind_simps prod.case]
    show ?thesis
    proof (cases "claim_payload (path_exists env f) (ps_claims ps) path asset read_output")
      case None
      with run show ?thesis by simp
    next
      case (Some c)
      obtain k claims' where c: "c = (k, claims')" by (cases c)
      show ?thesis
      proof (cases k)
        case (Duplicate q)
        with run Some c assms(3) show ?thesis by simp
      next
        case (Claimed target)
        then have "\<not> path_exists env f target" using claim_is_new Some c by blast
        then have ne: "p \<noteq> target" using assms(3) by (auto simp: path_exists_def)
        have "write_claimed_payload env options asset read_output target (ps\<lparr>ps_claims := claims'\<rparr>, f) = Some (r, ps', f')"
          using run Some c Claimed by simp
        from claimed_write_keeps [OF this assms(2) ne assms(4), of "Some b"] assms(3) show ?thesis by (simp add: holds_def)
      qed
    qed
  qed
qed

section \<open>Every object is stored once\<close>

lemma run_bind_InrE:
  assumes "run_bind m g = Some (Inr y, s')"
  obtains x s where "m = Some (Inr x, s)" "g x s = Some (Inr y, s')"
  using assms by (auto simp: run_bind_Inr)

lemma fs_write_Inr: "fs_write q b f = (Inr u, f') \<Longrightarrow> fs_files f' = (fs_files f)(q \<mapsto> b)"
  by (auto simp: fs_write_def split: option.splits)

lemma direct_write_stored:
  assumes "write_payload_files env region target kind payload (ps, f) = Some (Inr written, ps', f')"
    and "direct_kind kind" and "\<not> single_image_kind kind"
  shows "written = [target] \<and> ps' = ps \<and> fs_files f' target = Some payload"
proof -
  from assms(1) [unfolded direct_payload_files [OF assms(2)] if_not_P [OF assms(3)]]
  obtain s where s: "on_fs (write_native_payload_file target payload) (ps, f) = Some (Inr (), s)"
    "Some (Inr [target], s) = Some (Inr written, ps', f')" by (auto elim: run_bind_InrE)
  then obtain k where "fs_write target payload f = (Inr k, f')" "ps' = ps" "written = [target]"
    by (cases "fs_write target payload f"; cases "fst (fs_write target payload f)")
      (auto simp: on_fs_def write_native_payload_file_def st_map_err_def)
  with fs_write_Inr show ?thesis by fastforce
qed

lemma claimed_write_stored:
  assumes run: "write_claimed_payload env options asset read_output target (ps, f) = Some (Inr (), ps', f')"
    and direct: "direct_kind (unwrap_or [] (or_payload_kind (ro_response read_output)))"
      "\<not> single_image_kind (unwrap_or [] (or_payload_kind (ro_response read_output)))"
    and acb: "\<not> is_text_asset_acb_target asset target"
  shows "ps' = ps\<lparr>ps_written_files := ps_written_files ps @ [target]\<rparr> \<and>
    (target = manifest_path (eo_output_dir options) \<or> fs_files f' target = Some (ro_payload read_output))"
proof -
  obtain s1 where s1: "on_fs (create_target_parent target) (ps, f) = Some (Inr (), s1)"
    and st: "store_payload env options asset read_output target s1 = Some (Inr (), ps', f')"
    using run unfolding write_claimed_payload_def by (auto elim!: run_bind_InrE)
  then obtain f1 where f1: "s1 = (ps, f1)" by (auto simp: on_fs_def)
  obtain written ps2 f2 where
    w: "write_payload_files env (eo_region options) target (unwrap_or [] (or_payload_kind (ro_response read_output)))
          (ro_payload read_output) (ps, f1) = Some (Inr written, ps2, f2)"
    and m: "record_written env options asset read_output target written (ps2, f2) = Some (Inr (), ps', f')"
    using st acb unfolding f1 by (auto simp: store_payload_def Let_def elim!: run_bind_InrE)
  from direct_write_stored [OF w direct]
  have d: "written = [target]" "ps2 = ps" "holds target (Some (ro_payload read_output)) f2" by (simp_all add: holds_def)
  have "holds target (Some (ro_payload read_output)) f'" if "target \<noteq> manifest_path (eo_output_dir options)"
    using record_written_keeps [OF m that] d(3) by simp
  with m d(1,2) show ?thesis by (auto simp: record_written_def Let_def on_fs_Some holds_def split: if_splits)
qed

lemma claimed_write_acb:
  assumes "write_claimed_payload env options asset read_output target (ps, f) = Some (Inr (), ps', f')"
    and "is_text_asset_acb_target asset target"
  shows "ps' = ps\<lparr>ps_acb_sources := ps_acb_sources ps @ [\<lparr>ms_target = target, ms_payload = ro_payload read_output\<rparr>]\<rparr>"
  using assms unfolding write_claimed_payload_def
  by (auto simp: store_payload_def Let_def on_fs_def elim!: run_bind_InrE split: prod.splits)


section \<open>The search for a path ends\<close>

definition returns :: "'a option \<Rightarrow> bool" where
  "returns m \<longleftrightarrow> m \<noteq> None"

lemma returns_bind: "returns m \<Longrightarrow> (\<And>x s. returns (g x s)) \<Longrightarrow> returns (run_bind m g)"
  by (cases m; cases "fst (the m)") (auto simp: run_bind_def returns_def split: prod.split)

lemma returns_simps [simp]: "returns (Some x)" "returns (on_fs op s)"
  by (cases s; simp add: on_fs_def returns_def)+

lemma returns_if: "returns (if b then x else y) \<longleftrightarrow> (b \<longrightarrow> returns x) \<and> (\<not> b \<longrightarrow> returns y)"
  by simp

lemma returns_prod: "(\<And>a b. s = (a, b) \<Longrightarrow> returns (g a b)) \<Longrightarrow> returns (case s of (a, b) \<Rightarrow> g a b)"
  by (cases s) simp

lemma queue_entries_returns: "returns (queue_entries target region entries s)"
proof (induction entries arbitrary: s)
  case (Cons e entries)
  obtain name b where e: "e = (name, b)" by (cases e)
  show ?case
    unfolding e queue_entries.simps Let_def by (intro returns_bind returns_prod returns_simps Cons.IH)
qed simp

lemma payload_files_returns: "returns (write_payload_files env region target kind payload s)"
  unfolding write_payload_files_def queue_native_image_payload_bundle_final_files_def Let_def returns_if
  by (intro conjI impI returns_bind returns_prod returns_simps queue_entries_returns)

lemma claimed_write_returns: "returns (write_claimed_payload env options asset read_output target s)"
  unfolding write_claimed_payload_def store_payload_def record_written_def Let_def
  by (intro returns_bind returns_prod returns_if [THEN iffD2] conjI impI returns_simps payload_files_returns)

text \<open>C40: When finitely many paths exist, writing an object returns.\<close>

theorem object_write_returns:
  assumes "finite {p. path_exists env f p}"
  shows "\<exists>r ps' f'. write_native_object_payload env options asset read_output (ps, f) = Some (r, ps', f')"
proof -
  have "returns (case claim_payload (path_exists env f) (ps_claims ps) path asset read_output of
          None \<Rightarrow> None
        | Some (Duplicate existing, claims) \<Rightarrow> Some (Inr (), ps, f)
        | Some (Claimed target, claims) \<Rightarrow>
            write_claimed_payload env options asset read_output target (ps\<lparr>ps_claims := claims\<rparr>, f))" for path
    using claim_loop_ends [OF assms, of "ps_claims ps" path "Some (native_payload_signature asset read_output)" 1]
    by (auto simp: claim_payload_def claim_with_signature_def claimed_write_returns split: option.split prod.split semantic_path_claim.split)
  then have "returns (write_native_object_payload env options asset read_output (ps, f))"
    by (cases "object_target env options asset read_output") (auto simp: write_native_object_payload_def)
  then show ?thesis by (auto simp: returns_def)
qed

section \<open>Bytes of queued images\<close>

text \<open>The counter that decides about a flush is the size of the queued payloads.\<close>

definition image_bytes_counted :: "path_state \<Rightarrow> bool" where
  "image_bytes_counted ps \<longleftrightarrow>
     ps_pending_image_bytes ps = min usize_max (\<Sum>job\<leftarrow>ps_pending_image_writes ps. length (pi_payload job))"

lemma queue_counts:
  "image_bytes_counted ps \<Longrightarrow> image_bytes_counted (snd (queue_native_image_payload_final_files target payload region ps))"
  by (simp add: image_bytes_counted_def queue_native_image_payload_final_files_def min_def)

lemma on_fs_counts: "on_fs op s = Some (r, s') \<Longrightarrow> fst s' = fst s"
  by (simp add: on_fs_Some)

lemma queue_entries_counts:
  "queue_entries target region entries s = Some (r, s') \<Longrightarrow> image_bytes_counted (fst s) \<Longrightarrow> image_bytes_counted (fst s')"
proof (induction entries arbitrary: s r s')
  case (Cons e entries)
  obtain name b where e: "e = (name, b)" by (cases e)
  show ?case
    using Cons.prems(1) [unfolded e queue_entries.simps Let_def]
  proof (rule run_bind_keeps)
    fix x t r t'
    assume "image_bytes_counted (fst t)" and run: "(case t of (ps, f) \<Rightarrow>
      case queue_native_image_payload_final_files (with_extension (payload_bundle_entry_target target name) ''png'') b region ps of
        (written, ps) \<Rightarrow> run_bind (queue_entries target region entries (ps, f)) (\<lambda>rest s. Some (Inr (written @ rest), s))) = Some (r, t')"
    from run Cons.IH queue_counts [OF this(1)] show "image_bytes_counted (fst t')"
      by (auto simp: run_bind_def split: prod.splits option.splits sum.splits) (metis fst_conv snd_conv)+
  qed (use Cons.prems(2) in \<open>auto dest: on_fs_counts\<close>)
qed simp

lemma payload_files_count:
  assumes run: "write_payload_files env region target kind payload s = Some (r, s')" and "image_bytes_counted (fst s)"
  shows "image_bytes_counted (fst s')"
proof -
  obtain ps f where s: "s = (ps, f)" by (cases s)
  consider (arr) "kind = ''image_array_bundle_raw_rgba''"
    | (bundled) "kind \<noteq> ''image_array_bundle_raw_rgba''" "starts_with ''image_array_bundle_'' kind \<or> kind = ''animator_bundle_fbx''"
    | (direct) "direct_kind kind" by (auto simp: direct_kind_def)
  then show ?thesis
  proof cases
    case arr
    then have "run_bind (Some (parse_payload_bundle_borrowed (xe_io env) payload, s)) (\<lambda>entries s. queue_entries target region entries s) = Some (r, s')"
      using run by (simp add: write_payload_files_def queue_native_image_payload_bundle_final_files_def)
    then show ?thesis by (rule run_bind_keeps) (use assms(2) queue_entries_counts in auto)
  next
    case bundled
    then show ?thesis using run assms(2) by (simp add: write_payload_files_def on_fs_Some)
  next
    case direct
    with run assms(2) queue_counts [of ps target payload region] s show ?thesis
      by (auto simp: direct_payload_files on_fs_def run_bind_def split: if_splits sum.splits)
  qed
qed

lemma claimed_write_counts:
  assumes "write_claimed_payload env options asset read_output target s = Some (r, s')" and "image_bytes_counted (fst s)"
  shows "image_bytes_counted (fst s')"
proof -
  have record_counts: "image_bytes_counted (fst t')"
    if "record_written env options asset read_output target written t = Some (q, t')" "image_bytes_counted (fst t)" for written t q t'
    using that by (auto simp: record_written_def Let_def on_fs_Some image_bytes_counted_def split: prod.splits if_splits)
  have store_counts: "image_bytes_counted (fst t')"
    if run: "store_payload env options asset read_output target t = Some (q, t')" and c: "image_bytes_counted (fst t)" for t q t'
  proof (cases "is_text_asset_acb_target asset target")
    case True
    with that show ?thesis by (auto simp: store_payload_def Let_def image_bytes_counted_def split: prod.splits)
  next
    case False
    with run have "run_bind (write_payload_files env (eo_region options) target
        (unwrap_or [] (or_payload_kind (ro_response read_output))) (ro_payload read_output) t)
        (record_written env options asset read_output target) = Some (q, t')"
      by (cases t) (simp add: store_payload_def Let_def)
    then show ?thesis by (rule run_bind_keeps) (use payload_files_count [OF _ c] record_counts in blast)+
  qed
  show ?thesis
    using assms(1) unfolding write_claimed_payload_def
    by (rule run_bind_keeps) (use assms(2) store_counts in \<open>auto simp: on_fs_Some\<close>)
qed

text \<open>C39: The counter agrees with the queued payloads after every object and every flush.\<close>

theorem queued_image_bytes_counted:
  assumes "image_bytes_counted ps"
    and "write_native_object_payload env options asset read_output (ps, f) = Some (r, ps', f') \<or>
      flush_queued_native_images_if_over_threshold ic order options (ps, f) = Some (r, ps', f')"
  shows "image_bytes_counted ps'"
  using assms(2)
proof
  assume run: "write_native_object_payload env options asset read_output (ps, f) = Some (r, ps', f')"
  show ?thesis
  proof (cases "ro_payload read_output = [] \<or> or_payload_kind (ro_response read_output) = Some ''unsupported''")
    case True
    with run assms(1) show ?thesis by (simp add: write_native_object_payload_def)
  next
    case False
    have counted: "image_bytes_counted (ps\<lparr>ps_claims := claims\<rparr>)" for claims using assms(1) by (simp add: image_bytes_counted_def)
    show ?thesis
    proof (cases "object_target env options asset read_output")
      case (Inl e)
      with run assms(1) False show ?thesis by (simp add: write_native_object_payload_def)
    next
      case (Inr path)
      then show ?thesis
        using run [unfolded write_native_object_payload_def if_not_P [OF False]] assms(1) claimed_write_counts counted
        by (fastforce split: option.splits prod.splits semantic_path_claim.splits)
    qed
  qed
next
  assume "flush_queued_native_images_if_over_threshold ic order options (ps, f) = Some (r, ps', f')"
  then show ?thesis
    using assms(1) by (auto simp: flush_queued_native_images_if_over_threshold_def image_bytes_counted_def
        split: option.splits if_splits prod.splits)
qed

section \<open>Repeating an export\<close>

text \<open>An export that starts anew over the files of an earlier one gives every object whose file is still there another
  name.\<close>

theorem repeated_export_renames:
  assumes "path_exists env f path" and "claim_payload (path_exists env f) [] path asset read_output = Some (c, claims)"
  shows "\<exists>n\<ge>2. c = Claimed (semantic_duplicate_path path n) \<and> \<not> path_exists env f (semantic_duplicate_path path n)"
proof -
  have "claim_ok (path_exists env f) [] path (Some (native_payload_signature asset read_output)) 1 (c, claims)"
    using claim_loop_ok assms(2) by (simp add: claim_payload_def claim_with_signature_def)
  then obtain m where m: "m \<ge> 1" "case c of Claimed q \<Rightarrow> q = semantic_duplicate_path path m \<and> \<not> path_exists env f q | Duplicate q \<Rightarrow> False"
    by (cases c) (auto simp: claim_ok_def candidate_busy_def)
  then have "m \<noteq> 1" using assms(1) by (auto simp: semantic_duplicate_path_def split: semantic_path_claim.splits)
  with m show ?thesis by (intro exI [of _ m]) (auto split: semantic_path_claim.splits)
qed

lemma manifest_lock_exists: "manifest_lock_index path < ASSETSTUDIO_MANIFEST_LOCKS"
  by (simp add: manifest_lock_index_def ASSETSTUDIO_MANIFEST_LOCKS_def)

section \<open>A small export\<close>

definition demo_export_env :: export_env where
  "demo_export_env = \<lparr>xe_ct = ascii_tables, xe_io = (\<lambda>_. ''io''), xe_is_dir = (\<lambda>_ _. False), xe_bundle_json = (\<lambda>_. Inl ''json''),
     xe_json_error = (\<lambda>_. None), xe_manifest_line = (\<lambda>e. Inr (me_path e)), xe_playable_json = (\<lambda>_ _. Inr [])\<rparr>"

definition demo_export_options :: object_export_options where
  "demo_export_options = \<lparr>eo_output_dir = ''o'', eo_export_path = ''e'', eo_strip_path_prefix = [], eo_region = default_region_config,
     eo_read_kinds = [], eo_image_format = ''raw_rgba'', eo_read_batch_size = 1, eo_image_flush = None\<rparr>"

definition demo_read :: "string \<Rightarrow> bytes \<Rightarrow> object_read_output" where
  "demo_read kind payload = \<lparr>ro_response = \<lparr>or_success = True, or_asset = None, or_payload_kind = Some kind, or_payload_len = 1,
     or_suggested_extension = None, or_error = None\<rparr>, ro_payload = payload\<rparr>"

definition demo_export_fs :: "fs" where
  "demo_export_fs = \<lparr>fs_files = [''x'' \<mapsto> [7]], fs_clock = 0, fs_fault = no_faults\<rparr>"

abbreviation demo_write :: "((export_error + unit) \<times> path_state \<times> fs) option" where
  "demo_write \<equiv> write_native_object_payload demo_export_env demo_export_options (demo_object ''A'' ''c'' ''n'') (demo_read ''raw'' [1])
     (empty_path_state, demo_export_fs)"

lemma demo_write_result: "map_option (\<lambda>(r, ps, f). (r, ps_written_files ps)) demo_write = Some (Inr (), [''o/e/c.dat''])"
  by code_simp

lemma demo_write_obtain:
  obtains ps f where "demo_write = Some (Inr (), ps, f)" "ps_written_files ps = [''o/e/c.dat'']"
  using demo_write_result by auto

lemma demo_direct: "direct_kind (unwrap_or [] (or_payload_kind (ro_response (demo_read ''raw'' [1]))))"
  by code_simp

lemma demo_manifest: "manifest_path (eo_output_dir demo_export_options) = ''o/.assetstudio-export-manifest.jsonl''"
  by code_simp

lemma demo_not_image: "\<not> single_image_kind (unwrap_or [] (or_payload_kind (ro_response (demo_read ''raw'' [1]))))"
  by code_simp

lemma demo_not_acb: "\<not> is_text_asset_acb_target (demo_object ''A'' ''c'' ''n'') ''o/e/c.dat''"
  by code_simp

theorem object_overwrites_no_file_witness:
  "\<exists>ps f. demo_write = Some (Inr (), ps, f) \<and> fs_files f ''x'' = Some [7]"
proof -
  obtain ps f where d: "demo_write = Some (Inr (), ps, f)" by (rule demo_write_obtain)
  have "fs_files f ''x'' = Some [7]"
    by (rule object_overwrites_no_file [OF d demo_direct]) (simp_all add: demo_export_fs_def demo_manifest)
  with d show ?thesis by blast
qed


theorem object_write_returns_witness: "\<exists>r ps f. demo_write = Some (r, ps, f)"
proof (rule object_write_returns)
  have "{p. path_exists demo_export_env demo_export_fs p} = {''x''}"
    by (auto simp: path_exists_def demo_export_env_def demo_export_fs_def)
  then show "finite {p. path_exists demo_export_env demo_export_fs p}" by simp
qed

definition demo_queue :: path_state where
  "demo_queue = empty_path_state\<lparr>ps_pending_image_writes := [demo_image_job ''a.bmp'' [1, 2]], ps_pending_image_bytes := 2\<rparr>"

definition demo_flush_options :: object_export_options where
  "demo_flush_options = demo_export_options\<lparr>eo_image_flush :=
     Some \<lparr>if_flush_bytes = 1, if_concurrency = 1, if_cpu_budget = 1, if_image_backend = default_image_backend_config\<rparr>\<rparr>"

theorem queued_image_bytes_counted_witness:
  "\<exists>r ps f. flush_queued_native_images_if_over_threshold demo_codec id demo_flush_options (demo_queue, demo_export_fs) = Some (r, ps, f) \<and>
     image_bytes_counted ps"
proof -
  obtain r ps f where "flush_queued_native_images_if_over_threshold demo_codec id demo_flush_options (demo_queue, demo_export_fs) =
      Some (r, ps, f)"
    by (cases "flush_pending_native_image_writes_with demo_codec [demo_image_job ''a.bmp'' [1, 2]] default_image_backend_config demo_export_fs")
      (simp add: flush_queued_native_images_if_over_threshold_def demo_flush_options_def demo_queue_def)
  moreover have "image_bytes_counted demo_queue"
    by (simp add: image_bytes_counted_def demo_queue_def demo_image_job_def usize_max_def)
  ultimately show ?thesis using queued_image_bytes_counted [of demo_queue] by blast
qed

lemma demo_reclaim:
  "claim_payload (path_exists demo_export_env demo_export_fs) [] ''x'' (demo_object ''A'' ''x'' ''n'') (demo_read ''raw'' [1]) =
     Some (Claimed ''x__dup2'', [([Normal ''x__dup2''], Some (native_payload_signature (demo_object ''A'' ''x'' ''n'') (demo_read ''raw'' [1])))])"
  by code_simp

theorem repeated_export_renames_witness:
  "\<exists>n\<ge>2. Claimed ''x__dup2'' = Claimed (semantic_duplicate_path ''x'' n) \<and>
     \<not> path_exists demo_export_env demo_export_fs (semantic_duplicate_path ''x'' n)"
  by (rule repeated_export_renames [OF _ demo_reclaim]) (simp add: path_exists_def demo_export_fs_def)

end
