(* ===== verification/Export_Select.thy ===== *)
theory Export_Select
  imports Export_Write
begin

text \<open>
  Which objects of a bundle are read, in which batches, and what an answer of the library says about them
  (\<^verbatim>\<open>src/core/export_pipeline/implementation/assetstudio.rs\<close> and the parsers of \<^verbatim>\<open>implementation.rs\<close>). Images that can crash
  the worker are read last and alone.
\<close>

section \<open>The summary of an export\<close>

record object_export_summary =
  om_written_files :: "string list"
  om_acb_sources :: "in_memory_media_source list"
  om_pending_image_writes :: "pending_image_write list"
  om_skipped_object_reads :: "skipped_object_read list"
  om_object_read_plan :: object_read_plan_stats
  om_worker_crash_skipped :: bool

abbreviation plan_of :: "object_export_summary \<Rightarrow> object_read_plan_stats" where
  "plan_of \<equiv> om_object_read_plan"

abbreviation in_plan :: "(object_read_plan_stats \<Rightarrow> object_read_plan_stats) \<Rightarrow> object_export_summary \<Rightarrow> object_export_summary" where
  "in_plan g summary \<equiv> summary\<lparr>om_object_read_plan := g (om_object_read_plan summary)\<rparr>"

definition skipped_read :: "asset_info \<Rightarrow> string \<Rightarrow> skipped_object_read" where
  "skipped_read asset error =
     \<lparr>sr_path_id = ai_path_id asset, sr_asset_type = ai_asset_type asset, sr_name = ai_name asset,
      sr_container = ai_container asset, sr_error = error\<rparr>"

definition skip_object :: "skipped_object_read \<Rightarrow> object_export_summary \<Rightarrow> object_export_summary" where
  "skip_object sk summary = summary\<lparr>om_skipped_object_reads := om_skipped_object_reads summary @ [sk]\<rparr>"

definition skip_read :: "skipped_object_read \<Rightarrow> object_export_summary \<Rightarrow> object_export_summary" where
  "skip_read sk summary =
     in_plan (\<lambda>p. p\<lparr>rp_skipped_reads := rp_skipped_reads p + 1\<rparr>) (skip_object sk summary)"

section \<open>Selection\<close>

definition normalized_native_asset_container :: "asset_info \<Rightarrow> string option" where
  "normalized_native_asset_container asset =
     opt_filter (\<lambda>c. c \<noteq> []) (map_option (\<lambda>c. trim (replace_char (CHR 0x5C) (CHR ''/'') c)) (ai_container asset))"

definition texture2d_array_parent_containers :: "case_tables \<Rightarrow> asset_info list \<Rightarrow> string list" where
  "texture2d_array_parent_containers ct assets =
     List.map_filter normalized_native_asset_container
       (filter (\<lambda>a. opt_any (\<lambda>t. normalize_assetstudio_type_name ct t = ''texture2darray'') (ai_asset_type a)) assets)"

definition is_texture2d_array_image_with_parent :: "case_tables \<Rightarrow> asset_info \<Rightarrow> string list \<Rightarrow> bool" where
  "is_texture2d_array_image_with_parent ct asset parent_containers \<longleftrightarrow>
     opt_any (\<lambda>t. normalize_assetstudio_type_name ct t = ''texture2darrayimage'') (ai_asset_type asset) \<and>
     opt_any (\<lambda>c. c \<in> set parent_containers) (normalized_native_asset_container asset)"

definition native_skipped_unsupported_asset :: "asset_info \<Rightarrow> skipped_object_read option" where
  "native_skipped_unsupported_asset asset =
     map_option (\<lambda>asset_type.
       skipped_read asset
         (if assetstudio_object_mode_known_unreadable_type asset_type
          then ''native object mode does not support reading '' @ asset_type @ '' yet''
          else ''native object mode has no read strategy for '' @ asset_type)) (ai_asset_type asset)"

fun select_loop ::
    "case_tables \<Rightarrow> string list \<Rightarrow> string list \<Rightarrow> asset_info list \<Rightarrow> object_export_summary \<Rightarrow> asset_info list \<times> object_export_summary" where
  "select_loop ct parents configured [] summary = ([], summary)"
| "select_loop ct parents configured (asset # assets) summary =
     (if \<not> assetstudio_object_mode_type_enabled ct asset configured then select_loop ct parents configured assets summary
      else if is_texture2d_array_image_with_parent ct asset parents
      then select_loop ct parents configured assets
             (skip_object (skipped_read asset ''Texture2DArrayImage is covered by its Texture2DArray parent'') summary)
      else if \<not> is_native_object_supported_asset asset
      then select_loop ct parents configured assets
             (case native_skipped_unsupported_asset asset of Some sk \<Rightarrow> skip_object sk summary | None \<Rightarrow> summary)
      else let (readable, summary) = select_loop ct parents configured assets summary in (asset # readable, summary))"

definition select_native_object_readable_assets ::
    "case_tables \<Rightarrow> asset_info list \<Rightarrow> string list \<Rightarrow> object_export_summary \<Rightarrow> asset_info list \<times> object_export_summary" where
  "select_native_object_readable_assets ct assets configured_asset_types summary =
     (let (readable, summary) = select_loop ct (texture2d_array_parent_containers ct assets) configured_asset_types assets summary
      in (readable,
          in_plan (\<lambda>p. p\<lparr>rp_planned_objects := length readable, rp_readable_objects := length readable,
                        rp_skipped_reads := length (om_skipped_object_reads summary)\<rparr>) summary))"

definition sort_native_object_reads_for_failure_isolation :: "case_tables \<Rightarrow> asset_info list \<Rightarrow> asset_info list" where
  "sort_native_object_reads_for_failure_isolation ct =
     sort_key (\<lambda>asset. (if is_native_image_asset ct asset then 1 else (0 :: nat), ai_index asset))"

section \<open>Batches\<close>

definition native_read_batch_size_for_assets :: "case_tables \<Rightarrow> nat \<Rightarrow> asset_info list \<Rightarrow> nat" where
  "native_read_batch_size_for_assets ct configured_size assets =
     (let configured_size = max configured_size 1 in
      if assets = [] then 1
      else
        let matches = (\<lambda>selector asset. opt_any (assetstudio_type_selector_matches ct selector) (ai_asset_type asset));
            image_count = length (filter (\<lambda>a. matches ''Texture2D'' a \<or> matches ''Sprite'' a) assets);
            typetree_count = length (filter (matches ''MonoBehaviour'') assets);
            tuned_size = (if image_count * 2 \<ge> length assets then max configured_size 64
                          else if typetree_count * 2 \<ge> length assets then min configured_size 32
                          else configured_size)
        in min (max tuned_size 1) (max (length assets) 1))"

fun subchunk_loop :: "('a \<Rightarrow> bool) \<Rightarrow> 'a list \<Rightarrow> nat \<Rightarrow> nat \<Rightarrow> 'a list \<Rightarrow> 'a list list" where
  "subchunk_loop alone chunk group_start index [] = (if group_start < length chunk then [drop group_start chunk] else [])"
| "subchunk_loop alone chunk group_start index (asset # rest) =
     (if \<not> alone asset then subchunk_loop alone chunk group_start (index + 1) rest
      else (if group_start < index then [subslice group_start index chunk] else []) @
           [subslice index (index + 1) chunk] @ subchunk_loop alone chunk (index + 1) (index + 1) rest)"

definition native_object_read_subchunks :: "case_tables \<Rightarrow> asset_info list \<Rightarrow> string \<Rightarrow> asset_info list list" where
  "native_object_read_subchunks ct asset_chunk image_format =
     subchunk_loop (\<lambda>asset. is_native_aot_non_bmp_image_read ct asset image_format) asset_chunk 0 0 asset_chunk"

definition native_object_read_batch_request ::
    "case_tables \<Rightarrow> int \<Rightarrow> asset_info list \<Rightarrow> (string, string) btmap \<Rightarrow> string \<Rightarrow> read_objects_request" where
  "native_object_read_batch_request ct context_id asset_chunk kinds image_format =
     \<lparr>bq_context_id = context_id,
      bq_objects = map (\<lambda>asset. \<lparr>ri_path_id = ai_path_id asset, ri_kind = native_read_kind_for_asset ct asset kinds,
                                 ri_image_format = native_image_format_for_asset asset image_format\<rparr>) asset_chunk\<rparr>"

section \<open>Answers\<close>

definition native_failure :: "string \<Rightarrow> string option \<Rightarrow> worker_output \<Rightarrow> string" where
  "native_failure what error out =
     unwrap_or (what @ '' failed with status '' @ wo_status out @ '': '' @ trim (wo_stderr out)) error"

definition checked_response :: "string \<Rightarrow> bool \<Rightarrow> string option \<Rightarrow> worker_output \<Rightarrow> 'a \<Rightarrow> export_error + 'a" where
  "checked_response what success error out response =
     (if wo_status_success out \<and> success then Inr response else Inl (ExAssetStudioFfi (native_failure what error out)))"

definition from_ffi :: "ffi_error + 'a \<Rightarrow> export_error + 'a" where
  "from_ffi = map_sum from_ffi_error id"

definition parse_assetstudio_ffi_context_open_worker_output ::
    "(ffi_response \<Rightarrow> string) \<Rightarrow> worker_output \<Rightarrow> export_error + context_open_response" where
  "parse_assetstudio_ffi_context_open_worker_output dbg out =
     res_bind (from_ffi (into_context_open dbg (wo_response out))) (\<lambda>response.
       checked_response ''native context open'' (os_success response) (os_error response) out response)"

definition parse_assetstudio_ffi_context_list_objects_worker_output ::
    "(ffi_response \<Rightarrow> string) \<Rightarrow> worker_output \<Rightarrow> export_error + list_objects_response" where
  "parse_assetstudio_ffi_context_list_objects_worker_output dbg out =
     res_bind (from_ffi (into_context_list_objects dbg (wo_response out))) (\<lambda>response.
       checked_response ''native context_list_objects'' (ls_success response) (ls_error response) out response)"

definition parse_assetstudio_ffi_context_close_worker_output :: "(ffi_response \<Rightarrow> string) \<Rightarrow> worker_output \<Rightarrow> export_error + unit" where
  "parse_assetstudio_ffi_context_close_worker_output dbg out =
     res_bind (from_ffi (into_context_close dbg (wo_response out))) (\<lambda>response.
       checked_response ''native context close'' (cs_success response) (cs_error response) out ())"

text \<open>A payload comes with the answer or in a file, which is removed; an error while removing it is ignored.\<close>

definition take_payload :: "worker_output \<Rightarrow> fs \<Rightarrow> (export_error + bytes) \<times> fs" where
  "take_payload out f =
     (case (wo_payload out, wo_payload_file out) of
        ([], Some payload_file) \<Rightarrow>
          st_bind (io_at payload_file (fs_read payload_file f)) (\<lambda>payload f. (Inr payload, snd (remove_file_if_exists payload_file f)))
      | (payload, Some payload_file) \<Rightarrow> (Inr payload, snd (remove_file_if_exists payload_file f))
      | (payload, None) \<Rightarrow> (Inr payload, f))"

datatype read_parse_result = ReadObject object_read_output | SkippedObject skipped_object_read

definition parse_assetstudio_ffi_object_read_worker_output_recoverable ::
    "(ffi_response \<Rightarrow> string) \<Rightarrow> worker_output \<Rightarrow> asset_info \<Rightarrow> fs \<Rightarrow> (export_error + read_parse_result) \<times> fs" where
  "parse_assetstudio_ffi_object_read_worker_output_recoverable dbg out asset f =
     st_bind (from_ffi (into_object_read dbg (wo_response out)), f) (\<lambda>response f.
       if \<not> (wo_status_success out \<and> or_success response)
       then (Inr (SkippedObject (skipped_read asset (native_failure ''native context_read_object'' (or_error response) out))),
             case wo_payload_file out of Some payload_file \<Rightarrow> snd (remove_file_if_exists payload_file f) | None \<Rightarrow> f)
       else st_bind (take_payload out f) (\<lambda>payload f. (Inr (ReadObject \<lparr>ro_response = response, ro_payload = payload\<rparr>), f)))"

record read_batch_output =
  bo_results :: "read_parse_result list"
  bo_object_count :: nat
  bo_payload_bundle_version :: nat
  bo_payload_bundle_entry_count :: nat
  bo_payload_bundle_bytes :: nat
  bo_payload_data_bytes :: nat
  bo_failed_count :: nat

definition response_object_count :: "object_read_batch_response \<Rightarrow> nat \<Rightarrow> nat" where
  "response_object_count response fallback = (if br_object_count response > 0 then br_object_count response else fallback)"

definition object_read_batch_payload_bundle_bytes :: "object_read_batch_response \<Rightarrow> nat \<Rightarrow> nat" where
  "object_read_batch_payload_bundle_bytes response fallback_payload_len =
     (if br_payload_bundle_bytes response > 0 then nat (br_payload_bundle_bytes response)
      else if br_payload_len response > 0 then nat (br_payload_len response) else fallback_payload_len)"

definition object_read_batch_payload_data_bytes :: "object_read_batch_response \<Rightarrow> nat" where
  "object_read_batch_payload_data_bytes response =
     (if br_payload_data_bytes response > 0 then br_payload_data_bytes response
      else sum_list (map snd (br_payload_bytes_by_kind response)))"

definition batch_output :: "object_read_batch_response \<Rightarrow> nat \<Rightarrow> nat \<Rightarrow> read_parse_result list \<Rightarrow> nat \<Rightarrow> read_batch_output" where
  "batch_output response asset_count payload_len results failed =
     \<lparr>bo_results = results, bo_object_count = response_object_count response asset_count,
      bo_payload_bundle_version = br_payload_bundle_version response,
      bo_payload_bundle_entry_count = br_payload_bundle_entry_count response,
      bo_payload_bundle_bytes = object_read_batch_payload_bundle_bytes response payload_len,
      bo_payload_data_bytes = object_read_batch_payload_data_bytes response,
      bo_failed_count = (if br_failed_count response > 0 then br_failed_count response else failed)\<rparr>"

definition batch_read_result :: "entry list \<Rightarrow> asset_info \<Rightarrow> object_read_response \<Rightarrow> read_parse_result" where
  "batch_read_result payloads asset read_response =
     (if \<not> or_success read_response
      then SkippedObject (skipped_read asset
             (unwrap_or (''native context_read_objects failed for path_id '' @ show_int (ai_path_id asset)) (or_error read_response)))
      else ReadObject \<lparr>ro_response = read_response,
             ro_payload = unwrap_or [] (map_of (rev payloads) (show_int (ai_path_id asset)))\<rparr>)"

definition is_skipped :: "read_parse_result \<Rightarrow> bool" where
  "is_skipped r = (case r of SkippedObject _ \<Rightarrow> True | ReadObject _ \<Rightarrow> False)"

definition batch_results ::
    "export_env \<Rightarrow> object_read_batch_response \<Rightarrow> worker_output \<Rightarrow> asset_info list \<Rightarrow> bytes \<Rightarrow> export_error + read_batch_output" where
  "batch_results env response out assets payload =
     (let n = length assets in
      if \<not> (wo_status_success out \<and> br_success response) \<and> length (br_reads response) \<noteq> n
      then Inr (batch_output response n (length payload)
             (map (\<lambda>asset. SkippedObject (skipped_read asset (native_failure ''native context_read_objects'' (br_error response) out))) assets) n)
      else if length (br_reads response) \<noteq> n
      then Inl (ExAssetStudioFfi (''native context_read_objects response count mismatch: requested '' @ show_nat n @ '', got '' @
             show_nat (length (br_reads response))))
      else res_bind (if payload = [] then Inr [] else parse_payload_bundle_borrowed (xe_io env) payload) (\<lambda>payloads.
             let results = map2 (batch_read_result payloads) assets (br_reads response)
             in Inr (batch_output response n (length payload) results (length (filter is_skipped results)))))"

definition parse_assetstudio_ffi_object_read_batch_worker_output_recoverable ::
    "export_env \<Rightarrow> (ffi_response \<Rightarrow> string) \<Rightarrow> worker_output \<Rightarrow> asset_info list \<Rightarrow> fs \<Rightarrow> (export_error + read_batch_output) \<times> fs" where
  "parse_assetstudio_ffi_object_read_batch_worker_output_recoverable env dbg out assets f =
     st_bind (from_ffi (into_object_read_batch dbg (wo_response out)), f) (\<lambda>response f.
     st_bind (take_payload out f) (\<lambda>payload f. (batch_results env response out assets payload, f)))"

definition record_native_object_read_batch_diagnostics :: "read_batch_output \<Rightarrow> object_export_summary \<Rightarrow> object_export_summary" where
  "record_native_object_read_batch_diagnostics outputs =
     in_plan (\<lambda>p. p\<lparr>rp_payload_bundle_bytes := rp_payload_bundle_bytes p + bo_payload_bundle_bytes outputs,
                   rp_failed_reads := rp_failed_reads p + bo_failed_count outputs\<rparr>)"

section \<open>Batches keep the order and isolate images\<close>

lemma subslice_single: "i < length xs \<Longrightarrow> subslice i (i + 1) xs = [xs ! i]"
  by (simp add: subslice_def Cons_nth_drop_Suc [symmetric])

lemma subslice_drop: "a \<le> b \<Longrightarrow> b \<le> length xs \<Longrightarrow> subslice a b xs @ drop b xs = drop a xs"
  using append_take_drop_id [of "b - a" "drop a xs"] by (simp add: subslice_def)

lemma set_subslice: "x \<in> set (subslice a b xs) \<Longrightarrow> \<exists>i. a \<le> i \<and> i < b \<and> i < length xs \<and> x = xs ! i"
  by (auto simp: subslice_def in_set_conv_nth) (metis add.commute le_add1 less_diff_conv nth_drop)

lemma drop_ConsD:
  assumes "x # rest = drop index xs"
  shows "index < length xs" "rest = drop (index + 1) xs" "x = xs ! index"
proof -
  show "index < length xs" using assms by (metis drop_eq_Nil list.distinct(1) not_le_imp_less)
  then have "drop index xs = xs ! index # drop (index + 1) xs" by (simp add: Cons_nth_drop_Suc)
  with assms show "rest = drop (index + 1) xs" "x = xs ! index" by simp_all
qed

lemma subchunk_loop_concat:
  assumes "rest = drop index chunk" and "group_start \<le> index" and "index \<le> length chunk"
  shows "concat (subchunk_loop alone chunk group_start index rest) = drop group_start chunk"
  using assms
proof (induction alone chunk group_start index rest rule: subchunk_loop.induct)
  case (1 alone chunk group_start index)
  then show ?case by simp
next
  case (2 alone chunk group_start index asset rest)
  note d = drop_ConsD [OF 2(3)]
  show ?case
  proof (cases "alone asset")
    case False
    with "2.IH"(1) [OF False d(2)] 2(4) d(1) show ?thesis by (simp del: Suc_eq_plus1 add: Suc_eq_plus1 [symmetric])
  next
    case True
    have "concat (if group_start < index then [subslice group_start index chunk] else []) = subslice group_start index chunk"
      using 2(4) by (auto simp: subslice_def)
    moreover have "concat (subchunk_loop alone chunk (index + 1) (index + 1) rest) = drop (index + 1) chunk"
      using "2.IH"(2) True d(1,2) by simp
    ultimately show ?thesis
      using True 2(4) d(1) subslice_drop [of index "index + 1" chunk] subslice_drop [of group_start index chunk]
      by (simp only: subchunk_loop.simps(2) concat_append) simp
  qed
qed

lemma subchunk_loop_isolates:
  assumes "rest = drop index chunk" and "group_start \<le> index" and "index \<le> length chunk"
    and "\<forall>i. group_start \<le> i \<and> i < index \<longrightarrow> \<not> alone (chunk ! i)"
    and "c \<in> set (subchunk_loop alone chunk group_start index rest)"
  shows "c \<noteq> [] \<and> (length c = 1 \<or> list_all (\<lambda>a. \<not> alone a) c)"
  using assms
proof (induction alone chunk group_start index rest rule: subchunk_loop.induct)
  case (1 alone chunk group_start index)
  then show ?case by (auto simp: list_all_length split: if_splits)
next
  case (2 alone chunk group_start index asset rest)
  note d = drop_ConsD [OF 2(3)]
  show ?case
  proof (cases "alone asset")
    case False
    then have "\<forall>j. group_start \<le> j \<and> j < index + 1 \<longrightarrow> \<not> alone (chunk ! j)"
      using 2(6) d(3) by (metis Suc_eq_plus1 less_Suc_eq)
    moreover have "c \<in> set (subchunk_loop alone chunk group_start (index + 1) rest)" using 2(7) False by simp
    ultimately show ?thesis using "2.IH"(1) [OF False d(2)] 2(4) d(1) by simp
  next
    case True
    then consider "group_start < index" "c = subslice group_start index chunk" | "c = subslice index (index + 1) chunk"
      | "c \<in> set (subchunk_loop alone chunk (index + 1) (index + 1) rest)"
      using 2(7) by (auto split: if_splits)
    then show ?thesis
    proof cases
      case 1
      moreover have "c \<noteq> []" using 1 d(1) by (simp add: subslice_def)
      ultimately show ?thesis using 2(6) set_subslice by (fastforce simp: list_all_iff)
    next
      case 2
      then show ?thesis using subslice_single [OF d(1)] by simp
    next
      case 3
      have "\<forall>i. index + 1 \<le> i \<and> i < index + 1 \<longrightarrow> \<not> alone (chunk ! i)" by auto
      from "2.IH"(2) [OF _ d(2) _ _ this 3] True d(1) show ?thesis by simp
    qed
  qed
qed

text \<open>The reads of a chunk are its objects in order, and an image that is not read as a bitmap is read alone.\<close>

theorem subchunks_isolate_images:
  "concat (native_object_read_subchunks ct chunk image_format) = chunk \<and>
   list_all (\<lambda>c. c \<noteq> [] \<and> (length c = 1 \<or> list_all (\<lambda>a. \<not> is_native_aot_non_bmp_image_read ct a image_format) c))
     (native_object_read_subchunks ct chunk image_format)"
  using subchunk_loop_concat [of chunk 0 chunk 0] subchunk_loop_isolates [of chunk 0 chunk 0]
  by (auto simp: native_object_read_subchunks_def list_all_iff)

lemma batch_size_bounds:
  "1 \<le> native_read_batch_size_for_assets ct n assets \<and> native_read_batch_size_for_assets ct n assets \<le> max (length assets) 1"
  by (auto simp: native_read_batch_size_for_assets_def Let_def)

section \<open>Selected and skipped objects\<close>

lemma enabled_has_type: "assetstudio_object_mode_type_enabled ct asset configured \<Longrightarrow> ai_asset_type asset \<noteq> None"
  by (auto simp: assetstudio_object_mode_type_enabled_def opt_any_def split: option.splits)

lemma select_loop_accounts:
  assumes "select_loop ct parents configured assets summary = (readable, summary')"
  shows "\<exists>sks. om_skipped_object_reads summary' = om_skipped_object_reads summary @ sks \<and> om_object_read_plan summary' = om_object_read_plan summary \<and>
    om_worker_crash_skipped summary' = om_worker_crash_skipped summary \<and>
    length readable + length sks = length (filter (\<lambda>a. assetstudio_object_mode_type_enabled ct a configured) assets)"
  using assms
proof (induction assets arbitrary: summary readable summary')
  case (Cons asset assets)
  have next_step: "\<exists>sks. om_skipped_object_reads summary' = om_skipped_object_reads summary @ sks \<and> om_object_read_plan summary' = om_object_read_plan summary \<and>
      om_worker_crash_skipped summary' = om_worker_crash_skipped summary \<and>
      length readable + length sks = Suc (length (filter (\<lambda>a. assetstudio_object_mode_type_enabled ct a configured) assets))"
    if "select_loop ct parents configured assets (skip_object sk summary) = (readable, summary')" for sk
    using Cons.IH [OF that] by (force simp: skip_object_def)
  show ?case
  proof (cases "assetstudio_object_mode_type_enabled ct asset configured")
    case False
    with Cons show ?thesis by simp
  next
    case True
    note ty = enabled_has_type [OF True]
    show ?thesis
    proof (cases "is_texture2d_array_image_with_parent ct asset parents \<or> \<not> is_native_object_supported_asset asset")
      case skipped: True
      then obtain sk where "select_loop ct parents configured assets (skip_object sk summary) = (readable, summary')"
        using Cons.prems True ty by (auto simp: native_skipped_unsupported_asset_def split: if_splits)
      from next_step [OF this] True show ?thesis by simp
    next
      case False
      then obtain readable1 where r: "select_loop ct parents configured assets summary = (readable1, summary')" "readable = asset # readable1"
        using Cons.prems True by (auto split: prod.splits)
      from Cons.IH [OF r(1)] r(2) True show ?thesis by auto
    qed
  qed
qed simp

end
