(* ===== verification/Export_Session.thy ===== *)
theory Export_Session
  imports Export_Select Native_Ffi
begin

text \<open>
  The export of one bundle (\<^verbatim>\<open>call_assetstudio_ffi_object_export_with_caller\<close> and the functions around it in
  \<^verbatim>\<open>src/core/export_pipeline/implementation/assetstudio.rs\<close>, \<^verbatim>\<open>export_unity_asset_bundle_payloads\<close> in
  \<^verbatim>\<open>implementation.rs\<close>): a context is opened, its objects are listed and read in batches, and it is closed. A caller
  sends a request to a worker process or to the library in this process; it can change files, because workers spill
  large payloads. Listing need not end, so the export is an option.
\<close>

section \<open>The session\<close>

type_synonym 'c caller = "ffi_request \<Rightarrow> 'c \<times> fs \<Rightarrow> (export_error + worker_output) \<times> 'c \<times> fs"

record 'c export_session =
  sn_caller :: 'c
  sn_files :: fs
  sn_paths :: path_state
  sn_summary :: object_export_summary
  sn_playables :: playables

type_synonym ('c, 'a) session_run = "'c export_session \<Rightarrow> ((export_error + 'a) \<times> 'c export_session) option"

record ('c, 'img) session_env =
  sv_call :: "'c caller"
  sv_dbg :: "ffi_response \<Rightarrow> string"
  sv_export :: export_env
  sv_codec :: "'img image_codec"
  sv_order :: "pending_image_write list \<Rightarrow> pending_image_write list"
  sv_regex :: regex

definition send :: "('c, 'img) session_env \<Rightarrow> ffi_request \<Rightarrow> ('c, worker_output) session_run" where
  "send sv request s =
     (case sv_call sv request (sn_caller s, sn_files s) of (r, c, f) \<Rightarrow> Some (r, s\<lparr>sn_caller := c, sn_files := f\<rparr>))"

definition writing_in_session :: "'a writing \<Rightarrow> ('c, 'a) session_run" where
  "writing_in_session w s =
     (case w (sn_paths s, sn_files s) of
        None \<Rightarrow> None
      | Some (r, ps, f) \<Rightarrow> Some (r, s\<lparr>sn_paths := ps, sn_files := f\<rparr>))"

definition files_in_session :: "(fs \<Rightarrow> (export_error + 'a) \<times> fs) \<Rightarrow> ('c, 'a) session_run" where
  "files_in_session op s = (case op (sn_files s) of (r, f) \<Rightarrow> Some (r, s\<lparr>sn_files := f\<rparr>))"

definition summarize :: "(object_export_summary \<Rightarrow> object_export_summary) \<Rightarrow> 'c export_session \<Rightarrow> 'c export_session" where
  "summarize g s = s\<lparr>sn_summary := g (sn_summary s)\<rparr>"

section \<open>Listing\<close>

definition NATIVE_AOT_CONTEXT_LIST_PAGE_SIZE :: nat where "NATIVE_AOT_CONTEXT_LIST_PAGE_SIZE = 4096"

definition list_request :: "int \<Rightarrow> nat \<Rightarrow> ffi_request" where
  "list_request context_id offset =
     ReqContextListObjects \<lparr>lq_context_id = context_id, lq_offset = offset, lq_limit = NATIVE_AOT_CONTEXT_LIST_PAGE_SIZE\<rparr>"

definition list_page :: "('c, 'img) session_env \<Rightarrow> int \<Rightarrow> nat \<Rightarrow> 'c export_session \<Rightarrow> (export_error + list_objects_response) \<times> 'c export_session" where
  "list_page sv context_id offset s =
     (case sv_call sv (list_request context_id offset) (sn_caller s, sn_files s) of
        (r, c, f) \<Rightarrow> (res_bind r (parse_assetstudio_ffi_context_list_objects_worker_output (sv_dbg sv)),
                      s\<lparr>sn_caller := c, sn_files := f\<rparr>))"

partial_function (option) list_loop ::
    "('c, 'img) session_env \<Rightarrow> int \<Rightarrow> nat \<Rightarrow> asset_info list \<Rightarrow> 'c export_session \<Rightarrow> ((export_error + asset_info list) \<times> 'c export_session) option" where
  [code]: "list_loop sv context_id offset assets s =
     (case list_page sv context_id offset s of
        (Inl e, s) \<Rightarrow> Some (Inl e, s)
      | (Inr response, s) \<Rightarrow>
          (case ls_next_offset response of
             Some next_offset \<Rightarrow> list_loop sv context_id next_offset (assets @ ls_assets response) s
           | None \<Rightarrow> Some (Inr (assets @ ls_assets response), s)))"

definition list_assetstudio_ffi_context_objects_worker ::
    "('c, 'img) session_env \<Rightarrow> int \<Rightarrow> context_open_response \<Rightarrow> ('c, asset_info list) session_run" where
  "list_assetstudio_ffi_context_objects_worker sv context_id open_response s =
     (if os_assets open_response \<noteq> [] \<and> \<not> os_has_more_assets open_response then Some (Inr (os_assets open_response), s)
      else list_loop sv context_id 0 [] s)"

section \<open>Reading\<close>

fun handle_results ::
    "('c, 'img) session_env \<Rightarrow> object_export_options \<Rightarrow> (asset_info \<times> read_parse_result) list \<Rightarrow> ('c, unit) session_run" where
  "handle_results sv options [] s = Some (Inr (), s)"
| "handle_results sv options ((asset, SkippedObject sk) # results) s = handle_results sv options results (summarize (skip_read sk) s)"
| "handle_results sv options ((asset, ReadObject read_output) # results) s =
     (let s = summarize (in_plan (\<lambda>p. p\<lparr>rp_successful_reads := rp_successful_reads p + 1\<rparr>)) s in
      if is_playable_mono_typetree (xe_ct (sv_export sv)) asset read_output
      then handle_results sv options results (s\<lparr>sn_playables := sn_playables s @ [(asset, read_output)]\<rparr>)
      else run_bind (writing_in_session (write_native_object_payload (sv_export sv) options asset read_output) s)
             (\<lambda>_ s. handle_results sv options results s))"

definition crash_skip :: "export_env \<Rightarrow> asset_info \<Rightarrow> export_error \<Rightarrow> object_export_summary \<Rightarrow> object_export_summary" where
  "crash_skip env asset error summary =
     (skip_read (skipped_read asset (''assetstudio ffi image read crashed worker: '' @ show_export_error (xe_io env) error)) summary)
       \<lparr>om_worker_crash_skipped := True\<rparr>"

definition read_subchunk ::
    "('c, 'img) session_env \<Rightarrow> object_export_options \<Rightarrow> int \<Rightarrow> asset_info list \<Rightarrow> ('c, unit) session_run" where
  "read_subchunk sv options context_id asset_chunk s =
     (let env = sv_export sv; ct = xe_ct env;
          s = summarize (in_plan (\<lambda>p. p\<lparr>rp_batch_count := rp_batch_count p + 1\<rparr>)) s;
          request = ReqContextReadObjects
            (native_object_read_batch_request ct context_id asset_chunk (eo_read_kinds options) (eo_image_format options))
      in case send sv request s of
           None \<Rightarrow> None
         | Some (Inl error, s) \<Rightarrow>
             (case asset_chunk of
                [asset] \<Rightarrow>
                  if is_native_worker_signal_failure error \<and> is_native_image_asset ct asset
                  then Some (Inr (), summarize (crash_skip env asset error) s) else Some (Inl error, s)
              | _ \<Rightarrow> Some (Inl error, s))
         | Some (Inr out, s) \<Rightarrow>
             run_bind (files_in_session (parse_assetstudio_ffi_object_read_batch_worker_output_recoverable env (sv_dbg sv) out asset_chunk) s)
               (\<lambda>read_outputs s.
                  handle_results sv options (zip asset_chunk (bo_results read_outputs))
                    (summarize (record_native_object_read_batch_diagnostics read_outputs) s)))"

fun read_subchunks ::
    "('c, 'img) session_env \<Rightarrow> object_export_options \<Rightarrow> int \<Rightarrow> asset_info list list \<Rightarrow> ('c, unit) session_run" where
  "read_subchunks sv options context_id [] s = Some (Inr (), s)"
| "read_subchunks sv options context_id (c # cs) s =
     run_bind (read_subchunk sv options context_id c s) (\<lambda>_ s. read_subchunks sv options context_id cs s)"

definition flush_in_session :: "('c, 'img) session_env \<Rightarrow> object_export_options \<Rightarrow> ('c, unit) session_run" where
  "flush_in_session sv options =
     writing_in_session (flush_queued_native_images_if_over_threshold (sv_codec sv) (sv_order sv) options)"

fun read_chunks ::
    "('c, 'img) session_env \<Rightarrow> object_export_options \<Rightarrow> int \<Rightarrow> asset_info list list \<Rightarrow> ('c, unit) session_run" where
  "read_chunks sv options context_id [] s = Some (Inr (), s)"
| "read_chunks sv options context_id (c # cs) s =
     run_bind (read_subchunks sv options context_id (native_object_read_subchunks (xe_ct (sv_export sv)) c (eo_image_format options)) s)
       (\<lambda>_ s. run_bind (flush_in_session sv options s) (\<lambda>_ s. read_chunks sv options context_id cs s))"

section \<open>The export of a bundle\<close>

definition opened_summary :: "context_open_response \<Rightarrow> object_export_summary" where
  "opened_summary open_response =
     \<lparr>om_written_files = [], om_acb_sources = [], om_pending_image_writes = [], om_skipped_object_reads = [],
      om_object_read_plan = default_read_plan\<lparr>rp_inspected_objects := os_exportable_asset_count open_response\<rparr>,
      om_worker_crash_skipped = False\<rparr>"

definition finished_summary :: "'c export_session \<Rightarrow> object_export_summary" where
  "finished_summary s =
     (sn_summary s)\<lparr>om_written_files := ps_written_files (sn_paths s), om_acb_sources := ps_acb_sources (sn_paths s),
        om_pending_image_writes := ps_pending_image_writes (sn_paths s)\<rparr>"

definition select_in_session ::
    "('c, 'img) session_env \<Rightarrow> object_export_options \<Rightarrow> asset_info list \<Rightarrow> 'c export_session \<Rightarrow> asset_info list \<times> 'c export_session" where
  "select_in_session sv options assets s =
     (let ct = xe_ct (sv_export sv);
          configured = asset_studio_export_type_list (sv_regex sv) (eo_region options) (eo_export_path options);
          (readable, summary) = select_native_object_readable_assets ct assets configured (sn_summary s)
      in (sort_native_object_reads_for_failure_isolation ct readable, s\<lparr>sn_summary := summary\<rparr>))"

definition unpack ::
    "('c, 'img) session_env \<Rightarrow> object_export_options \<Rightarrow> int \<Rightarrow> context_open_response \<Rightarrow> ('c, object_export_summary) session_run" where
  "unpack sv options context_id open_response s =
     run_bind (list_assetstudio_ffi_context_objects_worker sv context_id open_response s) (\<lambda>assets s.
       let (readable_assets, s) = select_in_session sv options assets s;
           read_batch_size = native_read_batch_size_for_assets (xe_ct (sv_export sv)) (eo_read_batch_size options) readable_assets
       in run_bind (read_chunks sv options context_id (chunks read_batch_size readable_assets) s) (\<lambda>_ s.
          run_bind (writing_in_session (write_assetstudio_playable_payloads (sv_export sv) options (sn_playables s)) s) (\<lambda>_ s.
          run_bind (flush_in_session sv options s) (\<lambda>_ s. Some (Inr (finished_summary s), s)))))"

definition close_export_context :: "('c, 'img) session_env \<Rightarrow> int \<Rightarrow> 'c export_session \<Rightarrow> (export_error + unit) \<times> 'c export_session" where
  "close_export_context sv context_id s =
     (case sv_call sv (ReqContextClose context_id) (sn_caller s, sn_files s) of
        (r, c, f) \<Rightarrow> (res_bind r (parse_assetstudio_ffi_context_close_worker_output (sv_dbg sv)),
                      s\<lparr>sn_caller := c, sn_files := f\<rparr>))"

fun session_result :: "export_error + object_export_summary \<Rightarrow> export_error + unit \<Rightarrow> export_error + object_export_summary" where
  "session_result (Inr summary) (Inr _) = Inr summary"
| "session_result (Inl e) (Inr _) = Inl e"
| "session_result (Inr summary) (Inl e) = (if om_worker_crash_skipped summary then Inr summary else Inl e)"
| "session_result (Inl unpack_error) (Inl close_error) = Inl unpack_error"

definition call_assetstudio_ffi_object_export_with_caller ::
    "('c, 'img) session_env \<Rightarrow> context_open_request \<Rightarrow> object_export_options \<Rightarrow> 'c \<times> fs \<Rightarrow>
     ((export_error + object_export_summary) \<times> 'c \<times> fs) option" where
  "call_assetstudio_ffi_object_export_with_caller sv open_request options cf =
     (case sv_call sv (ReqContextOpen open_request) cf of
        (r, c, f) \<Rightarrow>
          (case res_bind r (parse_assetstudio_ffi_context_open_worker_output (sv_dbg sv)) of
             Inl e \<Rightarrow> Some (Inl e, c, f)
           | Inr open_response \<Rightarrow>
               let context_id = os_context_id open_response;
                   s = \<lparr>sn_caller = c, sn_files = f, sn_paths = empty_path_state, sn_summary = opened_summary open_response, sn_playables = []\<rparr>
               in (case unpack sv options context_id open_response s of
                     None \<Rightarrow> None
                   | Some (unpack_result, s) \<Rightarrow>
                       (case close_export_context sv context_id s of
                          (close_result, s) \<Rightarrow> Some (session_result unpack_result close_result, sn_caller s, sn_files s)))))"

section \<open>Steps of a session\<close>

lemma send_Some: "send sv request s = Some (r, s') \<longleftrightarrow>
    (\<exists>c f. sv_call sv request (sn_caller s, sn_files s) = (r, c, f) \<and> s' = s\<lparr>sn_caller := c, sn_files := f\<rparr>)"
  by (auto simp: send_def split: prod.splits)

lemma send_returns: "\<exists>r s'. send sv request s = Some (r, s')"
  by (simp add: send_def split: prod.split)

lemma writing_in_session_Some: "writing_in_session w s = Some (r, s') \<longleftrightarrow>
    (\<exists>ps f. w (sn_paths s, sn_files s) = Some (r, ps, f) \<and> s' = s\<lparr>sn_paths := ps, sn_files := f\<rparr>)"
  by (auto simp: writing_in_session_def split: option.splits prod.splits)

lemma files_in_session_Some: "files_in_session op s = Some (r, s') \<longleftrightarrow>
    r = fst (op (sn_files s)) \<and> s' = s\<lparr>sn_files := snd (op (sn_files s))\<rparr>"
  by (auto simp: files_in_session_def split: prod.splits)

lemma flush_in_session_Some: "flush_in_session sv options s = Some (r, s') \<Longrightarrow> \<exists>ps f. s' = s\<lparr>sn_paths := ps, sn_files := f\<rparr>"
  by (auto simp: flush_in_session_def writing_in_session_Some)

lemma handle_results_caller:
  "handle_results sv options results s = Some (r, s') \<Longrightarrow> sn_caller s' = sn_caller s"
proof (induction results arbitrary: s r s')
  case (Cons x results)
  obtain asset res where x: "x = (asset, res)" by (cases x)
  show ?case
  proof (cases res)
    case (SkippedObject sk)
    with Cons x show ?thesis by (fastforce simp: summarize_def)
  next
    case (ReadObject read_output)
    let ?s = "summarize (in_plan (\<lambda>p. p\<lparr>rp_successful_reads := rp_successful_reads p + 1\<rparr>)) s"
    show ?thesis
    proof (cases "is_playable_mono_typetree (xe_ct (sv_export sv)) asset read_output")
      case True
      then have "handle_results sv options results (?s\<lparr>sn_playables := sn_playables ?s @ [(asset, read_output)]\<rparr>) = Some (r, s')"
        using Cons.prems x ReadObject by (simp add: Let_def)
      from Cons.IH [OF this] show ?thesis by (simp add: summarize_def)
    next
      case False
      then have "run_bind (writing_in_session (write_native_object_payload (sv_export sv) options asset read_output) ?s)
          (\<lambda>_ s. handle_results sv options results s) = Some (r, s')"
        using Cons.prems x ReadObject by (simp add: Let_def)
      then show ?thesis
        by (rule run_bind_keeps [where P = "\<lambda>t. sn_caller t = sn_caller s"])
          (use Cons.IH in \<open>auto simp: writing_in_session_Some summarize_def\<close>)
    qed
  qed
qed simp

section \<open>The protocol of a session\<close>

text \<open>A caller that keeps a log of the requests it was given.\<close>

definition logged :: "'c caller \<Rightarrow> ('c \<times> ffi_request list) caller" where
  "logged call request = (\<lambda>((c, qs), f). case call request (c, f) of (r, c, f) \<Rightarrow> (r, (c, qs @ [request]), f))"

fun lists_context :: "int \<Rightarrow> ffi_request \<Rightarrow> bool" where
  "lists_context context_id (ReqContextListObjects q) \<longleftrightarrow> lq_context_id q = context_id"
| "lists_context context_id _ \<longleftrightarrow> False"

fun reads_context :: "int \<Rightarrow> ffi_request \<Rightarrow> bool" where
  "reads_context context_id (ReqContextReadObjects q) \<longleftrightarrow> bq_context_id q = context_id"
| "reads_context context_id _ \<longleftrightarrow> False"

definition sends :: "(ffi_request \<Rightarrow> bool) \<Rightarrow> ('c \<times> ffi_request list) export_session \<Rightarrow> ('c \<times> ffi_request list) export_session \<Rightarrow> bool" where
  "sends P s s' \<longleftrightarrow> (\<exists>l. snd (sn_caller s') = snd (sn_caller s) @ l \<and> list_all P l)"

lemma sends_same: "sn_caller s' = sn_caller s \<Longrightarrow> sends P s s'"
  by (simp add: sends_def)

lemma sends_trans: "sends P s t \<Longrightarrow> sends P t u \<Longrightarrow> sends P s u"
  by (force simp: sends_def)

lemma sends_bind:
  assumes "run_bind m g = Some (r, s')" and "\<And>q t. m = Some (q, t) \<Longrightarrow> sends P s t"
    and "\<And>x t r u. g x t = Some (r, u) \<Longrightarrow> sends P t u"
  shows "sends P s s'"
  using assms(1)
proof (rule run_bind_keeps)
  show "sends P s u" if "sends P s t" "g x t = Some (q, u)" for x t q u using that assms(3) sends_trans by blast
qed (rule assms(2))

lemma logged_call:
  assumes "logged call request (c, f) = (r, c', f')"
  shows "snd c' = snd c @ [request]"
  using assms by (auto simp: logged_def split: prod.splits)

locale logged_session =
  fixes sv :: "('c \<times> ffi_request list, 'img) session_env" and call :: "'c caller"
  assumes logs: "sv_call sv = logged call"
begin

lemma send_sends: "send sv request s = Some (r, s') \<Longrightarrow> P request \<Longrightarrow> sends P s s'"
  using logged_call by (fastforce simp: send_Some logs sends_def)

lemma list_page_sends:
  assumes "list_page sv context_id offset s = (r, s')"
  shows "sends (lists_context context_id) s s'"
  using assms logged_call by (fastforce simp: list_page_def logs sends_def list_request_def split: prod.splits)

lemma list_loop_sends:
  assumes "list_loop sv context_id offset assets s = Some (r, s')"
  shows "sends (lists_context context_id) s s'"
proof -
  have "sv = sv \<longrightarrow> sends (lists_context context_id) s (snd (r, s'))"
  proof (rule list_loop.raw_induct [where P = "\<lambda>x i n a t q. x = sv \<longrightarrow> sends (lists_context i) t (snd q)", OF _ assms], rule impI)
    fix rec :: "('c \<times> ffi_request list, 'img) session_env \<Rightarrow> int \<Rightarrow> nat \<Rightarrow> asset_info list \<Rightarrow> ('c \<times> ffi_request list) export_session \<Rightarrow>
        ((export_error + asset_info list) \<times> ('c \<times> ffi_request list) export_session) option"
      and x i n a t q
    assume IH: "\<And>x i n a t q. rec x i n a t = Some q \<Longrightarrow> x = sv \<longrightarrow> sends (lists_context i) t (snd q)"
      and run: "(case list_page x i n t of
        (Inl e, s) \<Rightarrow> Some (Inl e, s)
      | (Inr response, s) \<Rightarrow>
          (case ls_next_offset response of
             None \<Rightarrow> Some (Inr (a @ ls_assets response), s)
           | Some next_offset \<Rightarrow> rec x i next_offset (a @ ls_assets response) s)) = Some q"
      and x: "x = sv"
    obtain r1 t1 where page: "list_page x i n t = (r1, t1)" by fastforce
    then have "sends (lists_context i) t t1" using x list_page_sends by simp
    moreover have "sends (lists_context i) t1 (snd q)" if "rec sv i m b t1 = Some q" for m b using IH [OF that] by simp
    ultimately show "sends (lists_context i) t (snd q)"
      using run x page by (auto split: sum.splits option.splits intro: sends_trans)
  qed
  then show ?thesis by simp
qed

lemma listing_sends:
  "list_assetstudio_ffi_context_objects_worker sv context_id open_response s = Some (r, s') \<Longrightarrow> sends (lists_context context_id) s s'"
  by (auto simp: list_assetstudio_ffi_context_objects_worker_def sends_same intro: list_loop_sends split: if_splits)

lemma read_subchunk_sends:
  assumes "read_subchunk sv options context_id asset_chunk s = Some (r, s')"
  shows "sends (reads_context context_id) s s'"
proof -
  let ?q = "ReqContextReadObjects (native_object_read_batch_request (xe_ct (sv_export sv)) context_id asset_chunk
    (eo_read_kinds options) (eo_image_format options))"
  let ?s = "summarize (in_plan (\<lambda>p. p\<lparr>rp_batch_count := rp_batch_count p + 1\<rparr>)) s"
  obtain q t where t: "send sv ?q ?s = Some (q, t)" using send_returns by blast
  have "sends (reads_context context_id) ?s t" by (rule send_sends [OF t]) (simp add: native_object_read_batch_request_def)
  then have st: "sends (reads_context context_id) s t" by (simp add: sends_def summarize_def)
  have "sn_caller s' = sn_caller t"
  proof (cases q)
    case (Inl e)
    then show ?thesis
      using assms t by (auto simp: read_subchunk_def Let_def summarize_def split: list.splits if_splits)
  next
    case (Inr out)
    then have "run_bind (files_in_session (parse_assetstudio_ffi_object_read_batch_worker_output_recoverable (sv_export sv) (sv_dbg sv) out asset_chunk) t)
        (\<lambda>read_outputs s. handle_results sv options (zip asset_chunk (bo_results read_outputs))
            (summarize (record_native_object_read_batch_diagnostics read_outputs) s)) = Some (r, s')"
      using assms t by (simp add: read_subchunk_def Let_def)
    then show ?thesis
      by (rule run_bind_keeps [where P = "\<lambda>u. sn_caller u = sn_caller t"])
        (auto simp: files_in_session_Some summarize_def dest: handle_results_caller)
  qed
  with st show ?thesis by (simp add: sends_def)
qed

lemma read_subchunks_sends:
  "read_subchunks sv options context_id cs s = Some (r, s') \<Longrightarrow> sends (reads_context context_id) s s'"
proof (induction cs arbitrary: s r s')
  case (Cons c cs)
  from Cons.prems show ?case
    unfolding read_subchunks.simps by (rule sends_bind) (use read_subchunk_sends Cons.IH in blast)+
qed (simp add: sends_same)

lemma flush_sends: "flush_in_session sv options s = Some (r, s') \<Longrightarrow> sends P s s'"
  by (drule flush_in_session_Some) (auto simp: sends_def)

lemma read_chunks_sends:
  "read_chunks sv options context_id cs s = Some (r, s') \<Longrightarrow> sends (reads_context context_id) s s'"
proof (induction cs arbitrary: s r s')
  case (Cons c cs)
  have flush_step: "sends (reads_context context_id) t u"
    if "run_bind (flush_in_session sv options t) (\<lambda>_ s. read_chunks sv options context_id cs s) = Some (q, u)" for t q u
    using that by (rule sends_bind) (use flush_sends Cons.IH in blast)+
  from Cons.prems show ?case
    unfolding read_chunks.simps by (rule sends_bind) (use read_subchunks_sends flush_step in blast)+
qed (simp add: sends_same)

lemma unpack_log:
  assumes "unpack sv options context_id open_response s = Some (r, s')"
  shows "\<exists>lists reads. snd (sn_caller s') = snd (sn_caller s) @ lists @ reads \<and> list_all (lists_context context_id) lists \<and>
    list_all (reads_context context_id) reads"
proof -
  obtain q t where l: "list_assetstudio_ffi_context_objects_worker sv context_id open_response s = Some (q, t)"
    using assms unfolding unpack_def run_bind_def by (auto split: option.splits prod.splits)
  obtain lists where lists: "snd (sn_caller t) = snd (sn_caller s) @ lists" "list_all (lists_context context_id) lists"
    using listing_sends [OF l] by (auto simp: sends_def)
  have "sends (reads_context context_id) t s'"
  proof (cases q)
    case (Inl e)
    then show ?thesis using assms l by (simp add: unpack_def sends_same)
  next
    case (Inr assets)
    obtain readable u where sel: "select_in_session sv options assets t = (readable, u)" by fastforce
    then have u: "sn_caller u = sn_caller t" by (auto simp: select_in_session_def Let_def split: prod.splits)
    have step2: "sends (reads_context context_id) v w"
      if "run_bind (writing_in_session (write_assetstudio_playable_payloads (sv_export sv) options (sn_playables v)) v) (\<lambda>_ s.
          run_bind (flush_in_session sv options s) (\<lambda>_ s. Some (Inr (finished_summary s), s))) = Some (p, w)" for v p w
      using that
    proof (rule sends_bind)
      fix x y z p assume "run_bind (flush_in_session sv options y) (\<lambda>_ s. Some (Inr (finished_summary s), s)) = Some (p, z)"
      then show "sends (reads_context context_id) y z"
        by (rule sends_bind) (auto intro: flush_sends sends_same)
    qed (auto simp: writing_in_session_Some sends_def)
    have "run_bind (read_chunks sv options context_id
        (chunks (native_read_batch_size_for_assets (xe_ct (sv_export sv)) (eo_read_batch_size options) readable) readable) u) (\<lambda>_ s.
          run_bind (writing_in_session (write_assetstudio_playable_payloads (sv_export sv) options (sn_playables s)) s) (\<lambda>_ s.
          run_bind (flush_in_session sv options s) (\<lambda>_ s. Some (Inr (finished_summary s), s)))) = Some (r, s')"
      using assms l Inr sel by (simp add: unpack_def Let_def)
    then have "sends (reads_context context_id) u s'" by (rule sends_bind) (use read_chunks_sends step2 in blast)+
    with u show ?thesis by (simp add: sends_def)
  qed
  with lists show ?thesis by (auto simp: sends_def)
qed

lemma session_log:
  assumes "call_assetstudio_ffi_object_export_with_caller sv open_request options ((c, qs), f) = Some (r, (c', qs'), f')"
  shows "qs' = qs @ [ReqContextOpen open_request] \<and> isl r \<or>
    (\<exists>context_id lists reads. qs' = qs @ [ReqContextOpen open_request] @ lists @ reads @ [ReqContextClose context_id] \<and>
       list_all (lists_context context_id) lists \<and> list_all (reads_context context_id) reads)"
proof -
  obtain q d g where o: "sv_call sv (ReqContextOpen open_request) ((c, qs), f) = (q, d, g)" by (metis prod_cases3)
  then have d: "snd d = qs @ [ReqContextOpen open_request]" using logged_call by (fastforce simp: logs)
  show ?thesis
  proof (cases "res_bind q (parse_assetstudio_ffi_context_open_worker_output (sv_dbg sv))")
    case (Inl e)
    with assms o d show ?thesis by (auto simp: call_assetstudio_ffi_object_export_with_caller_def)
  next
    case (Inr open_response)
    let ?s = "\<lparr>sn_caller = d, sn_files = g, sn_paths = empty_path_state, sn_summary = opened_summary open_response, sn_playables = []\<rparr>"
    from assms o Inr obtain ur t where u: "unpack sv options (os_context_id open_response) open_response ?s = Some (ur, t)"
      and "case close_export_context sv (os_context_id open_response) t of
         (close_result, s) \<Rightarrow> Some (session_result ur close_result, sn_caller s, sn_files s) = Some (r, (c', qs'), f')"
      by (auto simp: call_assetstudio_ffi_object_export_with_caller_def Let_def split: option.splits prod.splits)
    moreover obtain cr e h where "sv_call sv (ReqContextClose (os_context_id open_response)) (sn_caller t, sn_files t) = (cr, e, h)"
      by (metis prod_cases3)
    ultimately have "qs' = snd (sn_caller t) @ [ReqContextClose (os_context_id open_response)]"
      using logged_call by (fastforce simp: close_export_context_def logs)
    with unpack_log [OF u] d show ?thesis by auto
  qed
qed

end

interpretation recorded: logged_session "sv\<lparr>sv_call := logged call\<rparr>" call for sv call
  by unfold_locales simp


section \<open>Every object is read or skipped\<close>

definition tally :: "object_export_summary \<Rightarrow> nat" where
  "tally summary = rp_successful_reads (plan_of summary) + rp_skipped_reads (plan_of summary)"

definition skips_listed :: "object_export_summary \<Rightarrow> bool" where
  "skips_listed summary \<longleftrightarrow> rp_skipped_reads (plan_of summary) = length (om_skipped_object_reads summary)"

text \<open>The summary of \<open>s'\<close> accounts for \<open>n\<close> objects more than the one of \<open>s\<close>.\<close>

definition accounts :: "nat \<Rightarrow> 'c export_session \<Rightarrow> 'c export_session \<Rightarrow> bool" where
  "accounts n s s' \<longleftrightarrow>
     tally (sn_summary s') = tally (sn_summary s) + n \<and> (skips_listed (sn_summary s) \<longrightarrow> skips_listed (sn_summary s')) \<and>
     rp_planned_objects (plan_of (sn_summary s')) = rp_planned_objects (plan_of (sn_summary s))"

lemma accounts_same: "sn_summary s' = sn_summary s \<Longrightarrow> accounts 0 s s'"
  by (simp add: accounts_def)

lemma accounts_trans: "accounts m s t \<Longrightarrow> accounts n t u \<Longrightarrow> accounts (m + n) s u"
  by (simp add: accounts_def)

lemmas summary_defs = accounts_def tally_def skips_listed_def summarize_def skip_read_def skip_object_def

lemma accounts_skip: "accounts 1 s (summarize (skip_read sk) s)"
  by (simp add: summary_defs)

lemma accounts_crash: "accounts 1 s (summarize (crash_skip env asset e) s)"
  by (simp add: summary_defs crash_skip_def)

lemma handle_results_accounts:
  "handle_results sv options results s = Some (Inr (), s') \<Longrightarrow> accounts (length results) s s'"
proof (induction results arbitrary: s)
  case (Cons x results)
  obtain asset res where x: "x = (asset, res)" by (cases x)
  show ?case
  proof (cases res)
    case (SkippedObject sk)
    with Cons x show ?thesis using accounts_trans [OF accounts_skip] by fastforce
  next
    case (ReadObject read_output)
    let ?s = "summarize (in_plan (\<lambda>p. p\<lparr>rp_successful_reads := rp_successful_reads p + 1\<rparr>)) s"
    have one: "accounts 1 s t" if "sn_summary t = sn_summary ?s" for t using that by (simp add: summary_defs)
    obtain t where "handle_results sv options results t = Some (Inr (), s')" "sn_summary t = sn_summary ?s"
    proof (cases "is_playable_mono_typetree (xe_ct (sv_export sv)) asset read_output")
      case True
      then show ?thesis using Cons.prems x ReadObject that by (force simp: Let_def)
    next
      case False
      then show ?thesis
        using Cons.prems x ReadObject that by (force simp: Let_def writing_in_session_Some elim!: run_bind_InrE)
    qed
    with accounts_trans [OF one] Cons.IH show ?thesis by fastforce
  qed
qed (simp add: accounts_same)

lemma batch_results_length: "batch_results env response out assets payload = Inr b \<Longrightarrow> length (bo_results b) = length assets"
  by (auto simp: batch_results_def batch_output_def Let_def split: if_splits sum.splits elim!: res_bind_eq_Inr [THEN iffD1, THEN exE])

lemma read_subchunk_accounts:
  assumes "read_subchunk sv options context_id asset_chunk s = Some (Inr (), s')"
  shows "accounts (length asset_chunk) s s'"
proof -
  let ?q = "ReqContextReadObjects (native_object_read_batch_request (xe_ct (sv_export sv)) context_id asset_chunk
    (eo_read_kinds options) (eo_image_format options))"
  let ?s = "summarize (in_plan (\<lambda>p. p\<lparr>rp_batch_count := rp_batch_count p + 1\<rparr>)) s"
  obtain q t where t: "send sv ?q ?s = Some (q, t)" using send_returns by blast
  have st: "accounts 0 s t" using t by (auto simp: send_Some summary_defs)
  show ?thesis
  proof (cases q)
    case (Inl e)
    then obtain asset where "asset_chunk = [asset]" "s' = summarize (crash_skip (sv_export sv) asset e) t"
      using assms t by (auto simp: read_subchunk_def Let_def split: list.splits if_splits)
    with accounts_trans [OF st accounts_crash] show ?thesis by simp
  next
    case (Inr out)
    then obtain outputs u where
      p: "parse_assetstudio_ffi_object_read_batch_worker_output_recoverable (sv_export sv) (sv_dbg sv) out asset_chunk (sn_files t) = (Inr outputs, u)"
      and h: "handle_results sv options (zip asset_chunk (bo_results outputs))
        (summarize (record_native_object_read_batch_diagnostics outputs) (t\<lparr>sn_files := u\<rparr>)) = Some (Inr (), s')"
      using assms t by (auto simp: read_subchunk_def Let_def files_in_session_def elim!: run_bind_InrE split: prod.splits)
    have n: "length (bo_results outputs) = length asset_chunk"
      using p batch_results_length
      by (auto simp: parse_assetstudio_ffi_object_read_batch_worker_output_recoverable_def res_simps)
    have "accounts 0 t (summarize (record_native_object_read_batch_diagnostics outputs) (t\<lparr>sn_files := u\<rparr>))"
      by (simp add: summary_defs record_native_object_read_batch_diagnostics_def)
    from accounts_trans [OF accounts_trans [OF st this] handle_results_accounts [OF h]] n show ?thesis by simp
  qed
qed

lemma read_subchunks_accounts:
  "read_subchunks sv options context_id cs s = Some (Inr (), s') \<Longrightarrow> accounts (length (concat cs)) s s'"
proof (induction cs arbitrary: s)
  case (Cons c cs)
  then obtain t where "read_subchunk sv options context_id c s = Some (Inr (), t)" "read_subchunks sv options context_id cs t = Some (Inr (), s')"
    by (auto elim!: run_bind_InrE)
  with Cons.IH read_subchunk_accounts accounts_trans show ?case by fastforce
qed (simp add: accounts_same)

lemma read_chunks_accounts:
  "read_chunks sv options context_id cs s = Some (Inr (), s') \<Longrightarrow> accounts (length (concat cs)) s s'"
proof (induction cs arbitrary: s)
  case (Cons c cs)
  let ?subs = "native_object_read_subchunks (xe_ct (sv_export sv)) c (eo_image_format options)"
  from Cons.prems obtain t u where t: "read_subchunks sv options context_id ?subs s = Some (Inr (), t)"
    "flush_in_session sv options t = Some (Inr (), u)" "read_chunks sv options context_id cs u = Some (Inr (), s')"
    by (auto elim!: run_bind_InrE)
  have "concat ?subs = c" using subchunk_loop_concat [of c 0 c 0] by (simp add: native_object_read_subchunks_def)
  then have "accounts (length c) s t" using read_subchunks_accounts [OF t(1)] by simp
  moreover have "accounts 0 t u" using flush_in_session_Some [OF t(2)] by (auto simp: accounts_def)
  ultimately have "accounts (length c + 0 + length (concat cs)) s s'" using Cons.IH [OF t(3)] accounts_trans by blast
  then show ?case by simp
qed (simp add: accounts_same)

definition enabled_assets :: "('c, 'img) session_env \<Rightarrow> object_export_options \<Rightarrow> asset_info list \<Rightarrow> asset_info list" where
  "enabled_assets sv options assets =
     filter (\<lambda>a. assetstudio_object_mode_type_enabled (xe_ct (sv_export sv)) a
       (asset_studio_export_type_list (sv_regex sv) (eo_region options) (eo_export_path options))) assets"

lemma select_in_session_tally:
  assumes "select_in_session sv options assets s = (readable, s')"
    and "rp_successful_reads (plan_of (sn_summary s)) = 0" and "om_skipped_object_reads (sn_summary s) = []"
  shows "skips_listed (sn_summary s') \<and> tally (sn_summary s') + length readable = length (enabled_assets sv options assets) \<and>
    rp_planned_objects (plan_of (sn_summary s')) = length readable"
proof -
  let ?ct = "xe_ct (sv_export sv)"
  let ?conf = "asset_studio_export_type_list (sv_regex sv) (eo_region options) (eo_export_path options)"
  obtain selected summary where l: "select_loop ?ct (texture2d_array_parent_containers ?ct assets) ?conf assets (sn_summary s) = (selected, summary)"
    by fastforce
  from select_loop_accounts [OF l] assms(3)
  have sel: "plan_of summary = plan_of (sn_summary s)"
    "length selected + length (om_skipped_object_reads summary) = length (enabled_assets sv options assets)"
    by (auto simp: enabled_assets_def)
  from assms(1) l have "readable = sort_native_object_reads_for_failure_isolation ?ct selected"
    "sn_summary s' = in_plan (\<lambda>p. p\<lparr>rp_planned_objects := length selected, rp_readable_objects := length selected,
        rp_skipped_reads := length (om_skipped_object_reads summary)\<rparr>) summary"
    by (auto simp: select_in_session_def select_native_object_readable_assets_def Let_def)
  with sel assms(2) show ?thesis
    by (simp add: skips_listed_def tally_def sort_native_object_reads_for_failure_isolation_def)
qed

text \<open>C15: When the export succeeds, every listed object of an enabled type was read successfully or is in the list of
  skipped objects.\<close>

theorem export_accounts_for_every_object:
  assumes "list_assetstudio_ffi_context_objects_worker sv context_id open_response s = Some (Inr assets, s1)"
    and "sn_summary s1 = opened_summary open_response"
    and "unpack sv options context_id open_response s = Some (Inr summary, s')"
  shows "rp_successful_reads (plan_of summary) + length (om_skipped_object_reads summary) = length (enabled_assets sv options assets) \<and>
    rp_skipped_reads (plan_of summary) = length (om_skipped_object_reads summary)"
proof -
  obtain readable u where sel: "select_in_session sv options assets s1 = (readable, u)" by fastforce
  let ?n = "native_read_batch_size_for_assets (xe_ct (sv_export sv)) (eo_read_batch_size options) readable"
  from assms(1,3) sel obtain v w x where v: "read_chunks sv options context_id (chunks ?n readable) u = Some (Inr (), v)"
    and w: "writing_in_session (write_assetstudio_playable_payloads (sv_export sv) options (sn_playables v)) v = Some (Inr (), w)"
    and x: "flush_in_session sv options w = Some (Inr (), x)" and summary: "summary = finished_summary x"
    by (auto simp: unpack_def Let_def elim!: run_bind_InrE)
  have n: "0 < ?n" using batch_size_bounds by (metis less_le_trans zero_less_one)
  have "accounts (length readable) u v" using read_chunks_accounts [OF v] n by simp
  moreover have "sn_summary x = sn_summary v"
    using flush_in_session_Some [OF x] w by (auto simp: writing_in_session_Some)
  moreover have "skips_listed (sn_summary u)" "tally (sn_summary u) + length readable = length (enabled_assets sv options assets)"
    using select_in_session_tally [OF sel] assms(2) by (simp_all add: opened_summary_def default_read_plan_def)
  ultimately have "skips_listed (sn_summary x)" "tally (sn_summary x) = length (enabled_assets sv options assets)"
    by (simp_all add: accounts_def)
  then show ?thesis by (simp add: summary finished_summary_def skips_listed_def tally_def)
qed

section \<open>Listing ends when pages advance\<close>

text \<open>C38: The offsets of the pages grow and stay below a bound.\<close>

definition pages_advance :: "('c, 'img) session_env \<Rightarrow> int \<Rightarrow> nat \<Rightarrow> bool" where
  "pages_advance sv context_id bound \<longleftrightarrow>
     (\<forall>offset s response s' next_offset. list_page sv context_id offset s = (Inr response, s') \<longrightarrow>
        ls_next_offset response = Some next_offset \<longrightarrow> offset < next_offset \<and> next_offset \<le> bound)"


text \<open>A library whose pages never end makes the export run for ever.\<close>

theorem repeated_page_never_ends:
  assumes "\<And>s. \<exists>response s'. list_page sv context_id 0 s = (Inr response, s') \<and> ls_next_offset response = Some 0"
    and "os_has_more_assets open_response"
  shows "list_assetstudio_ffi_context_objects_worker sv context_id open_response s = None"
proof -
  have never: "list_loop sv context_id 0 assets s \<noteq> Some q" for assets s q
  proof
    assume "list_loop sv context_id 0 assets s = Some q"
    then have "sv = sv \<and> context_id = context_id \<and> (0 :: nat) = 0 \<longrightarrow> False"
    proof (rule list_loop.raw_induct [where P = "\<lambda>x i n a t q. x = sv \<and> i = context_id \<and> n = 0 \<longrightarrow> False", rotated], intro impI)
      fix rec x i n a t q
      assume IH: "\<And>x i n a t q. rec x i n a t = Some q \<Longrightarrow> x = sv \<and> i = context_id \<and> n = 0 \<longrightarrow> False"
        and run: "(case list_page x i n t of
          (Inl e, s) \<Rightarrow> Some (Inl e, s)
        | (Inr response, s) \<Rightarrow>
            (case ls_next_offset response of
               None \<Rightarrow> Some (Inr (a @ ls_assets response), s)
             | Some next_offset \<Rightarrow> rec x i next_offset (a @ ls_assets response) s)) = Some q"
        and eq: "x = sv \<and> i = context_id \<and> n = 0"
      obtain response t' where "list_page sv context_id 0 t = (Inr response, t')" "ls_next_offset response = Some 0"
        using assms(1) by blast
      with run eq have "rec sv context_id 0 (a @ ls_assets response) t' = Some q" by auto
      from IH [OF this] show False by simp
    qed
    then show False by simp
  qed
  have "list_loop sv context_id 0 [] s = None" using never [of "[]" s] by (cases "list_loop sv context_id 0 [] s") auto
  with assms(2) show ?thesis by (simp add: list_assetstudio_ffi_context_objects_worker_def)
qed

section \<open>A library with one object\<close>

definition demo_answer :: "ffi_response \<Rightarrow> worker_output" where
  "demo_answer response = \<lparr>wo_status = ''0'', wo_status_success = True, wo_response = response, wo_stderr = [], wo_payload = [],
     wo_payload_file = None\<rparr>"

fun demo_call :: "unit caller" where
  "demo_call (ReqContextOpen _) cf =
     (Inr (demo_answer (RespContextOpen \<lparr>os_success = True, os_context_id = 7, os_assets_file_count = 1, os_exportable_asset_count = 1,
        os_unity_version = None, os_assets = [], os_object_index_count = 1, os_has_more_assets = True, os_error = None\<rparr>)), cf)"
| "demo_call (ReqContextListObjects q) cf =
     (Inr (demo_answer (RespContextListObjects \<lparr>ls_success = True, ls_context_id = 7, ls_offset = 0, ls_limit = 1, ls_next_offset = None,
        ls_total_count = 1, ls_returned_count = 1, ls_assets = [demo_object ''A'' ''c'' ''audio''], ls_error = None\<rparr>)), cf)"
| "demo_call (ReqContextReadObjects q) cf =
     (Inr (demo_answer (RespContextReadObjects \<lparr>br_success = True,
        br_reads = [\<lparr>or_success = False, or_asset = None, or_payload_kind = None, or_payload_len = 0, or_suggested_extension = None, or_error = None\<rparr>],
        br_payload_kind_counts = [], br_payload_bytes_by_kind = [], br_payload_len = 0, br_object_count = 1, br_payload_bundle_version = 2,
        br_payload_bundle_entry_count = 0, br_payload_bundle_bytes = 0, br_payload_data_bytes = 0, br_failed_count = 1, br_error = None\<rparr>)), cf)"
| "demo_call _ cf = (Inr (demo_answer (RespContextClose \<lparr>cs_success = True, cs_error = None\<rparr>)), cf)"

definition demo_session_env :: "'c caller \<Rightarrow> ('c, bytes) session_env" where
  "demo_session_env call = \<lparr>sv_call = call, sv_dbg = (\<lambda>_. ''response''), sv_export = demo_export_env, sv_codec = demo_codec, sv_order = id,
     sv_regex = (\<lambda>_. None)\<rparr>"

definition demo_open_request :: context_open_request where
  "demo_open_request = \<lparr>oq_input_path = ''b'', oq_asset_types = [], oq_unity_version = None, oq_filter_exclude_mode = False,
     oq_filter_with_regex = False, oq_filter_by_name = None, oq_filter_by_container = None, oq_filter_by_path_ids = [],
     oq_load_all_assets = True, oq_include_assets = False\<rparr>"

abbreviation demo_logged_env :: "(unit \<times> ffi_request list, bytes) session_env" where
  "demo_logged_env \<equiv> (demo_session_env (logged demo_call))\<lparr>sv_call := logged demo_call\<rparr>"

lemma demo_session_run:
  "map_option (\<lambda>(r, (c, qs), f). (isl r, map request_operation qs))
     (call_assetstudio_ffi_object_export_with_caller demo_logged_env demo_open_request demo_export_options (((), []), demo_export_fs)) =
   Some (False, [OpContextOpen, OpContextListObjects, OpContextReadObjects, OpContextClose])"
  by code_simp


definition demo_open_response :: context_open_response where
  "demo_open_response = \<lparr>os_success = True, os_context_id = 7, os_assets_file_count = 1, os_exportable_asset_count = 1,
     os_unity_version = None, os_assets = [], os_object_index_count = 1, os_has_more_assets = True, os_error = None\<rparr>"

definition demo_session :: "unit export_session" where
  "demo_session = \<lparr>sn_caller = (), sn_files = demo_export_fs, sn_paths = empty_path_state,
     sn_summary = opened_summary demo_open_response, sn_playables = []\<rparr>"

lemma demo_page:
  "list_page (demo_session_env demo_call) i n s =
     (Inr \<lparr>ls_success = True, ls_context_id = 7, ls_offset = 0, ls_limit = 1, ls_next_offset = None, ls_total_count = 1,
        ls_returned_count = 1, ls_assets = [demo_object ''A'' ''c'' ''audio''], ls_error = None\<rparr>, s)"
  by (cases s) (simp add: list_page_def demo_session_env_def list_request_def demo_answer_def from_ffi_def checked_response_def
      parse_assetstudio_ffi_context_list_objects_worker_output_def)

lemma demo_listing:
  "list_assetstudio_ffi_context_objects_worker (demo_session_env demo_call) 7 demo_open_response demo_session =
     Some (Inr [demo_object ''A'' ''c'' ''audio''], demo_session)"
  by (simp add: list_assetstudio_ffi_context_objects_worker_def demo_open_response_def list_loop.simps [of _ _ 0] demo_page)

lemma succeeded: "map_option (isl \<circ> fst) m = Some False \<Longrightarrow> \<exists>x s. m = Some (Inr x, s)"
  by (cases m; cases "fst (the m)") auto

lemma demo_unpack: "map_option (isl \<circ> fst) (unpack (demo_session_env demo_call) demo_export_options 7 demo_open_response demo_session) = Some False"
  by code_simp

lemma demo_enabled: "length (enabled_assets (demo_session_env demo_call) demo_export_options [demo_object ''A'' ''c'' ''audio'']) = 1"
  by code_simp

theorem export_accounts_for_every_object_witness:
  "\<exists>summary s. unpack (demo_session_env demo_call) demo_export_options 7 demo_open_response demo_session = Some (Inr summary, s) \<and>
     rp_successful_reads (plan_of summary) + length (om_skipped_object_reads summary) = 1"
proof -
  obtain summary s where run: "unpack (demo_session_env demo_call) demo_export_options 7 demo_open_response demo_session = Some (Inr summary, s)"
    using succeeded [OF demo_unpack] by blast
  from export_accounts_for_every_object [OF demo_listing _ run] run demo_enabled show ?thesis by (simp add: demo_session_def)
qed


definition stuck_call :: "unit caller" where
  "stuck_call request cf =
     (Inr (demo_answer (RespContextListObjects \<lparr>ls_success = True, ls_context_id = 7, ls_offset = 0, ls_limit = 1, ls_next_offset = Some 0,
        ls_total_count = 1, ls_returned_count = 0, ls_assets = [], ls_error = None\<rparr>)), cf)"

theorem repeated_page_never_ends_witness:
  "list_assetstudio_ffi_context_objects_worker (demo_session_env stuck_call) 7 demo_open_response demo_session = None"
proof (rule repeated_page_never_ends)
  show "\<exists>response s'. list_page (demo_session_env stuck_call) 7 0 s = (Inr response, s') \<and> ls_next_offset response = Some 0" for s
    by (cases s) (simp add: list_page_def demo_session_env_def stuck_call_def demo_answer_def from_ffi_def checked_response_def
      parse_assetstudio_ffi_context_list_objects_worker_output_def)
qed (simp add: demo_open_response_def)

end
