(* ===== verification/Export_Run.thy ===== *)
theory Export_Run
  imports Export_Session Worker_Pool
begin

text \<open>
  Running the export of a bundle in a worker of the pool or with the library in this process
  (\<^verbatim>\<open>src/core/export_pipeline/implementation/assetstudio.rs\<close>) and handing over its results
  (\<^verbatim>\<open>src/core/export_pipeline/implementation.rs\<close>). The operations on the pool and on the CPU budget are arguments here;
  \<open>Worker_Pool\<close> and \<open>Cpu_Budget\<close> have them in detail.
\<close>

section \<open>Options and requests\<close>

definition trimmed_setting :: "string option \<Rightarrow> string option" where
  "trimmed_setting path = opt_filter (\<lambda>value. value \<noteq> []) (map_option trim path)"

definition image_flush_config_for :: "app_config \<Rightarrow> nat \<Rightarrow> nat \<Rightarrow> image_flush_config option" where
  "image_flush_config_for app_config images cpu_budget =
     (let flush_bytes = st_image_flush_bytes (bk_asset_studio (ap_backends app_config)) in
      if flush_bytes = 0 then None
      else Some \<lparr>if_flush_bytes = flush_bytes, if_concurrency = images, if_cpu_budget = cpu_budget,
                 if_image_backend = bk_image (ap_backends app_config)\<rparr>)"

definition object_options_for ::
    "app_config \<Rightarrow> nat \<Rightarrow> nat \<Rightarrow> region_config \<Rightarrow> string \<Rightarrow> string \<Rightarrow> string \<Rightarrow> object_export_options" where
  "object_options_for app_config images cpu_budget region output_dir export_path strip_path_prefix =
     (let studio = bk_asset_studio (ap_backends app_config) in
      \<lparr>eo_output_dir = output_dir, eo_export_path = export_path, eo_strip_path_prefix = strip_path_prefix, eo_region = region,
       eo_read_kinds = st_read_kinds studio,
       eo_image_format = unwrap_or NATIVE_AOT_DEFAULT_IMAGE_FORMAT (st_image_format studio),
       eo_read_batch_size = st_read_batch_size studio, eo_image_flush = image_flush_config_for app_config images cpu_budget\<rparr>)"

definition open_request_for :: "regex \<Rightarrow> region_config \<Rightarrow> string \<Rightarrow> string \<Rightarrow> context_open_request" where
  "open_request_for regex region asset_bundle_file export_path =
     (let version = rr_unity_version (rg_runtime region) in
      \<lparr>oq_input_path = from_utf8_lossy asset_bundle_file, oq_asset_types = asset_studio_export_type_list regex region export_path,
       oq_unity_version = (if version \<noteq> [] then Some version else None), oq_filter_exclude_mode = False, oq_filter_with_regex = False,
       oq_filter_by_name = None, oq_filter_by_container = None, oq_filter_by_path_ids = [], oq_load_all_assets = True,
       oq_include_assets = False\<rparr>)"

section \<open>Workers of the pool\<close>

record ('w, 'c) lease_ops =
  lo_permit :: "'w \<Rightarrow> (export_error + unit) \<times> 'w"
  lo_release :: "'w \<Rightarrow> 'w"
  lo_acquire :: "bool \<Rightarrow> 'w \<Rightarrow> (ffi_error + 'c) \<times> 'w"
  lo_finish :: "'c \<Rightarrow> 'w \<Rightarrow> 'w"
  lo_kill :: "'c \<Rightarrow> 'w \<Rightarrow> 'w"

definition call_assetstudio_ffi_object_export_pooled ::
    "('w, 'c) lease_ops \<Rightarrow> ('c, 'img) session_env \<Rightarrow> bool \<Rightarrow> context_open_request \<Rightarrow> object_export_options \<Rightarrow> 'w \<times> fs \<Rightarrow>
     ((export_error + object_export_summary) \<times> 'w \<times> fs) option" where
  "call_assetstudio_ffi_object_export_pooled lo sv exclusive open_request options = (\<lambda>(w, f).
     case lo_permit lo w of
       (Inl e, w) \<Rightarrow> Some (Inl e, w, f)
     | (Inr _, w) \<Rightarrow>
         (case lo_acquire lo exclusive w of
            (Inl e, w) \<Rightarrow> Some (Inl (from_ffi_error e), lo_release lo w, f)
          | (Inr lease, w) \<Rightarrow>
              (case call_assetstudio_ffi_object_export_with_caller sv open_request options (lease, f) of
                 None \<Rightarrow> None
               | Some (Inr summary, lease, f) \<Rightarrow> Some (Inr summary, lo_release lo (lo_finish lo lease w), f)
               | Some (Inl e, lease, f) \<Rightarrow> Some (Inl e, lo_release lo (lo_kill lo lease w), f))))"

text \<open>A crash of the worker is answered by one more attempt with a worker of its own.\<close>

definition run_worker_export ::
    "('w, 'c) lease_ops \<Rightarrow> ('c, 'img) session_env \<Rightarrow> context_open_request \<Rightarrow> object_export_options \<Rightarrow> 'w \<times> fs \<Rightarrow>
     ((export_error + object_export_summary) \<times> 'w \<times> fs) option" where
  "run_worker_export lo sv open_request options wst =
     (case call_assetstudio_ffi_object_export_pooled lo sv False open_request options wst of
        None \<Rightarrow> None
      | Some (Inr summary, wst) \<Rightarrow> Some (Inr summary, wst)
      | Some (Inl error, wst) \<Rightarrow>
          if is_native_worker_signal_failure error
          then call_assetstudio_ffi_object_export_pooled lo sv True open_request options wst
          else Some (Inl error, wst))"

section \<open>The library in this process\<close>

definition direct_call :: "'h native_library \<Rightarrow> 'h caller" where
  "direct_call lib request = (\<lambda>(h, f).
     case call_typed_request lib request h of
       (Inl e, h) \<Rightarrow> (Inl (from_ffi_error e), h, f)
     | (Inr (status, response, payload), h) \<Rightarrow>
         (Inr \<lparr>wo_status = show_int status, wo_status_success = (status = 0), wo_response = response, wo_stderr = [],
               wo_payload = payload, wo_payload_file = None\<rparr>, h, f))"

definition shared_direct_assetstudio_library ::
    "(string \<Rightarrow> ffi_error + 'lib) \<Rightarrow> string \<Rightarrow> (string, 'lib) hmap \<Rightarrow> (ffi_error + 'lib) \<times> (string, 'lib) hmap" where
  "shared_direct_assetstudio_library load native_library_path libraries =
     (case map_of libraries native_library_path of
        Some library \<Rightarrow> (Inr library, libraries)
      | None \<Rightarrow>
          (case load native_library_path of
             Inl e \<Rightarrow> (Inl e, libraries)
           | Inr library \<Rightarrow> (Inr library, hmap_insert native_library_path library libraries)))"

text \<open>The permit of the CPU budget is held until the library has returned. Starting the thread and its runtime is not
  modelled.\<close>

definition call_assetstudio_ffi_object_export_direct ::
    "('w, 'c) lease_ops \<Rightarrow> (ffi_error + ('h, 'img) session_env) \<Rightarrow> context_open_request \<Rightarrow> object_export_options \<Rightarrow> 'w \<times> 'h \<times> fs \<Rightarrow>
     ((export_error + object_export_summary) \<times> 'w \<times> 'h \<times> fs) option" where
  "call_assetstudio_ffi_object_export_direct lo library open_request options = (\<lambda>(w, h, f).
     case lo_permit lo w of
       (Inl e, w) \<Rightarrow> Some (Inl e, w, h, f)
     | (Inr _, w) \<Rightarrow>
         (case library of
            Inl e \<Rightarrow> Some (Inl (from_ffi_error e), lo_release lo w, h, f)
          | Inr sv \<Rightarrow>
              (case call_assetstudio_ffi_object_export_with_caller sv open_request options (h, f) of
                 None \<Rightarrow> None
               | Some (r, h, f) \<Rightarrow> Some (r, lo_release lo w, h, f))))"

section \<open>Bundles\<close>

definition get_export_group :: "case_tables \<Rightarrow> string \<Rightarrow> string" where
  "get_export_group ct export_path =
     (if export_path = [] then ''container''
      else let normalized = ct_str ct (trim_start_matches CHR ''/'' (replace_char (CHR 0x5C) (CHR ''/'') export_path)) in
           if list_ex (\<lambda>p. starts_with p normalized)
                [''event/center'', ''event/thumbnail'', ''gacha/icon'', ''fix_prefab/mc_new'', ''mysekai/character/'']
           then ''containerFull'' else ''container'')"

definition exclude_path_prefix :: "case_tables \<Rightarrow> region_config \<Rightarrow> string \<Rightarrow> string \<Rightarrow> string" where
  "exclude_path_prefix ct region export_path category =
     (if xp_by_category (rg_export region) then ''assets/sekai/assetbundle/resources''
      else if starts_with ''mysekai'' export_path then ''assets/sekai/assetbundle/resources/ondemand''
      else ''assets/sekai/assetbundle/resources/'' @ ct_str ct category)"

definition actual_export_path :: "case_tables \<Rightarrow> region_config \<Rightarrow> string \<Rightarrow> string \<Rightarrow> string \<Rightarrow> string" where
  "actual_export_path ct region export_path output_dir category =
     (if xp_by_category (rg_export region) then path_join (path_join output_dir (ct_str ct category)) export_path
      else path_join output_dir export_path)"

text \<open>\<open>export\<close> runs the export with the library path and the prefix to strip.\<close>

definition export_unity_asset_bundle_payloads ::
    "case_tables \<Rightarrow> (string \<Rightarrow> string \<Rightarrow> 's \<Rightarrow> ((export_error + object_export_summary) \<times> 's) option) \<Rightarrow> app_config \<Rightarrow> region_config \<Rightarrow>
     string \<Rightarrow> string \<Rightarrow> string \<Rightarrow> 's \<Rightarrow> ((export_error + payload_export) \<times> 's) option" where
  "export_unity_asset_bundle_payloads ct export app_config region export_path output_dir category s =
     (case trimmed_setting (st_library_path (bk_asset_studio (ap_backends app_config))) of
        None \<Rightarrow> Some (Inl (ExAssetStudioFfi ''backends.asset_studio.library_path is required''), s)
      | Some native_library_path \<Rightarrow>
          run_bind (export native_library_path (exclude_path_prefix ct region export_path category) s) (\<lambda>summary s.
            Some (Inr \<lparr>px_export_path = (if xp_by_category (rg_export region) then output_dir
                                          else actual_export_path ct region export_path output_dir category),
                       px_export_root = output_dir, px_native_scoped_post_process = True,
                       px_native_written_files = om_written_files summary, px_native_acb_sources = om_acb_sources summary,
                       px_ffi_skipped_object_reads = om_skipped_object_reads summary,
                       px_ffi_object_read_plan = om_object_read_plan summary,
                       px_pending_image_writes = om_pending_image_writes summary\<rparr>, s)))"

section \<open>Permits and leases are given back\<close>

text \<open>A pool that counts the permits and leases that are out.\<close>

definition counting :: "('w, 'c) lease_ops \<Rightarrow> ('w \<times> nat \<times> nat, 'c) lease_ops" where
  "counting lo = \<lparr>
     lo_permit = (\<lambda>(w, p, l). case lo_permit lo w of (Inl e, w) \<Rightarrow> (Inl e, w, p, l) | (Inr x, w) \<Rightarrow> (Inr x, w, p + 1, l)),
     lo_release = (\<lambda>(w, p, l). (lo_release lo w, p - 1, l)),
     lo_acquire = (\<lambda>exclusive (w, p, l). case lo_acquire lo exclusive w of (Inl e, w) \<Rightarrow> (Inl e, w, p, l) | (Inr c, w) \<Rightarrow> (Inr c, w, p, l + 1)),
     lo_finish = (\<lambda>c (w, p, l). (lo_finish lo c w, p, l - 1)),
     lo_kill = (\<lambda>c (w, p, l). (lo_kill lo c w, p, l - 1))\<rparr>"

lemma pooled_gives_back:
  assumes "call_assetstudio_ffi_object_export_pooled (counting lo) sv exclusive open_request options ((w, p, l), f) = Some (r, (w', p', l'), f')"
  shows "p' = p \<and> l' = l"
  using assms
  by (auto simp: call_assetstudio_ffi_object_export_pooled_def counting_def split: prod.splits sum.splits option.splits)

text \<open>C37: However an export ends, the permits of the CPU budget and the leases of workers that were out before are out
  afterwards, also when a crash led to a second attempt.\<close>

theorem export_gives_back_permits_and_leases:
  assumes "run_worker_export (counting lo) sv open_request options ((w, p, l), f) = Some (r, (w', p', l'), f')"
  shows "p' = p \<and> l' = l"
proof -
  obtain r1 w1 p1 l1 f1 where one: "call_assetstudio_ffi_object_export_pooled (counting lo) sv False open_request options ((w, p, l), f) =
      Some (r1, (w1, p1, l1), f1)"
    using assms by (auto simp: run_worker_export_def split: option.splits prod.splits)
  from pooled_gives_back [OF one] assms one show ?thesis
    by (auto simp: run_worker_export_def split: sum.splits if_splits dest: pooled_gives_back)
qed

section \<open>An export that ends\<close>

definition demo_leases :: "(nat, unit) lease_ops" where
  "demo_leases = \<lparr>lo_permit = (\<lambda>w. (Inr (), w)), lo_release = id, lo_acquire = (\<lambda>_ w. (Inr (), w + 1)), lo_finish = (\<lambda>_ w. w),
     lo_kill = (\<lambda>_ w. w)\<rparr>"

definition refusing_call :: "unit caller" where
  "refusing_call request cf = (Inl (ExAssetStudioFfi ''refused''), cf)"

theorem export_gives_back_permits_and_leases_witness:
  "\<exists>r w f. run_worker_export (counting demo_leases) (demo_session_env refusing_call) demo_open_request demo_export_options
     ((0, 3, 2), demo_export_fs) = Some (r, (w, 3, 2), f)"
proof -
  obtain r w p l f where run: "run_worker_export (counting demo_leases) (demo_session_env refusing_call) demo_open_request demo_export_options
      ((0, 3, 2), demo_export_fs) = Some (r, (w, p, l), f)"
    by (simp add: run_worker_export_def call_assetstudio_ffi_object_export_pooled_def counting_def demo_leases_def
        call_assetstudio_ffi_object_export_with_caller_def demo_session_env_def refusing_call_def)
  with export_gives_back_permits_and_leases [OF run] show ?thesis by blast
qed

end
