(* ===== verification/Spec2Isabelle.thy ===== *)
theory Spec2Isabelle
  imports Config_Env Hip_Client Updater Plan Worker_Pool Native_Ffi Cpu_Budget
    Export_Run
begin

text \<open>
  \<^bold>\<open>Verification of the Haruki asset updater\<close>

  The program polls the asset servers of a game, finds the bundles that changed since the last update,
  downloads, exports and post-processes them, and hands the results to a gateway or to cloud storage. This
  development models the decisions it takes, as functions on the data the sources work on, and proves what
  makes them correct.

  \<^bold>\<open>The parts and how they work together\<close>

  A region is polled in ticks (\<^verbatim>\<open>src/service/poller.rs\<close>, theory \<open>Poller\<close>). A tick fetches the current version,
  compares it with the watermark of the last success (\<^verbatim>\<open>watermark.rs\<close>, \<open>Watermark\<close>), fetches the bundle list
  (\<^verbatim>\<open>core/asset_execution.rs\<close>, \<open>Asset_Info\<close>), compares it with the last snapshot (\<^verbatim>\<open>core/bundle_diff.rs\<close>,
  \<open>Bundle_Diff\<close>), asks the gateway which bundles to skip, and runs the executor (\<open>Executor\<close>, \<open>Executor_Loop\<close>) on
  the planned downloads (\<open>Asset_Plan\<close>). What the executor produces is forwarded (\<open>Updater\<close>) to the uploader
  (\<open>Uploader\<close>), which sends files and commits over a session of the gateway protocol (\<^verbatim>\<open>core/hip/\<close>, \<open>Hip_Frame\<close>,
  \<open>Hip_Messages\<close>, \<open>Hip_Client\<close>). Afterwards the snapshot is rewritten, the work directory removed and the watermark
  set. The configuration (\<^verbatim>\<open>core/config.rs\<close>, \<open>Config_Types\<close>, \<open>Config\<close>, \<open>Config_Env\<close>) and the retry loops (\<^verbatim>\<open>core/retry.rs\<close>,
  \<^verbatim>\<open>core/cleanup.rs\<close>, \<open>Retry\<close>) serve all of them. Exported files can go to cloud storage (\<^verbatim>\<open>core/storage.rs\<close>,
  \<open>Storage\<close>), chart hashes to a git repository (\<^verbatim>\<open>core/git_sync.rs\<close>, \<open>Git_Sync\<close>); dry runs end with a plan
  (\<^verbatim>\<open>core/pipeline.rs\<close>, \<open>Plan\<close>).

  Bundles are exported by a native library (\<^verbatim>\<open>crates/assetstudio-ffi\<close>), called in worker processes. \<open>Ffi_Types\<close> has its
  requests and responses, \<open>Native_Abi\<close> the C structures and the checks when it is loaded, \<open>Native_Ffi\<close> the calls,
  \<open>Payload_Bundle\<close> the format of what it returns, \<open>Ffi_Worker\<close> the frames between the updater and a worker,
  \<open>Worker_Pool\<close> the leases on workers and \<open>Cpu_Budget\<close> the limiter shared by exports and image encoding
  (\<^verbatim>\<open>implementation/limits.rs\<close>).

  What the library returns is turned into files by the export pipeline (\<^verbatim>\<open>core/export_pipeline/implementation\<close>):
  \<open>Export_Pool\<close> has the threads of \<^verbatim>\<open>tasks.rs\<close>, \<open>Usm_Inputs\<close> the movie segments and directory searches of the same file,
  \<open>Export_Names\<close> the type selectors of \<^verbatim>\<open>assetstudio.rs\<close> and the public names of \<^verbatim>\<open>paths.rs\<close>, \<open>Export_Paths\<close> the paths
  objects are written to; \<open>Export_Claims\<close> has the claims on these paths, \<open>Export_Images\<close> the images (\<^verbatim>\<open>images.rs\<close>), \<open>Export_Write\<close>
  the writing of objects, bundles, timelines and the manifest (\<^verbatim>\<open>payload.rs\<close>); \<open>Export_Base\<close> has what they share.
  \<open>Export_Select\<close> decides which objects of a bundle are read and in which batches, \<open>Export_Session\<close> is the dialogue with the
  library about one bundle, \<open>Export_Run\<close> the leases, permits and retries around it (\<^verbatim>\<open>assetstudio.rs\<close>).

  \<^bold>\<open>How the model is built\<close>

  Structures are records and enums datatypes with the sources' names, prefixed where they would clash.
  Strings are their UTF-8 bytes (\<open>Haruki_Prelude\<close> has trimming, splitting, replacing, numbers; \<open>Utf8\<close> lossy
  decoding), paths follow the rules of Unix (\<open>Unix_Path\<close>). Fallible operations return a sum whose left side is the
  error value of the sources. Files live in the record of \<open>File_System\<close>, where a schedule decides which
  operation fails, how, and after how many bytes. Concurrency is an explicit schedule of actions: for the executor
  (\<open>exec_apply\<close>, \<open>exec_run\<close>), the upload pool of \<open>Storage\<close> (\<open>upload_step\<close>), the poller's regions (\<open>poller_step\<close>) and the files
  of a batch (\<open>upload_loop\<close>). HTTP, TLS and sockets, the gateway, the git program, the storage backend,
  cryptography, msgpack and JSON printers, regular expressions, the native exporter and the clock are arguments;
  what a theorem needs of them is a hypothesis of the theorem.

  Hash maps are association lists with distinct keys (\<open>hmap_wf\<close>), ordered maps sorted ones (\<open>btmap_wf\<close>).
  Sizes that the sources only compare or saturate are natural numbers with the saturation written out; lengths on
  the wire are words.

  \<^bold>\<open>What is shown\<close>

  \<^item> \<open>Config\<close>, \<open>Config_Env\<close>: loading gives a valid configuration; overrides from the environment set
    exactly the path they name; effective concurrency is bounded.
  \<^item> \<open>Retry\<close>: the retry loops meet one contract (locale \<open>bounded_attempts\<close>), interpreted for all of them; delays
    double up to their limit.
  \<^item> \<open>Bundle_Diff\<close>, \<open>Watermark\<close>: comparison against its declarative specification; saving is atomic under every fault
    (locale \<open>atomic_store\<close>), loading gives back what was saved.
  \<^item> \<open>Asset_Plan\<close>, \<open>Regions\<close>, \<open>Unix_Path\<close>: the planned downloads exactly; raw bundle paths stay under their root.
  \<^item> \<open>Hip_Frame\<close>, \<open>Hip_Messages\<close>, \<open>Hip_Client\<close>: framing round trips and refusals; answers reach the request they
    belong to; nobody waits after the reader ended; uploads send the declared bytes.
  \<^item> \<open>Uploader\<close>, \<open>Poller\<close>, \<open>Updater\<close>: each bundle is committed once, watermarks need success, retries
    and permits are bounded, the next comparison sees what was not processed; filters meet the locale \<open>task_filter\<close>.
  \<^item> \<open>Executor_Loop\<close>: limits hold, no deadlock, every task is accounted for, completed bundles are not planned
    again.
  \<^item> \<open>Storage\<close>, \<open>Git_Sync\<close>, \<open>Plan\<close>: uploads are complete before anything local is removed; the pool finishes (locale
    \<open>task_pool\<close>); credentials survive encoding; plans agree with uploads.

  \<^item> \<open>Payload_Bundle\<close>, \<open>Native_Ffi\<close>, \<open>Native_Abi\<close>: the parser accepts exactly the bundle format and gives back what was
    written; responses have the kind of their request; a library is used only when every size and version agrees.
  \<^item> \<open>Ffi_Worker\<close>, \<open>Worker_Pool\<close>, \<open>Cpu_Budget\<close>: a call over the pipe returns what the library returns; leases, processes
    and permits are bounded; exports finish, unless they flush images while holding the permit the images need.

  \<^item> \<open>Export_Pool\<close>: every schedule of the threads returns the results of all tasks, and the threads end (the same locale
    \<open>task_pool\<close>). \<open>Usm_Inputs\<close>: files are kept or merged in the order of their segments.
  \<^item> \<open>Export_Paths\<close>: bundle entries stay under the directory of their object, objects under the output directory when
    their container never climbs up.
  \<^item> \<open>Export_Claims\<close>, \<open>Export_Write\<close>, \<open>Export_Images\<close>: an object is stored once and overwrites nothing, the search for its path
    ends, queued images are counted and written to the planned files.
  \<^item> \<open>Export_Select\<close>, \<open>Export_Session\<close>, \<open>Export_Run\<close>: batches keep the order of objects and isolate images; a session opens, lists,
    reads and closes one context, and accounts for every object; listing ends when pages advance; permits and leases
    are given back.

  Some theorems state behaviour that is not what the sources intend; the manifest lists them as findings.

  \<^bold>\<open>Bounds\<close>

  Recursion is structural or has a decreasing measure, except for two loops with fuel: the pruning of empty
  directories (\<open>prune_loop\<close>) gets one unit per path component, and the reader of a session runs over the finite
  input. An executor run takes at most eight actions per task, an upload at most four.

  \<^bold>\<open>Not modelled\<close>

  Decoding of audio, video and images (\<^verbatim>\<open>core/codec.rs\<close>, \<^verbatim>\<open>core/media\<close>, \<^verbatim>\<open>images.rs\<close>) is done by libraries and foreign
  functions, and so is the native library behind \<^verbatim>\<open>crates/assetstudio-ffi\<close>; the HTTP status server, logging, memory
  telemetry and \<^verbatim>\<open>main.rs\<close> are input and output. The export pipeline between the native exporter and the
  post-processed files enters as an argument of the executor.
\<close>

end
